(* ===== verification/Go_Prelude.thy ===== *)
theory Go_Prelude
  imports Main "HOL-Library.Word"
begin

text \<open>
  The prelude of the development: what the Go sources use of the language and of its standard
  library, and the generic lemmas the components share.

  \<^item> A Go call that can return an error or panic is a value of \<open>'a go\<close>: \<open>Inl (Err m)\<close> for a
    returned error (named after the error variable or its format string), \<open>Inl (Panic p)\<close> for a
    run-time panic, \<open>Inr x\<close> for a result.  \<open>bnd\<close> sequences two calls.
  \<^item> A value of type \<open>*big.Int\<close> is a \<open>bigint\<close>: \<open>None\<close> is nil, and reading nil panics (\<open>deref\<close>).
    Where the source can only hold a non-nil number the model uses \<open>int\<close>.
  \<^item> Slices are lists; \<open>idx\<close> and \<open>upd\<close> panic out of range, as Go does.
  \<^item> \<open>math/big\<close>: \<open>big_div\<close>/\<open>big_mod\<close> are the Euclidean \<open>Div\<close>/\<open>Mod\<close>, \<open>big_quo\<close>/\<open>big_rem\<close> the
    truncated \<open>Quo\<close>/\<open>Rem\<close>, \<open>big_exp\<close> is \<open>Exp\<close> with a nil modulus.  Division by a positive
    constant of the source is written with HOL's \<open>div\<close>, which agrees with \<open>Div\<close> there
    (lemma \<open>big_div_pos\<close>).
  \<^item> Strings are byte lists; \<open>strings.ToLower\<close> and \<open>strings.EqualFold\<close> are modelled on ASCII,
    which is what addresses and pool types are.
\<close>

named_theorems go_simps \<open>inversion rules for the outcome monad\<close>

subsection \<open>Outcomes\<close>

datatype go_panic = NilDereference | IndexOutOfRange | DivisionByZero | PanicMessage string

datatype go_error = Panic go_panic | Err string

type_synonym 'a go = "go_error + 'a"

type_synonym bigint = "int option"

definition bnd :: "'a go \<Rightarrow> ('a \<Rightarrow> 'b go) \<Rightarrow> 'b go" where
  "bnd m f = (case m of Inl e \<Rightarrow> Inl e | Inr x \<Rightarrow> f x)"

definition guard :: "bool \<Rightarrow> go_error \<Rightarrow> unit go" where
  "guard b e = (if b then Inr () else Inl e)"

definition is_panic :: "'a go \<Rightarrow> bool" where
  "is_panic m = (case m of Inl (Panic _) \<Rightarrow> True | _ \<Rightarrow> False)"

lemma bnd_Inr [simp]: "bnd (Inr x) f = f x"
  by (simp add: bnd_def)

lemma bnd_Inl [simp]: "bnd (Inl e) f = Inl e"
  by (simp add: bnd_def)

lemma bnd_eq_Inr [go_simps]: "(bnd m f = Inr y) = (\<exists>x. m = Inr x \<and> f x = Inr y)"
  by (cases m) auto

lemma bnd_eq_Inl [go_simps]:
  "(bnd m f = Inl e) = (m = Inl e \<or> (\<exists>x. m = Inr x \<and> f x = Inl e))"
  by (cases m) auto

lemma bnd_assoc: "bnd (bnd m f) g = bnd m (\<lambda>x. bnd (f x) g)"
  by (cases m) auto

lemma bnd_cong [fundef_cong]:
  assumes "m = m'" and "\<And>x. m' = Inr x \<Longrightarrow> f x = g x"
  shows "bnd m f = bnd m' g"
  using assms by (cases m') auto

lemma guard_eq_Inr [go_simps]: "(guard b e = Inr u) = b"
  by (simp add: guard_def)

lemma guard_eq_Inl [go_simps]: "(guard b e = Inl e') = (\<not> b \<and> e' = e)"
  by (auto simp: guard_def)

lemma guard_True [simp]: "guard True e = Inr ()"
  and guard_False [simp]: "guard False e = Inl e"
  by (simp_all add: guard_def)

lemma is_panic_simps [simp]:
  "is_panic (Inr x) = False" "is_panic (Inl (Err m)) = False" "is_panic (Inl (Panic p)) = True"
  by (simp_all add: is_panic_def)

text \<open>A call that may also never return is a \<open>'a go option\<close>; \<open>call\<close> sequences two of them.\<close>

definition call :: "'a go option \<Rightarrow> ('a \<Rightarrow> 'b go option) \<Rightarrow> 'b go option" where
  "call m f = (case m of None \<Rightarrow> None | Some (Inl e) \<Rightarrow> Some (Inl e) | Some (Inr x) \<Rightarrow> f x)"

lemma call_simps [simp]:
  "call None f = None" "call (Some (Inl e)) f = Some (Inl e)" "call (Some (Inr x)) f = f x"
  by (simp_all add: call_def)

lemma call_bind: "call m f = Option.bind m (\<lambda>r. case r of Inl e \<Rightarrow> Some (Inl e) | Inr x \<Rightarrow> f x)"
  by (auto simp: call_def split: option.splits sum.splits)

lemma call_mono [partial_function_mono]:
  assumes "mono_option B" and "\<And>y. mono_option (\<lambda>f. C y f)"
  shows "mono_option (\<lambda>f. call (B f) (\<lambda>y. C y f))"
  unfolding call_bind
proof (rule bind_mono [OF assms(1)])
  fix r
  show "mono_option (\<lambda>f. case r of Inl e \<Rightarrow> Some (Inl e) | Inr x \<Rightarrow> C x f)"
    using assms(2) by (cases r) (auto intro: option.const_mono)
qed

lemma call_eq_Inr [go_simps]: "(call m f = Some (Inr y)) = (\<exists>x. m = Some (Inr x) \<and> f x = Some (Inr y))"
  by (auto simp: call_def split: option.splits sum.splits)

subsection \<open>Pointers and slices\<close>

definition deref :: "'a option \<Rightarrow> 'a go" where
  "deref p = (case p of None \<Rightarrow> Inl (Panic NilDereference) | Some x \<Rightarrow> Inr x)"

definition idx :: "'a list \<Rightarrow> int \<Rightarrow> 'a go" where
  "idx xs i = (if 0 \<le> i \<and> i < int (length xs) then Inr (xs ! nat i)
               else Inl (Panic IndexOutOfRange))"

definition upd :: "'a list \<Rightarrow> int \<Rightarrow> 'a \<Rightarrow> 'a list go" where
  "upd xs i v = (if 0 \<le> i \<and> i < int (length xs) then Inr (xs[nat i := v])
                 else Inl (Panic IndexOutOfRange))"

definition big_at :: "bigint list \<Rightarrow> int \<Rightarrow> int go" where
  "big_at xs i = bnd (idx xs i) deref"

text \<open>\<open>xs[i] = new(big.Int).Add(xs[i], d)\<close>.\<close>

definition add_at :: "bigint list \<Rightarrow> int \<Rightarrow> int \<Rightarrow> bigint list go" where
  "add_at xs i d = bnd (big_at xs i) (\<lambda>x. upd xs i (Some (x + d)))"

lemma deref_Some [simp]: "deref (Some x) = Inr x"
  and deref_None [simp]: "deref None = Inl (Panic NilDereference)"
  by (simp_all add: deref_def)

lemma deref_eq_Inr [go_simps]: "(deref p = Inr x) = (p = Some x)"
  by (cases p) auto

lemma idx_eq_Inr [go_simps]:
  "(idx xs i = Inr x) = (0 \<le> i \<and> i < int (length xs) \<and> xs ! nat i = x)"
  by (auto simp: idx_def)

lemma idx_in [simp]: "0 \<le> i \<Longrightarrow> i < int (length xs) \<Longrightarrow> idx xs i = Inr (xs ! nat i)"
  by (simp add: idx_def)

lemma upd_eq_Inr [go_simps]:
  "(upd xs i v = Inr ys) = (0 \<le> i \<and> i < int (length xs) \<and> ys = xs[nat i := v])"
  by (auto simp: upd_def)

lemma upd_in [simp]: "0 \<le> i \<Longrightarrow> i < int (length xs) \<Longrightarrow> upd xs i v = Inr (xs[nat i := v])"
  by (simp add: upd_def)

lemma big_at_eq_Inr [go_simps]:
  "(big_at xs i = Inr x) = (0 \<le> i \<and> i < int (length xs) \<and> xs ! nat i = Some x)"
  by (auto simp: big_at_def go_simps)

lemma big_at_in:
  "0 \<le> i \<Longrightarrow> i < int (length xs) \<Longrightarrow> xs ! nat i = Some x \<Longrightarrow> big_at xs i = Inr x"
  by (simp add: big_at_def)

lemma big_at_pair [simp]:
  "big_at [Some x, y] 0 = Inr x" "big_at [y, Some x] 1 = Inr x"
  by (simp_all add: big_at_def)

lemma add_at_pair [simp]:
  "add_at [Some x, y] 0 d = Inr [Some (x + d), y]" "add_at [y, Some x] 1 d = Inr [y, Some (x + d)]"
  by (simp_all add: add_at_def)

text \<open>A loop that fills a slice element by element, and \<open>for i := range n\<close> as the list of its
  indices.\<close>

fun go_map :: "('a \<Rightarrow> 'b go) \<Rightarrow> 'a list \<Rightarrow> 'b list go" where
  "go_map f [] = Inr []"
| "go_map f (x # xs) = bnd (f x) (\<lambda>y. bnd (go_map f xs) (\<lambda>ys. Inr (y # ys)))"

definition range_n :: "nat \<Rightarrow> int list" where
  "range_n n = map int [0..<n]"

lemma go_map_Inr: "(\<And>x. x \<in> set xs \<Longrightarrow> f x = Inr (g x)) \<Longrightarrow> go_map f xs = Inr (map g xs)"
  by (induction xs) auto

lemma go_map_length: "go_map f xs = Inr ys \<Longrightarrow> length ys = length xs"
  by (induction xs arbitrary: ys) (auto simp: bnd_eq_Inr)

lemma length_range_n [simp]: "length (range_n n) = n"
  by (simp add: range_n_def)

lemma nth_range_n [simp]: "i < n \<Longrightarrow> range_n n ! i = int i"
  by (simp add: range_n_def)

subsection \<open>math/big\<close>

definition big_div :: "int \<Rightarrow> int \<Rightarrow> int go" where
  "big_div a b = (if b = 0 then Inl (Panic DivisionByZero) else Inr (sgn b * (a div \<bar>b\<bar>)))"

definition big_mod :: "int \<Rightarrow> int \<Rightarrow> int go" where
  "big_mod a b = (if b = 0 then Inl (Panic DivisionByZero) else Inr (a mod \<bar>b\<bar>))"

definition big_quo :: "int \<Rightarrow> int \<Rightarrow> int go" where
  "big_quo a b = (if b = 0 then Inl (Panic DivisionByZero)
                  else Inr (sgn a * sgn b * (\<bar>a\<bar> div \<bar>b\<bar>)))"

definition big_rem :: "int \<Rightarrow> int \<Rightarrow> int go" where
  "big_rem a b = (if b = 0 then Inl (Panic DivisionByZero) else Inr (sgn a * (\<bar>a\<bar> mod \<bar>b\<bar>)))"

definition big_exp :: "int \<Rightarrow> int \<Rightarrow> int" where
  "big_exp x y = (if y \<le> 0 then 1 else x ^ nat y)"

lemma big_div_pos [simp]: "0 < b \<Longrightarrow> big_div a b = Inr (a div b)"
  by (simp add: big_div_def)

lemma big_div_zero [simp]: "big_div a 0 = Inl (Panic DivisionByZero)"
  by (simp add: big_div_def)

lemma big_div_eq_Inr [go_simps]: "(big_div a b = Inr q) = (b \<noteq> 0 \<and> q = sgn b * (a div \<bar>b\<bar>))"
  by (auto simp: big_div_def)

lemma big_quo_nonneg: "0 \<le> a \<Longrightarrow> 0 < b \<Longrightarrow> big_quo a b = Inr (a div b)"
  by (cases "a = 0") (simp_all add: big_quo_def)

text \<open>The Euclidean division of \<open>math/big\<close>: quotient and remainder reassemble the dividend and
  the remainder is never negative.\<close>

lemma big_div_mod:
  assumes "big_div a b = Inr q" and "big_mod a b = Inr r"
  shows "a = q * b + r \<and> 0 \<le> r \<and> r < \<bar>b\<bar>"
proof -
  have b: "b \<noteq> 0" and q: "q = sgn b * (a div \<bar>b\<bar>)" and r: "r = a mod \<bar>b\<bar>"
    using assms by (auto simp: big_div_def big_mod_def split: if_splits)
  have "q * b = (a div \<bar>b\<bar>) * \<bar>b\<bar>"
    unfolding q by (cases "0 < b") (use b in auto)
  with r have "a = q * b + r"
    by (metis div_mult_mod_eq)
  moreover have "0 \<le> r" and "r < \<bar>b\<bar>"
    using b by (simp_all add: r)
  ultimately show ?thesis
    by simp
qed

subsection \<open>Fixed-width integers\<close>

definition int64 :: "int \<Rightarrow> int" where
  "int64 i = (i + 2 ^ 63) mod 2 ^ 64 - 2 ^ 63"

definition uint8 :: "int \<Rightarrow> int" where
  "uint8 i = i mod 2 ^ 8"

lemma int64_id: "- (2 ^ 63) \<le> i \<Longrightarrow> i < 2 ^ 63 \<Longrightarrow> int64 i = i"
  by (simp add: int64_def)

lemma uint8_id: "0 \<le> i \<Longrightarrow> i < 256 \<Longrightarrow> uint8 i = i"
  by (simp add: uint8_def)

subsection \<open>Strings\<close>

definition to_lower_char :: "char \<Rightarrow> char" where
  "to_lower_char c = (let n = (of_char c :: nat) in
     if 65 \<le> n \<and> n \<le> 90 then char_of (n + 32) else c)"

definition to_lower :: "string \<Rightarrow> string" where
  "to_lower s = map to_lower_char s"

lemma to_lower_char_idem: "to_lower_char (to_lower_char c) = to_lower_char c"
  by (auto simp: to_lower_char_def Let_def)

lemma to_lower_idem [simp]: "to_lower (to_lower s) = to_lower s"
  by (simp add: to_lower_def to_lower_char_idem)

definition equal_fold :: "string \<Rightarrow> string \<Rightarrow> bool" where
  "equal_fold s t = (to_lower s = to_lower t)"

lemma equal_fold_refl [simp]: "equal_fold s s"
  by (simp add: equal_fold_def)

lemma equal_fold_sym: "equal_fold s t = equal_fold t s"
  by (auto simp: equal_fold_def)

text \<open>\<open>(*big.Int).SetString(s, 10)\<close>: an optional sign and at least one decimal digit, nil
  otherwise; and \<open>(*big.Int).String()\<close>.\<close>

definition digit_val :: "char \<Rightarrow> int option" where
  "digit_val c = (let n = int (of_char c :: nat) in
     if 48 \<le> n \<and> n \<le> 57 then Some (n - 48) else None)"

fun parse_digits :: "int \<Rightarrow> string \<Rightarrow> int option" where
  "parse_digits acc [] = Some acc"
| "parse_digits acc (c # cs) =
     (case digit_val c of None \<Rightarrow> None | Some d \<Rightarrow> parse_digits (10 * acc + d) cs)"

definition parse_unsigned :: "string \<Rightarrow> int option" where
  "parse_unsigned s = (if s = [] then None else parse_digits 0 s)"

definition set_string10 :: "string \<Rightarrow> bigint" where
  "set_string10 s = (case s of
     [] \<Rightarrow> None
   | c # cs \<Rightarrow> if c = CHR ''-'' then map_option uminus (parse_unsigned cs)
               else if c = CHR ''+'' then parse_unsigned cs
               else parse_unsigned s)"

fun nat_string :: "nat \<Rightarrow> string" where
  "nat_string n = (if n < 10 then [char_of (48 + n)]
                   else nat_string (n div 10) @ [char_of (48 + n mod 10)])"

definition big_string :: "int \<Rightarrow> string" where
  "big_string i = (if i < 0 then CHR ''-'' # nat_string (nat (- i)) else nat_string (nat i))"

declare nat_string.simps [simp del]

lemma digit_val_char_of: "n < 10 \<Longrightarrow> digit_val (char_of (48 + n)) = Some (int n)"
  by (simp add: digit_val_def Let_def)

lemma parse_digits_append:
  "parse_digits acc (xs @ ys) = Option.bind (parse_digits acc xs) (\<lambda>a. parse_digits a ys)"
  by (induction xs arbitrary: acc) (auto split: option.splits)

lemma nat_string_nonempty: "nat_string n \<noteq> []"
  by (subst nat_string.simps) simp

lemma parse_nat_string: "parse_digits 0 (nat_string n) = Some (int n)"
proof (induction n rule: nat_string.induct)
  case (1 n)
  show ?case
  proof (cases "n < 10")
    case True
    then show ?thesis
      by (subst nat_string.simps) (simp add: digit_val_char_of)
  next
    case False
    have "int n = 10 * (int n div 10) + int n mod 10"
      by simp
    with False "1.IH" show ?thesis
      by (subst nat_string.simps)
         (simp add: parse_digits_append digit_val_char_of zdiv_int zmod_int)
  qed
qed

lemma hd_nat_string: "digit_val (hd (nat_string n)) \<noteq> None"
proof -
  obtain c cs where cs: "nat_string n = c # cs"
    using nat_string_nonempty by (cases "nat_string n") auto
  with parse_nat_string [of n] show ?thesis
    by (auto split: option.splits)
qed

text \<open>Printing a number and reading it back in base ten gives the number.\<close>

lemma set_string10_big_string: "set_string10 (big_string i) = Some i"
proof -
  have parse: "parse_unsigned (nat_string n) = Some (int n)" for n
    by (simp add: parse_unsigned_def nat_string_nonempty parse_nat_string)
  have sign: "c \<noteq> CHR ''-'' \<and> c \<noteq> CHR ''+''" if "nat_string n = c # cs" for n c cs
    using hd_nat_string [of n] that by (auto simp: digit_val_def Let_def)
  show ?thesis
  proof (cases "i < 0")
    case True
    then show ?thesis
      by (simp add: big_string_def set_string10_def parse)
  next
    case False
    obtain c cs where cs: "nat_string (nat i) = c # cs"
      using nat_string_nonempty by (cases "nat_string (nat i)") auto
    with sign [OF cs] parse [of "nat i"] False show ?thesis
      by (simp add: big_string_def set_string10_def)
  qed
qed

subsection \<open>Floor division\<close>

lemma floor_le: "0 < b \<Longrightarrow> (a div b) * b \<le> (a::int)"
  by (metis add.commute div_mult_mod_eq le_add_same_cancel2 pos_mod_sign)

lemma floor_gt: "0 < b \<Longrightarrow> (a::int) < (a div b + 1) * b"
  by (metis add_strict_left_mono distrib_right div_mult_mod_eq mult_1 pos_mod_bound)

lemma floor_geI: "0 < b \<Longrightarrow> q * b \<le> (a::int) \<Longrightarrow> q \<le> a div b"
  by (metis zdiv_mono1 nonzero_mult_div_cancel_right order_less_irrefl)

lemma floor_le_self: "0 \<le> a \<Longrightarrow> 0 < b \<Longrightarrow> a div b \<le> (a::int)"
  using zdiv_mono2 [of a 1 b] by simp

lemma floor_nonneg_nonneg: "0 \<le> a \<Longrightarrow> 0 \<le> b \<Longrightarrow> 0 \<le> a div (b::int)"
  by (cases "b = 0") (simp_all add: pos_imp_zdiv_nonneg_iff)

lemma floor_superadd: "0 < b \<Longrightarrow> x div b + y div b \<le> (x + y) div (b::int)"
  using floor_le [of b x] floor_le [of b y] by (intro floor_geI) (simp_all add: distrib_right)

lemma floor_nonneg [simp]: "0 < b \<Longrightarrow> (0 \<le> a div b) = (0 \<le> (a::int))"
  by (rule pos_imp_zdiv_nonneg_iff)

end
