(* ===== verification/Go_Float.thy ===== *)
theory Go_Float
  imports Go_Prelude
begin

text \<open>
  The floating-point arithmetic the pool constructors use: a finite \<open>float64\<close> or \<open>big.Float\<close> is a
  pair \<open>(m, e)\<close> that stands for \<open>m * 2 ^ e\<close>.  \<open>big_float_round\<close> rounds the mantissa to a precision,
  to nearest even, which is the mode \<open>big.Float\<close> has by default; \<open>big_float_mul\<close> rounds the exact
  product to the larger precision of the operands, and \<open>big_float_int\<close> is \<open>(*big.Float).Int\<close>,
  which truncates towards zero.
\<close>

type_synonym float64 = "int \<times> int"

function bit_length :: "int \<Rightarrow> nat" where
  "bit_length n = (if n \<le> 0 then 0 else Suc (bit_length (n div 2)))"
  by pat_completeness auto
termination by (relation "measure nat") auto

declare bit_length.simps [simp del]

definition big_float_round :: "nat \<Rightarrow> float64 \<Rightarrow> float64" where
  "big_float_round prec x =
     (let m = \<bar>fst x\<bar>; k = bit_length m - prec in
      if k = 0 then x
      else let q = m div 2 ^ k; r = m mod 2 ^ k; half = 2 ^ (k - 1);
               q' = (if half < r \<or> r = half \<and> odd q then q + 1 else q)
           in (sgn (fst x) * q', snd x + int k))"

definition big_float_mul :: "nat \<Rightarrow> float64 \<Rightarrow> float64 \<Rightarrow> float64" where
  "big_float_mul prec x y = big_float_round prec (fst x * fst y, snd x + snd y)"

definition big_float_int :: "float64 \<Rightarrow> int" where
  "big_float_int x =
     (if 0 \<le> snd x then fst x * 2 ^ nat (snd x)
      else sgn (fst x) * (\<bar>fst x\<bar> div 2 ^ nat (- snd x)))"

lemma bit_length_bound: "n < 2 ^ bit_length n"
proof (induction n rule: bit_length.induct)
  case (1 n)
  show ?case
  proof (cases "n \<le> 0")
    case False
    with "1.IH" have "n div 2 < 2 ^ bit_length (n div 2)" by simp
    then have "n < 2 * 2 ^ bit_length (n div 2)" by linarith
    with False show ?thesis by (subst bit_length.simps) simp
  qed (simp add: bit_length.simps)
qed

text \<open>Rounding keeps at most the wanted number of bits (or carries into the next power of two).\<close>

lemma big_float_round_bound: "\<bar>fst (big_float_round prec x)\<bar> \<le> 2 ^ prec"
proof -
  define m where "m = \<bar>fst x\<bar>"
  define k where "k = bit_length m - prec"
  have m: "m < 2 ^ bit_length m"
    by (rule bit_length_bound)
  show ?thesis
  proof (cases "k = 0")
    case True
    then have "(2::int) ^ bit_length m \<le> 2 ^ prec"
      by (intro power_increasing) (simp_all add: k_def)
    with m have "m \<le> 2 ^ prec" by linarith
    with True show ?thesis by (simp add: big_float_round_def Let_def m_def k_def)
  next
    case False
    then have "bit_length m = prec + k" by (simp add: k_def)
    with m have "m < 2 ^ prec * 2 ^ k" by (simp add: power_add)
    moreover have "m div 2 ^ k * 2 ^ k \<le> m" by (rule floor_le) simp
    ultimately have "m div 2 ^ k * 2 ^ k < 2 ^ prec * 2 ^ k" by linarith
    then have "m div 2 ^ k < 2 ^ prec" by simp
    moreover have "0 \<le> m div 2 ^ k" by (simp add: m_def)
    ultimately show ?thesis
      unfolding big_float_round_def Let_def m_def [symmetric] k_def [symmetric]
      using False by (auto simp: abs_mult sgn_if)
  qed
qed

end
