(* ===== verification/Bignumber.thy ===== *)
theory Bignumber
  imports Go_Prelude
begin

text \<open>
  The package \<open>pkg/util/bignumber\<close>: the shared big-integer constants, powers of ten, parsing,
  clamping and rounding multiply-divide.  The \<open>big.Float\<close> helper \<open>TenPowDecimals\<close> and the
  \<open>uint256\<close> parser are not modelled.  \<open>lo.Reduce\<close> and \<open>lo.Map\<close> come from a third-party package
  and are parameters of \<open>Sum\<close> and \<open>ToStrings\<close>.
\<close>

definition BONE :: int where
  "BONE = 10 ^ 18"

definition MinSqrtRatio :: int where
  "MinSqrtRatio = 4295128739"

definition MaxSqrtRatio :: int where
  "MaxSqrtRatio = 1461446703485210103287273052203988822378723970342"

definition BasisPoint :: int where
  "BasisPoint = 10000"

definition preTenPowInt :: "int list" where
  "preTenPowInt = map (\<lambda>n. 10 ^ n) [0..<19]"

definition TenPowInt :: "int \<Rightarrow> int go" where
  "TenPowInt decimals =
     (if decimals < 0 then Inl (Panic (PanicMessage ''decimals cannot be negative: %d''))
      else if decimals \<le> 18 then idx preTenPowInt decimals
      else Inr (big_exp 10 decimals))"

definition NewBig10 :: "string \<Rightarrow> bigint" where
  "NewBig10 s = set_string10 s"

text \<open>\<open>(*big.Int).SetString(s, 0)\<close>: the base comes from the prefix, and single underscores may follow the
  prefix or separate digits.\<close>

datatype scan_state = Start | Prefix | Digit | Underscore

definition base_digit :: "int \<Rightarrow> char \<Rightarrow> int option" where
  "base_digit base c =
     (let n = int (of_char c :: nat);
          v = (if 48 \<le> n \<and> n \<le> 57 then n - 48
               else if 97 \<le> n \<and> n \<le> 122 then n - 87
               else if 65 \<le> n \<and> n \<le> 90 then n - 55 else base)
      in if v < base then Some v else None)"

fun scan_digits :: "int \<Rightarrow> scan_state \<Rightarrow> int \<Rightarrow> string \<Rightarrow> int option" where
  "scan_digits base st acc [] = (if st = Digit then Some acc else None)"
| "scan_digits base st acc (c # cs) =
     (if c = CHR 0x5F
      then (if st = Prefix \<or> st = Digit then scan_digits base Underscore acc cs else None)
      else case base_digit base c of
             None \<Rightarrow> None
           | Some v \<Rightarrow> scan_digits base Digit (base * acc + v) cs)"

definition scan_unsigned :: "string \<Rightarrow> int option" where
  "scan_unsigned s =
     (case s of
        CHR ''0'' # c # cs \<Rightarrow>
          if c \<in> {CHR ''b'', CHR ''B''} then scan_digits 2 Prefix 0 cs
          else if c \<in> {CHR ''o'', CHR ''O''} then scan_digits 8 Prefix 0 cs
          else if c \<in> {CHR ''x'', CHR ''X''} then scan_digits 16 Prefix 0 cs
          else scan_digits 8 Digit 0 (c # cs)
      | _ \<Rightarrow> scan_digits 10 Start 0 s)"

definition set_string0 :: "string \<Rightarrow> bigint" where
  "set_string0 s =
     (case s of
        [] \<Rightarrow> None
      | c # cs \<Rightarrow> if c = CHR ''-'' then map_option uminus (scan_unsigned cs)
                  else if c = CHR ''+'' then scan_unsigned cs
                  else scan_unsigned s)"

definition NewBig :: "string \<Rightarrow> bigint" where
  "NewBig s = set_string0 s"

definition Cap :: "int \<Rightarrow> int \<Rightarrow> int \<Rightarrow> int" where
  "Cap n mn mx = (if n \<le> mn then mn + 1 else if n \<ge> mx then mx - 1 else n)"

definition CapPriceLimit :: "int \<Rightarrow> int" where
  "CapPriceLimit n = Cap n MinSqrtRatio MaxSqrtRatio"

definition MinBI :: "bigint \<Rightarrow> bigint \<Rightarrow> bigint" where
  "MinBI a b = (case (a, b) of
     (Some x, Some y) \<Rightarrow> if x < y then Some x else Some y
   | _ \<Rightarrow> None)"

definition ToStrings ::
    "(bigint list \<Rightarrow> (bigint \<Rightarrow> int \<Rightarrow> string) \<Rightarrow> string list) \<Rightarrow> bigint list \<Rightarrow> string list" where
  "ToStrings lo_Map vals =
     lo_Map vals (\<lambda>v _. case v of Some x \<Rightarrow> big_string x | None \<Rightarrow> ''0'')"

definition Sum ::
    "(bigint list \<Rightarrow> (int \<Rightarrow> bigint \<Rightarrow> int \<Rightarrow> int) \<Rightarrow> int \<Rightarrow> int) \<Rightarrow> bigint list \<Rightarrow> int" where
  "Sum lo_Reduce vals =
     lo_Reduce vals (\<lambda>sum v _. case v of Some x \<Rightarrow> sum + x | None \<Rightarrow> sum) 0"

definition MulDivDown :: "int \<Rightarrow> int \<Rightarrow> int \<Rightarrow> int go" where
  "MulDivDown x y denominator = big_quo (x * y) denominator"

definition MulDivUp :: "int \<Rightarrow> int \<Rightarrow> int \<Rightarrow> int go" where
  "MulDivUp x y denominator =
     bnd (big_quo (x * y) denominator) (\<lambda>res.
     bnd (big_rem (x * y) denominator) (\<lambda>rem.
     Inr (if 0 < rem then res + 1 else res)))"

subsection \<open>Lemmas\<close>

lemma BONE_pos [simp]: "0 < BONE" "BONE \<noteq> 0" "0 \<le> BONE"
  by (simp_all add: BONE_def)

lemma TenPowInt_eq: "0 \<le> d \<Longrightarrow> TenPowInt d = Inr (10 ^ nat d)"
proof -
  assume d: "0 \<le> d"
  show ?thesis
  proof (cases "d \<le> 18")
    case True
    with d have "nat d < 19" by simp
    with d True show ?thesis
      by (simp add: TenPowInt_def preTenPowInt_def nth_append del: upt_Suc)
  next
    case False
    then show ?thesis
      by (simp add: TenPowInt_def big_exp_def)
  qed
qed

lemma TenPowInt_pos: "TenPowInt d = Inr p \<Longrightarrow> 0 < p"
  by (cases "0 \<le> d") (auto simp: TenPowInt_eq, simp add: TenPowInt_def)

text \<open>For a positive denominator the truncating quotient, corrected when the remainder is
  positive, is the ceiling, whatever the sign of the product.\<close>

lemma MulDivUp_ceiling:
  assumes "0 < d"
  shows "\<exists>r. MulDivUp x y d = Inr r \<and> (r - 1) * d < x * y \<and> x * y \<le> r * d"
proof -
  define p q m where "p = x * y" and "q = \<bar>p\<bar> div d" and "m = \<bar>p\<bar> mod d"
  define r where "r = (if 0 < sgn p * m then sgn p * q + 1 else sgn p * q)"
  have eq: "MulDivUp x y d = Inr r"
    using assms by (simp add: MulDivUp_def big_quo_def big_rem_def p_def q_def m_def r_def)
  have p: "\<bar>p\<bar> = q * d + m" and m: "0 \<le> m" "m < d"
    using assms by (simp_all add: q_def m_def)
  have "(r - 1) * d < p \<and> p \<le> r * d"
    using p m assms by (auto simp: r_def algebra_simps sgn_if abs_if split: if_splits)
  with eq show ?thesis
    by (auto simp: p_def)
qed

lemma MulDivDown_floor:
  assumes "0 < d" and "0 \<le> x * y"
  shows "\<exists>r. MulDivDown x y d = Inr r \<and> r * d \<le> x * y \<and> x * y < (r + 1) * d"
  using assms by (auto simp: MulDivDown_def big_quo_nonneg floor_le floor_gt)

end
