(* ===== verification/Entity.thy ===== *)
theory Entity
  imports Go_Float Bignumber
begin

text \<open>
  The package \<open>pkg/entity\<close>: the stored pool every simulator is built from.  Fields that
  \<open>pool.PoolInfo\<close> has too carry the suffix \<open>_e\<close>.  JSON decoding is third-party code and a
  parameter of \<open>GetLpToken\<close>; \<open>GetTotalSupply\<close> (\<open>big.Float\<close> division) is not modelled.
\<close>

record PoolToken =
  TokenAddress :: string
  Symbol :: string
  Decimals :: int \<comment> \<open>\<open>uint8\<close>\<close>
  Swappable :: bool

record EntityPool =
  Address_e :: string
  ReserveUsd :: float64
  AmplifiedTvl :: float64
  SwapFee_e :: float64
  Exchange_e :: string
  Type_e :: string
  Timestamp :: int
  Reserves_e :: "string list"
  Tokens_e :: "PoolToken list"
  Extra_e :: string
  StaticExtra_e :: string
  TotalSupply :: string
  BlockNumber_e :: nat

fun Encode :: "string list \<Rightarrow> string" where
  "Encode [] = ''''"
| "Encode [r] = r"
| "Encode (r # rs) = r @ '':'' @ Encode rs"

definition ClonePoolTokens :: "PoolToken list \<Rightarrow> PoolToken list" where
  "ClonePoolTokens poolTokens =
     map (\<lambda>p. \<lparr>TokenAddress = TokenAddress p, Symbol = Symbol p, Decimals = Decimals p,
               Swappable = Swappable p\<rparr>) poolTokens"

definition IsZero :: "EntityPool \<Rightarrow> bool" where
  "IsZero p = (length (Address_e p) = 0 \<and> length (Tokens_e p) = 0)"

definition GetLpToken :: "(string \<Rightarrow> string) \<Rightarrow> EntityPool \<Rightarrow> string" where
  "GetLpToken json_lpToken p =
     (let lpToken = json_lpToken (StaticExtra_e p) in
      if 0 < length lpToken then to_lower lpToken else Address_e p)"

definition HasReserve :: "EntityPool \<Rightarrow> string \<Rightarrow> bool" where
  "HasReserve p reserve = (0 < length reserve \<and> reserve \<noteq> ''0'')"

definition HasReserves :: "EntityPool \<Rightarrow> bool" where
  "HasReserves p = list_ex (HasReserve p) (Reserves_e p)"

definition HasAmplifiedTvl :: "EntityPool \<Rightarrow> bool" where
  "HasAmplifiedTvl p = (0 < fst (AmplifiedTvl p))"

definition Clear :: "EntityPool \<Rightarrow> EntityPool" where
  "Clear p = p\<lparr>Type_e := '''', Reserves_e := [], Address_e := '''', Tokens_e := [],
     Extra_e := '''', StaticExtra_e := '''', Exchange_e := '''', ReserveUsd := (0, 0),
     Timestamp := 0, SwapFee_e := (0, 0), AmplifiedTvl := (0, 0), TotalSupply := '''',
     BlockNumber_e := 0\<rparr>"

text \<open>A pool with no reserve worth anything is reported as such, and \<open>Clear\<close> makes it so.\<close>

lemma HasReserves_False:
  "(\<not> HasReserves p) = (\<forall>r \<in> set (Reserves_e p). r = '''' \<or> r = ''0'')"
  by (auto simp: HasReserves_def HasReserve_def list_ex_iff)

lemma Clear_IsZero: "IsZero (Clear p) \<and> \<not> HasReserves (Clear p) \<and> \<not> HasAmplifiedTvl (Clear p)"
  by (simp add: Clear_def IsZero_def HasReserves_def HasAmplifiedTvl_def)

end
