(* ===== verification/Pool.thy ===== *)
theory Pool
  imports Entity
begin

text \<open>
  The package \<open>pkg/source/pool\<close>: the data every simulator shares (\<open>TokenAmount\<close>, \<open>PoolInfo\<close>,
  \<open>Pool\<close>, the parameters and results of \<open>CalcAmountOut\<close>, \<open>CalcAmountIn\<close> and \<open>UpdateBalance\<close>),
  the base methods of \<open>Pool\<close>, the panic-catching wrapper \<open>CalcAmountOut\<close>, the factory registry and
  the sequential RFQ batcher.

  A struct that embeds \<open>pool.Pool\<close> is a record that extends \<open>Pool\<close>.  Where two structs have a
  field of the same name, the later record carries a suffix (\<open>_u\<close> for \<open>UpdateBalanceParams\<close>,
  \<open>_i\<close>/\<open>_r\<close> for the exact-out parameters and result).  \<open>SwapInfo any\<close> is a type variable \<open>'i\<close>
  and a \<open>SwapLimit\<close> a type variable \<open>'l\<close>; \<open>None\<close> is nil.
\<close>

record TokenAmount =
  Token :: string
  Amount :: bigint
  AmountUsd :: float64

definition token_amount :: "string \<Rightarrow> bigint \<Rightarrow> TokenAmount" where
  "token_amount t a = \<lparr>Token = t, Amount = a, AmountUsd = (0, 0)\<rparr>"

definition CompareTo :: "TokenAmount \<Rightarrow> TokenAmount option \<Rightarrow> int go" where
  "CompareTo t other = (case other of
     None \<Rightarrow> Inr (-1)
   | Some o' \<Rightarrow>
       if Token t \<noteq> Token o' then Inr (-1)
       else bnd (deref (Amount t)) (\<lambda>x. bnd (deref (Amount o')) (\<lambda>y. Inr (sgn (x - y)))))"

record PoolInfo =
  Address :: string
  Exchange :: string
  Type :: string
  Tokens :: "string list"
  Reserves :: "bigint list"
  SwapFee :: bigint
  BlockNumber :: nat

record Pool =
  Info :: PoolInfo

record 'i CalcAmountOutResult =
  TokenAmountOut :: "TokenAmount option"
  Fee :: "TokenAmount option"
  RemainingTokenAmountIn :: "TokenAmount option"
  Gas :: int
  SwapInfo :: "'i option"

record 'l CalcAmountOutParams =
  TokenAmountIn :: TokenAmount
  TokenOut :: string
  Limit :: "'l option"

record ('i, 'l) UpdateBalanceParams =
  TokenAmountIn_u :: TokenAmount
  TokenAmountOut_u :: TokenAmount
  Fee_u :: TokenAmount
  SwapInfo_u :: "'i option"
  SwapLimit_u :: "'l option"

record 'l CalcAmountInParams =
  TokenAmountOut_i :: TokenAmount
  TokenIn :: string
  Limit_i :: "'l option"

record 'i CalcAmountInResult =
  TokenAmountIn_r :: "TokenAmount option"
  RemainingTokenAmountOut_r :: "TokenAmount option"
  Fee_r :: "TokenAmount option"
  Gas_r :: int
  SwapInfo_r :: "'i option"

definition IsValid :: "'i CalcAmountOutResult \<Rightarrow> bool go" where
  "IsValid r =
     bnd (case RemainingTokenAmountIn r of
            None \<Rightarrow> Inr True
          | Some t \<Rightarrow> bnd (deref (Amount t)) (\<lambda>a. Inr (0 \<le> a))) (\<lambda>isRemainingValid.
     Inr (case TokenAmountOut r of
            None \<Rightarrow> False
          | Some t \<Rightarrow> (case Amount t of None \<Rightarrow> False | Some a \<Rightarrow> 0 < a \<and> isRemainingValid)))"

fun token_index_loop :: "string list \<Rightarrow> string \<Rightarrow> int \<Rightarrow> int" where
  "token_index_loop [] address i = -1"
| "token_index_loop (poolToken # ts) address i =
     (if poolToken = address then i else token_index_loop ts address (i + 1))"

definition PoolInfo_GetTokenIndex :: "PoolInfo \<Rightarrow> string \<Rightarrow> int" where
  "PoolInfo_GetTokenIndex t address = token_index_loop (Tokens t) address 0"

definition GetTokenIndex :: "'a Pool_scheme \<Rightarrow> string \<Rightarrow> int" where
  "GetTokenIndex p address = PoolInfo_GetTokenIndex (Info p) address"

definition GetAddress :: "'a Pool_scheme \<Rightarrow> string" where
  "GetAddress p = Address (Info p)"

definition Equals :: "'a Pool_scheme \<Rightarrow> 'b Pool_scheme \<Rightarrow> bool" where
  "Equals p other = (GetAddress p = GetAddress other)"

fun can_swap_to_loop :: "string list \<Rightarrow> string \<Rightarrow> int \<Rightarrow> string list \<Rightarrow> string list go" where
  "can_swap_to_loop [] address i result = Inr result"
| "can_swap_to_loop (token # ts) address i result =
     (if token \<noteq> address
      then bnd (upd result i token) (\<lambda>result'. can_swap_to_loop ts address (i + 1) result')
      else can_swap_to_loop ts address i result)"

definition CanSwapTo :: "'a Pool_scheme \<Rightarrow> string \<Rightarrow> string list go" where
  "CanSwapTo p address =
     (if GetTokenIndex p address = -1 then Inr []
      else can_swap_to_loop (Tokens (Info p)) address 0
             (replicate (length (Tokens (Info p)) - 1) ''''))"

definition CanSwapFrom :: "'a Pool_scheme \<Rightarrow> string \<Rightarrow> string list go" where
  "CanSwapFrom p address = CanSwapTo p address"

text \<open>\<open>CalcAmountOut\<close> calls a simulator's method and turns a panic into an error.\<close>

definition CalcAmountOut_wrapped ::
    "('s \<Rightarrow> 'l CalcAmountOutParams \<Rightarrow> 'i CalcAmountOutResult go) \<Rightarrow> 's \<Rightarrow> TokenAmount \<Rightarrow> string \<Rightarrow>
     'l option \<Rightarrow> 'i CalcAmountOutResult go" where
  "CalcAmountOut_wrapped calc pool tokenAmountIn tokenOut limit =
     (case calc pool \<lparr>TokenAmountIn = tokenAmountIn, TokenOut = tokenOut, Limit = limit\<rparr> of
        Inl (Panic _) \<Rightarrow> Inl (Err ''calcAmountOut panicked: %v'')
      | r \<Rightarrow> r)"

text \<open>What a router passes to \<open>UpdateBalance\<close> after a successful \<open>CalcAmountOut\<close>: the input, the
  output, the fee and the swap info of the result.\<close>

definition update_params ::
    "'l CalcAmountOutParams \<Rightarrow> 'i CalcAmountOutResult \<Rightarrow> ('i, 'l) UpdateBalanceParams" where
  "update_params p r =
     \<lparr>TokenAmountIn_u = TokenAmountIn p,
      TokenAmountOut_u = (case TokenAmountOut r of Some t \<Rightarrow> t | None \<Rightarrow> token_amount '''' None),
      Fee_u = (case Fee r of Some t \<Rightarrow> t | None \<Rightarrow> token_amount '''' None),
      SwapInfo_u = SwapInfo r, SwapLimit_u = Limit p\<rparr>"

subsection \<open>The reserve loop shared by the simulators' \<open>UpdateBalance\<close>\<close>

text \<open>
  \<open>for i := range Tokens { if Tokens[i] == in { Reserves[i] += inAmt }; if Tokens[i] == out {
  Reserves[i] -= outAmt } }\<close>, written the same way in \<open>uniswap\<close>, \<open>velocimeter\<close>, \<open>usdfi\<close> and the
  Curve base pool.
\<close>

fun swap_reserves ::
    "string list \<Rightarrow> int \<Rightarrow> string \<Rightarrow> int \<Rightarrow> string \<Rightarrow> bigint \<Rightarrow> bigint list \<Rightarrow> bigint list go" where
  "swap_reserves [] i tokIn amtIn tokOut amtOut rs = Inr rs"
| "swap_reserves (t # ts) i tokIn amtIn tokOut amtOut rs =
     bnd (if t = tokIn then bnd (big_at rs i) (\<lambda>r. upd rs i (Some (r + amtIn))) else Inr rs) (\<lambda>rs1.
     bnd (if t = tokOut
          then bnd (big_at rs1 i) (\<lambda>r. bnd (deref amtOut) (\<lambda>o'. upd rs1 i (Some (r - o'))))
          else Inr rs1) (\<lambda>rs2.
     swap_reserves ts (i + 1) tokIn amtIn tokOut amtOut rs2))"

subsection \<open>The factory registry\<close>

text \<open>\<open>withMessagef\<close> is \<open>errors.WithMessagef\<close> of the third-party package \<open>pkg/errors\<close>, a
  parameter: the code relies on it to leave a nil error nil and to keep an error an error.  A
  factory result \<open>Inr None\<close> is a nil simulator with a nil error.\<close>

definition keeps_errors :: "(string option \<Rightarrow> string option) \<Rightarrow> bool" where
  "keeps_errors withMessagef =
     (withMessagef None = None \<and> (\<forall>m. withMessagef (Some m) \<noteq> None))"

record ('fp, 'p) registry =
  factoryMap :: "string \<rightharpoonup> ('fp \<Rightarrow> 'p option go)"
  CanCalcAmountIn :: "string set"
  UseSwapLimit :: "string set"

definition wrap_factory ::
    "(string option \<Rightarrow> string option) \<Rightarrow> ('fp \<Rightarrow> 'p go) \<Rightarrow> 'fp \<Rightarrow> 'p option go" where
  "wrap_factory withMessagef factory factoryParams =
     (let r = (case factory factoryParams of
                 Inr pool \<Rightarrow> (Some pool, None)
               | Inl (Err m) \<Rightarrow> (None, Some m)
               | Inl (Panic _) \<Rightarrow> (None, Some ''panic: %v''))
      in case withMessagef (snd r) of
           Some m \<Rightarrow> Inl (Err m)
         | None \<Rightarrow> Inr (fst r))"

definition RegisterFactory ::
    "(string option \<Rightarrow> string option) \<Rightarrow> bool \<Rightarrow> string \<Rightarrow> ('fp \<Rightarrow> 'p go) \<Rightarrow>
     ('fp, 'p) registry \<Rightarrow> ('fp, 'p) registry go" where
  "RegisterFactory withMessagef isExactOut poolType factory reg =
     (if factoryMap reg poolType \<noteq> None
      then Inl (Panic (PanicMessage (poolType @ '' pool factory already registered'')))
      else Inr (reg\<lparr>factoryMap := (factoryMap reg)(poolType \<mapsto> wrap_factory withMessagef factory),
                    CanCalcAmountIn := (if isExactOut then insert poolType (CanCalcAmountIn reg)
                                        else CanCalcAmountIn reg)\<rparr>))"

definition RegisterUseSwapLimit :: "string \<Rightarrow> ('fp, 'p) registry \<Rightarrow> ('fp, 'p) registry" where
  "RegisterUseSwapLimit exchange reg = reg\<lparr>UseSwapLimit := insert exchange (UseSwapLimit reg)\<rparr>"

definition Factory :: "('fp, 'p) registry \<Rightarrow> string \<Rightarrow> ('fp \<Rightarrow> 'p option go) option" where
  "Factory reg poolType = factoryMap reg poolType"

subsection \<open>The sequential RFQ batcher\<close>

text \<open>\<open>rfq\<close> is the embedded \<open>IPoolSingleRFQ\<close>; \<open>'w\<close> is the world its calls act on, so the model
  says in which order and how often it is called.\<close>

fun BatchRFQ :: "('w \<Rightarrow> 'p \<Rightarrow> 'w \<times> 'r go) \<Rightarrow> 'w \<Rightarrow> 'p list \<Rightarrow> 'w \<times> 'r list go" where
  "BatchRFQ rfq w [] = (w, Inr [])"
| "BatchRFQ rfq w (params # ps) =
     (case rfq w params of
        (w', Inl e) \<Rightarrow> (w', Inl e)
      | (w', Inr r) \<Rightarrow>
          (case BatchRFQ rfq w' ps of
             (w'', Inl e) \<Rightarrow> (w'', Inl e)
           | (w'', Inr rs) \<Rightarrow> (w'', Inr (r # rs))))"

subsection \<open>Token indices\<close>

lemma token_index_loop_cases:
  "token_index_loop ts a i = -1 \<and> a \<notin> set ts \<or>
   (\<exists>k < length ts. token_index_loop ts a i = i + int k \<and> ts ! k = a \<and> a \<notin> set (take k ts))"
proof (induction ts arbitrary: i)
  case Nil
  then show ?case by simp
next
  case (Cons t ts)
  show ?case
  proof (cases "t = a")
    case True
    then show ?thesis by (intro disjI2 exI [of _ 0]) simp
  next
    case False
    from Cons.IH [of "i + 1"] show ?thesis
    proof
      assume "token_index_loop ts a (i + 1) = -1 \<and> a \<notin> set ts"
      with False show ?thesis by simp
    next
      assume "\<exists>k < length ts. token_index_loop ts a (i + 1) = i + 1 + int k \<and> ts ! k = a
                \<and> a \<notin> set (take k ts)"
      then obtain k where "k < length ts" "token_index_loop ts a (i + 1) = i + 1 + int k"
        "ts ! k = a" "a \<notin> set (take k ts)"
        by blast
      with False show ?thesis
        by (intro disjI2 exI [of _ "Suc k"]) auto
    qed
  qed
qed

lemma GetTokenIndex_absent: "(GetTokenIndex p a = -1) = (a \<notin> set (Tokens (Info p)))"
  using token_index_loop_cases [of "Tokens (Info p)" a 0]
  by (auto simp: GetTokenIndex_def PoolInfo_GetTokenIndex_def)

lemma GetTokenIndex_neg: "(GetTokenIndex p a < 0) = (a \<notin> set (Tokens (Info p)))"
  using token_index_loop_cases [of "Tokens (Info p)" a 0]
  by (auto simp: GetTokenIndex_def PoolInfo_GetTokenIndex_def)

lemma GetTokenIndex_nth:
  assumes "0 \<le> GetTokenIndex p a"
  shows "GetTokenIndex p a < int (length (Tokens (Info p)))"
    and "Tokens (Info p) ! nat (GetTokenIndex p a) = a"
  using token_index_loop_cases [of "Tokens (Info p)" a 0] assms
  by (auto simp: GetTokenIndex_def PoolInfo_GetTokenIndex_def)

subsection \<open>Swappable tokens\<close>

lemma can_swap_to_loop_eq:
  "length (filter (\<lambda>t. t \<noteq> a) ts) \<le> n \<Longrightarrow>
   can_swap_to_loop ts a (int (length xs)) (xs @ replicate n '''') =
     Inr (xs @ filter (\<lambda>t. t \<noteq> a) ts
            @ replicate (n - length (filter (\<lambda>t. t \<noteq> a) ts)) '''')"
proof (induction ts arbitrary: xs n)
  case Nil
  then show ?case by simp
next
  case (Cons t ts)
  show ?case
  proof (cases "t = a")
    case True
    with Cons show ?thesis by simp
  next
    case False
    then obtain m where n: "n = Suc m"
      using Cons.prems by (cases n) auto
    have "upd (xs @ replicate n '''') (int (length xs)) t = Inr ((xs @ [t]) @ replicate m '''')"
      by (simp add: n upd_def)
    with False Cons.IH [of m "xs @ [t]"] Cons.prems n show ?thesis
      by (simp add: add.commute)
  qed
qed

lemma CanSwapTo_eq:
  assumes "a \<in> set (Tokens (Info p))"
  shows "CanSwapTo p a =
    Inr (filter (\<lambda>t. t \<noteq> a) (Tokens (Info p)) @
         replicate (length (Tokens (Info p)) - 1 - length (filter (\<lambda>t. t \<noteq> a) (Tokens (Info p)))) '''')"
proof -
  have "length (filter (\<lambda>t. t \<noteq> a) (Tokens (Info p))) < length (Tokens (Info p))"
    using assms by (simp add: length_filter_less)
  then have "length (filter (\<lambda>t. t \<noteq> a) (Tokens (Info p))) \<le> length (Tokens (Info p)) - 1"
    by linarith
  from can_swap_to_loop_eq [OF this, of "[]"] assms show ?thesis
    by (simp add: CanSwapTo_def GetTokenIndex_absent)
qed

subsection \<open>Reserves\<close>

lemma swap_reserves_map2:
  assumes "length rs = length ts" and "None \<notin> set rs"
  shows "swap_reserves ts (int (length pre)) tokIn amtIn tokOut (Some amtOut) (pre @ rs) =
    Inr (pre @ map2 (\<lambda>t r. Some (the r + (if t = tokIn then amtIn else 0)
                                       - (if t = tokOut then amtOut else 0))) ts rs)"
  using assms
proof (induction ts arbitrary: rs pre)
  case Nil
  then show ?case by simp
next
  case (Cons t ts)
  obtain r rs' where rs: "rs = Some r # rs'"
    using Cons.prems by (cases rs; cases "hd rs") auto
  have at: "big_at (pre @ Some v # rs') (int (length pre)) = Inr v" for v
    by (simp add: big_at_def)
  have up: "upd (pre @ Some v # rs') (int (length pre)) (Some w) = Inr (pre @ Some w # rs')" for v w
    by (simp add: upd_def)
  have IH: "swap_reserves ts (int (length pre) + 1) tokIn amtIn tokOut (Some amtOut) (pre @ Some v # rs')
    = Inr (pre @ Some v # map2 (\<lambda>t r. Some (the r + (if t = tokIn then amtIn else 0)
                                       - (if t = tokOut then amtOut else 0))) ts rs')" for v
    using Cons.IH [of rs' "pre @ [Some v]"] Cons.prems rs by (simp add: add.commute)
  show ?case
    by (cases "tokIn = tokOut") (use IH in \<open>auto simp: rs at up\<close>)
qed

lemmas swap_reserves_eq = swap_reserves_map2 [where pre = "[]", simplified]

text \<open>The reserve a simulator holds of a token.\<close>

definition reserve_of :: "'a Pool_scheme \<Rightarrow> string \<Rightarrow> int" where
  "reserve_of p t = the (Reserves (Info p) ! nat (GetTokenIndex p t))"

subsection \<open>Outcome of the wrapper and of the update parameters\<close>

lemma CalcAmountOut_wrapped_Inr:
  "(CalcAmountOut_wrapped calc s t tout l = Inr r) =
   (calc s \<lparr>TokenAmountIn = t, TokenOut = tout, Limit = l\<rparr> = Inr r)"
  by (auto simp: CalcAmountOut_wrapped_def split: sum.splits go_error.splits)

lemma update_params_simps [simp]:
  "TokenAmountIn_u (update_params p r) = TokenAmountIn p"
  "TokenAmountOut r = Some t \<Longrightarrow> TokenAmountOut_u (update_params p r) = t"
  "Fee r = Some t \<Longrightarrow> Fee_u (update_params p r) = t"
  "SwapInfo_u (update_params p r) = SwapInfo r"
  "SwapLimit_u (update_params p r) = Limit p"
  by (simp_all add: update_params_def)

lemma token_amount_simps [simp]:
  "Token (token_amount t a) = t" "Amount (token_amount t a) = a"
  by (simp_all add: token_amount_def)

lemma token_amount_eq: "(token_amount t a = token_amount t' b) = (t = t' \<and> a = b)"
  by (auto simp: token_amount_def)

end
