(* ===== verification/Pool_Interface.thy ===== *)
theory Pool_Interface
  imports Pool
begin

text \<open>
  The contract of \<open>IPoolSimulator\<close> (\<open>pkg/source/pool/iface.go\<close>).  A router quotes a swap with
  \<open>CalcAmountOut\<close> and, when it takes the quote, applies it with \<open>UpdateBalance\<close>: one such pair is
  a \<open>swap_step\<close>, and a route through one pool is a sequence of them.

  \<^item> The locale \<open>pool_simulator\<close> holds what a simulator promises its caller: a quote pays a
    positive amount of the requested token that its reserve covers, applying the quote does not
    panic, takes exactly that amount out of the reserve and keeps the simulator well formed.
  \<^item> \<open>k_simulator\<close> extends it with a quantity no swap decreases (the product of the reserves, or
    the invariant the pool contract checks).
  The lemmas proved inside them once hold for every simulator that interprets them.
\<close>

definition valid_request :: "'l CalcAmountOutParams \<Rightarrow> bool" where
  "valid_request p =
     (Token (TokenAmountIn p) \<noteq> TokenOut p \<and>
      (case Amount (TokenAmountIn p) of None \<Rightarrow> False | Some a \<Rightarrow> 0 < a))"

lemma valid_requestE:
  assumes "valid_request p"
  obtains a where "Amount (TokenAmountIn p) = Some a" "0 < a" "Token (TokenAmountIn p) \<noteq> TokenOut p"
  using assms by (auto simp: valid_request_def split: option.splits)

inductive swap_step ::
    "('s \<Rightarrow> 'l CalcAmountOutParams \<Rightarrow> 'i CalcAmountOutResult go) \<Rightarrow>
     ('s \<Rightarrow> ('i, 'l) UpdateBalanceParams \<Rightarrow> 's go) \<Rightarrow> 's \<Rightarrow> 's \<Rightarrow> bool"
  for calc update where
  swap: "valid_request p \<Longrightarrow> calc s p = Inr r \<Longrightarrow> update s (update_params p r) = Inr s' \<Longrightarrow>
         swap_step calc update s s'"

inductive_cases swap_stepE: "swap_step calc update s s'"

fun run_swaps ::
    "('s \<Rightarrow> 'l CalcAmountOutParams \<Rightarrow> 'i CalcAmountOutResult go) \<Rightarrow>
     ('s \<Rightarrow> ('i, 'l) UpdateBalanceParams \<Rightarrow> 's go) \<Rightarrow> 's \<Rightarrow> 'l CalcAmountOutParams list \<Rightarrow> 's go" where
  "run_swaps calc update s [] = Inr s"
| "run_swaps calc update s (p # ps) =
     bnd (calc s p) (\<lambda>r. bnd (update s (update_params p r)) (\<lambda>s'. run_swaps calc update s' ps))"

locale pool_simulator =
  fixes calc :: "'s \<Rightarrow> 'l CalcAmountOutParams \<Rightarrow> 'i CalcAmountOutResult go"
    and update :: "'s \<Rightarrow> ('i, 'l) UpdateBalanceParams \<Rightarrow> 's go"
    and wf_sim :: "'s \<Rightarrow> bool"
    and reserve :: "'s \<Rightarrow> string \<Rightarrow> int"
  assumes reserve_nonneg: "wf_sim s \<Longrightarrow> 0 \<le> reserve s t"
    and quote_covered: "wf_sim s \<Longrightarrow> valid_request p \<Longrightarrow> calc s p = Inr r \<Longrightarrow>
      \<exists>a. TokenAmountOut r = Some (token_amount (TokenOut p) (Some a)) \<and> 0 < a
          \<and> a \<le> reserve s (TokenOut p)"
    and update_ok: "wf_sim s \<Longrightarrow> valid_request p \<Longrightarrow> calc s p = Inr r \<Longrightarrow>
      \<exists>s'. update s (update_params p r) = Inr s' \<and> wf_sim s'"
begin

lemma step_wf:
  assumes "swap_step calc update s s'" and "wf_sim s"
  shows "wf_sim s'"
  using assms by (metis swap_stepE update_ok sum.inject(2))

lemma reachable_wf: "(swap_step calc update)\<^sup>*\<^sup>* s s' \<Longrightarrow> wf_sim s \<Longrightarrow> wf_sim s'"
  by (induction rule: rtranclp_induct) (auto intro: step_wf)

text \<open>A quote taken from any reachable state can be applied: \<open>UpdateBalance\<close> does not panic.\<close>

lemma quote_applies:
  assumes "(swap_step calc update)\<^sup>*\<^sup>* s0 s" and "wf_sim s0" and "valid_request p"
    and "calc s p = Inr r"
  shows "\<exists>s'. swap_step calc update s s'"
  using assms update_ok [OF reachable_wf] by (meson swap_step.swap)

text \<open>Running a list of requests ends well formed or with the error of a quote, never with an
  error of an update.\<close>

lemma run_swaps_wf:
  assumes "wf_sim s" and "\<forall>p \<in> set ps. valid_request p" and "run_swaps calc update s ps = Inr s'"
  shows "wf_sim s' \<and> (swap_step calc update)\<^sup>*\<^sup>* s s'"
  using assms
proof (induction ps arbitrary: s)
  case Nil
  then show ?case by simp
next
  case (Cons p ps)
  then obtain r s1 where r: "calc s p = Inr r" and s1: "update s (update_params p r) = Inr s1"
    and rest: "run_swaps calc update s1 ps = Inr s'"
    by (auto simp: go_simps)
  have step: "swap_step calc update s s1"
    using Cons.prems r s1 by (auto intro: swap_step.swap)
  with Cons.prems have "wf_sim s1" by (auto intro: step_wf)
  with Cons.IH [OF this _ rest] Cons.prems step show ?case
    by (auto intro: converse_rtranclp_into_rtranclp)
qed

lemma run_swaps_error:
  assumes "wf_sim s" and "\<forall>p \<in> set ps. valid_request p" and "run_swaps calc update s ps = Inl e"
  shows "\<exists>s' p. (swap_step calc update)\<^sup>*\<^sup>* s s' \<and> wf_sim s' \<and> p \<in> set ps \<and> calc s' p = Inl e"
  using assms
proof (induction ps arbitrary: s)
  case Nil
  then show ?case by simp
next
  case (Cons p ps)
  show ?case
  proof (cases "calc s p")
    case (Inl e')
    with Cons.prems show ?thesis by (intro exI [of _ s] exI [of _ p]) auto
  next
    case (Inr r)
    with Cons.prems obtain s1 where s1: "update s (update_params p r) = Inr s1" "wf_sim s1"
      using update_ok by (metis list.set_intros(1))
    have step: "swap_step calc update s s1"
      using Cons.prems Inr s1 by (auto intro: swap_step.swap)
    have "run_swaps calc update s1 ps = Inl e"
      using Cons.prems Inr s1 by simp
    with Cons.IH [OF s1(2)] Cons.prems step show ?thesis
      by (meson converse_rtranclp_into_rtranclp list.set_intros(2))
  qed
qed

end

locale k_simulator = pool_simulator calc update wf_sim reserve
  for calc :: "'s \<Rightarrow> 'l CalcAmountOutParams \<Rightarrow> 'i CalcAmountOutResult go"
    and update wf_sim reserve +
  fixes k :: "'s \<Rightarrow> int"
  assumes k_step: "wf_sim s \<Longrightarrow> valid_request p \<Longrightarrow> calc s p = Inr r \<Longrightarrow>
      update s (update_params p r) = Inr s' \<Longrightarrow> k s \<le> k s'"
begin

lemma k_mono:
  assumes "(swap_step calc update)\<^sup>*\<^sup>* s s'" and "wf_sim s"
  shows "k s \<le> k s'"
  using assms
proof (induction rule: rtranclp_induct)
  case base
  then show ?case by simp
next
  case (step s1 s2)
  have wf: "wf_sim s1"
    using step.hyps(1) step.prems by (rule reachable_wf)
  from step.hyps(2) have "k s1 \<le> k s2"
    by (rule swap_stepE) (rule k_step [OF wf])
  with step.IH [OF step.prems] show ?case
    by linarith
qed

end

end
