(* ===== verification/Cpmm_Math.thy ===== *)
theory Cpmm_Math
  imports Pool_Interface
begin

text \<open>
  The abstract specification of a constant-product quote and the facts about it that the
  constant-product simulators (\<open>uniswap\<close>, \<open>dmm\<close>, \<open>fraxswap\<close>, \<open>syncswap\<close> classic, the volatile
  branches of \<open>velocimeter\<close>, \<open>usdfi\<close> and \<open>camelot\<close>) share: \<open>cpmm_out x y w\<close> is what a pool with
  reserves \<open>x\<close> and \<open>y\<close> pays for the net input \<open>w\<close>.
\<close>

definition cpmm_out :: "int \<Rightarrow> int \<Rightarrow> int \<Rightarrow> int" where
  "cpmm_out x y w = y * w div (x + w)"

lemma cpmm_out_nonneg: "0 \<le> x \<Longrightarrow> 0 \<le> y \<Longrightarrow> 0 \<le> w \<Longrightarrow> 0 \<le> cpmm_out x y w"
  by (cases "x + w = 0") (simp_all add: cpmm_out_def pos_imp_zdiv_nonneg_iff)

lemma cpmm_out_mult_le:
  assumes "0 < x + w"
  shows "cpmm_out x y w * (x + w) \<le> y * w"
  unfolding cpmm_out_def using assms by (rule floor_le)

lemma cpmm_out_less:
  assumes "0 < x" "0 < y" "0 \<le> w"
  shows "cpmm_out x y w < y"
proof (rule ccontr)
  assume "\<not> cpmm_out x y w < y"
  then have "y * (x + w) \<le> cpmm_out x y w * (x + w)"
    using assms by (intro mult_right_mono) auto
  also have "\<dots> \<le> y * w"
    using assms by (intro cpmm_out_mult_le) simp
  finally have "y * x \<le> 0" by (simp add: algebra_simps)
  moreover have "0 < y * x" using assms by simp
  ultimately show False by linarith
qed

lemma cpmm_out_le: "0 \<le> x \<Longrightarrow> 0 \<le> y \<Longrightarrow> 0 \<le> w \<Longrightarrow> cpmm_out x y w \<le> y"
proof -
  assume *: "0 \<le> x" "0 \<le> y" "0 \<le> w"
  show ?thesis
  proof (cases "0 < x + w")
    case True
    then have "y * w div (x + w) \<le> y * (x + w) div (x + w)"
      using * by (intro zdiv_mono1 mult_left_mono) auto
    with True show ?thesis by (simp add: cpmm_out_def)
  next
    case False
    with * have "x + w = 0" by linarith
    with * show ?thesis by (simp add: cpmm_out_def)
  qed
qed

text \<open>The product of the reserves does not fall, and one unit more would make it fall: the quote
  is the largest payout that keeps the product.\<close>

lemma cpmm_product_kept:
  assumes "0 < x + w"
  shows "x * y \<le> (x + w) * (y - cpmm_out x y w)"
  using cpmm_out_mult_le [OF assms, of y] by (simp add: algebra_simps)

lemma cpmm_product_tight:
  assumes "0 < x + w"
  shows "(x + w) * (y - (cpmm_out x y w + 1)) < x * y"
proof -
  have "y * w < (cpmm_out x y w + 1) * (x + w)"
    unfolding cpmm_out_def using assms by (rule floor_gt)
  then show ?thesis by (simp add: algebra_simps)
qed

lemma cpmm_out_greatest:
  assumes "0 < x + w" and "x * y \<le> (x + w) * (y - a)"
  shows "a \<le> cpmm_out x y w"
proof (rule ccontr)
  assume "\<not> a \<le> cpmm_out x y w"
  then have "(x + w) * (y - a) \<le> (x + w) * (y - (cpmm_out x y w + 1))"
    using assms(1) by (intro mult_left_mono) auto
  with assms(2) cpmm_product_tight [OF assms(1), of y] show False by linarith
qed

lemma cpmm_out_iff:
  assumes "0 < x" "0 \<le> w"
  shows "(x * y \<le> (x + w) * (y - a)) = (a \<le> cpmm_out x y w)"
proof
  assume "a \<le> cpmm_out x y w"
  then have "(x + w) * (y - cpmm_out x y w) \<le> (x + w) * (y - a)"
    using assms by (intro mult_left_mono) auto
  with cpmm_product_kept [of x w y] assms show "x * y \<le> (x + w) * (y - a)" by linarith
qed (use assms in \<open>auto intro: cpmm_out_greatest\<close>)

lemma cpmm_out_mono:
  assumes "0 < x" "0 \<le> y" "0 \<le> w" "w \<le> w'"
  shows "cpmm_out x y w \<le> cpmm_out x y w'"
proof (rule cpmm_out_greatest)
  show pos: "0 < x + w'" using assms by simp
  have "x * y \<le> (x + w) * (y - cpmm_out x y w)"
    using assms by (intro cpmm_product_kept) simp
  also have "\<dots> \<le> (x + w') * (y - cpmm_out x y w)"
    using assms cpmm_out_le [of x y w] by (intro mult_right_mono) auto
  finally show "x * y \<le> (x + w') * (y - cpmm_out x y w)" .
qed

text \<open>Swapping the input in two parts pays no more than swapping it at once.\<close>

lemma cpmm_split:
  assumes "0 < x" "0 < y" "0 \<le> v" "0 \<le> w"
  shows "cpmm_out x y v + cpmm_out (x + v) (y - cpmm_out x y v) w \<le> cpmm_out x y (v + w)"
proof (rule cpmm_out_greatest)
  define a b where "a = cpmm_out x y v" and "b = cpmm_out (x + v) (y - cpmm_out x y v) w"
  show "0 < x + (v + w)" using assms by simp
  have "x * y \<le> (x + v) * (y - a)"
    unfolding a_def using assms by (intro cpmm_product_kept) simp
  also have "\<dots> \<le> (x + v + w) * (y - a - b)"
    unfolding b_def a_def using assms by (intro cpmm_product_kept) simp
  finally show "x * y \<le> (x + (v + w)) * (y - (a + b))"
    by (simp add: algebra_simps)
qed

text \<open>A well-formed pool over two tokens, and what the token lookups and the reserve loop do
  there.\<close>

definition pair_wf :: "'a Pool_scheme \<Rightarrow> bool" where
  "pair_wf t = (\<exists>t0 t1 r0 r1. Tokens (Info t) = [t0, t1] \<and> t0 \<noteq> t1 \<and>
      Reserves (Info t) = [Some r0, Some r1] \<and> 0 < r0 \<and> 0 < r1)"

lemma pair_wfE:
  assumes "pair_wf t"
  obtains t0 t1 r0 r1 where "Tokens (Info t) = [t0, t1]" "t0 \<noteq> t1"
    "Reserves (Info t) = [Some r0, Some r1]" "0 < r0" "0 < r1"
  using assms by (auto simp: pair_wf_def)

lemma pair_index:
  "Tokens (Info t) = [t0, t1] \<Longrightarrow> t0 \<noteq> t1 \<Longrightarrow>
   GetTokenIndex t a = (if a = t0 then 0 else if a = t1 then 1 else -1)"
  by (simp add: GetTokenIndex_def PoolInfo_GetTokenIndex_def)

lemma swap_reserves_pair:
  "swap_reserves [t0, t1] 0 tokIn amtIn tokOut (Some amtOut) [Some r0, Some r1] =
   Inr [Some (r0 + (if t0 = tokIn then amtIn else 0) - (if t0 = tokOut then amtOut else 0)),
        Some (r1 + (if t1 = tokIn then amtIn else 0) - (if t1 = tokOut then amtOut else 0))]"
  using swap_reserves_eq [of "[Some r0, Some r1]" "[t0, t1]"] by simp

lemma reserve_of_pair:
  "Tokens (Info t) = [t0, t1] \<Longrightarrow> t0 \<noteq> t1 \<Longrightarrow> Reserves (Info t) = [Some r0, Some r1] \<Longrightarrow>
   reserve_of t a = (if a = t1 then r1 else r0)"
  by (auto simp: reserve_of_def pair_index)

lemma pair_reserve_pos: "pair_wf t \<Longrightarrow> 0 < reserve_of t a"
  by (erule pair_wfE) (simp add: reserve_of_pair)

text \<open>In a pair, a request names both tokens or is rejected: the two orientations.  \<open>pair_nonneg\<close>
  allows a reserve to be empty.\<close>

definition pair_nonneg :: "'a Pool_scheme \<Rightarrow> bool" where
  "pair_nonneg t = (\<exists>t0 t1 r0 r1. Tokens (Info t) = [t0, t1] \<and> t0 \<noteq> t1 \<and>
      Reserves (Info t) = [Some r0, Some r1] \<and> 0 \<le> r0 \<and> 0 \<le> r1)"

lemma pair_wf_nonneg: "pair_wf t \<Longrightarrow> pair_nonneg t"
  by (auto simp: pair_wf_def pair_nonneg_def)

lemma pair_reserve_nonneg: "pair_nonneg t \<Longrightarrow> 0 \<le> reserve_of t a"
  by (auto simp: pair_nonneg_def reserve_of_pair)

lemma pair_nonneg_cases:
  assumes "pair_nonneg t" and "0 \<le> GetTokenIndex t a" and "0 \<le> GetTokenIndex t b" and "a \<noteq> b"
  obtains (forward) r0 r1 where "Tokens (Info t) = [a, b]" "Reserves (Info t) = [Some r0, Some r1]"
      "0 \<le> r0" "0 \<le> r1" "GetTokenIndex t a = 0" "GetTokenIndex t b = 1"
    | (backward) r0 r1 where "Tokens (Info t) = [b, a]" "Reserves (Info t) = [Some r0, Some r1]"
      "0 \<le> r0" "0 \<le> r1" "GetTokenIndex t a = 1" "GetTokenIndex t b = 0"
proof -
  from assms(1) obtain t0 t1 r0 r1 where t: "Tokens (Info t) = [t0, t1]" "t0 \<noteq> t1"
    "Reserves (Info t) = [Some r0, Some r1]" "0 \<le> r0" "0 \<le> r1"
    by (auto simp: pair_nonneg_def)
  note ix = pair_index [OF t(1,2)]
  from assms(2-4) have "a = t0 \<and> b = t1 \<or> a = t1 \<and> b = t0"
    by (auto simp: ix split: if_splits)
  with t forward backward show thesis
    by (auto simp: ix)
qed

lemma pair_cases:
  assumes "pair_wf t" and "0 \<le> GetTokenIndex t a" and "0 \<le> GetTokenIndex t b" and "a \<noteq> b"
  obtains (forward) r0 r1 where "Tokens (Info t) = [a, b]" "Reserves (Info t) = [Some r0, Some r1]"
      "0 < r0" "0 < r1" "GetTokenIndex t a = 0" "GetTokenIndex t b = 1"
    | (backward) r0 r1 where "Tokens (Info t) = [b, a]" "Reserves (Info t) = [Some r0, Some r1]"
      "0 < r0" "0 < r1" "GetTokenIndex t a = 1" "GetTokenIndex t b = 0"
  using pair_wf_nonneg [OF assms(1)] assms(2-4)
proof (cases rule: pair_nonneg_cases)
  case (forward r0 r1)
  then show ?thesis using assms(1) that(1) by (auto simp: pair_wf_def)
next
  case (backward r0 r1)
  then show ?thesis using assms(1) that(2) by (auto simp: pair_wf_def)
qed

text \<open>What the reserve loop does to a pair, in either orientation.\<close>

lemma pair_swap_reserves:
  assumes "pair_nonneg t" and "0 \<le> GetTokenIndex t a" and "0 \<le> GetTokenIndex t b" and "a \<noteq> b"
    and "0 \<le> w" and "o' \<le> reserve_of t b"
  obtains rs where "swap_reserves (Tokens (Info t)) 0 a w b (Some o') (Reserves (Info t)) = Inr rs"
    "\<And>t' :: 'a Pool_scheme. Tokens (Info t') = Tokens (Info t) \<Longrightarrow> Reserves (Info t') = rs \<Longrightarrow>
       pair_nonneg t' \<and> reserve_of t' a = reserve_of t a + w \<and> reserve_of t' b = reserve_of t b - o'"
  using assms(1-4)
proof (cases rule: pair_nonneg_cases)
  case (forward r0 r1)
  show ?thesis
    by (rule that [of "[Some (r0 + w), Some (r1 - o')]"])
       (use forward assms(4-) in \<open>auto simp: swap_reserves_pair pair_nonneg_def reserve_of_def
          GetTokenIndex_def PoolInfo_GetTokenIndex_def\<close>)
next
  case (backward r0 r1)
  show ?thesis
    by (rule that [of "[Some (r0 - o'), Some (r1 + w)]"])
       (use backward assms(4-) in \<open>auto simp: swap_reserves_pair pair_nonneg_def reserve_of_def
          GetTokenIndex_def PoolInfo_GetTokenIndex_def\<close>)
qed

lemma pair_idx:
  assumes "pair_nonneg t" and "0 \<le> GetTokenIndex t a"
  shows "idx (Reserves (Info t)) (GetTokenIndex t a) = Inr (Some (reserve_of t a))"
    and "GetTokenIndex t a \<in> {0, 1}"
  using assms by (auto simp: pair_nonneg_def reserve_of_def pair_index idx_def split: if_splits)

lemma pair_distinct:
  assumes "pair_nonneg t" and "0 \<le> GetTokenIndex t a" and "0 \<le> GetTokenIndex t b" and "a \<noteq> b"
  shows "GetTokenIndex t a = 0 \<and> GetTokenIndex t b = 1 \<or>
         GetTokenIndex t a = 1 \<and> GetTokenIndex t b = 0"
  using assms by (cases rule: pair_nonneg_cases) auto

end
