(* ===== verification/Dmm.thy ===== *)
theory Dmm
  imports Cpmm_Math
begin

text \<open>
  The package \<open>pkg/source/dmm\<close> (Kyber DMM): a constant-product pool with amplified (virtual)
  reserves beside the real ones.  \<open>math.go\<close> is \<open>GetAmountOut\<close>, \<open>pool_simulator.go\<close> the record and
  its methods.  JSON decoding of \<open>Extra\<close> is a parameter of \<open>NewPoolSimulator\<close>.  The simulator
  interprets \<open>k_simulator\<close> with the product of the virtual reserves.
\<close>

definition bONE :: int where
  "bONE = 10 ^ 18"

record Gas =
  SwapBase :: int
  SwapNonBase :: int

definition defaultGas :: Gas where
  "defaultGas = \<lparr>SwapBase = 65000, SwapNonBase = 104000\<rparr>"

definition defaultTokenWeight :: nat where
  "defaultTokenWeight = 50"

definition GetAmountOut ::
    "bigint \<Rightarrow> bigint \<Rightarrow> bigint \<Rightarrow> bigint \<Rightarrow> bigint \<Rightarrow> bigint \<Rightarrow> int go" where
  "GetAmountOut amountIn reserveIn reserveOut vReserveIn vReserveOut feeInPrecision =
     bnd (deref amountIn) (\<lambda>a.
     if a \<le> 0 then Inl (Err ''ErrInsufficientInputAmount'') else
     bnd (deref reserveIn) (\<lambda>rIn.
     if rIn \<le> 0 then Inl (Err ''ErrInsufficientLiquidity'') else
     bnd (deref reserveOut) (\<lambda>rOut.
     if rOut \<le> 0 then Inl (Err ''ErrInsufficientLiquidity'') else
     bnd (deref feeInPrecision) (\<lambda>fee.
     let amountInWithFee = (a * (bONE - fee)) div bONE in
     bnd (deref vReserveOut) (\<lambda>vOut.
     let numerator = amountInWithFee * vOut in
     bnd (deref vReserveIn) (\<lambda>vIn.
     let denominator = vIn + amountInWithFee in
     bnd (big_div numerator denominator) (\<lambda>amountOut.
     if rOut \<le> amountOut then Inl (Err ''ErrInsufficientLiquidity'') else Inr amountOut)))))))"

record PoolSimulator = Pool +
  Weights :: "nat list"
  VReserves :: "bigint list"
  gas :: Gas

record Extra =
  VReserves_x :: "string list"
  FeeInPrecision :: string

definition NewPoolSimulator :: "(string \<Rightarrow> Extra go) \<Rightarrow> EntityPool \<Rightarrow> PoolSimulator go" where
  "NewPoolSimulator json_Unmarshal entityPool =
     bnd (json_Unmarshal (Extra_e entityPool)) (\<lambda>extra.
     let swapFee = NewBig10 (FeeInPrecision extra) in
     bnd (if length (Reserves_e entityPool) = 2 \<and> length (Tokens_e entityPool) = 2
          then bnd (idx (VReserves_x extra) 0) (\<lambda>v0. bnd (idx (VReserves_x extra) 1) (\<lambda>v1.
               Inr (map TokenAddress (Tokens_e entityPool),
                    [defaultTokenWeight, defaultTokenWeight],
                    map NewBig10 (Reserves_e entityPool), [NewBig10 v0, NewBig10 v1])))
          else Inr (['''', ''''], [0, 0], [None, None], [None, None]))
     (\<lambda>(tokens, weights, reserves, vReserves).
     Inr \<lparr>Info = \<lparr>Address = to_lower (Address_e entityPool), Exchange = Exchange_e entityPool,
                  Type = Type_e entityPool, Tokens = tokens, Reserves = reserves,
                  SwapFee = swapFee, BlockNumber = BlockNumber_e entityPool\<rparr>,
          Weights = weights, VReserves = vReserves, gas = defaultGas\<rparr>))"

definition CalcAmountOut ::
    "PoolSimulator \<Rightarrow> 'l CalcAmountOutParams \<Rightarrow> unit CalcAmountOutResult go" where
  "CalcAmountOut t param =
     (let tokenAmountIn = TokenAmountIn param; tokenOut = TokenOut param;
          tokenInIndex = GetTokenIndex t (Token tokenAmountIn);
          tokenOutIndex = GetTokenIndex t tokenOut in
      if tokenInIndex < 0 \<or> tokenOutIndex < 0
      then Inl (Err ''TokenInIndex: %v or TokenOutIndex: %v is not correct'')
      else
        bnd (idx (Reserves (Info t)) tokenInIndex) (\<lambda>rIn.
        bnd (idx (Reserves (Info t)) tokenOutIndex) (\<lambda>rOut.
        bnd (idx (VReserves t) tokenInIndex) (\<lambda>vIn.
        bnd (idx (VReserves t) tokenOutIndex) (\<lambda>vOut.
        bnd (GetAmountOut (Amount tokenAmountIn) rIn rOut vIn vOut (SwapFee (Info t))) (\<lambda>amountOut.
        bnd (idx (Weights t) tokenInIndex) (\<lambda>wIn.
        bnd (idx (Weights t) tokenOutIndex) (\<lambda>wOut.
        let totalGas = (if wIn \<noteq> wOut then SwapNonBase (gas t) else SwapBase (gas t)) in
        if 0 < amountOut
        then Inr \<lparr>TokenAmountOut = Some (token_amount tokenOut (Some amountOut)),
                  Fee = Some (token_amount (Token tokenAmountIn) None),
                  RemainingTokenAmountIn = None, Gas = totalGas, SwapInfo = None\<rparr>
        else Inl (Err ''invalid amount out: %v'')))))))))"

fun update_loop ::
    "string list \<Rightarrow> int \<Rightarrow> string \<Rightarrow> int \<Rightarrow> string \<Rightarrow> bigint \<Rightarrow> bigint list \<Rightarrow> bigint list \<Rightarrow>
     (bigint list \<times> bigint list) go" where
  "update_loop [] i tokIn amtIn tokOut amtOut rs vs = Inr (rs, vs)"
| "update_loop (t # ts) i tokIn amtIn tokOut amtOut rs vs =
     bnd (if t = tokIn
          then bnd (add_at rs i amtIn) (\<lambda>rs'. bnd (add_at vs i amtIn) (\<lambda>vs'. Inr (rs', vs')))
          else Inr (rs, vs)) (\<lambda>(rs1, vs1).
     bnd (if t = tokOut
          then bnd (deref amtOut) (\<lambda>o'. bnd (add_at rs1 i (- o')) (\<lambda>rs'.
               bnd (add_at vs1 i (- o')) (\<lambda>vs'. Inr (rs', vs'))))
          else Inr (rs1, vs1)) (\<lambda>(rs2, vs2).
     update_loop ts (i + 1) tokIn amtIn tokOut amtOut rs2 vs2))"

definition UpdateBalance ::
    "PoolSimulator \<Rightarrow> (unit, 'l) UpdateBalanceParams \<Rightarrow> PoolSimulator go" where
  "UpdateBalance t params =
     (let input = TokenAmountIn_u params; output = TokenAmountOut_u params in
      bnd (deref (Amount input)) (\<lambda>a.
      bnd (deref (SwapFee (Info t))) (\<lambda>fee.
      let inputAmount = (a * (bONE - fee)) div bONE in
      bnd (update_loop (Tokens (Info t)) 0 (Token input) inputAmount (Token output) (Amount output)
             (Reserves (Info t)) (VReserves t)) (\<lambda>(rs, vs).
      Inr (t\<lparr>Info := (Info t)\<lparr>Reserves := rs\<rparr>, VReserves := vs\<rparr>)))))"

subsection \<open>Well-formedness and the functional behaviour of a quote\<close>

definition wf :: "PoolSimulator \<Rightarrow> bool" where
  "wf t = (pair_wf t \<and> length (Weights t) = 2 \<and>
     (\<exists>v0 v1. VReserves t = [Some v0, Some v1] \<and> 0 < v0 \<and> 0 < v1) \<and>
     (\<exists>f. SwapFee (Info t) = Some f \<and> 0 \<le> f \<and> f \<le> bONE))"

definition vreserve :: "PoolSimulator \<Rightarrow> string \<Rightarrow> int" where
  "vreserve t a = the (VReserves t ! nat (GetTokenIndex t a))"

definition net_input :: "PoolSimulator \<Rightarrow> int \<Rightarrow> int" where
  "net_input t a = (a * (bONE - the (SwapFee (Info t)))) div bONE"

definition vproduct :: "PoolSimulator \<Rightarrow> int" where
  "vproduct t = the (VReserves t ! 0) * the (VReserves t ! 1)"

lemma bONE_pos [simp]: "0 < bONE" "bONE \<noteq> 0"
  by (simp_all add: bONE_def)

lemma net_input_nonneg: "wf t \<Longrightarrow> 0 \<le> a \<Longrightarrow> 0 \<le> net_input t a"
  by (auto simp: wf_def net_input_def)

lemma net_input_superadd: "net_input t a + net_input t b \<le> net_input t (a + b)"
  unfolding net_input_def distrib_right by (rule floor_superadd) simp

lemma vreserve_pos: "wf t \<Longrightarrow> 0 < vreserve t a"
  by (auto simp: wf_def vreserve_def pair_index elim!: pair_wfE)

lemma dmm_CalcAmountOut_wf:
  assumes "wf t" and "Token (TokenAmountIn p) \<noteq> TokenOut p" and "Amount (TokenAmountIn p) = Some a"
    and "Token (TokenAmountIn p) \<in> set (Tokens (Info t))" and "TokenOut p \<in> set (Tokens (Info t))"
  shows "CalcAmountOut t p =
    (let o' = cpmm_out (vreserve t (Token (TokenAmountIn p))) (vreserve t (TokenOut p)) (net_input t a) in
     if a \<le> 0 then Inl (Err ''ErrInsufficientInputAmount'')
     else if reserve_of t (TokenOut p) \<le> o' then Inl (Err ''ErrInsufficientLiquidity'')
     else if o' \<le> 0 then Inl (Err ''invalid amount out: %v'')
     else Inr \<lparr>TokenAmountOut = Some (token_amount (TokenOut p) (Some o')),
               Fee = Some (token_amount (Token (TokenAmountIn p)) None),
               RemainingTokenAmountIn = None,
               Gas = (if Weights t ! 0 \<noteq> Weights t ! 1 then SwapNonBase (gas t)
                      else SwapBase (gas t)), SwapInfo = None\<rparr>)"
proof -
  from assms(1) obtain v0 v1 f where t: "pair_wf t" "length (Weights t) = 2"
    "VReserves t = [Some v0, Some v1]" "0 < v0" "0 < v1" "SwapFee (Info t) = Some f"
    "0 \<le> f" "f \<le> bONE"
    by (auto simp: wf_def)
  have net: "a * (bONE - f) div bONE = net_input t a"
    by (simp add: net_input_def t)
  have ix: "0 \<le> GetTokenIndex t (Token (TokenAmountIn p))" "0 \<le> GetTokenIndex t (TokenOut p)"
    using assms GetTokenIndex_neg [of t] by (metis not_le)+
  have pos: "0 < a \<Longrightarrow> 0 < v + net_input t a" if "0 < v" for v
    using that net_input_nonneg [OF assms(1), of a] by linarith
  from t(1) ix assms(2) show ?thesis
  proof (cases rule: pair_cases)
    case (forward r0 r1)
    with t assms pos show ?thesis
      by (auto simp: CalcAmountOut_def GetAmountOut_def Let_def net cpmm_out_def vreserve_def
          reserve_of_def idx_def mult.commute [of "net_input t a"])
  next
    case (backward r0 r1)
    with t assms pos show ?thesis
      by (auto simp: CalcAmountOut_def GetAmountOut_def Let_def net cpmm_out_def vreserve_def
          reserve_of_def idx_def mult.commute [of "net_input t a"])
  qed
qed

lemma dmm_quoteE:
  assumes "wf t" and "valid_request p" and "CalcAmountOut t p = Inr r"
  obtains a o' where "Amount (TokenAmountIn p) = Some a" "0 < a"
    "0 \<le> GetTokenIndex t (Token (TokenAmountIn p))" "0 \<le> GetTokenIndex t (TokenOut p)"
    "o' = cpmm_out (vreserve t (Token (TokenAmountIn p))) (vreserve t (TokenOut p)) (net_input t a)"
    "0 < o'" "o' < reserve_of t (TokenOut p)"
    "TokenAmountOut r = Some (token_amount (TokenOut p) (Some o'))"
proof -
  obtain a where a: "Amount (TokenAmountIn p) = Some a" "0 < a" "Token (TokenAmountIn p) \<noteq> TokenOut p"
    using assms(2) by (rule valid_requestE)
  have ix: "0 \<le> GetTokenIndex t (Token (TokenAmountIn p))" "0 \<le> GetTokenIndex t (TokenOut p)"
    using assms(3) by (auto simp: CalcAmountOut_def Let_def split: if_splits)
  then have "Token (TokenAmountIn p) \<in> set (Tokens (Info t))" "TokenOut p \<in> set (Tokens (Info t))"
    using GetTokenIndex_neg [of t] by (metis not_le)+
  from dmm_CalcAmountOut_wf [OF assms(1) a(3,1) this] assms(3) a(2) show thesis
    by (intro that [OF a(1,2) ix refl]) (auto simp: Let_def split: if_splits)
qed

lemma dmm_UpdateBalance_wf:
  assumes "wf t" and "0 \<le> GetTokenIndex t tin" and "0 \<le> GetTokenIndex t tout" and "tin \<noteq> tout"
    and "TokenAmountIn_u u = token_amount tin (Some a) \<or>
         Token (TokenAmountIn_u u) = tin \<and> Amount (TokenAmountIn_u u) = Some a"
    and "TokenAmountOut_u u = token_amount tout (Some o')"
    and "0 < a" and "o' < reserve_of t tout" and "o' < vreserve t tout"
  shows "\<exists>t'. UpdateBalance t u = Inr t' \<and> wf t' \<and>
    Tokens (Info t') = Tokens (Info t) \<and> SwapFee (Info t') = SwapFee (Info t) \<and>
    Weights t' = Weights t \<and>
    vreserve t' tin = vreserve t tin + net_input t a \<and> vreserve t' tout = vreserve t tout - o' \<and>
    reserve_of t' tin = reserve_of t tin + net_input t a \<and>
    reserve_of t' tout = reserve_of t tout - o' \<and>
    vproduct t' = (vreserve t tin + net_input t a) * (vreserve t tout - o') \<and>
    vproduct t = vreserve t tin * vreserve t tout"
proof -
  from assms(1) obtain v0 v1 f where t: "pair_wf t" "length (Weights t) = 2"
    "VReserves t = [Some v0, Some v1]" "0 < v0" "0 < v1" "SwapFee (Info t) = Some f"
    "0 \<le> f" "f \<le> bONE"
    by (auto simp: wf_def)
  have net: "a * (bONE - f) div bONE = net_input t a"
    by (simp add: net_input_def t)
  have u: "Token (TokenAmountIn_u u) = tin" "Amount (TokenAmountIn_u u) = Some a"
    using assms(5) by auto
  have nn: "0 \<le> net_input t a"
    using assms by (intro net_input_nonneg) auto
  from t(1) assms(2-4) show ?thesis
  proof (cases rule: pair_cases)
    case (forward r0 r1)
    have ix: "GetTokenIndex t x = (if x = tin then 0 else if x = tout then 1 else -1)" for x
      using forward(1) assms(4) by (rule pair_index)
    with forward t assms(4,6-) u nn show ?thesis
      by (auto simp: UpdateBalance_def Let_def net wf_def pair_wf_def vreserve_def reserve_of_def
          vproduct_def GetTokenIndex_def PoolInfo_GetTokenIndex_def)
  next
    case (backward r0 r1)
    with t assms(4,6-) u nn show ?thesis
      by (auto simp: UpdateBalance_def Let_def net wf_def pair_wf_def vreserve_def reserve_of_def
          vproduct_def GetTokenIndex_def PoolInfo_GetTokenIndex_def mult.commute)
  qed
qed

lemma dmm_swap_applied:
  assumes "wf t" and "valid_request p" and "CalcAmountOut t p = Inr r"
  obtains t' a o' where "UpdateBalance t (update_params p r) = Inr t'" "wf t'"
    "Amount (TokenAmountIn p) = Some a" "0 < a"
    "o' = cpmm_out (vreserve t (Token (TokenAmountIn p))) (vreserve t (TokenOut p)) (net_input t a)"
    "TokenAmountOut r = Some (token_amount (TokenOut p) (Some o'))" "0 < o'"
    "o' < reserve_of t (TokenOut p)"
    "Tokens (Info t') = Tokens (Info t)" "SwapFee (Info t') = SwapFee (Info t)"
    "vreserve t' (Token (TokenAmountIn p)) = vreserve t (Token (TokenAmountIn p)) + net_input t a"
    "vreserve t' (TokenOut p) = vreserve t (TokenOut p) - o'"
    "vproduct t' = (vreserve t (Token (TokenAmountIn p)) + net_input t a) * (vreserve t (TokenOut p) - o')"
    "vproduct t = vreserve t (Token (TokenAmountIn p)) * vreserve t (TokenOut p)"
proof -
  from assms obtain a o' where q: "Amount (TokenAmountIn p) = Some a" "0 < a"
    "0 \<le> GetTokenIndex t (Token (TokenAmountIn p))" "0 \<le> GetTokenIndex t (TokenOut p)"
    "o' = cpmm_out (vreserve t (Token (TokenAmountIn p))) (vreserve t (TokenOut p)) (net_input t a)"
    "0 < o'" "o' < reserve_of t (TokenOut p)"
    "TokenAmountOut r = Some (token_amount (TokenOut p) (Some o'))"
    by (rule dmm_quoteE)
  have ne: "Token (TokenAmountIn p) \<noteq> TokenOut p"
    using assms(2) by (auto simp: valid_request_def)
  have "o' < vreserve t (TokenOut p)"
    unfolding q(5) using assms(1) q(2)
    by (intro cpmm_out_less vreserve_pos net_input_nonneg) auto
  from dmm_UpdateBalance_wf [OF assms(1) q(3,4) ne _ _ q(2,7) this, of "update_params p r"] q(1,2,5-) that
  show thesis
    by (auto simp: update_params_def)
qed

interpretation dmm: k_simulator CalcAmountOut UpdateBalance wf reserve_of vproduct
proof
  show "wf t \<Longrightarrow> 0 \<le> reserve_of t a" for t :: PoolSimulator and a
    using pair_reserve_pos [of t a] by (auto simp: wf_def)
next
  fix t and p :: "'l CalcAmountOutParams" and r
  assume *: "wf t" "valid_request p" "CalcAmountOut t p = Inr r"
  show "\<exists>a. TokenAmountOut r = Some (token_amount (TokenOut p) (Some a)) \<and> 0 < a
          \<and> a \<le> reserve_of t (TokenOut p)"
    using dmm_quoteE [OF *] by (metis less_imp_le)
  show "\<exists>t'. UpdateBalance t (update_params p r) = Inr t' \<and> wf t'"
    using dmm_swap_applied [OF *] by metis
next
  fix t t' and p :: "'l CalcAmountOutParams" and r
  assume *: "wf t" "valid_request p" "CalcAmountOut t p = Inr r"
    "UpdateBalance t (update_params p r) = Inr t'"
  from dmm_swap_applied [OF *(1-3)] *(4) show "vproduct t \<le> vproduct t'"
  proof (cases)
    case (1 t2 a o')
    have "vproduct t = vreserve t (Token (TokenAmountIn p)) * vreserve t (TokenOut p)"
      by (rule 1)
    also have "\<dots> \<le> vproduct t2"
      unfolding 1(13) 1(5)
      using *(1) 1(4) vreserve_pos [OF *(1)] net_input_nonneg [OF *(1), of a]
      by (intro cpmm_product_kept) (simp add: add_pos_nonneg)
    finally show ?thesis using 1(1) *(4) by simp
  qed
qed

subsection \<open>Properties\<close>

text \<open>A concrete pool for the witnesses: real reserves of one and two million units, amplified
  five times, with a fee of three tenths of a percent.\<close>

definition pool_ex :: PoolSimulator where
  "pool_ex = \<lparr>Info = \<lparr>Address = ''0x1'', Exchange = ''kyberswap'', Type = ''dmm'',
      Tokens = [''a'', ''b''], Reserves = [Some 1000000, Some 2000000],
      SwapFee = Some 3000000000000000, BlockNumber = 1\<rparr>,
    Weights = [50, 50], VReserves = [Some 5000000, Some 10000000], gas = defaultGas\<rparr>"

definition request_ex :: "int \<Rightarrow> unit CalcAmountOutParams" where
  "request_ex a = \<lparr>TokenAmountIn = token_amount ''a'' (Some a), TokenOut = ''b'', Limit = None\<rparr>"

definition pool_ex' :: PoolSimulator where
  "pool_ex' = pool_ex\<lparr>Info := (Info pool_ex)\<lparr>Reserves := [Some 1000997, Some 1998007]\<rparr>,
     VReserves := [Some 5000997, Some 9998007]\<rparr>"

definition result_ex :: "int \<Rightarrow> unit CalcAmountOutResult" where
  "result_ex a = \<lparr>TokenAmountOut = Some (token_amount ''b'' (Some a)),
     Fee = Some (token_amount ''a'' None), RemainingTokenAmountIn = None, Gas = 65000,
     SwapInfo = None\<rparr>"

lemma dmm_wf_ex: "wf pool_ex"
  by (simp add: wf_def pair_wf_def pool_ex_def bONE_def)

lemma dmm_quote_ex: "CalcAmountOut pool_ex (request_ex 1000) = Inr (result_ex 1993)"
  by code_simp

lemma dmm_update_ex:
  "UpdateBalance pool_ex (update_params (request_ex 1000) (result_ex 1993)) = Inr pool_ex'"
  by code_simp

lemma dmm_valid_ex: "0 < a \<Longrightarrow> valid_request (request_ex a)"
  by (simp add: valid_request_def request_ex_def)

text \<open>C15: over any sequence of swaps (quote, then update) from a well-formed DMM pool, the pool
  stays well formed and the product of the virtual reserves never decreases.\<close>

theorem dmm_vproduct_mono:
  assumes "wf t" and "(swap_step CalcAmountOut UpdateBalance)\<^sup>*\<^sup>* t t'"
  shows "wf t' \<and> vproduct t \<le> vproduct t'"
  using dmm.reachable_wf [OF assms(2,1)] dmm.k_mono [OF assms(2,1)] by simp

theorem dmm_vproduct_mono_witness:
  "wf pool_ex \<and>
   (swap_step (CalcAmountOut :: _ \<Rightarrow> unit CalcAmountOutParams \<Rightarrow> _) UpdateBalance)\<^sup>*\<^sup>* pool_ex pool_ex' \<and>
   wf pool_ex' \<and> vproduct pool_ex \<le> vproduct pool_ex'"
proof -
  have "swap_step (CalcAmountOut :: _ \<Rightarrow> unit CalcAmountOutParams \<Rightarrow> _) UpdateBalance pool_ex pool_ex'"
    using dmm_valid_ex dmm_quote_ex dmm_update_ex
    by (intro swap_step.swap [where p = "request_ex 1000" and r = "result_ex 1993"]) simp_all
  then have "(swap_step (CalcAmountOut :: _ \<Rightarrow> unit CalcAmountOutParams \<Rightarrow> _) UpdateBalance)\<^sup>*\<^sup>*
      pool_ex pool_ex'"
    by (rule r_into_rtranclp)
  with dmm_vproduct_mono [OF dmm_wf_ex this] dmm_wf_ex show ?thesis by simp
qed

text \<open>C29: a quote of the DMM simulator is the largest whole amount that keeps the product of the
  virtual reserves after the fee, and it is below both the real and the virtual reserve.\<close>

theorem dmm_quote_optimal:
  assumes "wf t" and "valid_request p" and "CalcAmountOut t p = Inr r"
  shows "\<exists>a o'. Amount (TokenAmountIn p) = Some a \<and>
    TokenAmountOut r = Some (token_amount (TokenOut p) (Some o')) \<and>
    0 < o' \<and> o' < reserve_of t (TokenOut p) \<and> o' < vreserve t (TokenOut p) \<and>
    (\<forall>x. (vreserve t (Token (TokenAmountIn p)) * vreserve t (TokenOut p) \<le>
          (vreserve t (Token (TokenAmountIn p)) + net_input t a) * (vreserve t (TokenOut p) - x))
         = (x \<le> o'))"
proof -
  from assms obtain a o' where q: "Amount (TokenAmountIn p) = Some a" "0 < a"
    "o' = cpmm_out (vreserve t (Token (TokenAmountIn p))) (vreserve t (TokenOut p)) (net_input t a)"
    "0 < o'" "o' < reserve_of t (TokenOut p)"
    "TokenAmountOut r = Some (token_amount (TokenOut p) (Some o'))"
    by (rule dmm_quoteE)
  have "0 \<le> net_input t a"
    using assms(1) q(2) by (simp add: net_input_nonneg)
  then have "o' < vreserve t (TokenOut p)"
    and "(vreserve t (Token (TokenAmountIn p)) * vreserve t (TokenOut p) \<le>
          (vreserve t (Token (TokenAmountIn p)) + net_input t a) * (vreserve t (TokenOut p) - x))
         = (x \<le> o')" for x
    unfolding q(3) using vreserve_pos [OF assms(1)] by (simp_all add: cpmm_out_less cpmm_out_iff)
  with q show ?thesis by blast
qed

theorem dmm_quote_optimal_witness:
  "CalcAmountOut pool_ex (request_ex 1000) = Inr (result_ex 1993) \<and>
   (5000000 * 10000000 \<le> (5000000 + 997) * (10000000 - (1993::int)))"
proof -
  have *: "vreserve pool_ex ''a'' = 5000000" "vreserve pool_ex ''b'' = 10000000"
    "net_input pool_ex 1000 = 997"
    by code_simp+
  from dmm_quote_optimal [OF dmm_wf_ex dmm_valid_ex dmm_quote_ex] dmm_quote_ex show ?thesis
    by (auto simp: request_ex_def result_ex_def * token_amount_def)
qed

text \<open>C30: splitting an input into two consecutive swaps through a DMM pool never pays more than
  swapping it at once.\<close>

theorem dmm_split_no_gain:
  assumes "wf t" and "valid_request p1" and "CalcAmountOut t p1 = Inr r1"
    and "UpdateBalance t (update_params p1 r1) = Inr t'"
    and "valid_request p2" and "CalcAmountOut t' p2 = Inr r2"
    and "CalcAmountOut t p = Inr r"
    and "p2 = p1\<lparr>TokenAmountIn := token_amount (Token (TokenAmountIn p1)) (Some a2)\<rparr>"
    and "p = p1\<lparr>TokenAmountIn := token_amount (Token (TokenAmountIn p1)) (Some (a1 + a2))\<rparr>"
    and "Amount (TokenAmountIn p1) = Some a1"
    and "TokenAmountOut r1 = Some (token_amount (TokenOut p1) (Some o1))"
    and "TokenAmountOut r2 = Some (token_amount (TokenOut p1) (Some o2))"
    and "TokenAmountOut r = Some (token_amount (TokenOut p1) (Some o3))"
  shows "o1 + o2 \<le> o3"
proof -
  let ?i = "Token (TokenAmountIn p1)" and ?o = "TokenOut p1"
  have a: "0 < a1" "0 < a2"
    using assms(2,5,8,10) by (auto simp: valid_request_def)
  have "valid_request p"
    using assms(2,9) a by (simp add: valid_request_def)
  from dmm_quoteE [OF assms(1) this assms(7)] assms(9,13)
  have o3: "o3 = cpmm_out (vreserve t ?i) (vreserve t ?o) (net_input t (a1 + a2))"
    by (auto simp: token_amount_def)
  obtain t2 b1 x1 where s: "UpdateBalance t (update_params p1 r1) = Inr t2" "wf t2"
    "Amount (TokenAmountIn p1) = Some b1" "0 < b1"
    "x1 = cpmm_out (vreserve t ?i) (vreserve t ?o) (net_input t b1)"
    "TokenAmountOut r1 = Some (token_amount ?o (Some x1))"
    "SwapFee (Info t2) = SwapFee (Info t)"
    "vreserve t2 ?i = vreserve t ?i + net_input t b1" "vreserve t2 ?o = vreserve t ?o - x1"
    by (rule dmm_swap_applied [OF assms(1-3)])
  then have eq: "t2 = t'" "b1 = a1" "x1 = o1"
    using assms(4,10,11) by (simp_all add: token_amount_def)
  from s(2,5,7-) [unfolded eq]
  have o1: "o1 = cpmm_out (vreserve t ?i) (vreserve t ?o) (net_input t a1)" and wf': "wf t'"
    and v': "vreserve t' ?i = vreserve t ?i + net_input t a1" "vreserve t' ?o = vreserve t ?o - o1"
    by simp_all
  have net': "net_input t' b = net_input t b" for b
    using s(7) eq(1) by (simp add: net_input_def)
  obtain b2 x2 where "Amount (TokenAmountIn p2) = Some b2"
    "x2 = cpmm_out (vreserve t' (Token (TokenAmountIn p2))) (vreserve t' (TokenOut p2)) (net_input t' b2)"
    "TokenAmountOut r2 = Some (token_amount (TokenOut p2) (Some x2))"
    by (rule dmm_quoteE [OF wf' assms(5,6)])
  with assms(8,12) have o2: "o2 = cpmm_out (vreserve t ?i + net_input t a1) (vreserve t ?o - o1) (net_input t a2)"
    by (simp add: token_amount_def v' net')
  note nn = net_input_nonneg [OF assms(1)] and vp = vreserve_pos [OF assms(1)]
  have "o1 + o2 \<le> cpmm_out (vreserve t ?i) (vreserve t ?o) (net_input t a1 + net_input t a2)"
    unfolding o2 unfolding o1 using a vp nn by (intro cpmm_split) auto
  also have "\<dots> \<le> o3"
    unfolding o3 using a vp [of ?i] vp [of ?o] nn [of a1] nn [of a2]
    by (intro cpmm_out_mono net_input_superadd) auto
  finally show ?thesis .
qed

theorem dmm_split_no_gain_witness:
  "CalcAmountOut pool_ex (request_ex 2000) = Inr (result_ex 3986) \<and>
   CalcAmountOut pool_ex' (request_ex 1000) = Inr (result_ex 1992) \<and> 1993 + 1992 \<le> (3986::int)"
proof -
  have q: "CalcAmountOut pool_ex (request_ex 2000) = Inr (result_ex 3986)"
    "CalcAmountOut pool_ex' (request_ex 1000) = Inr (result_ex 1992)"
    by code_simp+
  have "1993 + 1992 \<le> (3986::int)"
    by (rule dmm_split_no_gain [OF dmm_wf_ex dmm_valid_ex dmm_quote_ex dmm_update_ex dmm_valid_ex q(2,1)])
       (simp_all add: request_ex_def result_ex_def token_amount_def)
  with q show ?thesis by simp
qed

end
