(* ===== verification/Bancor_Formula.thy ===== *)
theory Bancor_Formula
  imports Bignumber
begin

unbundle bit_operations_syntax

text \<open>
  The Bancor power formula of \<open>pkg/source/uniswap/formula.go\<close>, used by the legacy Uniswap
  simulator when a pool's token weights differ: fixed-point logarithm, exponential and power in
  \<open>2^127\<close> fixed point.  The unrolled statement sequences of the source (one block per table
  entry) are folds over the tables of constants, in the source's order.  \<open>Rsh\<close> is floor division by
  a power of two and \<open>Lsh\<close> multiplication by one, as in \<open>math/big\<close>.
\<close>

subsection \<open>Constants\<close>

definition MinPrecision :: nat where "MinPrecision = 32"

definition MaxPrecision :: nat where "MaxPrecision = 127"

definition Fixed1 :: int where "Fixed1 = 0x080000000000000000000000000000000"

definition Fixed2 :: int where "Fixed2 = 0x100000000000000000000000000000000"

definition Ln2Numerator :: int where "Ln2Numerator = 0x3f80fe03f80fe03f80fe03f80fe03f8"

definition Ln2Denominator :: int where "Ln2Denominator = 0x5b9de1d10bf4103d647b0955897ba80"

definition OptLogMaxVal :: int where "OptLogMaxVal = 0x15bf0a8b1457695355fb8ac404e7a79e3"

definition OptExpMaxVal :: int where "OptExpMaxVal = 0x800000000000000000000000000000000"

text \<open>Entries 32 to 127 of \<open>maxExpArray\<close>; the entries below 32 are nil.\<close>

definition maxExpTable :: "int list" where
  "maxExpTable =
    [0x1c35fedd14ffffffffffffffffffffffff, 0x1b0ce43b323fffffffffffffffffffffff,
     0x19f0028ec1ffffffffffffffffffffffff, 0x18ded91f0e7fffffffffffffffffffffff,
     0x17d8ec7f0417ffffffffffffffffffffff, 0x16ddc6556cdbffffffffffffffffffffff,
     0x15ecf52776a1ffffffffffffffffffffff, 0x15060c256cb2ffffffffffffffffffffff,
     0x1428a2f98d72ffffffffffffffffffffff, 0x13545598e5c23fffffffffffffffffffff,
     0x1288c4161ce1dfffffffffffffffffffff, 0x11c592761c666fffffffffffffffffffff,
     0x110a688680a757ffffffffffffffffffff, 0x1056f1b5bedf77ffffffffffffffffffff,
     0xfaadceceeff8bffffffffffffffffffff, 0xf05dc6b27edadffffffffffffffffffff,
     0xe67a5a25da4107fffffffffffffffffff, 0xdcff115b14eedffffffffffffffffffff,
     0xd3e7a392431239fffffffffffffffffff, 0xcb2ff529eb71e4fffffffffffffffffff,
     0xc2d415c3db974afffffffffffffffffff, 0xbad03e7d883f69bffffffffffffffffff,
     0xb320d03b2c343d5ffffffffffffffffff, 0xabc25204e02828dffffffffffffffffff,
     0xa4b16f74ee4bb207fffffffffffffffff, 0x9deaf736ac1f569ffffffffffffffffff,
     0x976bd9952c7aa957fffffffffffffffff, 0x9131271922eaa606fffffffffffffffff,
     0x8b380f3558668c46fffffffffffffffff, 0x857ddf0117efa215bffffffffffffffff,
     0x7ffffffffffffffffffffffffffffffff, 0x7abbf6f6abb9d087fffffffffffffffff,
     0x75af62cbac95f7dfa7fffffffffffffff, 0x70d7fb7452e187ac13fffffffffffffff,
     0x6c3390ecc8af379295fffffffffffffff, 0x67c00a3b07ffc01fd6fffffffffffffff,
     0x637b647c39cbb9d3d27ffffffffffffff, 0x5f63b1fc104dbd39587ffffffffffffff,
     0x5b771955b36e12f7235ffffffffffffff, 0x57b3d49dda84556d6f6ffffffffffffff,
     0x54183095b2c8ececf30ffffffffffffff, 0x50a28be635ca2b888f77fffffffffffff,
     0x4d5156639708c9db33c3fffffffffffff, 0x4a23105873875bd52dfdfffffffffffff,
     0x471649d87199aa990756fffffffffffff, 0x4429a21a029d4c1457cfbffffffffffff,
     0x415bc6d6fb7dd71af2cb3ffffffffffff, 0x3eab73b3bbfe282243ce1ffffffffffff,
     0x3c1771ac9fb6b4c18e229ffffffffffff, 0x399e96897690418f785257fffffffffff,
     0x373fc456c53bb779bf0ea9fffffffffff, 0x34f9e8e490c48e67e6ab8bfffffffffff,
     0x32cbfd4a7adc790560b3337ffffffffff, 0x30b50570f6e5d2acca94613ffffffffff,
     0x2eb40f9f620fda6b56c2861ffffffffff, 0x2cc8340ecb0d0f520a6af58ffffffffff,
     0x2af09481380a0a35cf1ba02ffffffffff, 0x292c5bdd3b92ec810287b1b3fffffffff,
     0x277abdcdab07d5a77ac6d6b9fffffffff, 0x25daf6654b1eaa55fd64df5efffffffff,
     0x244c49c648baa98192dce88b7ffffffff, 0x22ce03cd5619a311b2471268bffffffff,
     0x215f77c045fbe885654a44a0fffffffff, 0x1ffffffffffffffffffffffffffffffff,
     0x1eaefdbdaaee7421fc4d3ede5ffffffff, 0x1d6bd8b2eb257df7e8ca57b09bfffffff,
     0x1c35fedd14b861eb0443f7f133fffffff, 0x1b0ce43b322bcde4a56e8ada5afffffff,
     0x19f0028ec1fff007f5a195a39dfffffff, 0x18ded91f0e72ee74f49b15ba527ffffff,
     0x17d8ec7f04136f4e5615fd41a63ffffff, 0x16ddc6556cdb84bdc8d12d22e6fffffff,
     0x15ecf52776a1155b5bd8395814f7fffff, 0x15060c256cb23b3b3cc3754cf40ffffff,
     0x1428a2f98d728ae223ddab715be3fffff, 0x13545598e5c23276ccf0ede68034fffff,
     0x1288c4161ce1d6f54b7f61081194fffff, 0x11c592761c666aa641d5a01a40f17ffff,
     0x110a688680a7530515f3e6e6cfdcdffff, 0x1056f1b5bedf75c6bcb2ce8aed428ffff,
     0xfaadceceeff8a0890f3875f008277fff, 0xf05dc6b27edad306388a600f6ba0bfff,
     0xe67a5a25da41063de1495d5b18cdbfff, 0xdcff115b14eedde6fc3aa5353f2e4fff,
     0xd3e7a3924312399f9aae2e0f868f8fff, 0xcb2ff529eb71e41582cccd5a1ee26fff,
     0xc2d415c3db974ab32a51840c0b67edff, 0xbad03e7d883f69ad5b0a186184e06bff,
     0xb320d03b2c343d4829abd6075f0cc5ff, 0xabc25204e02828d73c6e80bcdb1a95bf,
     0xa4b16f74ee4bb2040a1ec6c15fbbf2df, 0x9deaf736ac1f569deb1b5ae3f36c130f,
     0x976bd9952c7aa957f5937d790ef65037, 0x9131271922eaa6064b73a22d0bd4f2bf,
     0x8b380f3558668c46c91c49a2f8e967b9, 0x857ddf0117efa215952912839f6473e6]"

definition maxExpArray :: "bigint list" where
  "maxExpArray = replicate 32 None @ map Some maxExpTable"

definition optLogSteps :: "(int \<times> int) list" where
  "optLogSteps =
    [(0xd3094c70f034de4b96ff7d5b6f99fcd8, 0x40000000000000000000000000000000),
     (0xa45af1e1f40c333b3de1db4dd55f29a7, 0x20000000000000000000000000000000),
     (0x910b022db7ae67ce76b441c27035c6a1, 0x10000000000000000000000000000000),
     (0x88415abbe9a76bead8d00cf112e4d4a8, 0x8000000000000000000000000000000),
     (0x84102b00893f64c705e841d5d4064bd3, 0x4000000000000000000000000000000),
     (0x8204055aaef1c8bd5c3259f4822735a2, 0x2000000000000000000000000000000),
     (0x810100ab00222d861931c15e39b44e99, 0x1000000000000000000000000000000),
     (0x808040155aabbbe9451521693554f733, 0x800000000000000000000000000000)]"

definition optLogSeries :: "(int \<times> int) list" where
  "optLogSeries =
    [(0x100000000000000000000000000000000, 0x100000000000000000000000000000000),
     (0xaaaaaaaaaaaaaaaaaaaaaaaaaaaaaaaa, 0x200000000000000000000000000000000),
     (0x99999999999999999999999999999999, 0x300000000000000000000000000000000),
     (0x92492492492492492492492492492492, 0x400000000000000000000000000000000),
     (0x8e38e38e38e38e38e38e38e38e38e38e, 0x500000000000000000000000000000000),
     (0x8ba2e8ba2e8ba2e8ba2e8ba2e8ba2e8b, 0x600000000000000000000000000000000),
     (0x89d89d89d89d89d89d89d89d89d89d89, 0x700000000000000000000000000000000),
     (0x88888888888888888888888888888888, 0x800000000000000000000000000000000)]"

definition optExpCoeffs :: "int list" where
  "optExpCoeffs =
    [0x10e1b3be415a0000, 0x5a0913f6b1e0000, 0x168244fdac78000, 0x4807432bc18000,
     0xc0135dca04000, 0x1b707b1cdc000, 0x36e0f639b800, 0x618fee9f800,
     0x9c197dcc00, 0xe30dce400, 0x12ebd1300, 0x17499f00,
     0x1a9d480, 0x1c6380, 0x1c638, 0x1ab8,
     0x17c, 0x14, 0x1]"

definition optExpFactors :: "(int \<times> int \<times> int) list" where
  "optExpFactors =
    [(0x10000000000000000000000000000000, 0x1c3d6a24ed82218787d624d3e5eba95f9, 0x18ebef9eac820ae8682b9793ac6d1e776),
     (0x20000000000000000000000000000000, 0x18ebef9eac820ae8682b9793ac6d1e778, 0x1368b2fc6f9609fe7aceb46aa619baed4),
     (0x40000000000000000000000000000000, 0x1368b2fc6f9609fe7aceb46aa619baed5, 0xbc5ab1b16779be3575bd8f0520a9f21f),
     (0x80000000000000000000000000000000, 0xbc5ab1b16779be3575bd8f0520a9f21e, 0x454aaa8efe072e7f6ddbab84b40a55c9),
     (0x100000000000000000000000000000000, 0x454aaa8efe072e7f6ddbab84b40a55c5, 0x960aadc109e7a3bf4578099615711ea),
     (0x200000000000000000000000000000000, 0x960aadc109e7a3bf4578099615711d7, 0x2bf84208204f5977f9a8cf01fdce3d),
     (0x400000000000000000000000000000000, 0x2bf84208204f5977f9a8cf01fdc307, 0x3c6ab775dd0b95b4cbee7e65d11)]"

definition genExpCoeffs :: "int list" where
  "genExpCoeffs =
    [0x3442c4e6074a82f1797f72ac0000000, 0x116b96f757c380fb287fd0e40000000,
     0x45ae5bdd5f0e03eca1ff4390000000, 0xdefabf91302cd95b9ffda50000000,
     0x2529ca9832b22439efff9b8000000, 0x54f1cf12bd04e516b6da88000000,
     0xa9e39e257a09ca2d6db51000000, 0x12e066e7b839fa050c309000000,
     0x1e33d7d926c329a1ad1a800000, 0x2bee513bdb4a6b19b5f800000,
     0x3a9316fa79b88eccf2a00000, 0x48177ebe1fa812375200000,
     0x5263fe90242dcbacf00000, 0x57e22099c030d94100000,
     0x57e22099c030d9410000, 0x52b6b54569976310000,
     0x4985f67696bf748000, 0x3dea12ea99e498000,
     0x31880f2214b6e000, 0x25bcff56eb36000,
     0x1b722e10ab1000, 0x1317c70077000,
     0xcba84aafa00, 0x82573a0a00,
     0x5035ad900, 0x2f881b00,
     0x1b29340, 0xefc40,
     0x7fe0, 0x420,
     0x21, 0x1]"

subsection \<open>Operations\<close>

definition opt_log_step :: "int \<times> int \<Rightarrow> int \<times> int \<Rightarrow> int \<times> int" where
  "opt_log_step = (\<lambda>(res, x) (threshold, summand).
     if threshold \<le> x then (res + summand, x * Fixed1 div threshold) else (res, x))"

definition opt_log_term :: "int \<Rightarrow> int \<Rightarrow> int \<times> int \<Rightarrow> int \<times> int \<Rightarrow> int \<times> int" where
  "opt_log_term y w = (\<lambda>(res, z) (c, d). (res + z * (c - y) div d, z * w div Fixed1))"

definition optimalLog :: "int \<Rightarrow> int" where
  "optimalLog x0 =
     (let (res, x) = foldl opt_log_step (0, x0) optLogSteps;
          y = x - Fixed1;
          w = y * y div Fixed1
      in fst (foldl (opt_log_term y w) (res, y) optLogSeries))"

definition opt_exp_term :: "int \<Rightarrow> int \<times> int \<Rightarrow> int \<Rightarrow> int \<times> int" where
  "opt_exp_term y = (\<lambda>(res, z) c. let z' = z * y div Fixed1 in (res + z' * c, z'))"

definition opt_exp_factor :: "int \<Rightarrow> int \<Rightarrow> int \<times> int \<times> int \<Rightarrow> int" where
  "opt_exp_factor x res = (\<lambda>(b, n, d). if x AND b \<noteq> 0 then res * n div d else res)"

definition optimalExp :: "int \<Rightarrow> int" where
  "optimalExp x =
     (let y = x mod 0x10000000000000000000000000000000;
          res = fst (foldl (opt_exp_term y) (0, y) optExpCoeffs);
          res' = res div 0x21c3677c82b40000 + y + Fixed1
      in foldl (opt_exp_factor x) res' optExpFactors)"

function floor_log2_loop :: "int \<Rightarrow> nat \<Rightarrow> nat" where
  "floor_log2_loop n res = (if 1 < n then floor_log2_loop (n div 2) (res + 1) else res)"
  by pat_completeness auto
termination
  by (relation "measure (\<lambda>(n, res). nat n)") auto

declare floor_log2_loop.simps [simp del]

text \<open>The source tests its own counter, which is 0 at that point, and not the argument: the
  binary-search branch is never taken.\<close>

definition floorLog2 :: "int \<Rightarrow> nat" where
  "floorLog2 n =
     (let res = (0::nat) in
      if res < 256 then floor_log2_loop n res
      else snd (foldl (\<lambda>(n, res) s. if 2 ^ s \<le> n then (n div 2 ^ s, res OR s) else (n, res))
                  (n, res) [128, 64, 32, 16, 8, 4, 2, 1]))"

primrec general_log_loop :: "nat \<Rightarrow> int \<Rightarrow> int \<Rightarrow> int" where
  "general_log_loop 0 x res = res"
| "general_log_loop (Suc i) x res =
     (let x' = x * x div Fixed1 in
      if Fixed2 \<le> x' then general_log_loop i (x' div 2) (res + 2 ^ i)
      else general_log_loop i x' res)"

definition generalLog :: "int \<Rightarrow> int" where
  "generalLog x0 =
     (let (x, res) = (if Fixed2 \<le> x0
                      then let count = floorLog2 (x0 div Fixed1)
                           in (x0 div 2 ^ count, Fixed1 * int count)
                      else (x0, 0));
          res' = (if Fixed1 < x then general_log_loop MaxPrecision x res else res)
      in res' * Ln2Numerator div Ln2Denominator)"

function find_position_loop :: "int \<Rightarrow> nat \<Rightarrow> nat \<Rightarrow> (nat \<times> nat) go" where
  "find_position_loop x lo hi =
     (if lo + 1 < hi
      then let mid = (lo + hi) div 2 in
           bnd (big_at maxExpArray (int mid)) (\<lambda>m.
           if x \<le> m then find_position_loop x mid hi else find_position_loop x lo mid)
      else Inr (lo, hi))"
  by pat_completeness auto
termination
  by (relation "measure (\<lambda>(x, lo, hi). hi - lo)") auto

declare find_position_loop.simps [simp del]

definition findPositionInMaxExpArray :: "int \<Rightarrow> nat go" where
  "findPositionInMaxExpArray x =
     bnd (find_position_loop x MinPrecision MaxPrecision) (\<lambda>(lo, hi).
     bnd (big_at maxExpArray (int hi)) (\<lambda>mhi.
     if x \<le> mhi then Inr hi
     else bnd (big_at maxExpArray (int lo)) (\<lambda>mlo.
          if x \<le> mlo then Inr lo else Inl (Err ''revert''))))"

definition general_exp_term :: "int \<Rightarrow> nat \<Rightarrow> int \<times> int \<Rightarrow> int \<Rightarrow> int \<times> int" where
  "general_exp_term x precision = (\<lambda>(res, xi) c.
     let xi' = xi * x div 2 ^ precision in (res + xi' * c, xi'))"

definition generalExp :: "int \<Rightarrow> nat \<Rightarrow> int" where
  "generalExp x precision =
     (let res = fst (foldl (general_exp_term x precision) (0, x) genExpCoeffs)
      in res div 0x688589cc0e9505e2f2fee5580000000 + x + 2 ^ precision)"

definition Power :: "int \<Rightarrow> int \<Rightarrow> int \<Rightarrow> int \<Rightarrow> (int \<times> nat) go" where
  "Power baseN baseD expN expD =
     bnd (big_div (baseN * Fixed1) baseD) (\<lambda>base.
     let baseLog = (if base < OptLogMaxVal then optimalLog base else generalLog base) in
     bnd (big_div (baseLog * expN) expD) (\<lambda>baseLogTimesExp.
     if baseLogTimesExp < OptExpMaxVal then Inr (optimalExp baseLogTimesExp, MaxPrecision)
     else bnd (findPositionInMaxExpArray baseLogTimesExp) (\<lambda>precision.
          Inr (generalExp (baseLogTimesExp div 2 ^ (MaxPrecision - precision)) precision, precision))))"

subsection \<open>The integer logarithm\<close>

lemma floor_log2_loop_spec:
  "1 \<le> n \<Longrightarrow> \<exists>r. floor_log2_loop n res = res + r \<and> 2 ^ r \<le> n \<and> n < 2 ^ (r + 1)"
proof (induction n res rule: floor_log2_loop.induct)
  case (1 n res)
  show ?case
  proof (cases "1 < n")
    case False
    with "1.prems" show ?thesis
      by (intro exI [of _ 0]) (simp add: floor_log2_loop.simps)
  next
    case True
    then have "1 \<le> n div 2" by simp
    with True obtain r where r: "floor_log2_loop (n div 2) (res + 1) = res + 1 + r"
      "2 ^ r \<le> n div 2" "n div 2 < 2 ^ (r + 1)"
      using "1.IH" by auto
    have "2 ^ Suc r \<le> n" and "n < 2 ^ (Suc r + 1)"
      using r(2,3) by simp_all
    with r(1) True show ?thesis
      by (intro exI [of _ "Suc r"]) (simp add: floor_log2_loop.simps [of n])
  qed
qed

lemma floorLog2_eq_loop: "floorLog2 n = floor_log2_loop n 0"
  by (simp add: floorLog2_def)

subsection \<open>The search in the table of bounds\<close>

lemma length_maxExpTable: "length maxExpTable = 96"
  by (simp add: maxExpTable_def)

lemma maxExp_at: "32 \<le> k \<Longrightarrow> k \<le> 127 \<Longrightarrow> big_at maxExpArray (int k) = Inr (maxExpTable ! (k - 32))"
  by (simp add: big_at_def maxExpArray_def nth_append length_maxExpTable)

lemma maxExpTable_decreasing: "sorted_wrt (>) maxExpTable"
proof -
  have "successively (>) maxExpTable"
    by (simp add: maxExpTable_def)
  then show ?thesis
    by (simp add: successively_conv_sorted_wrt)
qed

lemma find_position_loop_spec:
  assumes "32 \<le> lo" "lo < hi" "hi \<le> 127"
    and "lo = 32 \<or> x \<le> maxExpTable ! (lo - 32)"
    and "hi = 127 \<or> maxExpTable ! (hi - 32) < x"
  shows "\<exists>l. find_position_loop x lo hi = Inr (l, l + 1) \<and> 32 \<le> l \<and> l + 1 \<le> 127
    \<and> (l = 32 \<or> x \<le> maxExpTable ! (l - 32))
    \<and> (l + 1 = 127 \<or> maxExpTable ! (l + 1 - 32) < x)"
  using assms
proof (induction x lo hi rule: find_position_loop.induct)
  case (1 x lo hi)
  show ?case
  proof (cases "lo + 1 < hi")
    case False
    with "1.prems" have "hi = lo + 1" by simp
    with "1.prems" show ?thesis
      by (intro exI [of _ lo]) (simp add: find_position_loop.simps)
  next
    case True
    define mid where "mid = (lo + hi) div 2"
    have mid: "32 \<le> mid" "mid \<le> 127" "lo < mid" "mid < hi"
      using True "1.prems" by (auto simp: mid_def)
    note at = maxExp_at [OF mid(1,2)]
    show ?thesis
    proof (cases "x \<le> maxExpTable ! (mid - 32)")
      case le: True
      have "find_position_loop x lo hi = find_position_loop x mid hi"
        using True le at by (subst find_position_loop.simps) (simp add: mid_def Let_def)
      with "1.IH"(1) [OF True mid_def at le] "1.prems" mid le show ?thesis by simp
    next
      case gt: False
      have "find_position_loop x lo hi = find_position_loop x lo mid"
        using True gt at by (subst find_position_loop.simps) (simp add: mid_def Let_def)
      with "1.IH"(2) [OF True mid_def at gt] "1.prems" mid gt show ?thesis by simp
    qed
  qed
qed

lemma findPosition_cases:
  obtains (found) p where "findPositionInMaxExpArray x = Inr p" "32 \<le> p" "p \<le> 127"
      "x \<le> maxExpTable ! (p - 32)" "p = 127 \<or> maxExpTable ! (p + 1 - 32) < x"
    | (revert) "findPositionInMaxExpArray x = Inl (Err ''revert'')" "maxExpTable ! 0 < x"
proof -
  obtain l where l: "find_position_loop x 32 127 = Inr (l, l + 1)" "32 \<le> l" "l + 1 \<le> 127"
    "l = 32 \<or> x \<le> maxExpTable ! (l - 32)" "l + 1 = 127 \<or> maxExpTable ! (l + 1 - 32) < x"
    using find_position_loop_spec [of 32 127 x] by auto
  have at: "big_at maxExpArray (int (l + 1)) = Inr (maxExpTable ! (l + 1 - 32))"
    "big_at maxExpArray (int l) = Inr (maxExpTable ! (l - 32))"
    by (rule maxExp_at; use l in simp)+
  consider "x \<le> maxExpTable ! (l + 1 - 32)"
    | "maxExpTable ! (l + 1 - 32) < x" "x \<le> maxExpTable ! (l - 32)"
    | "maxExpTable ! (l + 1 - 32) < x" "maxExpTable ! (l - 32) < x"
    by linarith
  then show thesis
  proof cases
    case 1
    then have "findPositionInMaxExpArray x = Inr (l + 1)"
      using l(1) at by (simp add: findPositionInMaxExpArray_def MinPrecision_def MaxPrecision_def)
    then show thesis using 1 l by (intro found [of "l + 1"]) auto
  next
    case 2
    then have "findPositionInMaxExpArray x = Inr l"
      using l(1) at by (simp add: findPositionInMaxExpArray_def MinPrecision_def MaxPrecision_def)
    then show thesis using 2 l by (intro found [of l]) auto
  next
    case 3
    then have "findPositionInMaxExpArray x = Inl (Err ''revert'')"
      using l(1) at by (simp add: findPositionInMaxExpArray_def MinPrecision_def MaxPrecision_def)
    then show thesis using 3 l by (intro revert) auto
  qed
qed

subsection \<open>The coefficients of the exponential series\<close>

lemma genExpCoeffs_fact: "genExpCoeffs = map (\<lambda>k. fact 33 div fact k) [2..<34]"
  by (simp add: genExpCoeffs_def upt_rec fact_numeral)

lemma optExpCoeffs_fact: "optExpCoeffs = map (\<lambda>k. fact 20 div fact k) [2..<21]"
  by (simp add: optExpCoeffs_def upt_rec fact_numeral)

end
