(* ===== verification/Uniswap.thy ===== *)
theory Uniswap
  imports Cpmm_Math Bancor_Formula
begin

text \<open>
  The package \<open>pkg/source/uniswap\<close>: \<open>getAmountOut\<close> of \<open>math.go\<close> (the constant-product quote, and
  the weighted one over \<open>Power\<close> of \<open>formula.go\<close>) and the simulator of \<open>pool_simulator.go\<close>.  The
  constructor gives both tokens the same weight, so well-formed simulators take the first branch.

  \<open>UpdateBalance\<close> adds the input net of the fee, rounded down, to the input reserve.  The product of
  the reserves is therefore not an invariant; the exact guarantee is \<open>uniswap_product_bound\<close>.
\<close>

definition bOne :: int where
  "bOne = 10 ^ 18"

definition bOneFloat :: float64 where
  "bOneFloat = (10 ^ 18, 0)"

record Gas =
  SwapBase :: int
  SwapNonBase :: int

definition defaultGas :: Gas where
  "defaultGas = \<lparr>SwapBase = 60000, SwapNonBase = 102000\<rparr>"

definition defaultTokenWeight :: nat where
  "defaultTokenWeight = 50"

definition getAmountOut :: "bigint \<Rightarrow> bigint \<Rightarrow> bigint \<Rightarrow> nat \<Rightarrow> nat \<Rightarrow> bigint \<Rightarrow> int go" where
  "getAmountOut amountIn reserveIn reserveOut tokenWeightIn tokenWeightOut swapFee =
     bnd (deref swapFee) (\<lambda>fee.
     bnd (deref amountIn) (\<lambda>a.
     let amountInWithFee = a * (bOne - fee) in
     if tokenWeightIn = tokenWeightOut
     then bnd (deref reserveOut) (\<lambda>rOut. bnd (deref reserveIn) (\<lambda>rIn.
          big_div (rOut * amountInWithFee) (rIn * bOne + amountInWithFee)))
     else
       bnd (deref reserveIn) (\<lambda>rIn.
       let baseN = rIn * bOne + amountInWithFee in
       bnd (Power baseN (rIn * bOne) (int tokenWeightIn) (int tokenWeightOut)) (\<lambda>(res, precision).
       bnd (deref reserveOut) (\<lambda>rOut.
       let temp1 = rOut * res; temp2 = rOut * 2 ^ precision in
       big_div (temp1 - temp2) res)))))"

record PoolSimulator = Pool +
  Weights :: "nat list"
  gas :: Gas

definition NewPoolSimulator :: "EntityPool \<Rightarrow> PoolSimulator" where
  "NewPoolSimulator entityPool =
     (let swapFee = big_float_int (big_float_mul 64 (SwapFee_e entityPool) bOneFloat);
          full = (length (Reserves_e entityPool) = 2 \<and> length (Tokens_e entityPool) = 2) in
      \<lparr>Info = \<lparr>Address = to_lower (Address_e entityPool), Exchange = Exchange_e entityPool,
               Type = Type_e entityPool,
               Tokens = (if full then map TokenAddress (Tokens_e entityPool) else ['''', '''']),
               Reserves = (if full then map NewBig10 (Reserves_e entityPool) else [None, None]),
               SwapFee = Some swapFee, BlockNumber = BlockNumber_e entityPool\<rparr>,
       Weights = (if full then [defaultTokenWeight, defaultTokenWeight] else [0, 0]),
       gas = defaultGas\<rparr>)"

text \<open>\<open>CloneState\<close> copies the struct and the reserves slice; \<open>UpdateBalance\<close> replaces slice elements
  by freshly allocated numbers, so as values the clone and the original are independent.\<close>

definition CloneState :: "PoolSimulator \<Rightarrow> PoolSimulator" where
  "CloneState t = t\<lparr>Info := (Info t)\<lparr>Reserves := Reserves (Info t)\<rparr>\<rparr>"

definition CalcAmountOut ::
    "PoolSimulator \<Rightarrow> 'l CalcAmountOutParams \<Rightarrow> unit CalcAmountOutResult go" where
  "CalcAmountOut t param =
     (let tokenAmountIn = TokenAmountIn param; tokenOut = TokenOut param;
          tokenInIndex = GetTokenIndex t (Token tokenAmountIn);
          tokenOutIndex = GetTokenIndex t tokenOut in
      if tokenInIndex < 0 \<or> tokenOutIndex < 0
      then Inl (Err ''tokenInIndex: %v or tokenOutIndex: %v is not correct'')
      else
        bnd (idx (Reserves (Info t)) tokenInIndex) (\<lambda>rIn.
        bnd (idx (Reserves (Info t)) tokenOutIndex) (\<lambda>rOut.
        bnd (idx (Weights t) tokenInIndex) (\<lambda>wIn.
        bnd (idx (Weights t) tokenOutIndex) (\<lambda>wOut.
        bnd (getAmountOut (Amount tokenAmountIn) rIn rOut wIn wOut (SwapFee (Info t))) (\<lambda>amountOut.
        let totalGas = (if wIn \<noteq> wOut then SwapNonBase (gas t) else SwapBase (gas t)) in
        if 0 < amountOut
        then Inr \<lparr>TokenAmountOut = Some (token_amount tokenOut (Some amountOut)),
                  Fee = Some (token_amount (Token tokenAmountIn) None),
                  RemainingTokenAmountIn = None, Gas = totalGas, SwapInfo = None\<rparr>
        else Inl (Err ''invalid amount out: %v'')))))))"

definition UpdateBalance ::
    "PoolSimulator \<Rightarrow> (unit, 'l) UpdateBalanceParams \<Rightarrow> PoolSimulator go" where
  "UpdateBalance t params =
     (let input = TokenAmountIn_u params; output = TokenAmountOut_u params in
      bnd (deref (SwapFee (Info t))) (\<lambda>fee.
      bnd (deref (Amount input)) (\<lambda>a.
      let inputAmount = (a * (bOne - fee)) div bOne in
      bnd (swap_reserves (Tokens (Info t)) 0 (Token input) inputAmount (Token output)
             (Amount output) (Reserves (Info t))) (\<lambda>rs.
      Inr (t\<lparr>Info := (Info t)\<lparr>Reserves := rs\<rparr>\<rparr>)))))"

definition GetMetaInfo :: "PoolSimulator \<Rightarrow> string \<times> nat" where
  "GetMetaInfo t = ((case SwapFee (Info t) of None \<Rightarrow> ''2'' | Some f \<Rightarrow> big_string f),
                    BlockNumber (Info t))"

subsection \<open>Well-formedness and the behaviour of a swap\<close>

definition wf :: "PoolSimulator \<Rightarrow> bool" where
  "wf t = (pair_wf t \<and> (\<exists>w. Weights t = [w, w]) \<and>
     (\<exists>f. SwapFee (Info t) = Some f \<and> 0 \<le> f \<and> f \<le> bOne))"

definition gross_input :: "PoolSimulator \<Rightarrow> int \<Rightarrow> int" where
  "gross_input t a = a * (bOne - the (SwapFee (Info t)))"

lemma bOne_pos [simp]: "0 < bOne" "bOne \<noteq> 0"
  by (simp_all add: bOne_def)

lemma gross_input_nonneg: "wf t \<Longrightarrow> 0 \<le> a \<Longrightarrow> 0 \<le> gross_input t a"
  by (auto simp: wf_def gross_input_def)

lemma uni_quoteE:
  assumes "wf t" and "valid_request p" and "CalcAmountOut t p = Inr r"
  obtains a o' where "Amount (TokenAmountIn p) = Some a" "0 < a"
    "0 \<le> GetTokenIndex t (Token (TokenAmountIn p))" "0 \<le> GetTokenIndex t (TokenOut p)"
    "o' = cpmm_out (reserve_of t (Token (TokenAmountIn p)) * bOne) (reserve_of t (TokenOut p))
            (gross_input t a)"
    "0 < o'" "o' < reserve_of t (TokenOut p)"
    "TokenAmountOut r = Some (token_amount (TokenOut p) (Some o'))"
proof -
  obtain a where a: "Amount (TokenAmountIn p) = Some a" "0 < a" "Token (TokenAmountIn p) \<noteq> TokenOut p"
    using assms(2) by (rule valid_requestE)
  have ix: "0 \<le> GetTokenIndex t (Token (TokenAmountIn p))" "0 \<le> GetTokenIndex t (TokenOut p)"
    using assms(3) by (auto simp: CalcAmountOut_def Let_def split: if_splits)
  have nn: "0 \<le> gross_input t a"
    using assms(1) a(2) by (simp add: gross_input_nonneg)
  from assms(1) obtain w f where t: "pair_wf t" "Weights t = [w, w]" "SwapFee (Info t) = Some f"
    by (auto simp: wf_def)
  define o' where "o' = cpmm_out (reserve_of t (Token (TokenAmountIn p)) * bOne)
    (reserve_of t (TokenOut p)) (gross_input t a)"
  have "0 < reserve_of t x * bOne + gross_input t a" for x
    using nn pair_reserve_pos [OF t(1), of x] by (simp add: add_pos_nonneg)
  then have div: "big_div (reserve_of t y * gross_input t a) (reserve_of t x * bOne + gross_input t a)
      = Inr (cpmm_out (reserve_of t x * bOne) (reserve_of t y) (gross_input t a))" for x y
    by (simp add: cpmm_out_def)
  have fee: "a * (bOne - f) = gross_input t a"
    by (simp add: gross_input_def t)
  have out: "TokenAmountOut r = Some (token_amount (TokenOut p) (Some o')) \<and> 0 < o'"
    using t(1) ix a(3)
  proof (cases rule: pair_cases)
    case (forward r0 r1)
    with assms(3) t a div [of "TokenOut p" "Token (TokenAmountIn p)"] show ?thesis
      by (auto simp: CalcAmountOut_def getAmountOut_def Let_def fee reserve_of_def o'_def
          split: if_splits)
  next
    case (backward r0 r1)
    with assms(3) t a div [of "TokenOut p" "Token (TokenAmountIn p)"] show ?thesis
      by (auto simp: CalcAmountOut_def getAmountOut_def Let_def fee reserve_of_def o'_def
          split: if_splits)
  qed
  have "o' < reserve_of t (TokenOut p)"
    unfolding o'_def using nn pair_reserve_pos [OF t(1)] by (intro cpmm_out_less) simp_all
  with out show thesis
    by (intro that [OF a(1,2) ix o'_def]) auto
qed

lemma uni_swap_applied:
  assumes "wf t" and "valid_request p" and "CalcAmountOut t p = Inr r"
  obtains t' a o' where "UpdateBalance t (update_params p r) = Inr t'" "wf t'"
    "Amount (TokenAmountIn p) = Some a" "0 < a"
    "o' = cpmm_out (reserve_of t (Token (TokenAmountIn p)) * bOne) (reserve_of t (TokenOut p))
            (gross_input t a)"
    "TokenAmountOut r = Some (token_amount (TokenOut p) (Some o'))"
    "reserve_of t' (Token (TokenAmountIn p)) =
       reserve_of t (Token (TokenAmountIn p)) + gross_input t a div bOne"
    "reserve_of t' (TokenOut p) = reserve_of t (TokenOut p) - o'"
proof -
  from assms obtain a o' where q: "Amount (TokenAmountIn p) = Some a" "0 < a"
    "0 \<le> GetTokenIndex t (Token (TokenAmountIn p))" "0 \<le> GetTokenIndex t (TokenOut p)"
    "o' = cpmm_out (reserve_of t (Token (TokenAmountIn p)) * bOne) (reserve_of t (TokenOut p))
            (gross_input t a)"
    "0 < o'" "o' < reserve_of t (TokenOut p)"
    "TokenAmountOut r = Some (token_amount (TokenOut p) (Some o'))"
    by (rule uni_quoteE)
  from assms(1) obtain w f where t: "pair_wf t" "Weights t = [w, w]" "SwapFee (Info t) = Some f"
    "0 \<le> f" "f \<le> bOne"
    by (auto simp: wf_def)
  have fee: "a * (bOne - f) = gross_input t a"
    by (simp add: gross_input_def t)
  have nn: "0 \<le> gross_input t a div bOne"
    using assms(1) q(2) by (simp add: gross_input_nonneg)
  have ne: "Token (TokenAmountIn p) \<noteq> TokenOut p"
    using assms(2) by (auto simp: valid_request_def)
  have "\<exists>t'. UpdateBalance t (update_params p r) = Inr t' \<and> wf t' \<and>
    reserve_of t' (Token (TokenAmountIn p)) =
      reserve_of t (Token (TokenAmountIn p)) + gross_input t a div bOne \<and>
    reserve_of t' (TokenOut p) = reserve_of t (TokenOut p) - o'"
    using t(1) q(3,4) ne
  proof (cases rule: pair_cases)
    case (forward r0 r1)
    with t q(1,2,7,8) ne nn show ?thesis
      by (auto simp: UpdateBalance_def Let_def swap_reserves_pair fee wf_def pair_wf_def
          reserve_of_def GetTokenIndex_def PoolInfo_GetTokenIndex_def intro!: add_pos_nonneg)
  next
    case (backward r0 r1)
    with t q(1,2,7,8) ne nn show ?thesis
      by (auto simp: UpdateBalance_def Let_def swap_reserves_pair fee wf_def pair_wf_def
          reserve_of_def GetTokenIndex_def PoolInfo_GetTokenIndex_def intro!: add_pos_nonneg)
  qed
  with q that show thesis by blast
qed

interpretation uniswap: pool_simulator CalcAmountOut UpdateBalance wf reserve_of
proof
  show "wf t \<Longrightarrow> 0 \<le> reserve_of t a" for t :: PoolSimulator and a
    using pair_reserve_pos [of t a] by (auto simp: wf_def)
next
  fix t and p :: "'l CalcAmountOutParams" and r
  assume *: "wf t" "valid_request p" "CalcAmountOut t p = Inr r"
  show "\<exists>a. TokenAmountOut r = Some (token_amount (TokenOut p) (Some a)) \<and> 0 < a
          \<and> a \<le> reserve_of t (TokenOut p)"
    using uni_quoteE [OF *] by (metis less_imp_le)
  show "\<exists>t'. UpdateBalance t (update_params p r) = Inr t' \<and> wf t'"
    using uni_swap_applied [OF *] by metis
qed

subsection \<open>Properties\<close>

definition pool_ex :: PoolSimulator where
  "pool_ex = \<lparr>Info = \<lparr>Address = ''0x1'', Exchange = ''uniswap'', Type = ''uniswap'',
      Tokens = [''a'', ''b''], Reserves = [Some 1, Some 100], SwapFee = Some 50000000000000000,
      BlockNumber = 1\<rparr>, Weights = [50, 50], gas = defaultGas\<rparr>"

definition request_ex :: "int \<Rightarrow> unit CalcAmountOutParams" where
  "request_ex a = \<lparr>TokenAmountIn = token_amount ''a'' (Some a), TokenOut = ''b'', Limit = None\<rparr>"

definition result_ex :: "int \<Rightarrow> unit CalcAmountOutResult" where
  "result_ex a = \<lparr>TokenAmountOut = Some (token_amount ''b'' (Some a)),
     Fee = Some (token_amount ''a'' None), RemainingTokenAmountIn = None, Gas = 60000,
     SwapInfo = None\<rparr>"

lemma uni_wf_ex: "wf pool_ex"
  by (simp add: wf_def pair_wf_def pool_ex_def bOne_def)

lemma uni_valid_ex: "0 < a \<Longrightarrow> valid_request (request_ex a)"
  by (simp add: valid_request_def request_ex_def)

lemma uni_quote_ex: "CalcAmountOut pool_ex (request_ex 2) = Inr (result_ex 65)"
  by code_simp

lemma uni_update_ex: "UpdateBalance pool_ex (update_params (request_ex 2) (result_ex 65)) =
    Inr (pool_ex\<lparr>Info := (Info pool_ex)\<lparr>Reserves := [Some 2, Some 35]\<rparr>\<rparr>)"
  by code_simp

text \<open>A swap of the Uniswap simulator can always be applied and leaves a well-formed pool; the
  input reserve it records, raised by one unit, times the output reserve is at least the product
  before.  The unit is needed, because \<open>UpdateBalance\<close> rounds the input net of the fee down.\<close>

theorem uniswap_product_bound:
  assumes "wf t" and "valid_request p" and "CalcAmountOut t p = Inr r"
  shows "\<exists>t'. UpdateBalance t (update_params p r) = Inr t' \<and> wf t' \<and>
    reserve_of t (Token (TokenAmountIn p)) * reserve_of t (TokenOut p) \<le>
    (reserve_of t' (Token (TokenAmountIn p)) + 1) * reserve_of t' (TokenOut p)"
proof -
  let ?x = "reserve_of t (Token (TokenAmountIn p))" and ?y = "reserve_of t (TokenOut p)"
  from assms obtain t' a o' where s: "UpdateBalance t (update_params p r) = Inr t'" "wf t'" "0 < a"
    "o' = cpmm_out (?x * bOne) ?y (gross_input t a)"
    "reserve_of t' (Token (TokenAmountIn p)) = ?x + gross_input t a div bOne"
    "reserve_of t' (TokenOut p) = ?y - o'"
    by (rule uni_swap_applied)
  have x: "0 < ?x" and y: "0 < ?y - o'"
    using pair_reserve_pos [of t] pair_reserve_pos [of t' "TokenOut p"] assms(1) s(2,6)
    by (auto simp: wf_def)
  have g: "0 \<le> gross_input t a"
    using assms(1) s(3) by (simp add: gross_input_nonneg)
  have "?x * bOne * ?y \<le> (?x * bOne + gross_input t a) * (?y - o')"
    unfolding s(4) using x g by (intro cpmm_product_kept) (simp add: add_pos_nonneg)
  also have "\<dots> \<le> (?x * bOne + (gross_input t a div bOne + 1) * bOne) * (?y - o')"
    using y floor_gt [OF bOne_pos(1), of "gross_input t a"] by (intro mult_right_mono) auto
  finally have "(?x * ?y) * bOne \<le> ((?x + gross_input t a div bOne + 1) * (?y - o')) * bOne"
    by (simp add: algebra_simps)
  then have "?x * ?y \<le> (?x + gross_input t a div bOne + 1) * (?y - o')"
    by simp
  with s(1,2) show ?thesis unfolding s(5,6) [symmetric] by blast
qed

theorem uniswap_product_bound_witness:
  "CalcAmountOut pool_ex (request_ex 2) = Inr (result_ex 65) \<and>
   (\<exists>t'. UpdateBalance pool_ex (update_params (request_ex 2) (result_ex 65)) = Inr t' \<and>
     reserve_of t' ''a'' * reserve_of t' ''b'' < 1 * 100 \<and>
     1 * 100 \<le> (reserve_of t' ''a'' + 1) * reserve_of t' ''b'')"
proof -
  have *: "reserve_of pool_ex ''a'' = 1" "reserve_of pool_ex ''b'' = 100"
    "reserve_of (pool_ex\<lparr>Info := (Info pool_ex)\<lparr>Reserves := [Some 2, Some 35]\<rparr>\<rparr>) ''a'' = 2"
    "reserve_of (pool_ex\<lparr>Info := (Info pool_ex)\<lparr>Reserves := [Some 2, Some 35]\<rparr>\<rparr>) ''b'' = 35"
    by code_simp+
  have req: "Token (TokenAmountIn (request_ex 2)) = ''a''" "TokenOut (request_ex 2) = ''b''"
    by (simp_all add: request_ex_def)
  from uniswap_product_bound [OF uni_wf_ex uni_valid_ex uni_quote_ex] uni_quote_ex show ?thesis
    unfolding req by (simp add: * uni_update_ex)
qed

end
