(* ===== verification/Syncswap_Classic.thy ===== *)
theory Syncswap_Classic
  imports Cpmm_Math
begin

text \<open>
  The package \<open>pkg/source/syncswap/syncswapclassic\<close>: the constant-product pool with a fee per
  direction and the vault that holds the tokens.  It quotes in both directions: \<open>CalcAmountOut\<close> and
  \<open>CalcAmountIn\<close>.  \<open>integer.Zero()\<close> and \<open>integer.One()\<close> of the third-party \<open>blockchain-toolkit\<close> are
  parameters (\<open>integer_Zero\<close>, \<open>integer_One\<close>), JSON decoding is a parameter of the constructor.
\<close>

record Gas =
  Swap :: int

definition DefaultGas :: Gas where
  "DefaultGas = \<lparr>Swap = 300000\<rparr>"

definition MaxFee :: int where
  "MaxFee = 100000"

record ExtraClassicPool =
  SwapFee0To1 :: bigint
  SwapFee1To0 :: bigint
  VaultAddress :: string
  VaultBalance0 :: bigint
  VaultBalance1 :: bigint

definition calAmountAfterFee :: "int \<Rightarrow> int \<Rightarrow> int" where
  "calAmountAfterFee amountIn swapFee = amountIn * (MaxFee - swapFee)"

definition getExactQuote :: "bigint \<Rightarrow> bigint \<Rightarrow> bigint \<Rightarrow> bigint \<Rightarrow> (int \<times> int) go" where
  "getExactQuote swapFee amountIn reserveIn reserveOut =
     bnd (deref amountIn) (\<lambda>a.
     if a \<le> 0 then Inr (0, 0) else
     bnd (deref swapFee) (\<lambda>fee.
     let amountInWithFee = calAmountAfterFee a fee; feeIn = a * (fee div MaxFee) in
     bnd (deref reserveOut) (\<lambda>rOut.
     bnd (deref reserveIn) (\<lambda>rIn.
     bnd (big_div (amountInWithFee * rOut) (rIn * MaxFee + amountInWithFee)) (\<lambda>amountOut.
     Inr (amountOut, feeIn))))))"

definition getAmountOut :: "bigint \<Rightarrow> bigint \<Rightarrow> bigint \<Rightarrow> bigint \<Rightarrow> int go" where
  "getAmountOut amountIn reserveIn reserveOut swapFee =
     bnd (getExactQuote swapFee amountIn reserveIn reserveOut) (\<lambda>(amountOut, _). Inr amountOut)"

definition getAmountIn :: "int \<Rightarrow> int \<Rightarrow> bigint \<Rightarrow> bigint \<Rightarrow> bigint \<Rightarrow> bigint \<Rightarrow> int go" where
  "getAmountIn integer_Zero integer_One swapFee amountOut reserveIn reserveOut =
     bnd (deref amountOut) (\<lambda>o'.
     if o' \<le> 0 then Inr integer_Zero else
     bnd (deref reserveIn) (\<lambda>rIn.
     bnd (deref reserveOut) (\<lambda>rOut.
     bnd (deref swapFee) (\<lambda>fee.
     bnd (big_div (rIn * o' * MaxFee) ((rOut - o') * (MaxFee - fee))) (\<lambda>q.
     Inr (q + integer_One))))))"

record PoolSimulator = Pool +
  vaultAddress :: string
  swapFees :: "bigint list"
  gas :: Gas
  vaultBalances :: "bigint list"

definition NewPoolSimulator :: "(string \<Rightarrow> ExtraClassicPool go) \<Rightarrow> EntityPool \<Rightarrow> PoolSimulator go" where
  "NewPoolSimulator json_Unmarshal entityPool =
     bnd (json_Unmarshal (Extra_e entityPool)) (\<lambda>extra.
     bnd (idx (Tokens_e entityPool) 0) (\<lambda>t0. bnd (idx (Tokens_e entityPool) 1) (\<lambda>t1.
     bnd (idx (Reserves_e entityPool) 0) (\<lambda>r0. bnd (idx (Reserves_e entityPool) 1) (\<lambda>r1.
     Inr \<lparr>Info = \<lparr>Address = to_lower (Address_e entityPool), Exchange = Exchange_e entityPool,
                  Type = Type_e entityPool, Tokens = [TokenAddress t0, TokenAddress t1],
                  Reserves = [NewBig10 r0, NewBig10 r1], SwapFee = None,
                  BlockNumber = BlockNumber_e entityPool\<rparr>,
          vaultAddress = VaultAddress extra,
          swapFees = [SwapFee0To1 extra, SwapFee1To0 extra], gas = DefaultGas,
          vaultBalances = [VaultBalance0 extra, VaultBalance1 extra]\<rparr>)))))"

text \<open>\<open>exceeds a b\<close> is the guard \<open>b != nil && a.Cmp(b) > 0\<close>.\<close>

definition exceeds :: "int \<Rightarrow> bigint \<Rightarrow> bool" where
  "exceeds a b = (case b of None \<Rightarrow> False | Some x \<Rightarrow> x < a)"

definition CalcAmountOut ::
    "PoolSimulator \<Rightarrow> 'l CalcAmountOutParams \<Rightarrow> unit CalcAmountOutResult go" where
  "CalcAmountOut p param =
     (let tokenAmountIn = TokenAmountIn param; tokenOut = TokenOut param;
          tokenInIndex = GetTokenIndex p (Token tokenAmountIn);
          tokenOutIndex = GetTokenIndex p tokenOut in
      if tokenInIndex < 0 \<or> tokenOutIndex < 0
      then Inl (Err ''tokenInIndex %v or tokenOutIndex %v is not correct'')
      else
        bnd (idx (Reserves (Info p)) tokenInIndex) (\<lambda>rIn.
        bnd (idx (Reserves (Info p)) tokenOutIndex) (\<lambda>rOut.
        bnd (idx (swapFees p) tokenInIndex) (\<lambda>fee.
        bnd (getAmountOut (Amount tokenAmountIn) rIn rOut fee) (\<lambda>amountOut.
        if amountOut \<le> 0 then Inl (Err ''amountOut is %d'') else
        bnd (deref rOut) (\<lambda>reserveOut.
        if reserveOut < amountOut then Inl (Err ''amountOut is %d bigger than reserve %d'') else
        bnd (idx (vaultBalances p) tokenInIndex) (\<lambda>vIn.
        bnd (deref (Amount tokenAmountIn)) (\<lambda>amountIn.
        if exceeds amountIn vIn then Inl (Err ''amountIn is %d bigger than vault balance %d'') else
        bnd (idx (vaultBalances p) tokenOutIndex) (\<lambda>vOut.
        if exceeds amountOut vOut then Inl (Err ''amountOut is %d bigger than vault balance %d'') else
        Inr \<lparr>TokenAmountOut = Some (token_amount tokenOut (Some amountOut)),
             Fee = Some (token_amount tokenOut None), RemainingTokenAmountIn = None,
             Gas = Swap (gas p), SwapInfo = None\<rparr>)))))))))"

definition CalcAmountIn ::
    "int \<Rightarrow> int \<Rightarrow> PoolSimulator \<Rightarrow> 'l CalcAmountInParams \<Rightarrow> unit CalcAmountInResult go" where
  "CalcAmountIn integer_Zero integer_One p param =
     (let tokenAmountOut = TokenAmountOut_i param; tokenIn = TokenIn param;
          tokenInIndex = GetTokenIndex p tokenIn;
          tokenOutIndex = GetTokenIndex p (Token tokenAmountOut) in
      if tokenInIndex < 0 \<or> tokenOutIndex < 0
      then Inl (Err ''tokenInIndex %v or tokenOutIndex %v is not correct'')
      else
        bnd (idx (Reserves (Info p)) tokenOutIndex) (\<lambda>rOut.
        bnd (deref (Amount tokenAmountOut)) (\<lambda>o'.
        bnd (deref rOut) (\<lambda>reserveOut.
        if reserveOut < o' then Inl (Err ''expected amountOut is %v bigger than reserve %v'') else
        bnd (idx (swapFees p) tokenInIndex) (\<lambda>fee.
        bnd (idx (Reserves (Info p)) tokenInIndex) (\<lambda>rIn.
        bnd (getAmountIn integer_Zero integer_One fee (Some o') rIn rOut) (\<lambda>amountIn.
        if amountIn \<le> integer_Zero then Inl (Err ''amountOut is %v'') else
        Inr \<lparr>TokenAmountIn_r = Some (token_amount tokenIn (Some amountIn)),
             RemainingTokenAmountOut_r = None, Fee_r = Some (token_amount tokenIn None),
             Gas_r = Swap (gas p), SwapInfo_r = None\<rparr>)))))))"

definition UpdateBalance ::
    "PoolSimulator \<Rightarrow> (unit, 'l) UpdateBalanceParams \<Rightarrow> PoolSimulator go" where
  "UpdateBalance p params =
     (let input = TokenAmountIn_u params; output = TokenAmountOut_u params;
          tokenInIndex = GetTokenIndex p (Token input);
          tokenOutIndex = GetTokenIndex p (Token output) in
      bnd (big_at (swapFees p) tokenInIndex) (\<lambda>fee.
      bnd (deref (Amount input)) (\<lambda>a.
      let inputAmount = calAmountAfterFee a fee div MaxFee in
      bnd (add_at (Reserves (Info p)) tokenInIndex inputAmount) (\<lambda>rs.
      bnd (deref (Amount output)) (\<lambda>o'.
      bnd (add_at rs tokenOutIndex (- o')) (\<lambda>rs'.
      Inr (p\<lparr>Info := (Info p)\<lparr>Reserves := rs'\<rparr>\<rparr>)))))))"

definition CalcExactQuote :: "PoolSimulator \<Rightarrow> string \<Rightarrow> string \<Rightarrow> bigint \<Rightarrow> int go" where
  "CalcExactQuote p tokenIn tokenOut base =
     (let tokenInIndex = GetTokenIndex p tokenIn; tokenOutIndex = GetTokenIndex p tokenOut in
      if tokenInIndex < 0 \<or> tokenOutIndex < 0 then Inr 0
      else
        bnd (idx (Reserves (Info p)) tokenInIndex) (\<lambda>rIn.
        bnd (idx (Reserves (Info p)) tokenOutIndex) (\<lambda>rOut.
        bnd (idx (swapFees p) tokenInIndex) (\<lambda>fee.
        getAmountOut base rIn rOut fee))))"

fun can_swap_loop :: "string list \<Rightarrow> int \<Rightarrow> int \<Rightarrow> string list" where
  "can_swap_loop [] i tokenInIndex = []"
| "can_swap_loop (t # ts) i tokenInIndex =
     (if i \<noteq> tokenInIndex then t # can_swap_loop ts (i + 1) tokenInIndex
      else can_swap_loop ts (i + 1) tokenInIndex)"

definition CanSwapTo :: "PoolSimulator \<Rightarrow> string \<Rightarrow> string list" where
  "CanSwapTo p address =
     (let tokenInIndex = GetTokenIndex p address in
      if tokenInIndex < 0 then [] else can_swap_loop (Tokens (Info p)) 0 tokenInIndex)"

subsection \<open>Well-formedness and the behaviour of a swap\<close>

definition wf :: "PoolSimulator \<Rightarrow> bool" where
  "wf p = (pair_wf p \<and> length (vaultBalances p) = 2 \<and>
     (\<exists>f0 f1. swapFees p = [Some f0, Some f1] \<and> 0 \<le> f0 \<and> f0 < MaxFee \<and> 0 \<le> f1 \<and> f1 < MaxFee))"

definition after_fee :: "PoolSimulator \<Rightarrow> string \<Rightarrow> int \<Rightarrow> int" where
  "after_fee p tin a = a * (MaxFee - the (swapFees p ! nat (GetTokenIndex p tin)))"

definition pay :: "PoolSimulator \<Rightarrow> string \<Rightarrow> string \<Rightarrow> int \<Rightarrow> int" where
  "pay p tin tout a = cpmm_out (reserve_of p tin * MaxFee) (reserve_of p tout) (after_fee p tin a)"

lemma MaxFee_pos [simp]: "0 < MaxFee" "MaxFee \<noteq> 0"
  by (simp_all add: MaxFee_def)

lemma sync_fee_factor_pos: "wf p \<Longrightarrow> 0 < MaxFee - the (swapFees p ! nat (GetTokenIndex p tin))"
  by (auto simp: wf_def pair_index elim!: pair_wfE)

lemma sync_after_fee_pos: "wf p \<Longrightarrow> 0 < a \<Longrightarrow> 0 < after_fee p tin a"
  using sync_fee_factor_pos [of p tin] by (simp add: after_fee_def)

lemma sync_reserve_pos: "wf p \<Longrightarrow> 0 < reserve_of p a"
  by (simp add: wf_def pair_reserve_pos)

lemma sync_getAmountOut:
  assumes "wf p" and "0 \<le> GetTokenIndex p tin" and "0 \<le> GetTokenIndex p tout" and "tin \<noteq> tout"
    and "0 < a"
  shows "getAmountOut (Some a) (Some (reserve_of p tin)) (Some (reserve_of p tout))
           (Some (the (swapFees p ! nat (GetTokenIndex p tin)))) = Inr (pay p tin tout a)"
proof -
  have "0 < reserve_of p tin * MaxFee + after_fee p tin a"
    using sync_after_fee_pos [OF assms(1,5), of tin] sync_reserve_pos [OF assms(1), of tin]
    by (simp add: add_pos_pos)
  with assms(5) show ?thesis
    by (simp add: getAmountOut_def getExactQuote_def calAmountAfterFee_def pay_def cpmm_out_def
        after_fee_def Let_def mult.commute)
qed

lemma sync_lookups:
  assumes "wf p" and "0 \<le> GetTokenIndex p tin" and "0 \<le> GetTokenIndex p tout" and "tin \<noteq> tout"
  shows "idx (Reserves (Info p)) (GetTokenIndex p tin) = Inr (Some (reserve_of p tin))"
    and "idx (Reserves (Info p)) (GetTokenIndex p tout) = Inr (Some (reserve_of p tout))"
    and "idx (swapFees p) (GetTokenIndex p tin)
         = Inr (Some (the (swapFees p ! nat (GetTokenIndex p tin))))"
    and "idx (vaultBalances p) (GetTokenIndex p tin)
         = Inr (vaultBalances p ! nat (GetTokenIndex p tin))"
    and "idx (vaultBalances p) (GetTokenIndex p tout)
         = Inr (vaultBalances p ! nat (GetTokenIndex p tout))"
proof -
  have "pair_wf p" using assms(1) by (simp add: wf_def)
  then have *: "GetTokenIndex p tin = 0 \<and> GetTokenIndex p tout = 1 \<or>
      GetTokenIndex p tin = 1 \<and> GetTokenIndex p tout = 0"
    and rs: "\<exists>r0 r1. Reserves (Info p) = [Some r0, Some r1]"
    using assms(2-4) by (cases rule: pair_cases; auto)+
  from assms(1) obtain f0 f1 where fees: "swapFees p = [Some f0, Some f1]"
    and vb: "length (vaultBalances p) = 2"
    by (auto simp: wf_def)
  from rs obtain r0 r1 where rs: "Reserves (Info p) = [Some r0, Some r1]" by blast
  show "idx (Reserves (Info p)) (GetTokenIndex p tin) = Inr (Some (reserve_of p tin))"
    and "idx (Reserves (Info p)) (GetTokenIndex p tout) = Inr (Some (reserve_of p tout))"
    and "idx (swapFees p) (GetTokenIndex p tin)
         = Inr (Some (the (swapFees p ! nat (GetTokenIndex p tin))))"
    and "idx (vaultBalances p) (GetTokenIndex p tin)
         = Inr (vaultBalances p ! nat (GetTokenIndex p tin))"
    and "idx (vaultBalances p) (GetTokenIndex p tout)
         = Inr (vaultBalances p ! nat (GetTokenIndex p tout))"
    using * rs fees vb by (auto simp: reserve_of_def idx_def)
qed

text \<open>The quote on every branch.\<close>

lemma sync_CalcAmountOut:
  assumes "wf p" and "0 \<le> GetTokenIndex p (Token (TokenAmountIn q))"
    and "0 \<le> GetTokenIndex p (TokenOut q)" and "Token (TokenAmountIn q) \<noteq> TokenOut q"
    and "Amount (TokenAmountIn q) = Some a" and "0 < a"
  shows "CalcAmountOut p q =
    (let o' = pay p (Token (TokenAmountIn q)) (TokenOut q) a in
     if o' \<le> 0 then Inl (Err ''amountOut is %d'')
     else if exceeds a (vaultBalances p ! nat (GetTokenIndex p (Token (TokenAmountIn q))))
     then Inl (Err ''amountIn is %d bigger than vault balance %d'')
     else if exceeds o' (vaultBalances p ! nat (GetTokenIndex p (TokenOut q)))
     then Inl (Err ''amountOut is %d bigger than vault balance %d'')
     else Inr \<lparr>TokenAmountOut = Some (token_amount (TokenOut q) (Some o')),
             Fee = Some (token_amount (TokenOut q) None), RemainingTokenAmountIn = None,
             Gas = Swap (gas p), SwapInfo = None\<rparr>)"
proof -
  have "pay p (Token (TokenAmountIn q)) (TokenOut q) a < reserve_of p (TokenOut q)"
    unfolding pay_def
    using sync_reserve_pos [OF assms(1)] sync_after_fee_pos [OF assms(1,6)]
    by (intro cpmm_out_less) (auto intro: less_imp_le)
  with assms show ?thesis
    by (simp add: CalcAmountOut_def Let_def sync_lookups sync_getAmountOut)
qed

lemma sync_quoteE:
  assumes "wf p" and "valid_request q" and "CalcAmountOut p q = Inr r"
  obtains a where "Amount (TokenAmountIn q) = Some a" "0 < a"
    "0 \<le> GetTokenIndex p (Token (TokenAmountIn q))" "0 \<le> GetTokenIndex p (TokenOut q)"
    "0 < pay p (Token (TokenAmountIn q)) (TokenOut q) a"
    "TokenAmountOut r = Some (token_amount (TokenOut q)
        (Some (pay p (Token (TokenAmountIn q)) (TokenOut q) a)))"
proof -
  obtain a where a: "Amount (TokenAmountIn q) = Some a" "0 < a" "Token (TokenAmountIn q) \<noteq> TokenOut q"
    using assms(2) by (rule valid_requestE)
  have ix: "0 \<le> GetTokenIndex p (Token (TokenAmountIn q))" "0 \<le> GetTokenIndex p (TokenOut q)"
    using assms(3) by (auto simp: CalcAmountOut_def Let_def split: if_splits)
  from sync_CalcAmountOut [OF assms(1) ix a(3,1,2)] assms(3) show thesis
    by (intro that [OF a(1,2) ix]) (auto simp: Let_def split: if_splits)
qed

lemma sync_pay_less: "wf p \<Longrightarrow> 0 < a \<Longrightarrow> pay p tin tout a < reserve_of p tout"
  unfolding pay_def using sync_reserve_pos sync_after_fee_pos
  by (intro cpmm_out_less) (auto intro: less_imp_le)

lemma sync_UpdateBalance:
  assumes "wf p" and "0 \<le> GetTokenIndex p tin" and "0 \<le> GetTokenIndex p tout" and "tin \<noteq> tout"
    and "Token (TokenAmountIn_u u) = tin" "Amount (TokenAmountIn_u u) = Some a"
    and "TokenAmountOut_u u = token_amount tout (Some o')"
    and "0 < a" and "o' < reserve_of p tout"
  shows "\<exists>p'. UpdateBalance p u = Inr p' \<and> wf p' \<and> vaultBalances p' = vaultBalances p \<and>
    reserve_of p' tin = reserve_of p tin + after_fee p tin a div MaxFee \<and>
    reserve_of p' tout = reserve_of p tout - o'"
proof -
  from assms(1) obtain f0 f1 where t: "pair_wf p" "length (vaultBalances p) = 2"
    "swapFees p = [Some f0, Some f1]" "0 \<le> f0" "f0 < MaxFee" "0 \<le> f1" "f1 < MaxFee"
    by (auto simp: wf_def)
  have nn: "0 \<le> after_fee p tin a div MaxFee"
    using sync_after_fee_pos [OF assms(1,8), of tin] by simp
  from t(1) assms(2-4) show ?thesis
  proof (cases rule: pair_cases)
    case (forward r0 r1)
    with t assms(4-) nn show ?thesis
      by (auto simp: UpdateBalance_def Let_def wf_def pair_wf_def reserve_of_def after_fee_def
          calAmountAfterFee_def GetTokenIndex_def PoolInfo_GetTokenIndex_def intro!: add_pos_nonneg)
  next
    case (backward r0 r1)
    with t assms(4-) nn show ?thesis
      by (auto simp: UpdateBalance_def Let_def wf_def pair_wf_def reserve_of_def after_fee_def
          calAmountAfterFee_def GetTokenIndex_def PoolInfo_GetTokenIndex_def intro!: add_pos_nonneg)
  qed
qed

interpretation syncswap_classic: pool_simulator CalcAmountOut UpdateBalance wf reserve_of
proof
  show "wf p \<Longrightarrow> 0 \<le> reserve_of p a" for p :: PoolSimulator and a
    using sync_reserve_pos [of p a] by simp
next
  fix p and q :: "'l CalcAmountOutParams" and r
  assume *: "wf p" "valid_request q" "CalcAmountOut p q = Inr r"
  from * obtain a where a: "Amount (TokenAmountIn q) = Some a" "0 < a"
    "0 \<le> GetTokenIndex p (Token (TokenAmountIn q))" "0 \<le> GetTokenIndex p (TokenOut q)"
    "0 < pay p (Token (TokenAmountIn q)) (TokenOut q) a"
    "TokenAmountOut r = Some (token_amount (TokenOut q)
        (Some (pay p (Token (TokenAmountIn q)) (TokenOut q) a)))"
    by (rule sync_quoteE)
  note less = sync_pay_less [OF *(1) a(2), of "Token (TokenAmountIn q)" "TokenOut q"]
  with a show "\<exists>a. TokenAmountOut r = Some (token_amount (TokenOut q) (Some a)) \<and> 0 < a
          \<and> a \<le> reserve_of p (TokenOut q)"
    by auto
  have ne: "Token (TokenAmountIn q) \<noteq> TokenOut q"
    using *(2) by (auto simp: valid_request_def)
  show "\<exists>p'. UpdateBalance p (update_params q r) = Inr p' \<and> wf p'"
    using sync_UpdateBalance [OF *(1) a(3,4) ne _ _ _ a(2) less, of "update_params q r"] a(1,6)
    by (auto simp: update_params_def)
qed

subsection \<open>Exact-out quotes\<close>

lemma sync_CalcAmountIn:
  assumes "wf p" and "0 \<le> GetTokenIndex p (TokenIn q)"
    and "0 \<le> GetTokenIndex p (Token (TokenAmountOut_i q))" and "TokenIn q \<noteq> Token (TokenAmountOut_i q)"
    and "Amount (TokenAmountOut_i q) = Some o'" and "0 < o'" and "o' < reserve_of p (Token (TokenAmountOut_i q))"
  shows "CalcAmountIn 0 1 p q =
    Inr \<lparr>TokenAmountIn_r = Some (token_amount (TokenIn q)
           (Some (reserve_of p (TokenIn q) * o' * MaxFee
              div after_fee p (TokenIn q) (reserve_of p (Token (TokenAmountOut_i q)) - o') + 1))),
         RemainingTokenAmountOut_r = None, Fee_r = Some (token_amount (TokenIn q) None),
         Gas_r = Swap (gas p), SwapInfo_r = None\<rparr>"
proof -
  let ?d = "after_fee p (TokenIn q) (reserve_of p (Token (TokenAmountOut_i q)) - o')"
  have d: "0 < ?d" using assms by (intro sync_after_fee_pos) auto
  have "0 \<le> reserve_of p (TokenIn q) * o' * MaxFee div ?d"
    using d assms(6) sync_reserve_pos [OF assms(1), of "TokenIn q"]
    by (simp add: zero_le_mult_iff less_imp_le)
  then have pos: "0 < reserve_of p (TokenIn q) * o' * MaxFee div ?d + 1" by linarith
  have div: "big_div (reserve_of p (TokenIn q) * o' * MaxFee) ?d =
      Inr (reserve_of p (TokenIn q) * o' * MaxFee div ?d)"
    using d by simp
  show ?thesis
    using assms pos div
    by (simp add: CalcAmountIn_def Let_def sync_lookups getAmountIn_def after_fee_def)
qed

lemma sync_pay_iff:
  assumes "wf p" and "0 < a"
  shows "(o' \<le> pay p tin tout a) =
    (reserve_of p tin * o' * MaxFee \<le> after_fee p tin (reserve_of p tout - o') * a)"
proof -
  have "(o' \<le> pay p tin tout a) = (reserve_of p tin * MaxFee * reserve_of p tout \<le>
      (reserve_of p tin * MaxFee + after_fee p tin a) * (reserve_of p tout - o'))"
    unfolding pay_def using sync_reserve_pos [OF assms(1), of tin] sync_after_fee_pos [OF assms, of tin]
    by (intro cpmm_out_iff [symmetric]) auto
  also have "\<dots> = (reserve_of p tin * o' * MaxFee \<le> after_fee p tin (reserve_of p tout - o') * a)"
    by (simp add: algebra_simps after_fee_def)
  finally show ?thesis .
qed

subsection \<open>Properties\<close>

definition pool_ex :: PoolSimulator where
  "pool_ex = \<lparr>Info = \<lparr>Address = ''0x1'', Exchange = ''syncswap'', Type = ''syncswap-classic'',
      Tokens = [''a'', ''b''], Reserves = [Some 1000000, Some 2000000], SwapFee = None,
      BlockNumber = 1\<rparr>, vaultAddress = ''0x2'', swapFees = [Some 300, Some 500],
    gas = DefaultGas, vaultBalances = [None, Some 5000000]\<rparr>"

definition want_ex :: "int \<Rightarrow> unit CalcAmountInParams" where
  "want_ex o' = \<lparr>TokenAmountOut_i = token_amount ''b'' (Some o'), TokenIn = ''a'', Limit_i = None\<rparr>"

lemma sync_wf_ex: "wf pool_ex"
  by (simp add: wf_def pair_wf_def pool_ex_def MaxFee_def)

lemma sync_ix_ex: "GetTokenIndex pool_ex ''a'' = 0" "GetTokenIndex pool_ex ''b'' = 1"
  by code_simp+

text \<open>C35: round trip of the exact-out quote.  In a well-formed SyncSwap classic pool, asking for an
  amount below the reserve always yields an input; that input buys at least the amount, and any
  input that does is at most one unit smaller.  The third-party constants \<open>integer.Zero()\<close> and
  \<open>integer.One()\<close> are assumed to be 0 and 1.\<close>

theorem syncswap_classic_exact_out_roundtrip:
  assumes "integer_Zero = 0" and "integer_One = 1"
    and "wf p" and "0 \<le> GetTokenIndex p (TokenIn q)"
    and "0 \<le> GetTokenIndex p (Token (TokenAmountOut_i q))" and "TokenIn q \<noteq> Token (TokenAmountOut_i q)"
    and "Amount (TokenAmountOut_i q) = Some o'" and "0 < o'" and "o' < reserve_of p (Token (TokenAmountOut_i q))"
  shows "\<exists>r a. CalcAmountIn integer_Zero integer_One p q = Inr r \<and>
    TokenAmountIn_r r = Some (token_amount (TokenIn q) (Some a)) \<and> 0 < a \<and>
    (\<exists>b \<ge> o'. CalcExactQuote p (TokenIn q) (Token (TokenAmountOut_i q)) (Some a) = Inr b) \<and>
    (\<forall>a' b'. 0 < a' \<longrightarrow> CalcExactQuote p (TokenIn q) (Token (TokenAmountOut_i q)) (Some a') = Inr b' \<longrightarrow>
        o' \<le> b' \<longrightarrow> a - 1 \<le> a')"
proof -
  let ?i = "TokenIn q" and ?o = "Token (TokenAmountOut_i q)"
  define n d where "n = reserve_of p ?i * o' * MaxFee" and "d = after_fee p ?i (reserve_of p ?o - o')"
  have d: "0 < d" unfolding d_def using assms(3,9) by (intro sync_after_fee_pos) auto
  have "0 \<le> n div d"
    using d assms(8) sync_reserve_pos [OF assms(3), of ?i]
    by (simp add: n_def zero_le_mult_iff less_imp_le)
  then have a: "0 < n div d + 1" by linarith
  have quote: "CalcExactQuote p ?i ?o (Some x) = Inr (pay p ?i ?o x)" if "0 < x" for x
    using assms(3-6) that by (simp add: CalcExactQuote_def Let_def sync_lookups sync_getAmountOut)
  have iff: "(o' \<le> pay p ?i ?o x) = (n \<le> d * x)" if "0 < x" for x
    unfolding n_def d_def by (rule sync_pay_iff [OF assms(3) that])
  have enough: "o' \<le> pay p ?i ?o (n div d + 1)"
    using iff [OF a] floor_gt [OF d, of n] by (simp add: mult.commute)
  have least: "n div d \<le> x" if "0 < x" "o' \<le> pay p ?i ?o x" for x
  proof -
    have "n div d * d \<le> x * d"
      using that iff [OF that(1)] floor_le [OF d, of n] by (simp add: mult.commute)
    with d show ?thesis by simp
  qed
  show ?thesis
    using sync_CalcAmountIn [OF assms(3-9)] assms(1,2) quote [OF a] quote enough least a
    by (intro exI conjI) (auto simp: n_def [symmetric] d_def [symmetric])
qed

theorem syncswap_classic_exact_out_roundtrip_witness:
  "CalcAmountIn 0 1 pool_ex (want_ex 1000) =
     Inr \<lparr>TokenAmountIn_r = Some (token_amount ''a'' (Some 502)), RemainingTokenAmountOut_r = None,
          Fee_r = Some (token_amount ''a'' None), Gas_r = 300000, SwapInfo_r = None\<rparr> \<and>
   (\<exists>b \<ge> 1000. CalcExactQuote pool_ex ''a'' ''b'' (Some 502) = Inr b)"
proof -
  have r: "CalcAmountIn 0 1 pool_ex (want_ex 1000) =
     Inr \<lparr>TokenAmountIn_r = Some (token_amount ''a'' (Some 502)), RemainingTokenAmountOut_r = None,
          Fee_r = Some (token_amount ''a'' None), Gas_r = 300000, SwapInfo_r = None\<rparr>"
    by code_simp
  have res: "reserve_of pool_ex ''b'' = 2000000" by code_simp
  from syncswap_classic_exact_out_roundtrip [of 0 1 pool_ex "want_ex 1000" 1000] r sync_wf_ex
  show ?thesis
    by (simp add: want_ex_def sync_ix_ex res token_amount_def)
qed

text \<open>Asking a well-formed SyncSwap classic pool for exactly its whole reserve passes the guard of
  \<open>CalcAmountIn\<close> and then panics with a division by zero; asking for more is rejected with an
  error.\<close>

theorem syncswap_classic_exact_out_panics:
  assumes "wf p" and "0 \<le> GetTokenIndex p (TokenIn q)"
    and "0 \<le> GetTokenIndex p (Token (TokenAmountOut_i q))" and "TokenIn q \<noteq> Token (TokenAmountOut_i q)"
    and "Amount (TokenAmountOut_i q) = Some o'"
  shows "(o' = reserve_of p (Token (TokenAmountOut_i q)) \<longrightarrow>
            CalcAmountIn integer_Zero integer_One p q = Inl (Panic DivisionByZero)) \<and>
         (reserve_of p (Token (TokenAmountOut_i q)) < o' \<longrightarrow>
            CalcAmountIn integer_Zero integer_One p q =
              Inl (Err ''expected amountOut is %v bigger than reserve %v''))"
  using assms sync_reserve_pos [OF assms(1), of "Token (TokenAmountOut_i q)"]
  by (simp add: CalcAmountIn_def Let_def sync_lookups getAmountIn_def)

theorem syncswap_classic_exact_out_panics_witness:
  "CalcAmountIn 0 1 pool_ex (want_ex 2000000) = Inl (Panic DivisionByZero)"
proof -
  have res: "reserve_of pool_ex ''b'' = 2000000" by code_simp
  from syncswap_classic_exact_out_panics [of pool_ex "want_ex 2000000" 2000000] sync_wf_ex
  show ?thesis
    by (simp add: want_ex_def sync_ix_ex res)
qed

end
