(* ===== verification/Newton.thy ===== *)
theory Newton
  imports Go_Prelude
begin

text \<open>
  The integer Newton iteration \<open>y := (y * y + c) / (2 * y + B)\<close> that the stable-swap simulators
  (\<open>syncswap\<close> stable, the Curve base pool) run to solve \<open>y\<^sup>2 + B * y = c\<close>.  \<open>newton_loop\<close> is the
  abstract loop, with the stopping test as a parameter and \<open>n\<close> as the iteration bound of the source
  (256); the locale \<open>newton_stop\<close> states what the loop needs of the test, and shows that the loop
  converges within the bound and how close to the exact root it ends.
\<close>

definition newton_step :: "int \<Rightarrow> int \<Rightarrow> int \<Rightarrow> int" where
  "newton_step c B y = (y * y + c) div (2 * y + B)"

fun newton_loop :: "(int \<Rightarrow> int \<Rightarrow> bool) \<Rightarrow> nat \<Rightarrow> int \<Rightarrow> int \<Rightarrow> int \<Rightarrow> (bool \<times> int) go" where
  "newton_loop stop 0 c B y = Inr (False, y)"
| "newton_loop stop (Suc n) c B y =
     bnd (big_div (y * y + c) (2 * y + B)) (\<lambda>y'.
     if stop y' y then Inr (True, y') else newton_loop stop n c B y')"

text \<open>The same loop with the guard and the errors of the Curve pools.\<close>

fun newton_guarded :: "(int \<Rightarrow> int \<Rightarrow> bool) \<Rightarrow> nat \<Rightarrow> int \<Rightarrow> int \<Rightarrow> int \<Rightarrow> int go" where
  "newton_guarded stop 0 c B y = Inl (Err ''ErrAmountOutNotConverge'')"
| "newton_guarded stop (Suc n) c B y =
     (if 2 * y + B \<le> 0 then Inl (Err ''ErrDenominatorZero'')
      else let y' = (y * y + c) div (2 * y + B) in
           if stop y' y then Inr y' else newton_guarded stop n c B y')"

definition floor_root :: "int \<Rightarrow> int \<Rightarrow> int \<Rightarrow> bool" where
  "floor_root c B r = (0 \<le> r \<and> r * r + B * r \<le> c \<and> c < (r + 1) * (r + 1) + B * (r + 1))"

text \<open>Within one unit of the root: \<open>y\<close> satisfies the equation up to one, and \<open>y + 1\<close> overshoots.\<close>

definition near_root :: "int \<Rightarrow> int \<Rightarrow> int \<Rightarrow> bool" where
  "near_root c B y = (0 \<le> y \<and> y * y + B * y \<le> c + 1 \<and> c < (y + 1) * (y + 1) + B * (y + 1))"

subsection \<open>The exact root\<close>

lemma floor_root_exists:
  assumes "0 \<le> c"
  shows "\<exists>r. floor_root c B r"
proof -
  define P where "P n = (c < (int n + 1) * (int n + 1) + B * (int n + 1))" for n
  have "P (nat (c + \<bar>B\<bar>))"
  proof -
    let ?n = "c + \<bar>B\<bar>"
    have "c + 1 \<le> (?n + 1) * (c + 1)"
      using assms mult_right_mono [of 1 "?n + 1" "c + 1"] by simp
    also have "\<dots> \<le> (?n + 1) * (?n + 1 + B)"
      using assms by (intro mult_left_mono) auto
    finally show ?thesis using assms by (simp add: P_def algebra_simps)
  qed
  then have least: "P (LEAST n. P n)" "\<And>m. m < (LEAST n. P n) \<Longrightarrow> \<not> P m"
    by (rule LeastI, metis not_less_Least)
  define n where "n = (LEAST n. P n)"
  have "int n * int n + B * int n \<le> c"
  proof (cases n)
    case 0
    with assms show ?thesis by simp
  next
    case (Suc k)
    with least(2) [of k] have "\<not> P k" by (simp flip: n_def)
    with Suc show ?thesis by (simp add: P_def algebra_simps)
  qed
  moreover have "P n" using least(1) by (simp add: n_def)
  ultimately show ?thesis
    by (intro exI [of _ "int n"]) (simp add: floor_root_def P_def)
qed

lemma floor_rootD:
  assumes "floor_root c B r" and "0 \<le> c"
  shows "0 \<le> r" "0 \<le> r + B" "r * r + B * r \<le> c" "c \<le> r * r + B * r + (2 * r + B)"
proof -
  show "0 \<le> r" "r * r + B * r \<le> c" "c \<le> r * r + B * r + (2 * r + B)"
    using assms by (auto simp: floor_root_def algebra_simps)
  have "0 < (r + 1) * (r + 1 + B)"
    using assms by (simp add: floor_root_def algebra_simps)
  with \<open>0 \<le> r\<close> show "0 \<le> r + B"
    by (simp add: zero_less_mult_iff)
qed

text \<open>A root exists only where the slope is positive, unless the equation is trivial.\<close>

lemma slope_pos:
  assumes "floor_root c B r" and "0 \<le> c" and "0 < c \<or> 0 < B" and "r \<le> y"
  shows "0 < 2 * y + B"
proof -
  note r = floor_rootD [OF assms(1,2)]
  have "0 < 2 * r + B"
  proof (rule ccontr)
    assume "\<not> 0 < 2 * r + B"
    with r have "r = 0" "B = 0" by linarith+
    with r(4) assms(3) show False by simp
  qed
  with assms(4) show ?thesis by linarith
qed

subsection \<open>One step\<close>

lemma newton_step_above:
  assumes "0 < 2 * y + B"
  shows "c < (newton_step c B y + 1) * (newton_step c B y + 1) + B * (newton_step c B y + 1)"
proof -
  let ?s = "newton_step c B y + 1"
  have "y * y + c < ?s * (2 * y + B)"
    unfolding newton_step_def using assms by (rule floor_gt)
  moreover have "0 \<le> (?s - y) * (?s - y)" by simp
  ultimately show ?thesis by (simp add: algebra_simps)
qed

lemma newton_step_close:
  assumes "0 < 2 * y + B"
  shows "newton_step c B y * newton_step c B y + B * newton_step c B y
         \<le> c + (newton_step c B y - y) * (newton_step c B y - y)"
proof -
  have "newton_step c B y * (2 * y + B) \<le> y * y + c"
    unfolding newton_step_def using assms by (rule floor_le)
  then show ?thesis by (simp add: algebra_simps)
qed

lemma newton_step_nonneg: "0 \<le> c \<Longrightarrow> 0 < 2 * y + B \<Longrightarrow> 0 \<le> newton_step c B y"
  by (simp add: newton_step_def)

lemma below_root:
  assumes "floor_root c B r" and "0 \<le> c" and "0 \<le> z" and "z \<le> r"
  shows "z * z + B * z \<le> c"
proof (cases "0 \<le> z + B")
  case True
  then have "z * (z + B) \<le> r * (r + B)"
    using assms(3,4) by (intro mult_mono) auto
  with floor_rootD(3) [OF assms(1,2)] show ?thesis by (simp add: algebra_simps)
next
  case False
  then have "z * (z + B) \<le> 0"
    using assms(3) by (intro mult_nonneg_nonpos) auto
  with assms(2) show ?thesis by (simp add: algebra_simps)
qed

lemma newton_step_ge:
  assumes "floor_root c B r" and "0 \<le> c" and "0 < 2 * y + B"
  shows "r \<le> newton_step c B y"
proof (rule ccontr)
  assume "\<not> r \<le> newton_step c B y"
  then have "newton_step c B y + 1 \<le> r" by simp
  then have "(newton_step c B y + 1) * (newton_step c B y + 1) + B * (newton_step c B y + 1) \<le> c"
    using newton_step_nonneg [OF assms(2,3)] by (intro below_root [OF assms(1,2)]) auto
  with newton_step_above [OF assms(3), of c] show False by linarith
qed

text \<open>A step at least halves the distance to the root; at the root it moves up by one at most.\<close>

lemma newton_step_halves:
  assumes "floor_root c B r" and "0 \<le> c" and "0 < 2 * r + B" and "0 \<le> e"
  shows "newton_step c B (r + e) \<le> r + (if e = 0 then 1 else e div 2)"
proof -
  note r = floor_rootD [OF assms(1,2)]
  define k where "k = (if e = 0 then 1 else e div 2)"
  have k: "0 \<le> k" using assms(4) by (simp add: k_def)
  have e: "e * e + (2 * r + B) < (k + 1) * (2 * e + (2 * r + B))"
  proof (cases "e = 0")
    case True
    then show ?thesis using assms(3) by (simp add: k_def)
  next
    case False
    then have "e < 2 * (k + 1)" by (simp add: k_def)
    then have "e * e < e * (2 * (k + 1))"
      using False assms(4) by (intro mult_strict_left_mono) auto
    moreover have "2 * r + B \<le> (k + 1) * (2 * r + B)"
      using k assms(3) mult_right_mono [of 1 "k + 1" "2 * r + B"] by simp
    ultimately show ?thesis by (simp add: algebra_simps)
  qed
  have "(r + e) * (r + e) + c \<le> r * (2 * (r + e) + B) + (e * e + (2 * r + B))"
    using r(4) by (simp add: algebra_simps)
  also have "\<dots> < (r + k + 1) * (2 * (r + e) + B)"
    using e by (simp add: algebra_simps)
  finally have "(r + e) * (r + e) + c < (r + k + 1) * (2 * (r + e) + B)" .
  moreover have "newton_step c B (r + e) * (2 * (r + e) + B) \<le> (r + e) * (r + e) + c"
    unfolding newton_step_def using assms(3,4) by (intro floor_le) simp
  ultimately have "newton_step c B (r + e) * (2 * (r + e) + B) < (r + k + 1) * (2 * (r + e) + B)"
    by linarith
  then have "newton_step c B (r + e) < r + k + 1"
    using assms(3,4) by (simp add: mult_less_cancel_right)
  then show ?thesis by (simp add: k_def)
qed

text \<open>The first step from \<open>y = d\<close>, for the coefficients of the stable-swap equations.\<close>

lemma newton_first_step:
  assumes "0 \<le> c" and "c \<le> d * d * d" and "1 \<le> d" and "0 \<le> b" and "d < 2 ^ 120"
  shows "newton_step c (b - d) d < 2 ^ 241"
proof -
  have "d * d < 2 ^ 120 * 2 ^ 120"
    using assms by (intro mult_strict_mono) auto
  moreover have "newton_step c (b - d) d < d + d * d + 1"
  proof (rule ccontr)
    assume "\<not> ?thesis"
    then have "(d + d * d + 1) * (d + b) \<le> newton_step c (b - d) d * (2 * d + (b - d))"
      using assms by (auto intro!: mult_mono)
    also have "\<dots> \<le> d * d + c"
      unfolding newton_step_def using assms by (intro floor_le) simp
    also have "\<dots> \<le> (d + d * d) * d"
      using assms by (simp add: algebra_simps)
    also have "\<dots> \<le> (d + d * d) * (d + b)"
      using assms by (intro mult_left_mono) auto
    also have "\<dots> < (d + d * d + 1) * (d + b)"
      using assms by (intro mult_strict_right_mono) auto
    finally show False by simp
  qed
  ultimately show ?thesis using assms(5) by simp
qed

subsection \<open>The loop\<close>

locale newton_stop =
  fixes stop :: "int \<Rightarrow> int \<Rightarrow> bool"
  assumes stop_equal: "stop y y"
    and stop_up: "stop (y + 1) y"
    and stop_close: "stop y' y \<Longrightarrow> \<bar>y' - y\<bar> \<le> 1"
begin

lemma stopped_near:
  assumes "0 \<le> c" and "0 < 2 * y + B" and "stop (newton_step c B y) y"
  shows "near_root c B (newton_step c B y)"
proof -
  have "\<bar>newton_step c B y - y\<bar> * \<bar>newton_step c B y - y\<bar> \<le> 1 * 1"
    using stop_close [OF assms(3)] by (intro mult_mono) auto
  with newton_step_close [OF assms(2), of c] newton_step_above [OF assms(2), of c]
    newton_step_nonneg [OF assms(1,2)] show ?thesis
    by (simp add: near_root_def)
qed

lemma loop_from_above:
  assumes "floor_root c B r" and "0 \<le> c" and "0 < c \<or> 0 < B"
    and "r \<le> y" and "y - r < 2 ^ k" and "k + 1 \<le> n"
  shows "\<exists>y'. newton_loop stop n c B y = Inr (True, y') \<and> near_root c B y'"
  using assms(4-)
proof (induction k arbitrary: n y)
  case 0
  from 0 obtain m where n: "n = Suc m" by (cases n) auto
  have y: "y = r + 0" using 0 by simp
  have pos: "0 < 2 * y + B" "0 < 2 * r + B"
    using slope_pos [OF assms(1-3)] 0 by auto
  have "newton_step c B y = y \<or> newton_step c B y = y + 1"
    using newton_step_ge [OF assms(1,2) pos(1)] newton_step_halves [OF assms(1,2) pos(2), of 0]
    by (auto simp: y)
  then have "stop (newton_step c B y) y"
    using stop_equal stop_up by auto
  with stopped_near [OF assms(2) pos(1)] pos show ?case
    by (simp add: n newton_step_def)
next
  case (Suc k)
  from Suc.prems obtain m where n: "n = Suc m" "k + 1 \<le> m" by (cases n) auto
  have pos: "0 < 2 * y + B" "0 < 2 * r + B"
    using slope_pos [OF assms(1-3)] Suc.prems(1) by auto
  let ?s = "newton_step c B y"
  show ?case
  proof (cases "stop ?s y")
    case True
    with stopped_near [OF assms(2) pos(1)] pos show ?thesis
      by (simp add: n newton_step_def)
  next
    case False
    have "?s \<le> r + (if y - r = 0 then 1 else (y - r) div 2)"
      using newton_step_halves [OF assms(1,2) pos(2), of "y - r"] Suc.prems(1) by simp
    moreover have "?s \<noteq> y + 1" using False stop_up by auto
    moreover have "?s \<noteq> y" using False stop_equal by auto
    moreover note ge = newton_step_ge [OF assms(1,2) pos(1)]
    ultimately have "?s - r \<le> (y - r) div 2" by (auto split: if_splits)
    with Suc.prems(2) have "?s - r < 2 ^ k" by simp
    with Suc.IH [OF ge this n(2)] False pos show ?thesis
      by (simp add: n newton_step_def)
  qed
qed

text \<open>Total correctness from any starting point with a positive slope: the first step lands above
  the root, and the following ones halve the distance.\<close>

lemma loop_total:
  assumes "0 \<le> c" and "0 < c \<or> 0 < B" and "0 < 2 * y + B"
    and "newton_step c B y < 2 ^ k" and "k + 2 \<le> n"
  shows "\<exists>y'. newton_loop stop n c B y = Inr (True, y') \<and> near_root c B y'"
proof -
  obtain r where r: "floor_root c B r"
    using floor_root_exists [OF assms(1)] by blast
  from assms(5) obtain m where n: "n = Suc m" "k + 1 \<le> m" by (cases n) auto
  let ?s = "newton_step c B y"
  have eq: "newton_loop stop n c B y =
    (if stop ?s y then Inr (True, ?s) else newton_loop stop m c B ?s)"
    using assms(3) by (simp add: n newton_step_def)
  show ?thesis
  proof (cases "stop ?s y")
    case True
    with stopped_near [OF assms(1,3) True] eq show ?thesis by simp
  next
    case False
    have "?s - r < 2 ^ k"
      using assms(4) floor_rootD(1) [OF r assms(1)] by linarith
    from loop_from_above [OF r assms(1,2) newton_step_ge [OF r assms(1,3)] this n(2)] eq False
    show ?thesis by simp
  qed
qed

lemma guarded_near:
  "0 \<le> c \<Longrightarrow> newton_guarded stop n c B y = Inr y' \<Longrightarrow> near_root c B y'"
proof (induction n arbitrary: y)
  case (Suc n)
  from Suc.prems(2) have pos: "0 < 2 * y + B" by (auto split: if_splits)
  show ?case
  proof (cases "stop (newton_step c B y) y")
    case True
    with stopped_near [OF Suc.prems(1) pos] Suc.prems(2) pos show ?thesis
      by (simp add: newton_step_def Let_def)
  next
    case False
    with Suc pos show ?thesis by (simp add: newton_step_def Let_def)
  qed
qed simp

lemma guarded_refines:
  assumes "floor_root c B r" and "0 \<le> c" and "0 < c \<or> 0 < B"
  shows "0 < 2 * y + B \<Longrightarrow> newton_loop stop n c B y = Inr (True, y') \<Longrightarrow>
         newton_guarded stop n c B y = Inr y'"
proof (induction n arbitrary: y)
  case (Suc n)
  have "0 < 2 * newton_step c B y + B"
    using slope_pos [OF assms newton_step_ge [OF assms(1,2) Suc.prems(1)]] .
  with Suc show ?case
    by (auto simp: newton_step_def Let_def split: if_splits)
qed simp

lemma guarded_total:
  assumes "0 \<le> c" and "0 < c \<or> 0 < B" and "0 < 2 * y + B"
    and "newton_step c B y < 2 ^ k" and "k + 2 \<le> n"
  shows "\<exists>y'. newton_guarded stop n c B y = Inr y' \<and> near_root c B y'"
proof -
  obtain r where r: "floor_root c B r"
    using floor_root_exists [OF assms(1)] by blast
  from loop_total [OF assms] obtain y' where "newton_loop stop n c B y = Inr (True, y')"
    "near_root c B y'" by blast
  with guarded_refines [OF r assms(1,2,3)] show ?thesis by blast
qed

end

end
