(* ===== verification/Syncswap_Stable.thy ===== *)
theory Syncswap_Stable
  imports Cpmm_Math Newton
begin

text \<open>
  The package \<open>pkg/source/syncswap/syncswapstable\<close>: the two-token stable pool.  \<open>math.go\<close> computes
  the invariant \<open>D\<close> and solves for a balance by Newton iterations of at most 256 steps; the loops
  carry that bound.  \<open>integer.Zero()\<close> and \<open>integer.One()\<close> are parameters.

  \<open>getY\<close> refines the abstract loop of theory \<open>Newton\<close> with the stopping test \<open>within1\<close>, which
  accepts a step up by one but not a step down by one.
\<close>

record Gas =
  Swap :: int

definition DefaultGas :: Gas where
  "DefaultGas = \<lparr>Swap = 300000\<rparr>"

definition MaxFee :: int where
  "MaxFee = 100000"

record ExtraStablePool =
  SwapFee0To1 :: bigint
  SwapFee1To0 :: bigint
  Token0PrecisionMultiplier :: bigint
  Token1PrecisionMultiplier :: bigint
  VaultAddress :: string
  VaultBalance0 :: bigint
  VaultBalance1 :: bigint

definition calAmountAfterFee :: "int \<Rightarrow> int \<Rightarrow> int \<times> int" where
  "calAmountAfterFee amountIn swapFee =
     (let feeIn = amountIn * swapFee div MaxFee in (amountIn - feeIn, feeIn))"

definition within1 :: "int \<Rightarrow> int \<Rightarrow> bool" where
  "within1 a b = (if b < a then a - b \<le> 1 else b - a < 1)"

fun compute_d_loop :: "nat \<Rightarrow> int \<Rightarrow> int \<Rightarrow> int \<Rightarrow> int \<Rightarrow> int go" where
  "compute_d_loop 0 xp0 xp1 s d = Inr d"
| "compute_d_loop (Suc n) xp0 xp1 s d =
     bnd (big_div (d * d) xp0) (\<lambda>q0.
     bnd (big_div (q0 * d) xp1) (\<lambda>q1.
     let dp = q1 div 4 in
     bnd (big_div ((2000 * s + 2 * dp) * d) (1999 * d + 3 * dp)) (\<lambda>d'.
     if within1 d' d then Inr d' else compute_d_loop n xp0 xp1 s d')))"

definition computeDFromAdjustedBalances :: "int \<Rightarrow> int \<Rightarrow> int go" where
  "computeDFromAdjustedBalances xp0 xp1 =
     (let s = xp0 + xp1 in
      if s \<le> 0 then Inr 0 else compute_d_loop 256 xp0 xp1 s s)"

fun get_y_loop :: "nat \<Rightarrow> int \<Rightarrow> int \<Rightarrow> int \<Rightarrow> int \<Rightarrow> int go" where
  "get_y_loop 0 c b d y = Inr y"
| "get_y_loop (Suc n) c b d y =
     bnd (big_div (y * y + c) (y * 2 + b - d)) (\<lambda>y'.
     if within1 y' y then Inr y' else get_y_loop n c b d y')"

definition getY :: "int \<Rightarrow> int \<Rightarrow> int go" where
  "getY x d =
     bnd (big_div (d * d) (x * 2)) (\<lambda>c0.
     let c = c0 * d div 4000; b = x + d div 2000 in
     get_y_loop 256 c b d d)"

definition getExactQuote ::
    "bigint \<Rightarrow> bigint \<Rightarrow> bigint \<Rightarrow> bigint \<Rightarrow> bigint \<Rightarrow> bigint \<Rightarrow> (int \<times> int) go" where
  "getExactQuote swapFee amountIn reserveIn reserveOut tokenInPrecisionMultiplier
       tokenOutPrecisionMultiplier =
     bnd (deref amountIn) (\<lambda>a.
     if a \<le> 0 then Inr (0, 0) else
     bnd (deref reserveIn) (\<lambda>rIn. bnd (deref tokenInPrecisionMultiplier) (\<lambda>mIn.
     bnd (deref reserveOut) (\<lambda>rOut. bnd (deref tokenOutPrecisionMultiplier) (\<lambda>mOut.
     let adjustedReserveIn = rIn * mIn; adjustedReserveOut = rOut * mOut in
     bnd (deref swapFee) (\<lambda>fee.
     let (feeDeductedAmountIn, feeIn) = calAmountAfterFee a fee in
     bnd (computeDFromAdjustedBalances adjustedReserveIn adjustedReserveOut) (\<lambda>d.
     let x = adjustedReserveIn + feeDeductedAmountIn * mIn in
     bnd (getY x d) (\<lambda>y.
     bnd (big_div (adjustedReserveOut - y - 1) mOut) (\<lambda>amountOut.
     Inr (amountOut, feeIn)))))))))) "

definition getAmountOut ::
    "bigint \<Rightarrow> bigint \<Rightarrow> bigint \<Rightarrow> bigint \<Rightarrow> bigint \<Rightarrow> bigint \<Rightarrow> int go" where
  "getAmountOut amountIn reserveIn reserveOut swapFee mIn mOut =
     bnd (getExactQuote swapFee amountIn reserveIn reserveOut mIn mOut)
       (\<lambda>(amountOut, _). Inr amountOut)"

definition getAmountIn ::
    "int \<Rightarrow> int \<Rightarrow> bigint \<Rightarrow> bigint \<Rightarrow> bigint \<Rightarrow> bigint \<Rightarrow> bigint \<Rightarrow> bigint \<Rightarrow> int go" where
  "getAmountIn integer_Zero integer_One swapFee amountOut reserveIn reserveOut
       tokenInPrecisionMultiplier tokenOutPrecisionMultiplier =
     bnd (deref amountOut) (\<lambda>o'.
     if o' \<le> 0 then Inr integer_Zero else
     bnd (deref reserveIn) (\<lambda>rIn. bnd (deref tokenInPrecisionMultiplier) (\<lambda>mIn.
     bnd (deref reserveOut) (\<lambda>rOut. bnd (deref tokenOutPrecisionMultiplier) (\<lambda>mOut.
     let adjustedReserveIn = rIn * mIn; adjustedReserveOut = rOut * mOut in
     bnd (computeDFromAdjustedBalances adjustedReserveIn adjustedReserveOut) (\<lambda>d.
     let y = adjustedReserveOut - o' * mOut in
     if y \<le> 1 then Inr integer_One else
     bnd (getY y d) (\<lambda>x.
     bnd (deref swapFee) (\<lambda>fee.
     bnd (big_div (MaxFee * (x - adjustedReserveIn)) (MaxFee - fee)) (\<lambda>q.
     big_div (q + integer_One) mIn)))))))))"

record PoolSimulator = Pool +
  vaultAddress :: string
  swapFees :: "bigint list"
  tokenPrecisionMultipliers :: "bigint list"
  gas :: Gas
  vaultBalances :: "bigint list"

definition NewPoolSimulator :: "(string \<Rightarrow> ExtraStablePool go) \<Rightarrow> EntityPool \<Rightarrow> PoolSimulator go" where
  "NewPoolSimulator json_Unmarshal entityPool =
     bnd (json_Unmarshal (Extra_e entityPool)) (\<lambda>extra.
     bnd (idx (Tokens_e entityPool) 0) (\<lambda>t0. bnd (idx (Tokens_e entityPool) 1) (\<lambda>t1.
     bnd (idx (Reserves_e entityPool) 0) (\<lambda>r0. bnd (idx (Reserves_e entityPool) 1) (\<lambda>r1.
     Inr \<lparr>Info = \<lparr>Address = to_lower (Address_e entityPool), Exchange = Exchange_e entityPool,
                  Type = Type_e entityPool, Tokens = [TokenAddress t0, TokenAddress t1],
                  Reserves = [NewBig10 r0, NewBig10 r1], SwapFee = None,
                  BlockNumber = BlockNumber_e entityPool\<rparr>,
          vaultAddress = VaultAddress extra,
          swapFees = [SwapFee0To1 extra, SwapFee1To0 extra],
          tokenPrecisionMultipliers =
            [Token0PrecisionMultiplier extra, Token1PrecisionMultiplier extra],
          gas = DefaultGas,
          vaultBalances = [VaultBalance0 extra, VaultBalance1 extra]\<rparr>)))))"

definition exceeds :: "int \<Rightarrow> bigint \<Rightarrow> bool" where
  "exceeds a b = (case b of None \<Rightarrow> False | Some x \<Rightarrow> x < a)"

definition CalcAmountOut ::
    "PoolSimulator \<Rightarrow> 'l CalcAmountOutParams \<Rightarrow> unit CalcAmountOutResult go" where
  "CalcAmountOut p param =
     (let tokenAmountIn = TokenAmountIn param; tokenOut = TokenOut param;
          tokenInIndex = GetTokenIndex p (Token tokenAmountIn);
          tokenOutIndex = GetTokenIndex p tokenOut in
      if tokenInIndex < 0 \<or> tokenOutIndex < 0
      then Inl (Err ''tokenInIndex %v or tokenOutIndex %v is not correct'')
      else
        bnd (idx (Reserves (Info p)) tokenInIndex) (\<lambda>rIn.
        bnd (idx (Reserves (Info p)) tokenOutIndex) (\<lambda>rOut.
        bnd (idx (swapFees p) tokenInIndex) (\<lambda>fee.
        bnd (idx (tokenPrecisionMultipliers p) tokenInIndex) (\<lambda>mIn.
        bnd (idx (tokenPrecisionMultipliers p) tokenOutIndex) (\<lambda>mOut.
        bnd (getAmountOut (Amount tokenAmountIn) rIn rOut fee mIn mOut) (\<lambda>amountOut.
        if amountOut \<le> 0 then Inl (Err ''amountOut is %d'') else
        bnd (deref rOut) (\<lambda>reserveOut.
        if reserveOut < amountOut then Inl (Err ''amountOut is %d bigger then reserve %d'') else
        bnd (idx (vaultBalances p) tokenInIndex) (\<lambda>vIn.
        bnd (deref (Amount tokenAmountIn)) (\<lambda>amountIn.
        if exceeds amountIn vIn then Inl (Err ''amountIn is %d bigger than vault balance %d'') else
        bnd (idx (vaultBalances p) tokenOutIndex) (\<lambda>vOut.
        if exceeds amountOut vOut then Inl (Err ''amountOut is %d bigger than vault balance %d'') else
        Inr \<lparr>TokenAmountOut = Some (token_amount tokenOut (Some amountOut)),
             Fee = Some (token_amount tokenOut None), RemainingTokenAmountIn = None,
             Gas = Swap (gas p), SwapInfo = None\<rparr>)))))))))))"

definition CalcAmountIn ::
    "int \<Rightarrow> int \<Rightarrow> PoolSimulator \<Rightarrow> 'l CalcAmountInParams \<Rightarrow> unit CalcAmountInResult go" where
  "CalcAmountIn integer_Zero integer_One p param =
     (let tokenAmountOut = TokenAmountOut_i param; tokenIn = TokenIn param;
          tokenInIndex = GetTokenIndex p tokenIn;
          tokenOutIndex = GetTokenIndex p (Token tokenAmountOut) in
      if tokenInIndex < 0 \<or> tokenOutIndex < 0
      then Inl (Err ''tokenInIndex %v or tokenOutIndex %v is not correct'')
      else
        bnd (idx (Reserves (Info p)) tokenOutIndex) (\<lambda>rOut.
        bnd (deref (Amount tokenAmountOut)) (\<lambda>o'.
        bnd (deref rOut) (\<lambda>reserveOut.
        if reserveOut < o' then Inl (Err ''expected amountOut is %v bigger than reserve %v'') else
        bnd (idx (swapFees p) tokenInIndex) (\<lambda>fee.
        bnd (idx (Reserves (Info p)) tokenInIndex) (\<lambda>rIn.
        bnd (idx (tokenPrecisionMultipliers p) tokenInIndex) (\<lambda>mIn.
        bnd (idx (tokenPrecisionMultipliers p) tokenOutIndex) (\<lambda>mOut.
        bnd (getAmountIn integer_Zero integer_One fee (Some o') rIn rOut mIn mOut) (\<lambda>amountIn.
        if amountIn \<le> integer_Zero then Inl (Err ''amountIn is %v'') else
        Inr \<lparr>TokenAmountIn_r = Some (token_amount tokenIn (Some amountIn)),
             RemainingTokenAmountOut_r = None, Fee_r = Some (token_amount tokenIn None),
             Gas_r = Swap (gas p), SwapInfo_r = None\<rparr>)))))))))"

definition UpdateBalance ::
    "PoolSimulator \<Rightarrow> (unit, 'l) UpdateBalanceParams \<Rightarrow> PoolSimulator go" where
  "UpdateBalance p params =
     (let input = TokenAmountIn_u params; output = TokenAmountOut_u params;
          tokenInIndex = GetTokenIndex p (Token input);
          tokenOutIndex = GetTokenIndex p (Token output) in
      bnd (big_at (swapFees p) tokenInIndex) (\<lambda>fee.
      bnd (deref (Amount input)) (\<lambda>a.
      let inputAmount = fst (calAmountAfterFee a fee) in
      bnd (add_at (Reserves (Info p)) tokenInIndex inputAmount) (\<lambda>rs.
      bnd (deref (Amount output)) (\<lambda>o'.
      bnd (add_at rs tokenOutIndex (- o')) (\<lambda>rs'.
      Inr (p\<lparr>Info := (Info p)\<lparr>Reserves := rs'\<rparr>\<rparr>)))))))"

subsection \<open>Convergence of \<open>getY\<close>\<close>

interpretation within1: newton_stop within1
  by unfold_locales (auto simp: within1_def split: if_splits)

lemma get_y_loop_newton:
  "get_y_loop n c b d y = bnd (newton_loop within1 n c (b - d) y) (\<lambda>(_, y'). Inr y')"
proof (induction n arbitrary: y)
  case (Suc n)
  have slope: "y * 2 + b - d = 2 * y + (b - d)" by simp
  show ?case
    unfolding get_y_loop.simps newton_loop.simps slope using Suc
    by (cases "big_div (y * y + c) (2 * y + (b - d))") simp_all
qed simp

lemma get_y_coeff_bounds:
  assumes "1 \<le> (x::int)" and "0 \<le> d"
  defines "c \<equiv> (d * d div (x * 2)) * d div 4000"
  shows "0 \<le> c" and "c \<le> d * d * d"
proof -
  have q: "0 \<le> d * d div (x * 2)" "d * d div (x * 2) \<le> d * d"
    using assms by (simp_all add: floor_le_self)
  show "0 \<le> c" using q assms by (simp add: c_def)
  have "c \<le> (d * d div (x * 2)) * d"
    unfolding c_def using q assms by (intro floor_le_self) auto
  also have "\<dots> \<le> d * d * d"
    using q assms by (intro mult_right_mono) auto
  finally show "c \<le> d * d * d" .
qed

lemma get_y_coeff_pos:
  assumes "1 \<le> (x::int)" and "90 \<le> d"
  shows "0 < (d * d div (x * 2)) * d div 4000 \<or> 0 < x + d div 2000 - d"
proof (cases "x \<le> d")
  case True
  have "d * d div (d * 2) \<le> d * d div (x * 2)"
    using True assms by (intro zdiv_mono2) auto
  moreover have "d * d div (d * 2) = d div 2"
    using assms by simp
  ultimately have "45 \<le> d * d div (x * 2)"
    using assms by linarith
  then have "45 * 90 \<le> (d * d div (x * 2)) * d"
    using assms by (intro mult_mono) auto
  then have "1 \<le> (d * d div (x * 2)) * d div 4000"
    by (intro floor_geI) auto
  then show ?thesis by linarith
next
  case False
  moreover have "0 \<le> d div 2000" using assms by simp
  ultimately show ?thesis by linarith
qed

text \<open>The approximations of the loop from \<open>d\<close>.\<close>

definition approx :: "int \<Rightarrow> int \<Rightarrow> int \<Rightarrow> nat \<Rightarrow> int" where
  "approx c B d k = (newton_step c B ^^ k) d"

lemma approx_0 [simp]: "approx c B d 0 = d"
  by (simp add: approx_def)

lemma approx_step: "approx c B (newton_step c B d) k = approx c B d (Suc k)"
  by (simp only: approx_def funpow_Suc_right o_apply)

text \<open>A loop that has stopped by its test did so at some iteration before the bound, the first at which
  the test holds, and every divisor up to there was positive.\<close>

lemma newton_loop_stopped:
  assumes r: "floor_root c B r" and c: "0 \<le> c" "0 < c \<or> 0 < B"
  shows "0 < 2 * y + B \<Longrightarrow> newton_loop stop n c B y = Inr (True, y') \<Longrightarrow>
    \<exists>k < n. y' = approx c B y (Suc k) \<and> stop (approx c B y (Suc k)) (approx c B y k) \<and>
      (\<forall>j < k. \<not> stop (approx c B y (Suc j)) (approx c B y j)) \<and> (\<forall>j \<le> k. 0 < 2 * approx c B y j + B)"
proof (induction n arbitrary: y)
  case (Suc n)
  let ?s = "newton_step c B y"
  have eq: "(if stop ?s y then Inr (True, ?s) else newton_loop stop n c B ?s) = Inr (True, y')"
    using Suc.prems by (cases "stop ?s y") (simp_all add: newton_step_def)
  show ?case
  proof (cases "stop ?s y")
    case True
    then show ?thesis
      using eq Suc.prems(1) by (intro exI [of _ 0]) (simp add: approx_def)
  next
    case False
    have "0 < 2 * ?s + B"
      by (rule slope_pos [OF r c newton_step_ge [OF r c(1) Suc.prems(1)]])
    then obtain k where k: "k < n" "y' = approx c B ?s (Suc k)" "stop (approx c B ?s (Suc k)) (approx c B ?s k)"
      "\<forall>j < k. \<not> stop (approx c B ?s (Suc j)) (approx c B ?s j)" "\<forall>j \<le> k. 0 < 2 * approx c B ?s j + B"
      using Suc.IH eq False by fastforce
    have "\<not> stop (approx c B y (Suc j)) (approx c B y j)" if "j < Suc k" for j
      using k(4) that False by (cases j) (auto simp: approx_step, simp add: approx_def)
    moreover have "0 < 2 * approx c B y j + B" if "j \<le> Suc k" for j
      using k(5) that Suc.prems(1) by (cases j) (auto simp: approx_step)
    ultimately show ?thesis
      using k(1-3) by (intro exI [of _ "Suc k"]) (simp add: approx_step)
  qed
qed simp

text \<open>C37: for a balance \<open>x \<ge> 1\<close> and an invariant in the range of the pools (\<open>90 \<le> d < 2 ^ 120\<close>) the Newton
  loop of SyncSwap's \<open>getY\<close> really stops: there is an iteration before the 256th at which the test for two
  successive approximations holds for the first time, up to it every divisor is positive, and \<open>getY\<close> returns
  the approximation of that iteration, which differs by at most one from the one before and is within one
  unit of the root of \<open>y\<^sup>2 + (b - d) * y = c\<close>.\<close>

theorem syncswap_stable_getY_total:
  assumes "1 \<le> x" and "90 \<le> d" and "d < 2 ^ 120"
  defines "c \<equiv> (d * d div (x * 2)) * d div 4000" and "B \<equiv> x + d div 2000 - d"
  shows "\<exists>k < 256. getY x d = Inr (approx c B d (Suc k)) \<and>
    within1 (approx c B d (Suc k)) (approx c B d k) \<and>
    (\<forall>j < k. \<not> within1 (approx c B d (Suc j)) (approx c B d j)) \<and> (\<forall>j \<le> k. 0 < 2 * approx c B d j + B) \<and>
    \<bar>approx c B d (Suc k) - approx c B d k\<bar> \<le> 1 \<and> near_root c B (approx c B d (Suc k))"
proof -
  let ?b = "x + d div 2000"
  have c: "0 \<le> c" "c \<le> d * d * d"
    using get_y_coeff_bounds [OF assms(1)] assms(2) by (auto simp: c_def)
  have b: "0 \<le> ?b" using assms(1,2) by simp
  have "newton_step c (?b - d) d < 2 ^ 241"
    using c b assms(2,3) by (intro newton_first_step) auto
  then obtain y where y: "newton_loop within1 256 c B d = Inr (True, y)" "near_root c B y"
    using within1.loop_total [of c B d 241 256] c b assms(2) get_y_coeff_pos [OF assms(1,2)]
    unfolding c_def [symmetric] B_def [symmetric] by (auto simp: B_def)
  have get: "getY x d = Inr y"
    using assms(1) y(1) by (simp add: getY_def get_y_loop_newton Let_def c_def [symmetric] B_def)
  obtain k where k: "k < 256" "y = approx c B d (Suc k)" "within1 (approx c B d (Suc k)) (approx c B d k)"
    "\<forall>j < k. \<not> within1 (approx c B d (Suc j)) (approx c B d j)" "\<forall>j \<le> k. 0 < 2 * approx c B d j + B"
    using newton_loop_stopped [OF _ c(1) _ _ y(1)] floor_root_exists [OF c(1), of B] get_y_coeff_pos [OF assms(1,2)] assms(1,2)
    unfolding c_def [symmetric] B_def [symmetric] by (fastforce simp: B_def)
  then show ?thesis
    using get y(2) within1.stop_close [OF k(3)] by blast
qed

text \<open>A concrete balance: the loop stops within the bound at 999500.\<close>

theorem syncswap_stable_getY_total_witness:
  "\<exists>k < 256. approx 999500000 (- 998500) 2000000 (Suc k) = 999500 \<and>
    within1 999500 (approx 999500000 (- 998500) 2000000 k)"
proof -
  have "getY 1000500 2000000 = Inr 999500" by code_simp
  with syncswap_stable_getY_total [of 1000500 2000000] show ?thesis by auto
qed

subsection \<open>Swaps\<close>

definition wf :: "PoolSimulator \<Rightarrow> bool" where
  "wf p = (pair_nonneg p \<and>
     (\<exists>f0 f1. swapFees p = [Some f0, Some f1] \<and> 0 \<le> f0 \<and> f0 \<le> MaxFee \<and> 0 \<le> f1 \<and> f1 \<le> MaxFee))"

lemma MaxFee_stable_pos [simp]: "0 < MaxFee" "MaxFee \<noteq> 0"
  by (simp_all add: MaxFee_def)

lemma stable_fee_deducted_nonneg:
  assumes "0 \<le> a" and "0 \<le> f" and "f \<le> MaxFee"
  shows "0 \<le> fst (calAmountAfterFee a f)"
proof -
  have "a * f div MaxFee \<le> a * MaxFee div MaxFee"
    using assms by (intro zdiv_mono1 mult_left_mono) auto
  then show ?thesis by (simp add: calAmountAfterFee_def Let_def)
qed

lemma stable_quoteE:
  assumes "CalcAmountOut p q = Inr r" and "wf p" and "Token (TokenAmountIn q) \<noteq> TokenOut q"
  obtains o' where "0 \<le> GetTokenIndex p (Token (TokenAmountIn q))" "0 \<le> GetTokenIndex p (TokenOut q)"
    "TokenAmountOut r = Some (token_amount (TokenOut q) (Some o'))" "0 < o'"
    "o' \<le> reserve_of p (TokenOut q)"
    "\<not> exceeds o' (vaultBalances p ! nat (GetTokenIndex p (TokenOut q)))"
proof -
  have ix: "0 \<le> GetTokenIndex p (Token (TokenAmountIn q))" "0 \<le> GetTokenIndex p (TokenOut q)"
    using assms(1) by (auto simp: CalcAmountOut_def Let_def split: if_splits)
  with assms(1) obtain o' reserveOut where
    "TokenAmountOut r = Some (token_amount (TokenOut q) (Some o'))" "0 < o'"
    "Reserves (Info p) ! nat (GetTokenIndex p (TokenOut q)) = Some reserveOut" "o' \<le> reserveOut"
    "\<not> exceeds o' (vaultBalances p ! nat (GetTokenIndex p (TokenOut q)))"
    by (auto simp: CalcAmountOut_def Let_def go_simps split: if_splits)
  with ix show thesis by (intro that) (auto simp: reserve_of_def)
qed

lemma stable_UpdateBalance:
  assumes "wf p" and "0 \<le> GetTokenIndex p tin" and "0 \<le> GetTokenIndex p tout" and "tin \<noteq> tout"
    and "Token (TokenAmountIn_u u) = tin" "Amount (TokenAmountIn_u u) = Some a"
    and "TokenAmountOut_u u = token_amount tout (Some o')"
    and "0 < a" and "o' \<le> reserve_of p tout"
  shows "\<exists>p'. UpdateBalance p u = Inr p' \<and> wf p' \<and> vaultBalances p' = vaultBalances p \<and>
    reserve_of p' tout = reserve_of p tout - o'"
proof -
  from assms(1) obtain f0 f1 where t: "pair_nonneg p"
    "swapFees p = [Some f0, Some f1]" "0 \<le> f0" "f0 \<le> MaxFee" "0 \<le> f1" "f1 \<le> MaxFee"
    by (auto simp: wf_def)
  have nn: "0 \<le> fst (calAmountAfterFee a f0)" "0 \<le> fst (calAmountAfterFee a f1)"
    using assms(8) t by (auto intro: stable_fee_deducted_nonneg)
  from t(1) assms(2-4) show ?thesis
  proof (cases rule: pair_nonneg_cases)
    case (forward r0 r1)
    with t assms(4-) nn show ?thesis
      by (auto simp: UpdateBalance_def Let_def wf_def pair_nonneg_def reserve_of_def
          GetTokenIndex_def PoolInfo_GetTokenIndex_def)
  next
    case (backward r0 r1)
    with t assms(4-) nn show ?thesis
      by (auto simp: UpdateBalance_def Let_def wf_def pair_nonneg_def reserve_of_def
          GetTokenIndex_def PoolInfo_GetTokenIndex_def)
  qed
qed

interpretation syncswap_stable: pool_simulator CalcAmountOut UpdateBalance wf reserve_of
proof
  show "wf p \<Longrightarrow> 0 \<le> reserve_of p a" for p :: PoolSimulator and a
    by (simp add: wf_def pair_reserve_nonneg)
next
  fix p and q :: "'l CalcAmountOutParams" and r
  assume *: "wf p" "valid_request q" "CalcAmountOut p q = Inr r"
  obtain a where a: "Amount (TokenAmountIn q) = Some a" "0 < a" "Token (TokenAmountIn q) \<noteq> TokenOut q"
    using *(2) by (rule valid_requestE)
  from *(3,1) a(3) obtain o' where o':
    "0 \<le> GetTokenIndex p (Token (TokenAmountIn q))" "0 \<le> GetTokenIndex p (TokenOut q)"
    "TokenAmountOut r = Some (token_amount (TokenOut q) (Some o'))" "0 < o'"
    "o' \<le> reserve_of p (TokenOut q)"
    by (rule stable_quoteE)
  then show "\<exists>a. TokenAmountOut r = Some (token_amount (TokenOut q) (Some a)) \<and> 0 < a
          \<and> a \<le> reserve_of p (TokenOut q)"
    by auto
  show "\<exists>p'. UpdateBalance p (update_params q r) = Inr p' \<and> wf p'"
    using stable_UpdateBalance [OF *(1) o'(1,2) a(3) _ _ _ a(2) o'(5), of "update_params q r"] a(1) o'(3)
    by (auto simp: update_params_def)
qed

end
