(* ===== verification/Solidly.thy ===== *)
theory Solidly
  imports Cpmm_Math
begin

text \<open>
  What the Solidly-style simulators (\<open>velocimeter\<close>, \<open>usdfi\<close>) share.  Each package has its own
  invariant function \<open>_k\<close>, its own Newton search and its own simulator; the locale \<open>solidly_pair\<close>
  states the laws the common argument needs: the invariant is symmetric in the two tokens, a quote
  that passes \<open>validateAmountOut\<close> does not lower it, and \<open>UpdateBalance\<close> books exactly the amounts
  the check was made with.  Every such simulator is a \<open>k_simulator\<close> (the \<open>sublocale\<close> below).
\<close>

definition solidly_wf :: "('z Pool_scheme \<Rightarrow> bigint list) \<Rightarrow> 'z Pool_scheme \<Rightarrow> bool" where
  "solidly_wf decs p = (pair_nonneg p \<and>
     (\<exists>d0 d1. decs p = [Some d0, Some d1] \<and> 0 < d0 \<and> 0 < d1))"

text \<open>The invariant over the pool's own token order.\<close>

definition solidly_k ::
    "(int \<Rightarrow> int \<Rightarrow> bigint \<Rightarrow> bigint \<Rightarrow> bool \<Rightarrow> int go) \<Rightarrow> ('z Pool_scheme \<Rightarrow> bigint list) \<Rightarrow>
     ('z Pool_scheme \<Rightarrow> bool) \<Rightarrow> 'z Pool_scheme \<Rightarrow> int" where
  "solidly_k k_fn decs is_stable p =
     (case k_fn (the (Reserves (Info p) ! 0)) (the (Reserves (Info p) ! 1))
                (decs p ! 0) (decs p ! 1) (is_stable p) of Inr v \<Rightarrow> v | Inl _ \<Rightarrow> 0)"

locale solidly_pair =
  fixes k_fn :: "int \<Rightarrow> int \<Rightarrow> bigint \<Rightarrow> bigint \<Rightarrow> bool \<Rightarrow> int go"
    and exact_quote :: "int \<Rightarrow> bigint \<Rightarrow> bigint \<Rightarrow> bigint \<Rightarrow> bigint \<Rightarrow> bool \<Rightarrow> int go"
    and after_fee :: "bigint \<Rightarrow> bigint \<Rightarrow> int go"
    and decs :: "'z Pool_scheme \<Rightarrow> bigint list"
    and is_stable :: "'z Pool_scheme \<Rightarrow> bool"
    and calc :: "'z Pool_scheme \<Rightarrow> 'l CalcAmountOutParams \<Rightarrow> 'i CalcAmountOutResult go"
    and update :: "'z Pool_scheme \<Rightarrow> ('i, 'l) UpdateBalanceParams \<Rightarrow> 'z Pool_scheme go"
  assumes k_symmetric: "k_fn x y (Some d0) (Some d1) s = k_fn y x (Some d1) (Some d0) s"
    and quote_kept: "exact_quote w (Some rIn) (Some rOut) dIn dOut s = Inr o' \<Longrightarrow> 0 < o' \<Longrightarrow>
      0 < w \<and> (\<exists>v v'. k_fn rIn rOut dIn dOut s = Inr v \<and>
                  k_fn (rIn + w) (rOut - o') dIn dOut s = Inr v' \<and> v \<le> v')"
    and calc_Inr: "calc p q = Inr r \<Longrightarrow>
      0 \<le> GetTokenIndex p (Token (TokenAmountIn q)) \<and> 0 \<le> GetTokenIndex p (TokenOut q) \<and>
      (\<exists>rIn rOut dIn dOut w o'.
        idx (Reserves (Info p)) (GetTokenIndex p (Token (TokenAmountIn q))) = Inr rIn \<and>
        idx (Reserves (Info p)) (GetTokenIndex p (TokenOut q)) = Inr rOut \<and>
        idx (decs p) (GetTokenIndex p (Token (TokenAmountIn q))) = Inr dIn \<and>
        idx (decs p) (GetTokenIndex p (TokenOut q)) = Inr dOut \<and>
        after_fee (Amount (TokenAmountIn q)) (SwapFee (Info p)) = Inr w \<and>
        exact_quote w rIn rOut dIn dOut (is_stable p) = Inr o' \<and> 0 < o' \<and> o' \<le> the rOut \<and>
        TokenAmountOut r = Some (token_amount (TokenOut q) (Some o')))"
    and update_eq: "update p u =
      bnd (after_fee (Amount (TokenAmountIn_u u)) (SwapFee (Info p))) (\<lambda>w.
      bnd (swap_reserves (Tokens (Info p)) 0 (Token (TokenAmountIn_u u)) w
             (Token (TokenAmountOut_u u)) (Amount (TokenAmountOut_u u)) (Reserves (Info p))) (\<lambda>rs.
      Inr (p\<lparr>Info := (Info p)\<lparr>Reserves := rs\<rparr>\<rparr>)))"
    and decs_frame: "decs (p\<lparr>Info := i\<rparr>) = decs p"
    and stable_frame: "is_stable (p\<lparr>Info := i\<rparr>) = is_stable p"
begin

lemma k_oriented:
  assumes "solidly_wf decs p" and "0 \<le> GetTokenIndex p a" and "0 \<le> GetTokenIndex p b" and "a \<noteq> b"
  shows "solidly_k k_fn decs is_stable p =
    (case k_fn (reserve_of p a) (reserve_of p b) (decs p ! nat (GetTokenIndex p a))
               (decs p ! nat (GetTokenIndex p b)) (is_stable p) of Inr v \<Rightarrow> v | Inl _ \<Rightarrow> 0)"
proof -
  have "pair_nonneg p" using assms(1) by (simp add: solidly_wf_def)
  from pair_distinct [OF this assms(2-4)] assms(1) show ?thesis
    by (auto simp: solidly_wf_def solidly_k_def reserve_of_def k_symmetric)
qed

lemma quote_shape:
  assumes "solidly_wf decs p" and "calc p q = Inr r"
  obtains o' w v v' where "0 \<le> GetTokenIndex p (Token (TokenAmountIn q))"
    "0 \<le> GetTokenIndex p (TokenOut q)"
    "after_fee (Amount (TokenAmountIn q)) (SwapFee (Info p)) = Inr w" "0 < w"
    "TokenAmountOut r = Some (token_amount (TokenOut q) (Some o'))" "0 < o'"
    "o' \<le> reserve_of p (TokenOut q)"
    "k_fn (reserve_of p (Token (TokenAmountIn q))) (reserve_of p (TokenOut q))
       (decs p ! nat (GetTokenIndex p (Token (TokenAmountIn q))))
       (decs p ! nat (GetTokenIndex p (TokenOut q))) (is_stable p) = Inr v"
    "k_fn (reserve_of p (Token (TokenAmountIn q)) + w) (reserve_of p (TokenOut q) - o')
       (decs p ! nat (GetTokenIndex p (Token (TokenAmountIn q))))
       (decs p ! nat (GetTokenIndex p (TokenOut q))) (is_stable p) = Inr v'"
    "v \<le> v'"
proof -
  have pair: "pair_nonneg p" using assms(1) by (simp add: solidly_wf_def)
  from calc_Inr [OF assms(2)] obtain rIn rOut dIn dOut w o' where c:
    "0 \<le> GetTokenIndex p (Token (TokenAmountIn q))" "0 \<le> GetTokenIndex p (TokenOut q)"
    "idx (Reserves (Info p)) (GetTokenIndex p (Token (TokenAmountIn q))) = Inr rIn"
    "idx (Reserves (Info p)) (GetTokenIndex p (TokenOut q)) = Inr rOut"
    "idx (decs p) (GetTokenIndex p (Token (TokenAmountIn q))) = Inr dIn"
    "idx (decs p) (GetTokenIndex p (TokenOut q)) = Inr dOut"
    "after_fee (Amount (TokenAmountIn q)) (SwapFee (Info p)) = Inr w"
    "exact_quote w rIn rOut dIn dOut (is_stable p) = Inr o'" "0 < o'" "o' \<le> the rOut"
    "TokenAmountOut r = Some (token_amount (TokenOut q) (Some o'))"
    by blast
  have rs: "rIn = Some (reserve_of p (Token (TokenAmountIn q)))" "rOut = Some (reserve_of p (TokenOut q))"
    using c(3,4) pair_idx(1) [OF pair c(1)] pair_idx(1) [OF pair c(2)] by auto
  have ds: "dIn = decs p ! nat (GetTokenIndex p (Token (TokenAmountIn q)))"
    "dOut = decs p ! nat (GetTokenIndex p (TokenOut q))"
    using c(5,6) by (auto simp: idx_eq_Inr)
  from quote_kept [OF c(8) [unfolded rs ds] c(9)] c(10) show thesis
    using that [OF c(1,2,7) _ c(11,9)] by (auto simp: rs)
qed

lemma swap_keeps_k:
  assumes "solidly_wf decs p" and "valid_request q" and "calc p q = Inr r"
  shows "\<exists>p'. update p (update_params q r) = Inr p' \<and> solidly_wf decs p' \<and>
    solidly_k k_fn decs is_stable p \<le> solidly_k k_fn decs is_stable p'"
proof -
  let ?i = "Token (TokenAmountIn q)" and ?o = "TokenOut q"
  from assms(1,3) obtain o' w v v' where q: "0 \<le> GetTokenIndex p ?i" "0 \<le> GetTokenIndex p ?o"
    "after_fee (Amount (TokenAmountIn q)) (SwapFee (Info p)) = Inr w" "0 < w"
    "TokenAmountOut r = Some (token_amount ?o (Some o'))" "0 < o'" "o' \<le> reserve_of p ?o"
    "k_fn (reserve_of p ?i) (reserve_of p ?o) (decs p ! nat (GetTokenIndex p ?i))
       (decs p ! nat (GetTokenIndex p ?o)) (is_stable p) = Inr v"
    "k_fn (reserve_of p ?i + w) (reserve_of p ?o - o') (decs p ! nat (GetTokenIndex p ?i))
       (decs p ! nat (GetTokenIndex p ?o)) (is_stable p) = Inr v'"
    "v \<le> v'"
    by (rule quote_shape)
  have ne: "?i \<noteq> ?o" using assms(2) by (auto simp: valid_request_def)
  have pair: "pair_nonneg p" using assms(1) by (simp add: solidly_wf_def)
  obtain rs where rs: "swap_reserves (Tokens (Info p)) 0 ?i w ?o (Some o') (Reserves (Info p)) = Inr rs"
    and after: "\<And>p' :: 'z Pool_scheme. Tokens (Info p') = Tokens (Info p) \<Longrightarrow> Reserves (Info p') = rs \<Longrightarrow>
       pair_nonneg p' \<and> reserve_of p' ?i = reserve_of p ?i + w \<and> reserve_of p' ?o = reserve_of p ?o - o'"
    using pair_swap_reserves [OF pair q(1,2) ne _ q(7), of w] q(4) by auto
  define p' where "p' = p\<lparr>Info := (Info p)\<lparr>Reserves := rs\<rparr>\<rparr>"
  have p': "pair_nonneg p'" "reserve_of p' ?i = reserve_of p ?i + w"
    "reserve_of p' ?o = reserve_of p ?o - o'"
    using after [of p'] by (simp_all add: p'_def)
  have frame: "GetTokenIndex p' x = GetTokenIndex p x" "decs p' = decs p" "is_stable p' = is_stable p" for x
    by (simp_all add: p'_def GetTokenIndex_def PoolInfo_GetTokenIndex_def decs_frame stable_frame)
  have wf': "solidly_wf decs p'"
    using assms(1) p'(1) by (simp add: solidly_wf_def frame)
  have "solidly_k k_fn decs is_stable p = v" "solidly_k k_fn decs is_stable p' = v'"
    using k_oriented [OF assms(1) q(1,2) ne] k_oriented [OF wf', of ?i ?o] q(1,2,8,9) ne
    by (simp_all add: frame p'(2,3))
  moreover have "update p (update_params q r) = Inr p'"
    using rs q(3,5) by (simp add: update_eq p'_def)
  ultimately show ?thesis using q(10) wf' by blast
qed

end

sublocale solidly_pair \<subseteq> k: k_simulator calc update "solidly_wf decs" reserve_of
    "solidly_k k_fn decs is_stable"
proof
  show "solidly_wf decs p \<Longrightarrow> 0 \<le> reserve_of p a" for p a
    by (simp add: solidly_wf_def pair_reserve_nonneg)
next
  fix p q r
  assume *: "solidly_wf decs p" "valid_request q" "calc p q = Inr r"
  show "\<exists>a. TokenAmountOut r = Some (token_amount (TokenOut q) (Some a)) \<and> 0 < a
          \<and> a \<le> reserve_of p (TokenOut q)"
    using quote_shape [OF *(1,3)] by metis
  show "\<exists>p'. update p (update_params q r) = Inr p' \<and> solidly_wf decs p'"
    using swap_keeps_k [OF *] by blast
next
  fix p p' q r
  assume *: "solidly_wf decs p" "valid_request q" "calc p q = Inr r"
    "update p (update_params q r) = Inr p'"
  from swap_keeps_k [OF *(1-3)] *(4)
  show "solidly_k k_fn decs is_stable p \<le> solidly_k k_fn decs is_stable p'" by auto
qed

end
