(* ===== verification/Usdfi.thy ===== *)
theory Usdfi
  imports Solidly
begin

text \<open>
  The package \<open>pkg/source/usdfi\<close>: a Solidly-style pair like \<open>velocimeter\<close> with other roundings in
  \<open>_k\<close>, \<open>_f\<close> and \<open>_d\<close>, a Newton search that leaves its loop when the derivative is zero, and a
  pause flag read from the factory.  The flag is stored in the simulator; no operation reads it
  (\<open>usdfi_pause_ignored\<close>).
\<close>

record Gas =
  Swap :: int

definition DefaultGas :: Gas where
  "DefaultGas = \<lparr>Swap = 227000\<rparr>"

definition calAmountAfterFee :: "bigint \<Rightarrow> bigint \<Rightarrow> int go" where
  "calAmountAfterFee amountIn swapFee =
     bnd (deref swapFee) (\<lambda>fee. bnd (deref amountIn) (\<lambda>a. Inr (a - fee * a div BONE)))"

definition k_val :: "int \<Rightarrow> int \<Rightarrow> bigint \<Rightarrow> bigint \<Rightarrow> bool \<Rightarrow> int go" where
  "k_val x y decimals0 decimals1 isStable =
     (if isStable then
        bnd (bnd (deref decimals0) (big_div (x * BONE))) (\<lambda>x'.
        bnd (bnd (deref decimals1) (big_div (y * BONE))) (\<lambda>y'.
        let a = x' * y' div BONE; b = x' * x' div BONE + y' * y' div BONE in
        Inr (a * b div BONE)))
      else Inr (x * y))"

definition f_val :: "int \<Rightarrow> int \<Rightarrow> int" where
  "f_val x0 y = (x0 * ((y * y div BONE) * y div BONE)) div BONE +
                (((x0 * x0 div BONE) * x0 div BONE) * y) div BONE"

definition d_val :: "int \<Rightarrow> int \<Rightarrow> int" where
  "d_val x0 y = (3 * (x0 * (y * y div BONE))) div BONE + ((x0 * x0 div BONE) * x0) div BONE"

fun get_y_loop :: "nat \<Rightarrow> int \<Rightarrow> int \<Rightarrow> int \<Rightarrow> int go" where
  "get_y_loop 0 x0 xy y = Inr y"
| "get_y_loop (Suc n) x0 xy y =
     (let kv = f_val x0 y; dv = d_val x0 y in
      if dv = 0 then Inr y
      else
        bnd (if kv < xy then bnd (big_div ((xy - kv) * BONE) dv) (\<lambda>dy. Inr (y + dy))
             else bnd (big_div ((kv - xy) * BONE) dv) (\<lambda>dy. Inr (y - dy))) (\<lambda>y'.
        if \<bar>y' - y\<bar> \<le> 1 then Inr y' else get_y_loop n x0 xy y'))"

definition get_y :: "int \<Rightarrow> int \<Rightarrow> int \<Rightarrow> int go" where
  "get_y x0 xy y = get_y_loop 255 x0 xy y"

definition validateAmountOut ::
    "int \<Rightarrow> int \<Rightarrow> int \<Rightarrow> int \<Rightarrow> bigint \<Rightarrow> bigint \<Rightarrow> bool \<Rightarrow> bool go" where
  "validateAmountOut amountIn amountOut reserveIn reserveOut decimalIn decimalOut isStable =
     bnd (k_val (reserveIn + amountIn) (reserveOut - amountOut) decimalIn decimalOut isStable) (\<lambda>after.
     bnd (k_val reserveIn reserveOut decimalIn decimalOut isStable) (\<lambda>before.
     Inr (before \<le> after)))"

definition getExactQuote ::
    "int \<Rightarrow> bigint \<Rightarrow> bigint \<Rightarrow> bigint \<Rightarrow> bigint \<Rightarrow> bool \<Rightarrow> int go" where
  "getExactQuote amountIn reserveIn reserveOut decimalIn decimalOut isStable =
     (if amountIn \<le> 0 then Inr 0 else
      bnd (deref reserveIn) (\<lambda>rIn. bnd (deref reserveOut) (\<lambda>rOut.
      bnd (if isStable then
             bnd (k_val rIn rOut decimalIn decimalOut isStable) (\<lambda>xy.
             bnd (deref decimalIn) (\<lambda>dIn. bnd (deref decimalOut) (\<lambda>dOut.
             bnd (big_div (rIn * BONE) dIn) (\<lambda>reserveIn'.
             bnd (big_div (rOut * BONE) dOut) (\<lambda>reserveOut'.
             bnd (big_div (amountIn * BONE) dIn) (\<lambda>amountIn'.
             bnd (get_y (amountIn' + reserveIn') xy reserveOut') (\<lambda>newY.
             let y = reserveOut' - newY in
             Inr (y * dOut div BONE))))))))
           else
             let numerator = amountIn * rOut; denominator = rIn + amountIn in
             Inr (if 0 < denominator then numerator div denominator else 0)) (\<lambda>amountOut.
      bnd (validateAmountOut amountIn amountOut rIn rOut decimalIn decimalOut isStable) (\<lambda>ok.
      Inr (if ok then amountOut else 0))))))"

definition getAmountOut ::
    "bigint \<Rightarrow> bigint \<Rightarrow> bigint \<Rightarrow> bigint \<Rightarrow> bigint \<Rightarrow> bigint \<Rightarrow> bool \<Rightarrow> int go" where
  "getAmountOut amountIn reserveIn reserveOut decimalIn decimalOut swapFee isStable =
     bnd (calAmountAfterFee amountIn swapFee) (\<lambda>amountAfterFee.
     if amountAfterFee \<le> 0 then Inr 0
     else getExactQuote amountAfterFee reserveIn reserveOut decimalIn decimalOut isStable)"

record PoolSimulator = Pool +
  Decimals_u :: "bigint list"
  stable :: bool
  isPaused :: bool
  gas :: Gas

definition NewPoolSimulator ::
    "(string \<Rightarrow> bool go) \<Rightarrow> (string \<Rightarrow> bool go) \<Rightarrow> EntityPool \<Rightarrow> PoolSimulator go" where
  "NewPoolSimulator extractStaticExtra extractExtra entityPool =
     (let swapFee = big_float_int (big_float_mul 64 (SwapFee_e entityPool) (10 ^ 18, 0)) in
      bnd (idx (Tokens_e entityPool) 0) (\<lambda>t0. bnd (idx (Tokens_e entityPool) 1) (\<lambda>t1.
      bnd (idx (Reserves_e entityPool) 0) (\<lambda>r0. bnd (idx (Reserves_e entityPool) 1) (\<lambda>r1.
      bnd (TenPowInt (Decimals t0)) (\<lambda>d0. bnd (TenPowInt (Decimals t1)) (\<lambda>d1.
      bnd (extractStaticExtra (StaticExtra_e entityPool)) (\<lambda>st.
      bnd (extractExtra (Extra_e entityPool)) (\<lambda>factoryPaused.
      Inr \<lparr>Info = \<lparr>Address = to_lower (Address_e entityPool), Exchange = Exchange_e entityPool,
                   Type = Type_e entityPool, Tokens = [TokenAddress t0, TokenAddress t1],
                   Reserves = [NewBig10 r0, NewBig10 r1], SwapFee = Some swapFee,
                   BlockNumber = BlockNumber_e entityPool\<rparr>,
           Decimals_u = [Some d0, Some d1], stable = st, isPaused = factoryPaused,
           gas = DefaultGas\<rparr>)))))))))"

definition CalcAmountOut ::
    "PoolSimulator \<Rightarrow> 'l CalcAmountOutParams \<Rightarrow> unit CalcAmountOutResult go" where
  "CalcAmountOut p param =
     (let tokenAmountIn = TokenAmountIn param; tokenOut = TokenOut param;
          tokenInIndex = GetTokenIndex p (Token tokenAmountIn);
          tokenOutIndex = GetTokenIndex p tokenOut in
      if tokenInIndex < 0 \<or> tokenOutIndex < 0
      then Inl (Err ''tokenInIndex %v or tokenOutIndex %v is not correct'')
      else
        bnd (idx (Reserves (Info p)) tokenInIndex) (\<lambda>rIn.
        bnd (idx (Reserves (Info p)) tokenOutIndex) (\<lambda>rOut.
        bnd (idx (Decimals_u p) tokenInIndex) (\<lambda>dIn.
        bnd (idx (Decimals_u p) tokenOutIndex) (\<lambda>dOut.
        bnd (getAmountOut (Amount tokenAmountIn) rIn rOut dIn dOut (SwapFee (Info p)) (stable p))
          (\<lambda>amountOut.
        if amountOut \<le> 0 then Inl (Err ''amountOut is %d'') else
        bnd (deref rOut) (\<lambda>reserveOut.
        if reserveOut < amountOut then Inl (Err ''amountOut is %d bigger than reserve %d'') else
        Inr \<lparr>TokenAmountOut = Some (token_amount tokenOut (Some amountOut)),
             Fee = Some (token_amount (Token tokenAmountIn) None), RemainingTokenAmountIn = None,
             Gas = Swap (gas p), SwapInfo = None\<rparr>)))))))"

definition UpdateBalance ::
    "PoolSimulator \<Rightarrow> (unit, 'l) UpdateBalanceParams \<Rightarrow> PoolSimulator go" where
  "UpdateBalance p params =
     (let input = TokenAmountIn_u params; output = TokenAmountOut_u params in
      bnd (calAmountAfterFee (Amount input) (SwapFee (Info p))) (\<lambda>inputAmount.
      bnd (swap_reserves (Tokens (Info p)) 0 (Token input) inputAmount (Token output)
             (Amount output) (Reserves (Info p))) (\<lambda>rs.
      Inr (p\<lparr>Info := (Info p)\<lparr>Reserves := rs\<rparr>\<rparr>))))"

subsection \<open>The invariant\<close>

abbreviation usdfi_wf :: "PoolSimulator \<Rightarrow> bool" where
  "usdfi_wf \<equiv> solidly_wf Decimals_u"

abbreviation usdfi_k :: "PoolSimulator \<Rightarrow> int" where
  "usdfi_k \<equiv> solidly_k k_val Decimals_u stable"

interpretation usdfi: solidly_pair k_val getExactQuote calAmountAfterFee Decimals_u stable
    CalcAmountOut UpdateBalance
proof
  show "k_val x y (Some d0) (Some d1) s = k_val y x (Some d1) (Some d0) s" for x y d0 d1 s
    by (auto simp: k_val_def Let_def big_div_def algebra_simps)
next
  fix w rIn rOut dIn dOut s o'
  assume "getExactQuote w (Some rIn) (Some rOut) dIn dOut s = Inr o'" "0 < o'"
  then show "0 < w \<and> (\<exists>v v'. k_val rIn rOut dIn dOut s = Inr v \<and>
      k_val (rIn + w) (rOut - o') dIn dOut s = Inr v' \<and> v \<le> v')"
    by (auto simp: getExactQuote_def validateAmountOut_def go_simps split: if_splits)
next
  fix p and q :: "'l CalcAmountOutParams" and r
  assume "CalcAmountOut p q = Inr r"
  then show "0 \<le> GetTokenIndex p (Token (TokenAmountIn q)) \<and> 0 \<le> GetTokenIndex p (TokenOut q) \<and>
      (\<exists>rIn rOut dIn dOut w o'.
        idx (Reserves (Info p)) (GetTokenIndex p (Token (TokenAmountIn q))) = Inr rIn \<and>
        idx (Reserves (Info p)) (GetTokenIndex p (TokenOut q)) = Inr rOut \<and>
        idx (Decimals_u p) (GetTokenIndex p (Token (TokenAmountIn q))) = Inr dIn \<and>
        idx (Decimals_u p) (GetTokenIndex p (TokenOut q)) = Inr dOut \<and>
        calAmountAfterFee (Amount (TokenAmountIn q)) (SwapFee (Info p)) = Inr w \<and>
        getExactQuote w rIn rOut dIn dOut (stable p) = Inr o' \<and> 0 < o' \<and> o' \<le> the rOut \<and>
        TokenAmountOut r = Some (token_amount (TokenOut q) (Some o')))"
    by (fastforce simp: CalcAmountOut_def getAmountOut_def Let_def bnd_eq_Inr deref_eq_Inr
        split: if_splits)
next
  show "UpdateBalance p u =
      bnd (calAmountAfterFee (Amount (TokenAmountIn_u u)) (SwapFee (Info p))) (\<lambda>w.
      bnd (swap_reserves (Tokens (Info p)) 0 (Token (TokenAmountIn_u u)) w
             (Token (TokenAmountOut_u u)) (Amount (TokenAmountOut_u u)) (Reserves (Info p))) (\<lambda>rs.
      Inr (p\<lparr>Info := (Info p)\<lparr>Reserves := rs\<rparr>\<rparr>)))" for p and u :: "(unit, 'l) UpdateBalanceParams"
    by (simp add: UpdateBalance_def Let_def)
qed simp_all

subsection \<open>Properties\<close>

definition pool_ex :: PoolSimulator where
  "pool_ex = \<lparr>Info = \<lparr>Address = ''0x1'', Exchange = ''usdfi'', Type = ''usdfi'',
      Tokens = [''a'', ''b''], Reserves = [Some 1000000000000, Some 2000000000000],
      SwapFee = Some 200000000000000, BlockNumber = 1\<rparr>,
    Decimals_u = [Some 1000000, Some 1000000], stable = True, isPaused = True, gas = DefaultGas\<rparr>"

definition request_ex :: "unit CalcAmountOutParams" where
  "request_ex = \<lparr>TokenAmountIn = token_amount ''a'' (Some 1000000000), TokenOut = ''b'', Limit = None\<rparr>"

definition pool_ex' :: PoolSimulator where
  "pool_ex' = pool_ex\<lparr>Info := (Info pool_ex)\<lparr>Reserves := [Some 1000999800000, Some 1998923537616]\<rparr>\<rparr>"

definition result_ex :: "unit CalcAmountOutResult" where
  "result_ex = \<lparr>TokenAmountOut = Some (token_amount ''b'' (Some 1076462384)),
     Fee = Some (token_amount ''a'' None), RemainingTokenAmountIn = None, Gas = 227000,
     SwapInfo = None\<rparr>"

lemma usdfi_step_ex:
  "(swap_step (CalcAmountOut :: _ \<Rightarrow> unit CalcAmountOutParams \<Rightarrow> _) UpdateBalance)\<^sup>*\<^sup>*
     pool_ex pool_ex'"
proof (rule r_into_rtranclp, rule swap_step.swap)
  show "valid_request request_ex" by (simp add: valid_request_def request_ex_def)
  show "CalcAmountOut pool_ex request_ex = Inr result_ex" by code_simp
  show "UpdateBalance pool_ex (update_params request_ex result_ex) = Inr pool_ex'" by code_simp
qed

text \<open>Over any sequence of swaps from a well-formed USDFi pool, stable or volatile, the
  simulator stays well formed and the invariant \<open>_k\<close> that the pool contract checks never falls,
  whatever value the Newton search returned.\<close>

theorem usdfi_k_never_falls:
  assumes "usdfi_wf p" and "(swap_step CalcAmountOut UpdateBalance)\<^sup>*\<^sup>* p p'"
  shows "usdfi_wf p' \<and> usdfi_k p \<le> usdfi_k p'"
  using usdfi.k.reachable_wf [OF assms(2,1)] usdfi.k.k_mono [OF assms(2,1)] by simp

theorem usdfi_k_never_falls_witness:
  "usdfi_wf pool_ex' \<and> usdfi_k pool_ex \<le> usdfi_k pool_ex'"
proof -
  have "usdfi_wf pool_ex"
    by (simp add: solidly_wf_def pair_nonneg_def pool_ex_def)
  from usdfi_k_never_falls [OF this usdfi_step_ex]
  show ?thesis by simp
qed

text \<open>The pause flag the USDFi constructor reads from the factory has no effect: a paused pool
  quotes and updates exactly as an unpaused one.\<close>

theorem usdfi_pause_ignored:
  "CalcAmountOut (p\<lparr>isPaused := True\<rparr>) q = CalcAmountOut (p\<lparr>isPaused := False\<rparr>) q \<and>
   (\<forall>s. UpdateBalance (p\<lparr>isPaused := True\<rparr>) u = Inr s \<longrightarrow>
        UpdateBalance (p\<lparr>isPaused := False\<rparr>) u = Inr (s\<lparr>isPaused := False\<rparr>))"
  by (auto simp: CalcAmountOut_def UpdateBalance_def GetTokenIndex_def Let_def go_simps cong: if_cong)

theorem usdfi_pause_ignored_witness:
  "isPaused pool_ex \<and> CalcAmountOut pool_ex request_ex = Inr result_ex"
proof -
  have "CalcAmountOut (pool_ex\<lparr>isPaused := False\<rparr>) request_ex = Inr result_ex"
    by code_simp
  moreover have "pool_ex\<lparr>isPaused := True\<rparr> = pool_ex" "isPaused pool_ex"
    by (simp_all add: pool_ex_def)
  ultimately show ?thesis
    using conjunct1 [OF usdfi_pause_ignored, of pool_ex request_ex] by metis
qed

end
