(* ===== verification/Camelot.thy ===== *)
theory Camelot
  imports Cpmm_Math
begin

text \<open>
  The package \<open>pkg/source/camelot\<close>: a volatile or stable pair with a fee per direction.  The source
  reuses scratch \<open>big.Int\<close> values in place; the definitions below give the values they hold.
  Addresses of type \<open>common.Address\<close> are strings and \<open>ZeroAddress\<close> is a parameter of the package's
  third-party address type, written \<open>zero_address\<close>.

  The simulator takes any input token that is not the first one for the second, and echoes the
  requested output token; the theorems below do not need the tokens to belong to the pool.
\<close>

record Gas =
  Swap :: int

definition DefaultGas :: Gas where
  "DefaultGas = \<lparr>Swap = 128000\<rparr>"

record FactoryInfo =
  FeeTo :: string
  OwnerFeeShare :: bigint

record Extra =
  StableSwap_x :: bool
  Token0FeePercent_x :: bigint
  Token1FeePercent_x :: bigint
  PrecisionMultiplier0_x :: bigint
  PrecisionMultiplier1_x :: bigint
  Factory_x :: "FactoryInfo option"

record PoolSimulator = Pool +
  StableSwap :: bool
  Token0FeePercent :: bigint
  Token1FeePercent :: bigint
  PrecisionMultiplier0 :: bigint
  PrecisionMultiplier1 :: bigint
  FeeDenominator :: bigint
  FactoryField :: "FactoryInfo option"
  gas :: Gas

definition f_val :: "int \<Rightarrow> int \<Rightarrow> int" where
  "f_val x0 y = (x0 * ((y * y div BONE) * y div BONE)) div BONE +
                (((x0 * x0 div BONE) * x0 div BONE) * y) div BONE"

definition d_val :: "int \<Rightarrow> int \<Rightarrow> int" where
  "d_val x0 y = (3 * (x0 * (y * y div BONE))) div BONE + (x0 * x0 div BONE) * (x0 div BONE)"

definition NewPoolSimulator ::
    "(string \<Rightarrow> Extra go) \<Rightarrow> (string \<Rightarrow> bigint go) \<Rightarrow> EntityPool \<Rightarrow> PoolSimulator go" where
  "NewPoolSimulator json_Extra json_StaticExtra entityPool =
     bnd (json_Extra (Extra_e entityPool)) (\<lambda>extra.
     bnd (json_StaticExtra (StaticExtra_e entityPool)) (\<lambda>feeDenominator.
     Inr \<lparr>Info = \<lparr>Address = to_lower (Address_e entityPool), Exchange = Exchange_e entityPool,
                  Type = Type_e entityPool, Tokens = map TokenAddress (Tokens_e entityPool),
                  Reserves = map NewBig10 (Reserves_e entityPool), SwapFee = None,
                  BlockNumber = BlockNumber_e entityPool\<rparr>,
          StableSwap = StableSwap_x extra, Token0FeePercent = Token0FeePercent_x extra,
          Token1FeePercent = Token1FeePercent_x extra,
          PrecisionMultiplier0 = PrecisionMultiplier0_x extra,
          PrecisionMultiplier1 = PrecisionMultiplier1_x extra,
          FeeDenominator = feeDenominator, FactoryField = Factory_x extra, gas = DefaultGas\<rparr>))"

definition k_val :: "PoolSimulator \<Rightarrow> int \<Rightarrow> int \<Rightarrow> int go" where
  "k_val p balance0 balance1 =
     (if StableSwap p then
        bnd (bnd (deref (PrecisionMultiplier0 p)) (big_div (balance0 * BONE))) (\<lambda>x.
        bnd (bnd (deref (PrecisionMultiplier1 p)) (big_div (balance1 * BONE))) (\<lambda>y.
        let a = x * y div BONE; b = x * x div BONE + y * y div BONE in
        Inr (a * b div BONE)))
      else Inr (balance0 * balance1))"

fun get_y_loop :: "nat \<Rightarrow> int \<Rightarrow> int \<Rightarrow> int \<Rightarrow> int go" where
  "get_y_loop 0 x0 xy y = Inr y"
| "get_y_loop (Suc n) x0 xy y =
     (let kv = f_val x0 y in
      bnd (big_div (\<bar>xy - kv\<bar> * BONE) (d_val x0 y)) (\<lambda>dy.
      let y' = (if 0 < xy - kv then y + dy else y - dy) in
      if \<bar>y - y'\<bar> \<le> 1 then Inr y' else get_y_loop n x0 xy y'))"

definition getY :: "int \<Rightarrow> int \<Rightarrow> int \<Rightarrow> int go" where
  "getY x0 xy y = get_y_loop 255 x0 xy y"

definition getAmountOut_core ::
    "PoolSimulator \<Rightarrow> bigint \<Rightarrow> bool \<Rightarrow> bigint \<Rightarrow> bigint \<Rightarrow> bigint \<Rightarrow> int go" where
  "getAmountOut_core p amountIn from0 reserve0 reserve1 feePercent =
     bnd (deref amountIn) (\<lambda>a. bnd (deref feePercent) (\<lambda>pct. bnd (deref (FeeDenominator p)) (\<lambda>fd.
     if StableSwap p then
       bnd (big_div (a * pct) fd) (\<lambda>fee.
       let amountIn' = a - fee in
       bnd (deref reserve0) (\<lambda>r0. bnd (deref reserve1) (\<lambda>r1.
       bnd (k_val p r0 r1) (\<lambda>xy.
       bnd (deref (PrecisionMultiplier0 p)) (\<lambda>m0. bnd (deref (PrecisionMultiplier1 p)) (\<lambda>m1.
       bnd (big_div (r0 * BONE) m0) (\<lambda>reserve0'.
       bnd (big_div (r1 * BONE) m1) (\<lambda>reserve1'.
       let reserveA = (if from0 then reserve0' else reserve1');
           reserveB = (if from0 then reserve1' else reserve0');
           multiplier = (if from0 then m0 else m1); multiplierOut = (if from0 then m1 else m0) in
       bnd (big_div (amountIn' * BONE) multiplier) (\<lambda>scaled.
       bnd (getY (scaled + reserveA) xy reserveB) (\<lambda>newY.
       let y = reserveB - newY in
       Inr (y * multiplierOut div BONE)))))))))))
     else
       let amountIn' = a * (fd - pct) in
       bnd (deref (if from0 then reserve0 else reserve1)) (\<lambda>reserveA.
       bnd (deref (if from0 then reserve1 else reserve0)) (\<lambda>reserveB.
       big_div (amountIn' * reserveB) (reserveA * fd + amountIn'))))))"

definition getAmountOut :: "PoolSimulator \<Rightarrow> bigint \<Rightarrow> string \<Rightarrow> int go" where
  "getAmountOut p amountIn tokenIn =
     bnd (idx (Tokens (Info p)) 0) (\<lambda>token0.
     let from0 = equal_fold tokenIn token0;
         feePercent = (if from0 then Token0FeePercent p else Token1FeePercent p) in
     bnd (idx (Reserves (Info p)) 0) (\<lambda>r0. bnd (idx (Reserves (Info p)) 1) (\<lambda>r1.
     getAmountOut_core p amountIn from0 r0 r1 feePercent)))"

text \<open>The fee booked by a swap: the trading fee, less the owner's share for a stable pool with a fee
  receiver.\<close>

definition swap_fee :: "string \<Rightarrow> PoolSimulator \<Rightarrow> int \<Rightarrow> bigint \<Rightarrow> int go" where
  "swap_fee zero_address p a feePercent =
     bnd (deref feePercent) (\<lambda>pct. bnd (deref (FeeDenominator p)) (\<lambda>fd.
     bnd (big_div (a * pct) fd) (\<lambda>fee.
     case FactoryField p of
       None \<Rightarrow> Inr fee
     | Some fct \<Rightarrow>
         if StableSwap p \<and> FeeTo fct \<noteq> zero_address then
           bnd (deref (OwnerFeeShare fct)) (\<lambda>share.
           bnd (big_div (a * (fd * share) * pct) (big_exp fd 3)) (\<lambda>ownerFee.
           Inr (fee - ownerFee)))
         else Inr fee)))"

definition swap_result ::
    "PoolSimulator \<Rightarrow> TokenAmount \<Rightarrow> string \<Rightarrow> int \<Rightarrow> int \<Rightarrow> unit CalcAmountOutResult" where
  "swap_result p tokenAmountIn tokenOut amountOut fee =
     \<lparr>TokenAmountOut = Some (token_amount tokenOut (Some amountOut)),
      Fee = Some (token_amount (Token tokenAmountIn) (Some fee)), RemainingTokenAmountIn = None,
      Gas = Swap (gas p), SwapInfo = None\<rparr>"

definition swap0To1 ::
    "string \<Rightarrow> PoolSimulator \<Rightarrow> TokenAmount \<Rightarrow> string \<Rightarrow> unit CalcAmountOutResult go" where
  "swap0To1 zero_address p tokenAmountIn tokenOut =
     bnd (getAmountOut p (Amount tokenAmountIn) (Token tokenAmountIn)) (\<lambda>amountOut.
     if amountOut \<le> 0 then Inl (Err ''ErrInsufficientOutputAmount'') else
     bnd (big_at (Reserves (Info p)) 1) (\<lambda>r1.
     if r1 \<le> amountOut then Inl (Err ''ErrInsufficientLiquidity'') else
     bnd (deref (Amount tokenAmountIn)) (\<lambda>a.
     bnd (swap_fee zero_address p a (Token0FeePercent p)) (\<lambda>fee.
     bnd (big_at (Reserves (Info p)) 0) (\<lambda>r0.
     let balance0Adjusted = r0 - fee + a; balance1Adjusted = r1 - amountOut in
     bnd (k_val p r0 r1) (\<lambda>kBefore.
     bnd (k_val p balance0Adjusted balance1Adjusted) (\<lambda>kAfter.
     if kAfter < kBefore then Inl (Err ''ErrInvalidK'')
     else Inr (swap_result p tokenAmountIn tokenOut amountOut fee))))))))"

definition swap1To0 ::
    "string \<Rightarrow> PoolSimulator \<Rightarrow> TokenAmount \<Rightarrow> string \<Rightarrow> unit CalcAmountOutResult go" where
  "swap1To0 zero_address p tokenAmountIn tokenOut =
     bnd (getAmountOut p (Amount tokenAmountIn) (Token tokenAmountIn)) (\<lambda>amountOut.
     if amountOut \<le> 0 then Inl (Err ''ErrInsufficientOutputAmount'') else
     bnd (big_at (Reserves (Info p)) 0) (\<lambda>r0.
     if r0 \<le> amountOut then Inl (Err ''ErrInsufficientLiquidity'') else
     bnd (deref (Amount tokenAmountIn)) (\<lambda>a.
     bnd (swap_fee zero_address p a (Token1FeePercent p)) (\<lambda>fee.
     bnd (big_at (Reserves (Info p)) 1) (\<lambda>r1.
     let balance0Adjusted = r0 - amountOut; balance1Adjusted = r1 - fee + a in
     bnd (k_val p r0 r1) (\<lambda>kBefore.
     bnd (k_val p balance0Adjusted balance1Adjusted) (\<lambda>kAfter.
     if kAfter < kBefore then Inl (Err ''ErrInvalidK'')
     else Inr (swap_result p tokenAmountIn tokenOut amountOut fee))))))))"

definition CalcAmountOut ::
    "string \<Rightarrow> PoolSimulator \<Rightarrow> 'l CalcAmountOutParams \<Rightarrow> unit CalcAmountOutResult go" where
  "CalcAmountOut zero_address p param =
     bnd (idx (Tokens (Info p)) 0) (\<lambda>token0.
     if equal_fold (Token (TokenAmountIn param)) token0
     then swap0To1 zero_address p (TokenAmountIn param) (TokenOut param)
     else swap1To0 zero_address p (TokenAmountIn param) (TokenOut param))"

definition CloneState :: "PoolSimulator \<Rightarrow> PoolSimulator" where
  "CloneState p = p\<lparr>Info := (Info p)\<lparr>Reserves := Reserves (Info p)\<rparr>\<rparr>"

definition UpdateBalance ::
    "PoolSimulator \<Rightarrow> (unit, 'l) UpdateBalanceParams \<Rightarrow> PoolSimulator go" where
  "UpdateBalance p params =
     bnd (idx (Tokens (Info p)) 0) (\<lambda>token0.
     bnd (deref (Amount (TokenAmountIn_u params))) (\<lambda>a.
     bnd (deref (Amount (TokenAmountOut_u params))) (\<lambda>o'.
     bnd (deref (Amount (Fee_u params))) (\<lambda>fee.
     bnd (if equal_fold (Token (TokenAmountIn_u params)) token0
          then bnd (add_at (Reserves (Info p)) 0 (a - fee)) (\<lambda>rs. add_at rs 1 (- o'))
          else bnd (add_at (Reserves (Info p)) 0 (- o')) (\<lambda>rs. add_at rs 1 (a - fee))) (\<lambda>rs'.
     Inr (p\<lparr>Info := (Info p)\<lparr>Reserves := rs'\<rparr>\<rparr>))))))"

subsection \<open>Swaps keep the invariant\<close>

text \<open>Both directions end in the same check, which is made on the balances \<open>UpdateBalance\<close> books.\<close>

lemma swap0To1E:
  assumes "swap0To1 z p tin tout = Inr r"
  obtains r0 r1 a fee o' k k' where "big_at (Reserves (Info p)) 0 = Inr r0"
    "big_at (Reserves (Info p)) 1 = Inr r1" "Amount tin = Some a" "0 < o'" "o' < r1"
    "r = swap_result p tin tout o' fee" "k_val p r0 r1 = Inr k"
    "k_val p (r0 - fee + a) (r1 - o') = Inr k'" "k \<le> k'"
  using assms unfolding swap0To1_def Let_def
  by (fastforce simp: bnd_eq_Inr deref_eq_Inr not_le not_less split: if_splits)

lemma swap1To0E:
  assumes "swap1To0 z p tin tout = Inr r"
  obtains r0 r1 a fee o' k k' where "big_at (Reserves (Info p)) 0 = Inr r0"
    "big_at (Reserves (Info p)) 1 = Inr r1" "Amount tin = Some a" "0 < o'" "o' < r0"
    "r = swap_result p tin tout o' fee" "k_val p r0 r1 = Inr k"
    "k_val p (r0 - o') (r1 - fee + a) = Inr k'" "k \<le> k'"
  using assms unfolding swap1To0_def Let_def
  by (fastforce simp: bnd_eq_Inr deref_eq_Inr not_le not_less split: if_splits)

text \<open>The reserves of a pool as numbers, and its invariant.\<close>

definition reserves_of :: "PoolSimulator \<Rightarrow> (int \<times> int) go" where
  "reserves_of p = bnd (big_at (Reserves (Info p)) 0) (\<lambda>r0.
     bnd (big_at (Reserves (Info p)) 1) (\<lambda>r1. Inr (r0, r1)))"

definition k_of :: "PoolSimulator \<Rightarrow> int go" where
  "k_of p = bnd (reserves_of p) (\<lambda>(r0, r1). k_val p r0 r1)"

lemma k_val_Info [simp]: "k_val (p\<lparr>Info := i\<rparr>) x y = k_val p x y"
  by (simp add: k_val_def)

lemma add_at_two:
  assumes "big_at rs 0 = Inr r0" and "big_at rs 1 = Inr r1"
  obtains rs' where "bnd (add_at rs 0 x) (\<lambda>ys. add_at ys 1 y) = Inr rs'"
    "big_at rs' 0 = Inr (r0 + x)" "big_at rs' 1 = Inr (r1 + y)"
proof (rule that [of "rs[0 := Some (r0 + x), 1 := Some (r1 + y)]"])
  have "rs ! 0 = Some r0" "rs ! 1 = Some r1" "1 < length rs"
    using assms by (auto simp: big_at_eq_Inr)
  then show "bnd (add_at rs 0 x) (\<lambda>ys. add_at ys 1 y) = Inr (rs[0 := Some (r0 + x), 1 := Some (r1 + y)])"
    and "big_at (rs[0 := Some (r0 + x), 1 := Some (r1 + y)]) 0 = Inr (r0 + x)"
    and "big_at (rs[0 := Some (r0 + x), 1 := Some (r1 + y)]) 1 = Inr (r1 + y)"
    by (auto simp: add_at_def big_at_def idx_def upd_def)
qed

lemma camelot_swap:
  assumes "CalcAmountOut z p q = Inr r"
  shows "\<exists>p' k k'. UpdateBalance p (update_params q r) = Inr p' \<and> k_of p = Inr k \<and>
    k_of p' = Inr k' \<and> k \<le> k'"
proof -
  from assms obtain token0 where t0: "idx (Tokens (Info p)) 0 = Inr token0"
    by (auto simp: CalcAmountOut_def bnd_eq_Inr)
  have frame: "k_of (p\<lparr>Info := (Info p)\<lparr>Reserves := rs\<rparr>\<rparr>) = k_val p x y"
    if "big_at rs 0 = Inr x" "big_at rs 1 = Inr y" for rs x y
    using that by (simp add: k_of_def reserves_of_def)
  show ?thesis
  proof (cases "equal_fold (Token (TokenAmountIn q)) token0")
    case True
    with assms t0 have "swap0To1 z p (TokenAmountIn q) (TokenOut q) = Inr r"
      by (simp add: CalcAmountOut_def)
    then obtain r0 r1 a fee o' k k' where s: "big_at (Reserves (Info p)) 0 = Inr r0"
      "big_at (Reserves (Info p)) 1 = Inr r1" "Amount (TokenAmountIn q) = Some a"
      "r = swap_result p (TokenAmountIn q) (TokenOut q) o' fee" "k_val p r0 r1 = Inr k"
      "k_val p (r0 - fee + a) (r1 - o') = Inr k'" "k \<le> k'"
      by (rule swap0To1E)
    obtain rs where rs: "bnd (add_at (Reserves (Info p)) 0 (a - fee)) (\<lambda>ys. add_at ys 1 (- o')) = Inr rs"
      "big_at rs 0 = Inr (r0 + (a - fee))" "big_at rs 1 = Inr (r1 + (- o'))"
      by (rule add_at_two [OF s(1,2)])
    with s t0 True frame [OF rs(2,3)] show ?thesis
      by (auto simp: UpdateBalance_def swap_result_def update_params_def k_of_def reserves_of_def
          algebra_simps)
  next
    case False
    with assms t0 have "swap1To0 z p (TokenAmountIn q) (TokenOut q) = Inr r"
      by (simp add: CalcAmountOut_def)
    then obtain r0 r1 a fee o' k k' where s: "big_at (Reserves (Info p)) 0 = Inr r0"
      "big_at (Reserves (Info p)) 1 = Inr r1" "Amount (TokenAmountIn q) = Some a"
      "r = swap_result p (TokenAmountIn q) (TokenOut q) o' fee" "k_val p r0 r1 = Inr k"
      "k_val p (r0 - o') (r1 - fee + a) = Inr k'" "k \<le> k'"
      by (rule swap1To0E)
    obtain rs where rs: "bnd (add_at (Reserves (Info p)) 0 (- o')) (\<lambda>ys. add_at ys 1 (a - fee)) = Inr rs"
      "big_at rs 0 = Inr (r0 + (- o'))" "big_at rs 1 = Inr (r1 + (a - fee))"
      by (rule add_at_two [OF s(1,2)])
    with s t0 False frame [OF rs(2,3)] show ?thesis
      by (auto simp: UpdateBalance_def swap_result_def update_params_def k_of_def reserves_of_def
          algebra_simps)
  qed
qed

subsection \<open>Properties\<close>

text \<open>The fee taken from the input leaves at least the net amount the quote was computed with.\<close>

lemma camelot_net_kept:
  assumes "0 < x" and "0 < y" and "0 < fd" and "0 \<le> pct" and "pct \<le> fd" and "0 < a"
  defines "o' \<equiv> cpmm_out (x * fd) y (a * (fd - pct))"
  shows "x * y \<le> (x - a * pct div fd + a) * (y - o')" and "o' < y"
proof -
  have w: "0 \<le> a * (fd - pct)" using assms by simp
  show less: "o' < y"
    unfolding o'_def using assms w by (intro cpmm_out_less) auto
  have "(x * y) * fd = x * fd * y" by simp
  also have "\<dots> \<le> (x * fd + a * (fd - pct)) * (y - o')"
    unfolding o'_def using assms w by (intro cpmm_product_kept) (simp add: add_pos_nonneg)
  also have "\<dots> \<le> ((x - a * pct div fd + a) * fd) * (y - o')"
    using less floor_le [OF assms(3), of "a * pct"]
    by (intro mult_right_mono) (auto simp: algebra_simps)
  finally have "(x * y) * fd \<le> ((x - a * pct div fd + a) * (y - o')) * fd"
    by (simp add: mult_ac)
  with assms(3) show "x * y \<le> (x - a * pct div fd + a) * (y - o')" by simp
qed

definition pool_ex :: PoolSimulator where
  "pool_ex = \<lparr>Info = \<lparr>Address = ''0x1'', Exchange = ''camelot'', Type = ''camelot'',
      Tokens = [''0xA'', ''0xB''], Reserves = [Some 1000000, Some 2000000], SwapFee = None,
      BlockNumber = 1\<rparr>, StableSwap = False, Token0FeePercent = Some 300,
    Token1FeePercent = Some 500, PrecisionMultiplier0 = None, PrecisionMultiplier1 = None,
    FeeDenominator = Some 100000, FactoryField = None, gas = DefaultGas\<rparr>"

definition request_ex :: "unit CalcAmountOutParams" where
  "request_ex = \<lparr>TokenAmountIn = token_amount ''0xa'' (Some 1000), TokenOut = ''0xB'', Limit = None\<rparr>"

definition pool_ex' :: PoolSimulator where
  "pool_ex' = pool_ex\<lparr>Info := (Info pool_ex)\<lparr>Reserves := [Some 1000997, Some 1998008]\<rparr>\<rparr>"

lemma camelot_step_ex:
  "(swap_step (CalcAmountOut '''' :: _ \<Rightarrow> unit CalcAmountOutParams \<Rightarrow> _) UpdateBalance)\<^sup>*\<^sup>*
     pool_ex pool_ex'"
proof (rule r_into_rtranclp, rule swap_step.swap)
  show "valid_request request_ex" by (simp add: valid_request_def request_ex_def)
  show "CalcAmountOut '''' pool_ex request_ex =
      Inr (swap_result pool_ex (TokenAmountIn request_ex) ''0xB'' 1992 3)" by code_simp
  show "UpdateBalance pool_ex
     (update_params request_ex (swap_result pool_ex (TokenAmountIn request_ex) ''0xB'' 1992 3)) =
    Inr pool_ex'" by code_simp
qed

text \<open>Over any sequence of swaps the invariant \<open>_k\<close> of a Camelot pool, stable or volatile, never
  falls, and no update panics: the check in \<open>_swap0To1\<close> and \<open>_swap1To0\<close> is made on exactly the
  balances that \<open>UpdateBalance\<close> books.\<close>

theorem camelot_k_never_falls:
  assumes "(swap_step (CalcAmountOut z) UpdateBalance)\<^sup>*\<^sup>* p p'" and "k_of p = Inr k"
  shows "\<exists>k'. k_of p' = Inr k' \<and> k \<le> k'"
  using assms(1)
proof (induction rule: rtranclp_induct)
  case base
  with assms(2) show ?case by simp
next
  case (step p1 p2)
  from step.hyps(2) obtain k1 k2 where "k_of p1 = Inr k1" "k_of p2 = Inr k2" "k1 \<le> k2"
    by (rule swap_stepE) (use camelot_swap in fastforce)
  with step.IH show ?case by auto
qed

theorem camelot_k_never_falls_witness: "\<exists>k'. k_of pool_ex' = Inr k' \<and> 2000000000000 \<le> k'"
proof -
  have "k_of pool_ex = Inr 2000000000000" by code_simp
  from camelot_k_never_falls [OF camelot_step_ex this] show ?thesis .
qed

text \<open>A volatile Camelot pool never rejects a swap for its invariant: the quote is the
  constant-product quote of the input net of the fee, and it is refused only when it is zero.\<close>

theorem camelot_volatile_quote:
  assumes "\<not> StableSwap p" and "idx (Tokens (Info p)) 0 = Inr token0"
    and "Reserves (Info p) = [Some r0, Some r1]" and "0 < r0" and "0 < r1"
    and "FeeDenominator p = Some fd" and "Token0FeePercent p = Some f0"
    and "Token1FeePercent p = Some f1" and "0 < fd" and "0 \<le> f0" and "f0 \<le> fd" and "0 \<le> f1"
    and "f1 \<le> fd" and "Amount (TokenAmountIn q) = Some a" and "0 < a"
  shows "CalcAmountOut z p q =
    (let from0 = equal_fold (Token (TokenAmountIn q)) token0;
         pct = (if from0 then f0 else f1);
         o' = cpmm_out ((if from0 then r0 else r1) * fd) (if from0 then r1 else r0) (a * (fd - pct)) in
     if o' \<le> 0 then Inl (Err ''ErrInsufficientOutputAmount'')
     else Inr (swap_result p (TokenAmountIn q) (TokenOut q) o' (a * pct div fd)))"
proof -
  have div: "big_div (a * (fd - pct) * y) (x * fd + a * (fd - pct)) =
      Inr (cpmm_out (x * fd) y (a * (fd - pct)))" if "0 < x" "pct \<le> fd" for x y pct
    using that assms(9,15) by (simp add: add_pos_nonneg cpmm_out_def mult.commute)
  note n0 = camelot_net_kept [OF assms(4,5,9-11,15)] and n1 = camelot_net_kept [OF assms(5,4,9,12,13,15)]
  have fee: "swap_fee z p a pct = bnd (deref pct) (\<lambda>pc. Inr (a * pc div fd))" for pct
    using assms(1,6,9) by (cases pct) (auto simp: swap_fee_def split: option.splits)
  have quote: "getAmountOut p (Some a) (Token (TokenAmountIn q)) =
    (if equal_fold (Token (TokenAmountIn q)) token0 then Inr (cpmm_out (r0 * fd) r1 (a * (fd - f0)))
     else Inr (cpmm_out (r1 * fd) r0 (a * (fd - f1))))"
    using assms by (auto simp: getAmountOut_def getAmountOut_core_def Let_def div)
  show ?thesis
    using assms(1-3,7,8,14) n0 n1
    by (auto simp: CalcAmountOut_def swap0To1_def swap1To0_def quote fee k_val_def Let_def mult.commute)
qed

theorem camelot_volatile_quote_witness:
  "CalcAmountOut '''' pool_ex request_ex =
     Inr (swap_result pool_ex (token_amount ''0xa'' (Some 1000)) ''0xB'' 1992 3)"
proof -
  have *: "equal_fold ''0xa'' ''0xA''" "cpmm_out 100000000000 2000000 99700000 = 1992" by code_simp+
  have "idx (Tokens (Info pool_ex)) 0 = Inr ''0xA''" by (simp add: pool_ex_def)
  from camelot_volatile_quote [of pool_ex "''0xA''" 1000000 2000000 100000 300 500 request_ex 1000] this *
  show ?thesis by (simp add: pool_ex_def request_ex_def)
qed

text \<open>The derivative \<open>_d\<close> of Camelot's Newton search divides \<open>x0\<close> before multiplying, unlike the
  formula in the comment above it: it is never larger than the documented value, and smaller for
  a balance of one and a half units.\<close>

theorem camelot_d_below_comment:
  "(0 \<le> x0 \<longrightarrow> d_val x0 y \<le> 3 * x0 * (y * y div BONE) div BONE + x0 * x0 div BONE * x0 div BONE) \<and>
   d_val 1500000000000000000 y < 3 * 1500000000000000000 * (y * y div BONE) div BONE
     + 1500000000000000000 * 1500000000000000000 div BONE * 1500000000000000000 div BONE"
proof -
  have "(x0 * x0 div BONE) * (x0 div BONE) \<le> x0 * x0 div BONE * x0 div BONE" if "0 \<le> x0"
  proof (rule floor_geI)
    have "(x0 div BONE) * BONE \<le> x0" by (rule floor_le) simp
    then show "x0 * x0 div BONE * (x0 div BONE) * BONE \<le> x0 * x0 div BONE * x0"
      using mult_left_mono [of "(x0 div BONE) * BONE" x0 "x0 * x0 div BONE"] that
      by (simp add: mult.assoc)
  qed simp
  then show ?thesis
    by (auto simp: d_val_def mult.assoc) (simp add: BONE_def)
qed

theorem camelot_d_below_comment_witness:
  "d_val 1500000000000000000 0 = 2250000000000000000 \<and>
   d_val 1500000000000000000 0 <
     1500000000000000000 * 1500000000000000000 div BONE * 1500000000000000000 div BONE"
  using camelot_d_below_comment [of 0 0] by (simp add: d_val_def BONE_def)

end
