(* ===== verification/Curve_Base.thy ===== *)
theory Curve_Base
  imports Pool_Interface Newton
begin

text \<open>
  The package \<open>pkg/source/curve/base\<close>: the Curve StableSwap base pool.  \<open>math.go\<close> computes the
  amplification coefficient over time (\<open>time.Now().Unix()\<close> is the parameter \<open>now\<close>), the invariant
  \<open>D\<close>, a balance from \<open>D\<close> by Newton iterations of at most \<open>MaxLoopLimit\<close> steps, quotes, and the
  liquidity operations, of which \<open>AddLiquidity\<close> and \<open>RemoveLiquidityOneCoin\<close> change the pool.

  The loops keep the source's bound; \<open>y_loop\<close> is an instance of \<open>newton_guarded\<close>.
\<close>

definition MaxLoopLimit :: nat where
  "MaxLoopLimit = 256"

definition Precision :: int where
  "Precision = 10 ^ 18"

definition FeeDenominator :: int where
  "FeeDenominator = 10 ^ 10"

record Gas =
  Exchange_g :: int
  ExchangeUnderlying :: int

definition DefaultGas :: Gas where
  "DefaultGas = \<lparr>Exchange_g = 128000, ExchangeUnderlying = 0\<rparr>"

record PoolBaseStaticExtra =
  LpToken_s :: string
  APrecision_s :: string
  PrecisionMultipliers :: "string list"
  Rates_s :: "string list"

record PoolBaseExtra =
  InitialA_x :: string
  FutureA_x :: string
  InitialATime_x :: int
  FutureATime_x :: int
  SwapFee_x :: string
  AdminFee_x :: string

record PoolSimulator = Pool +
  Multipliers :: "bigint list"
  Rates :: "bigint list"
  InitialA :: bigint
  FutureA :: bigint
  InitialATime :: int
  FutureATime :: int
  AdminFee :: bigint
  LpToken :: string
  LpSupply :: bigint
  APrecision :: bigint
  gas :: Gas
  numTokensBI :: int

definition NewPoolSimulator ::
    "(string \<Rightarrow> PoolBaseStaticExtra go) \<Rightarrow> (string \<Rightarrow> PoolBaseExtra go) \<Rightarrow> EntityPool \<Rightarrow>
     PoolSimulator go" where
  "NewPoolSimulator json_StaticExtra json_Extra entityPool =
     bnd (json_StaticExtra (StaticExtra_e entityPool)) (\<lambda>staticExtra.
     bnd (json_Extra (Extra_e entityPool)) (\<lambda>extra.
     let numTokens = length (Tokens_e entityPool) in
     if length (Reserves_e entityPool) < numTokens then Inl (Err ''empty reserve'') else
     bnd (go_map (\<lambda>i.
            bnd (idx (Tokens_e entityPool) i) (\<lambda>t. bnd (idx (Reserves_e entityPool) i) (\<lambda>r.
            bnd (idx (PrecisionMultipliers staticExtra) i) (\<lambda>m. bnd (idx (Rates_s staticExtra) i) (\<lambda>rate.
            Inr (TokenAddress t, NewBig10 r, NewBig10 m, NewBig10 rate))))))
          (range_n numTokens)) (\<lambda>rows.
     bnd (idx (Reserves_e entityPool) (int numTokens)) (\<lambda>supply.
     Inr \<lparr>Info = \<lparr>Address = to_lower (Address_e entityPool), Exchange = Exchange_e entityPool,
                  Type = Type_e entityPool, Tokens = map fst rows,
                  Reserves = map (fst \<circ> snd) rows, SwapFee = NewBig10 (SwapFee_x extra),
                  BlockNumber = BlockNumber_e entityPool\<rparr>,
          Multipliers = map (fst \<circ> snd \<circ> snd) rows, Rates = map (snd \<circ> snd \<circ> snd) rows,
          InitialA = NewBig10 (InitialA_x extra), FutureA = NewBig10 (FutureA_x extra),
          InitialATime = InitialATime_x extra, FutureATime = FutureATime_x extra,
          AdminFee = NewBig10 (AdminFee_x extra), LpToken = LpToken_s staticExtra,
          LpSupply = NewBig10 supply,
          APrecision = (if 0 < length (APrecision_s staticExtra)
                        then NewBig10 (APrecision_s staticExtra) else Some 1),
          gas = DefaultGas, numTokensBI = int numTokens\<rparr>))))"

definition CloneState :: "PoolSimulator \<Rightarrow> PoolSimulator" where
  "CloneState t = t\<lparr>Info := (Info t)\<lparr>Reserves := Reserves (Info t)\<rparr>\<rparr>"

subsection \<open>Balances, amplification and the invariant\<close>

definition scaled :: "bigint list \<Rightarrow> bigint list \<Rightarrow> int \<Rightarrow> int go" where
  "scaled rates balances i =
     bnd (big_at rates i) (\<lambda>r. bnd (big_at balances i) (\<lambda>b. Inr (r * b div Precision)))"

definition xpMem :: "bigint list \<Rightarrow> bigint list \<Rightarrow> int list go" where
  "xpMem balances rates =
     (if length balances \<noteq> length rates then Inl (Err ''ErrBalancesMustMatchMultipliers'')
      else go_map (scaled rates balances) (range_n (length balances)))"

definition xp_fn :: "PoolSimulator \<Rightarrow> int list go" where
  "xp_fn t = go_map (scaled (Rates t) (Reserves (Info t))) (range_n (length (Tokens (Info t))))"

definition A_fn :: "int \<Rightarrow> PoolSimulator \<Rightarrow> bigint go" where
  "A_fn now t =
     (let t1 = FutureATime t; a1 = FutureA t in
      if now < t1 then
        let t0 = InitialATime t; a0 = InitialA t in
        bnd (deref a1) (\<lambda>a1. bnd (deref a0) (\<lambda>a0.
        if a0 < a1
        then bnd (big_div ((a1 - a0) * int64 (now - t0)) (int64 (t1 - t0))) (\<lambda>q. Inr (Some (a0 + q)))
        else bnd (big_div ((a0 - a1) * int64 (now - t0)) (int64 (t1 - t0))) (\<lambda>q. Inr (Some (a0 - q)))))
      else Inr a1)"

definition A_precisionless :: "int \<Rightarrow> PoolSimulator \<Rightarrow> int go" where
  "A_precisionless now t =
     bnd (A_fn now t) (\<lambda>a. bnd (deref a) (\<lambda>a. bnd (deref (APrecision t)) (\<lambda>p. big_div a p)))"

definition APrecise :: "int \<Rightarrow> PoolSimulator \<Rightarrow> bigint go" where
  "APrecise now t = A_fn now t"

fun d_p_loop :: "int \<Rightarrow> int \<Rightarrow> int \<Rightarrow> int list \<Rightarrow> int go" where
  "d_p_loop n d dP [] = Inr dP"
| "d_p_loop n d dP (x # xs) =
     (if 2 ^ 256 \<le> \<bar>dP * d\<bar> then Inl (Err ''ErrDDoesNotConverge'')
      else bnd (big_div (dP * d) (x * n + 1)) (\<lambda>dP'. d_p_loop n d dP' xs))"

fun d_loop :: "nat \<Rightarrow> int list \<Rightarrow> int \<Rightarrow> int \<Rightarrow> int \<Rightarrow> int \<Rightarrow> int \<Rightarrow> int go" where
  "d_loop 0 xp n nA_mul_s nA_sub aPrec d = Inl (Err ''ErrDDoesNotConverge'')"
| "d_loop (Suc m) xp n nA_mul_s nA_sub aPrec d =
     bnd (d_p_loop n d d xp) (\<lambda>dP.
     bnd (big_div (nA_sub * d) aPrec) (\<lambda>q.
     bnd (big_div ((nA_mul_s + dP * n) * d) (q + dP * (int (length xp) + 1))) (\<lambda>d'.
     if \<bar>d' - d\<bar> \<le> 1 then Inr d' else d_loop m xp n nA_mul_s nA_sub aPrec d')))"

definition getD :: "PoolSimulator \<Rightarrow> int list \<Rightarrow> bigint \<Rightarrow> int go" where
  "getD t xp a =
     (let s = sum_list xp in
      if s = 0 then Inr s else
      bnd (deref a) (\<lambda>a.
      let nA = a * numTokensBI t in
      bnd (deref (APrecision t)) (\<lambda>aPrec.
      bnd (big_div (nA * s) aPrec) (\<lambda>nA_mul_s_div_APrec.
      d_loop MaxLoopLimit xp (numTokensBI t) nA_mul_s_div_APrec (nA - aPrec) aPrec s))))"

definition get_D_mem :: "PoolSimulator \<Rightarrow> bigint list \<Rightarrow> bigint \<Rightarrow> int go" where
  "get_D_mem t balances amp = bnd (xpMem balances (Rates t)) (\<lambda>xp. getD t xp amp)"

subsection \<open>Solving for a balance\<close>

fun y_loop :: "nat \<Rightarrow> int \<Rightarrow> int \<Rightarrow> int \<Rightarrow> int \<Rightarrow> int go" where
  "y_loop 0 c b d y = Inl (Err ''ErrAmountOutNotConverge'')"
| "y_loop (Suc m) c b d y =
     (let denom = y * 2 + b - d in
      if denom \<le> 0 then Inl (Err ''ErrDenominatorZero'')
      else let y' = (y * y + c) div denom in
           if \<bar>y' - y\<bar> \<le> 1 then Inr y' else y_loop m c b d y')"

text \<open>The coefficients of \<open>y\<^sup>2 + (b - d) * y = c\<close>: \<open>s_c_loop\<close> runs over the other balances, with the
  new balance \<open>x\<close> at \<open>tokenIndexFrom\<close>.\<close>

fun s_c_loop :: "int \<Rightarrow> int \<Rightarrow> int \<Rightarrow> int \<Rightarrow> int \<Rightarrow> int \<Rightarrow> int list \<Rightarrow> int \<Rightarrow> int \<Rightarrow> (int \<times> int) go" where
  "s_c_loop i from to x n d [] s c = Inr (s, c)"
| "s_c_loop i from to x n d (xpi # xps) s c =
     (if i \<noteq> from \<and> i = to then s_c_loop (i + 1) from to x n d xps s c
      else
        let x' = (if i = from then x else xpi) in
        if x' = 0 then Inl (Err ''ErrZero'')
        else bnd (big_div (c * d) (x' * n)) (\<lambda>c'.
             s_c_loop (i + 1) from to x n d xps (s + x') c'))"

definition y_coeffs ::
    "PoolSimulator \<Rightarrow> int \<Rightarrow> int \<Rightarrow> int \<Rightarrow> int \<Rightarrow> int list \<Rightarrow> int \<Rightarrow> (int \<times> int) go" where
  "y_coeffs t a from to x xp d =
     (let nA = a * numTokensBI t in
      bnd (s_c_loop 0 from to x (numTokensBI t) d xp 0 d) (\<lambda>(s, c).
      if nA = 0 then Inl (Err ''ErrZero'') else
      bnd (deref (APrecision t)) (\<lambda>aPrec.
      bnd (big_div (c * d * aPrec) (nA * numTokensBI t)) (\<lambda>c'.
      bnd (big_div (d * aPrec) nA) (\<lambda>q. Inr (c', s + q))))))"

definition GetY ::
    "int \<Rightarrow> PoolSimulator \<Rightarrow> int \<Rightarrow> int \<Rightarrow> int \<Rightarrow> int list \<Rightarrow> bigint \<Rightarrow> int go" where
  "GetY now t tokenIndexFrom tokenIndexTo x xp dCached =
     (let numTokens = int (length xp) in
      if tokenIndexFrom = tokenIndexTo then Inl (Err ''ErrTokenFromEqualsTokenTo'')
      else if numTokens \<le> tokenIndexFrom \<and> numTokens \<le> tokenIndexTo
      then Inl (Err ''ErrTokenIndexesOutOfRange'')
      else
        bnd (A_fn now t) (\<lambda>a.
        case a of None \<Rightarrow> Inl (Err ''ErrInvalidAValue'')
        | Some a' \<Rightarrow>
            bnd (case dCached of Some d \<Rightarrow> Inr d | None \<Rightarrow> getD t xp a) (\<lambda>d.
            bnd (y_coeffs t a' tokenIndexFrom tokenIndexTo x xp d) (\<lambda>(c, b).
            y_loop MaxLoopLimit c b d d))))"

definition GetDy :: "int \<Rightarrow> PoolSimulator \<Rightarrow> int \<Rightarrow> int \<Rightarrow> bigint \<Rightarrow> bigint \<Rightarrow> (int \<times> int) go" where
  "GetDy now t i j dx dCached =
     bnd (xp_fn t) (\<lambda>xp.
     bnd (idx xp i) (\<lambda>xpi. bnd (deref dx) (\<lambda>dx. bnd (big_at (Rates t) i) (\<lambda>ratei.
     let x = xpi + dx * ratei div Precision in
     bnd (GetY now t i j x xp dCached) (\<lambda>y.
     bnd (idx xp j) (\<lambda>xpj.
     let dy = xpj - y - 1 in
     bnd (deref (SwapFee (Info t))) (\<lambda>swapFee.
     let fee = swapFee * dy div FeeDenominator in
     bnd (big_at (Rates t) j) (\<lambda>ratej.
     bnd (big_div ((dy - fee) * Precision) ratej) (\<lambda>dy'.
     bnd (big_div (fee * Precision) ratej) (\<lambda>fee'. Inr (dy', fee')))))))))))"

fun s_c_loop_yd :: "int \<Rightarrow> int \<Rightarrow> int \<Rightarrow> int \<Rightarrow> int list \<Rightarrow> int \<Rightarrow> int \<Rightarrow> (int \<times> int) go" where
  "s_c_loop_yd i k n d [] s c = Inr (s, c)"
| "s_c_loop_yd i k n d (x # xs) s c =
     (if i \<noteq> k
      then bnd (big_div (c * d) (x * n)) (\<lambda>c'. s_c_loop_yd (i + 1) k n d xs (s + x) c')
      else s_c_loop_yd (i + 1) k n d xs s c)"

definition getYD :: "PoolSimulator \<Rightarrow> bigint \<Rightarrow> int \<Rightarrow> int list \<Rightarrow> int \<Rightarrow> int go" where
  "getYD t a tokenIndex xp d =
     (if int (length xp) \<le> tokenIndex then Inl (Err ''ErrTokenNotFound'') else
      bnd (deref a) (\<lambda>a.
      let nA = a * numTokensBI t in
      bnd (s_c_loop_yd 0 tokenIndex (numTokensBI t) d xp 0 d) (\<lambda>(s, c).
      if nA = 0 then Inl (Err ''ErrZero'') else
      bnd (deref (APrecision t)) (\<lambda>aPrec.
      bnd (big_div (c * d * aPrec) (nA * numTokensBI t)) (\<lambda>c'.
      bnd (big_div (d * aPrec) nA) (\<lambda>q.
      y_loop MaxLoopLimit c' (s + q) d d))))))"

subsection \<open>Liquidity\<close>

definition CalculateWithdrawOneCoin ::
    "int \<Rightarrow> PoolSimulator \<Rightarrow> int \<Rightarrow> int \<Rightarrow> (int \<times> int) go" where
  "CalculateWithdrawOneCoin now t tokenAmount i =
     bnd (A_fn now t) (\<lambda>amp. bnd (xp_fn t) (\<lambda>xp.
     bnd (getD t xp amp) (\<lambda>D0.
     bnd (deref (LpSupply t)) (\<lambda>totalSupply.
     bnd (big_div (tokenAmount * D0) totalSupply) (\<lambda>q.
     let D1 = D0 - q in
     bnd (getYD t amp i xp D1) (\<lambda>newY.
     let nCoins = int (length (Reserves (Info t))) in
     bnd (deref (SwapFee (Info t))) (\<lambda>swapFee.
     bnd (big_div (swapFee * nCoins) (4 * (nCoins - 1))) (\<lambda>fee.
     bnd (go_map (\<lambda>j.
            bnd (idx xp j) (\<lambda>xpj.
            bnd (big_div (xpj * D1) D0) (\<lambda>share.
            let dxExpected = (if j = i then share - newY else xpj - share) in
            Inr (xpj - fee * dxExpected div FeeDenominator))))
          (range_n (length (Reserves (Info t))))) (\<lambda>xpReduced.
     bnd (getYD t amp i xpReduced D1) (\<lambda>newYD.
     bnd (idx xpReduced i) (\<lambda>xri.
     bnd (big_at (Multipliers t) i) (\<lambda>mult.
     bnd (big_div (xri - newYD - 1) mult) (\<lambda>dy.
     bnd (idx xp i) (\<lambda>xpi.
     bnd (big_div (xpi - newY) mult) (\<lambda>dy0.
     Inr (dy, dy0 - dy))))))))))))))))"

definition CalculateTokenAmount :: "int \<Rightarrow> PoolSimulator \<Rightarrow> bigint list \<Rightarrow> bool \<Rightarrow> int go" where
  "CalculateTokenAmount now t amounts deposit =
     (let numTokens = length (Tokens (Info t)) in
      bnd (A_fn now t) (\<lambda>a.
      bnd (get_D_mem t (Reserves (Info t)) a) (\<lambda>d0.
      bnd (go_map (\<lambda>i.
             bnd (big_at (Reserves (Info t)) i) (\<lambda>r. bnd (big_at amounts i) (\<lambda>am.
             if deposit then Inr (Some (r + am))
             else if r < am then Inl (Err ''ErrWithdrawMoreThanAvailable'')
             else Inr (Some (r - am)))))
           (range_n numTokens)) (\<lambda>balances1.
      bnd (get_D_mem t balances1 a) (\<lambda>d1.
      bnd (deref (LpSupply t)) (\<lambda>totalSupply.
      let diff = (if deposit then d1 - d0 else d0 - d1) in
      big_div (diff * totalSupply) d0))))))"

definition CalculateAddLiquidityOneToken ::
    "int \<Rightarrow> PoolSimulator \<Rightarrow> int \<Rightarrow> bigint \<Rightarrow> (int \<times> int) go" where
  "CalculateAddLiquidityOneToken now t tokenIndex tokenAmount =
     bnd (deref tokenAmount) (\<lambda>ta.
     bnd (upd (replicate (length (Reserves (Info t))) (Some 0)) tokenIndex (Some ta)) (\<lambda>amounts.
     bnd (CalculateTokenAmount now t amounts True) (\<lambda>amount. Inr (amount, 0))))"

text \<open>The fee loop of \<open>AddLiquidity\<close> for one coin: the new reserve and the balance less the fee.\<close>

definition add_liquidity_coin ::
    "bigint \<Rightarrow> int \<Rightarrow> int \<Rightarrow> int \<Rightarrow> int \<Rightarrow> int \<Rightarrow> (int \<times> int) go" where
  "add_liquidity_coin admin_fee fee0 D0 D1 old new =
     bnd (big_div (D1 * old) D0) (\<lambda>ideal_balance.
     let difference = (if new < ideal_balance then ideal_balance - new else new - ideal_balance);
         fee = fee0 * difference div FeeDenominator in
     bnd (deref admin_fee) (\<lambda>af.
     Inr (new - fee * af div FeeDenominator, new - fee)))"

definition AddLiquidity :: "int \<Rightarrow> PoolSimulator \<Rightarrow> bigint list \<Rightarrow> (PoolSimulator \<times> int) go" where
  "AddLiquidity now t amounts =
     (let nCoins = length amounts in
      bnd (A_fn now t) (\<lambda>amp.
      bnd (go_map (idx (Reserves (Info t))) (range_n nCoins)) (\<lambda>old_balances.
      bnd (get_D_mem t old_balances amp) (\<lambda>D0.
      bnd (go_map (\<lambda>i. bnd (big_at old_balances i) (\<lambda>r. bnd (big_at amounts i) (\<lambda>am. Inr (r + am))))
             (range_n nCoins)) (\<lambda>new_balances.
      bnd (get_D_mem t (map Some new_balances) amp) (\<lambda>D1.
      if D1 \<le> D0 then Inl (Err ''ErrD1LowerThanD0'') else
      bnd (deref (LpSupply t)) (\<lambda>token_supply.
      bnd (if 0 < token_supply then
             bnd (deref (SwapFee (Info t))) (\<lambda>swapFee.
             bnd (big_div (swapFee * int nCoins) (4 * (int nCoins - 1))) (\<lambda>fee0.
             bnd (go_map (\<lambda>i. bnd (big_at old_balances i) (\<lambda>old. bnd (idx new_balances i) (\<lambda>new.
                    add_liquidity_coin (AdminFee t) fee0 D0 D1 old new)))
                  (range_n nCoins)) (\<lambda>rows.
             bnd (case get_D_mem t (map (Some \<circ> snd) rows) amp of
                    Inr D2 \<Rightarrow> Inr D2
                  | Inl (Err _) \<Rightarrow> Inl (Panic NilDereference)
                  | Inl (Panic e) \<Rightarrow> Inl (Panic e)) (\<lambda>D2.
             bnd (big_div (token_supply * (D2 - D0)) D0) (\<lambda>mint_amount.
             Inr (map (Some \<circ> fst) rows, mint_amount))))))
           else Inr (map Some new_balances, D1)) (\<lambda>(head_reserves, mint_amount).
      Inr (t\<lparr>Info := (Info t)\<lparr>Reserves := head_reserves @ drop nCoins (Reserves (Info t))\<rparr>,
             LpSupply := Some (token_supply + mint_amount)\<rparr>, mint_amount)))))))))"

definition RemoveLiquidityOneCoin :: "int \<Rightarrow> PoolSimulator \<Rightarrow> int \<Rightarrow> int \<Rightarrow> (PoolSimulator \<times> int) go" where
  "RemoveLiquidityOneCoin now t tokenAmount i =
     bnd (CalculateWithdrawOneCoin now t tokenAmount i) (\<lambda>(dy, dy_fee).
     bnd (deref (AdminFee t)) (\<lambda>adminFee.
     bnd (add_at (Reserves (Info t)) i (- (dy + dy_fee * adminFee div FeeDenominator))) (\<lambda>rs.
     bnd (deref (LpSupply t)) (\<lambda>supply.
     Inr (t\<lparr>Info := (Info t)\<lparr>Reserves := rs\<rparr>, LpSupply := Some (supply - tokenAmount)\<rparr>, dy)))))"

definition GetVirtualPrice :: "int \<Rightarrow> PoolSimulator \<Rightarrow> (int \<times> int) go" where
  "GetVirtualPrice now t =
     bnd (xp_fn t) (\<lambda>xp. bnd (A_fn now t) (\<lambda>a.
     bnd (getD t xp a) (\<lambda>D.
     bnd (deref (LpSupply t)) (\<lambda>supply.
     if supply = 0 then Inl (Err ''ErrDenominatorZero'')
     else bnd (big_div (D * Precision) supply) (\<lambda>v. Inr (v, D))))))"

subsection \<open>The simulator\<close>

definition CalcAmountOut ::
    "int \<Rightarrow> PoolSimulator \<Rightarrow> 'l CalcAmountOutParams \<Rightarrow> unit CalcAmountOutResult go" where
  "CalcAmountOut now t param =
     (let tokenAmountIn = TokenAmountIn param; tokenOut = TokenOut param;
          tokenIndexFrom = PoolInfo_GetTokenIndex (Info t) (Token tokenAmountIn);
          tokenIndexTo = PoolInfo_GetTokenIndex (Info t) tokenOut;
          failed = Inl (Err ''tokenIndexFrom %v or TokenOutIndex %v is not correct'') in
      if 0 \<le> tokenIndexFrom \<and> 0 \<le> tokenIndexTo then
        bnd (GetDy now t tokenIndexFrom tokenIndexTo (Amount tokenAmountIn) None) (\<lambda>(amountOut, fee).
        if 0 < amountOut
        then Inr \<lparr>TokenAmountOut = Some (token_amount tokenOut (Some amountOut)),
                  Fee = Some (token_amount tokenOut (Some fee)), RemainingTokenAmountIn = None,
                  Gas = Exchange_g (gas t), SwapInfo = None\<rparr>
        else failed)
      else failed)"

definition UpdateBalance ::
    "PoolSimulator \<Rightarrow> (unit, 'l) UpdateBalanceParams \<Rightarrow> PoolSimulator go" where
  "UpdateBalance t params =
     (let input = TokenAmountIn_u params; output = TokenAmountOut_u params in
      bnd (deref (Amount output)) (\<lambda>o'.
      bnd (deref (SwapFee (Info t))) (\<lambda>swapFee.
      bnd (deref (AdminFee t)) (\<lambda>adminFee.
      let outputAmount = o' + (o' * swapFee div FeeDenominator) * adminFee div FeeDenominator in
      bnd (deref (Amount input)) (\<lambda>inputAmount.
      bnd (swap_reserves (Tokens (Info t)) 0 (Token input) inputAmount (Token output)
             (Some outputAmount) (Reserves (Info t))) (\<lambda>rs.
      Inr (t\<lparr>Info := (Info t)\<lparr>Reserves := rs\<rparr>\<rparr>)))))))"

subsection \<open>The amplification ramp\<close>

lemma ramp_bounds:
  assumes "0 \<le> (h::int)" and "0 \<le> e" and "e \<le> w" and "0 < w"
  shows "0 \<le> h * e div w" and "h * e div w \<le> h"
proof -
  show "0 \<le> h * e div w" using assms by simp
  have "h * e div w \<le> h * w div w"
    using assms by (intro zdiv_mono1 mult_left_mono) auto
  with assms(4) show "h * e div w \<le> h" by simp
qed

lemma A_fn_ramp:
  assumes "InitialATime t \<le> now" and "now < FutureATime t" and "0 \<le> InitialATime t"
    and "FutureATime t < 2 ^ 63" and "InitialA t = Some a0" and "FutureA t = Some a1"
  shows "\<exists>a. A_fn now t = Inr (Some a) \<and> min a0 a1 \<le> a \<and> a \<le> max a0 a1"
proof -
  let ?e = "now - InitialATime t" and ?w = "FutureATime t - InitialATime t"
  have i: "int64 ?e = ?e" "int64 ?w = ?w" and w: "0 \<le> ?e" "?e \<le> ?w" "0 < ?w"
    using assms by (auto intro!: int64_id)
  show ?thesis
  proof (cases "a0 < a1")
    case True
    with ramp_bounds [of "a1 - a0", OF _ w] assms w(3) show ?thesis
      by (simp add: A_fn_def Let_def i min_def max_def)
  next
    case False
    with ramp_bounds [of "a0 - a1", OF _ w] assms w(3) show ?thesis
      by (simp add: A_fn_def Let_def i min_def max_def)
  qed
qed

text \<open>While Curve's amplification coefficient is ramped from \<open>InitialA\<close> to \<open>FutureA\<close> it stays
  between the two, and from \<open>FutureATime\<close> on it is \<open>FutureA\<close>.\<close>

theorem curve_A_ramp:
  assumes "InitialATime t \<le> now" and "0 \<le> InitialATime t" and "FutureATime t < 2 ^ 63"
    and "InitialA t = Some a0" and "FutureA t = Some a1"
  shows "\<exists>a. A_fn now t = Inr (Some a) \<and> min a0 a1 \<le> a \<and> a \<le> max a0 a1 \<and>
    (FutureATime t \<le> now \<longrightarrow> a = a1)"
proof (cases "now < FutureATime t")
  case True
  with A_fn_ramp [OF assms(1) True assms(2-)] show ?thesis by auto
next
  case False
  with assms show ?thesis by (auto simp: A_fn_def)
qed

definition pool_ex :: PoolSimulator where
  "pool_ex = \<lparr>Info = \<lparr>Address = ''0x1'', Exchange = ''curve'', Type = ''curve-base'',
      Tokens = [''a'', ''b''], Reserves = [Some 1000000000, Some 1200000000],
      SwapFee = Some 4000000, BlockNumber = 1\<rparr>,
    Multipliers = [Some 1, Some 1], Rates = [Some 1000000000000000000, Some 1000000000000000000],
    InitialA = Some 100, FutureA = Some 200, InitialATime = 1000, FutureATime = 2000,
    AdminFee = Some 5000000000, LpToken = ''0x2'', LpSupply = Some 2000000000,
    APrecision = Some 1, gas = DefaultGas, numTokensBI = 2\<rparr>"

theorem curve_A_ramp_witness:
  "A_fn 1500 pool_ex = Inr (Some 150) \<and> A_fn 3000 pool_ex = Inr (Some 200)"
proof -
  have "A_fn 1500 pool_ex = Inr (Some 150)" by code_simp
  moreover from curve_A_ramp [of pool_ex 3000 100 200] have "A_fn 3000 pool_ex = Inr (Some 200)"
    by (auto simp: pool_ex_def)
  ultimately show ?thesis by simp
qed

subsection \<open>The balance solver\<close>

definition close1 :: "int \<Rightarrow> int \<Rightarrow> bool" where
  "close1 y' y = (\<bar>y' - y\<bar> \<le> 1)"

interpretation close1: newton_stop close1
  by unfold_locales (auto simp: close1_def)

lemma y_loop_newton: "y_loop n c b d y = newton_guarded close1 n c (b - d) y"
proof (induction n arbitrary: y)
  case (Suc n)
  have slope: "y * 2 + b - d = 2 * y + (b - d)" by simp
  show ?case
    unfolding y_loop.simps newton_guarded.simps slope Let_def
    by (simp add: Suc close1_def [of "(y * y + c) div (2 * y + (b - d))" y])
qed simp

lemma GetY_Inr:
  assumes "GetY now t i j x xp dCached = Inr y"
  obtains a d c b where "i \<noteq> j" "A_fn now t = Inr (Some a)"
    "(case dCached of Some d \<Rightarrow> Inr d | None \<Rightarrow> getD t xp (Some a)) = Inr d"
    "y_coeffs t a i j x xp d = Inr (c, b)" "y_loop MaxLoopLimit c b d d = Inr y"
  using assms unfolding GetY_def Let_def
  by (fastforce simp: bnd_eq_Inr split: if_splits option.splits)

text \<open>Whenever Curve's \<open>GetY\<close> returns a balance, that balance is within one unit of the root of
  \<open>y\<^sup>2 + (b - d) * y = c\<close> for the coefficients it computed.\<close>

theorem curve_GetY_near_root:
  assumes "GetY now t i j x xp dCached = Inr y"
  shows "\<exists>a d c b. A_fn now t = Inr (Some a) \<and>
    (case dCached of Some d \<Rightarrow> Inr d | None \<Rightarrow> getD t xp (Some a)) = Inr d \<and>
    y_coeffs t a i j x xp d = Inr (c, b) \<and> (0 \<le> c \<longrightarrow> near_root c (b - d) y)"
proof -
  from assms obtain a d c b where *: "A_fn now t = Inr (Some a)"
    "(case dCached of Some d \<Rightarrow> Inr d | None \<Rightarrow> getD t xp (Some a)) = Inr d"
    "y_coeffs t a i j x xp d = Inr (c, b)" "y_loop MaxLoopLimit c b d d = Inr y"
    by (rule GetY_Inr)
  then show ?thesis
    using close1.guarded_near [of c MaxLoopLimit "b - d" d y] by (auto simp: y_loop_newton)
qed

text \<open>The Newton loop of \<open>GetY\<close> is total in the range of the pools: with the invariant \<open>d\<close> in
  \<open>[1, 2 ^ 120)\<close> and coefficients \<open>0 < c \<le> d\<^sup>3\<close> and \<open>0 \<le> b\<close>, it returns a balance within one unit of
  the root before its 256 iterations are used up.\<close>

theorem curve_GetY_total:
  assumes "i \<noteq> j" and "0 \<le> i" and "i < int (length xp)" and "A_fn now t = Inr (Some a)"
    and "y_coeffs t a i j x xp d = Inr (c, b)"
    and "1 \<le> d" and "d < 2 ^ 120" and "0 < c" and "c \<le> d * d * d" and "0 \<le> b"
  shows "\<exists>y. GetY now t i j x xp (Some d) = Inr y \<and> near_root c (b - d) y"
proof -
  have "newton_step c (b - d) d < 2 ^ 241"
    using assms(6-) by (intro newton_first_step) auto
  then have "\<exists>y. newton_guarded close1 256 c (b - d) d = Inr y \<and> near_root c (b - d) y"
    using assms(6-) by (intro close1.guarded_total [where k = 241]) auto
  then show ?thesis
    using assms(1-5) by (auto simp: GetY_def y_loop_newton MaxLoopLimit_def)
qed

definition xp_ex :: "int list" where
  "xp_ex = [1000000000, 1200000000]"

lemma curve_D_ex: "getD pool_ex xp_ex (Some 150) = Inr 2199939298"
  by code_simp

lemma curve_coeffs_ex:
  "y_coeffs pool_ex 150 0 1 1001000000 xp_ex 2199939298 = Inr (8863735122683860, 1008333130)"
  by code_simp

lemma curve_A_ex: "A_fn 1500 pool_ex = Inr (Some 150)"
  by code_simp

lemma curve_GetY_ex: "GetY 1500 pool_ex 0 1 1001000000 xp_ex None = Inr 1198998781"
  by code_simp

theorem curve_GetY_near_root_witness: "near_root 8863735122683860 (- 1191606168) 1198998781"
  using curve_GetY_near_root [OF curve_GetY_ex] curve_A_ex curve_D_ex curve_coeffs_ex by simp

theorem curve_GetY_total_witness:
  "\<exists>y. GetY 1500 pool_ex 0 1 1001000000 xp_ex (Some 2199939298) = Inr y \<and>
     near_root 8863735122683860 (- 1191606168) y"
proof -
  have "\<exists>y. GetY 1500 pool_ex 0 1 1001000000 xp_ex (Some 2199939298) = Inr y \<and>
     near_root 8863735122683860 (1008333130 - 2199939298) y"
    by (rule curve_GetY_total [OF _ _ _ curve_A_ex curve_coeffs_ex]) (simp_all add: xp_ex_def)
  then show ?thesis by simp
qed

lemma s_c_loop_ignores:
  "i + int (length xp) \<le> from \<Longrightarrow> s_c_loop i from to x n d xp s c = s_c_loop i from to x' n d xp s c"
  by (induction xp arbitrary: i s c) (auto simp: Let_def cong: bnd_cong)

text \<open>When only the source index is out of range, \<open>GetY\<close> does not report an error, because its
  range check asks for both indices to be out of range: the new balance \<open>x\<close> is then ignored.\<close>

theorem curve_GetY_ignores_input:
  assumes "int (length xp) \<le> from" and "to < int (length xp)"
  shows "GetY now t from to x xp dCached = GetY now t from to x' xp dCached"
proof -
  have "s_c_loop 0 from to x n d xp s c = s_c_loop 0 from to x' n d xp s c" for n d s c
    using assms(1) by (intro s_c_loop_ignores) simp
  then have "y_coeffs t a from to x xp d = y_coeffs t a from to x' xp d" for a d
    by (simp only: y_coeffs_def)
  with assms show ?thesis by (simp add: GetY_def cong: option.case_cong)
qed

theorem curve_GetY_ignores_input_witness:
  "GetY 1500 pool_ex 2 1 5 xp_ex (Some 2199939298) = GetY 1500 pool_ex 2 1 7 xp_ex (Some 2199939298)"
  by (rule curve_GetY_ignores_input) (simp_all add: xp_ex_def)

subsection \<open>Quotes stay below the reserve\<close>

lemma d_p_loop_nonneg:
  "d_p_loop n d dP xs = Inr r \<Longrightarrow> 0 \<le> dP \<Longrightarrow> 0 \<le> d \<Longrightarrow> 0 \<le> n \<Longrightarrow> \<forall>x \<in> set xs. 0 \<le> x \<Longrightarrow> 0 \<le> r"
proof (induction xs arbitrary: dP)
  case (Cons x xs)
  then have "0 < x * n + 1" by (simp add: add_nonneg_pos)
  with Cons show ?case by (auto split: if_splits)
qed simp

lemma d_loop_nonneg:
  assumes "0 \<le> n" and "0 \<le> nA_mul_s" and "0 \<le> nA_sub" and "0 < aPrec" and "\<forall>x \<in> set xp. 0 \<le> x"
  shows "d_loop m xp n nA_mul_s nA_sub aPrec d = Inr r \<Longrightarrow> 0 \<le> d \<Longrightarrow> 0 \<le> r"
proof (induction m arbitrary: d)
  case (Suc m)
  from Suc.prems(1) obtain dP where dP: "d_p_loop n d d xp = Inr dP"
    by (auto simp: bnd_eq_Inr)
  have nn: "0 \<le> dP" using d_p_loop_nonneg [OF dP] Suc.prems(2) assms by simp
  define num den where "num = (nA_mul_s + dP * n) * d"
    and "den = nA_sub * d div aPrec + dP * (int (length xp) + 1)"
  have "0 \<le> den" "0 \<le> num"
    using assms Suc.prems(2) nn by (simp_all add: num_def den_def)
  then have "0 \<le> num div den" and "den \<noteq> 0 \<Longrightarrow> big_div num den = Inr (num div den)"
    by (simp_all add: floor_nonneg_nonneg)
  moreover have "d_loop (Suc m) xp n nA_mul_s nA_sub aPrec d =
    bnd (big_div num den) (\<lambda>d'. if \<bar>d' - d\<bar> \<le> 1 then Inr d'
                                 else d_loop m xp n nA_mul_s nA_sub aPrec d')"
    using dP assms(4) by (simp add: num_def den_def)
  ultimately show ?case
    using Suc.prems(1) Suc.IH [of "num div den"] by (cases "den = 0") (auto split: if_splits)
qed simp

lemma s_c_loop_nonneg:
  "s_c_loop i from to x n d xp s c = Inr (s', c') \<Longrightarrow> 0 \<le> c \<Longrightarrow> 0 \<le> d \<Longrightarrow> 0 < n \<Longrightarrow> 0 \<le> x \<Longrightarrow>
   \<forall>y \<in> set xp. 0 \<le> y \<Longrightarrow> 0 \<le> c'"
proof (induction xp arbitrary: i s c)
  case (Cons y ys)
  show ?case
  proof (cases "i \<noteq> from \<and> i = to")
    case True
    with Cons show ?thesis by simp
  next
    case False
    define x' where "x' = (if i = from then x else y)"
    from Cons.prems(1) False have "x' \<noteq> 0"
      by (auto simp: x'_def [symmetric] Let_def split: if_splits)
    then have "0 < x' * n" using Cons.prems by (auto simp: x'_def le_less)
    then have "s_c_loop i from to x n d (y # ys) s c =
        s_c_loop (i + 1) from to x n d ys (s + x') (c * d div (x' * n))"
      using False \<open>x' \<noteq> 0\<close> by (auto simp: Let_def x'_def)
    with Cons \<open>0 < x' * n\<close> show ?thesis by simp
  qed
qed simp

text \<open>A well-formed pool: one positive rate and a non-negative reserve per token, a positive
  precision and an amplification of at least one.\<close>

definition wf :: "int \<Rightarrow> PoolSimulator \<Rightarrow> bool" where
  "wf now t = (length (Reserves (Info t)) = length (Tokens (Info t)) \<and>
     length (Rates t) = length (Tokens (Info t)) \<and> numTokensBI t = int (length (Tokens (Info t))) \<and>
     list_all (\<lambda>r. case r of None \<Rightarrow> False | Some x \<Rightarrow> 0 \<le> x) (Reserves (Info t)) \<and>
     list_all (\<lambda>r. case r of None \<Rightarrow> False | Some x \<Rightarrow> 0 < x) (Rates t) \<and>
     (case APrecision t of None \<Rightarrow> False | Some p \<Rightarrow> 0 < p \<and>
        (case A_fn now t of Inr (Some a) \<Rightarrow> p \<le> a | _ \<Rightarrow> False)))"

lemma Precision_pos [simp]: "0 < Precision" "Precision \<noteq> 0"
  by (simp_all add: Precision_def)

lemma FeeDenominator_pos [simp]: "0 < FeeDenominator" "FeeDenominator \<noteq> 0"
  by (simp_all add: FeeDenominator_def)

lemma wf_at:
  assumes "wf now t" and "0 \<le> i" and "i < int (length (Tokens (Info t)))"
  obtains rate r where "big_at (Rates t) i = Inr rate" "big_at (Reserves (Info t)) i = Inr r"
    "0 < rate" "0 \<le> r" "scaled (Rates t) (Reserves (Info t)) i = Inr (rate * r div Precision)"
proof -
  have len: "nat i < length (Rates t)" "nat i < length (Reserves (Info t))"
    using assms by (auto simp: wf_def nat_less_iff)
  from assms(1) len obtain rate r where "Rates t ! nat i = Some rate" "0 < rate"
    "Reserves (Info t) ! nat i = Some r" "0 \<le> r"
    unfolding wf_def list_all_length by (fastforce split: option.splits)
  with len assms(2) show thesis
    by (intro that [of rate r]) (auto simp: big_at_def idx_def scaled_def)
qed

lemma xp_fn_wf:
  assumes "wf now t"
  obtains xp where "xp_fn t = Inr xp" "length xp = length (Tokens (Info t))" "\<forall>x \<in> set xp. 0 \<le> x"
    "\<And>i. 0 \<le> i \<Longrightarrow> i < int (length xp) \<Longrightarrow>
       \<exists>rate r. big_at (Rates t) i = Inr rate \<and> big_at (Reserves (Info t)) i = Inr r \<and>
         0 < rate \<and> 0 \<le> r \<and> xp ! nat i = rate * r div Precision"
proof -
  let ?n = "length (Tokens (Info t))"
  define g where "g i = (case scaled (Rates t) (Reserves (Info t)) i of Inr v \<Rightarrow> v | Inl _ \<Rightarrow> 0)" for i
  define xp where "xp = map g (range_n ?n)"
  have in_range: "0 \<le> i \<and> i < int ?n" if "i \<in> set (range_n ?n)" for i
    using that by (auto simp: range_n_def)
  have "scaled (Rates t) (Reserves (Info t)) i = Inr (g i)" if "i \<in> set (range_n ?n)" for i
    using in_range [OF that] by (auto simp: g_def elim: wf_at [OF assms])
  then have "xp_fn t = Inr xp"
    unfolding xp_fn_def xp_def by (rule go_map_Inr)
  moreover have at: "\<exists>rate r. big_at (Rates t) i = Inr rate \<and> big_at (Reserves (Info t)) i = Inr r \<and>
      0 < rate \<and> 0 \<le> r \<and> xp ! nat i = rate * r div Precision" if i0: "0 \<le> i" and i1: "i < int (length xp)" for i
  proof -
    have i: "i < int ?n" using i1 by (simp add: xp_def)
    obtain rate r where w: "big_at (Rates t) i = Inr rate" "big_at (Reserves (Info t)) i = Inr r"
      "0 < rate" "0 \<le> r" "scaled (Rates t) (Reserves (Info t)) i = Inr (rate * r div Precision)"
      by (rule wf_at [OF assms i0 i])
    have "xp ! nat i = g i" using i0 i by (simp add: xp_def nat_less_iff)
    with w show ?thesis by (auto simp: g_def)
  qed
  moreover have "0 \<le> x" if "x \<in> set xp" for x
  proof -
    from that obtain k where k: "k < length xp" "x = xp ! k" by (auto simp: in_set_conv_nth)
    from at [of "int k"] k show ?thesis by auto
  qed
  ultimately show thesis
    by (intro that [of xp]) (auto simp: xp_def)
qed

lemma GetY_nonneg:
  assumes "wf now t" and "xp_fn t = Inr xp" and "\<forall>x \<in> set xp. 0 \<le> x" and "0 \<le> x"
    and "length xp = length (Tokens (Info t))" and "xp \<noteq> []"
    and "GetY now t i j x xp None = Inr y"
  shows "0 \<le> y"
proof -
  from assms(7) obtain a d c b where g: "A_fn now t = Inr (Some a)" "getD t xp (Some a) = Inr d"
    "y_coeffs t a i j x xp d = Inr (c, b)" "y_loop MaxLoopLimit c b d d = Inr y"
    by (rule GetY_Inr) simp
  from assms(1) g(1) obtain p where p: "APrecision t = Some p" "0 < p" "p \<le> a"
    and n: "numTokensBI t = int (length (Tokens (Info t)))"
    by (auto simp: wf_def split: option.splits)
  have n1: "1 \<le> numTokensBI t" using n assms(5,6) by (cases "Tokens (Info t)") auto
  have nA: "a \<le> a * numTokensBI t" using n1 p mult_left_mono [of 1 "numTokensBI t" a] by simp
  have sum: "0 \<le> sum_list xp" using assms(3) by (simp add: sum_list_nonneg)
  have d: "0 \<le> d"
  proof (cases "sum_list xp = 0")
    case True
    with g(2) show ?thesis by (simp add: getD_def)
  next
    case False
    with g(2) p have dl: "d_loop MaxLoopLimit xp (numTokensBI t) (a * numTokensBI t * sum_list xp div p)
        (a * numTokensBI t - p) p (sum_list xp) = Inr d"
      by (simp add: getD_def Let_def)
    have m1: "0 \<le> a * numTokensBI t * sum_list xp div p"
      using n1 p sum by simp
    have m2: "0 \<le> a * numTokensBI t - p"
      using nA p(3) by linarith
    show ?thesis
      by (rule d_loop_nonneg [OF _ m1 m2 p(2) assms(3) dl sum]) (use n1 in simp)
  qed
  from g(3) p obtain s c0 where s: "s_c_loop 0 i j x (numTokensBI t) d xp 0 d = Inr (s, c0)"
    and c: "big_div (c0 * d * p) (a * numTokensBI t * numTokensBI t) = Inr c"
    by (auto simp: y_coeffs_def Let_def bnd_eq_Inr split: if_splits)
  have "0 \<le> c0" using s_c_loop_nonneg [OF s] d n1 assms(3,4) by simp
  moreover have "0 < a * numTokensBI t * numTokensBI t" using n1 p by simp
  ultimately have "0 \<le> c" using c d p by auto
  from close1.guarded_near [OF this g(4) [unfolded y_loop_newton]] show ?thesis
    by (simp add: near_root_def)
qed

lemma GetDy_Inr:
  assumes "GetDy now t i j (Some dx) dCached = Inr (dy, fee)"
  obtains xp y f ratei ratej dy0 fee0 where "xp_fn t = Inr xp" "0 \<le> i" "i < int (length xp)"
    "0 \<le> j" "j < int (length xp)" "big_at (Rates t) i = Inr ratei" "big_at (Rates t) j = Inr ratej"
    "GetY now t i j (xp ! nat i + dx * ratei div Precision) xp dCached = Inr y"
    "dy0 = xp ! nat j - y - 1" "fee0 = f * dy0 div FeeDenominator"
    "big_div ((dy0 - fee0) * Precision) ratej = Inr dy" "big_div (fee0 * Precision) ratej = Inr fee"
  using assms unfolding GetDy_def Let_def
  by (auto simp: bnd_eq_Inr idx_eq_Inr)

text \<open>C39: in a well-formed Curve base pool a quote and its fee together stay below the reserve of
  the token paid out, and the two are worth no more than the difference between the scaled balance
  and the solved one.\<close>

theorem curve_quote_below_reserve:
  assumes "wf now t" and "Amount (TokenAmountIn q) = Some dx" and "0 < dx"
    and "CalcAmountOut now t q = Inr r"
  shows "\<exists>dy fee reserve. TokenAmountOut r = Some (token_amount (TokenOut q) (Some dy)) \<and>
    Fee r = Some (token_amount (TokenOut q) (Some fee)) \<and> 0 < dy \<and>
    big_at (Reserves (Info t)) (GetTokenIndex t (TokenOut q)) = Inr reserve \<and> dy + fee < reserve"
proof -
  define i j where "i = GetTokenIndex t (Token (TokenAmountIn q))" and "j = GetTokenIndex t (TokenOut q)"
  from assms(2,4) obtain dy fee where res: "0 < dy" "GetDy now t i j (Some dx) None = Inr (dy, fee)"
    "TokenAmountOut r = Some (token_amount (TokenOut q) (Some dy))"
    "Fee r = Some (token_amount (TokenOut q) (Some fee))"
    by (auto simp: CalcAmountOut_def GetTokenIndex_def Let_def bnd_eq_Inr i_def j_def split: if_splits)
  from res(2) obtain xp y f ratei ratej dy0 fee0 where g: "xp_fn t = Inr xp" "0 \<le> i"
    "i < int (length xp)" "0 \<le> j" "j < int (length xp)" "big_at (Rates t) i = Inr ratei"
    "big_at (Rates t) j = Inr ratej"
    "GetY now t i j (xp ! nat i + dx * ratei div Precision) xp None = Inr y"
    "dy0 = xp ! nat j - y - 1" "fee0 = f * dy0 div FeeDenominator"
    "big_div ((dy0 - fee0) * Precision) ratej = Inr dy" "big_div (fee0 * Precision) ratej = Inr fee"
    by (rule GetDy_Inr)
  obtain xp' where x: "xp_fn t = Inr xp'" "length xp' = length (Tokens (Info t))"
    "\<forall>x \<in> set xp'. 0 \<le> x" "\<And>i. 0 \<le> i \<Longrightarrow> i < int (length xp') \<Longrightarrow>
       \<exists>rate r. big_at (Rates t) i = Inr rate \<and> big_at (Reserves (Info t)) i = Inr r \<and>
         0 < rate \<and> 0 \<le> r \<and> xp' ! nat i = rate * r div Precision"
    by (rule xp_fn_wf [OF assms(1)]) blast
  have eq: "xp' = xp" using x(1) g(1) by simp
  note xp = x(2,3) [unfolded eq] and at = x(4) [unfolded eq]
  from at [OF g(4,5)] g(7) obtain reserve where rj: "big_at (Reserves (Info t)) j = Inr reserve"
    "0 < ratej" "xp ! nat j = ratej * reserve div Precision"
    by auto
  have "0 \<le> xp ! nat i + dx * ratei div Precision"
    using at [OF g(2,3)] g(6) assms(3) by auto
  moreover have "xp \<noteq> []" using g(2,3) by auto
  ultimately have y: "0 \<le> y" using GetY_nonneg [OF assms(1) g(1) xp(2) _ xp(1) _ g(8)] by blast
  have "dy * ratej \<le> (dy0 - fee0) * Precision" "fee * ratej \<le> fee0 * Precision"
    using g(11,12) rj(2) by (auto intro: floor_le)
  then have "(dy + fee) * ratej \<le> dy0 * Precision" by (simp add: algebra_simps)
  also have "\<dots> < xp ! nat j * Precision" using y g(9) by simp
  also have "\<dots> \<le> ratej * reserve" unfolding rj(3) by (rule floor_le) simp
  finally have "(dy + fee) * ratej < reserve * ratej" by (simp add: mult.commute)
  then have "dy + fee < reserve" using rj(2) by simp
  with res rj(1) show ?thesis by (auto simp: j_def)
qed

definition request_ex :: "unit CalcAmountOutParams" where
  "request_ex = \<lparr>TokenAmountIn = token_amount ''a'' (Some 1000000), TokenOut = ''b'', Limit = None\<rparr>"

theorem curve_quote_below_reserve_witness:
  "\<exists>r. CalcAmountOut 1500 pool_ex request_ex = Inr r \<and>
     TokenAmountOut r = Some (token_amount ''b'' (Some 1000818)) \<and> 1000818 + 400 < (1200000000::int)"
proof -
  define r where "r = \<lparr>TokenAmountOut = Some (token_amount ''b'' (Some 1000818)),
    Fee = Some (token_amount ''b'' (Some 400)), RemainingTokenAmountIn = None, Gas = 128000,
    SwapInfo = (None :: unit option)\<rparr>"
  have r: "CalcAmountOut 1500 pool_ex request_ex = Inr r"
    unfolding r_def by code_simp
  have "wf 1500 pool_ex" by code_simp
  from curve_quote_below_reserve [OF this _ _ r, of 1000000]
  have "(1000818::int) + 400 < 1200000000"
    by (auto simp: r_def request_ex_def token_amount_def pool_ex_def GetTokenIndex_def
        PoolInfo_GetTokenIndex_def)
  with r show ?thesis by (auto simp: r_def)
qed

text \<open>The Curve base constructor accepts an entity with one reserve per token and no LP supply
  entry after them, and then panics when it reads that entry.\<close>

theorem curve_constructor_panics:
  assumes "json_StaticExtra (StaticExtra_e e) = Inr se" and "json_Extra (Extra_e e) = Inr ex"
    and "length (Reserves_e e) = length (Tokens_e e)"
    and "length (PrecisionMultipliers se) = length (Tokens_e e)"
    and "length (Rates_s se) = length (Tokens_e e)"
  shows "NewPoolSimulator json_StaticExtra json_Extra e = Inl (Panic IndexOutOfRange)"
proof -
  let ?n = "length (Tokens_e e)"
  have "go_map (\<lambda>i. bnd (idx (Tokens_e e) i) (\<lambda>t. bnd (idx (Reserves_e e) i) (\<lambda>r.
            bnd (idx (PrecisionMultipliers se) i) (\<lambda>m. bnd (idx (Rates_s se) i) (\<lambda>rate.
            Inr (TokenAddress t, NewBig10 r, NewBig10 m, NewBig10 rate)))))) (range_n ?n) =
    Inr (map (\<lambda>i. (TokenAddress (Tokens_e e ! nat i), NewBig10 (Reserves_e e ! nat i),
       NewBig10 (PrecisionMultipliers se ! nat i), NewBig10 (Rates_s se ! nat i))) (range_n ?n))"
    using assms(3-) by (intro go_map_Inr) (auto simp: range_n_def)
  with assms show ?thesis by (simp add: NewPoolSimulator_def Let_def idx_def)
qed

definition entity_ex :: EntityPool where
  "entity_ex = \<lparr>Address_e = ''0x1'', ReserveUsd = (0, 0), AmplifiedTvl = (0, 0), SwapFee_e = (0, 0),
     Exchange_e = ''curve'', Type_e = ''curve-base'', Timestamp = 0, Reserves_e = [''10'', ''20''],
     Tokens_e = [\<lparr>TokenAddress = ''a'', Symbol = ''A'', Decimals = 18, Swappable = True\<rparr>,
                 \<lparr>TokenAddress = ''b'', Symbol = ''B'', Decimals = 18, Swappable = True\<rparr>],
     Extra_e = [], StaticExtra_e = [], TotalSupply = ''0'', BlockNumber_e = 1\<rparr>"

definition static_ex :: PoolBaseStaticExtra where
  "static_ex = \<lparr>LpToken_s = ''lp'', APrecision_s = ''1'', PrecisionMultipliers = [''1'', ''1''],
     Rates_s = [''1'', ''1'']\<rparr>"

definition extra_ex :: PoolBaseExtra where
  "extra_ex = \<lparr>InitialA_x = ''1'', FutureA_x = ''1'', InitialATime_x = 0, FutureATime_x = 0,
     SwapFee_x = ''1'', AdminFee_x = ''1''\<rparr>"

theorem curve_constructor_panics_witness:
  "NewPoolSimulator (\<lambda>_. Inr static_ex) (\<lambda>_. Inr extra_ex) entity_ex = Inl (Panic IndexOutOfRange)"
  by (rule curve_constructor_panics [where se = static_ex and ex = extra_ex])
     (simp_all add: entity_ex_def static_ex_def)

end
