(* ===== verification/Swaplimit.thy ===== *)
theory Swaplimit
  imports Bignumber
begin

text \<open>
  The package \<open>pkg/swaplimit\<close>: limits shared by the pools of one exchange.  What matters here is
  aliasing, on two levels: a Go map is a reference, and its values are pointers to numbers.  The
  model has an explicit heap with both kinds of cells: a pointer to a number is an index into
  \<open>numbers\<close>, a map an index into \<open>tables\<close> (\<open>None\<close> is nil).  \<open>new(big.Int)\<close> and \<open>maps.Clone\<close> append a
  cell, so a clone that kept the reference would see every write to the original.  An operation returns
  the heap, the two returned numbers and the error (\<open>None\<close> for nil), because
  \<open>SwappedInventory.UpdateLimit\<close> changes state also when it fails.

  The locale \<open>isolated_limit\<close> is the promise of \<open>SwapLimit.Clone\<close>: updating the original does not
  affect the clone.  \<open>Inventory\<close> and \<open>InventoryWithAllowedSenders\<close> keep it; \<open>SwappedInventory\<close> does
  not (\<open>swapped_clone_aliased\<close>).
\<close>

type_synonym ptr = "nat option"
type_synonym map_ref = "nat option"

record heap =
  numbers :: "int list"
  tables :: "(string \<rightharpoonup> ptr) list"

definition read_cell :: "heap \<Rightarrow> ptr \<Rightarrow> int go" where
  "read_cell h p = bnd (deref p) (\<lambda>a. idx (numbers h) (int a))"

definition alloc :: "heap \<Rightarrow> int \<Rightarrow> heap \<times> nat" where
  "alloc h v = (h\<lparr>numbers := numbers h @ [v]\<rparr>, length (numbers h))"

text \<open>The entries of a map; the nil map has none, and writing to it panics.\<close>

definition entries :: "heap \<Rightarrow> map_ref \<Rightarrow> (string \<rightharpoonup> ptr)" where
  "entries h r = (case r of None \<Rightarrow> Map.empty | Some m \<Rightarrow> if m < length (tables h) then tables h ! m else Map.empty)"

definition put :: "heap \<Rightarrow> map_ref \<Rightarrow> string \<Rightarrow> ptr \<Rightarrow> heap go" where
  "put h r k p =
     (case r of
        None \<Rightarrow> Inl (Panic (PanicMessage ''assignment to entry in nil map''))
      | Some m \<Rightarrow>
          bnd (idx (tables h) (int m)) (\<lambda>t. bnd (upd (tables h) (int m) (t(k \<mapsto> p))) (\<lambda>ts. Inr (h\<lparr>tables := ts\<rparr>))))"

definition make_map :: "heap \<Rightarrow> (string \<rightharpoonup> ptr) \<Rightarrow> heap \<times> map_ref" where
  "make_map h t = (h\<lparr>tables := tables h @ [t]\<rparr>, Some (length (tables h)))"

definition maps_Clone :: "heap \<Rightarrow> map_ref \<Rightarrow> heap \<times> map_ref" where
  "maps_Clone h r = (case r of None \<Rightarrow> (h, None) | Some m \<Rightarrow> make_map h (entries h r))"

record Inventory =
  exchange :: string
  balance :: map_ref

definition NewInventory :: "string \<Rightarrow> map_ref \<Rightarrow> Inventory" where
  "NewInventory ex bal = \<lparr>exchange = ex, balance = bal\<rparr>"

definition Inventory_Clone :: "heap \<Rightarrow> Inventory \<Rightarrow> heap \<times> Inventory" where
  "Inventory_Clone h i = (let (h, m) = maps_Clone h (balance i) in (h, \<lparr>exchange = exchange i, balance = m\<rparr>))"

definition GetExchange :: "'a Inventory_scheme \<Rightarrow> string" where
  "GetExchange i = exchange i"

definition GetLimit :: "heap \<Rightarrow> 'a Inventory_scheme \<Rightarrow> string \<Rightarrow> ptr" where
  "GetLimit h i tokenAddress = (case entries h (balance i) tokenAddress of None \<Rightarrow> None | Some p \<Rightarrow> p)"

definition CheckLimit :: "heap \<Rightarrow> 'a Inventory_scheme \<Rightarrow> string \<Rightarrow> ptr \<Rightarrow> unit go" where
  "CheckLimit h i tokenAddress amount =
     (case entries h (balance i) tokenAddress of
        None \<Rightarrow> Inl (Err ''ErrTokenNotAvailable'')
      | Some p \<Rightarrow> bnd (read_cell h p) (\<lambda>b. bnd (read_cell h amount) (\<lambda>a.
          if b < a then Inl (Err ''ErrNotEnoughInventory'') else Inr ())))"

type_synonym limit_return = "int \<times> int \<times> string option"
type_synonym limit_result = "heap \<times> limit_return"

definition updateLimit ::
    "heap \<Rightarrow> 'a Inventory_scheme \<Rightarrow> string \<Rightarrow> string \<Rightarrow> ptr \<Rightarrow> ptr \<Rightarrow> limit_result go" where
  "updateLimit h i decreaseTokenAddress increaseTokenAddress decreaseDelta increaseDelta =
     (case entries h (balance i) decreaseTokenAddress of
        None \<Rightarrow> Inr (h, 0, 0, Some ''ErrTokenNotAvailable'')
      | Some p \<Rightarrow>
          bnd (read_cell h p) (\<lambda>b. bnd (read_cell h decreaseDelta) (\<lambda>dd.
          if b < dd then Inr (h, 0, 0, Some ''ErrNotEnoughInventory'')
          else
            let (h, a) = alloc h (b - dd) in
            bnd (put h (balance i) decreaseTokenAddress (Some a)) (\<lambda>h.
            bnd (case entries h (balance i) increaseTokenAddress of
                   None \<Rightarrow> read_cell h increaseDelta
                 | Some q \<Rightarrow> bnd (read_cell h q) (\<lambda>x. bnd (read_cell h increaseDelta) (\<lambda>y. Inr (x + y))))
            (\<lambda>v.
            let (h, a) = alloc h v in
            bnd (put h (balance i) increaseTokenAddress (Some a)) (\<lambda>h. Inr (h, b - dd, v, None)))))))"

definition UpdateLimit ::
    "heap \<Rightarrow> Inventory \<Rightarrow> string \<Rightarrow> string \<Rightarrow> ptr \<Rightarrow> ptr \<Rightarrow> limit_result go" where
  "UpdateLimit h i decreaseTokenAddress increaseTokenAddress decreaseDelta increaseDelta =
     updateLimit h i decreaseTokenAddress increaseTokenAddress decreaseDelta increaseDelta"

subsection \<open>Inventory with allowed senders\<close>

record InventoryWithAllowedSenders = Inventory +
  AllowedSenders :: string

definition NewInventoryWithAllowedSenders :: "string \<Rightarrow> map_ref \<Rightarrow> string \<Rightarrow> InventoryWithAllowedSenders" where
  "NewInventoryWithAllowedSenders ex bal allowedSenders =
     \<lparr>exchange = ex, balance = bal, AllowedSenders = allowedSenders\<rparr>"

definition GetAllowedSenders :: "InventoryWithAllowedSenders \<Rightarrow> string" where
  "GetAllowedSenders i = AllowedSenders i"

definition AllowedSenders_UpdateLimit ::
    "heap \<Rightarrow> InventoryWithAllowedSenders \<Rightarrow> string \<Rightarrow> string \<Rightarrow> ptr \<Rightarrow> ptr \<Rightarrow> limit_result go" where
  "AllowedSenders_UpdateLimit h i decreaseTokenAddress increaseTokenAddress decreaseDelta increaseDelta =
     updateLimit h i decreaseTokenAddress increaseTokenAddress decreaseDelta increaseDelta"

definition AllowedSenders_Clone ::
    "heap \<Rightarrow> InventoryWithAllowedSenders \<Rightarrow> heap \<times> InventoryWithAllowedSenders" where
  "AllowedSenders_Clone h i =
     (let (h, m) = maps_Clone h (balance i) in
      (h, \<lparr>exchange = exchange i, balance = m, AllowedSenders = AllowedSenders i\<rparr>))"

subsection \<open>Swapped inventory\<close>

record SwappedInventory = Inventory +
  swapped :: map_ref

definition NewSwappedInventory :: "heap \<Rightarrow> string \<Rightarrow> map_ref \<Rightarrow> heap \<times> SwappedInventory" where
  "NewSwappedInventory h ex bal =
     (let (h, m) = make_map h Map.empty in (h, \<lparr>exchange = ex, balance = bal, swapped = m\<rparr>))"

definition GetSwapped :: "heap \<Rightarrow> SwappedInventory \<Rightarrow> heap \<times> map_ref" where
  "GetSwapped h k = maps_Clone h (swapped k)"

text \<open>\<open>swappedIn.Add(swappedIn, increaseDelta)\<close> writes the number in place.\<close>

definition Swapped_UpdateLimit ::
    "heap \<Rightarrow> SwappedInventory \<Rightarrow> string \<Rightarrow> string \<Rightarrow> ptr \<Rightarrow> ptr \<Rightarrow> limit_result go" where
  "Swapped_UpdateLimit h k decreaseTokenAddress increaseTokenAddress decreaseDelta increaseDelta =
     (let (h, swappedIn) = (case entries h (swapped k) increaseTokenAddress of
                              None \<Rightarrow> (case alloc h 0 of (h', a) \<Rightarrow> (h', Some a))
                            | Some p \<Rightarrow> (h, p)) in
      bnd (deref swappedIn) (\<lambda>a.
      bnd (read_cell h swappedIn) (\<lambda>s.
      bnd (read_cell h increaseDelta) (\<lambda>d.
      bnd (upd (numbers h) (int a) (s + d)) (\<lambda>ns.
      bnd (put (h\<lparr>numbers := ns\<rparr>) (swapped k) increaseTokenAddress swappedIn) (\<lambda>h.
      updateLimit h k decreaseTokenAddress increaseTokenAddress decreaseDelta increaseDelta))))))"

definition Swapped_Clone :: "heap \<Rightarrow> SwappedInventory \<Rightarrow> heap \<times> SwappedInventory" where
  "Swapped_Clone h k =
     (let (h, b) = maps_Clone h (balance k); (h, s) = maps_Clone h (swapped k) in
      (h, \<lparr>exchange = exchange k, balance = b, swapped = s\<rparr>))"

subsection \<open>Single swap\<close>

text \<open>The \<open>atomic.Bool\<close> is created with its limit and never shared, so its value is a field.\<close>

record SingleSwapLimit =
  single_exchange :: string
  single_swapped :: bool

definition NewSingleSwapLimit :: "string \<Rightarrow> SingleSwapLimit" where
  "NewSingleSwapLimit ex = \<lparr>single_exchange = ex, single_swapped = False\<rparr>"

definition Single_Clone :: "SingleSwapLimit \<Rightarrow> SingleSwapLimit" where
  "Single_Clone l =
     (let cloned = NewSingleSwapLimit (single_exchange l) in
      if single_swapped l then cloned\<lparr>single_swapped := True\<rparr> else cloned)"

definition Single_GetLimit :: "SingleSwapLimit \<Rightarrow> bigint" where
  "Single_GetLimit l = (if single_swapped l then Some 0 else None)"

definition Single_UpdateLimit :: "SingleSwapLimit \<Rightarrow> SingleSwapLimit" where
  "Single_UpdateLimit l = l\<lparr>single_swapped := True\<rparr>"

lemma Single_Clone_same: "Single_Clone l = l"
  by (cases l) (simp add: Single_Clone_def NewSingleSwapLimit_def Let_def)

subsection \<open>What a limit shows\<close>

definition cell :: "heap \<Rightarrow> ptr \<Rightarrow> int option" where
  "cell h p = (case p of None \<Rightarrow> None | Some a \<Rightarrow> if a < length (numbers h) then Some (numbers h ! a) else None)"

definition limit_of :: "heap \<Rightarrow> 'a Inventory_scheme \<Rightarrow> string \<Rightarrow> int option" where
  "limit_of h i k = cell h (GetLimit h i k)"

definition allocated :: "heap \<Rightarrow> 'a Inventory_scheme \<Rightarrow> bool" where
  "allocated h i =
     ((\<forall>m. balance i = Some m \<longrightarrow> m < length (tables h)) \<and>
      (\<forall>k p. entries h (balance i) k = Some p \<longrightarrow> (\<exists>a. p = Some a \<and> a < length (numbers h))))"

lemma read_cell_Inr: "(read_cell h p = Inr v) = (cell h p = Some v)"
  by (auto simp: read_cell_def cell_def idx_def split: option.splits)

lemma entries_numbers [simp]: "entries (h\<lparr>numbers := ns\<rparr>) r = entries h r"
  by (simp add: entries_def split: option.split)

lemma cell_tables [simp]: "cell (h\<lparr>tables := ts\<rparr>) p = cell h p"
  by (simp add: cell_def split: option.split)

lemma cell_append: "cell h p = Some v \<Longrightarrow> cell (h\<lparr>numbers := numbers h @ xs\<rparr>) p = Some v"
  by (auto simp: cell_def nth_append split: option.splits if_splits)

lemma allocated_entry:
  assumes "allocated h i" and "entries h (balance i) k = Some p"
  obtains a m where "p = Some a" "a < length (numbers h)" "balance i = Some m" "m < length (tables h)"
    "tables h ! m = entries h (balance i)"
proof -
  from assms obtain a where a: "p = Some a" "a < length (numbers h)"
    unfolding allocated_def by blast
  from assms obtain m where "balance i = Some m" "m < length (tables h)"
    by (cases "balance i") (auto simp: allocated_def entries_def)
  with a that show thesis by (simp add: entries_def)
qed

lemma limit_of_allocated:
  assumes "allocated h i"
  shows "limit_of h i k = (case entries h (balance i) k of None \<Rightarrow> None | Some p \<Rightarrow> cell h p)"
    and "(limit_of h i k = None) = (entries h (balance i) k = None)"
  using assms by (fastforce simp: limit_of_def GetLimit_def cell_def allocated_def split: option.splits)+

text \<open>What a heap keeps for an inventory: its map and the numbers the map points to.\<close>

lemma kept_inventory:
  assumes "allocated h c" and "entries h' (balance c) = entries h (balance c)"
    and "length (tables h) \<le> length (tables h')" and "numbers h' = numbers h @ xs"
  shows "allocated h' c \<and> limit_of h' c = limit_of h c"
proof -
  have c: "cell h' p = cell h p" if "entries h (balance c) k = Some p" for k p
    using assms(1,4) that by (fastforce simp: allocated_def cell_def nth_append)
  have "allocated h' c"
    using assms by (fastforce simp: allocated_def)
  moreover have "limit_of h' c k = limit_of h c k" for k
    using c by (auto simp: limit_of_allocated(1) [OF calculation] limit_of_allocated(1) [OF assms(1)] assms(2)
        split: option.split)
  ultimately show ?thesis by auto
qed

lemma kept_numbers: "allocated h i \<Longrightarrow> allocated (h\<lparr>numbers := numbers h @ xs\<rparr>) i \<and>
    limit_of (h\<lparr>numbers := numbers h @ xs\<rparr>) i = limit_of h i"
  by (rule kept_inventory) simp_all

text \<open>The heap after an update that succeeds.\<close>

definition updated_heap :: "heap \<Rightarrow> nat \<Rightarrow> string \<Rightarrow> string \<Rightarrow> int \<Rightarrow> int \<Rightarrow> heap" where
  "updated_heap h m dec inc x y =
     h\<lparr>numbers := numbers h @ [x, y],
       tables := (tables h)[m := (tables h ! m)
         (dec \<mapsto> Some (length (numbers h)), inc \<mapsto> Some (Suc (length (numbers h))))]\<rparr>"

text \<open>The behaviour of \<open>updateLimit\<close> on every branch, for deltas that are allocated.\<close>

lemma updateLimit_cases:
  assumes "allocated h i" and "cell h pd = Some dd" and "cell h pi = Some di"
  shows "updateLimit h i dec inc pd pi =
    (case limit_of h i dec of
       None \<Rightarrow> Inr (h, 0, 0, Some ''ErrTokenNotAvailable'')
     | Some b \<Rightarrow>
         if b < dd then Inr (h, 0, 0, Some ''ErrNotEnoughInventory'')
         else
           let v = (if inc = dec then b - dd + di
                    else case limit_of h i inc of None \<Rightarrow> di | Some x \<Rightarrow> x + di) in
           Inr (updated_heap h (the (balance i)) dec inc (b - dd) v, b - dd, v, None))"
proof (cases "entries h (balance i) dec")
  case None
  then show ?thesis
    using limit_of_allocated(2) [OF assms(1), of dec] by (simp add: updateLimit_def)
next
  case (Some p)
  obtain a m where a: "p = Some a" "a < length (numbers h)" "balance i = Some m" "m < length (tables h)"
    "tables h ! m = entries h (balance i)"
    using assms(1) Some by (rule allocated_entry)
  have b: "read_cell h p = Inr (numbers h ! a)" "limit_of h i dec = Some (numbers h ! a)"
    using Some a by (simp_all add: read_cell_Inr cell_def limit_of_allocated(1) [OF assms(1)])
  define h1 where "h1 x = h\<lparr>numbers := numbers h @ [x],
      tables := (tables h)[m := (tables h ! m)(dec \<mapsto> Some (length (numbers h)))]\<rparr>" for x
  have put1: "put (h\<lparr>numbers := numbers h @ [x]\<rparr>) (balance i) dec (Some (length (numbers h))) = Inr (h1 x)" for x
    using a by (simp add: put_def h1_def)
  have ent1: "entries (h1 x) (balance i) = (entries h (balance i))(dec \<mapsto> Some (length (numbers h)))" for x
    using a by (simp add: h1_def entries_def)
  have deltas: "read_cell h pd = Inr dd" "read_cell (h1 x) pi = Inr di" for x
    using assms(2,3) cell_append [of h pi di "[x]"] by (simp_all add: read_cell_Inr h1_def)
  have put2: "put (h1 x\<lparr>numbers := numbers (h1 x) @ [y]\<rparr>) (balance i) inc (Some (length (numbers (h1 x)))) =
      Inr (updated_heap h m dec inc x y)" for x y
    using a by (simp add: put_def h1_def updated_heap_def)
  have inc: "(case entries (h1 x) (balance i) inc of
          None \<Rightarrow> read_cell (h1 x) pi
        | Some q \<Rightarrow> bnd (read_cell (h1 x) q) (\<lambda>y. bnd (read_cell (h1 x) pi) (\<lambda>z. Inr (y + z)))) =
      Inr (if inc = dec then x + di
           else case limit_of h i inc of None \<Rightarrow> di | Some y \<Rightarrow> y + di)" for x
  proof (cases "inc = dec")
    case True
    moreover have "read_cell (h1 x) (Some (length (numbers h))) = Inr x"
      by (simp add: read_cell_def h1_def)
    ultimately show ?thesis by (simp add: ent1 deltas)
  next
    case False
    show ?thesis
    proof (cases "entries h (balance i) inc")
      case None
      with False limit_of_allocated(2) [OF assms(1), of inc] show ?thesis by (simp add: ent1 deltas)
    next
      case (Some q)
      with assms(1) obtain a' where "q = Some a'" "a' < length (numbers h)"
        by (rule allocated_entry)
      then have "read_cell (h1 x) q = Inr (numbers h ! a')" "limit_of h i inc = Some (numbers h ! a')"
        using Some by (simp_all add: read_cell_def limit_of_allocated(1) [OF assms(1)] cell_def nth_append h1_def)
      with Some False show ?thesis by (simp add: ent1 deltas)
    qed
  qed
  have len: "length (numbers (h1 x)) = Suc (length (numbers h))" for x
    by (simp add: h1_def)
  show ?thesis
    using Some b deltas(1) inc [of "numbers h ! a - dd"] put1 put2 a(3)
    by (simp add: updateLimit_def alloc_def Let_def)
qed

subsection \<open>Isolation of clones\<close>

type_synonym limit_args = "string \<times> string \<times> ptr \<times> ptr"

fun run_updates ::
    "(heap \<Rightarrow> 's \<Rightarrow> limit_args \<Rightarrow> limit_result go) \<Rightarrow> heap \<Rightarrow> 's \<Rightarrow> limit_args list \<Rightarrow> heap go" where
  "run_updates update h s [] = Inr h"
| "run_updates update h s (a # as) = bnd (update h s a) (\<lambda>(h', _). run_updates update h' s as)"

locale isolated_limit =
  fixes clone :: "heap \<Rightarrow> 's \<Rightarrow> heap \<times> 's"
    and update :: "heap \<Rightarrow> 's \<Rightarrow> limit_args \<Rightarrow> limit_result go"
    and view :: "heap \<Rightarrow> 's \<Rightarrow> string \<Rightarrow> int option"
    and ok :: "heap \<Rightarrow> 's \<Rightarrow> bool"
    and apart :: "'s \<Rightarrow> 's \<Rightarrow> bool"
  assumes clone_new: "ok h s \<Longrightarrow> clone h s = (h', c) \<Longrightarrow>
      ok h' s \<and> ok h' c \<and> view h' s = view h s \<and> view h' c = view h s \<and> apart s c \<and> apart c s"
    and frame: "ok h s \<Longrightarrow> ok h c \<Longrightarrow> apart s c \<Longrightarrow> update h s a = Inr (h', res) \<Longrightarrow>
      ok h' s \<and> ok h' c \<and> view h' c = view h c"
begin

lemma run_frame:
  "ok h s \<Longrightarrow> ok h c \<Longrightarrow> apart s c \<Longrightarrow> run_updates update h s as = Inr h' \<Longrightarrow>
   ok h' s \<and> ok h' c \<and> view h' c = view h c"
proof (induction as arbitrary: h)
  case (Cons a as)
  then obtain h1 res where step: "update h s a = Inr (h1, res)"
    and rest: "run_updates update h1 s as = Inr h'"
    by (auto simp: bnd_eq_Inr)
  from frame [OF Cons.prems(1-3) step] have "ok h1 s" "ok h1 c" "view h1 c = view h c" by auto
  with Cons.IH [OF _ _ Cons.prems(3) rest] show ?case by auto
qed simp

text \<open>In both directions: updates of the original leave the clone alone, and those of the clone the original.\<close>

lemma clone_isolated:
  assumes "ok h s" and "clone h s = (h1, c)"
  shows "run_updates update h1 s as = Inr h2 \<Longrightarrow> view h2 c = view h s"
    and "run_updates update h1 c as = Inr h2 \<Longrightarrow> view h2 s = view h s"
  using run_frame clone_new [OF assms] by metis+

end

text \<open>Two objects with different maps (or none).\<close>

definition apart_maps :: "'a Inventory_scheme \<Rightarrow> 'a Inventory_scheme \<Rightarrow> bool" where
  "apart_maps s c = (balance s \<noteq> balance c \<or> balance s = None)"

lemma updateLimit_cases_any:
  assumes "updateLimit h i dec inc pd pi = Inr (h', res)" and "allocated h i"
  shows "h' = h \<or> (\<exists>m x y. balance i = Some m \<and> m < length (tables h) \<and> h' = updated_heap h m dec inc x y)"
proof (cases "entries h (balance i) dec")
  case None
  with assms show ?thesis by (simp add: updateLimit_def)
next
  case (Some p)
  obtain m where m: "balance i = Some m" "m < length (tables h)"
    using assms(2) Some by (rule allocated_entry)
  with assms(1) Some show ?thesis
    by (auto simp: updateLimit_def alloc_def Let_def put_def updated_heap_def go_simps split: if_splits)
qed

lemma updated_heap_simps [simp]:
  "numbers (updated_heap h m dec inc x y) = numbers h @ [x, y]"
  "length (tables (updated_heap h m dec inc x y)) = length (tables h)"
  by (simp_all add: updated_heap_def)

lemma updated_entries:
  "r \<noteq> Some m \<Longrightarrow> entries (updated_heap h m dec inc x y) r = entries h r"
  "m < length (tables h) \<Longrightarrow> entries (updated_heap h m dec inc x y) (Some m) =
     (entries h (Some m))(dec \<mapsto> Some (length (numbers h)), inc \<mapsto> Some (Suc (length (numbers h))))"
  by (auto simp: entries_def updated_heap_def split: option.split)

lemma updated_allocated:
  assumes "allocated h i" and "balance i = Some m" and "m < length (tables h)"
  shows "allocated (updated_heap h m dec inc x y) i"
  using assms by (fastforce simp: allocated_def updated_entries(2))

lemma updateLimit_frame:
  assumes "allocated h i" and "allocated h c" and "apart_maps i c" and "updateLimit h i dec inc pd pi = Inr (h', res)"
  shows "allocated h' i \<and> allocated h' c \<and> limit_of h' c = limit_of h c"
  using updateLimit_cases_any [OF assms(4,1)]
proof (elim disjE exE conjE)
  fix m x y
  assume m: "balance i = Some m" "m < length (tables h)" "h' = updated_heap h m dec inc x y"
  with assms(3) have "balance c \<noteq> Some m"
    by (auto simp: apart_maps_def)
  with assms(1,2) m show ?thesis
    using kept_inventory [of h c h' "[x, y]"] by (simp add: updated_entries updated_allocated)
qed (use assms in simp)

lemma maps_Clone_fresh:
  assumes "maps_Clone h (balance i) = (h', r)" and "allocated h i"
  shows "numbers h' = numbers h" "length (tables h) \<le> length (tables h')" "entries h' (balance i) = entries h (balance i)"
    and "entries h' r = entries h (balance i)" "\<And>m. r = Some m \<Longrightarrow> m < length (tables h')"
    and "r \<noteq> balance i \<or> balance i = None" "balance i \<noteq> r \<or> r = None"
  using assms by (auto simp: maps_Clone_def make_map_def entries_def allocated_def nth_append split: option.splits)

lemma clone_inventory:
  assumes "maps_Clone h (balance i) = (h', r)" and "allocated h i" and "balance c = r"
  shows "allocated h' i \<and> allocated h' c \<and> limit_of h' i = limit_of h i \<and> limit_of h' c = limit_of h i \<and>
    apart_maps i c \<and> apart_maps c i"
proof -
  note f = maps_Clone_fresh [OF assms(1,2)]
  have i: "allocated h' i \<and> limit_of h' i = limit_of h i"
    using f by (intro kept_inventory [OF assms(2), of _ "[]"]) simp_all
  moreover have "allocated h' c"
    using assms(2,3) f(1,4,5) by (auto simp: allocated_def)
  moreover have "limit_of h' c = limit_of h' i"
    using f(3,4) assms(3) by (simp add: limit_of_def GetLimit_def fun_eq_iff)
  ultimately show ?thesis
    using f(6,7) assms(3) by (auto simp: apart_maps_def)
qed

interpretation inventory: isolated_limit Inventory_Clone
    "\<lambda>h i (dec, inc, pd, pi). UpdateLimit h i dec inc pd pi" limit_of allocated apart_maps
proof
  fix h h' and s c :: Inventory
  assume "allocated h s" "Inventory_Clone h s = (h', c)"
  then show "allocated h' s \<and> allocated h' c \<and> limit_of h' s = limit_of h s \<and> limit_of h' c = limit_of h s \<and>
      apart_maps s c \<and> apart_maps c s"
    using clone_inventory [of h s h' "balance c" c] by (auto simp: Inventory_Clone_def Let_def split: prod.splits)
next
  fix h h' and s c :: Inventory and a res
  assume ok: "allocated h s" "allocated h c" "apart_maps s c"
    and run: "(case a of (dec, inc, pd, pi) \<Rightarrow> UpdateLimit h s dec inc pd pi) = Inr (h', res)"
  obtain dec inc pd pi where "updateLimit h s dec inc pd pi = Inr (h', res)"
    using run by (cases a) (simp add: UpdateLimit_def)
  with ok show "allocated h' s \<and> allocated h' c \<and> limit_of h' c = limit_of h c"
    by (rule updateLimit_frame)
qed

interpretation allowed_senders: isolated_limit AllowedSenders_Clone
    "\<lambda>h i (dec, inc, pd, pi). AllowedSenders_UpdateLimit h i dec inc pd pi" limit_of allocated apart_maps
proof
  fix h h' and s c :: InventoryWithAllowedSenders
  assume "allocated h s" "AllowedSenders_Clone h s = (h', c)"
  then show "allocated h' s \<and> allocated h' c \<and> limit_of h' s = limit_of h s \<and> limit_of h' c = limit_of h s \<and>
      apart_maps s c \<and> apart_maps c s"
    using clone_inventory [of h s h' "balance c" c] by (auto simp: AllowedSenders_Clone_def Let_def split: prod.splits)
next
  fix h h' and s c :: InventoryWithAllowedSenders and a res
  assume ok: "allocated h s" "allocated h c" "apart_maps s c"
    and run: "(case a of (dec, inc, pd, pi) \<Rightarrow> AllowedSenders_UpdateLimit h s dec inc pd pi) = Inr (h', res)"
  obtain dec inc pd pi where "updateLimit h s dec inc pd pi = Inr (h', res)"
    using run by (cases a) (simp add: AllowedSenders_UpdateLimit_def)
  with ok show "allocated h' s \<and> allocated h' c \<and> limit_of h' c = limit_of h c"
    by (rule updateLimit_frame)
qed

text \<open>C9: the promise of \<open>SwapLimit.Clone\<close> holds for \<open>Inventory\<close>, whose map and numbers live on a shared heap: no
  sequence of updates of the original changes a limit seen through a clone taken before, and none of the clone
  changes a limit of the original.\<close>

theorem inventory_clone_isolated:
  assumes "allocated h i" and "Inventory_Clone h i = (h1, c)"
  shows "(run_updates (\<lambda>h i (dec, inc, pd, pi). UpdateLimit h i dec inc pd pi) h1 i as = Inr h2 \<longrightarrow>
      limit_of h2 c k = limit_of h i k) \<and>
    (run_updates (\<lambda>h i (dec, inc, pd, pi). UpdateLimit h i dec inc pd pi) h1 c as = Inr h2 \<longrightarrow>
      limit_of h2 i k = limit_of h i k)"
  using inventory.clone_isolated [OF assms] by simp

definition inv_ex :: Inventory where
  "inv_ex = NewInventory ''kyber-pmm'' (Some 0)"

definition heap_ex :: heap where
  "heap_ex = \<lparr>numbers = [100, 50, 60, 7], tables = [[''a'' \<mapsto> Some 0, ''b'' \<mapsto> Some 1]]\<rparr>"

lemma allocated_ex: "allocated heap_ex inv_ex"
  by (auto simp: allocated_def heap_ex_def inv_ex_def NewInventory_def entries_def split: if_splits)

lemma limits_ex [simp]:
  "limit_of heap_ex inv_ex ''a'' = Some 100" "limit_of heap_ex inv_ex ''b'' = Some 50"
  "cell heap_ex (Some 2) = Some 60" "cell heap_ex (Some 3) = Some 7"
  by (simp_all add: limit_of_def GetLimit_def cell_def entries_def heap_ex_def inv_ex_def NewInventory_def)

lemma update_limit_ex: "UpdateLimit heap_ex inv_ex ''a'' ''b'' (Some 2) (Some 3) =
  Inr (updated_heap heap_ex 0 ''a'' ''b'' 40 57, 40, 57, None)"
  unfolding UpdateLimit_def updateLimit_cases [OF allocated_ex limits_ex(3,4)]
  by (simp add: inv_ex_def [unfolded NewInventory_def] limits_ex [unfolded inv_ex_def NewInventory_def])

theorem inventory_clone_isolated_witness:
  "\<exists>h1 c h2. Inventory_Clone heap_ex inv_ex = (h1, c) \<and>
     UpdateLimit h1 inv_ex ''a'' ''b'' (Some 2) (Some 3) = Inr (h2, 40, 57, None) \<and>
     limit_of h2 c ''a'' = Some 100 \<and> limit_of h2 c ''b'' = Some 50"
proof -
  obtain h1 c where c: "Inventory_Clone heap_ex inv_ex = (h1, c)"
    by fastforce
  from inventory.clone_new [OF allocated_ex c] have h1: "allocated h1 inv_ex" "limit_of h1 inv_ex = limit_of heap_ex inv_ex"
    by auto
  have cells: "cell h1 (Some 2) = Some 60" "cell h1 (Some 3) = Some 7"
    using c by (auto simp: Inventory_Clone_def maps_Clone_def make_map_def cell_def heap_ex_def inv_ex_def
        NewInventory_def)
  obtain h2 where h2: "UpdateLimit h1 inv_ex ''a'' ''b'' (Some 2) (Some 3) = Inr (h2, 40, 57, None)"
    unfolding UpdateLimit_def updateLimit_cases [OF h1(1) cells] h1(2) by simp
  then have "run_updates (\<lambda>h i (dec, inc, pd, pi). UpdateLimit h i dec inc pd pi) h1 inv_ex
      [(''a'', ''b'', Some 2, Some 3)] = Inr h2"
    by simp
  with inventory_clone_isolated [OF allocated_ex c, of "[(''a'', ''b'', Some 2, Some 3)]" h2] c h2 show ?thesis
    by (auto intro!: exI [of _ h1] exI [of _ c] exI [of _ h2])
qed

lemma updated_limits:
  assumes "allocated h i" and "balance i = Some m" and "m < length (tables h)"
  shows "limit_of (updated_heap h m dec inc x y) i = (limit_of h i)(dec \<mapsto> x, inc \<mapsto> y)"
proof
  fix k
  have old: "cell (updated_heap h m dec inc x y) p = cell h p" if "entries h (Some m) k = Some p" for p
    using assms(1,2) that by (fastforce simp: allocated_def cell_def nth_append)
  have new: "cell (updated_heap h m dec inc x y) (Some (length (numbers h))) = Some x"
    "cell (updated_heap h m dec inc x y) (Some (Suc (length (numbers h)))) = Some y"
    by (simp_all add: cell_def nth_append)
  show "limit_of (updated_heap h m dec inc x y) i k = ((limit_of h i)(dec \<mapsto> x, inc \<mapsto> y)) k"
    using old new
    unfolding limit_of_allocated(1) [OF assms(1)] limit_of_allocated(1) [OF updated_allocated [OF assms]]
    by (simp add: assms(2,3) updated_entries(2) limit_of_allocated(1) [OF assms(1)] split: option.split)
qed

lemma limit_table:
  assumes "allocated h i" and "limit_of h i k = Some b"
  obtains m where "balance i = Some m" "m < length (tables h)"
proof -
  obtain p where "entries h (balance i) k = Some p"
    using assms limit_of_allocated(2) [OF assms(1), of k] by (cases "entries h (balance i) k") auto
  with assms(1) that show thesis
    by (elim allocated_entry)
qed

text \<open>C13: \<open>Inventory.UpdateLimit\<close> moves the two deltas: it fails and changes no limit when the key is
  unknown or its limit too small; otherwise the decreased limit loses its delta, the increased one then
  gains its own (starting from nothing when absent; the two may be the same token), every other limit is
  unchanged, and the numbers returned are the new decreased and the new increased limit, in this order.\<close>

theorem inventory_update_limit:
  assumes "allocated h i" and "cell h pd = Some dd" and "cell h pi = Some di"
  shows "\<exists>h' r1 r2 e. UpdateLimit h i dec inc pd pi = Inr (h', r1, r2, e) \<and> allocated h' i \<and>
    (case limit_of h i dec of
       None \<Rightarrow> e = Some ''ErrTokenNotAvailable'' \<and> limit_of h' i = limit_of h i
     | Some b \<Rightarrow>
         if b < dd then e = Some ''ErrNotEnoughInventory'' \<and> limit_of h' i = limit_of h i
         else e = None \<and> r1 = b - dd \<and>
              r2 = (case ((limit_of h i)(dec \<mapsto> r1)) inc of None \<Rightarrow> di | Some x \<Rightarrow> x + di) \<and>
              limit_of h' i = (limit_of h i)(dec \<mapsto> r1, inc \<mapsto> r2))"
proof (cases "limit_of h i dec")
  case (Some b)
  then obtain m where m: "balance i = Some m" "m < length (tables h)"
    using assms(1) by (elim limit_table)
  show ?thesis
    using Some assms(1) m updated_limits [OF assms(1) m] updated_allocated [OF assms(1) m]
    unfolding UpdateLimit_def updateLimit_cases [OF assms(1-3)]
    by (auto simp: Let_def)
qed (use assms(1) in \<open>simp add: UpdateLimit_def updateLimit_cases [OF assms(1-3)]\<close>)

theorem inventory_update_limit_witness:
  "\<exists>h'. UpdateLimit heap_ex inv_ex ''a'' ''b'' (Some 2) (Some 3) = Inr (h', 40, 57, None) \<and>
     limit_of h' inv_ex ''a'' = Some 40 \<and> limit_of h' inv_ex ''b'' = Some 57"
  using inventory_update_limit [OF allocated_ex limits_ex(3,4), of "''a''" "''b''"] by auto

subsection \<open>Limits never go below zero\<close>

definition nonneg_limits :: "heap \<Rightarrow> 'a Inventory_scheme \<Rightarrow> bool" where
  "nonneg_limits h i = (\<forall>k v. limit_of h i k = Some v \<longrightarrow> 0 \<le> v)"

definition good_args :: "heap \<Rightarrow> limit_args \<Rightarrow> bool" where
  "good_args h a = (case a of (dec, inc, pd, pi) \<Rightarrow>
     (\<exists>dd di. cell h pd = Some dd \<and> cell h pi = Some di \<and> 0 \<le> dd \<and> 0 \<le> di))"

lemma updateLimit_nonneg:
  assumes "allocated h i" and "nonneg_limits h i" and "good_args h (dec, inc, pd, pi)"
    and "updateLimit h i dec inc pd pi = Inr (h', res)"
  shows "allocated h' i \<and> nonneg_limits h' i"
proof -
  from assms(3) obtain dd di where d: "cell h pd = Some dd" "cell h pi = Some di" "0 \<le> dd" "0 \<le> di"
    by (auto simp: good_args_def)
  show ?thesis
  proof (cases "limit_of h i dec")
    case None
    with assms show ?thesis by (auto simp: updateLimit_cases [OF assms(1) d(1,2)])
  next
    case (Some b)
    with assms(1) obtain m where m: "balance i = Some m" "m < length (tables h)"
      by (elim limit_table)
    show ?thesis
    proof (cases "b < dd")
      case True
      with Some assms show ?thesis by (auto simp: updateLimit_cases [OF assms(1) d(1,2)])
    next
      case False
      define v where "v = (if inc = dec then b - dd + di
        else case limit_of h i inc of None \<Rightarrow> di | Some x \<Rightarrow> x + di)"
      have v: "0 \<le> v"
        using False assms(2) d by (auto simp: v_def nonneg_limits_def split: option.splits)
      have "h' = updated_heap h m dec inc (b - dd) v"
        using False Some assms(4) m by (auto simp: updateLimit_cases [OF assms(1) d(1,2)] v_def Let_def)
      with v False assms(2) updated_limits [OF assms(1) m] updated_allocated [OF assms(1) m] show ?thesis
        by (auto simp: nonneg_limits_def)
    qed
  qed
qed

text \<open>An update keeps the numbers that were there, so the deltas of later calls stay what they are.\<close>

lemma updateLimit_kept_cells:
  assumes "updateLimit h i dec inc pd pi = Inr (h', res)" and "allocated h i" and "cell h p = Some v"
  shows "cell h' p = Some v"
  using updateLimit_cases_any [OF assms(1,2)] assms(3)
  by (auto simp: cell_def nth_append split: option.splits if_splits)

lemma good_args_kept:
  assumes "updateLimit h i dec inc pd pi = Inr (h', res)" and "allocated h i" and "good_args h a"
  shows "good_args h' a"
  using assms(3) updateLimit_kept_cells [OF assms(1,2)] by (cases a) (fastforce simp: good_args_def)

text \<open>Starting from non-negative limits, any sequence of updates with non-negative deltas keeps
  every limit of an inventory non-negative.\<close>

theorem inventory_never_negative:
  assumes "allocated h i" and "nonneg_limits h i" and "\<forall>a \<in> set as. good_args h a"
    and "run_updates (\<lambda>h i (dec, inc, pd, pi). UpdateLimit h i dec inc pd pi) h i as = Inr h'"
  shows "nonneg_limits h' i"
  using assms
proof (induction as arbitrary: h)
  case (Cons a as)
  obtain dec inc pd pi where a: "a = (dec, inc, pd, pi)" by (cases a)
  from Cons.prems(4) obtain h1 res where
    step: "updateLimit h i dec inc pd pi = Inr (h1, res)"
    and rest: "run_updates (\<lambda>h i (dec, inc, pd, pi). UpdateLimit h i dec inc pd pi) h1 i as = Inr h'"
    by (auto simp: a bnd_eq_Inr UpdateLimit_def)
  have "allocated h1 i \<and> nonneg_limits h1 i"
    using Cons.prems(1-3) by (intro updateLimit_nonneg [OF _ _ _ step]) (auto simp: a)
  moreover have "\<forall>a \<in> set as. good_args h1 a"
    using Cons.prems(1,3) by (auto intro: good_args_kept [OF step])
  ultimately show ?case using Cons.IH rest by blast
qed simp

theorem inventory_never_negative_witness:
  "\<exists>h'. run_updates (\<lambda>h i (dec, inc, pd, pi). UpdateLimit h i dec inc pd pi) heap_ex inv_ex
     [(''a'', ''b'', Some 2, Some 3)] = Inr h' \<and> nonneg_limits h' inv_ex"
proof -
  have run: "run_updates (\<lambda>h i (dec, inc, pd, pi). UpdateLimit h i dec inc pd pi) heap_ex inv_ex
      [(''a'', ''b'', Some 2, Some 3)] = Inr (updated_heap heap_ex 0 ''a'' ''b'' 40 57)"
    using update_limit_ex by simp
  have "nonneg_limits heap_ex inv_ex"
    by (auto simp: nonneg_limits_def limit_of_def GetLimit_def cell_def heap_ex_def inv_ex_def entries_def
        NewInventory_def split: if_splits)
  from inventory_never_negative [OF allocated_ex this _ run] run show ?thesis
    by (auto simp: good_args_def)
qed

subsection \<open>Swapped inventory: shared cells\<close>

definition swapped_of :: "heap \<Rightarrow> SwappedInventory \<Rightarrow> string \<Rightarrow> int option" where
  "swapped_of h k t = (case entries h (swapped k) t of None \<Rightarrow> None | Some p \<Rightarrow> cell h p)"

definition swapped_ex :: SwappedInventory where
  "swapped_ex = \<lparr>exchange = ''kyber-pmm'', balance = Some 0, swapped = Some 1\<rparr>"

definition swapped_heap :: heap where
  "swapped_heap = \<lparr>numbers = [100, 50, 60, 7], tables = [[''a'' \<mapsto> Some 0], [''b'' \<mapsto> Some 1]]\<rparr>"

text \<open>The promise of \<open>SwapLimit.Clone\<close> does not hold for \<open>SwappedInventory\<close>: a key was
  swapped before the clone is taken, and an update of the original adds the delta to the amount the clone
  reports too, although the update itself fails.\<close>

theorem swapped_clone_aliased:
  "case Swapped_Clone swapped_heap swapped_ex of (h1, c) \<Rightarrow>
     swapped_of h1 c ''b'' = Some 50 \<and>
     (case Swapped_UpdateLimit h1 swapped_ex ''c'' ''b'' (Some 2) (Some 3) of
        Inr (h2, _, _, e) \<Rightarrow> e = Some ''ErrTokenNotAvailable'' \<and> swapped_of h2 c ''b'' = Some 57
      | Inl _ \<Rightarrow> False)"
  by code_simp

end
