(* ===== verification/Swaplimit_Threads.thy ===== *)
theory Swaplimit_Threads
  imports Swaplimit
begin

text \<open>
  Callers that update one limit at the same time, over the heap of \<open>Swaplimit\<close>.  \<open>limit_step\<close> runs
  \<open>updateLimit\<close> one statement at a time, the decrease and the increase, each read of the map apart from the
  write that follows it; \<open>limit_steps_complete\<close> shows that without interference the steps are
  \<open>updateLimit\<close>.  \<open>Inventory.UpdateLimit\<close> (\<open>locked_step\<close>) takes the mutex first and releases it when it
  returns; \<open>InventoryWithAllowedSenders.UpdateLimit\<close> (\<open>unlocked_step\<close>) does not.  The theorem on the first is
  that every interleaving is some sequential run of \<open>UpdateLimit\<close>; the second loses updates.
\<close>

text \<open>Where a caller stands: not started, started, the balance checked (with its pointer), the decrease written
  (with the new balance), the increased balance computed, returned.\<close>

datatype pc = Idle | Entered | Checked ptr | Decreased int | Computed int int | Returned limit_return

fun limit_step :: "'a Inventory_scheme \<Rightarrow> limit_args \<Rightarrow> heap \<Rightarrow> pc \<Rightarrow> (heap \<times> pc) go" where
  "limit_step i (dec, inc, dd, di) h Entered =
     (case entries h (balance i) dec of
        None \<Rightarrow> Inr (h, Returned (0, 0, Some ''ErrTokenNotAvailable''))
      | Some p \<Rightarrow>
          bnd (read_cell h p) (\<lambda>b. bnd (read_cell h dd) (\<lambda>d.
          Inr (h, if b < d then Returned (0, 0, Some ''ErrNotEnoughInventory'') else Checked p))))"
| "limit_step i (dec, inc, dd, di) h (Checked p) =
     bnd (read_cell h p) (\<lambda>b. bnd (read_cell h dd) (\<lambda>d.
     let (h, a) = alloc h (b - d) in
     bnd (put h (balance i) dec (Some a)) (\<lambda>h. Inr (h, Decreased (b - d)))))"
| "limit_step i (dec, inc, dd, di) h (Decreased b) =
     bnd (case entries h (balance i) inc of
            None \<Rightarrow> read_cell h di
          | Some q \<Rightarrow> bnd (read_cell h q) (\<lambda>x. bnd (read_cell h di) (\<lambda>y. Inr (x + y))))
       (\<lambda>v. Inr (h, Computed b v))"
| "limit_step i (dec, inc, dd, di) h (Computed b v) =
     (let (h, a) = alloc h v in
      bnd (put h (balance i) inc (Some a)) (\<lambda>h. Inr (h, Returned (b, v, None))))"
| "limit_step i a h pc = Inr (h, pc)"

text \<open>Running a caller to its end, without interference; four steps are enough.\<close>

fun steps_left :: "pc \<Rightarrow> nat" where
  "steps_left Entered = 4" | "steps_left (Checked p) = 3" | "steps_left (Decreased b) = 2"
| "steps_left (Computed b v) = 1" | "steps_left pc = 0"

fun complete :: "nat \<Rightarrow> 'a Inventory_scheme \<Rightarrow> limit_args \<Rightarrow> heap \<Rightarrow> pc \<Rightarrow> limit_result option go" where
  "complete n i a h (Returned r) = Inr (Some (h, r))"
| "complete 0 i a h pc = Inr None"
| "complete (Suc n) i a h pc = bnd (limit_step i a h pc) (\<lambda>(h', pc'). complete n i a h' pc')"

definition rest_of :: "'a Inventory_scheme \<Rightarrow> limit_args \<Rightarrow> heap \<Rightarrow> pc \<Rightarrow> limit_result option go" where
  "rest_of i a h pc = complete (steps_left pc) i a h pc"

lemma limit_steps_complete:
  "rest_of i (dec, inc, dd, di) h Entered = bnd (updateLimit h i dec inc dd di) (\<lambda>r. Inr (Some r))"
  by (simp add: rest_of_def eval_nat_numeral updateLimit_def bnd_def Let_def
      split: option.split sum.split prod.split)

lemma limit_step_left:
  assumes "limit_step i a h pc = Inr (h', pc')" and "0 < steps_left pc"
  shows "(\<exists>r. pc' = Returned r) \<or> 0 < steps_left pc' \<and> steps_left pc = Suc (steps_left pc')"
  using assms
  by (cases a; cases pc) (auto simp: go_simps alloc_def Let_def split: option.splits if_splits)

lemma rest_of_step:
  assumes "limit_step i a h pc = Inr (h', pc')" and "0 < steps_left pc"
  shows "rest_of i a h pc = rest_of i a h' pc'"
proof -
  have "rest_of i a h pc = complete (steps_left pc - 1) i a h' pc'"
    using assms by (cases pc) (simp_all add: rest_of_def eval_nat_numeral del: limit_step.simps)
  then show ?thesis
    using limit_step_left [OF assms] by (auto simp: rest_of_def)
qed

lemma rest_of_progress:
  assumes "rest_of i a h pc = Inr x" and "0 < steps_left pc"
  shows "\<exists>h' pc'. limit_step i a h pc = Inr (h', pc')"
  using assms by (cases pc) (auto simp: rest_of_def eval_nat_numeral bnd_eq_Inr)

subsection \<open>Interleavings\<close>

record threads =
  mem :: heap
  holder :: "nat option"
  pcs :: "nat \<Rightarrow> pc"

text \<open>\<open>Lock\<close> waits until the mutex is free; the deferred \<open>Unlock\<close> runs when the caller has returned.\<close>

inductive locked_step :: "Inventory \<Rightarrow> (nat \<Rightarrow> limit_args) \<Rightarrow> threads \<Rightarrow> threads \<Rightarrow> bool" for i args where
  lock: "pcs s t = Idle \<Longrightarrow> holder s = None \<Longrightarrow>
    locked_step i args s (s\<lparr>holder := Some t, pcs := (pcs s)(t := Entered)\<rparr>)"
| run: "holder s = Some t \<Longrightarrow> 0 < steps_left (pcs s t) \<Longrightarrow> limit_step i (args t) (mem s) (pcs s t) = Inr (h, p) \<Longrightarrow>
    locked_step i args s (s\<lparr>mem := h, pcs := (pcs s)(t := p)\<rparr>)"
| unlock: "holder s = Some t \<Longrightarrow> pcs s t = Returned r \<Longrightarrow> locked_step i args s (s\<lparr>holder := None\<rparr>)"

inductive unlocked_step ::
    "InventoryWithAllowedSenders \<Rightarrow> (nat \<Rightarrow> limit_args) \<Rightarrow> threads \<Rightarrow> threads \<Rightarrow> bool" for i args where
  enter: "pcs s t = Idle \<Longrightarrow> unlocked_step i args s (s\<lparr>pcs := (pcs s)(t := Entered)\<rparr>)"
| step: "0 < steps_left (pcs s t) \<Longrightarrow> limit_step i (args t) (mem s) (pcs s t) = Inr (h, p) \<Longrightarrow>
    unlocked_step i args s (s\<lparr>mem := h, pcs := (pcs s)(t := p)\<rparr>)"

definition all_idle :: "heap \<Rightarrow> threads" where
  "all_idle h = \<lparr>mem = h, holder = None, pcs = \<lambda>_. Idle\<rparr>"

text \<open>A sequential run of \<open>UpdateLimit\<close> for the callers of a list, with what each call returns.\<close>

fun run_callers ::
    "Inventory \<Rightarrow> (nat \<Rightarrow> limit_args) \<Rightarrow> heap \<Rightarrow> nat list \<Rightarrow> (heap \<times> limit_return list) go" where
  "run_callers i args h [] = Inr (h, [])"
| "run_callers i args h (t # ts) =
     (case args t of (dec, inc, dd, di) \<Rightarrow>
       bnd (UpdateLimit h i dec inc dd di) (\<lambda>(h, r). bnd (run_callers i args h ts) (\<lambda>(h, rs). Inr (h, r # rs))))"

lemma run_callers_snoc:
  assumes "run_callers i args h ts = Inr (h1, rs)" and "args t = (dec, inc, dd, di)"
    and "updateLimit h1 i dec inc dd di = Inr (h2, r)"
  shows "run_callers i args h (ts @ [t]) = Inr (h2, rs @ [r])"
  using assms(1)
proof (induction ts arbitrary: h rs)
  case Nil
  with assms(2,3) show ?case by (simp add: UpdateLimit_def)
next
  case (Cons u ts)
  obtain a b c d where u: "args u = (a, b, c, d)" by (cases "args u")
  from Cons.prems show ?case
    by (auto simp: u go_simps Cons.IH split: prod.splits)
qed

text \<open>The callers' deltas are allocated numbers.\<close>

definition given :: "heap \<Rightarrow> limit_args \<Rightarrow> bool" where
  "given h a = (case a of (dec, inc, pd, pi) \<Rightarrow> cell h pd \<noteq> None \<and> cell h pi \<noteq> None)"

lemma updateLimit_returns:
  assumes "allocated h i" and "given h (dec, inc, pd, pi)"
  shows "\<exists>h' r. updateLimit h i dec inc pd pi = Inr (h', r)"
proof -
  from assms(2) obtain dd di where "cell h pd = Some dd" "cell h pi = Some di"
    by (auto simp: given_def)
  from updateLimit_cases [OF assms(1) this, of dec inc] show ?thesis
    by (simp add: Let_def split: option.split)
qed

lemma updateLimit_keeps:
  assumes "updateLimit h i dec inc pd pi = Inr (h', r)" and "allocated h i"
  shows "allocated h' i \<and> (given h a \<longrightarrow> given h' a)"
proof -
  have "allocated h' i"
    using updateLimit_cases_any [OF assms] assms(2) by (auto simp: updated_allocated)
  moreover have "given h a \<longrightarrow> given h' a"
    using updateLimit_kept_cells [OF assms] by (cases a) (fastforce simp: given_def)
  ultimately show ?thesis by simp
qed

text \<open>The state is a sequential run of the callers that have returned, followed by the part of a call that the
  holder of the mutex has already run.\<close>

definition serialised :: "Inventory \<Rightarrow> (nat \<Rightarrow> limit_args) \<Rightarrow> heap \<Rightarrow> threads \<Rightarrow> nat list \<Rightarrow> heap \<Rightarrow> bool" where
  "serialised i args h s ts hs =
     (distinct ts \<and> (\<forall>t. t \<in> set ts \<longleftrightarrow> (\<exists>r. pcs s t = Returned r)) \<and>
      (\<exists>rs. run_callers i args h ts = Inr (hs, rs) \<and> list_all2 (\<lambda>t r. pcs s t = Returned r) ts rs) \<and>
      allocated hs i \<and> (\<forall>t. given hs (args t)) \<and>
      (\<forall>t. 0 < steps_left (pcs s t) \<longrightarrow>
         holder s = Some t \<and> rest_of i (args t) (mem s) (pcs s t) = rest_of i (args t) hs Entered) \<and>
      (case holder s of None \<Rightarrow> mem s = hs | Some t \<Rightarrow> pcs s t \<noteq> Idle \<and> (steps_left (pcs s t) = 0 \<longrightarrow> mem s = hs)))"

lemma returned_upd:
  "list_all2 (\<lambda>u r. f u = Returned r) ts rs \<Longrightarrow> t \<notin> set ts \<Longrightarrow> list_all2 (\<lambda>u r. (f(t := p)) u = Returned r) ts rs"
  by (auto simp: list_all2_conv_all_nth)

lemma serialised_step:
  assumes "locked_step i args s s'" and "serialised i args h s ts hs"
  shows "\<exists>ts' hs'. serialised i args h s' ts' hs'"
proof -
  from assms(2) obtain rs where inv: "distinct ts" "\<And>t. t \<in> set ts \<longleftrightarrow> (\<exists>r. pcs s t = Returned r)"
    "run_callers i args h ts = Inr (hs, rs)" "list_all2 (\<lambda>t r. pcs s t = Returned r) ts rs"
    "allocated hs i" "\<And>t. given hs (args t)"
    "\<And>t. 0 < steps_left (pcs s t) \<Longrightarrow>
       holder s = Some t \<and> rest_of i (args t) (mem s) (pcs s t) = rest_of i (args t) hs Entered"
    "holder s = None \<Longrightarrow> mem s = hs"
    "\<And>t. holder s = Some t \<Longrightarrow> pcs s t \<noteq> Idle \<and> (steps_left (pcs s t) = 0 \<longrightarrow> mem s = hs)"
    unfolding serialised_def by (auto split: option.splits)
  from assms(1) show ?thesis
  proof cases
    case (lock t)
    then have fresh: "t \<notin> set ts" and free: "\<not> 0 < steps_left (pcs s u)" for u
      using inv(2) [of t] inv(7) [of u] by auto
    have "serialised i args h s' ts hs"
      unfolding serialised_def
    proof (intro conjI allI exI impI)
      show "t' \<in> set ts \<longleftrightarrow> (\<exists>r. pcs s' t' = Returned r)" for t'
        using inv(2) [of t'] lock(2) by (auto simp: lock(1))
      show "list_all2 (\<lambda>t r. pcs s' t = Returned r) ts rs"
        using returned_upd [OF inv(4) fresh] by (simp add: lock(1))
      show "holder s' = Some u" "rest_of i (args u) (mem s') (pcs s' u) = rest_of i (args u) hs Entered"
        if "0 < steps_left (pcs s' u)" for u
        using that free [of u] inv(8) lock(3) by (auto simp: lock(1) split: if_splits)
    qed (use inv lock(1) in simp_all)
    then show ?thesis by blast
  next
    case (run t h1 p)
    obtain dec inc dd di where a: "args t = (dec, inc, dd, di)" by (cases "args t")
    have new: "rest_of i (args t) h1 p = rest_of i (args t) hs Entered"
      using rest_of_step [OF run(4,3)] inv(7) [OF run(3)] by simp
    have fresh: "t \<notin> set ts"
      using inv(2) [of t] run(3) by auto
    have other: "\<not> 0 < steps_left (pcs s u)" if "u \<noteq> t" for u
      using inv(7) [of u] run(2) that by auto
    show ?thesis
    proof (cases "\<exists>r. p = Returned r")
      case False
      then have p: "0 < steps_left p"
        using limit_step_left [OF run(4,3)] by blast
      have "serialised i args h s' ts hs"
        unfolding serialised_def
      proof (intro conjI allI exI impI)
        show "t' \<in> set ts \<longleftrightarrow> (\<exists>r. pcs s' t' = Returned r)" for t'
          using inv(2) [of t'] False fresh by (auto simp: run(1))
        show "list_all2 (\<lambda>t r. pcs s' t = Returned r) ts rs"
          using returned_upd [OF inv(4) fresh] by (simp add: run(1))
        show "holder s' = Some u" "rest_of i (args u) (mem s') (pcs s' u) = rest_of i (args u) hs Entered"
          if "0 < steps_left (pcs s' u)" for u
          using that other [of u] new run(2) by (auto simp: run(1) split: if_splits)
        show "case holder s' of None \<Rightarrow> mem s' = hs | Some t \<Rightarrow> pcs s' t \<noteq> Idle \<and> (steps_left (pcs s' t) = 0 \<longrightarrow> mem s' = hs)"
          using run(2) p by (auto simp: run(1))
      qed (use inv in simp_all)
      then show ?thesis by blast
    next
      case True
      then obtain r where r: "p = Returned r" ..
      obtain h2 r2 where up: "updateLimit hs i dec inc dd di = Inr (h2, r2)"
        using updateLimit_returns [OF inv(5)] inv(6) [of t] a by metis
      then have "Inr (Some (h1, r)) = (Inr (Some (h2, r2)) :: limit_result option go)"
        using new by (simp add: r a rest_of_def [of _ _ _ "Returned _"] limit_steps_complete)
      then have eq: "h2 = h1" "r2 = r"
        by simp_all
      have "serialised i args h s' (ts @ [t]) h1"
        unfolding serialised_def
      proof (intro conjI allI exI impI)
        show "t' \<in> set (ts @ [t]) \<longleftrightarrow> (\<exists>r. pcs s' t' = Returned r)" for t'
          using inv(2) [of t'] by (cases r) (auto simp: run(1) \<open>p = Returned r\<close>)
        show "run_callers i args h (ts @ [t]) = Inr (h1, rs @ [r])"
          using run_callers_snoc [OF inv(3) a up] by (simp add: eq)
        show "list_all2 (\<lambda>t r. pcs s' t = Returned r) (ts @ [t]) (rs @ [r])"
          using returned_upd [OF inv(4) fresh] list_all2_lengthD [OF inv(4)] by (simp add: run(1) r list_all2_append)
        show "allocated h1 i" "given h1 (args u)" for u
          using updateLimit_keeps [OF up inv(5), of "args u"] inv(6) [of u] by (simp_all add: eq)
        show "holder s' = Some u" "rest_of i (args u) (mem s') (pcs s' u) = rest_of i (args u) h1 Entered"
          if "0 < steps_left (pcs s' u)" for u
          using that other [of u] by (auto simp: run(1) r split: if_splits)
        show "case holder s' of None \<Rightarrow> mem s' = h1 | Some t \<Rightarrow> pcs s' t \<noteq> Idle \<and> (steps_left (pcs s' t) = 0 \<longrightarrow> mem s' = h1)"
          using run(2) by (simp add: run(1) r)
      qed (use inv(1) fresh in simp_all)
      then show ?thesis by blast
    qed
  next
    case (unlock t r)
    have free: "\<not> 0 < steps_left (pcs s u)" for u
      using inv(7) [of u] unlock(2,3) by (cases "u = t") auto
    have "serialised i args h s' ts hs"
      unfolding serialised_def
      using inv(1-6) free inv(9) [OF unlock(2)] unlock(3) by (auto simp: unlock(1))
    then show ?thesis by blast
  qed
qed

text \<open>C11: under the mutex every interleaving of concurrent \<open>UpdateLimit\<close> calls on an inventory is a
  sequential run: in every reachable state there is an order of the callers that have returned in which calling
  \<open>UpdateLimit\<close> one after the other returns to each what it got, and while nobody holds the mutex leaves the shared
  heap as it is; a caller that holds the mutex can always go on.\<close>

theorem inventory_updates_serialised:
  assumes "allocated h i" and "\<forall>t. given h (args t)" and "(locked_step i args)\<^sup>*\<^sup>* (all_idle h) s"
  shows "\<exists>ts hs rs. distinct ts \<and> (\<forall>t. t \<in> set ts \<longleftrightarrow> (\<exists>r. pcs s t = Returned r)) \<and>
      run_callers i args h ts = Inr (hs, rs) \<and> list_all2 (\<lambda>t r. pcs s t = Returned r) ts rs \<and>
      (holder s = None \<longrightarrow> mem s = hs) \<and> (holder s \<noteq> None \<longrightarrow> (\<exists>s'. locked_step i args s s'))"
proof -
  have "serialised i args h (all_idle h) [] h"
    using assms(1,2) by (simp add: serialised_def all_idle_def)
  with assms(3) obtain ts hs where ser: "serialised i args h s ts hs"
    by (induction rule: rtranclp_induct) (blast dest: serialised_step)+
  have "\<exists>s'. locked_step i args s s'" if held: "holder s = Some t" for t
  proof (cases "0 < steps_left (pcs s t)")
    case True
    obtain dec inc dd di where a: "args t = (dec, inc, dd, di)" by (cases "args t")
    obtain h2 r2 where "updateLimit hs i dec inc dd di = Inr (h2, r2)"
      using updateLimit_returns [of hs i dec inc dd di] ser a unfolding serialised_def by metis
    moreover have "rest_of i (args t) (mem s) (pcs s t) = rest_of i (args t) hs Entered"
      using ser True unfolding serialised_def by blast
    ultimately have "rest_of i (args t) (mem s) (pcs s t) = Inr (Some (h2, r2))"
      by (simp add: a limit_steps_complete)
    from rest_of_progress [OF this True] run [OF held True] show ?thesis by blast
  next
    case False
    then obtain r where "pcs s t = Returned r"
      using ser held by (cases "pcs s t") (auto simp: serialised_def)
    from unlock [OF held this] show ?thesis by blast
  qed
  with ser show ?thesis
    unfolding serialised_def by (auto split: option.splits)
qed

subsection \<open>Two callers\<close>

text \<open>Two callers that each take 60 from a limit of 100.\<close>

definition two_callers :: "nat \<Rightarrow> limit_args" where
  "two_callers t = (''a'', ''b'', Some 2, Some 3)"

definition after_decrease :: "heap \<Rightarrow> heap" where
  "after_decrease h = h\<lparr>numbers := numbers h @ [40],
     tables := [[''a'' \<mapsto> Some (length (numbers h)), ''b'' \<mapsto> Some 1]]\<rparr>"

lemmas callers_defs = two_callers_def heap_ex_def inv_ex_def NewInventory_def read_cell_def entries_def alloc_def
  put_def updated_heap_def after_decrease_def idx_def upd_def

lemma first_caller:
  "limit_step inv_ex (two_callers t) heap_ex Entered = Inr (heap_ex, Checked (Some 0))"
  "limit_step inv_ex (two_callers t) heap_ex (Checked (Some 0)) = Inr (after_decrease heap_ex, Decreased 40)"
  "limit_step inv_ex (two_callers t) (after_decrease heap_ex) (Decreased 40) =
     Inr (after_decrease heap_ex, Computed 40 57)"
  "limit_step inv_ex (two_callers t) (after_decrease heap_ex) (Computed 40 57) =
     Inr (updated_heap heap_ex 0 ''a'' ''b'' 40 57, Returned (40, 57, None))"
  by (simp_all add: callers_defs fun_eq_iff eval_nat_numeral)

lemma second_caller:
  "limit_step inv_ex (two_callers t) (updated_heap heap_ex 0 ''a'' ''b'' 40 57) Entered =
     Inr (updated_heap heap_ex 0 ''a'' ''b'' 40 57, Returned (0, 0, Some ''ErrNotEnoughInventory''))"
  by (simp add: callers_defs)

definition duo :: "heap \<Rightarrow> nat option \<Rightarrow> pc \<Rightarrow> pc \<Rightarrow> threads" where
  "duo h l p q = \<lparr>mem = h, holder = l, pcs = (\<lambda>_. Idle)(0 := p, Suc 0 := q)\<rparr>"

lemma duo_steps:
  "limit_step i (args 0) h p = Inr (h', p') \<Longrightarrow> 0 < steps_left p \<Longrightarrow>
     locked_step i args (duo h (Some 0) p q) (duo h' (Some 0) p' q)"
  "limit_step i (args (Suc 0)) h q = Inr (h', q') \<Longrightarrow> 0 < steps_left q \<Longrightarrow>
     locked_step i args (duo h (Some (Suc 0)) p q) (duo h' (Some (Suc 0)) p q')"
  "locked_step i args (duo h None Idle q) (duo h (Some 0) Entered q)"
  "locked_step i args (duo h (Some 0) (Returned r) q) (duo h None (Returned r) q)"
  "locked_step i args (duo h None p Idle) (duo h (Some (Suc 0)) p Entered)"
  using run [of "duo h (Some 0) p q" 0 i args h' p'] run [of "duo h (Some (Suc 0)) p q" "Suc 0" i args h' q']
    lock [of "duo h None Idle q" 0 i args] unlock [of "duo h (Some 0) (Returned r) q" 0 r i args]
    lock [of "duo h None p Idle" "Suc 0" i args]
  by (simp_all add: duo_def fun_upd_twist)

lemma duo_start: "duo h None Idle Idle = all_idle h"
  by (simp add: duo_def all_idle_def fun_eq_iff)

lemma duo_run:
  "(locked_step inv_ex two_callers)\<^sup>*\<^sup>* (all_idle heap_ex)
     (duo (updated_heap heap_ex 0 ''a'' ''b'' 40 57) (Some (Suc 0)) (Returned (40, 57, None))
       (Returned (0, 0, Some ''ErrNotEnoughInventory'')))"
  unfolding duo_start [symmetric]
  by (rule converse_rtranclp_into_rtranclp, rule duo_steps(3),
      rule converse_rtranclp_into_rtranclp, rule duo_steps(1), rule first_caller(1), simp,
      rule converse_rtranclp_into_rtranclp, rule duo_steps(1), rule first_caller(2), simp,
      rule converse_rtranclp_into_rtranclp, rule duo_steps(1), rule first_caller(3), simp,
      rule converse_rtranclp_into_rtranclp, rule duo_steps(1), rule first_caller(4), simp,
      rule converse_rtranclp_into_rtranclp, rule duo_steps(4),
      rule converse_rtranclp_into_rtranclp, rule duo_steps(5),
      rule converse_rtranclp_into_rtranclp, rule duo_steps(2), rule second_caller, simp,
      rule rtranclp.rtrancl_refl)

theorem inventory_updates_serialised_witness:
  "\<exists>(s :: threads) ts hs rs. set ts = {0, 1} \<and> run_callers inv_ex two_callers heap_ex ts = Inr (hs, rs) \<and>
     list_all2 (\<lambda>t r. pcs s t = Returned r) ts rs \<and> pcs s 0 = Returned (40, 57, None) \<and>
     pcs s 1 = Returned (0, 0, Some ''ErrNotEnoughInventory'')"
proof -
  let ?s = "duo (updated_heap heap_ex 0 ''a'' ''b'' 40 57) (Some (Suc 0)) (Returned (40, 57, None))
       (Returned (0, 0, Some ''ErrNotEnoughInventory''))"
  have "\<forall>t. given heap_ex (two_callers t)"
    by (simp add: given_def two_callers_def)
  from inventory_updates_serialised [OF allocated_ex this duo_run] obtain ts hs rs where
    ts: "\<forall>t. t \<in> set ts \<longleftrightarrow> (\<exists>r. pcs ?s t = Returned r)" "run_callers inv_ex two_callers heap_ex ts = Inr (hs, rs)"
      "list_all2 (\<lambda>t r. pcs ?s t = Returned r) ts rs"
    by blast
  have set: "set ts = {0, 1}"
  proof -
    have pc: "pcs ?s t = (if t = 0 then Returned (40, 57, None) else if t = Suc 0
        then Returned (0, 0, Some ''ErrNotEnoughInventory'') else Idle)" for t
      by (simp add: duo_def)
    show ?thesis
      using ts(1) unfolding pc by (auto split: if_splits)
  qed
  have pcs: "pcs ?s 0 = Returned (40, 57, None)" "pcs ?s 1 = Returned (0, 0, Some ''ErrNotEnoughInventory'')"
    by (simp_all add: duo_def)
  show ?thesis
    by (rule exI [of _ ?s], rule exI [of _ ts], rule exI [of _ hs], rule exI [of _ rs]) (intro conjI set ts(2,3) pcs)
qed

text \<open>Without the mutex, as \<open>InventoryWithAllowedSenders.UpdateLimit\<close> runs, both callers are told that they took 60 from
  the limit of 100, and 40 is left.\<close>

definition senders_ex :: InventoryWithAllowedSenders where
  "senders_ex = NewInventoryWithAllowedSenders ''lo'' (Some 0) []"

definition race_heap :: "int list \<Rightarrow> nat \<Rightarrow> nat \<Rightarrow> heap" where
  "race_heap ns a b = \<lparr>numbers = [100, 50, 60, 7] @ ns, tables = [[''a'' \<mapsto> Some a, ''b'' \<mapsto> Some b]]\<rparr>"

lemma race_steps:
  "limit_step senders_ex (two_callers t) (race_heap [] 0 1) Entered = Inr (race_heap [] 0 1, Checked (Some 0))"
  "limit_step senders_ex (two_callers t) (race_heap [] 0 1) (Checked (Some 0)) = Inr (race_heap [40] 4 1, Decreased 40)"
  "limit_step senders_ex (two_callers t) (race_heap [40] 4 1) (Checked (Some 0)) =
     Inr (race_heap [40, 40] 5 1, Decreased 40)"
  "limit_step senders_ex (two_callers t) (race_heap [40, 40] 5 1) (Decreased 40) = Inr (race_heap [40, 40] 5 1, Computed 40 57)"
  "limit_step senders_ex (two_callers t) (race_heap [40, 40] 5 1) (Computed 40 57) =
     Inr (race_heap [40, 40, 57] 5 6, Returned (40, 57, None))"
  "limit_step senders_ex (two_callers t) (race_heap [40, 40, 57] 5 6) (Decreased 40) =
     Inr (race_heap [40, 40, 57] 5 6, Computed 40 64)"
  "limit_step senders_ex (two_callers t) (race_heap [40, 40, 57] 5 6) (Computed 40 64) =
     Inr (race_heap [40, 40, 57, 64] 5 7, Returned (40, 64, None))"
  by (simp_all add: callers_defs senders_ex_def NewInventoryWithAllowedSenders_def race_heap_def fun_eq_iff
      eval_nat_numeral)

lemma race_duo:
  "limit_step i (args 0) h p = Inr (h', p') \<Longrightarrow> 0 < steps_left p \<Longrightarrow>
     unlocked_step i args (duo h l p q) (duo h' l p' q)"
  "limit_step i (args (Suc 0)) h q = Inr (h', q') \<Longrightarrow> 0 < steps_left q \<Longrightarrow>
     unlocked_step i args (duo h l p q) (duo h' l p q')"
  "unlocked_step i args (duo h l Idle q) (duo h l Entered q)"
  "unlocked_step i args (duo h l p Idle) (duo h l p Entered)"
  using step [of "duo h l p q" 0 i args h' p'] step [of "duo h l p q" "Suc 0" i args h' q']
    enter [of "duo h l Idle q" 0 i args] enter [of "duo h l p Idle" "Suc 0" i args]
  by (simp_all add: duo_def fun_upd_twist)

theorem allowed_senders_race:
  "\<exists>s. (unlocked_step senders_ex two_callers)\<^sup>*\<^sup>* (all_idle (race_heap [] 0 1)) s \<and>
     limit_of (race_heap [] 0 1) senders_ex ''a'' = Some 100 \<and> pcs s 0 = Returned (40, 57, None) \<and>
     pcs s 1 = Returned (40, 64, None) \<and> limit_of (mem s) senders_ex ''a'' = Some 40"
proof -
  let ?s = "duo (race_heap [40, 40, 57, 64] 5 7) None (Returned (40, 57, None)) (Returned (40, 64, None))"
  have "(unlocked_step senders_ex two_callers)\<^sup>*\<^sup>* (duo (race_heap [] 0 1) None Idle Idle) ?s"
    by (rule converse_rtranclp_into_rtranclp, rule race_duo(3),
      rule converse_rtranclp_into_rtranclp, rule race_duo(4),
      rule converse_rtranclp_into_rtranclp, rule race_duo(1), rule race_steps(1), simp,
      rule converse_rtranclp_into_rtranclp, rule race_duo(2), rule race_steps(1), simp,
      rule converse_rtranclp_into_rtranclp, rule race_duo(1), rule race_steps(2), simp,
      rule converse_rtranclp_into_rtranclp, rule race_duo(2), rule race_steps(3), simp,
      rule converse_rtranclp_into_rtranclp, rule race_duo(1), rule race_steps(4), simp,
      rule converse_rtranclp_into_rtranclp, rule race_duo(1), rule race_steps(5), simp,
      rule converse_rtranclp_into_rtranclp, rule race_duo(2), rule race_steps(6), simp,
      rule converse_rtranclp_into_rtranclp, rule race_duo(2), rule race_steps(7), simp,
      rule rtranclp.rtrancl_refl)
  moreover have "limit_of (race_heap [] 0 1) senders_ex ''a'' = Some 100" "limit_of (mem ?s) senders_ex ''a'' = Some 40"
    by (simp_all add: limit_of_def GetLimit_def cell_def entries_def race_heap_def senders_ex_def duo_def
        NewInventoryWithAllowedSenders_def)
  moreover have "pcs ?s 0 = Returned (40, 57, None)" "pcs ?s 1 = Returned (40, 64, None)"
    by (simp_all add: duo_def)
  ultimately show ?thesis
    unfolding duo_start by blast
qed

end
