(* ===== verification/Maker_Psm.thy ===== *)
theory Maker_Psm
  imports Pool_Interface
begin

text \<open>
  The package \<open>pkg/source/makerpsm\<close>: Maker's peg stability module, which swaps a gem (a stablecoin)
  against DAI at a fixed rate with a fee per direction, under the debt ceilings of the vat.

  \<open>PSM\<close>, \<open>Vat\<close> and \<open>ILK\<close> keep the fields the simulator reads (those tagged \<open>json:"-"\<close> belong to
  the tracker).  \<open>psm.Vat\<close> is a pointer the methods write through; a simulator holds the only one, so
  the methods return the updated record.  JSON decoding is a parameter of the constructor.
\<close>

record Gas =
  BuyGem :: int
  SellGem :: int

definition DefaultGas :: Gas where
  "DefaultGas = \<lparr>BuyGem = 115000, SellGem = 115000\<rparr>"

definition WAD :: int where
  "WAD = BONE"

definition DAIAddress :: string where
  "DAIAddress = ''0x6b175474e89094c44da98b954eedeac495271d0f''"

record ILK =
  Art :: bigint
  Rate :: bigint
  ILK_Line :: bigint

record Vat =
  Vat_ILK :: ILK
  Debt :: bigint
  Line :: bigint

record PSM =
  TIn :: bigint
  TOut :: bigint
  PSM_Vat :: "Vat option"
  To18ConversionFactor :: bigint

record PoolSimulator = Pool +
  psm :: PSM
  gas :: Gas

subsection \<open>The vat\<close>

definition validateSellingGem :: "Vat option \<Rightarrow> int \<Rightarrow> unit go" where
  "validateSellingGem vp dart =
     bnd (deref vp) (\<lambda>v.
     bnd (deref (Art (Vat_ILK v))) (\<lambda>art.
     bnd (deref (Rate (Vat_ILK v))) (\<lambda>rate.
     bnd (deref (ILK_Line (Vat_ILK v))) (\<lambda>ilkLine.
     if (art + dart) * rate > ilkLine then Inl (Err ''ErrDebtCeilingExceeded'')
     else
       bnd (deref (Debt v)) (\<lambda>debt.
       bnd (deref (Line v)) (\<lambda>line.
       if debt + rate * dart > line then Inl (Err ''ErrDebtCeilingExceeded'') else Inr ()))))))"

definition validateBuyingGem :: "Vat option \<Rightarrow> int \<Rightarrow> unit go" where
  "validateBuyingGem vp dart =
     bnd (deref vp) (\<lambda>v.
     bnd (deref (Art (Vat_ILK v))) (\<lambda>art.
     if dart > art then Inl (Err ''ErrDebtCeilingExceeded'') else Inr ()))"

definition vat_updateBalanceSellingGem :: "Vat option \<Rightarrow> int \<Rightarrow> Vat go" where
  "vat_updateBalanceSellingGem vp dart =
     bnd (deref vp) (\<lambda>v.
     bnd (deref (Art (Vat_ILK v))) (\<lambda>art.
     bnd (deref (Rate (Vat_ILK v))) (\<lambda>rate.
     bnd (deref (Debt v)) (\<lambda>debt.
     Inr (v\<lparr>Vat_ILK := (Vat_ILK v)\<lparr>Art := Some (art + dart)\<rparr>,
            Debt := Some (debt + rate * dart)\<rparr>)))))"

definition vat_updateBalanceBuyingGem :: "Vat option \<Rightarrow> int \<Rightarrow> Vat go" where
  "vat_updateBalanceBuyingGem vp dart =
     bnd (deref vp) (\<lambda>v.
     bnd (deref (Art (Vat_ILK v))) (\<lambda>art.
     Inr (v\<lparr>Vat_ILK := (Vat_ILK v)\<lparr>Art := Some (art - dart)\<rparr>\<rparr>)))"

subsection \<open>The peg stability module\<close>

definition sellGem :: "PSM \<Rightarrow> bigint \<Rightarrow> (int \<times> int) go" where
  "sellGem m gemAmt =
     bnd (deref gemAmt) (\<lambda>g.
     bnd (deref (To18ConversionFactor m)) (\<lambda>c.
     bnd (deref (TIn m)) (\<lambda>tin.
     bnd (big_div (g * c * tin) WAD) (\<lambda>fee.
     let gemAmt18 = g * c; daiAmt = gemAmt18 - fee in
     bnd (validateSellingGem (PSM_Vat m) gemAmt18) (\<lambda>_. Inr (daiAmt, fee))))))"

definition buyGem :: "PSM \<Rightarrow> bigint \<Rightarrow> (int \<times> int) go" where
  "buyGem m daiAmt =
     bnd (deref daiAmt) (\<lambda>d.
     bnd (deref (TOut m)) (\<lambda>tout.
     bnd (big_div (d * WAD) (tout + WAD)) (\<lambda>gemAmt18.
     bnd (validateBuyingGem (PSM_Vat m) gemAmt18) (\<lambda>_.
     let fee = d - gemAmt18 in
     bnd (deref (To18ConversionFactor m)) (\<lambda>c.
     bnd (big_div gemAmt18 c) (\<lambda>gemAmt. Inr (gemAmt, fee)))))))"

definition updateBalanceSellingGem :: "PSM \<Rightarrow> bigint \<Rightarrow> PSM go" where
  "updateBalanceSellingGem m gemAmt =
     bnd (deref gemAmt) (\<lambda>g.
     bnd (deref (To18ConversionFactor m)) (\<lambda>c.
     bnd (vat_updateBalanceSellingGem (PSM_Vat m) (g * c)) (\<lambda>v. Inr (m\<lparr>PSM_Vat := Some v\<rparr>))))"

definition updateBalanceBuyingGem :: "PSM \<Rightarrow> bigint \<Rightarrow> PSM go" where
  "updateBalanceBuyingGem m daiAmt =
     bnd (deref daiAmt) (\<lambda>d.
     bnd (deref (TOut m)) (\<lambda>tout.
     bnd (big_div (d * WAD) (tout + WAD)) (\<lambda>gemAmt18.
     bnd (vat_updateBalanceBuyingGem (PSM_Vat m) gemAmt18) (\<lambda>v. Inr (m\<lparr>PSM_Vat := Some v\<rparr>)))))"

subsection \<open>The simulator\<close>

text \<open>The loop over the tokens: the decimals of the last token that is not DAI.\<close>

fun gem_decimals :: "PoolToken list \<Rightarrow> int \<Rightarrow> int" where
  "gem_decimals [] gemDecimals = gemDecimals"
| "gem_decimals (poolToken # ts) gemDecimals =
     gem_decimals ts (if \<not> equal_fold (TokenAddress poolToken) DAIAddress then Decimals poolToken
                      else gemDecimals)"

definition NewPoolSimulator :: "(string \<Rightarrow> PSM go) \<Rightarrow> EntityPool \<Rightarrow> PoolSimulator go" where
  "NewPoolSimulator json_Unmarshal entityPool =
     bnd (json_Unmarshal (Extra_e entityPool)) (\<lambda>extra_PSM.
     Inr \<lparr>Info = \<lparr>Address = Address_e entityPool, Exchange = Exchange_e entityPool,
                  Type = Type_e entityPool, Tokens = map TokenAddress (Tokens_e entityPool),
                  Reserves = [], SwapFee = None, BlockNumber = BlockNumber_e entityPool\<rparr>,
          psm = extra_PSM\<lparr>To18ConversionFactor :=
                  Some (big_exp 10 (uint8 (18 - gem_decimals (Tokens_e entityPool) 0)))\<rparr>,
          gas = DefaultGas\<rparr>)"

definition CalcAmountOut ::
    "PoolSimulator \<Rightarrow> 'l CalcAmountOutParams \<Rightarrow> unit CalcAmountOutResult go" where
  "CalcAmountOut p param =
     (let tokenAmountIn = TokenAmountIn param; tokenOut = TokenOut param in
      if equal_fold (Token tokenAmountIn) DAIAddress
      then bnd (buyGem (psm p) (Amount tokenAmountIn)) (\<lambda>(daiAmt, fee).
           Inr \<lparr>TokenAmountOut = Some (token_amount tokenOut (Some daiAmt)),
                Fee = Some (token_amount tokenOut (Some fee)), RemainingTokenAmountIn = None,
                Gas = BuyGem (gas p), SwapInfo = None\<rparr>)
      else bnd (sellGem (psm p) (Amount tokenAmountIn)) (\<lambda>(gemAmt, fee).
           Inr \<lparr>TokenAmountOut = Some (token_amount tokenOut (Some gemAmt)),
                Fee = Some (token_amount (Token tokenAmountIn) (Some fee)),
                RemainingTokenAmountIn = None,
                Gas = SellGem (gas p), SwapInfo = None\<rparr>))"

definition UpdateBalance ::
    "PoolSimulator \<Rightarrow> (unit, 'l) UpdateBalanceParams \<Rightarrow> PoolSimulator go" where
  "UpdateBalance p params =
     (let input = TokenAmountIn_u params; output = TokenAmountOut_u params in
      if equal_fold (Token input) DAIAddress
      then bnd (updateBalanceBuyingGem (psm p) (Amount input)) (\<lambda>m. Inr (p\<lparr>psm := m\<rparr>))
      else bnd (updateBalanceSellingGem (psm p) (Amount output)) (\<lambda>m. Inr (p\<lparr>psm := m\<rparr>)))"

subsection \<open>Well-formed modules\<close>

text \<open>What the contract and the tracker give: every number is present, the fees and the debt are not
  negative, the fee for selling is at most the whole amount.\<close>

definition art_of :: "PoolSimulator \<Rightarrow> int" where
  "art_of p = the (Art (Vat_ILK (the (PSM_Vat (psm p)))))"

definition wf :: "PoolSimulator \<Rightarrow> bool" where
  "wf p = (case psm p of m \<Rightarrow> \<exists>tin tout c v art rate ilkLine debt line.
     m = \<lparr>TIn = Some tin, TOut = Some tout, PSM_Vat = Some v, To18ConversionFactor = Some c\<rparr> \<and>
     v = \<lparr>Vat_ILK = \<lparr>Art = Some art, Rate = Some rate, ILK_Line = Some ilkLine\<rparr>,
          Debt = Some debt, Line = Some line\<rparr> \<and>
     0 \<le> tin \<and> tin \<le> WAD \<and> 0 \<le> tout \<and> 0 < c \<and> 0 \<le> art \<and> 0 \<le> rate)"

lemma WAD_pos [simp]: "0 < WAD" "WAD \<noteq> 0"
  by (simp_all add: WAD_def BONE_def)

lemma psm_wfE:
  assumes "wf p"
  obtains tin tout c art rate ilkLine debt line where
    "psm p = \<lparr>TIn = Some tin, TOut = Some tout,
       PSM_Vat = Some \<lparr>Vat_ILK = \<lparr>Art = Some art, Rate = Some rate, ILK_Line = Some ilkLine\<rparr>,
                       Debt = Some debt, Line = Some line\<rparr>,
       To18ConversionFactor = Some c\<rparr>"
    "0 \<le> tin" "tin \<le> WAD" "0 \<le> tout" "0 < c" "0 \<le> art" "0 \<le> rate"
  using assms by (auto simp: wf_def)

text \<open>Fee arithmetic: what is left of an amount after the selling fee, and the gem a DAI amount buys,
  lie between zero and the amount.\<close>

lemma psm_after_tin:
  assumes "0 \<le> x" and "0 \<le> tin" and "tin \<le> WAD"
  shows "0 \<le> x - x * tin div WAD" and "x - x * tin div WAD \<le> x"
proof -
  have "x * tin \<le> x * WAD"
    using assms by (simp add: mult_left_mono)
  then have "x * tin div WAD \<le> x * WAD div WAD"
    by (rule zdiv_mono1) simp
  then show "0 \<le> x - x * tin div WAD"
    by simp
  show "x - x * tin div WAD \<le> x"
    using assms by (simp add: pos_imp_zdiv_nonneg_iff)
qed

lemma psm_after_tout:
  assumes "0 \<le> d" and "0 \<le> tout"
  shows "0 \<le> d * WAD div (tout + WAD)" and "d * WAD div (tout + WAD) \<le> d"
proof -
  have pos: "0 < tout + WAD"
    using assms(2) WAD_pos(1) by linarith
  then show "0 \<le> d * WAD div (tout + WAD)"
    using assms less_imp_le [OF WAD_pos(1)] by (simp add: pos_imp_zdiv_nonneg_iff)
  have "d * WAD \<le> d * (tout + WAD)"
    using assms by (simp add: mult_left_mono)
  then have "d * WAD div (tout + WAD) \<le> d * (tout + WAD) div (tout + WAD)"
    using pos by (rule zdiv_mono1)
  with pos show "d * WAD div (tout + WAD) \<le> d"
    by simp
qed

lemma psm_sell:
  assumes "psm p = \<lparr>TIn = Some tin, TOut = Some tout,
       PSM_Vat = Some \<lparr>Vat_ILK = \<lparr>Art = Some art, Rate = Some rate, ILK_Line = Some ilkLine\<rparr>,
                       Debt = Some debt, Line = Some line\<rparr>,
       To18ConversionFactor = Some c\<rparr>"
    and "\<not> equal_fold (Token (TokenAmountIn q)) DAIAddress" and "Amount (TokenAmountIn q) = Some g"
    and "CalcAmountOut p q = Inr r"
  shows "(art + g * c) * rate \<le> ilkLine" and "debt + rate * (g * c) \<le> line"
    and "TokenAmountOut r = Some (token_amount (TokenOut q) (Some (g * c - g * c * tin div WAD)))"
    and "UpdateBalance p (update_params q r) = Inr (p\<lparr>psm := (psm p)\<lparr>PSM_Vat :=
           Some \<lparr>Vat_ILK = \<lparr>Art = Some (art + (g * c - g * c * tin div WAD) * c), Rate = Some rate,
                            ILK_Line = Some ilkLine\<rparr>,
                 Debt = Some (debt + rate * ((g * c - g * c * tin div WAD) * c)), Line = Some line\<rparr>\<rparr>\<rparr>)"
  using assms
  by (auto simp: CalcAmountOut_def UpdateBalance_def sellGem_def validateSellingGem_def Let_def
      updateBalanceSellingGem_def vat_updateBalanceSellingGem_def update_params_def go_simps
      split: if_splits)

lemma psm_buy:
  assumes "psm p = \<lparr>TIn = Some tin, TOut = Some tout,
       PSM_Vat = Some \<lparr>Vat_ILK = \<lparr>Art = Some art, Rate = Some rate, ILK_Line = Some ilkLine\<rparr>,
                       Debt = Some debt, Line = Some line\<rparr>,
       To18ConversionFactor = Some c\<rparr>"
    and "0 \<le> tout" and "0 < c"
    and "equal_fold (Token (TokenAmountIn q)) DAIAddress" and "Amount (TokenAmountIn q) = Some d"
  shows "CalcAmountOut p q =
      (let x = d * WAD div (tout + WAD) in
       if x > art then Inl (Err ''ErrDebtCeilingExceeded'')
       else Inr \<lparr>TokenAmountOut = Some (token_amount (TokenOut q) (Some (x div c))),
                 Fee = Some (token_amount (TokenOut q) (Some (d - x))), RemainingTokenAmountIn = None,
                 Gas = BuyGem (gas p), SwapInfo = None\<rparr>)"
    and "UpdateBalance p (update_params q r) = Inr (p\<lparr>psm := (psm p)\<lparr>PSM_Vat :=
           Some \<lparr>Vat_ILK = \<lparr>Art = Some (art - d * WAD div (tout + WAD)), Rate = Some rate,
                            ILK_Line = Some ilkLine\<rparr>,
                 Debt = Some debt, Line = Some line\<rparr>\<rparr>\<rparr>)"
proof -
  have pos: "0 < tout + WAD"
    using assms(2) WAD_pos(1) by linarith
  show "CalcAmountOut p q =
      (let x = d * WAD div (tout + WAD) in
       if x > art then Inl (Err ''ErrDebtCeilingExceeded'')
       else Inr \<lparr>TokenAmountOut = Some (token_amount (TokenOut q) (Some (x div c))),
                 Fee = Some (token_amount (TokenOut q) (Some (d - x))), RemainingTokenAmountIn = None,
                 Gas = BuyGem (gas p), SwapInfo = None\<rparr>)"
    using assms pos by (simp add: CalcAmountOut_def buyGem_def validateBuyingGem_def Let_def)
  show "UpdateBalance p (update_params q r) = Inr (p\<lparr>psm := (psm p)\<lparr>PSM_Vat :=
           Some \<lparr>Vat_ILK = \<lparr>Art = Some (art - d * WAD div (tout + WAD)), Rate = Some rate,
                            ILK_Line = Some ilkLine\<rparr>,
                 Debt = Some debt, Line = Some line\<rparr>\<rparr>\<rparr>)"
    using assms pos
    by (simp add: UpdateBalance_def updateBalanceBuyingGem_def vat_updateBalanceBuyingGem_def Let_def)
qed

subsection \<open>Selling and buying back\<close>

definition request :: "string \<Rightarrow> int \<Rightarrow> string \<Rightarrow> unit CalcAmountOutParams" where
  "request tin a tout = \<lparr>TokenAmountIn = token_amount tin (Some a), TokenOut = tout, Limit = None\<rparr>"

lemma psm_buy_back:
  assumes "0 < c" and "0 \<le> g" and "0 \<le> tin" and "tin \<le> WAD" and "0 \<le> tout"
  shows "(g * c - g * c * tin div WAD) * WAD div (tout + WAD) div c \<le> g"
    and "tin = 0 \<Longrightarrow> tout = 0 \<Longrightarrow> (g * c - g * c * tin div WAD) * WAD div (tout + WAD) div c = g"
proof -
  have nn: "0 \<le> g * c"
    using assms by simp
  note t = psm_after_tin [OF nn assms(3,4)]
  have "(g * c - g * c * tin div WAD) * WAD div (tout + WAD) \<le> g * c"
    using psm_after_tout(2) [OF t(1) assms(5)] t(2) by linarith
  then have "(g * c - g * c * tin div WAD) * WAD div (tout + WAD) div c \<le> g * c div c"
    using assms(1) by (rule zdiv_mono1)
  with assms(1) show "(g * c - g * c * tin div WAD) * WAD div (tout + WAD) div c \<le> g"
    by simp
  show "tin = 0 \<Longrightarrow> tout = 0 \<Longrightarrow> (g * c - g * c * tin div WAD) * WAD div (tout + WAD) div c = g"
    using assms(1) by simp
qed

text \<open>C40: selling gem and buying back with the DAI received always succeeds, never returns more gem than
  was sold, and returns exactly the gem sold when both fees are zero.\<close>

theorem psm_round_trip:
  assumes "wf p" and "\<not> equal_fold gem DAIAddress" and "0 < g"
    and "CalcAmountOut p (request gem g DAIAddress) = Inr r"
  shows "\<exists>dai p' g' r'. TokenAmountOut r = Some (token_amount DAIAddress (Some dai)) \<and>
    UpdateBalance p (update_params (request gem g DAIAddress) r) = Inr p' \<and>
    CalcAmountOut p' (request DAIAddress dai gem) = Inr r' \<and>
    TokenAmountOut r' = Some (token_amount gem (Some g')) \<and> 0 \<le> g' \<and> g' \<le> g \<and>
    (TIn (psm p) = Some 0 \<and> TOut (psm p) = Some 0 \<longrightarrow> g' = g)"
proof -
  from assms(1) obtain tin tout c art rate ilkLine debt line where
    m: "psm p = \<lparr>TIn = Some tin, TOut = Some tout,
       PSM_Vat = Some \<lparr>Vat_ILK = \<lparr>Art = Some art, Rate = Some rate, ILK_Line = Some ilkLine\<rparr>,
                       Debt = Some debt, Line = Some line\<rparr>,
       To18ConversionFactor = Some c\<rparr>"
    and b: "0 \<le> tin" "tin \<le> WAD" "0 \<le> tout" "0 < c" "0 \<le> art" "0 \<le> rate"
    by (rule psm_wfE)
  define dai where "dai = g * c - g * c * tin div WAD"
  have nn: "0 \<le> g * c"
    using assms(3) b(4) by simp
  have dai0: "0 \<le> dai"
    unfolding dai_def by (rule psm_after_tin(1) [OF nn b(1,2)])
  note x = psm_after_tout [OF dai0 b(3)]
  note sell = psm_sell [OF m _ _ assms(4), of g, folded dai_def]
  define p' where "p' = p\<lparr>psm := (psm p)\<lparr>PSM_Vat :=
           Some \<lparr>Vat_ILK = \<lparr>Art = Some (art + dai * c), Rate = Some rate, ILK_Line = Some ilkLine\<rparr>,
                 Debt = Some (debt + rate * (dai * c)), Line = Some line\<rparr>\<rparr>\<rparr>"
  have m': "psm p' = \<lparr>TIn = Some tin, TOut = Some tout,
       PSM_Vat = Some \<lparr>Vat_ILK = \<lparr>Art = Some (art + dai * c), Rate = Some rate, ILK_Line = Some ilkLine\<rparr>,
                       Debt = Some (debt + rate * (dai * c)), Line = Some line\<rparr>,
       To18ConversionFactor = Some c\<rparr>"
    by (simp add: p'_def m)
  have "dai \<le> dai * c"
    using dai0 b(4) by (simp add: mult_le_cancel_left1)
  then have covered: "\<not> art + dai * c < dai * WAD div (tout + WAD)"
    using x(2) b(5) by linarith
  have "0 \<le> dai * WAD div (tout + WAD) div c"
    using x(1) b(4) by (simp add: pos_imp_zdiv_nonneg_iff)
  moreover have "dai * WAD div (tout + WAD) div c \<le> g"
    and "tin = 0 \<Longrightarrow> tout = 0 \<Longrightarrow> dai * WAD div (tout + WAD) div c = g"
    unfolding dai_def using psm_buy_back [OF b(4) _ b(1-3), of g] assms(3) by auto
  ultimately show ?thesis
    using sell psm_buy(1) [OF m' b(3,4), of "request DAIAddress dai gem"] covered assms(2)
    by - (rule exI [of _ dai], rule exI [of _ p'],
        rule exI [of _ "dai * WAD div (tout + WAD) div c"], simp add: request_def p'_def Let_def m)
qed

text \<open>A module for USDC (6 decimals, so the factor is \<open>10 ^ 12\<close>) with a 1 percent fee per direction.\<close>

definition usdc :: string where
  "usdc = ''0xa0b8''"

definition psm_ex :: "int \<Rightarrow> int \<Rightarrow> PoolSimulator" where
  "psm_ex ilkLine c =
     \<lparr>Info = \<lparr>Address = ''psm'', Exchange = ''maker-psm'', Type = ''maker-psm'', Tokens = [usdc, DAIAddress],
             Reserves = [], SwapFee = None, BlockNumber = 0\<rparr>,
      psm = \<lparr>TIn = Some (10 ^ 16), TOut = Some (10 ^ 16),
             PSM_Vat = Some \<lparr>Vat_ILK = \<lparr>Art = Some 0, Rate = Some 1, ILK_Line = Some ilkLine\<rparr>,
                             Debt = Some 0, Line = Some (10 ^ 60)\<rparr>,
             To18ConversionFactor = Some c\<rparr>,
      gas = DefaultGas\<rparr>"

lemma psm_ex_wf: "0 < c \<Longrightarrow> wf (psm_ex l c)"
  by (simp add: wf_def psm_ex_def WAD_def BONE_def)

lemma usdc_not_dai: "\<not> equal_fold usdc DAIAddress"
  by code_simp

theorem psm_round_trip_witness:
  "\<exists>r dai p' g' r'. CalcAmountOut (psm_ex (10 ^ 60) (10 ^ 12)) (request usdc 1000000 DAIAddress) = Inr r \<and>
    TokenAmountOut r = Some (token_amount DAIAddress (Some dai)) \<and>
    UpdateBalance (psm_ex (10 ^ 60) (10 ^ 12)) (update_params (request usdc 1000000 DAIAddress) r) = Inr p' \<and>
    CalcAmountOut p' (request DAIAddress dai usdc) = Inr r' \<and>
    TokenAmountOut r' = Some (token_amount usdc (Some g')) \<and> 0 \<le> g' \<and> g' \<le> 1000000"
proof -
  have "\<exists>r. CalcAmountOut (psm_ex (10 ^ 60) (10 ^ 12)) (request usdc 1000000 DAIAddress) = Inr r"
    using usdc_not_dai
    by (simp add: CalcAmountOut_def sellGem_def validateSellingGem_def psm_ex_def request_def Let_def
        WAD_def BONE_def)
  then obtain r where "CalcAmountOut (psm_ex (10 ^ 60) (10 ^ 12)) (request usdc 1000000 DAIAddress) = Inr r"
    by blast
  from this psm_round_trip [OF psm_ex_wf usdc_not_dai _ this] show ?thesis
    by fastforce
qed

subsection \<open>The debt ceilings\<close>

text \<open>Both ceilings the vat checks.\<close>

definition under_ceilings :: "PoolSimulator \<Rightarrow> bool" where
  "under_ceilings p = (case PSM_Vat (psm p) of None \<Rightarrow> False | Some v \<Rightarrow>
     the (Art (Vat_ILK v)) * the (Rate (Vat_ILK v)) \<le> the (ILK_Line (Vat_ILK v)) \<and>
     the (Debt v) \<le> the (Line v))"

definition unit_factor :: "PoolSimulator \<Rightarrow> bool" where
  "unit_factor p = (To18ConversionFactor (psm p) = Some 1)"

lemma psm_step_inv:
  assumes "swap_step (CalcAmountOut :: _ \<Rightarrow> 'l CalcAmountOutParams \<Rightarrow> _) UpdateBalance p p'"
    and "wf p" and "unit_factor p"
  shows "wf p'" and "unit_factor p'" and "under_ceilings p \<Longrightarrow> under_ceilings p'"
proof -
  from assms(1) obtain q :: "'l CalcAmountOutParams" and r where q: "valid_request q" "CalcAmountOut p q = Inr r"
    "UpdateBalance p (update_params q r) = Inr p'"
    by (rule swap_stepE)
  from q(1) obtain a where a: "Amount (TokenAmountIn q) = Some a" "0 < a"
    by (rule valid_requestE)
  from assms(2) obtain tin tout c art rate ilkLine debt line where
    m: "psm p = \<lparr>TIn = Some tin, TOut = Some tout,
       PSM_Vat = Some \<lparr>Vat_ILK = \<lparr>Art = Some art, Rate = Some rate, ILK_Line = Some ilkLine\<rparr>,
                       Debt = Some debt, Line = Some line\<rparr>,
       To18ConversionFactor = Some c\<rparr>"
    and b: "0 \<le> tin" "tin \<le> WAD" "0 \<le> tout" "0 < c" "0 \<le> art" "0 \<le> rate"
    by (rule psm_wfE)
  have c: "c = 1"
    using assms(3) by (simp add: unit_factor_def m)
  have "wf p' \<and> unit_factor p' \<and> (under_ceilings p \<longrightarrow> under_ceilings p')"
  proof (cases "equal_fold (Token (TokenAmountIn q)) DAIAddress")
    case True
    note buy = psm_buy [OF m b(3,4) True a(1)]
    define x where "x = a * WAD div (tout + WAD)"
    have x: "0 \<le> x" "x \<le> art"
      using psm_after_tout(1) [of a tout] a(2) b(3) buy(1) q(2)
      by (auto simp: x_def Let_def split: if_splits)
    then have "(art - x) * rate \<le> art * rate"
      using b(6) by (simp add: mult_right_mono)
    with x q(3) buy(2) [of r] m b c show ?thesis
      by (auto simp: wf_def unit_factor_def under_ceilings_def x_def)
  next
    case False
    note sell = psm_sell [OF m False a(1) q(2)]
    define dai where "dai = a - a * tin div WAD"
    have d: "0 \<le> dai" "dai \<le> a"
      unfolding dai_def using psm_after_tin [of a tin] a(2) b(1,2) by auto
    have "(art + dai) * rate \<le> (art + a) * rate" "rate * dai \<le> rate * a"
      using d b(6) by (auto intro: mult_right_mono mult_left_mono)
    with d q(3) sell m b c show ?thesis
      by (auto simp: wf_def unit_factor_def under_ceilings_def dai_def)
  qed
  then show "wf p'" and "unit_factor p'" and "under_ceilings p \<Longrightarrow> under_ceilings p'"
    by auto
qed

text \<open>For a gem with 18 decimals no sequence of swaps takes the module over the debt ceiling of its
  collateral or over the total one, and its debt never becomes negative.\<close>

theorem psm_ceilings_kept:
  assumes "(swap_step (CalcAmountOut :: _ \<Rightarrow> 'l CalcAmountOutParams \<Rightarrow> _) UpdateBalance)\<^sup>*\<^sup>* p p'"
    and "wf p" and "unit_factor p" and "under_ceilings p"
  shows "under_ceilings p' \<and> 0 \<le> art_of p'"
proof -
  have "wf p' \<and> unit_factor p' \<and> under_ceilings p'"
    using assms(1)
  proof (induction rule: rtranclp_induct)
    case base
    then show ?case using assms by simp
  next
    case (step p1 p2)
    then show ?case using psm_step_inv [OF step.hyps(2)] by blast
  qed
  then show ?thesis
    by (auto simp: art_of_def elim!: psm_wfE)
qed

theorem psm_ceilings_kept_witness:
  "\<exists>p'. (swap_step (CalcAmountOut :: _ \<Rightarrow> unit CalcAmountOutParams \<Rightarrow> _) UpdateBalance)\<^sup>*\<^sup>*
        (psm_ex 1000 1) p' \<and> p' \<noteq> psm_ex 1000 1 \<and> under_ceilings p' \<and> 0 \<le> art_of p'"
proof -
  let ?q = "request usdc 1000 DAIAddress"
  obtain r p' where r: "CalcAmountOut (psm_ex 1000 1) ?q = Inr r"
    and p': "UpdateBalance (psm_ex 1000 1) (update_params ?q r) = Inr p'" and ne: "p' \<noteq> psm_ex 1000 1"
    using usdc_not_dai
    by (simp add: CalcAmountOut_def UpdateBalance_def sellGem_def validateSellingGem_def psm_ex_def
        updateBalanceSellingGem_def vat_updateBalanceSellingGem_def request_def Let_def WAD_def BONE_def)
  have "valid_request ?q"
    by (simp add: valid_request_def request_def) code_simp
  then have run: "(swap_step (CalcAmountOut :: _ \<Rightarrow> unit CalcAmountOutParams \<Rightarrow> _) UpdateBalance)\<^sup>*\<^sup>*
      (psm_ex 1000 1) p'"
    using r p' by (intro r_into_rtranclp swap_step.swap)
  show ?thesis
    using run ne psm_ceilings_kept [OF run psm_ex_wf]
    by (intro exI [of _ p']) (simp add: unit_factor_def under_ceilings_def psm_ex_def)
qed

text \<open>For any other gem the update books \<open>To18ConversionFactor\<close> times the DAI paid out, although the
  quote checked the ceilings only for the DAI value of the gem: without a selling fee the debt grows by
  \<open>g * c * c\<close> instead of \<open>g * c\<close>, and when that is over the ceiling every later sale is refused.\<close>

theorem psm_debt_overbooked:
  assumes "wf p" and "\<not> equal_fold gem DAIAddress" and "0 < g" and "TIn (psm p) = Some 0"
    and "To18ConversionFactor (psm p) = Some c"
    and "CalcAmountOut p (request gem g DAIAddress) = Inr r"
  shows "\<exists>p'. UpdateBalance p (update_params (request gem g DAIAddress) r) = Inr p' \<and>
    art_of p' = art_of p + g * c * c \<and>
    (the (ILK_Line (Vat_ILK (the (PSM_Vat (psm p))))) <
       (art_of p + g * c * c) * the (Rate (Vat_ILK (the (PSM_Vat (psm p))))) \<longrightarrow>
     \<not> under_ceilings p' \<and>
     (\<forall>g' > 0. CalcAmountOut p' (request gem g' DAIAddress) = Inl (Err ''ErrDebtCeilingExceeded'')))"
proof -
  from assms(1) obtain tin tout c' art rate ilkLine debt line where
    m: "psm p = \<lparr>TIn = Some tin, TOut = Some tout,
       PSM_Vat = Some \<lparr>Vat_ILK = \<lparr>Art = Some art, Rate = Some rate, ILK_Line = Some ilkLine\<rparr>,
                       Debt = Some debt, Line = Some line\<rparr>,
       To18ConversionFactor = Some c'\<rparr>"
    and b: "0 \<le> tin" "tin \<le> WAD" "0 \<le> tout" "0 < c'" "0 \<le> art" "0 \<le> rate"
    by (rule psm_wfE)
  have e: "tin = 0" "c' = c"
    using assms(4,5) m by auto
  have up: "UpdateBalance p (update_params (request gem g DAIAddress) r) = Inr (p\<lparr>psm := (psm p)\<lparr>PSM_Vat :=
           Some \<lparr>Vat_ILK = \<lparr>Art = Some (art + g * c * c), Rate = Some rate, ILK_Line = Some ilkLine\<rparr>,
                 Debt = Some (debt + rate * (g * c * c)), Line = Some line\<rparr>\<rparr>\<rparr>)"
    using psm_sell(4) [OF m _ _ assms(6), of g] assms(2) e by (simp add: request_def)
  have more: "(art + g * c * c) * rate \<le> (art + g * c * c + g' * c) * rate" if "0 < g'" for g'
    using that b(4,6) e(2) by (intro mult_right_mono) auto
  then have "ilkLine < (art + g * c * c + g' * c) * rate"
    if "ilkLine < (art + g * c * c) * rate" "0 < g'" for g'
    using that by (meson less_le_trans)
  with up show ?thesis
    using assms(2) e
    by (simp add: m art_of_def under_ceilings_def CalcAmountOut_def sellGem_def validateSellingGem_def
        request_def Let_def)
qed

theorem psm_debt_overbooked_witness:
  "\<exists>r p'. let p = (psm_ex (10 ^ 18) (10 ^ 12))\<lparr>psm := (psm (psm_ex (10 ^ 18) (10 ^ 12)))\<lparr>TIn := Some 0\<rparr>\<rparr> in
     CalcAmountOut p (request usdc 1000000 DAIAddress) = Inr r \<and>
     UpdateBalance p (update_params (request usdc 1000000 DAIAddress) r) = Inr p' \<and>
     art_of p' = 10 ^ 30 \<and> \<not> under_ceilings p' \<and>
     CalcAmountOut p' (request usdc 1 DAIAddress) = Inl (Err ''ErrDebtCeilingExceeded'')"
proof -
  let ?p = "(psm_ex (10 ^ 18) (10 ^ 12))\<lparr>psm := (psm (psm_ex (10 ^ 18) (10 ^ 12)))\<lparr>TIn := Some 0\<rparr>\<rparr>"
  have wf: "wf ?p"
    by (simp add: wf_def psm_ex_def WAD_def BONE_def)
  obtain r where r: "CalcAmountOut ?p (request usdc 1000000 DAIAddress) = Inr r"
    using usdc_not_dai
    by (simp add: CalcAmountOut_def sellGem_def validateSellingGem_def psm_ex_def request_def Let_def)
  obtain p' where "UpdateBalance ?p (update_params (request usdc 1000000 DAIAddress) r) = Inr p'"
    "art_of p' = 10 ^ 30" "\<not> under_ceilings p'"
    "\<forall>g' > 0. CalcAmountOut p' (request usdc g' DAIAddress) = Inl (Err ''ErrDebtCeilingExceeded'')"
    using psm_debt_overbooked [OF wf usdc_not_dai _ _ _ r, of "10 ^ 12"]
    by (auto simp: psm_ex_def art_of_def)
  with r show ?thesis
    by (intro exI [of _ r] exI [of _ p']) (simp add: Let_def)
qed

subsection \<open>The constructor\<close>

text \<open>The conversion factor of a constructed simulator.  \<open>18 - gemDecimals\<close> is computed in \<open>uint8\<close>, so
  for a gem with more than 18 decimals it wraps around.\<close>

lemma psm_factor:
  assumes "NewPoolSimulator json ep = Inr p" and "gem_decimals (Tokens_e ep) 0 = d" and "0 \<le> d" and "d < 256"
  shows "To18ConversionFactor (psm p) = Some (if d \<le> 18 then 10 ^ nat (18 - d) else 10 ^ nat (274 - d))"
proof -
  have "uint8 (18 - d) = (if d \<le> 18 then 18 - d else 274 - d)"
  proof (cases "d \<le> 18")
    case True
    with assms(3) show ?thesis by (simp add: uint8_def)
  next
    case False
    have "(18 - d) mod 256 = (274 - d) mod 256"
      using mod_add_self2 [of "18 - d" 256] by simp
    also have "\<dots> = 274 - d"
      using False assms(4) by (intro mod_pos_pos_trivial) auto
    finally show ?thesis
      using False by (simp add: uint8_def)
  qed
  with assms show ?thesis
    by (auto simp: NewPoolSimulator_def go_simps big_exp_def)
qed

end
