(* ===== verification/Valueobject.thy ===== *)
theory Valueobject
  imports Bignumber
begin

text \<open>
  The package \<open>pkg/valueobject\<close>: chain identifiers and their names, the wrapped native token of each
  chain, and the conversions between native and wrapped addresses and amounts.  \<open>ChainID\<close> is a \<open>uint\<close>, kept as a non-negative integer;
  a map literal is an association list and a missing key yields the empty string, as in Go.
  \<open>common.Address\<close> helpers and the tables of exchange names carry no logic and are left out.
\<close>

type_synonym ChainID = int

definition ChainIDArc :: ChainID where
  "ChainIDArc = 5042"

definition NativeAddress :: string where
  "NativeAddress = ''0xEeeeeEeeeEeEeeEeEeEeeEEEeeeeEeeeeeeeEEeE''"

definition ZeroAddress :: string where
  "ZeroAddress = ''0x0000000000000000000000000000000000000000''"

definition ChainNameMap :: "(ChainID \<times> string) list" where
  "ChainNameMap =
    [(1, ''ethereum''),
     (3, ''ethereum-ropsten''),
     (4, ''ethereum-rinkeby''),
     (5, ''ethereum-goerli''),
     (10, ''optimism''),
     (42, ''ethereum-kovan''),
     (56, ''bsc''),
     (69, ''optimism-kovan''),
     (137, ''polygon''),
     (80001, ''mumbai''),
     (43114, ''avalanche''),
     (250, ''fantom''),
     (25, ''cronos''),
     (199, ''bttc''),
     (106, ''velas''),
     (1313161554, ''aurora''),
     (42262, ''oasis''),
     (42161, ''arbitrum''),
     (421611, ''arbitrum-rinkeby''),
     (10001, ''ethereum-w''),
     (43113, ''avalanche-fuji''),
     (59140, ''linea-goerli''),
     (59144, ''linea''),
     (324, ''zkSync''),
     (1101, ''polygon-zkevm''),
     (8453, ''base''),
     (534352, ''scroll''),
     (81457, ''blast''),
     (5000, ''mantle''),
     (146, ''sonic''),
     (80094, ''berachain''),
     (2020, ''ronin''),
     (130, ''unichain''),
     (999, ''hyperevm''),
     (9745, ''plasma''),
     (42793, ''etherlink''),
     (143, ''monad''),
     (4326, ''megaeth''),
     (4153, ''rise''),
     (4663, ''robinhood''),
     (5042, ''arc''),
     (0, ''solana'')]"

definition WrappedNativeMap :: "(ChainID \<times> string) list" where
  "WrappedNativeMap =
    [(1, ''0xC02aaA39b223FE8D0A0e5C4F27eAD9083C756Cc2''),
     (10001, ''0xC02aaA39b223FE8D0A0e5C4F27eAD9083C756Cc2''),
     (3, ''0xc778417E063141139Fce010982780140Aa0cD5Ab''),
     (4, ''0xc778417E063141139Fce010982780140Aa0cD5Ab''),
     (5, ''0xB4FBF271143F4FBf7B91A5ded31805e42b2208d6''),
     (42, ''0xd0A1E359811322d97991E03f863a0C30C2cF029C''),
     (56, ''0xbb4CdB9CBd36B01bD1cBaEBF2De08d9173bc095c''),
     (10, ''0x4200000000000000000000000000000000000006''),
     (69, ''0x4200000000000000000000000000000000000006''),
     (137, ''0x0d500B1d8E8eF31E21C99d1Db9A6444d3ADf1270''),
     (80001, ''0x19395624C030A11f58e820C3AeFb1f5960d9742a''),
     (43114, ''0xB31f66AA3C1e785363F0875A1B74E27b85FD66c7''),
     (250, ''0x21be370D5312f44cB42ce377BC9b8a0cEF1A4C83''),
     (25, ''0x5C7F8A570d578ED84E63fdFA7b1eE72dEae1AE23''),
     (199, ''0x8D193c6efa90BCFf940A98785d1Ce9D093d3DC8A''),
     (106, ''0xc579D1f3CF86749E05CD06f7ADe17856c2CE3126''),
     (1313161554, ''0xC9BdeEd33CD01541e1eeD10f90519d2C06Fe3feB''),
     (42262, ''0x21C718C22D52d0F3a789b752D4c2fD5908a8A733''),
     (42161, ''0x82aF49447D8a07e3bd95BD0d56f35241523fBab1''),
     (421611, ''0xB47e6A5f8b33b3F17603C83a0535A9dcD7E32681''),
     (59144, ''0xe5D7C2a44FfDDf6b295A15c148167daaAf5Cf34f''),
     (324, ''0x5AEa5775959fBC2557Cc8789bC1bf90A239D9a91''),
     (59140, ''0x2c1b868d6596a18e32e61b901e4060c872647b6c''),
     (1101, ''0x4f9a0e7fd2bf6067db6994cf12e4495df938e6e9''),
     (8453, ''0x4200000000000000000000000000000000000006''),
     (534352, ''0x5300000000000000000000000000000000000004''),
     (81457, ''0x4300000000000000000000000000000000000004''),
     (5000, ''0x78c1b0C915c4FAA5FffA6CAbf0219DA63d7f4cb8''),
     (146, ''0x039e2fB66102314Ce7b64Ce5Ce3E5183bc94aD38''),
     (80094, ''0x6969696969696969696969696969696969696969''),
     (2020, ''0xe514d9DEB7966c8BE0ca922de8a064264eA6bcd4''),
     (130, ''0x4200000000000000000000000000000000000006''),
     (999, ''0x5555555555555555555555555555555555555555''),
     (9745, ''0x6100E367285b01F48D07953803A2d8dCA5D19873''),
     (42793, ''0xc9B53AB2679f573e480d01e0f49e2B5CFB7a3EAb''),
     (143, ''0x3bd359C1119dA7Da1D913D1C4D2B7c461115433A''),
     (4326, ''0x4200000000000000000000000000000000000006''),
     (4153, ''0x4200000000000000000000000000000000000006''),
     (4663, ''0x0Bd7D308f8E1639FAb988df18A8011f41EAcAD73''),
     (5042, ''0x3600000000000000000000000000000000000000'')]"

definition map_get :: "(ChainID \<times> string) list \<Rightarrow> ChainID \<Rightarrow> string" where
  "map_get m chainID = (case map_of m chainID of None \<Rightarrow> [] | Some s \<Rightarrow> s)"

definition ToString :: "ChainID \<Rightarrow> string go" where
  "ToString chainID = (case map_of ChainNameMap chainID of
     Some name \<Rightarrow> Inr name
   | None \<Rightarrow> Inl (Err ''ErrChainUnsupported''))"

definition ChainID_String :: "ChainID \<Rightarrow> string" where
  "ChainID_String c = (case ToString c of
     Inl _ \<Rightarrow> big_string (int64 c)
   | Inr str \<Rightarrow> str)"

definition LowerWrapped :: "ChainID \<Rightarrow> string" where
  "LowerWrapped chainID = to_lower (map_get WrappedNativeMap chainID)"

definition IsWrappedNative :: "string \<Rightarrow> ChainID \<Rightarrow> bool" where
  "IsWrappedNative address chainID = equal_fold address (map_get WrappedNativeMap chainID)"

definition IsNative :: "string \<Rightarrow> bool" where
  "IsNative address = equal_fold address NativeAddress"

definition IsZero :: "string \<Rightarrow> bool" where
  "IsZero address = (address = ZeroAddress)"

definition IsNativeOrZero :: "string \<Rightarrow> bool" where
  "IsNativeOrZero address = (IsNative address \<or> IsZero address)"

definition WrapNativeLower :: "string \<Rightarrow> ChainID \<Rightarrow> string" where
  "WrapNativeLower token chainID =
     (if IsNative token then LowerWrapped chainID else to_lower token)"

definition ZeroToWrappedLower :: "string \<Rightarrow> ChainID \<Rightarrow> string" where
  "ZeroToWrappedLower address chainID =
     (if IsZero address then LowerWrapped chainID else to_lower address)"

definition WrapNativeZeroLower :: "string \<Rightarrow> ChainID \<Rightarrow> string" where
  "WrapNativeZeroLower token chainID =
     (if IsNativeOrZero token then LowerWrapped chainID else to_lower token)"

definition UnwrapNativeLower :: "string \<Rightarrow> ChainID \<Rightarrow> string" where
  "UnwrapNativeLower token chainID =
     to_lower (if IsWrappedNative token chainID then NativeAddress else token)"

definition arcNativeDecimalsScale :: int where
  "arcNativeDecimalsScale = 10 ^ 12"

definition WrapNativeAmount :: "ChainID \<Rightarrow> bigint \<Rightarrow> bigint go" where
  "WrapNativeAmount chainID amount =
     (if chainID \<noteq> ChainIDArc \<or> amount = None then Inr amount
      else bnd (deref amount) (\<lambda>a. bnd (big_quo a arcNativeDecimalsScale) (\<lambda>q. Inr (Some q))))"

definition UnwrapNativeAmount :: "ChainID \<Rightarrow> bigint \<Rightarrow> bigint go" where
  "UnwrapNativeAmount chainID amount =
     (if chainID \<noteq> ChainIDArc \<or> amount = None then Inr amount
      else bnd (deref amount) (\<lambda>a. Inr (Some (a * arcNativeDecimalsScale))))"

subsection \<open>The tables\<close>

definition supported :: "ChainID \<Rightarrow> bool" where
  "supported chainID = (chainID \<in> set (map fst WrappedNativeMap))"

lemma supported_code: "supported c = (map_of WrappedNativeMap c \<noteq> None)"
  by (simp add: supported_def map_of_eq_None_iff)

lemma wrapped_table_prefix:
  "\<forall>e \<in> set WrappedNativeMap. to_lower (take 5 (snd e)) \<noteq> ''0xeee'' \<and> snd e \<noteq> []"
  by code_simp

lemma wrapped_table:
  assumes "e \<in> set WrappedNativeMap"
  shows "to_lower (snd e) \<noteq> to_lower NativeAddress" and "snd e \<noteq> []"
proof -
  have "to_lower (take 5 NativeAddress) = ''0xeee''"
    by code_simp
  then show "to_lower (snd e) \<noteq> to_lower NativeAddress"
    using wrapped_table_prefix assms by (metis take_map to_lower_def)
  show "snd e \<noteq> []"
    using wrapped_table_prefix assms by blast
qed

lemma chain_names_distinct: "distinct (map snd ChainNameMap)"
  by code_simp

lemma wrapped_get:
  assumes "supported c"
  shows "(c, map_get WrappedNativeMap c) \<in> set WrappedNativeMap"
  using assms by (auto simp: supported_code map_get_def map_of_SomeD)

lemma wrapped_not_native: "supported c \<Longrightarrow> LowerWrapped c \<noteq> to_lower NativeAddress"
  using wrapped_table wrapped_get by (fastforce simp: LowerWrapped_def)

text \<open>A chain name identifies its chain.\<close>

lemma ToString_inj:
  assumes "ToString c = Inr n" and "ToString c' = Inr n"
  shows "c = c'"
proof -
  have "(c, n) \<in> set ChainNameMap" and "(c', n) \<in> set ChainNameMap"
    using assms by (auto simp: ToString_def map_of_SomeD split: option.splits)
  with chain_names_distinct show ?thesis
    by (metis distinct_map inj_onD prod.inject snd_conv)
qed

subsection \<open>Lower case\<close>

lemma wrap_native_cases:
  "WrapNativeLower t c = (if to_lower t = to_lower NativeAddress then LowerWrapped c else to_lower t)"
  "UnwrapNativeLower t c = (if to_lower t = LowerWrapped c then to_lower NativeAddress else to_lower t)"
  by (simp_all add: WrapNativeLower_def UnwrapNativeLower_def IsNative_def IsWrappedNative_def
      LowerWrapped_def equal_fold_def)

subsection \<open>Round trips\<close>

text \<open>On every chain of the table, wrapping and unwrapping an address are inverse up to lower case:
  the native token comes back from its wrapped form, and converting one way does not change what the
  other way gives.  On any other chain the native token wraps to the empty address.\<close>

theorem native_address_round_trip:
  "if supported c
   then UnwrapNativeLower (WrapNativeLower NativeAddress c) c = to_lower NativeAddress \<and>
     (\<forall>t. WrapNativeLower (UnwrapNativeLower t c) c = WrapNativeLower t c) \<and>
     (\<forall>t. UnwrapNativeLower (WrapNativeLower t c) c = UnwrapNativeLower t c)
   else WrapNativeLower NativeAddress c = [] \<and> IsWrappedNative [] c"
proof (cases "supported c")
  case True
  have "to_lower (LowerWrapped c) = LowerWrapped c"
    by (simp add: LowerWrapped_def)
  with True wrapped_not_native [OF True] show ?thesis
    by (simp add: wrap_native_cases)
next
  case False
  then have "map_get WrappedNativeMap c = []"
    by (simp add: supported_code map_get_def)
  with False show ?thesis
    by (simp add: wrap_native_cases LowerWrapped_def IsWrappedNative_def to_lower_def)
qed

text \<open>Wrapping an unwrapped amount gives it back on every chain; unwrapping a wrapped amount gives it
  back except on Arc, where less than \<open>10 ^ 12\<close> of the native unit is lost and never gained.\<close>

theorem native_amount_round_trip:
  "bnd (UnwrapNativeAmount c (Some a)) (WrapNativeAmount c) = Inr (Some a) \<and>
   (\<exists>b. bnd (WrapNativeAmount c (Some a)) (UnwrapNativeAmount c) = Inr (Some b) \<and>
        (if c = ChainIDArc then \<bar>b\<bar> \<le> \<bar>a\<bar> \<and> \<bar>a\<bar> - \<bar>b\<bar> < 10 ^ 12 \<and> b * a \<ge> 0 else b = a))"
proof (cases "c = ChainIDArc")
  case False
  then show ?thesis
    by (simp add: WrapNativeAmount_def UnwrapNativeAmount_def)
next
  case True
  have quo: "sgn a * sgn (10 ^ 12 :: int) * (\<bar>a\<bar> div \<bar>10 ^ 12\<bar>) * 10 ^ 12 = sgn a * (\<bar>a\<bar> div 10 ^ 12 * 10 ^ 12)"
    by simp
  have "\<bar>a\<bar> div 10 ^ 12 * 10 ^ 12 = \<bar>a\<bar> - \<bar>a\<bar> mod 10 ^ 12"
    by (rule minus_mod_eq_div_mult [symmetric])
  moreover have "0 \<le> \<bar>a\<bar> mod 10 ^ 12" "\<bar>a\<bar> mod 10 ^ 12 < 10 ^ 12"
    by simp_all
  moreover have "0 \<le> \<bar>a\<bar> div 10 ^ 12 * 10 ^ 12"
    by (simp add: pos_imp_zdiv_nonneg_iff)
  ultimately have "\<bar>sgn a * (\<bar>a\<bar> div 10 ^ 12 * 10 ^ 12)\<bar> \<le> \<bar>a\<bar> \<and>
      \<bar>a\<bar> - \<bar>sgn a * (\<bar>a\<bar> div 10 ^ 12 * 10 ^ 12)\<bar> < 10 ^ 12 \<and>
      0 \<le> sgn a * (\<bar>a\<bar> div 10 ^ 12 * 10 ^ 12) * a"
    by (cases a "0 :: int" rule: linorder_cases) (auto intro: mult_nonneg_nonneg mult_nonpos_nonpos)
  with True quo show ?thesis
    by (simp add: WrapNativeAmount_def UnwrapNativeAmount_def big_quo_def arcNativeDecimalsScale_def
        sgn_mult abs_mult mult_sgn_abs)
qed

end
