(* ===== verification/Lido_Steth.thy ===== *)
theory Lido_Steth
  imports Pool_Interface Valueobject
begin

text \<open>
  The package \<open>pkg/source/lido-steth\<close>: staking ETH with Lido.  The pool's reserves are the pooled ether
  and the number of shares; a deposit is converted to shares and back to stETH, rounding down twice.
\<close>

definition DefaultGas :: int where
  "DefaultGas = 60000"

record PoolSimulator = Pool +
  gas :: int
  chainID :: ChainID

definition NewPoolSimulator :: "EntityPool \<Rightarrow> ChainID \<Rightarrow> PoolSimulator go" where
  "NewPoolSimulator entityPool chain =
     (let numTokens = length (Tokens_e entityPool) in
      if numTokens \<noteq> 2 \<or> \<not> IsWrappedNative (TokenAddress (Tokens_e entityPool ! 0)) chain
      then Inl (Err ''invalid pool tokens %v, %v'')
      else if numTokens \<noteq> length (Reserves_e entityPool)
      then Inl (Err ''invalid pool reserves %v, %v'')
      else Inr \<lparr>Info = \<lparr>Address = to_lower (Address_e entityPool), Exchange = Exchange_e entityPool,
                       Type = Type_e entityPool, Tokens = map TokenAddress (Tokens_e entityPool),
                       Reserves = map NewBig10 (Reserves_e entityPool), SwapFee = None,
                       BlockNumber = BlockNumber_e entityPool\<rparr>,
                gas = DefaultGas, chainID = chain\<rparr>)"

definition CalcAmountOut ::
    "PoolSimulator \<Rightarrow> 'l CalcAmountOutParams \<Rightarrow> unit CalcAmountOutResult go" where
  "CalcAmountOut p param =
     (let tokenAmountIn = TokenAmountIn param; tokenOut = TokenOut param in
      bnd (idx (Tokens (Info p)) 1) (\<lambda>stEth.
      if \<not> IsWrappedNative (Token tokenAmountIn) (chainID p) \<or> \<not> equal_fold tokenOut stEth
      then Inl (Err ''invalid tokenIn/Out %v %v'')
      else
        bnd (idx (Reserves (Info p)) 0) (\<lambda>r0.
        bnd (idx (Reserves (Info p)) 1) (\<lambda>r1.
        bnd (deref (Amount tokenAmountIn)) (\<lambda>a.
        bnd (deref r1) (\<lambda>totalShares.
        bnd (deref r0) (\<lambda>totalPooledEther.
        bnd (big_div (a * totalShares) totalPooledEther) (\<lambda>shares.
        bnd (big_div (shares * totalPooledEther) totalShares) (\<lambda>amountOut.
        Inr \<lparr>TokenAmountOut = Some (token_amount tokenOut (Some amountOut)),
             Fee = Some (token_amount (Token tokenAmountIn) (Some 0)), RemainingTokenAmountIn = None,
             Gas = gas p, SwapInfo = None\<rparr>)))))))))"

definition UpdateBalance ::
    "PoolSimulator \<Rightarrow> (unit, 'l) UpdateBalanceParams \<Rightarrow> PoolSimulator go" where
  "UpdateBalance p params =
     (let input = TokenAmountIn_u params; output = TokenAmountOut_u params in
      bnd (idx (Tokens (Info p)) 0) (\<lambda>t0.
      bnd (big_at (Reserves (Info p)) 0) (\<lambda>_.
      bnd (if equal_fold (Token input) t0
           then bnd (deref (Amount input)) (\<lambda>a. bnd (add_at (Reserves (Info p)) 0 a) (\<lambda>rs.
                bnd (deref (Amount output)) (\<lambda>o'. add_at rs 1 o')))
           else bnd (deref (Amount output)) (\<lambda>o'. bnd (add_at (Reserves (Info p)) 0 o') (\<lambda>rs.
                bnd (deref (Amount input)) (\<lambda>a. bnd (deref (Amount (Fee_u params))) (\<lambda>fee.
                add_at rs 1 (a - fee))))))
      (\<lambda>rs. Inr (p\<lparr>Info := (Info p)\<lparr>Reserves := rs\<rparr>\<rparr>)))))"

definition CanSwapTo :: "PoolSimulator \<Rightarrow> string \<Rightarrow> string list go" where
  "CanSwapTo p address =
     bnd (idx (Tokens (Info p)) 1) (\<lambda>t1.
     if equal_fold t1 address then bnd (idx (Tokens (Info p)) 0) (\<lambda>t0. Inr [t0]) else Inr [])"

definition CanSwapFrom :: "PoolSimulator \<Rightarrow> string \<Rightarrow> string list go" where
  "CanSwapFrom p address =
     bnd (idx (Tokens (Info p)) 0) (\<lambda>t0.
     if equal_fold t0 address then bnd (idx (Tokens (Info p)) 1) (\<lambda>t1. Inr [t1]) else Inr [])"

definition SwapReceiveNativeIn :: "PoolSimulator \<Rightarrow> string \<Rightarrow> string \<Rightarrow> ChainID \<Rightarrow> bool" where
  "SwapReceiveNativeIn s tokenIn tokenOut chainId = IsWrappedNative tokenIn chainId"

definition SwapReturnNativeOut :: "PoolSimulator \<Rightarrow> string \<Rightarrow> string \<Rightarrow> ChainID \<Rightarrow> bool" where
  "SwapReturnNativeOut s tokenIn tokenOut chainId = IsWrappedNative tokenOut chainId"

subsection \<open>Well-formed pools\<close>

definition wf :: "PoolSimulator \<Rightarrow> bool" where
  "wf p = (\<exists>t0 t1 T S. Tokens (Info p) = [t0, t1] \<and> Reserves (Info p) = [Some T, Some S] \<and>
     IsWrappedNative t0 (chainID p) \<and> 0 < T \<and> 0 < S)"

lemma steth_constructor:
  assumes "NewPoolSimulator ep c = Inr p" and "map NewBig10 (Reserves_e ep) = [Some T, Some S]"
    and "0 < T" and "0 < S"
  shows "wf p"
  using assms
  by (cases "Tokens_e ep" rule: remdups_adj.cases)
    (auto simp: NewPoolSimulator_def wf_def Let_def length_Suc_conv numeral_2_eq_2 split: if_splits)

text \<open>Rounding: shares bought and converted back.\<close>

lemma steth_rounding:
  fixes a T S :: int
  assumes "0 \<le> a" and "0 < T" and "0 < S"
  defines "shares \<equiv> a * S div T"
  shows "shares * T div S \<le> a" and "a \<le> shares * T div S + T div S + 1"
    and "S \<le> T \<Longrightarrow> shares \<le> shares * T div S"
proof -
  have le: "shares * T \<le> a * S"
    using assms(2) pos_mod_sign [of T "a * S"] div_mult_mod_eq [of "a * S" T]
    unfolding shares_def by linarith
  then have "shares * T div S \<le> a * S div S"
    using assms(3) by (rule zdiv_mono1)
  with assms(3) show "shares * T div S \<le> a"
    by simp
  have "a * S < shares * T + T"
    using assms(2) pos_mod_bound [of T "a * S"] div_mult_mod_eq [of "a * S" T]
    unfolding shares_def by linarith
  then have "a * S div S \<le> (shares * T + T) div S"
    using assms(3) by (intro zdiv_mono1) auto
  also have "\<dots> \<le> shares * T div S + T div S + 1"
  proof -
    have "shares * T mod S + T mod S < 2 * S"
      using pos_mod_bound [OF assms(3), of "shares * T"] pos_mod_bound [OF assms(3), of T] by linarith
    then have "(shares * T mod S + T mod S) div S \<le> (S + (S - 1)) div S"
      using assms(3) by (intro zdiv_mono1) linarith+
    also have "\<dots> = 1"
      using assms(3) by (subst div_add_self1) simp_all
    finally show ?thesis
      by (simp add: div_add1_eq [of "shares * T" T S])
  qed
  finally show "a \<le> shares * T div S + T div S + 1"
    using assms(3) by simp
  have "0 \<le> shares"
    using assms by (simp add: shares_def pos_imp_zdiv_nonneg_iff)
  then show "shares \<le> shares * T div S" if "S \<le> T"
    using that zdiv_mono1 [of "shares * S" "shares * T" S] assms(3) by (simp add: mult_left_mono)
qed

lemma steth_CalcAmountOut:
  assumes "Tokens (Info p) = [t0, t1]" and "Reserves (Info p) = [Some T, Some S]" and "0 < T" and "0 < S"
    and "Amount (TokenAmountIn q) = Some a"
  shows "CalcAmountOut p q =
    (if \<not> IsWrappedNative (Token (TokenAmountIn q)) (chainID p) \<or> \<not> equal_fold (TokenOut q) t1
     then Inl (Err ''invalid tokenIn/Out %v %v'')
     else Inr \<lparr>TokenAmountOut = Some (token_amount (TokenOut q) (Some (a * S div T * T div S))),
               Fee = Some (token_amount (Token (TokenAmountIn q)) (Some 0)),
               RemainingTokenAmountIn = None, Gas = gas p, SwapInfo = None\<rparr>)"
  using assms by (simp add: CalcAmountOut_def Let_def)

text \<open>A well-formed Lido pool quotes every positive deposit of wrapped ether to stETH and rejects every
  other pair; the quote is at most the deposit and short of it by at most one share's worth of ether and
  one unit.  Applying it succeeds, adds the deposit to the pooled ether, and keeps the pool well formed;
  the share count grows by the stETH amount, which is at least the shares the deposit buys whenever a share
  is worth at least one ether.\<close>

theorem lido_steth_swap:
  assumes "wf p" and "Tokens (Info p) = [t0, t1]" and "Reserves (Info p) = [Some T, Some S]"
    and "Amount (TokenAmountIn q) = Some a" and "0 < a"
  shows "(\<not> IsWrappedNative (Token (TokenAmountIn q)) (chainID p) \<or> \<not> equal_fold (TokenOut q) t1 \<longrightarrow>
      CalcAmountOut p q = Inl (Err ''invalid tokenIn/Out %v %v'')) \<and>
    (IsWrappedNative (Token (TokenAmountIn q)) (chainID p) \<and> equal_fold (TokenOut q) t1 \<longrightarrow>
      (\<exists>r out p'. CalcAmountOut p q = Inr r \<and>
        TokenAmountOut r = Some (token_amount (TokenOut q) (Some out)) \<and>
        0 \<le> out \<and> out \<le> a \<and> a \<le> out + T div S + 1 \<and>
        UpdateBalance p (update_params q r) = Inr p' \<and> wf p' \<and>
        Reserves (Info p') = [Some (T + a), Some (S + out)] \<and>
        (S \<le> T \<longrightarrow> a * S div T \<le> out)))"
proof -
  have b: "0 < T" "0 < S" "IsWrappedNative t0 (chainID p)"
    using assms(1-3) by (auto simp: wf_def)
  define out where "out = a * S div T * T div S"
  have round: "out \<le> a" "a \<le> out + T div S + 1" "S \<le> T \<Longrightarrow> a * S div T \<le> out"
    unfolding out_def using steth_rounding [of a T S] assms(5) b by auto
  have nonneg: "0 \<le> out"
    using assms(5) b by (simp add: out_def pos_imp_zdiv_nonneg_iff)
  note calc = steth_CalcAmountOut [OF assms(2,3) b(1,2) assms(4), folded out_def]
  show ?thesis
  proof (cases "IsWrappedNative (Token (TokenAmountIn q)) (chainID p) \<and> equal_fold (TokenOut q) t1")
    case True
    then have "equal_fold (Token (TokenAmountIn q)) t0"
      using b(3) by (simp add: IsWrappedNative_def equal_fold_def)
    with True calc round nonneg b assms(2-5) show ?thesis
      by (simp add: UpdateBalance_def update_params_def Let_def wf_def)
  qed (use calc in simp)
qed

definition steth_ex :: PoolSimulator where
  "steth_ex = \<lparr>Info = \<lparr>Address = ''lido'', Exchange = ''lido-steth'', Type = ''lido-steth'',
      Tokens = [map_get WrappedNativeMap 1, ''steth''], Reserves = [Some 2000, Some 1000], SwapFee = None,
      BlockNumber = 0\<rparr>, gas = DefaultGas, chainID = 1\<rparr>"

theorem lido_steth_swap_witness:
  "\<exists>r p'. let q = \<lparr>TokenAmountIn = token_amount (map_get WrappedNativeMap 1) (Some 100), TokenOut = ''steth'',
        Limit = (None :: unit option)\<rparr> in
     CalcAmountOut steth_ex q = Inr r \<and> UpdateBalance steth_ex (update_params q r) = Inr p' \<and>
     Reserves (Info p') = [Some 2100, Some 1100] \<and> 100 * 1000 div 2000 = (50 :: int)"
proof -
  let ?q = "\<lparr>TokenAmountIn = token_amount (map_get WrappedNativeMap 1) (Some 100), TokenOut = ''steth'',
        Limit = (None :: unit option)\<rparr>"
  have "wf steth_ex" "Tokens (Info steth_ex) = [map_get WrappedNativeMap 1, ''steth'']"
    "Reserves (Info steth_ex) = [Some 2000, Some 1000]"
    by (simp_all add: wf_def steth_ex_def IsWrappedNative_def)
  from lido_steth_swap [OF this, of ?q 100] obtain r out p' where
    "CalcAmountOut steth_ex ?q = Inr r" "UpdateBalance steth_ex (update_params ?q r) = Inr p'"
    "Reserves (Info p') = [Some 2100, Some (1000 + out)]"
    "TokenAmountOut r = Some (token_amount ''steth'' (Some out))"
    by (auto simp: steth_ex_def IsWrappedNative_def)
  moreover from this have "out = 100"
    using steth_CalcAmountOut [of steth_ex "map_get WrappedNativeMap 1" "''steth''" 2000 1000 ?q 100]
    by (auto simp: steth_ex_def IsWrappedNative_def token_amount_def)
  ultimately show ?thesis
    by (auto simp: Let_def)
qed

end
