(* ===== verification/Lido.thy ===== *)
theory Lido
  imports Pool_Interface
begin

text \<open>
  The package \<open>pkg/source/lido\<close>: wrapping stETH into wstETH and back at the two rates read from the
  wstETH contract.  JSON decoding of the two extra strings is a parameter of the constructor.
\<close>

record Gas =
  Wrap :: int
  Unwrap :: int

definition DefaultGas :: Gas where
  "DefaultGas = \<lparr>Wrap = 50000, Unwrap = 50000\<rparr>"

record StaticExtra =
  SE_LpToken :: string

record Extra =
  E_StEthPerToken :: bigint
  E_TokensPerStEth :: bigint

record PoolSimulator = Pool +
  StEthPerToken :: bigint
  TokensPerStEth :: bigint
  LpToken :: string
  gas :: Gas

text \<open>The loop over the tokens reads a reserve per token, and panics when there are fewer.\<close>

definition NewPoolSimulator ::
    "(string \<Rightarrow> StaticExtra go) \<Rightarrow> (string \<Rightarrow> Extra go) \<Rightarrow> EntityPool \<Rightarrow> PoolSimulator go" where
  "NewPoolSimulator unmarshal_static unmarshal_extra entityPool =
     bnd (unmarshal_static (StaticExtra_e entityPool)) (\<lambda>staticExtra.
     bnd (go_map (\<lambda>i. bnd (idx (Reserves_e entityPool) i) (\<lambda>r. Inr (NewBig10 r)))
            (range_n (length (Tokens_e entityPool)))) (\<lambda>reserves.
     bnd (unmarshal_extra (Extra_e entityPool)) (\<lambda>extraStr.
     Inr \<lparr>Info = \<lparr>Address = to_lower (Address_e entityPool), Exchange = Exchange_e entityPool,
                  Type = Type_e entityPool, Tokens = map TokenAddress (Tokens_e entityPool),
                  Reserves = reserves, SwapFee = Some 0, BlockNumber = BlockNumber_e entityPool\<rparr>,
          StEthPerToken = E_StEthPerToken extraStr, TokensPerStEth = E_TokensPerStEth extraStr,
          LpToken = SE_LpToken staticExtra, gas = DefaultGas\<rparr>)))"

definition CalcAmountOut ::
    "PoolSimulator \<Rightarrow> 'l CalcAmountOutParams \<Rightarrow> unit CalcAmountOutResult go" where
  "CalcAmountOut p param =
     (let tokenAmountIn = TokenAmountIn param; tokenOut = TokenOut param in
      bnd (if equal_fold tokenOut (LpToken p)
           then bnd (deref (Amount tokenAmountIn)) (\<lambda>a. bnd (deref (TokensPerStEth p)) (\<lambda>rate.
                bnd (big_div (a * rate) BONE) (\<lambda>amountOut. Inr (amountOut, Wrap (gas p)))))
           else bnd (deref (Amount tokenAmountIn)) (\<lambda>a. bnd (deref (StEthPerToken p)) (\<lambda>rate.
                bnd (big_div (a * rate) BONE) (\<lambda>amountOut. Inr (amountOut, Unwrap (gas p))))))
      (\<lambda>(amountOut, totalGas).
      Inr \<lparr>TokenAmountOut = Some (token_amount tokenOut (Some amountOut)),
           Fee = Some (token_amount (Token tokenAmountIn) None), RemainingTokenAmountIn = None,
           Gas = totalGas, SwapInfo = None\<rparr>))"

definition UpdateBalance ::
    "PoolSimulator \<Rightarrow> (unit, 'l) UpdateBalanceParams \<Rightarrow> PoolSimulator go" where
  "UpdateBalance p params = Inr p"

subsection \<open>Rates\<close>

text \<open>The contract computes both rates from the same pool, rounding down, so their product is at most
  one in fixed point.\<close>

definition wf :: "PoolSimulator \<Rightarrow> bool" where
  "wf p = (\<exists>spt tps. StEthPerToken p = Some spt \<and> TokensPerStEth p = Some tps \<and> 0 \<le> spt \<and> 0 \<le> tps \<and>
     spt * tps \<le> BONE * BONE)"

lemma rate_round_trip:
  fixes a x y :: int
  assumes "0 \<le> a" and "0 \<le> x" and "0 \<le> y" and "x * y \<le> BONE * BONE"
  shows "a * x div BONE * y div BONE \<le> a"
proof -
  have "a * x div BONE * BONE \<le> a * x"
    using pos_mod_sign [of BONE "a * x"] div_mult_mod_eq [of "a * x" BONE] BONE_pos(1) by linarith
  then have "a * x div BONE * BONE * y \<le> a * x * y"
    using assms(3) by (rule mult_right_mono)
  also have "\<dots> \<le> a * BONE * BONE"
    using mult_left_mono [OF assms(4,1)] by (simp add: mult.assoc)
  finally have "a * x div BONE * y * BONE \<le> a * BONE * BONE"
    by (simp add: mult.assoc mult.commute mult.left_commute)
  then have "a * x div BONE * y \<le> a * BONE"
    by simp
  then have "a * x div BONE * y div BONE \<le> a * BONE div BONE"
    by (rule zdiv_mono1) simp
  then show ?thesis
    by simp
qed

definition request :: "string \<Rightarrow> int \<Rightarrow> string \<Rightarrow> unit CalcAmountOutParams" where
  "request tin a tout = \<lparr>TokenAmountIn = token_amount tin (Some a), TokenOut = tout, Limit = None\<rparr>"

lemma lido_quote:
  assumes "StEthPerToken p = Some spt" and "TokensPerStEth p = Some tps"
  shows "CalcAmountOut p (request tin a tout) = Inr
     \<lparr>TokenAmountOut = Some (token_amount tout
        (Some (a * (if equal_fold tout (LpToken p) then tps else spt) div BONE))),
      Fee = Some (token_amount tin None), RemainingTokenAmountIn = None,
      Gas = (if equal_fold tout (LpToken p) then Wrap (gas p) else Unwrap (gas p)), SwapInfo = None\<rparr>"
  using assms by (simp add: CalcAmountOut_def request_def Let_def)

text \<open>With the rates of the contract, wrapping and unwrapping back (or the other way round) always
  succeeds and never returns more than was put in; the pool is unchanged by it.\<close>

theorem lido_round_trip:
  assumes "wf p" and "0 \<le> a" and "equal_fold tout (LpToken p) \<noteq> equal_fold tin (LpToken p)"
  shows "\<exists>r b p' r' c. CalcAmountOut p (request tin a tout) = Inr r \<and>
    TokenAmountOut r = Some (token_amount tout (Some b)) \<and> 0 \<le> b \<and>
    UpdateBalance p (update_params (request tin a tout) r) = Inr p' \<and> p' = p \<and>
    CalcAmountOut p' (request tout b tin) = Inr r' \<and>
    TokenAmountOut r' = Some (token_amount tin (Some c)) \<and> 0 \<le> c \<and> c \<le> a"
proof -
  from assms(1) obtain spt tps where rates: "StEthPerToken p = Some spt" "TokensPerStEth p = Some tps"
    "0 \<le> spt" "0 \<le> tps" "spt * tps \<le> BONE * BONE"
    by (auto simp: wf_def)
  have nn: "0 \<le> x * y div BONE" if "0 \<le> x" "0 \<le> y" for x y
    using that by (simp add: pos_imp_zdiv_nonneg_iff)
  have le: "a * tps div BONE * spt div BONE \<le> a" "a * spt div BONE * tps div BONE \<le> a"
    using rate_round_trip [of a tps spt] rate_round_trip [of a spt tps] rates assms(2)
    by (simp_all add: mult.commute)
  show ?thesis
    using assms(2,3) rates nn le by (auto simp: lido_quote UpdateBalance_def token_amount_eq)
qed

definition lido_ex :: PoolSimulator where
  "lido_ex = \<lparr>Info = \<lparr>Address = ''wsteth'', Exchange = ''lido'', Type = ''lido'', Tokens = [''steth'', ''wsteth''],
      Reserves = [Some 0, Some 0], SwapFee = Some 0, BlockNumber = 0\<rparr>,
      StEthPerToken = Some 1200000000000000000, TokensPerStEth = Some 833333333333333333,
      LpToken = ''wsteth'', gas = DefaultGas\<rparr>"

theorem lido_round_trip_witness:
  "\<exists>r b r' c. CalcAmountOut lido_ex (request ''steth'' 1000 ''wsteth'') = Inr r \<and>
    TokenAmountOut r = Some (token_amount ''wsteth'' (Some b)) \<and>
    CalcAmountOut lido_ex (request ''wsteth'' b ''steth'') = Inr r' \<and>
    TokenAmountOut r' = Some (token_amount ''steth'' (Some c)) \<and> c \<le> 1000"
proof -
  have "wf lido_ex"
    by (simp add: wf_def lido_ex_def BONE_def)
  moreover have "equal_fold ''wsteth'' (LpToken lido_ex) \<noteq> equal_fold ''steth'' (LpToken lido_ex)"
    by (simp add: lido_ex_def equal_fold_def to_lower_def)
  ultimately show ?thesis
    using lido_round_trip [of lido_ex 1000 "''wsteth''" "''steth''"] by auto
qed

end
