(* ===== verification/Limit_Order.thy ===== *)
theory Limit_Order
  imports Pool_Interface Valueobject "HOL-Library.AList" "HOL-Library.Sublist" "HOL-Library.List_Lexorder" "HOL-Library.Char_ord"
begin

text \<open>
  The package \<open>pkg/source/limitorder\<close>: a pool made of signed limit orders.  A quote walks the orders of
  one side, best price first, filling each completely until the last one is filled in part, and appends
  spare (fallback) orders behind it.  \<open>UpdateBalance\<close> books the fills into the orders and into the swap
  limit, which holds what each maker can still pay.

  \<^item> An order keeps the fields the code computes with; the strings it only passes on to the caller are
    grouped in \<open>order_details\<close>.  \<open>ordersMapping\<close> is a map from identifiers to orders; since the pool
    holds the only pointer to each of its orders, updating the map entry is updating the order.
  \<^item> A \<open>pool.SwapLimit\<close> is a record of its methods over a state \<open>'l\<close>.
  \<^item> Third-party code is a record of parameters, \<open>deps\<close>: \<open>lo.Filter\<close>, \<open>lo.Map\<close> and \<open>lo.Contains\<close> of
    \<open>samber/lo\<close>, \<open>common.HexToAddress\<close> and the zero address of go-ethereum.
  \<^item> The 1.3 threshold is computed in \<open>big.Float\<close>: \<open>SetInt\<close> is exact, the product is rounded to the
    larger precision of its operands.
\<close>

subsection \<open>Constants\<close>

definition DexTypeLimitOrder :: string where
  "DexTypeLimitOrder = ''limit-order''"

definition Buy :: string where
  "Buy = ''BUY''"

definition Sell :: string where
  "Sell = ''SELL''"

definition BaseGas :: int where
  "BaseGas = 90000"

definition GasPerOrderExecutor :: int where
  "GasPerOrderExecutor = 100000"

definition GasPerOrderRouter :: int where
  "GasPerOrderRouter = 12208"

text \<open>The \<open>float64\<close> nearest to 1.3.\<close>

definition FallbackPercentageOfTotalMakingAmount :: float64 where
  "FallbackPercentageOfTotalMakingAmount = (5854679515581645, -52)"

subsection \<open>Data\<close>

record order_details =
  OrderHash :: string
  Salt :: string
  Signature :: string
  Receiver :: string
  FeeRecipient :: string
  MakerAssetData :: string
  TakerAssetData :: string
  GetMakerAmount :: string
  GetTakerAmount :: string
  Predicate :: string
  Permit :: string
  Interaction :: string

record order =
  ID :: int
  MakerAsset :: string
  TakerAsset :: string
  Maker :: string
  AllowedSenders :: string
  MakingAmount :: bigint
  TakingAmount :: bigint
  FeeConfig :: bigint
  FilledMakingAmount :: bigint
  FilledTakingAmount :: bigint
  MakerTokenFeePercent :: int \<comment> \<open>\<open>uint32\<close>\<close>
  IsTakerAssetFee :: bool
  AvailableMakingAmount :: bigint
  MakerBalanceAllowance :: bigint
  details :: order_details

record FilledOrderInfo =
  OrderID :: int
  FilledTakingAmount_f :: string
  FilledMakingAmount_f :: string
  FeeAmount :: string
  TakingAmount_f :: string
  MakingAmount_f :: string
  MakerAsset_f :: string
  TakerAsset_f :: string
  Maker_f :: string
  AllowedSenders_f :: string
  FeeConfig_f :: string
  MakerTokenFeePercent_f :: int
  IsFallBack :: bool
  details_f :: order_details

record SwapInfo =
  AmountIn :: string
  SwapSide :: string
  FilledOrders :: "FilledOrderInfo list"

definition empty_swap_info :: SwapInfo where
  "empty_swap_info = \<lparr>AmountIn = [], SwapSide = [], FilledOrders = []\<rparr>"

record Extra =
  SellOrders :: "order option list"
  BuyOrders :: "order option list"

record 'l SwapLimit =
  get_limit :: "'l \<Rightarrow> string \<Rightarrow> bigint"
  get_allowed_senders :: "'l \<Rightarrow> string"
  update_limit :: "'l \<Rightarrow> string \<Rightarrow> string \<Rightarrow> int \<Rightarrow> int \<Rightarrow> 'l go"

record 'addr deps =
  lo_Filter_string :: "string list \<Rightarrow> (string \<Rightarrow> int \<Rightarrow> bool) \<Rightarrow> string list"
  lo_Filter_int64 :: "int list \<Rightarrow> (int \<Rightarrow> int \<Rightarrow> bool) \<Rightarrow> int list"
  lo_Map_address :: "string list \<Rightarrow> (string \<Rightarrow> int \<Rightarrow> 'addr) \<Rightarrow> 'addr list"
  lo_Contains :: "'addr list \<Rightarrow> 'addr \<Rightarrow> bool"
  HexToAddress :: "string \<Rightarrow> 'addr"
  AddrZero :: 'addr

record PoolSimulator = Pool +
  ordersMapping :: "int \<rightharpoonup> order"
  sellOrderIDs :: "int list"
  buyOrderIDs :: "int list"
  contractAddress :: string
  allMakersBalanceAllowance :: "(string \<times> int) list"

definition NewMakerAndAsset :: "string \<Rightarrow> string \<Rightarrow> string" where
  "NewMakerAndAsset maker makerAsset = maker @ '':'' @ makerAsset"

subsection \<open>Remaining amounts\<close>

definition addFilledMakingAmount :: "(string \<rightharpoonup> int) \<Rightarrow> string \<Rightarrow> int \<Rightarrow> (string \<rightharpoonup> int)" where
  "addFilledMakingAmount filledMakingAmountByMaker maker filledMakingAmount =
     (case filledMakingAmountByMaker maker of
        Some totalFilled \<Rightarrow> filledMakingAmountByMaker(maker \<mapsto> totalFilled + filledMakingAmount)
      | None \<Rightarrow> filledMakingAmountByMaker(maker \<mapsto> filledMakingAmount))"

definition getMakerRemainingBalance ::
    "'l SwapLimit \<Rightarrow> 'l option \<Rightarrow> (string \<rightharpoonup> int) \<Rightarrow> string \<Rightarrow> string \<Rightarrow> bigint" where
  "getMakerRemainingBalance sl limit filledMakingAmountByMaker maker makerAsset =
     (case limit of
        None \<Rightarrow> None
      | Some l \<Rightarrow>
          (case get_limit sl l (NewMakerAndAsset maker makerAsset) of
             None \<Rightarrow> Some 0
           | Some makerBalanceAllowance \<Rightarrow>
               (case filledMakingAmountByMaker maker of
                  Some totalFilled \<Rightarrow> Some (makerBalanceAllowance - totalFilled)
                | None \<Rightarrow> Some makerBalanceAllowance)))"

definition RemainingAmount ::
    "'l SwapLimit \<Rightarrow> 'l option \<Rightarrow> (string \<rightharpoonup> int) \<Rightarrow> order \<Rightarrow> (int \<times> int) go" where
  "RemainingAmount sl limit filledMakingAmountByMaker ord =
     (case AvailableMakingAmount ord of
        None \<Rightarrow>
          bnd (deref (MakingAmount ord)) (\<lambda>m. bnd (deref (FilledMakingAmount ord)) (\<lambda>fm.
          bnd (deref (TakingAmount ord)) (\<lambda>t. bnd (deref (FilledTakingAmount ord)) (\<lambda>ft.
          Inr (m - fm, t - ft)))))
      | Some available \<Rightarrow>
          let makingAmount =
            (case getMakerRemainingBalance sl limit filledMakingAmountByMaker (Maker ord) (MakerAsset ord) of
               Some makerRemainingBalance \<Rightarrow>
                 if available > makerRemainingBalance then makerRemainingBalance else available
             | None \<Rightarrow> available) in
          bnd (deref (TakingAmount ord)) (\<lambda>t. bnd (deref (MakingAmount ord)) (\<lambda>m.
          bnd (big_div (makingAmount * t) m) (\<lambda>takingAmount. Inr (makingAmount, takingAmount)))))"

subsection \<open>Fees\<close>

definition calcMakerAssetFeeAmount :: "order \<Rightarrow> int \<Rightarrow> int go" where
  "calcMakerAssetFeeAmount ord filledMakingAmount =
     (if IsTakerAssetFee ord then Inr 0
      else if MakerTokenFeePercent ord = 0 then Inr 0
      else big_div (filledMakingAmount * MakerTokenFeePercent ord + BasisPoint - 1) BasisPoint)"

definition calcTakerAssetFeeAmountExactIn :: "order \<Rightarrow> int \<Rightarrow> (int \<times> int) go" where
  "calcTakerAssetFeeAmountExactIn ord takingAmount =
     (if \<not> IsTakerAssetFee ord then Inr (takingAmount, 0)
      else if MakerTokenFeePercent ord = 0 then Inr (takingAmount, 0)
      else bnd (big_div (takingAmount * BasisPoint) (MakerTokenFeePercent ord + BasisPoint))
             (\<lambda>takingAmountAfterFee. Inr (takingAmountAfterFee, takingAmount - takingAmountAfterFee)))"

definition calcTakerAssetFeeAmountExactOut :: "order \<Rightarrow> int \<Rightarrow> (int \<times> int) go" where
  "calcTakerAssetFeeAmountExactOut ord takingAmountAfterFee =
     (if \<not> IsTakerAssetFee ord then Inr (takingAmountAfterFee, 0)
      else if MakerTokenFeePercent ord = 0 then Inr (takingAmountAfterFee, 0)
      else bnd (big_div (takingAmountAfterFee * MakerTokenFeePercent ord + (BasisPoint - 1)) BasisPoint)
             (\<lambda>fee. Inr (takingAmountAfterFee + fee, fee)))"

definition divCeil :: "int \<Rightarrow> int \<Rightarrow> int go" where
  "divCeil a b = big_div (a + b - 1) b"

definition calcMakerAssetAmountBeforeFee :: "order \<Rightarrow> int \<Rightarrow> (int \<times> int) go" where
  "calcMakerAssetAmountBeforeFee ord makingAmount =
     (if IsTakerAssetFee ord then Inr (makingAmount, 0)
      else if MakerTokenFeePercent ord = 0 then Inr (makingAmount, 0)
      else bnd (divCeil (makingAmount * BasisPoint) (BasisPoint - MakerTokenFeePercent ord))
             (\<lambda>makingAmountBeforeFee. Inr (makingAmountBeforeFee, makingAmount - makingAmountBeforeFee)))"

subsection \<open>Filled orders\<close>

definition big_String :: "bigint \<Rightarrow> string" where
  "big_String x = (case x of None \<Rightarrow> ''<nil>'' | Some i \<Rightarrow> big_string i)"

definition newFilledOrderInfo :: "order \<Rightarrow> string \<Rightarrow> string \<Rightarrow> string \<Rightarrow> FilledOrderInfo" where
  "newFilledOrderInfo ord filledTakingAmount filledMakingAmount feeAmount =
     \<lparr>OrderID = ID ord, FilledTakingAmount_f = filledTakingAmount,
      FilledMakingAmount_f = filledMakingAmount, FeeAmount = feeAmount,
      TakingAmount_f = big_String (TakingAmount ord), MakingAmount_f = big_String (MakingAmount ord),
      MakerAsset_f = MakerAsset ord, TakerAsset_f = TakerAsset ord, Maker_f = Maker ord,
      AllowedSenders_f = AllowedSenders ord,
      FeeConfig_f = (case FeeConfig ord of None \<Rightarrow> [] | Some c \<Rightarrow> big_string c),
      MakerTokenFeePercent_f = MakerTokenFeePercent ord, IsFallBack = False, details_f = details ord\<rparr>"

definition newFallbackOrderInfo :: "order \<Rightarrow> FilledOrderInfo" where
  "newFallbackOrderInfo ord = (newFilledOrderInfo ord ''0'' ''0'' ''0'')\<lparr>IsFallBack := True\<rparr>"

text \<open>\<open>new(big.Float).SetInt(x).Mul(1.3)\<close> and the comparison of an integer with it.\<close>

definition fallback_threshold :: "int \<Rightarrow> float64" where
  "fallback_threshold amount =
     big_float_mul (max 64 (bit_length \<bar>amount\<bar>)) (amount, 0) FallbackPercentageOfTotalMakingAmount"

definition reaches :: "int \<Rightarrow> float64 \<Rightarrow> bool" where
  "reaches amount threshold =
     (if 0 \<le> snd threshold then fst threshold * 2 ^ nat (snd threshold) \<le> amount
      else fst threshold \<le> amount * 2 ^ nat (- snd threshold))"

text \<open>The inner loop: spare orders until their total reaches the threshold.\<close>

fun fallback_loop ::
    "'l SwapLimit \<Rightarrow> 'l option \<Rightarrow> (int \<rightharpoonup> order) \<Rightarrow> (string \<rightharpoonup> int) \<Rightarrow> float64 \<Rightarrow> int list \<Rightarrow> int \<Rightarrow>
     FilledOrderInfo list \<Rightarrow> FilledOrderInfo list go" where
  "fallback_loop sl limit om filledBy threshold [] totalMaking fs = Inr fs"
| "fallback_loop sl limit om filledBy threshold (orderID # ids) totalMaking fs =
     (if reaches totalMaking threshold then Inr fs
      else case om orderID of
        None \<Rightarrow> fallback_loop sl limit om filledBy threshold ids totalMaking fs
      | Some ord \<Rightarrow>
          bnd (RemainingAmount sl limit filledBy ord) (\<lambda>(remMaking, remTaking).
          if remMaking \<le> 0 \<or> remTaking \<le> 0
          then fallback_loop sl limit om filledBy threshold ids totalMaking fs
          else fallback_loop sl limit om filledBy threshold ids (totalMaking + remMaking)
                 (fs @ [newFallbackOrderInfo ord])))"

subsection \<open>Selecting orders\<close>

definition getOrderIDsBySwapSide :: "PoolSimulator \<Rightarrow> string \<Rightarrow> int list" where
  "getOrderIDsBySwapSide p swapSide = (if swapSide = Buy then buyOrderIDs p else sellOrderIDs p)"

definition getSwapSide :: "string \<Rightarrow> string \<Rightarrow> string" where
  "getSwapSide tokenIn tokenOut = (if to_lower tokenIn > to_lower tokenOut then Sell else Buy)"

fun split_comma :: "string \<Rightarrow> string list" where
  "split_comma [] = [[]]"
| "split_comma (c # cs) =
     (if c = CHR '','' then [] # split_comma cs
      else case split_comma cs of [] \<Rightarrow> [[c]] | w # ws \<Rightarrow> (c # w) # ws)"

text \<open>The callback of the last \<open>lo.Filter\<close> dereferences the order of each identifier.\<close>

definition filterOrdersByAllowedSenders ::
    "'addr deps \<Rightarrow> PoolSimulator \<Rightarrow> int list \<Rightarrow> string \<Rightarrow> int list go" where
  "filterOrdersByAllowedSenders d p orderIDs allowedSenders =
     (let allowedSendersSlice = lo_Filter_string d (split_comma allowedSenders) (\<lambda>s _. s \<noteq> []) in
      if length allowedSendersSlice = 0 then Inr orderIDs
      else
        let allowedSendersAddress = lo_Map_address d allowedSendersSlice (\<lambda>s _. HexToAddress d s) in
        bnd (go_map (\<lambda>orderID. deref (ordersMapping p orderID)) orderIDs) (\<lambda>_.
        Inr (lo_Filter_int64 d orderIDs (\<lambda>orderID _.
          let orderAllowedSender = HexToAddress d (AllowedSenders (the (ordersMapping p orderID))) in
          orderAllowedSender = AddrZero d \<or> lo_Contains d allowedSendersAddress orderAllowedSender))))"

definition select_orders ::
    "'addr deps \<Rightarrow> 'l SwapLimit \<Rightarrow> PoolSimulator \<Rightarrow> string \<Rightarrow> 'l option \<Rightarrow> int list go" where
  "select_orders d sl p swapSide limit =
     (let orderIDs = getOrderIDsBySwapSide p swapSide in
      case limit of
        None \<Rightarrow> Inr orderIDs
      | Some l \<Rightarrow> filterOrdersByAllowedSenders d p orderIDs (get_allowed_senders sl l))"

definition estimateGasForExecutor :: "int \<Rightarrow> int" where
  "estimateGasForExecutor numberOfFilledOrders = BaseGas + numberOfFilledOrders * GasPerOrderExecutor"

definition estimateGasForRouter :: "int \<Rightarrow> int" where
  "estimateGasForRouter numberOfFilledOrders = numberOfFilledOrders * GasPerOrderRouter"

definition estimateGas :: "int \<Rightarrow> int" where
  "estimateGas numberOfFilledOrders =
     estimateGasForExecutor numberOfFilledOrders + estimateGasForRouter numberOfFilledOrders"

subsection \<open>Exact-in quotes\<close>

text \<open>The variables of the loop over the orders: what is left of the input, the output, fee and making
  totals, the fills per maker and the filled orders.  The boolean of the result is \<open>isFulfillAmountIn\<close>.\<close>

record fill_state =
  totalAmountIn :: int
  totalAmountOutWei :: int
  totalFeeAmountWei :: int
  totalMakingAmountWei :: int
  filledMakingAmountByMaker :: "string \<rightharpoonup> int"
  filled :: "FilledOrderInfo list"

fun exact_in_loop ::
    "'l SwapLimit \<Rightarrow> 'l option \<Rightarrow> (int \<rightharpoonup> order) \<Rightarrow> int list \<Rightarrow> fill_state \<Rightarrow> (fill_state \<times> bool) go" where
  "exact_in_loop sl limit om [] st = Inr (st, False)"
| "exact_in_loop sl limit om (orderID # ids) st =
     (case om orderID of
        None \<Rightarrow> Inl (Err ''order %d is not existed in pool'')
      | Some ord \<Rightarrow>
          bnd (RemainingAmount sl limit (filledMakingAmountByMaker st) ord) (\<lambda>(remMaking, remTaking).
          if remMaking \<le> 0 \<or> remTaking \<le> 0 then exact_in_loop sl limit om ids st
          else
            bnd (calcTakerAssetFeeAmountExactIn ord (totalAmountIn st)) (\<lambda>(afterFee, _).
            if afterFee \<le> 0 then exact_in_loop sl limit om ids st
            else
              let st1 = st\<lparr>totalMakingAmountWei := totalMakingAmountWei st + remMaking\<rparr> in
              if afterFee \<le> remTaking then
                bnd (deref (MakingAmount ord)) (\<lambda>making. bnd (deref (TakingAmount ord)) (\<lambda>taking.
                bnd (big_div (afterFee * making) taking) (\<lambda>filledMaking.
                if filledMaking \<le> 0 then exact_in_loop sl limit om ids st1
                else
                  bnd (calcMakerAssetFeeAmount ord filledMaking) (\<lambda>fee.
                  let totalOut = totalAmountOutWei st1 + (filledMaking - fee);
                      filledBy = addFilledMakingAmount (filledMakingAmountByMaker st1) (Maker ord) filledMaking;
                      fs = filled st1 @ [newFilledOrderInfo ord (big_string afterFee) (big_string filledMaking)
                                           (big_string fee)] in
                  bnd (fallback_loop sl limit om filledBy (fallback_threshold totalOut) ids
                         (totalMakingAmountWei st1) fs) (\<lambda>fs'.
                  Inr (st1\<lparr>totalAmountOutWei := totalOut, totalFeeAmountWei := totalFeeAmountWei st1 + fee,
                           filledMakingAmountByMaker := filledBy, filled := fs'\<rparr>, True))))))
              else
                bnd (calcTakerAssetFeeAmountExactOut ord remTaking) (\<lambda>(_, takerAssetFee).
                bnd (calcMakerAssetFeeAmount ord remMaking) (\<lambda>fee.
                exact_in_loop sl limit om ids
                  (st1\<lparr>totalAmountIn := totalAmountIn st1 - takerAssetFee - remTaking,
                       totalAmountOutWei := totalAmountOutWei st1 + (remMaking - fee),
                       totalFeeAmountWei := totalFeeAmountWei st1 + fee,
                       filledMakingAmountByMaker :=
                         addFilledMakingAmount (filledMakingAmountByMaker st1) (Maker ord) remMaking,
                       filled := filled st1 @ [newFilledOrderInfo ord (big_string remTaking)
                                                 (big_string remMaking) (big_string fee)]\<rparr>))))))"

definition fill_start :: "int \<Rightarrow> fill_state" where
  "fill_start amount = \<lparr>totalAmountIn = amount, totalAmountOutWei = 0, totalFeeAmountWei = 0,
     totalMakingAmountWei = 0, filledMakingAmountByMaker = Map.empty, filled = []\<rparr>"

definition calcAmountOutWithSwapInfo ::
    "'addr deps \<Rightarrow> 'l SwapLimit \<Rightarrow> PoolSimulator \<Rightarrow> string \<Rightarrow> TokenAmount \<Rightarrow> 'l option \<Rightarrow>
     (int \<times> SwapInfo \<times> bigint) go" where
  "calcAmountOutWithSwapInfo d sl p swapSide tokenAmountIn limit =
     bnd (select_orders d sl p swapSide limit) (\<lambda>orderIDs.
     if length orderIDs = 0 then Inr (0, empty_swap_info, None)
     else
       bnd (deref (Amount tokenAmountIn)) (\<lambda>a.
       bnd (exact_in_loop sl limit (ordersMapping p) orderIDs (fill_start a)) (\<lambda>(st, isFulfillAmountIn).
       if \<not> isFulfillAmountIn then Inl (Err ''ErrCannotFulfillAmountIn'')
       else Inr (totalAmountOutWei st,
                 \<lparr>AmountIn = big_string a, SwapSide = swapSide, FilledOrders = filled st\<rparr>,
                 Some (totalFeeAmountWei st)))))"

definition calcAmountOut ::
    "'addr deps \<Rightarrow> 'l SwapLimit \<Rightarrow> PoolSimulator \<Rightarrow> TokenAmount \<Rightarrow> string \<Rightarrow> 'l option \<Rightarrow>
     SwapInfo CalcAmountOutResult go" where
  "calcAmountOut d sl p tokenAmountIn tokenOut limit =
     (let swapSide = getSwapSide (Token tokenAmountIn) tokenOut in
      bnd (calcAmountOutWithSwapInfo d sl p swapSide tokenAmountIn limit) (\<lambda>(amountOut, swapInfo, feeAmount).
      Inr \<lparr>TokenAmountOut = Some (token_amount tokenOut (Some amountOut)),
           Fee = Some (token_amount tokenOut feeAmount), RemainingTokenAmountIn = None,
           Gas = estimateGas (int (length (FilledOrders swapInfo))), SwapInfo = Some swapInfo\<rparr>))"

definition CalcAmountOut ::
    "'addr deps \<Rightarrow> 'l SwapLimit \<Rightarrow> PoolSimulator \<Rightarrow> 'l CalcAmountOutParams \<Rightarrow>
     SwapInfo CalcAmountOutResult go" where
  "CalcAmountOut d sl p param = calcAmountOut d sl p (TokenAmountIn param) (TokenOut param) (Limit param)"

subsection \<open>Exact-out quotes\<close>

text \<open>The variables of the exact-out loop, with the suffix \<open>_o\<close>.\<close>

record out_state =
  totalAmountOut_o :: int
  totalAmountInWei_o :: int
  totalFeeAmountWei_o :: int
  totalMakingAmountWei_o :: int
  totalFilledTakingAmountWei_o :: int
  filledMakingAmountByMaker_o :: "string \<rightharpoonup> int"
  filled_o :: "FilledOrderInfo list"

fun exact_out_loop ::
    "'l SwapLimit \<Rightarrow> 'l option \<Rightarrow> (int \<rightharpoonup> order) \<Rightarrow> int list \<Rightarrow> out_state \<Rightarrow> (out_state \<times> bool) go" where
  "exact_out_loop sl limit om [] st = Inr (st, False)"
| "exact_out_loop sl limit om (orderID # ids) st =
     (case om orderID of
        None \<Rightarrow> Inl (Err ''order %d is not existed in pool'')
      | Some ord \<Rightarrow>
          bnd (RemainingAmount sl limit (filledMakingAmountByMaker_o st) ord) (\<lambda>(remMaking, remTaking).
          if remMaking \<le> 0 \<or> remTaking \<le> 0 then exact_out_loop sl limit om ids st
          else
            let st1 = st\<lparr>totalMakingAmountWei_o := totalMakingAmountWei_o st + remMaking\<rparr> in
            bnd (calcMakerAssetAmountBeforeFee ord (totalAmountOut_o st1)) (\<lambda>(beforeFee, _).
            if beforeFee \<le> remMaking then
              bnd (deref (TakingAmount ord)) (\<lambda>taking. bnd (deref (MakingAmount ord)) (\<lambda>making.
              bnd (divCeil (beforeFee * taking) making) (\<lambda>filledTaking.
              if filledTaking = 0 then exact_out_loop sl limit om ids st1
              else
                bnd (calcTakerAssetFeeAmountExactOut ord filledTaking) (\<lambda>(actualAmountIn, fee).
                let filledBy = addFilledMakingAmount (filledMakingAmountByMaker_o st1) (Maker ord) beforeFee;
                    fs = filled_o st1 @ [newFilledOrderInfo ord (big_string filledTaking)
                                           (big_string beforeFee) (big_string fee)] in
                bnd (fallback_loop sl limit om filledBy (fallback_threshold beforeFee) ids
                       (totalMakingAmountWei_o st1) fs) (\<lambda>fs'.
                Inr (st1\<lparr>totalAmountInWei_o := totalAmountInWei_o st1 + actualAmountIn,
                         totalFeeAmountWei_o := totalFeeAmountWei_o st1 + fee,
                         totalFilledTakingAmountWei_o := totalFilledTakingAmountWei_o st1 + filledTaking,
                         filledMakingAmountByMaker_o := filledBy, filled_o := fs'\<rparr>, True))))))
            else
              bnd (calcTakerAssetFeeAmountExactOut ord remTaking) (\<lambda>(_, takerAssetFee).
              exact_out_loop sl limit om ids
                (st1\<lparr>totalAmountOut_o := totalAmountOut_o st1 - remMaking,
                     totalAmountInWei_o := totalAmountInWei_o st1 + (remTaking + takerAssetFee),
                     totalFeeAmountWei_o := totalFeeAmountWei_o st1 + takerAssetFee,
                     totalFilledTakingAmountWei_o := totalFilledTakingAmountWei_o st1 + remTaking,
                     filledMakingAmountByMaker_o :=
                       addFilledMakingAmount (filledMakingAmountByMaker_o st1) (Maker ord) remMaking,
                     filled_o := filled_o st1 @ [newFilledOrderInfo ord (big_string remTaking)
                                                   (big_string remMaking) (big_string takerAssetFee)]\<rparr>)))))"

definition out_start :: "int \<Rightarrow> out_state" where
  "out_start amount = \<lparr>totalAmountOut_o = amount, totalAmountInWei_o = 0, totalFeeAmountWei_o = 0,
     totalMakingAmountWei_o = 0, totalFilledTakingAmountWei_o = 0,
     filledMakingAmountByMaker_o = Map.empty, filled_o = []\<rparr>"

definition calcAmountInWithSwapInfo ::
    "'addr deps \<Rightarrow> 'l SwapLimit \<Rightarrow> PoolSimulator \<Rightarrow> string \<Rightarrow> TokenAmount \<Rightarrow> 'l option \<Rightarrow>
     (int \<times> SwapInfo \<times> bigint) go" where
  "calcAmountInWithSwapInfo d sl p swapSide tokenAmountOut limit =
     bnd (select_orders d sl p swapSide limit) (\<lambda>orderIDs.
     if length orderIDs = 0 then Inr (0, empty_swap_info, None)
     else
       bnd (deref (Amount tokenAmountOut)) (\<lambda>a.
       bnd (exact_out_loop sl limit (ordersMapping p) orderIDs (out_start a)) (\<lambda>(st, isFulfillAmountOut).
       if \<not> isFulfillAmountOut then Inl (Err ''ErrCannotFulfillAmountOut'')
       else Inr (totalAmountInWei_o st,
                 \<lparr>AmountIn = big_string (totalFilledTakingAmountWei_o st), SwapSide = swapSide,
                  FilledOrders = filled_o st\<rparr>,
                 Some (totalFeeAmountWei_o st)))))"

definition calcAmountIn ::
    "'addr deps \<Rightarrow> 'l SwapLimit \<Rightarrow> PoolSimulator \<Rightarrow> TokenAmount \<Rightarrow> string \<Rightarrow> 'l option \<Rightarrow>
     SwapInfo CalcAmountInResult go" where
  "calcAmountIn d sl p tokenAmountOut tokenIn limit =
     (let swapSide = getSwapSide tokenIn (Token tokenAmountOut) in
      bnd (calcAmountInWithSwapInfo d sl p swapSide tokenAmountOut limit) (\<lambda>(amountIn, swapInfo, feeAmount).
      Inr \<lparr>TokenAmountIn_r = Some (token_amount tokenIn (Some amountIn)), RemainingTokenAmountOut_r = None,
           Fee_r = Some (token_amount tokenIn feeAmount),
           Gas_r = estimateGas (int (length (FilledOrders swapInfo))), SwapInfo_r = Some swapInfo\<rparr>))"

definition CalcAmountIn ::
    "'addr deps \<Rightarrow> 'l SwapLimit \<Rightarrow> PoolSimulator \<Rightarrow> 'l CalcAmountInParams \<Rightarrow>
     SwapInfo CalcAmountInResult go" where
  "CalcAmountIn d sl p param = calcAmountIn d sl p (TokenAmountOut_i param) (TokenIn param) (Limit_i param)"

subsection \<open>Applying a swap\<close>

definition fill_order :: "order \<Rightarrow> bigint \<Rightarrow> bigint \<Rightarrow> order go" where
  "fill_order ord filledTakingAmount filledMakingAmount =
     bnd (deref (FilledTakingAmount ord)) (\<lambda>ft. bnd (deref filledTakingAmount) (\<lambda>dt.
     bnd (deref (FilledMakingAmount ord)) (\<lambda>fm. bnd (deref filledMakingAmount) (\<lambda>dm.
     Inr (ord\<lparr>FilledTakingAmount := Some (ft + dt), FilledMakingAmount := Some (fm + dm),
              AvailableMakingAmount := (case AvailableMakingAmount ord of
                 None \<Rightarrow> None | Some av \<Rightarrow> Some (av - dm))\<rparr>)))))"

fun update_loop ::
    "'l SwapLimit \<Rightarrow> FilledOrderInfo list \<Rightarrow> (int \<rightharpoonup> order) \<Rightarrow> 'l option \<Rightarrow> ((int \<rightharpoonup> order) \<times> 'l option) go" where
  "update_loop sl [] om limit = Inr (om, limit)"
| "update_loop sl (info # fs) om limit =
     bnd (deref (om (OrderID info))) (\<lambda>ord.
     let filledTakingAmount = set_string10 (FilledTakingAmount_f info);
         filledMakingAmount = set_string10 (FilledMakingAmount_f info) in
     bnd (fill_order ord filledTakingAmount filledMakingAmount) (\<lambda>ord'.
     bnd (case limit of
            None \<Rightarrow> Inr None
          | Some l \<Rightarrow>
              bnd (update_limit sl l (NewMakerAndAsset (Maker ord') (MakerAsset ord'))
                     (NewMakerAndAsset (Maker ord') (TakerAsset ord')) (the filledMakingAmount)
                     (the filledTakingAmount)) (\<lambda>l'. Inr (Some l'))) (\<lambda>limit'.
     update_loop sl fs (om(OrderID info \<mapsto> ord')) limit')))"

definition UpdateBalance ::
    "'l SwapLimit \<Rightarrow> PoolSimulator \<Rightarrow> (SwapInfo, 'l) UpdateBalanceParams \<Rightarrow>
     (PoolSimulator \<times> 'l option) go" where
  "UpdateBalance sl p params =
     (case SwapInfo_u params of
        None \<Rightarrow> Inr (p, SwapLimit_u params)
      | Some swapInfo \<Rightarrow>
          if length (SwapSide swapInfo) = 0 then Inr (p, SwapLimit_u params)
          else bnd (update_loop sl (FilledOrders swapInfo) (ordersMapping p) (SwapLimit_u params))
                 (\<lambda>(om, limit'). Inr (p\<lparr>ordersMapping := om\<rparr>, limit')))"

subsection \<open>Construction\<close>

fun load_orders ::
    "order option list \<Rightarrow> (int \<rightharpoonup> order) \<Rightarrow> int list \<Rightarrow> (string \<times> int) list \<Rightarrow>
     ((int \<rightharpoonup> order) \<times> int list \<times> (string \<times> int) list) go" where
  "load_orders [] om ids allowances = Inr (om, ids, allowances)"
| "load_orders (o' # os) om ids allowances =
     bnd (deref o') (\<lambda>ord.
     load_orders os (om(ID ord \<mapsto> ord)) (ids @ [ID ord])
       (case MakerBalanceAllowance ord of
          None \<Rightarrow> allowances
        | Some b \<Rightarrow> AList.update (NewMakerAndAsset (Maker ord) (MakerAsset ord)) b allowances))"

text \<open>A static extra that does not parse leaves the contract address empty.\<close>

definition NewPoolSimulator ::
    "(string \<Rightarrow> string go) \<Rightarrow> (string \<Rightarrow> Extra go) \<Rightarrow> EntityPool \<Rightarrow> PoolSimulator go" where
  "NewPoolSimulator unmarshal_static unmarshal_extra entityPool =
     (if length (Tokens_e entityPool) \<noteq> 2
      then Inl (Err ''pool's number of tokens should equal 2'')
      else
        bnd (go_map (\<lambda>i. bnd (idx (Reserves_e entityPool) i) (\<lambda>r. Inr (NewBig10 r)))
               (range_n (length (Tokens_e entityPool)))) (\<lambda>reserves.
        let contract = (case unmarshal_static (StaticExtra_e entityPool) of Inl _ \<Rightarrow> [] | Inr a \<Rightarrow> a) in
        bnd (unmarshal_extra (Extra_e entityPool)) (\<lambda>extra.
        bnd (load_orders (BuyOrders extra) Map.empty [] []) (\<lambda>(om1, buyIDs, allow1).
        bnd (load_orders (SellOrders extra) om1 [] allow1) (\<lambda>(om2, sellIDs, allow2).
        Inr \<lparr>Info = \<lparr>Address = to_lower (Address_e entityPool), Exchange = Exchange_e entityPool,
                     Type = Type_e entityPool, Tokens = map TokenAddress (Tokens_e entityPool),
                     Reserves = reserves, SwapFee = Some 0, BlockNumber = BlockNumber_e entityPool\<rparr>,
             ordersMapping = om2, sellOrderIDs = sellIDs, buyOrderIDs = buyIDs,
             contractAddress = contract, allMakersBalanceAllowance = allow2\<rparr>)))))"

definition CalculateLimit :: "PoolSimulator \<Rightarrow> (string \<times> int) list option" where
  "CalculateLimit p =
     (if length (allMakersBalanceAllowance p) = 0 then None else Some (allMakersBalanceAllowance p))"

fun can_swap_from_loop :: "PoolSimulator \<Rightarrow> string \<Rightarrow> string list \<Rightarrow> string list" where
  "can_swap_from_loop s address [] = []"
| "can_swap_from_loop s address (token # ts) =
     (if token = address then can_swap_from_loop s address ts
      else if length (getOrderIDsBySwapSide s (getSwapSide address token)) \<noteq> 0
      then token # can_swap_from_loop s address ts else can_swap_from_loop s address ts)"

fun can_swap_to_loop :: "PoolSimulator \<Rightarrow> string \<Rightarrow> string list \<Rightarrow> string list" where
  "can_swap_to_loop s address [] = []"
| "can_swap_to_loop s address (token # ts) =
     (if token = address then can_swap_to_loop s address ts
      else if length (getOrderIDsBySwapSide s (getSwapSide token address)) \<noteq> 0
      then token # can_swap_to_loop s address ts else can_swap_to_loop s address ts)"

definition CanSwapFrom :: "PoolSimulator \<Rightarrow> string \<Rightarrow> string list" where
  "CanSwapFrom s address =
     (if GetTokenIndex s address = -1 then [] else can_swap_from_loop s address (Tokens (Info s)))"

definition CanSwapTo :: "PoolSimulator \<Rightarrow> string \<Rightarrow> string list" where
  "CanSwapTo s address =
     (if GetTokenIndex s address = -1 then [] else can_swap_to_loop s address (Tokens (Info s)))"

end
