(* ===== verification/Limit_Order_Fills.thy ===== *)
theory Limit_Order_Fills
  imports Limit_Order
begin

text \<open>
  Correctness of the limit-order quotes.  The relation \<open>fill_run\<close> describes what a successful exact-in
  quote does to the orders: some are skipped, some filled completely, and the last one in part.
  \<open>exact_in_run\<close> shows that the loop of the code follows it; the properties are then rule inductions.
\<close>

definition making_of :: "FilledOrderInfo \<Rightarrow> int" where
  "making_of f = the (set_string10 (FilledMakingAmount_f f))"

definition taking_of :: "FilledOrderInfo \<Rightarrow> int" where
  "taking_of f = the (set_string10 (FilledTakingAmount_f f))"

type_synonym fill = "order \<times> int \<times> int \<times> int"

fun fill_info :: "fill \<Rightarrow> FilledOrderInfo" where
  "fill_info (ord, t, m, fee) = newFilledOrderInfo ord (big_string t) (big_string m) (big_string fee)"

lemma set_string10_zero [simp]: "set_string10 ''0'' = Some 0"
  by code_simp

lemma fill_info_simps [simp]:
  "making_of (fill_info (ord, t, m, fee)) = m" "taking_of (fill_info (ord, t, m, fee)) = t"
  "OrderID (fill_info (ord, t, m, fee)) = ID ord" "Maker_f (fill_info (ord, t, m, fee)) = Maker ord"
  "set_string10 (FilledMakingAmount_f (fill_info (ord, t, m, fee))) = Some m"
  "set_string10 (FilledTakingAmount_f (fill_info (ord, t, m, fee))) = Some t"
  "IsFallBack (fill_info (ord, t, m, fee)) = False"
  by (simp_all add: making_of_def taking_of_def newFilledOrderInfo_def set_string10_big_string)

lemma fallback_info_simps [simp]:
  "making_of (newFallbackOrderInfo ord) = 0" "taking_of (newFallbackOrderInfo ord) = 0"
  "OrderID (newFallbackOrderInfo ord) = ID ord" "Maker_f (newFallbackOrderInfo ord) = Maker ord"
  "set_string10 (FilledMakingAmount_f (newFallbackOrderInfo ord)) = Some 0"
  "set_string10 (FilledTakingAmount_f (newFallbackOrderInfo ord)) = Some 0"
  "IsFallBack (newFallbackOrderInfo ord) = True"
  by (simp_all add: making_of_def taking_of_def newFallbackOrderInfo_def newFilledOrderInfo_def)

declare fill_info.simps [simp del]

inductive fill_run ::
    "'l SwapLimit \<Rightarrow> 'l option \<Rightarrow> (int \<rightharpoonup> order) \<Rightarrow> int list \<Rightarrow> int \<Rightarrow> (string \<rightharpoonup> int) \<Rightarrow> fill list \<Rightarrow> bool"
  for sl limit om where
  fill_skip: "om i = Some ord \<Longrightarrow> fill_run sl limit om ids a fb fs \<Longrightarrow>
     fill_run sl limit om (i # ids) a fb fs"
| fill_last: "om i = Some ord \<Longrightarrow> RemainingAmount sl limit fb ord = Inr (rm, rt) \<Longrightarrow> 0 < rm \<Longrightarrow> 0 < rt \<Longrightarrow>
     calcTakerAssetFeeAmountExactIn ord a = Inr (t, tf) \<Longrightarrow> 0 < t \<Longrightarrow> t \<le> rt \<Longrightarrow>
     MakingAmount ord = Some making \<Longrightarrow> TakingAmount ord = Some taking \<Longrightarrow>
     big_div (t * making) taking = Inr m \<Longrightarrow> 0 < m \<Longrightarrow> calcMakerAssetFeeAmount ord m = Inr fee \<Longrightarrow>
     fill_run sl limit om (i # ids) a fb [(ord, t, m, fee)]"
| fill_full: "om i = Some ord \<Longrightarrow> RemainingAmount sl limit fb ord = Inr (rm, rt) \<Longrightarrow> 0 < rm \<Longrightarrow> 0 < rt \<Longrightarrow>
     calcTakerAssetFeeAmountExactIn ord a = Inr (t, tf) \<Longrightarrow> rt < t \<Longrightarrow>
     calcTakerAssetFeeAmountExactOut ord rt = Inr (x, tfee) \<Longrightarrow> calcMakerAssetFeeAmount ord rm = Inr fee \<Longrightarrow>
     fill_run sl limit om ids (a - tfee - rt) (addFilledMakingAmount fb (Maker ord) rm) fs \<Longrightarrow>
     fill_run sl limit om (i # ids) a fb ((ord, rt, rm, fee) # fs)"

text \<open>The orders appended behind the fills are orders of the pool, in order, with nothing filled.\<close>

definition fallbacks :: "(int \<rightharpoonup> order) \<Rightarrow> int list \<Rightarrow> FilledOrderInfo list \<Rightarrow> bool" where
  "fallbacks om ids fbs =
     (\<exists>os. fbs = map newFallbackOrderInfo os \<and> (\<exists>js. subseq js ids \<and> list_all2 (\<lambda>j ord. om j = Some ord) js os))"

lemma fallbacks_Nil [simp]: "fallbacks om ids []"
  by (auto simp: fallbacks_def intro: exI [of _ "[]"])

lemma fallbacks_skip: "fallbacks om ids fbs \<Longrightarrow> fallbacks om (i # ids) fbs"
  by (auto simp: fallbacks_def)

lemma fallbacks_take:
  assumes "fallbacks om ids fbs" and "om i = Some ord"
  shows "fallbacks om (i # ids) (newFallbackOrderInfo ord # fbs)"
proof -
  from assms(1) obtain os js where "fbs = map newFallbackOrderInfo os" "subseq js ids"
    "list_all2 (\<lambda>j ord. om j = Some ord) js os"
    by (auto simp: fallbacks_def)
  with assms(2) show ?thesis
    unfolding fallbacks_def by (intro exI [of _ "ord # os"] conjI exI [of _ "i # js"]) auto
qed

lemma fallback_loop_fallbacks:
  assumes "fallback_loop sl limit om fb th ids tm fs = Inr fs'"
  shows "\<exists>fbs. fs' = fs @ fbs \<and> fallbacks om ids fbs"
  using assms
proof (induction ids arbitrary: tm fs)
  case Nil
  then show ?case by simp
next
  case (Cons i ids)
  show ?case
  proof (cases "reaches tm th")
    case True
    with Cons.prems show ?thesis by simp
  next
    case False
    show ?thesis
    proof (cases "om i")
      case None
      with Cons.prems False Cons.IH [of tm fs] show ?thesis
        by (auto intro: fallbacks_skip)
    next
      case (Some ord)
      with Cons.prems False obtain rm rt where "RemainingAmount sl limit fb ord = Inr (rm, rt)"
        by (auto simp: go_simps)
      with Some Cons.prems False
        Cons.IH [of tm fs] Cons.IH [of "tm + rm" "fs @ [newFallbackOrderInfo ord]"] show ?thesis
        by (auto intro: fallbacks_skip fallbacks_take split: if_splits)
    qed
  qed
qed

text \<open>What a fill pays out and its fee, summed over a list of fills.\<close>

fun fill_making :: "fill \<Rightarrow> int" where
  "fill_making (ord, t, m, fee) = m"

fun fill_fee :: "fill \<Rightarrow> int" where
  "fill_fee (ord, t, m, fee) = fee"

text \<open>The filled and the spare orders of a quote come from the orders offered to it, in their order.\<close>

definition quote_shape :: "(int \<rightharpoonup> order) \<Rightarrow> int list \<Rightarrow> fill list \<Rightarrow> FilledOrderInfo list \<Rightarrow> bool" where
  "quote_shape om ids fs fbs = (\<exists>js ks. subseq (js @ ks) ids \<and>
     list_all2 (\<lambda>j f. om j = Some (fst f)) js fs \<and> fallbacks om ks fbs)"

lemma quote_shape_skip: "quote_shape om ids fs fbs \<Longrightarrow> quote_shape om (i # ids) fs fbs"
  unfolding quote_shape_def by (meson list_emb_Cons)

lemma quote_shape_fill:
  assumes "quote_shape om ids fs fbs" and "om i = Some (fst f)"
  shows "quote_shape om (i # ids) (f # fs) fbs"
proof -
  from assms(1) obtain js ks where "subseq (js @ ks) ids" "list_all2 (\<lambda>j f. om j = Some (fst f)) js fs"
    "fallbacks om ks fbs"
    by (auto simp: quote_shape_def)
  with assms(2) show ?thesis
    unfolding quote_shape_def by (intro exI [of _ "i # js"] exI [of _ ks]) auto
qed

lemma quote_shape_spare: "fallbacks om ids fbs \<Longrightarrow> quote_shape om ids [] fbs"
  unfolding quote_shape_def by (intro exI [of _ "[]"] exI [of _ ids]) auto

lemma exact_in_run:
  assumes "exact_in_loop sl limit om ids st = Inr (st', True)"
  shows "\<exists>fs fbs. fill_run sl limit om ids (totalAmountIn st) (filledMakingAmountByMaker st) fs \<and>
    filled st' = filled st @ map fill_info fs @ fbs \<and>
    quote_shape om ids fs fbs \<and>
    totalAmountOutWei st' = totalAmountOutWei st + (\<Sum>f\<leftarrow>fs. fill_making f - fill_fee f) \<and>
    totalFeeAmountWei st' = totalFeeAmountWei st + (\<Sum>f\<leftarrow>fs. fill_fee f)"
  using assms
proof (induction ids arbitrary: st)
  case Nil
  then show ?case by simp
next
  case (Cons i ids)
  from Cons.prems obtain ord where ord: "om i = Some ord"
    by (cases "om i") auto
  with Cons.prems obtain rm rt where rem: "RemainingAmount sl limit (filledMakingAmountByMaker st) ord = Inr (rm, rt)"
    by (auto simp: go_simps)
  have skip: ?case if "exact_in_loop sl limit om ids st1 = Inr (st', True)"
    "totalAmountIn st1 = totalAmountIn st" "filledMakingAmountByMaker st1 = filledMakingAmountByMaker st"
    "filled st1 = filled st" "totalAmountOutWei st1 = totalAmountOutWei st"
    "totalFeeAmountWei st1 = totalFeeAmountWei st" for st1
  proof -
    from Cons.IH [OF that(1)] obtain fs fbs where
      "fill_run sl limit om ids (totalAmountIn st1) (filledMakingAmountByMaker st1) fs"
      "filled st' = filled st1 @ map fill_info fs @ fbs" "quote_shape om ids fs fbs"
      "totalAmountOutWei st' = totalAmountOutWei st1 + (\<Sum>f\<leftarrow>fs. fill_making f - fill_fee f)"
      "totalFeeAmountWei st' = totalFeeAmountWei st1 + (\<Sum>f\<leftarrow>fs. fill_fee f)"
      by blast
    with that(2-) fill_skip [of om i ord, OF ord] quote_shape_skip show ?thesis
      by (intro exI [of _ fs] exI [of _ fbs]) simp
  qed
  show ?case
  proof (cases "rm \<le> 0 \<or> rt \<le> 0")
    case True
    with Cons.prems ord rem show ?thesis
      by (intro skip [of st]) simp_all
  next
    case pos: False
    with Cons.prems ord rem obtain t tf where fee_in:
      "calcTakerAssetFeeAmountExactIn ord (totalAmountIn st) = Inr (t, tf)"
      by (auto simp: go_simps)
    define st1 where "st1 = st\<lparr>totalMakingAmountWei := totalMakingAmountWei st + rm\<rparr>"
    show ?thesis
    proof (cases "t \<le> 0")
      case True
      with Cons.prems ord rem pos fee_in show ?thesis
        by (intro skip [of st]) simp_all
    next
      case t: False
      show ?thesis
      proof (cases "t \<le> rt")
        case True
        with Cons.prems ord rem pos fee_in t obtain making taking m where last:
          "MakingAmount ord = Some making" "TakingAmount ord = Some taking"
          "big_div (t * making) taking = Inr m"
          by (auto simp: bnd_eq_Inr deref_eq_Inr Let_def)
        show ?thesis
        proof (cases "m \<le> 0")
          case small: True
          with Cons.prems ord rem pos fee_in t True last show ?thesis
            by (intro skip [of st1]) (simp_all add: st1_def)
        next
          case False
          with Cons.prems ord rem pos fee_in t True last obtain fee fs' where fee:
            "calcMakerAssetFeeAmount ord m = Inr fee"
            and fb: "fallback_loop sl limit om (addFilledMakingAmount (filledMakingAmountByMaker st) (Maker ord) m)
              (fallback_threshold (totalAmountOutWei st + (m - fee))) ids (totalMakingAmountWei st + rm)
              (filled st @ [fill_info (ord, t, m, fee)]) = Inr fs'"
            and st': "st' = st\<lparr>totalMakingAmountWei := totalMakingAmountWei st + rm,
              totalAmountOutWei := totalAmountOutWei st + (m - fee),
              totalFeeAmountWei := totalFeeAmountWei st + fee,
              filledMakingAmountByMaker := addFilledMakingAmount (filledMakingAmountByMaker st) (Maker ord) m,
              filled := fs'\<rparr>"
            by (auto simp: bnd_eq_Inr Let_def fill_info.simps)
          from fallback_loop_fallbacks [OF fb] obtain fbs where fbs:
            "fs' = filled st @ [fill_info (ord, t, m, fee)] @ fbs" "fallbacks om ids fbs"
            by auto
          have run: "fill_run sl limit om (i # ids) (totalAmountIn st) (filledMakingAmountByMaker st)
              [(ord, t, m, fee)]"
            using pos t False by (intro fill_last [of om i ord, OF ord rem _ _ fee_in _ True last _ fee]) auto
          show ?thesis
            using run fbs(1) quote_shape_fill [OF quote_shape_spare [OF fbs(2)], of i "(ord, t, m, fee)"] ord st'
            by (intro exI [of _ "[(ord, t, m, fee)]"] exI [of _ fbs]) simp
        qed
      next
        case full: False
        with Cons.prems ord rem pos fee_in t obtain x tfee fee where fees:
          "calcTakerAssetFeeAmountExactOut ord rt = Inr (x, tfee)" "calcMakerAssetFeeAmount ord rm = Inr fee"
          by (auto simp: bnd_eq_Inr Let_def)
        define st2 where "st2 = st\<lparr>totalMakingAmountWei := totalMakingAmountWei st + rm,
            totalAmountIn := totalAmountIn st - tfee - rt,
            totalAmountOutWei := totalAmountOutWei st + (rm - fee),
            totalFeeAmountWei := totalFeeAmountWei st + fee,
            filledMakingAmountByMaker := addFilledMakingAmount (filledMakingAmountByMaker st) (Maker ord) rm,
            filled := filled st @ [fill_info (ord, rt, rm, fee)]\<rparr>"
        have "exact_in_loop sl limit om ids st2 = Inr (st', True)"
          using Cons.prems ord rem pos fee_in t full fees
          by (simp add: st2_def Let_def fill_info.simps)
        from Cons.IH [OF this] obtain fs fbs where IH:
          "fill_run sl limit om ids (totalAmountIn st2) (filledMakingAmountByMaker st2) fs"
          "filled st' = filled st2 @ map fill_info fs @ fbs" "quote_shape om ids fs fbs"
          "totalAmountOutWei st' = totalAmountOutWei st2 + (\<Sum>f\<leftarrow>fs. fill_making f - fill_fee f)"
          "totalFeeAmountWei st' = totalFeeAmountWei st2 + (\<Sum>f\<leftarrow>fs. fill_fee f)"
          by blast
        have "fill_run sl limit om (i # ids) (totalAmountIn st) (filledMakingAmountByMaker st)
            ((ord, rt, rm, fee) # fs)"
          using pos full IH(1) by (intro fill_full [of om i ord, OF ord rem _ _ fee_in _ fees]) (auto simp: st2_def)
        with IH(2-) quote_shape_fill [OF IH(3), of i "(ord, rt, rm, fee)"] ord show ?thesis
          by (intro exI [of _ "(ord, rt, rm, fee) # fs"] exI [of _ fbs]) (simp add: st2_def)
      qed
    qed
  qed
qed

subsection \<open>Well-formed orders\<close>

text \<open>An order offers positive amounts and charges at most the whole amount.  Without an available amount
  from the order service, what has been filled stays within the order, at no better rate than the order's
  own; with one, the amount is not negative.\<close>

definition wf_order :: "order \<Rightarrow> bool" where
  "wf_order ord = (\<exists>M T fm ft. MakingAmount ord = Some M \<and> TakingAmount ord = Some T \<and>
     FilledMakingAmount ord = Some fm \<and> FilledTakingAmount ord = Some ft \<and> 0 < M \<and> 0 < T \<and> 0 \<le> fm \<and> 0 \<le> ft \<and>
     0 \<le> MakerTokenFeePercent ord \<and> MakerTokenFeePercent ord \<le> BasisPoint \<and>
     (case AvailableMakingAmount ord of None \<Rightarrow> ft \<le> T \<and> fm * T \<le> ft * M | Some av \<Rightarrow> 0 \<le> av))"

definition wf_orders :: "(int \<rightharpoonup> order) \<Rightarrow> bool" where
  "wf_orders om = (\<forall>i ord. om i = Some ord \<longrightarrow> ID ord = i \<and> wf_order ord)"

definition capacity :: "order \<Rightarrow> int" where
  "capacity ord = (case AvailableMakingAmount ord of
     None \<Rightarrow> the (MakingAmount ord) - the (FilledMakingAmount ord) | Some av \<Rightarrow> av)"

definition filled_by :: "(string \<rightharpoonup> int) \<Rightarrow> string \<Rightarrow> int" where
  "filled_by fb maker = (case fb maker of None \<Rightarrow> 0 | Some x \<Rightarrow> x)"

definition maker_limit :: "'l SwapLimit \<Rightarrow> 'l \<Rightarrow> string \<Rightarrow> string \<Rightarrow> int" where
  "maker_limit sl l maker asset = (case get_limit sl l (NewMakerAndAsset maker asset) of None \<Rightarrow> 0 | Some b \<Rightarrow> b)"

lemma filled_by_add [simp]:
  "filled_by (addFilledMakingAmount fb maker m) maker' = filled_by fb maker' + (if maker' = maker then m else 0)"
  by (simp add: filled_by_def addFilledMakingAmount_def split: option.splits)

lemma wf_ordersD: "wf_orders om \<Longrightarrow> om i = Some ord \<Longrightarrow> ID ord = i \<and> wf_order ord"
  by (simp add: wf_orders_def)

lemma wf_orderE:
  assumes "wf_order ord"
  obtains M T fm ft where "MakingAmount ord = Some M" "TakingAmount ord = Some T"
    "FilledMakingAmount ord = Some fm" "FilledTakingAmount ord = Some ft" "0 < M" "0 < T" "0 \<le> fm" "0 \<le> ft"
    "0 \<le> MakerTokenFeePercent ord" "MakerTokenFeePercent ord \<le> BasisPoint"
    "AvailableMakingAmount ord = None \<Longrightarrow> ft \<le> T \<and> fm * T \<le> ft * M"
    "\<And>av. AvailableMakingAmount ord = Some av \<Longrightarrow> 0 \<le> av"
  using assms by (auto simp: wf_order_def split: option.splits)

lemma remaining_bounds:
  assumes "wf_order ord" and "RemainingAmount sl limit fb ord = Inr (rm, rt)"
    and "MakingAmount ord = Some M" and "TakingAmount ord = Some T"
  shows "rm \<le> capacity ord" and "rt * M \<le> rm * T"
    and "AvailableMakingAmount ord = None \<Longrightarrow> FilledTakingAmount ord = Some ft \<Longrightarrow> rt = T - ft"
proof -
  from assms(1) show "rm \<le> capacity ord"
    using assms(2-) by (auto simp: RemainingAmount_def capacity_def Let_def go_simps elim!: wf_orderE
        split: option.splits if_splits)
  from assms(1) show "rt * M \<le> rm * T"
  proof (rule wf_orderE)
    fix M' T' fm ft
    assume *: "MakingAmount ord = Some M'" "TakingAmount ord = Some T'" "FilledMakingAmount ord = Some fm"
      "FilledTakingAmount ord = Some ft" "0 < M'" "AvailableMakingAmount ord = None \<Longrightarrow> ft \<le> T' \<and> fm * T' \<le> ft * M'"
    show ?thesis
    proof (cases "AvailableMakingAmount ord")
      case None
      with assms(2-) * show ?thesis
        by (simp add: RemainingAmount_def algebra_simps)
    next
      case (Some av)
      then obtain x where "rm = x" "rt = x * T div M"
        using assms(2-) * by (auto simp: RemainingAmount_def Let_def go_simps)
      then show ?thesis
        using floor_le [of M "x * T"] assms(3) * by simp
    qed
  qed
  show "AvailableMakingAmount ord = None \<Longrightarrow> FilledTakingAmount ord = Some ft \<Longrightarrow> rt = T - ft"
    using assms(2-) by (auto simp: RemainingAmount_def go_simps)
qed

lemma remaining_limit:
  assumes "RemainingAmount sl (Some l) fb ord = Inr (rm, rt)" and "AvailableMakingAmount ord \<noteq> None" and "0 < rm"
  shows "rm \<le> maker_limit sl l (Maker ord) (MakerAsset ord) - filled_by fb (Maker ord)"
  using assms
  by (auto simp: RemainingAmount_def getMakerRemainingBalance_def maker_limit_def filled_by_def Let_def go_simps
      split: option.splits if_splits)

subsection \<open>Fees\<close>

lemma BasisPoint_pos [simp]: "0 < BasisPoint" "BasisPoint \<noteq> 0"
  by (simp_all add: BasisPoint_def)

lemma ceil_leI:
  assumes "0 < b" and "x \<le> q * b"
  shows "(x + (b - 1)) div b \<le> (q :: int)"
proof -
  have "(x + (b - 1)) div b \<le> ((b - 1) + q * b) div b"
    using assms by (intro zdiv_mono1) linarith+
  also have "\<dots> = q + (b - 1) div b"
    using assms(1) by (intro div_mult_self1) simp
  also have "(b - 1) div b = 0"
    using assms(1) by (intro div_pos_pos_trivial) simp_all
  finally show ?thesis
    by simp
qed

lemma maker_fee_bounds:
  assumes "calcMakerAssetFeeAmount ord m = Inr fee" and "0 \<le> m"
    and "0 \<le> MakerTokenFeePercent ord" and "MakerTokenFeePercent ord \<le> BasisPoint"
  shows "0 \<le> fee" and "fee \<le> m"
proof -
  have "m * MakerTokenFeePercent ord \<le> m * BasisPoint"
    using assms(2,4) by (rule mult_left_mono [rotated])
  then have "(m * MakerTokenFeePercent ord + (BasisPoint - 1)) div BasisPoint \<le> m"
    by (intro ceil_leI) simp_all
  moreover have "0 \<le> m * MakerTokenFeePercent ord"
    using assms(2,3) by simp
  ultimately show "0 \<le> fee" and "fee \<le> m"
    using assms(1,2) by (auto simp: calcMakerAssetFeeAmount_def add_diff_eq BasisPoint_def split: if_splits)
qed

definition taker_fee :: "order \<Rightarrow> int \<Rightarrow> int" where
  "taker_fee ord t = (if \<not> IsTakerAssetFee ord \<or> MakerTokenFeePercent ord = 0 then 0
     else (t * MakerTokenFeePercent ord + (BasisPoint - 1)) div BasisPoint)"

lemma taker_fee_exact_out: "calcTakerAssetFeeAmountExactOut ord t = Inr (t + taker_fee ord t, taker_fee ord t)"
  by (simp add: calcTakerAssetFeeAmountExactOut_def taker_fee_def)

text \<open>The amount left after the fee of an exact-in fill, with the fee the contract charges on it, is
  within the input.\<close>

lemma taker_fee_exact_in:
  assumes "calcTakerAssetFeeAmountExactIn ord a = Inr (t, tf)" and "0 \<le> MakerTokenFeePercent ord"
  shows "t + taker_fee ord t \<le> a" and "\<not> IsTakerAssetFee ord \<Longrightarrow> t = a"
proof -
  show "\<not> IsTakerAssetFee ord \<Longrightarrow> t = a"
    using assms(1) by (simp add: calcTakerAssetFeeAmountExactIn_def)
  show "t + taker_fee ord t \<le> a"
  proof (cases "\<not> IsTakerAssetFee ord \<or> MakerTokenFeePercent ord = 0")
    case True
    with assms(1) show ?thesis
      by (auto simp: calcTakerAssetFeeAmountExactIn_def taker_fee_def split: if_splits)
  next
    case False
    have pos: "0 < MakerTokenFeePercent ord + BasisPoint"
      using assms(2) BasisPoint_pos(1) by linarith
    then have "t = a * BasisPoint div (MakerTokenFeePercent ord + BasisPoint)"
      using assms(1) False by (auto simp: calcTakerAssetFeeAmountExactIn_def go_simps)
    with floor_le [OF pos, of "a * BasisPoint"] have "t * (MakerTokenFeePercent ord + BasisPoint) \<le> a * BasisPoint"
      by simp
    then have "t * MakerTokenFeePercent ord \<le> (a - t) * BasisPoint"
      by (simp add: algebra_simps)
    with False ceil_leI [of BasisPoint] show ?thesis
      by (fastforce simp: taker_fee_def)
  qed
qed

subsection \<open>What a run of fills guarantees\<close>

text \<open>A fill takes and gives a positive amount, gives no more than the order can, charges at most what it
  gives, and booking it leaves the order well formed.\<close>

fun ok_fill :: "fill \<Rightarrow> bool" where
  "ok_fill (ord, t, m, fee) = (0 < t \<and> 0 < m \<and> m \<le> capacity ord \<and> 0 \<le> fee \<and> fee \<le> m \<and>
     (\<exists>ord'. fill_order ord (Some t) (Some m) = Inr ord' \<and> wf_order ord' \<and> ID ord' = ID ord \<and>
        capacity ord' = capacity ord - m))"

lemma booking_ok:
  assumes "wf_order ord" and "MakingAmount ord = Some M" and "TakingAmount ord = Some T"
    and "FilledMakingAmount ord = Some fm" and "FilledTakingAmount ord = Some ft"
    and "0 \<le> t" and "0 \<le> m" and "m \<le> capacity ord"
    and "AvailableMakingAmount ord = None \<Longrightarrow> ft + t \<le> T \<and> (fm + m) * T \<le> (ft + t) * M"
  shows "\<exists>ord'. fill_order ord (Some t) (Some m) = Inr ord' \<and> wf_order ord' \<and> ID ord' = ID ord \<and>
    capacity ord' = capacity ord - m"
  using assms
  by (auto simp: fill_order_def wf_order_def capacity_def split: option.splits)

lemma booking_nothing:
  assumes "wf_order ord"
  shows "\<exists>ord'. fill_order ord (Some 0) (Some 0) = Inr ord' \<and> wf_order ord' \<and> ID ord' = ID ord \<and>
    capacity ord' = capacity ord"
proof -
  from assms obtain M T fm ft where o': "MakingAmount ord = Some M" "TakingAmount ord = Some T"
    "FilledMakingAmount ord = Some fm" "FilledTakingAmount ord = Some ft"
    by (rule wf_orderE)
  have "fill_order ord (Some 0) (Some 0) = Inr ord"
    using o' by (simp add: fill_order_def) (cases "AvailableMakingAmount ord"; simp)
  with assms show ?thesis
    by simp
qed

lemma fill_run_ok:
  assumes "fill_run sl limit om ids a fb fs" and "wf_orders om"
  shows "\<forall>f \<in> set fs. ok_fill f"
  using assms
proof (induction rule: fill_run.induct)
  case (fill_skip i ord ids a fb fs)
  then show ?case by simp
next
  case (fill_last i ord fb rm rt a t tf making taking m fee ids)
  from fill_last.prems fill_last.hyps(1) have wf: "wf_order ord"
    by (simp add: wf_ordersD)
  then obtain fm ft where o': "FilledMakingAmount ord = Some fm" "FilledTakingAmount ord = Some ft"
    "0 < making" "0 < taking" "0 \<le> MakerTokenFeePercent ord" "MakerTokenFeePercent ord \<le> BasisPoint"
    "AvailableMakingAmount ord = None \<Longrightarrow> ft \<le> taking \<and> fm * taking \<le> ft * making"
    using fill_last.hyps(8,9) by (auto elim!: wf_orderE)
  note rem = remaining_bounds [OF wf fill_last.hyps(2,8,9)]
  have m: "m = t * making div taking"
    using fill_last.hyps(10) o'(4) by simp
  have mt: "m * taking \<le> t * making"
    unfolding m using o'(4) by (rule floor_le)
  have "t * making \<le> rt * making"
    using fill_last.hyps(7) o'(3) by simp
  with mt rem(2) have "m * taking \<le> rm * taking"
    by linarith
  with o'(4) have "m \<le> rm"
    by simp
  with rem(1) have cap: "m \<le> capacity ord"
    by linarith
  have "\<exists>ord'. fill_order ord (Some t) (Some m) = Inr ord' \<and> wf_order ord' \<and> ID ord' = ID ord \<and>
      capacity ord' = capacity ord - m"
    using fill_last.hyps(6,7,11) cap rem(3) [OF _ o'(2)] o'(7) mt
    by (intro booking_ok [OF wf fill_last.hyps(8,9) o'(1,2)]) (auto simp: distrib_right)
  with fill_last.hyps(6,11) cap maker_fee_bounds [OF fill_last.hyps(12) _ o'(5,6)] show ?case
    by simp
next
  case (fill_full i ord fb rm rt a t tf x tfee fee ids fs)
  from fill_full.prems fill_full.hyps(1) have wf: "wf_order ord"
    by (simp add: wf_ordersD)
  then obtain making taking fm ft where o': "MakingAmount ord = Some making" "TakingAmount ord = Some taking"
    "FilledMakingAmount ord = Some fm" "FilledTakingAmount ord = Some ft"
    "0 < making" "0 < taking" "0 \<le> MakerTokenFeePercent ord" "MakerTokenFeePercent ord \<le> BasisPoint"
    by (rule wf_orderE)
  note rem = remaining_bounds [OF wf fill_full.hyps(2) o'(1,2)]
  have none: "rt = taking - ft \<and> rm = making - fm" if "AvailableMakingAmount ord = None"
    using fill_full.hyps(2) o' that by (simp add: RemainingAmount_def)
  have "\<exists>ord'. fill_order ord (Some rt) (Some rm) = Inr ord' \<and> wf_order ord' \<and> ID ord' = ID ord \<and>
      capacity ord' = capacity ord - rm"
    using fill_full.hyps(3,4) rem(1) none
    by (intro booking_ok [OF wf o'(1-4)]) (auto simp: mult.commute)
  with fill_full rem(1) maker_fee_bounds [OF fill_full.hyps(8) _ o'(7,8)] show ?case
    by simp
qed

fun fill_charge :: "fill \<Rightarrow> int" where
  "fill_charge (ord, t, m, fee) = t + taker_fee ord t"

lemma fill_run_charge:
  assumes "fill_run sl limit om ids a fb fs" and "wf_orders om"
  shows "(\<Sum>f\<leftarrow>fs. fill_charge f) \<le> a"
    and "(\<forall>i ord. om i = Some ord \<longrightarrow> \<not> IsTakerAssetFee ord) \<Longrightarrow> (\<Sum>f\<leftarrow>fs. fill_charge f) = a"
proof -
  have "(\<Sum>f\<leftarrow>fs. fill_charge f) \<le> a \<and>
      ((\<forall>i ord. om i = Some ord \<longrightarrow> \<not> IsTakerAssetFee ord) \<longrightarrow> (\<Sum>f\<leftarrow>fs. fill_charge f) = a)"
    using assms
  proof (induction rule: fill_run.induct)
    case (fill_last i ord fb rm rt a t tf making taking m fee ids)
    then have "0 \<le> MakerTokenFeePercent ord"
      by (auto dest: wf_ordersD elim: wf_orderE)
    from taker_fee_exact_in [OF fill_last.hyps(5) this] fill_last.hyps(1) show ?case
      by (auto simp: taker_fee_def)
  next
    case (fill_full i ord fb rm rt a t tf x tfee fee ids fs)
    then have "tfee = taker_fee ord rt"
      by (simp add: taker_fee_exact_out)
    with fill_full show ?case
      by (auto simp: taker_fee_def)
  qed simp
  then show "(\<Sum>f\<leftarrow>fs. fill_charge f) \<le> a"
    and "(\<forall>i ord. om i = Some ord \<longrightarrow> \<not> IsTakerAssetFee ord) \<Longrightarrow> (\<Sum>f\<leftarrow>fs. fill_charge f) = a"
    by auto
qed

text \<open>The orders of a maker that the limit applies to: those that state an available making amount.\<close>

definition limited :: "string \<Rightarrow> string \<Rightarrow> order \<Rightarrow> bool" where
  "limited maker asset ord = (Maker ord = maker \<and> MakerAsset ord = asset \<and> AvailableMakingAmount ord \<noteq> None)"

lemma remaining_limited:
  assumes "RemainingAmount sl (Some l) fb ord = Inr (rm, rt)" and "limited maker asset ord" and "0 < rm"
  shows "rm \<le> maker_limit sl l maker asset - filled_by fb maker"
  using remaining_limit [of sl l fb ord rm rt] assms by (auto simp: limited_def)

lemma limited_next:
  assumes "S \<le> max 0 (L - filled_by (addFilledMakingAmount fb (Maker ord) rm) maker)" and "0 < rm"
    and "limited maker asset ord \<Longrightarrow> rm \<le> L - filled_by fb maker"
  shows "(if limited maker asset ord then rm else 0) + S \<le> max 0 (L - filled_by fb maker)"
  using assms by (auto simp: limited_def split: if_splits)

lemma fill_run_maker:
  assumes "fill_run sl (Some l) om ids a fb fs" and "wf_orders om"
  shows "(\<Sum>f\<leftarrow>fs. if limited maker asset (fst f) then fill_making f else 0)
         \<le> max 0 (maker_limit sl l maker asset - filled_by fb maker)"
  using assms
proof (induction rule: fill_run.induct)
  case (fill_skip i ord ids a fb fs)
  then show ?case by simp
next
  case (fill_last i ord fb rm rt a t tf making taking m fee ids)
  show ?case
  proof (cases "limited maker asset ord")
    case True
    have wf: "wf_order ord"
      using fill_last by (simp add: wf_ordersD)
    note rem = remaining_bounds [OF wf fill_last.hyps(2,8,9)]
    have pos: "0 < taking" "0 < making"
      using wf fill_last.hyps(8,9) by (auto elim!: wf_orderE)
    have "m * taking \<le> t * making" "t * making \<le> rt * making"
      using fill_last.hyps(7,10) pos floor_le [OF pos(1), of "t * making"] by (auto simp: mult_right_mono)
    with rem(2) pos have "m \<le> rm"
      by (metis mult_le_cancel_right_pos order_trans)
    with remaining_limited [OF fill_last.hyps(2) True fill_last.hyps(3)] True show ?thesis
      by simp
  qed simp
next
  case (fill_full i ord fb rm rt a t tf x tfee fee ids fs)
  show ?case
    using limited_next [OF fill_full.IH [OF fill_full.prems] fill_full.hyps(3), where asset = asset,
        OF remaining_limited [OF fill_full.hyps(2) _ fill_full.hyps(3)]]
    by (simp split: if_splits)
qed

subsection \<open>Quotes\<close>

definition wf_pool :: "PoolSimulator \<Rightarrow> bool" where
  "wf_pool p = (wf_orders (ordersMapping p) \<and> distinct (buyOrderIDs p) \<and> distinct (sellOrderIDs p))"

lemma lo_quoteE:
  assumes "CalcAmountOut d sl p q = Inr r" and "Amount (TokenAmountIn q) = Some a" and "SwapInfo r = Some si"
    and "FilledOrders si \<noteq> []"
  obtains ids fs fbs where
    "select_orders d sl p (getSwapSide (Token (TokenAmountIn q)) (TokenOut q)) (Limit q) = Inr ids"
    "fill_run sl (Limit q) (ordersMapping p) ids a Map.empty fs"
    "FilledOrders si = map fill_info fs @ fbs" "quote_shape (ordersMapping p) ids fs fbs"
    "TokenAmountOut r = Some (token_amount (TokenOut q) (Some (\<Sum>f\<leftarrow>fs. fill_making f - fill_fee f)))"
    "Fee r = Some (token_amount (TokenOut q) (Some (\<Sum>f\<leftarrow>fs. fill_fee f)))" "SwapSide si \<noteq> []"
proof -
  have side: "getSwapSide t t' \<noteq> []" for t t'
    by (simp add: getSwapSide_def Buy_def Sell_def)
  from assms obtain ids st where
    ids: "select_orders d sl p (getSwapSide (Token (TokenAmountIn q)) (TokenOut q)) (Limit q) = Inr ids"
    and loop: "exact_in_loop sl (Limit q) (ordersMapping p) ids (fill_start a) = Inr (st, True)"
    and r: "FilledOrders si = filled st" "SwapSide si = getSwapSide (Token (TokenAmountIn q)) (TokenOut q)"
      "TokenAmountOut r = Some (token_amount (TokenOut q) (Some (totalAmountOutWei st)))"
      "Fee r = Some (token_amount (TokenOut q) (Some (totalFeeAmountWei st)))"
    by (auto simp: CalcAmountOut_def calcAmountOut_def calcAmountOutWithSwapInfo_def empty_swap_info_def Let_def
        bnd_eq_Inr deref_eq_Inr split: if_splits)
  from exact_in_run [OF loop] ids r side that show thesis
    by (auto simp: fill_start_def)
qed

lemma list_all2_ex: "list_all2 P xs ys \<Longrightarrow> y \<in> set ys \<Longrightarrow> \<exists>x \<in> set xs. P x y"
  by (induction rule: list_all2_induct) auto

lemma subseq_set: "subseq xs ys \<Longrightarrow> set xs \<subseteq> set ys"
  by (induction rule: list_emb.induct) auto

lemma fallbacksE:
  assumes "fallbacks om ks fbs"
  obtains os where "fbs = map newFallbackOrderInfo os" "\<forall>ord \<in> set os. \<exists>i \<in> set ks. om i = Some ord"
proof -
  from assms obtain os js where *: "fbs = map newFallbackOrderInfo os" "subseq js ks"
    "list_all2 (\<lambda>j ord. om j = Some ord) js os"
    by (auto simp: fallbacks_def)
  have "\<exists>i \<in> set js. om i = Some ord" if "ord \<in> set os" for ord
    using list_all2_ex [OF *(3) that] by blast
  with *(1) subseq_set [OF *(2)] that show thesis
    by (metis subsetD)
qed

lemma fallbacks_making: "fallbacks om ks fbs \<Longrightarrow> f \<in> set fbs \<Longrightarrow> making_of f = 0 \<and> taking_of f = 0"
  by (auto elim!: fallbacksE)

lemma quote_shape_sums:
  assumes "quote_shape om ids fs fbs"
  shows "(\<Sum>f\<leftarrow>map fill_info fs @ fbs. making_of f) = (\<Sum>f\<leftarrow>fs. fill_making f)"
proof -
  have "(\<Sum>f\<leftarrow>fbs. making_of f) = (\<Sum>f\<leftarrow>fbs. 0)"
    using assms fallbacks_making by (intro arg_cong [of _ _ sum_list] map_cong) (auto simp: quote_shape_def)
  moreover have "making_of (fill_info f) = fill_making f" for f
    by (cases f) simp
  ultimately show ?thesis
    by (simp add: o_def)
qed

text \<open>The charge of a filled order as the pool sees it.\<close>

definition charge :: "PoolSimulator \<Rightarrow> FilledOrderInfo \<Rightarrow> int" where
  "charge p f = taking_of f + taker_fee (the (ordersMapping p (OrderID f))) (taking_of f)"

lemma quote_shape_order:
  assumes "quote_shape om ids fs fbs" and "f \<in> set fs"
  shows "\<exists>i \<in> set ids. om i = Some (fst f)"
proof -
  from assms(1) obtain js ks where "subseq (js @ ks) ids" "list_all2 (\<lambda>j f. om j = Some (fst f)) js fs"
    by (auto simp: quote_shape_def)
  then have "\<exists>i \<in> set js. om i = Some (fst f)" "set js \<subseteq> set ids"
    using assms(2) by (auto dest!: list_all2_ex subseq_set)
  then show ?thesis
    by blast
qed

lemma quote_shape_charges:
  assumes "quote_shape (ordersMapping p) ids fs fbs" and "wf_orders (ordersMapping p)"
  shows "(\<Sum>f\<leftarrow>map fill_info fs @ fbs. charge p f) = (\<Sum>f\<leftarrow>fs. fill_charge f)"
proof -
  have "charge p f = 0" if "f \<in> set fbs" for f
  proof -
    from assms(1) that fallbacks_making have "taking_of f = 0"
      by (auto simp: quote_shape_def)
    then show ?thesis
      by (simp add: charge_def taker_fee_def BasisPoint_def)
  qed
  then have "(\<Sum>f\<leftarrow>fbs. charge p f) = (\<Sum>f\<leftarrow>fbs. 0)"
    by (intro arg_cong [of _ _ sum_list] map_cong) auto
  moreover have "charge p (fill_info f) = fill_charge f" if "f \<in> set fs" for f
    using quote_shape_order [OF assms(1) that] wf_ordersD [OF assms(2)] by (cases f) (auto simp: charge_def)
  then have "(\<Sum>f\<leftarrow>fs. charge p (fill_info f)) = (\<Sum>f\<leftarrow>fs. fill_charge f)"
    by (intro arg_cong [of _ _ sum_list] map_cong) auto
  ultimately show ?thesis
    by (simp add: o_def)
qed

text \<open>C1: an exact-in quote accounts for every unit.  What it pays out plus its fee is what the filled orders
  give, neither is negative, and what the filled orders take, with the fees charged on it, is at most the
  input and exactly the input when no order charges its fee in the taker asset.\<close>

theorem limit_order_conserves:
  assumes "wf_pool p" and "CalcAmountOut d sl p q = Inr r" and "Amount (TokenAmountIn q) = Some a"
    and "SwapInfo r = Some si" and "FilledOrders si \<noteq> []"
  shows "\<exists>out fee. TokenAmountOut r = Some (token_amount (TokenOut q) (Some out)) \<and>
    Fee r = Some (token_amount (TokenOut q) (Some fee)) \<and> 0 \<le> out \<and> 0 \<le> fee \<and>
    out + fee = (\<Sum>f\<leftarrow>FilledOrders si. making_of f) \<and>
    (\<Sum>f\<leftarrow>FilledOrders si. charge p f) \<le> a \<and>
    ((\<forall>i ord. ordersMapping p i = Some ord \<longrightarrow> \<not> IsTakerAssetFee ord) \<longrightarrow>
      (\<Sum>f\<leftarrow>FilledOrders si. taking_of f) = a)"
proof -
  from assms(2-) obtain ids fs fbs where
    run: "fill_run sl (Limit q) (ordersMapping p) ids a Map.empty fs"
    and si: "FilledOrders si = map fill_info fs @ fbs" "quote_shape (ordersMapping p) ids fs fbs"
    and r: "TokenAmountOut r = Some (token_amount (TokenOut q) (Some (\<Sum>f\<leftarrow>fs. fill_making f - fill_fee f)))"
      "Fee r = Some (token_amount (TokenOut q) (Some (\<Sum>f\<leftarrow>fs. fill_fee f)))"
    by (rule lo_quoteE)
  have wf: "wf_orders (ordersMapping p)"
    using assms(1) by (simp add: wf_pool_def)
  have ok: "ok_fill f" if "f \<in> set fs" for f
    using fill_run_ok [OF run wf] that by blast
  then have nn: "0 \<le> (\<Sum>f\<leftarrow>fs. fill_making f - fill_fee f)" "0 \<le> (\<Sum>f\<leftarrow>fs. fill_fee f)"
    by (intro sum_list_nonneg; fastforce)+
  have "(\<Sum>f\<leftarrow>FilledOrders si. taking_of f) = (\<Sum>f\<leftarrow>FilledOrders si. charge p f)"
    if "\<forall>i ord. ordersMapping p i = Some ord \<longrightarrow> \<not> IsTakerAssetFee ord"
  proof (intro arg_cong [of _ _ sum_list] map_cong refl)
    fix f
    assume "f \<in> set (FilledOrders si)"
    then have "\<exists>ord. ordersMapping p (OrderID f) = Some ord"
      using si quote_shape_order [OF si(2)] wf_ordersD [OF wf]
      by (fastforce simp: quote_shape_def elim!: fallbacksE)
    with that show "taking_of f = charge p f"
      by (auto simp: charge_def taker_fee_def)
  qed
  with quote_shape_sums [OF si(2)] quote_shape_charges [OF si(2) wf] fill_run_charge [OF run wf] nn r si
  show ?thesis
    by (auto simp: sum_list_subtractf)
qed

end
