(* ===== verification/Limit_Order_Swaps.thy ===== *)
theory Limit_Order_Swaps
  imports Limit_Order_Fills Swaplimit
begin

text \<open>
  Applying limit-order quotes.  The locale \<open>swap_limit\<close> is what \<open>UpdateBalance\<close> relies on when it books the
  fills into a \<open>pool.SwapLimit\<close>: an update with non-negative amounts does not panic and keeps the limit's
  invariant.  The inventory of \<open>Swaplimit\<close> interprets it, over its heap of numbers, so the
  properties of this theory hold for limit orders and inventories together.
\<close>

subsection \<open>The contract of a swap limit\<close>

locale swap_limit =
  fixes sl :: "'l SwapLimit" and limit_inv :: "'l \<Rightarrow> bool"
  assumes update_total: "limit_inv l \<Longrightarrow> 0 \<le> d \<Longrightarrow> 0 \<le> e \<Longrightarrow>
      \<exists>l'. update_limit sl l k k' d e = Inr l' \<and> limit_inv l'"
    and limit_nonneg: "limit_inv l \<Longrightarrow> get_limit sl l k = Some b \<Longrightarrow> 0 \<le> b"
begin

text \<open>Booking a list of fills for different orders, each of which its order can take.\<close>

lemma update_loop_ok:
  assumes "wf_orders om" and "distinct (map OrderID infos)"
    and "\<forall>f \<in> set infos. \<exists>ord ord' t m. om (OrderID f) = Some ord \<and>
      set_string10 (FilledTakingAmount_f f) = Some t \<and> set_string10 (FilledMakingAmount_f f) = Some m \<and>
      0 \<le> t \<and> 0 \<le> m \<and> fill_order ord (Some t) (Some m) = Inr ord' \<and> wf_order ord' \<and> ID ord' = ID ord"
    and "pred_option limit_inv limit"
  shows "\<exists>om' limit'. update_loop sl infos om limit = Inr (om', limit') \<and> wf_orders om' \<and>
    pred_option limit_inv limit' \<and> (limit' = None \<longleftrightarrow> limit = None)"
  using assms
proof (induction infos arbitrary: om limit)
  case Nil
  then show ?case by simp
next
  case (Cons f infos)
  from Cons.prems(3) obtain ord ord' t m where f: "om (OrderID f) = Some ord"
    "set_string10 (FilledTakingAmount_f f) = Some t" "set_string10 (FilledMakingAmount_f f) = Some m"
    "0 \<le> t" "0 \<le> m" "fill_order ord (Some t) (Some m) = Inr ord'" "wf_order ord'" "ID ord' = ID ord"
    by auto
  let ?om = "om(OrderID f \<mapsto> ord')"
  have wf: "wf_orders ?om"
    using Cons.prems(1) f(1,7,8) by (auto simp: wf_orders_def)
  have rest: "\<forall>g \<in> set infos. \<exists>ord ord' t m. ?om (OrderID g) = Some ord \<and>
      set_string10 (FilledTakingAmount_f g) = Some t \<and> set_string10 (FilledMakingAmount_f g) = Some m \<and>
      0 \<le> t \<and> 0 \<le> m \<and> fill_order ord (Some t) (Some m) = Inr ord' \<and> wf_order ord' \<and> ID ord' = ID ord"
    using Cons.prems(2,3) by (auto simp: image_iff)
  obtain limit1 where limit1: "(case limit of None \<Rightarrow> Inr None
      | Some l \<Rightarrow> bnd (update_limit sl l (NewMakerAndAsset (Maker ord') (MakerAsset ord'))
          (NewMakerAndAsset (Maker ord') (TakerAsset ord')) m t) (\<lambda>l'. Inr (Some l'))) = Inr limit1"
    "pred_option limit_inv limit1" "limit1 = None \<longleftrightarrow> limit = None"
  proof (cases limit)
    case (Some l)
    with Cons.prems(4) f(4,5) obtain l' where
      "update_limit sl l (NewMakerAndAsset (Maker ord') (MakerAsset ord'))
          (NewMakerAndAsset (Maker ord') (TakerAsset ord')) m t = Inr l'" "limit_inv l'"
      using update_total [of l m t] by fastforce
    with Some that show thesis by simp
  qed simp
  from Cons.prems(2) have "distinct (map OrderID infos)" by simp
  from Cons.IH [OF wf this rest limit1(2)] obtain om' limit' where
    "update_loop sl infos ?om limit1 = Inr (om', limit')" "wf_orders om'" "pred_option limit_inv limit'"
    "limit' = None \<longleftrightarrow> limit1 = None"
    by blast
  with f limit1 show ?case
    by (intro exI [of _ om'] exI [of _ limit']) (simp add: Let_def cong: option.case_cong)
qed

end

subsection \<open>Inventories are swap limits\<close>

text \<open>The methods of \<open>Inventory\<close> over its heap.  The deltas are fresh \<open>big.Int\<close> values of the caller, and
  the error of \<open>UpdateLimit\<close> is discarded, as \<open>UpdateBalance\<close> does.\<close>

definition inventory_limit :: "(heap \<times> Inventory) SwapLimit" where
  "inventory_limit =
     \<lparr>get_limit = (\<lambda>(h, i) k. limit_of h i k),
      get_allowed_senders = (\<lambda>_. []),
      update_limit = (\<lambda>(h, i) k k' d e.
        let (h1, pd) = alloc h d; (h2, pe) = alloc h1 e in
        bnd (UpdateLimit h2 i k k' (Some pd) (Some pe)) (\<lambda>(h, _). Inr (h, i)))\<rparr>"

definition inventory_inv :: "heap \<times> Inventory \<Rightarrow> bool" where
  "inventory_inv hi = (allocated (fst hi) (snd hi) \<and> nonneg_limits (fst hi) (snd hi))"

interpretation inventory_swap: swap_limit inventory_limit inventory_inv
proof
  fix l :: "heap \<times> Inventory" and d e :: int and k k'
  assume inv: "inventory_inv l" and pos: "0 \<le> d" "0 \<le> e"
  obtain h i where l: "l = (h, i)" by (cases l)
  let ?n = "length (numbers h)" and ?h = "h\<lparr>numbers := numbers h @ [d, e]\<rparr>"
  have al: "allocated ?h i" "nonneg_limits ?h i"
    using inv kept_numbers [of h i "[d, e]"] by (auto simp: inventory_inv_def l nonneg_limits_def)
  have c: "cell ?h (Some ?n) = Some d" "cell ?h (Some (Suc ?n)) = Some e"
    by (simp_all add: cell_def nth_append)
  have "\<exists>r. updateLimit ?h i k k' (Some ?n) (Some (Suc ?n)) = Inr r"
    unfolding updateLimit_cases [OF al(1) c] by (simp add: Let_def split: option.split)
  then obtain h' res where up: "updateLimit ?h i k k' (Some ?n) (Some (Suc ?n)) = Inr (h', res)"
    by (metis surj_pair)
  have "good_args ?h (k, k', Some ?n, Some (Suc ?n))"
    using c pos by (simp add: good_args_def)
  from updateLimit_nonneg [OF al this up] up
  show "\<exists>l'. update_limit inventory_limit l k k' d e = Inr l' \<and> inventory_inv l'"
    by (auto simp: inventory_limit_def l alloc_def UpdateLimit_def inventory_inv_def)
next
  fix l :: "heap \<times> Inventory" and k b
  assume "inventory_inv l" "get_limit inventory_limit l k = Some b"
  then show "0 \<le> b"
    by (auto simp: inventory_limit_def inventory_inv_def nonneg_limits_def split: prod.splits)
qed

subsection \<open>Which orders a quote uses\<close>

text \<open>\<open>lo.Filter\<close> is documented to return the elements that pass its predicate, in their order; what is
  needed here is that the result is a subsequence.\<close>

definition lo_filters :: "'addr deps \<Rightarrow> bool" where
  "lo_filters d = (\<forall>xs P. subseq (lo_Filter_int64 d xs P) xs)"

lemma select_orders_subseq:
  assumes "select_orders d sl p side limit = Inr ids" and "lo_filters d"
  shows "subseq ids (getOrderIDsBySwapSide p side)"
  using assms
  by (auto simp: select_orders_def filterOrdersByAllowedSenders_def lo_filters_def Let_def bnd_eq_Inr
      split: option.splits if_splits)

lemma subseq_distinct: "subseq xs ys \<Longrightarrow> distinct ys \<Longrightarrow> distinct xs"
  by (induction rule: list_emb.induct) (auto dest: subseq_set)

lemma orders_of_ids:
  assumes "list_all2 (\<lambda>j x. om j = Some (g x)) js xs" and "wf_orders om"
  shows "map (\<lambda>x. ID (g x)) xs = js"
  using assms(1) by (induction rule: list_all2_induct) (auto dest: wf_ordersD [OF assms(2)])

lemma quote_shape_ids:
  assumes "quote_shape om ids fs fbs" and "wf_orders om"
  shows "subseq (map OrderID (map fill_info fs @ fbs)) ids"
proof -
  from assms(1) obtain js ks os js' where *: "subseq (js @ ks) ids"
    "list_all2 (\<lambda>j f. om j = Some (fst f)) js fs" "fbs = map newFallbackOrderInfo os" "subseq js' ks"
    "list_all2 (\<lambda>j ord. om j = Some ord) js' os"
    by (auto simp: quote_shape_def fallbacks_def)
  have id: "OrderID (fill_info f) = ID (fst f)" for f
    by (cases f) simp
  have "map OrderID (map fill_info fs @ fbs) = js @ js'"
    using orders_of_ids [OF *(2) assms(2)] orders_of_ids [of om "\<lambda>x. x", OF *(5) assms(2)]
    by (simp add: *(3) o_def id)
  moreover have "subseq (js @ js') (js @ ks)"
    using *(4) by (simp add: list_emb_append_mono)
  ultimately show ?thesis
    using *(1) by (metis subseq_order.order_trans)
qed

subsection \<open>Applying a quote\<close>

lemma quote_books:
  assumes "fill_run sl limit om ids a fb fs" and "quote_shape om ids fs fbs" and "wf_orders om"
    and "f \<in> set (map fill_info fs @ fbs)"
  shows "\<exists>ord ord' t m. om (OrderID f) = Some ord \<and>
      set_string10 (FilledTakingAmount_f f) = Some t \<and> set_string10 (FilledMakingAmount_f f) = Some m \<and>
      0 \<le> t \<and> 0 \<le> m \<and> fill_order ord (Some t) (Some m) = Inr ord' \<and> wf_order ord' \<and> ID ord' = ID ord"
proof -
  consider g where "g \<in> set fs" "f = fill_info g" | "f \<in> set fbs"
    using assms(4) by auto
  then show ?thesis
  proof cases
    case 1
    obtain ord t m fee where g: "g = (ord, t, m, fee)" by (cases g)
    from quote_shape_order [OF assms(2) 1(1)] assms(3) have "om (ID ord) = Some ord"
      by (auto simp: g dest: wf_ordersD)
    moreover from fill_run_ok [OF assms(1,3)] 1(1) have "ok_fill (ord, t, m, fee)"
      unfolding g by blast
    ultimately show ?thesis
      unfolding 1(2) g by fastforce
  next
    case 2
    from assms(2) obtain ks where "fallbacks om ks fbs"
      by (auto simp: quote_shape_def)
    then obtain os where os: "fbs = map newFallbackOrderInfo os" "\<forall>ord \<in> set os. \<exists>i \<in> set ks. om i = Some ord"
      by (rule fallbacksE)
    with 2 obtain ord where ord: "f = newFallbackOrderInfo ord" "om (ID ord) = Some ord"
      using assms(3) by (fastforce dest: wf_ordersD)
    with booking_nothing [of ord] wf_ordersD [OF assms(3) ord(2)] show ?thesis
      by fastforce
  qed
qed

text \<open>C3: after a quote with an inventory limit, \<open>UpdateBalance\<close> does not panic; it leaves every order of the
  pool within its amounts and the limits of the inventory non-negative.\<close>

theorem limit_order_update:
  assumes "wf_pool p" and "lo_filters d" and "inventory_inv l"
    and "CalcAmountOut d inventory_limit p q = Inr r" and "Limit q = Some l"
    and "Amount (TokenAmountIn q) = Some a"
  shows "\<exists>p' l'. UpdateBalance inventory_limit p (update_params q r) = Inr (p', Some l') \<and>
    wf_pool p' \<and> inventory_inv l'"
proof -
  obtain si where si: "SwapInfo r = Some si"
    using assms(4) by (auto simp: CalcAmountOut_def calcAmountOut_def Let_def bnd_eq_Inr)
  show ?thesis
  proof (cases "length (SwapSide si) = 0 \<or> FilledOrders si = []")
    case True
    then show ?thesis
      using assms(1,3,5) si by (cases l) (auto simp: UpdateBalance_def)
  next
    case False
    have wf: "wf_orders (ordersMapping p)"
      using assms(1) by (simp add: wf_pool_def)
    from assms(4,6) si obtain ids fs fbs where
      sel: "select_orders d inventory_limit p (getSwapSide (Token (TokenAmountIn q)) (TokenOut q)) (Limit q) = Inr ids"
      and run: "fill_run inventory_limit (Limit q) (ordersMapping p) ids a Map.empty fs"
      and fo: "FilledOrders si = map fill_info fs @ fbs" "quote_shape (ordersMapping p) ids fs fbs"
      using False by (elim lo_quoteE) auto
    have "distinct ids"
      using subseq_distinct [OF select_orders_subseq [OF sel assms(2)]] assms(1)
      by (simp add: wf_pool_def getOrderIDsBySwapSide_def)
    with quote_shape_ids [OF fo(2) wf] have "distinct (map OrderID (FilledOrders si))"
      unfolding fo(1) by (rule subseq_distinct)
    with inventory_swap.update_loop_ok [OF wf this, of "Limit q"] quote_books [OF run fo(2) wf] assms(3,5)
    obtain om' limit' where "update_loop inventory_limit (FilledOrders si) (ordersMapping p) (Limit q) = Inr (om', limit')"
      "wf_orders om'" "pred_option inventory_inv limit'" "limit' \<noteq> None"
      unfolding fo(1) by auto
    with False si assms(1) show ?thesis
      by (auto simp: UpdateBalance_def wf_pool_def)
  qed
qed

subsection \<open>An example pool\<close>

definition deps_ex :: "string deps" where
  "deps_ex =
     \<lparr>lo_Filter_string = (\<lambda>xs P. map fst (filter (\<lambda>(x, i). P x i) (zip xs (range_n (length xs))))),
      lo_Filter_int64 = (\<lambda>xs P. map fst (filter (\<lambda>(x, i). P x i) (zip xs (range_n (length xs))))),
      lo_Map_address = (\<lambda>xs g. map (\<lambda>(x, i). g x i) (zip xs (range_n (length xs)))),
      lo_Contains = (\<lambda>xs x. x \<in> set xs), HexToAddress = (\<lambda>s. s), AddrZero = []\<rparr>"

definition details_ex :: order_details where
  "details_ex = \<lparr>OrderHash = [], Salt = [], Signature = [], Receiver = [], FeeRecipient = [], MakerAssetData = [],
     TakerAssetData = [], GetMakerAmount = [], GetTakerAmount = [], Predicate = [], Permit = [], Interaction = []\<rparr>"

definition order_ex :: "int \<Rightarrow> string \<Rightarrow> int \<Rightarrow> int \<Rightarrow> int \<Rightarrow> order" where
  "order_ex i maker making taking pct =
     \<lparr>ID = i, MakerAsset = ''0xb'', TakerAsset = ''0xa'', Maker = maker, AllowedSenders = [],
      MakingAmount = Some making, TakingAmount = Some taking, FeeConfig = None, FilledMakingAmount = Some 0,
      FilledTakingAmount = Some 0, MakerTokenFeePercent = pct, IsTakerAssetFee = False,
      AvailableMakingAmount = Some making, MakerBalanceAllowance = Some 150, details = details_ex\<rparr>"

definition pool_ex :: "int \<Rightarrow> PoolSimulator" where
  "pool_ex pct =
     \<lparr>Info = \<lparr>Address = ''lo'', Exchange = ''lo'', Type = ''limit-order'', Tokens = [''0xb'', ''0xa''],
             Reserves = [Some 0, Some 0], SwapFee = Some 0, BlockNumber = 0\<rparr>,
      ordersMapping = [1 \<mapsto> order_ex 1 ''m'' 100 50 pct, 2 \<mapsto> order_ex 2 ''m'' 100 60 pct, 3 \<mapsto> order_ex 3 ''n'' 100 80 pct],
      sellOrderIDs = [], buyOrderIDs = [1, 2, 3], contractAddress = [],
      allMakersBalanceAllowance = [(''m:0xb'', 150), (''n:0xb'', 150)]\<rparr>"

definition limit_ex :: "heap \<times> Inventory" where
  "limit_ex = (\<lparr>numbers = [150, 100], tables = [[''m:0xb'' \<mapsto> Some 0, ''n:0xb'' \<mapsto> Some 1]]\<rparr>,
     NewInventory ''lo'' (Some 0))"

definition request_ex :: "(heap \<times> Inventory) CalcAmountOutParams" where
  "request_ex = \<lparr>TokenAmountIn = token_amount ''0xa'' (Some 100), TokenOut = ''0xb'', Limit = Some limit_ex\<rparr>"

lemma limit_ex_inv: "inventory_inv limit_ex"
  by (auto simp: inventory_inv_def limit_ex_def allocated_def nonneg_limits_def NewInventory_def limit_of_def
      GetLimit_def cell_def entries_def split: if_splits)

lemma deps_ex_filters: "lo_filters deps_ex"
proof -
  have "subseq (map fst (filter P (zip xs ys))) xs" for P and xs :: "int list" and ys :: "int list"
  proof (induction xs arbitrary: ys)
    case (Cons x xs)
    then show ?case by (cases ys) auto
  qed simp
  then show ?thesis
    by (simp add: lo_filters_def deps_ex_def)
qed

lemma pool_ex_wf: "0 \<le> pct \<Longrightarrow> pct \<le> BasisPoint \<Longrightarrow> wf_pool (pool_ex pct)"
  by (auto simp: wf_pool_def wf_orders_def pool_ex_def wf_order_def order_ex_def split: if_splits)

lemma pool_ex_wf0: "wf_pool (pool_ex 0)"
  by (rule pool_ex_wf) (simp_all add: BasisPoint_def)

text \<open>The example quote fills 100 and 50 of the two orders of the maker whose limit is 150, and 25 of the
  third.\<close>

lemma quote_ex:
  "\<exists>r si. CalcAmountOut deps_ex inventory_limit (pool_ex 0) request_ex = Inr r \<and> SwapInfo r = Some si \<and>
     map (\<lambda>f. (OrderID f, making_of f, taking_of f)) (FilledOrders si) = [(1, 100, 50), (2, 50, 30), (3, 25, 20)] \<and>
     map Maker_f (FilledOrders si) = [''m'', ''m'', ''n'']"
proof -
  have "(case CalcAmountOut deps_ex inventory_limit (pool_ex 0) request_ex of
       Inl _ \<Rightarrow> False
     | Inr r \<Rightarrow> (case SwapInfo r of None \<Rightarrow> False | Some si \<Rightarrow>
         map (\<lambda>f. (OrderID f, making_of f, taking_of f)) (FilledOrders si) = [(1, 100, 50), (2, 50, 30), (3, 25, 20)] \<and>
         map Maker_f (FilledOrders si) = [''m'', ''m'', ''n'']))"
    by code_simp
  then show ?thesis
    by (auto split: sum.splits option.splits)
qed

lemma request_ex_simps [simp]:
  "Amount (TokenAmountIn request_ex) = Some 100" "Limit request_ex = Some limit_ex" "TokenOut request_ex = ''0xb''"
  by (simp_all add: request_ex_def)

theorem limit_order_conserves_witness:
  "\<exists>r si out fee. CalcAmountOut deps_ex inventory_limit (pool_ex 0) request_ex = Inr r \<and> SwapInfo r = Some si \<and>
     TokenAmountOut r = Some (token_amount ''0xb'' (Some out)) \<and> out + fee = 175 \<and>
     (\<Sum>f\<leftarrow>FilledOrders si. charge (pool_ex 0) f) \<le> 100"
proof -
  from quote_ex obtain r si where q: "CalcAmountOut deps_ex inventory_limit (pool_ex 0) request_ex = Inr r"
    "SwapInfo r = Some si"
    "map (\<lambda>f. (OrderID f, making_of f, taking_of f)) (FilledOrders si) = [(1, 100, 50), (2, 50, 30), (3, 25, 20)]"
    by (elim exE conjE) (rule that)
  then have ne: "FilledOrders si \<noteq> []" "(\<Sum>f\<leftarrow>FilledOrders si. making_of f) = 175"
    by (auto simp: map_eq_Cons_conv)
  from limit_order_conserves [OF pool_ex_wf0 q(1) _ q(2) ne(1), of 100] ne(2) q(1,2) show ?thesis
    by auto
qed

theorem limit_order_update_witness:
  "\<exists>r p' l'. CalcAmountOut deps_ex inventory_limit (pool_ex 0) request_ex = Inr r \<and>
     UpdateBalance inventory_limit (pool_ex 0) (update_params request_ex r) = Inr (p', Some l') \<and>
     wf_pool p' \<and> inventory_inv l'"
proof -
  from quote_ex obtain r where q: "CalcAmountOut deps_ex inventory_limit (pool_ex 0) request_ex = Inr r"
    by blast
  with limit_order_update [OF pool_ex_wf0 deps_ex_filters limit_ex_inv q, of 100] show ?thesis
    by (auto simp: BasisPoint_def)
qed

end
