(* ===== verification/Limit_Order_Exact_Out.thy ===== *)
theory Limit_Order_Exact_Out
  imports Limit_Order_Swaps
begin

text \<open>
  Exact-out quotes of limit orders.  \<open>out_run\<close> describes the loop of \<open>calcAmountInWithSwapInfo\<close>: orders
  filled completely, then the last one.  The quote takes the making amount of a completely filled order off
  the request without its maker fee, so the taker receives less than asked for by exactly those fees.
\<close>

inductive out_run ::
    "'l SwapLimit \<Rightarrow> 'l option \<Rightarrow> (int \<rightharpoonup> order) \<Rightarrow> int list \<Rightarrow> int \<Rightarrow> (string \<rightharpoonup> int) \<Rightarrow> fill list \<Rightarrow> fill \<Rightarrow> bool"
  for sl limit om where
  out_skip: "om i = Some ord \<Longrightarrow> out_run sl limit om ids x fb fs f \<Longrightarrow>
     out_run sl limit om (i # ids) x fb fs f"
| out_last: "om i = Some ord \<Longrightarrow> RemainingAmount sl limit fb ord = Inr (rm, rt) \<Longrightarrow> 0 < rm \<Longrightarrow> 0 < rt \<Longrightarrow>
     calcMakerAssetAmountBeforeFee ord x = Inr (b, bf) \<Longrightarrow> b \<le> rm \<Longrightarrow>
     MakingAmount ord = Some making \<Longrightarrow> TakingAmount ord = Some taking \<Longrightarrow>
     divCeil (b * taking) making = Inr t \<Longrightarrow> t \<noteq> 0 \<Longrightarrow>
     out_run sl limit om (i # ids) x fb [] (ord, t, b, taker_fee ord t)"
| out_full: "om i = Some ord \<Longrightarrow> RemainingAmount sl limit fb ord = Inr (rm, rt) \<Longrightarrow> 0 < rm \<Longrightarrow> 0 < rt \<Longrightarrow>
     calcMakerAssetAmountBeforeFee ord x = Inr (b, bf) \<Longrightarrow> rm < b \<Longrightarrow>
     out_run sl limit om ids (x - rm) (addFilledMakingAmount fb (Maker ord) rm) fs f \<Longrightarrow>
     out_run sl limit om (i # ids) x fb ((ord, rt, rm, taker_fee ord rt) # fs) f"

lemma exact_out_run:
  assumes "exact_out_loop sl limit om ids st = Inr (st', True)"
  shows "\<exists>fs f fbs. out_run sl limit om ids (totalAmountOut_o st) (filledMakingAmountByMaker_o st) fs f \<and>
    filled_o st' = filled_o st @ map fill_info (fs @ [f]) @ fbs \<and> quote_shape om ids (fs @ [f]) fbs \<and>
    totalAmountInWei_o st' = totalAmountInWei_o st + (\<Sum>g\<leftarrow>fs @ [f]. fill_charge g)"
  using assms
proof (induction ids arbitrary: st)
  case Nil
  then show ?case by simp
next
  case (Cons i ids)
  from Cons.prems obtain ord where ord: "om i = Some ord"
    by (cases "om i") auto
  with Cons.prems obtain rm rt where rem: "RemainingAmount sl limit (filledMakingAmountByMaker_o st) ord = Inr (rm, rt)"
    by (auto simp: go_simps)
  have skip: ?case if "exact_out_loop sl limit om ids st1 = Inr (st', True)"
    "totalAmountOut_o st1 = totalAmountOut_o st" "filledMakingAmountByMaker_o st1 = filledMakingAmountByMaker_o st"
    "filled_o st1 = filled_o st" "totalAmountInWei_o st1 = totalAmountInWei_o st" for st1
  proof -
    from Cons.IH [OF that(1)] obtain fs f fbs where
      "out_run sl limit om ids (totalAmountOut_o st1) (filledMakingAmountByMaker_o st1) fs f"
      "filled_o st' = filled_o st1 @ map fill_info (fs @ [f]) @ fbs" "quote_shape om ids (fs @ [f]) fbs"
      "totalAmountInWei_o st' = totalAmountInWei_o st1 + (\<Sum>g\<leftarrow>fs @ [f]. fill_charge g)"
      by blast
    with that(2-) out_skip [of om i ord, OF ord] quote_shape_skip show ?thesis
      by (intro exI [of _ fs] exI [of _ f] exI [of _ fbs]) simp
  qed
  show ?case
  proof (cases "rm \<le> 0 \<or> rt \<le> 0")
    case True
    with Cons.prems ord rem show ?thesis
      by (intro skip [of st]) simp_all
  next
    case pos: False
    with Cons.prems ord rem obtain b bf where before:
      "calcMakerAssetAmountBeforeFee ord (totalAmountOut_o st) = Inr (b, bf)"
      by (auto simp: bnd_eq_Inr Let_def)
    show ?thesis
    proof (cases "b \<le> rm")
      case True
      with Cons.prems ord rem pos before obtain making taking t where last:
        "MakingAmount ord = Some making" "TakingAmount ord = Some taking"
        "divCeil (b * taking) making = Inr t"
        by (auto simp: bnd_eq_Inr deref_eq_Inr Let_def)
      show ?thesis
      proof (cases "t = 0")
        case zero: True
        with Cons.prems ord rem pos before True last show ?thesis
          by (intro skip [of "st\<lparr>totalMakingAmountWei_o := totalMakingAmountWei_o st + rm\<rparr>"])
            (simp_all add: Let_def)
      next
        case False
        define f where "f = (ord, t, b, taker_fee ord t)"
        from False Cons.prems ord rem pos before True last obtain fs' where
          fb: "fallback_loop sl limit om (addFilledMakingAmount (filledMakingAmountByMaker_o st) (Maker ord) b)
            (fallback_threshold b) ids (totalMakingAmountWei_o st + rm) (filled_o st @ [fill_info f]) = Inr fs'"
          and st': "filled_o st' = fs'" "totalAmountInWei_o st' = totalAmountInWei_o st + (t + taker_fee ord t)"
          by (auto simp: bnd_eq_Inr Let_def fill_info.simps taker_fee_exact_out f_def)
        from fallback_loop_fallbacks [OF fb] obtain fbs where fbs:
          "fs' = filled_o st @ [fill_info f] @ fbs" "fallbacks om ids fbs"
          by auto
        have "out_run sl limit om (i # ids) (totalAmountOut_o st) (filledMakingAmountByMaker_o st) [] f"
          using pos False unfolding f_def
          by (intro out_last [of om i ord, OF ord rem _ _ before True last]) auto
        then show ?thesis
          using fbs(1) quote_shape_fill [OF quote_shape_spare [OF fbs(2)], of i f] ord st'
          by (intro exI [of _ "[]"] exI [of _ f] exI [of _ fbs]) (simp add: f_def)
      qed
    next
      case full: False
      define st2 where "st2 = st\<lparr>totalMakingAmountWei_o := totalMakingAmountWei_o st + rm,
          totalAmountOut_o := totalAmountOut_o st - rm,
          totalAmountInWei_o := totalAmountInWei_o st + (rt + taker_fee ord rt),
          totalFeeAmountWei_o := totalFeeAmountWei_o st + taker_fee ord rt,
          totalFilledTakingAmountWei_o := totalFilledTakingAmountWei_o st + rt,
          filledMakingAmountByMaker_o := addFilledMakingAmount (filledMakingAmountByMaker_o st) (Maker ord) rm,
          filled_o := filled_o st @ [fill_info (ord, rt, rm, taker_fee ord rt)]\<rparr>"
      have "exact_out_loop sl limit om ids st2 = Inr (st', True)"
        using Cons.prems ord rem pos before full
        by (simp add: st2_def Let_def fill_info.simps taker_fee_exact_out)
      from Cons.IH [OF this] obtain fs f fbs where IH:
        "out_run sl limit om ids (totalAmountOut_o st2) (filledMakingAmountByMaker_o st2) fs f"
        "filled_o st' = filled_o st2 @ map fill_info (fs @ [f]) @ fbs" "quote_shape om ids (fs @ [f]) fbs"
        "totalAmountInWei_o st' = totalAmountInWei_o st2 + (\<Sum>g\<leftarrow>fs @ [f]. fill_charge g)"
        by blast
      have "out_run sl limit om (i # ids) (totalAmountOut_o st) (filledMakingAmountByMaker_o st)
          ((ord, rt, rm, taker_fee ord rt) # fs) f"
        using pos full IH(1)
        by (intro out_full [of om i ord, OF ord rem _ _ before]) (auto simp: st2_def)
      with IH(2-) quote_shape_fill [OF IH(3), of i "(ord, rt, rm, taker_fee ord rt)"] ord show ?thesis
        by (intro exI [of _ "(ord, rt, rm, taker_fee ord rt) # fs"] exI [of _ f] exI [of _ fbs])
          (simp add: st2_def)
    qed
  qed
qed

subsection \<open>What the taker receives\<close>

definition maker_fee :: "order \<Rightarrow> int \<Rightarrow> int" where
  "maker_fee ord m = (if IsTakerAssetFee ord \<or> MakerTokenFeePercent ord = 0 then 0
     else (m * MakerTokenFeePercent ord + (BasisPoint - 1)) div BasisPoint)"

lemma maker_fee_eq: "calcMakerAssetFeeAmount ord m = Inr (maker_fee ord m)"
  by (simp add: calcMakerAssetFeeAmount_def maker_fee_def add_diff_eq)

text \<open>The last fill is grossed up so that what is left after its fee is exactly the amount asked for.\<close>

lemma gross_up_exact:
  assumes "calcMakerAssetAmountBeforeFee ord x = Inr (b, bf)"
    and "0 \<le> MakerTokenFeePercent ord" and "MakerTokenFeePercent ord < BasisPoint"
  shows "b - maker_fee ord b = x"
proof (cases "IsTakerAssetFee ord \<or> MakerTokenFeePercent ord = 0")
  case True
  with assms(1) show ?thesis
    by (auto simp: calcMakerAssetAmountBeforeFee_def maker_fee_def split: if_splits)
next
  case False
  define P where "P = BasisPoint - MakerTokenFeePercent ord"
  have P: "0 < P" "P \<le> BasisPoint"
    using assms(2,3) by (simp_all add: P_def)
  have b: "b = (x * BasisPoint + P - 1) div P"
    using assms(1) False P(1) by (auto simp: calcMakerAssetAmountBeforeFee_def divCeil_def P_def go_simps)
  have lo: "x * BasisPoint \<le> b * P" and hi: "b * P < x * BasisPoint + P"
    using floor_le [OF P(1), of "x * BasisPoint + P - 1"] floor_gt [OF P(1), of "x * BasisPoint + P - 1"]
    by (auto simp: b distrib_right)
  define F where "F = (b * MakerTokenFeePercent ord + (BasisPoint - 1)) div BasisPoint"
  have F: "F * BasisPoint \<le> b * MakerTokenFeePercent ord + (BasisPoint - 1)"
    "b * MakerTokenFeePercent ord \<le> F * BasisPoint"
    using floor_le [OF BasisPoint_pos(1), of "b * MakerTokenFeePercent ord + (BasisPoint - 1)"]
      floor_gt [OF BasisPoint_pos(1), of "b * MakerTokenFeePercent ord + (BasisPoint - 1)"]
    by (auto simp: F_def distrib_right)
  have bP: "b * P = b * BasisPoint - b * MakerTokenFeePercent ord"
    by (simp add: P_def algebra_simps)
  have "(b - F) * BasisPoint \<le> b * P" "b * P - BasisPoint < (b - F) * BasisPoint"
    using F bP by (auto simp: left_diff_distrib)
  then have "(b - F) * BasisPoint < (x + 1) * BasisPoint" "(x - 1) * BasisPoint < (b - F) * BasisPoint"
    using lo hi P(2) by (auto simp: distrib_right left_diff_distrib)
  then have "b - F < x + 1" "x - 1 < b - F"
    by simp_all
  with False show ?thesis
    by (simp add: maker_fee_def F_def)
qed

fun fill_net :: "fill \<Rightarrow> int" where
  "fill_net (ord, t, m, fee) = m - maker_fee ord m"

lemma out_run_net:
  assumes "out_run sl limit om ids x fb fs f" and "wf_orders om"
    and "\<forall>i ord. om i = Some ord \<longrightarrow> MakerTokenFeePercent ord < BasisPoint"
  shows "(\<Sum>g\<leftarrow>fs @ [f]. fill_net g) = x - (\<Sum>g\<leftarrow>fs. fill_making g - fill_net g)"
  using assms
proof (induction rule: out_run.induct)
  case (out_last i ord fb rm rt x b bf making taking t ids)
  then have "0 \<le> MakerTokenFeePercent ord" "MakerTokenFeePercent ord < BasisPoint"
    by (auto dest: wf_ordersD elim: wf_orderE)
  with gross_up_exact [OF out_last.hyps(5)] show ?case
    by simp
qed simp_all

definition net :: "PoolSimulator \<Rightarrow> FilledOrderInfo \<Rightarrow> int" where
  "net p f = making_of f - maker_fee (the (ordersMapping p (OrderID f))) (making_of f)"

text \<open>C31: the orders of an exact-out quote are some filled completely, one more, and spare ones.  The taker pays
  what they charge, and receives the amount asked for less the maker fees of the completely filled orders:
  exactly the amount when there is none or they charge none, too little otherwise.\<close>

theorem limit_order_exact_out:
  assumes "wf_pool p" and "\<forall>i ord. ordersMapping p i = Some ord \<longrightarrow> MakerTokenFeePercent ord < BasisPoint"
    and "CalcAmountIn d sl p q = Inr r" and "Amount (TokenAmountOut_i q) = Some x"
    and "SwapInfo_r r = Some si" and "FilledOrders si \<noteq> []"
  shows "\<exists>full rest. FilledOrders si = full @ rest \<and> rest \<noteq> [] \<and> (\<forall>f \<in> set (tl rest). IsFallBack f) \<and>
    (\<Sum>f\<leftarrow>full @ [hd rest]. net p f)
      = x - (\<Sum>f\<leftarrow>full. maker_fee (the (ordersMapping p (OrderID f))) (making_of f)) \<and>
    TokenAmountIn_r r = Some (token_amount (TokenIn q) (Some (\<Sum>f\<leftarrow>full @ [hd rest]. charge p f)))"
proof -
  have wf: "wf_orders (ordersMapping p)"
    using assms(1) by (simp add: wf_pool_def)
  from assms(3-) obtain ids st where
    loop: "exact_out_loop sl (Limit_i q) (ordersMapping p) ids (out_start x) = Inr (st, True)"
    and r: "FilledOrders si = filled_o st"
      "TokenAmountIn_r r = Some (token_amount (TokenIn q) (Some (totalAmountInWei_o st)))"
    by (auto simp: CalcAmountIn_def calcAmountIn_def calcAmountInWithSwapInfo_def empty_swap_info_def Let_def
        bnd_eq_Inr deref_eq_Inr split: if_splits)
  from exact_out_run [OF loop] obtain fs f fbs where
    run: "out_run sl (Limit_i q) (ordersMapping p) ids x Map.empty fs f"
    and si: "FilledOrders si = map fill_info fs @ fill_info f # fbs"
    and shape: "quote_shape (ordersMapping p) ids (fs @ [f]) fbs"
    and tot: "totalAmountInWei_o st = (\<Sum>g\<leftarrow>fs @ [f]. fill_charge g)"
    using r by (auto simp: out_start_def)
  have om: "ordersMapping p (OrderID (fill_info g)) = Some (fst g)" if "g \<in> set (fs @ [f])" for g
    using quote_shape_order [OF shape that] wf_ordersD [OF wf] by (cases g) auto
  have each: "net p (fill_info g) = fill_net g" "charge p (fill_info g) = fill_charge g"
    "maker_fee (the (ordersMapping p (OrderID (fill_info g)))) (making_of (fill_info g)) = fill_making g - fill_net g"
    if "g \<in> set (fs @ [f])" for g
    using om [OF that] by (cases g; simp add: net_def charge_def)+
  have sums: "(\<Sum>g\<leftarrow>map fill_info fs @ [fill_info f]. net p g) = (\<Sum>g\<leftarrow>fs @ [f]. fill_net g)"
    "(\<Sum>g\<leftarrow>map fill_info fs @ [fill_info f]. charge p g) = (\<Sum>g\<leftarrow>fs @ [f]. fill_charge g)"
    "(\<Sum>g\<leftarrow>map fill_info fs. maker_fee (the (ordersMapping p (OrderID g))) (making_of g))
      = (\<Sum>g\<leftarrow>fs. fill_making g - fill_net g)"
    using each by (simp_all add: o_def cong: map_cong)
  have "\<forall>g \<in> set fbs. IsFallBack g"
    using shape by (auto simp: quote_shape_def elim!: fallbacksE)
  with si sums out_run_net [OF run wf assms(2)] r(2) tot show ?thesis
    by (intro exI [of _ "map fill_info fs"] exI [of _ "fill_info f # fbs"]) simp
qed

definition request_out_ex :: "int \<Rightarrow> (heap \<times> Inventory) CalcAmountInParams" where
  "request_out_ex x = \<lparr>TokenAmountOut_i = token_amount ''0xb'' (Some x), TokenIn = ''0xa'', Limit_i = Some limit_ex\<rparr>"

lemma pool_ex_fees: "ordersMapping (pool_ex pct) i = Some ord \<Longrightarrow> MakerTokenFeePercent ord = pct"
  by (auto simp: pool_ex_def order_ex_def split: if_splits)

text \<open>With a ten percent maker fee, asking for 130 fills the first order completely (90 after its fee) and 34
  of the second (30 after its fee).\<close>

lemma quote_out_ex:
  "\<exists>r si. CalcAmountIn deps_ex inventory_limit (pool_ex 1000) (request_out_ex 130) = Inr r \<and> SwapInfo_r r = Some si \<and>
     map (net (pool_ex 1000)) (FilledOrders si) = [90, 30] \<and> FilledOrders si \<noteq> []"
proof -
  have "(case CalcAmountIn deps_ex inventory_limit (pool_ex 1000) (request_out_ex 130) of
       Inl _ \<Rightarrow> False
     | Inr r \<Rightarrow> (case SwapInfo_r r of None \<Rightarrow> False | Some si \<Rightarrow>
         map (net (pool_ex 1000)) (FilledOrders si) = [90, 30] \<and> FilledOrders si \<noteq> []))"
    by code_simp
  then show ?thesis
    by (auto split: sum.splits option.splits)
qed

theorem limit_order_exact_out_witness:
  "\<exists>r si full rest. CalcAmountIn deps_ex inventory_limit (pool_ex 1000) (request_out_ex 130) = Inr r \<and>
     SwapInfo_r r = Some si \<and> FilledOrders si = full @ rest \<and> map (net (pool_ex 1000)) (FilledOrders si) = [90, 30] \<and>
     (\<Sum>f\<leftarrow>full @ [hd rest]. net (pool_ex 1000) f)
       = 130 - (\<Sum>f\<leftarrow>full. maker_fee (the (ordersMapping (pool_ex 1000) (OrderID f))) (making_of f))"
proof -
  from quote_out_ex obtain r si where
    q: "CalcAmountIn deps_ex inventory_limit (pool_ex 1000) (request_out_ex 130) = Inr r" "SwapInfo_r r = Some si"
      "map (net (pool_ex 1000)) (FilledOrders si) = [90, 30]" "FilledOrders si \<noteq> []"
    by (elim exE conjE) (rule that)
  have wf: "wf_pool (pool_ex 1000)"
    by (rule pool_ex_wf) (simp_all add: BasisPoint_def)
  have fees: "\<forall>i ord. ordersMapping (pool_ex 1000) i = Some ord \<longrightarrow> MakerTokenFeePercent ord < BasisPoint"
    using pool_ex_fees by (fastforce simp: BasisPoint_def)
  have "Amount (TokenAmountOut_i (request_out_ex 130)) = Some 130"
    by (simp add: request_out_ex_def)
  from limit_order_exact_out [OF wf fees q(1) this q(2,4)] obtain full rest where
    "FilledOrders si = full @ rest" "(\<Sum>f\<leftarrow>full @ [hd rest]. net (pool_ex 1000) f)
       = 130 - (\<Sum>f\<leftarrow>full. maker_fee (the (ordersMapping (pool_ex 1000) (OrderID f))) (making_of f))"
    by (elim exE conjE) (rule that)
  with q show ?thesis
    by (intro exI [of _ r] exI [of _ si] exI [of _ full] exI [of _ rest]) simp
qed

text \<open>A completely filled order can take more off the request than is left of it.  Then the next order is
  filled with a negative amount: asking for 95 of a pool whose first order gives 100 for 50 with a ten percent
  fee, the quote fills the second order with a negative amount and asks for less than the first order costs.\<close>

theorem limit_order_negative_fill:
  "\<exists>r si. CalcAmountIn deps_ex inventory_limit (pool_ex 1000) (request_out_ex 95) = Inr r \<and> SwapInfo_r r = Some si \<and>
     wf_pool (pool_ex 1000) \<and>
     map (\<lambda>f. (OrderID f, making_of f, taking_of f, IsFallBack f)) (FilledOrders si) = [(1, 100, 50, False), (2, -5, -3, False)] \<and>
     TokenAmountIn_r r = Some (token_amount ''0xa'' (Some 47))"
proof -
  have "(case CalcAmountIn deps_ex inventory_limit (pool_ex 1000) (request_out_ex 95) of
       Inl _ \<Rightarrow> False
     | Inr r \<Rightarrow> (case SwapInfo_r r of None \<Rightarrow> False | Some si \<Rightarrow>
         map (\<lambda>f. (OrderID f, making_of f, taking_of f, IsFallBack f)) (FilledOrders si) = [(1, 100, 50, False), (2, -5, -3, False)] \<and>
         TokenAmountIn_r r = Some (token_amount ''0xa'' (Some 47))))"
    by code_simp
  moreover have "wf_pool (pool_ex 1000)"
    by (rule pool_ex_wf) (simp_all add: BasisPoint_def)
  ultimately show ?thesis
    by (auto split: sum.splits option.splits)
qed

subsection \<open>Maker limits\<close>

lemma out_run_maker:
  assumes "out_run sl (Some l) om ids x fb fs f"
  shows "(\<Sum>g\<leftarrow>fs @ [f]. if limited maker asset (fst g) then fill_making g else 0)
         \<le> max 0 (maker_limit sl l maker asset - filled_by fb maker)"
  using assms
proof (induction rule: out_run.induct)
  case (out_last i ord fb rm rt x b bf making taking t ids)
  then show ?case
    using remaining_limited [OF out_last.hyps(2) _ out_last.hyps(3), of maker asset] by fastforce
next
  case (out_full i ord fb rm rt x b bf ids fs f)
  show ?case
    using limited_next [OF out_full.IH out_full.hyps(3), where asset = asset,
        OF remaining_limited [OF out_full.hyps(2) _ out_full.hyps(3)]]
    by (simp split: if_splits)
qed simp

text \<open>What a fill takes from a maker by way of an order the limit applies to.\<close>

definition limited_fill :: "PoolSimulator \<Rightarrow> string \<Rightarrow> string \<Rightarrow> FilledOrderInfo \<Rightarrow> int" where
  "limited_fill p maker asset f =
     (case ordersMapping p (OrderID f) of None \<Rightarrow> 0 | Some ord \<Rightarrow> if limited maker asset ord then making_of f else 0)"

lemma limited_fills:
  assumes "quote_shape (ordersMapping p) ids fs fbs" and "wf_orders (ordersMapping p)"
    and "(\<Sum>f\<leftarrow>fs. if limited maker asset (fst f) then fill_making f else 0) \<le> B"
  shows "(\<Sum>f\<leftarrow>map fill_info fs @ fbs. limited_fill p maker asset f) \<le> B"
proof -
  have "limited_fill p maker asset (fill_info f) = (if limited maker asset (fst f) then fill_making f else 0)"
    if "f \<in> set fs" for f
    using quote_shape_order [OF assms(1) that] wf_ordersD [OF assms(2)] by (cases f) (auto simp: limited_fill_def)
  then have "(\<Sum>f\<leftarrow>map fill_info fs. limited_fill p maker asset f)
      = (\<Sum>f\<leftarrow>fs. if limited maker asset (fst f) then fill_making f else 0)"
    by (simp add: o_def cong: map_cong)
  moreover have "(\<Sum>f\<leftarrow>fbs. limited_fill p maker asset f) = (\<Sum>f\<leftarrow>fbs. 0)"
    using assms(1) fallbacks_making
    by (intro arg_cong [of _ _ sum_list] map_cong) (auto simp: quote_shape_def limited_fill_def split: option.split)
  ultimately show ?thesis
    using assms(3) by simp
qed

text \<open>C2: no quote, exact in or exact out, takes more from a maker by way of the orders that state an available
  making amount than the swap limit says the maker can pay, however many orders it fills; the source ignores the
  limit for orders without that amount, but counts what they take.\<close>

theorem limit_order_maker_limit:
  assumes "wf_pool p"
  shows "(CalcAmountOut d sl p q = Inr r \<longrightarrow> Limit q = Some l \<longrightarrow> SwapInfo r = Some si \<longrightarrow>
      (\<Sum>f\<leftarrow>FilledOrders si. limited_fill p maker asset f) \<le> max 0 (maker_limit sl l maker asset)) \<and>
    (CalcAmountIn d sl p q' = Inr r' \<longrightarrow> Limit_i q' = Some l \<longrightarrow> SwapInfo_r r' = Some si \<longrightarrow>
      (\<Sum>f\<leftarrow>FilledOrders si. limited_fill p maker asset f) \<le> max 0 (maker_limit sl l maker asset))"
proof (intro conjI impI)
  have wf: "wf_orders (ordersMapping p)"
    using assms by (simp add: wf_pool_def)
  {
    assume q: "CalcAmountOut d sl p q = Inr r" "Limit q = Some l" "SwapInfo r = Some si"
    show "(\<Sum>f\<leftarrow>FilledOrders si. limited_fill p maker asset f) \<le> max 0 (maker_limit sl l maker asset)"
    proof (cases "FilledOrders si = []")
      case False
      obtain a where a: "Amount (TokenAmountIn q) = Some a"
        using q(1,3) False
        by (auto simp: CalcAmountOut_def calcAmountOut_def calcAmountOutWithSwapInfo_def empty_swap_info_def Let_def
            bnd_eq_Inr deref_eq_Inr split: if_splits)
      from q(1) a q(3) False obtain ids fs fbs where
        run: "fill_run sl (Limit q) (ordersMapping p) ids a Map.empty fs"
        and si: "FilledOrders si = map fill_info fs @ fbs" "quote_shape (ordersMapping p) ids fs fbs"
        by (rule lo_quoteE)
      from limited_fills [OF si(2) wf fill_run_maker [OF run [unfolded q(2)] wf]] show ?thesis
        by (simp add: si(1) filled_by_def)
    qed simp
  }
  {
    assume q: "CalcAmountIn d sl p q' = Inr r'" "Limit_i q' = Some l" "SwapInfo_r r' = Some si"
    show "(\<Sum>f\<leftarrow>FilledOrders si. limited_fill p maker asset f) \<le> max 0 (maker_limit sl l maker asset)"
    proof (cases "FilledOrders si = []")
      case False
      with q(1,3) obtain x ids st where
        loop: "exact_out_loop sl (Limit_i q') (ordersMapping p) ids (out_start x) = Inr (st, True)"
        and r: "FilledOrders si = filled_o st"
        by (auto simp: CalcAmountIn_def calcAmountIn_def calcAmountInWithSwapInfo_def empty_swap_info_def Let_def
            bnd_eq_Inr deref_eq_Inr split: if_splits)
      from exact_out_run [OF loop] obtain fs f fbs where
        run: "out_run sl (Limit_i q') (ordersMapping p) ids x Map.empty fs f"
        and si: "FilledOrders si = map fill_info (fs @ [f]) @ fbs"
        and shape: "quote_shape (ordersMapping p) ids (fs @ [f]) fbs"
        using r by (auto simp: out_start_def)
      from limited_fills [OF shape wf out_run_maker [OF run [unfolded q(2)]]] show ?thesis
        by (simp only: si) (simp add: filled_by_def)
    qed simp
  }
qed

text \<open>In the example the maker's limit is 150: asking for 130 takes 100 and 34 from it, selling 100 takes 150.\<close>

theorem limit_order_maker_limit_witness:
  "(\<exists>r si. CalcAmountOut deps_ex inventory_limit (pool_ex 0) request_ex = Inr r \<and> SwapInfo r = Some si \<and>
     (\<Sum>f\<leftarrow>FilledOrders si. limited_fill (pool_ex 0) ''m'' ''0xb'' f) \<le> 150) \<and>
   (\<exists>r si. CalcAmountIn deps_ex inventory_limit (pool_ex 1000) (request_out_ex 130) = Inr r \<and> SwapInfo_r r = Some si \<and>
     (\<Sum>f\<leftarrow>FilledOrders si. limited_fill (pool_ex 1000) ''m'' ''0xb'' f) \<le> 150)"
proof -
  have limit: "maker_limit inventory_limit limit_ex ''m'' ''0xb'' = 150"
    by code_simp
  from quote_ex obtain r si where q: "CalcAmountOut deps_ex inventory_limit (pool_ex 0) request_ex = Inr r"
    "SwapInfo r = Some si"
    by blast
  from quote_out_ex obtain r' si' where
    q': "CalcAmountIn deps_ex inventory_limit (pool_ex 1000) (request_out_ex 130) = Inr r'" "SwapInfo_r r' = Some si'"
    by blast
  have wf: "wf_pool (pool_ex 1000)"
    by (rule pool_ex_wf) (simp_all add: BasisPoint_def)
  have l: "Limit_i (request_out_ex 130) = Some limit_ex"
    by (simp add: request_out_ex_def)
  have "Limit request_ex = Some limit_ex"
    by simp
  from limit_order_maker_limit [OF pool_ex_wf0, THEN conjunct1, rule_format, OF q(1) this q(2), of "''m''" "''0xb''"]
  have "(\<Sum>f\<leftarrow>FilledOrders si. limited_fill (pool_ex 0) ''m'' ''0xb'' f) \<le> 150"
    by (simp add: limit)
  moreover from limit_order_maker_limit [OF wf, THEN conjunct2, rule_format, OF q'(1) l q'(2), of "''m''" "''0xb''"]
  have "(\<Sum>f\<leftarrow>FilledOrders si'. limited_fill (pool_ex 1000) ''m'' ''0xb'' f) \<le> 150"
    by (simp add: limit)
  ultimately show ?thesis
    using q q' by blast
qed

end
