(* ===== verification/Gmx_Price_Feed.thy ===== *)
theory Gmx_Price_Feed
  imports Pool_Interface
begin

text \<open>
  The price feeds of the package \<open>pkg/source/gmx\<close>: Chainlink rounds (\<open>price_feed.go\<close>,
  \<open>chainlink_flags.go\<close>), PancakeSwap pairs (\<open>pancake_pair.go\<close>), the two versions of the fast price
  feed (\<open>fast_price_feed_v1.go\<close>, \<open>fast_price_feed_v2.go\<close>) and \<open>VaultPriceFeed\<close>, which combines them.

  A Go map to \<open>*big.Int\<close> is a \<open>string \<rightharpoonup> int\<close>: the code never tests whether a key is present, so a
  missing key and a nil value are both \<open>None\<close>; in \<open>PriceFeeds\<close>, where it does, the values are
  pointers.  An interface value is \<open>None\<close> when it is nil and may hold a nil pointer otherwise.  The
  clock is read in seconds: \<open>Now\<close> is what \<open>time.Now().Unix()\<close> returns during one call.
  \<open>lo.CoalesceOrEmpty\<close> and JSON decoding are third-party code and parameters.
\<close>

record env =
  Now :: int
  lo_CoalesceOrEmpty :: "bigint list \<Rightarrow> bigint"

definition BasisPointsDivisor :: int where
  "BasisPointsDivisor = BasisPoint"

definition PricePrecision :: int where
  "PricePrecision = 10 ^ 30"

definition OneUSD :: int where
  "OneUSD = PricePrecision"

definition FlagArbitrumSeqOffline :: string where
  "FlagArbitrumSeqOffline = ''0xa438451d6458044c3c8cd2f6f31c91ac882a6d91''"

datatype PriceFeedType =
  PriceFeedTypeLatestRoundData | PriceFeedTypeLatestRoundAnswer | PriceFeedTypeDirect

record PriceFeed =
  RoundID :: bigint
  Answer :: bigint
  Answers :: "string \<rightharpoonup> int"

record ChainlinkFlags =
  Flags :: "string \<Rightarrow> bool"

record PancakePair =
  PairReserves :: "bigint list"
  TimestampLast :: "32 word"

record FastPriceFeedV1 =
  DisableFastPriceVoteCount_1 :: bigint
  IsSpreadEnabled_1 :: bool
  LastUpdatedAt_1 :: bigint
  MaxDeviationBasisPoints_1 :: bigint
  MinAuthorizations_1 :: bigint
  PriceDuration_1 :: bigint
  VolBasisPoints_1 :: bigint
  Prices_1 :: "string \<rightharpoonup> int"

record PriceDataItem =
  RefPrice :: bigint
  RefTime :: "64 word"
  CumulativeRefDelta :: "64 word"
  CumulativeFastDelta :: "64 word"

record FastPriceFeedV2 =
  DisableFastPriceVoteCount_2 :: bigint
  IsSpreadEnabled_2 :: bool
  LastUpdatedAt_2 :: bigint
  MaxDeviationBasisPoints_2 :: bigint
  MinAuthorizations_2 :: bigint
  PriceDuration_2 :: bigint
  MaxPriceUpdateDelay_2 :: bigint
  SpreadBasisPointsIfChainError_2 :: bigint
  SpreadBasisPointsIfInactive_2 :: bigint
  Prices_2 :: "string \<rightharpoonup> int"
  PriceData_2 :: "string \<rightharpoonup> PriceDataItem"
  MaxCumulativeDeltaDiffs_2 :: "string \<rightharpoonup> int"

datatype IFastPriceFeed = V1 "FastPriceFeedV1 option" | V2 "FastPriceFeedV2 option"

record VaultPriceFeed =
  BNB :: string
  BTC :: string
  ETH :: string
  FavorPrimaryPrice :: bool
  IsAmmEnabled :: bool
  IsSecondaryPriceEnabled :: bool
  MaxStrictPriceDeviation :: bigint
  PriceSampleSpace :: bigint
  SpreadThresholdBasisPoints :: bigint
  UseV2Pricing :: bool
  PriceFeedType_f :: PriceFeedType
  PriceDecimals :: "string \<rightharpoonup> int"
  SpreadBasisPoints :: "string \<rightharpoonup> int"
  AdjustmentBasisPoints :: "string \<rightharpoonup> int"
  StrictStableTokens :: "string \<Rightarrow> bool"
  IsAdjustmentAdditive :: "string \<Rightarrow> bool"
  BNBBUSD :: "PancakePair option"
  BTCBNB :: "PancakePair option"
  ETHBNB :: "PancakePair option"
  ChainlinkFlags_f :: "ChainlinkFlags option"
  SecondaryPriceFeed :: "IFastPriceFeed option"
  SecondaryPriceFeedVersion :: int
  PriceFeeds :: "string \<rightharpoonup> PriceFeed option"

subsection \<open>Chainlink rounds, flags and pairs\<close>

definition LatestRound :: "PriceFeed option \<Rightarrow> bigint go" where
  "LatestRound pf = bnd (deref pf) (\<lambda>f. Inr (RoundID f))"

definition LatestAnswer :: "PriceFeed option \<Rightarrow> bigint go" where
  "LatestAnswer pf = bnd (deref pf) (\<lambda>f. Inr (Answer f))"

definition GetRoundData ::
    "PriceFeed option \<Rightarrow> int \<Rightarrow> (int \<times> bigint \<times> int \<times> int \<times> int) go" where
  "GetRoundData pf roundID =
     bnd (deref pf) (\<lambda>f. Inr (roundID, Answers f (big_string roundID), 0, 0, 0))"

definition GetFlag :: "ChainlinkFlags \<Rightarrow> string \<Rightarrow> bool" where
  "GetFlag f address = Flags f address"

definition GetReserves :: "PancakePair option \<Rightarrow> (bigint \<times> bigint \<times> 32 word) go" where
  "GetReserves pp =
     bnd (deref pp) (\<lambda>p.
     bnd (idx (PairReserves p) 0) (\<lambda>r0.
     bnd (idx (PairReserves p) 1) (\<lambda>r1. Inr (r0, r1, TimestampLast p))))"

subsection \<open>The fast price feeds\<close>

definition V1_favorFastPrice :: "FastPriceFeedV1 \<Rightarrow> bool go" where
  "V1_favorFastPrice pf =
     (if IsSpreadEnabled_1 pf then Inr False
      else bnd (deref (DisableFastPriceVoteCount_1 pf)) (\<lambda>votes.
           bnd (deref (MinAuthorizations_1 pf)) (\<lambda>needed.
           Inr (if votes \<ge> needed then False else True))))"

definition V1_GetPrice ::
    "env \<Rightarrow> FastPriceFeedV1 option \<Rightarrow> string \<Rightarrow> bigint \<Rightarrow> bool \<Rightarrow> bigint go" where
  "V1_GetPrice e pfp token refPrice maximise =
     bnd (deref pfp) (\<lambda>pf.
     bnd (deref (LastUpdatedAt_1 pf)) (\<lambda>lastUpdatedAt.
     bnd (deref (PriceDuration_1 pf)) (\<lambda>duration.
     if Now e > int64 (int64 lastUpdatedAt + int64 duration) then Inr refPrice
     else
       bnd (deref (Prices_1 pf token)) (\<lambda>fastPrice.
       if fastPrice = 0 then Inr refPrice
       else
         bnd (deref (MaxDeviationBasisPoints_1 pf)) (\<lambda>dev.
         bnd (deref refPrice) (\<lambda>ref.
         let maxPrice = ref * (BasisPointsDivisor + dev) div BasisPointsDivisor;
             minPrice = ref * (BasisPointsDivisor - dev) div BasisPointsDivisor in
         bnd (V1_favorFastPrice pf) (\<lambda>favor.
         if favor \<and> fastPrice \<ge> minPrice \<and> fastPrice \<le> maxPrice
         then if maximise
              then if ref > fastPrice
                   then bnd (deref (VolBasisPoints_1 pf)) (\<lambda>vol.
                        let volPrice = fastPrice * (BasisPointsDivisor + vol) div BasisPointsDivisor in
                        Inr (Some (if volPrice > ref then ref else volPrice)))
                   else Inr (Some fastPrice)
              else if ref < fastPrice
                   then bnd (deref (VolBasisPoints_1 pf)) (\<lambda>vol.
                        let volPrice = fastPrice * (BasisPointsDivisor - vol) div BasisPointsDivisor in
                        Inr (Some (if volPrice < ref then ref else volPrice)))
                   else Inr (Some fastPrice)
         else if maximise
              then Inr (Some (if ref > fastPrice then ref
                              else if fastPrice > maxPrice then maxPrice else fastPrice))
              else Inr (Some (if ref < fastPrice then ref
                              else if fastPrice < minPrice then minPrice else fastPrice)))))))))"

definition getPriceData :: "FastPriceFeedV2 \<Rightarrow> string \<Rightarrow> bigint \<times> int \<times> int \<times> int" where
  "getPriceData pf token =
     (case PriceData_2 pf token of
        None \<Rightarrow> (None, 0, 0, 0)
      | Some d \<Rightarrow> (RefPrice d, uint (RefTime d), uint (CumulativeRefDelta d),
                   uint (CumulativeFastDelta d)))"

definition V2_favorFastPrice :: "FastPriceFeedV2 \<Rightarrow> string \<Rightarrow> bool go" where
  "V2_favorFastPrice pf token =
     (if IsSpreadEnabled_2 pf then Inr False
      else bnd (deref (DisableFastPriceVoteCount_2 pf)) (\<lambda>votes.
           bnd (deref (MinAuthorizations_2 pf)) (\<lambda>needed.
           if votes \<ge> needed then Inr False
           else (case getPriceData pf token of (_, _, refDelta, fastDelta) \<Rightarrow>
             if fastDelta > refDelta
             then bnd (deref (MaxCumulativeDeltaDiffs_2 pf token)) (\<lambda>maxDiff.
                  Inr (if fastDelta - refDelta > maxDiff then False else True))
             else Inr True))))"

definition V2_GetPrice ::
    "env \<Rightarrow> FastPriceFeedV2 option \<Rightarrow> string \<Rightarrow> bigint \<Rightarrow> bool \<Rightarrow> bigint go" where
  "V2_GetPrice e pfp token refPrice maximise =
     bnd (deref pfp) (\<lambda>pf.
     bnd (deref (LastUpdatedAt_2 pf)) (\<lambda>lastUpdatedAt.
     bnd (deref (MaxPriceUpdateDelay_2 pf)) (\<lambda>delay.
     if Now e > int64 (int64 lastUpdatedAt + int64 delay)
     then bnd (deref (SpreadBasisPointsIfChainError_2 pf)) (\<lambda>spread.
          bnd (deref refPrice) (\<lambda>ref.
          if maximise then Inr (Some (ref * (BasisPointsDivisor + spread) div BasisPointsDivisor))
          else Inr (Some (ref * (BasisPointsDivisor - spread) div BasisPointsDivisor))))
     else
       bnd (deref (PriceDuration_2 pf)) (\<lambda>duration.
       if Now e > int64 (int64 lastUpdatedAt + int64 duration)
       then bnd (deref (SpreadBasisPointsIfInactive_2 pf)) (\<lambda>spread.
            bnd (deref refPrice) (\<lambda>ref.
            if maximise then Inr (Some (ref * (BasisPointsDivisor + spread) div BasisPointsDivisor))
            else Inr (Some (ref * (BasisPointsDivisor - spread) div BasisPointsDivisor))))
       else
         bnd (deref (Prices_2 pf token)) (\<lambda>fastPrice.
         if fastPrice = 0 then Inr refPrice
         else
           bnd (deref refPrice) (\<lambda>ref.
           bnd (big_div ((if ref > fastPrice then ref - fastPrice else fastPrice - ref)
                         * BasisPointsDivisor) ref) (\<lambda>diffBasisPoints.
           bnd (V2_favorFastPrice pf token) (\<lambda>favor.
           bnd (if \<not> favor then Inr True
                else bnd (deref (MaxDeviationBasisPoints_2 pf)) (\<lambda>dev. Inr (diffBasisPoints > dev)))
             (\<lambda>hasSpread.
           if hasSpread
           then if maximise then Inr (Some (if ref > fastPrice then ref else fastPrice))
                else Inr (Some (if ref < fastPrice then ref else fastPrice))
           else Inr (Some fastPrice))))))))))"

definition Fast_GetPrice ::
    "env \<Rightarrow> IFastPriceFeed \<Rightarrow> string \<Rightarrow> bigint \<Rightarrow> bool \<Rightarrow> bigint go" where
  "Fast_GetPrice e feed token refPrice maximise =
     (case feed of V1 pf \<Rightarrow> V1_GetPrice e pf token refPrice maximise
                 | V2 pf \<Rightarrow> V2_GetPrice e pf token refPrice maximise)"

subsection \<open>The vault price feed\<close>

text \<open>\<open>json\<close>, \<open>json1\<close> and \<open>json2\<close> are \<open>json.Unmarshal\<close> at the anonymous struct types of the two
  methods.\<close>

definition UnmarshalJSONSecondaryPriceFeed ::
    "(string \<Rightarrow> FastPriceFeedV1 option go) \<Rightarrow> (string \<Rightarrow> FastPriceFeedV2 option go) \<Rightarrow>
     VaultPriceFeed \<Rightarrow> string \<Rightarrow> VaultPriceFeed go" where
  "UnmarshalJSONSecondaryPriceFeed json1 json2 pf bytes =
     (if SecondaryPriceFeedVersion pf = 1
      then (case json1 bytes of
              Inl (Err _) \<Rightarrow> Inr pf
            | Inl (Panic p) \<Rightarrow> Inl (Panic p)
            | Inr feed \<Rightarrow> Inr (pf\<lparr>SecondaryPriceFeed := Some (V1 feed)\<rparr>))
      else if SecondaryPriceFeedVersion pf = 2
      then (case json2 bytes of
              Inl (Err _) \<Rightarrow> Inr pf
            | Inl (Panic p) \<Rightarrow> Inl (Panic p)
            | Inr feed \<Rightarrow> Inr (pf\<lparr>SecondaryPriceFeed := Some (V2 feed)\<rparr>))
      else Inl (Err ''ErrInvalidSecondaryPriceFeedVersion''))"

definition UnmarshalJSON ::
    "(string \<Rightarrow> VaultPriceFeed go) \<Rightarrow> (string \<Rightarrow> FastPriceFeedV1 option go) \<Rightarrow>
     (string \<Rightarrow> FastPriceFeedV2 option go) \<Rightarrow> VaultPriceFeed \<Rightarrow> string \<Rightarrow> VaultPriceFeed go" where
  "UnmarshalJSON json json1 json2 pf bytes =
     bnd (json bytes) (\<lambda>priceFeed.
     UnmarshalJSONSecondaryPriceFeed json1 json2
       (priceFeed\<lparr>SecondaryPriceFeed := SecondaryPriceFeed pf\<rparr>) bytes)"

definition getPairPrice :: "PancakePair option \<Rightarrow> bool \<Rightarrow> int go" where
  "getPairPrice pair divByReserve0 =
     bnd (GetReserves pair) (\<lambda>(reserve0, reserve1, _).
     if divByReserve0
     then bnd (deref reserve0) (\<lambda>r0.
          if r0 = 0 then Inr 0
          else bnd (deref reserve1) (\<lambda>r1. big_div (r1 * PricePrecision) r0))
     else bnd (deref reserve1) (\<lambda>r1.
          if r1 = 0 then Inr 0
          else bnd (deref reserve0) (\<lambda>r0. big_div (r0 * PricePrecision) r1)))"

definition getAmmPrice :: "VaultPriceFeed \<Rightarrow> string \<Rightarrow> int go" where
  "getAmmPrice pf token =
     (if token = BNB pf then getPairPrice (BNBBUSD pf) True
      else if token = ETH pf
      then bnd (getPairPrice (BNBBUSD pf) True) (\<lambda>price0.
           bnd (getPairPrice (ETHBNB pf) True) (\<lambda>price1.
           Inr (price0 * price1 div PricePrecision)))
      else if token = BTC pf
      then bnd (getPairPrice (BNBBUSD pf) True) (\<lambda>price0.
           bnd (getPairPrice (BTCBNB pf) True) (\<lambda>price1.
           Inr (price0 * price1 div PricePrecision)))
      else Inr 0)"

definition getAmmPriceV2 :: "VaultPriceFeed \<Rightarrow> string \<Rightarrow> bool \<Rightarrow> bigint \<Rightarrow> bigint go" where
  "getAmmPriceV2 pf token maximise primaryPrice =
     bnd (getAmmPrice pf token) (\<lambda>ammPrice.
     if ammPrice = 0 then Inr primaryPrice
     else
       bnd (deref primaryPrice) (\<lambda>primary.
       bnd (deref (SpreadThresholdBasisPoints pf)) (\<lambda>threshold.
       if \<bar>ammPrice - primary\<bar> * BasisPointsDivisor < primary * threshold
       then Inr (Some (if FavorPrimaryPrice pf then primary else ammPrice))
       else if maximise \<and> ammPrice > primary then Inr (Some ammPrice)
       else if \<not> maximise \<and> ammPrice < primary then Inr (Some ammPrice)
       else Inr (Some primary))))"

definition getSecondaryPrice ::
    "env \<Rightarrow> VaultPriceFeed \<Rightarrow> string \<Rightarrow> bigint \<Rightarrow> bool \<Rightarrow> bigint go" where
  "getSecondaryPrice e pf token referencePrice maximise =
     (case SecondaryPriceFeed pf of
        None \<Rightarrow> Inr referencePrice
      | Some feed \<Rightarrow> Fast_GetPrice e feed token referencePrice maximise)"

text \<open>The loop over the last rounds, from round \<open>i\<close> on.\<close>

function sample_loop ::
    "PriceFeed option \<Rightarrow> bigint \<Rightarrow> int \<Rightarrow> bool \<Rightarrow> int \<Rightarrow> int \<Rightarrow> int go" where
  "sample_loop feed roundID space maximise i price =
     (if i < space
      then bnd (deref roundID) (\<lambda>round.
           if round \<le> i then Inr price
           else
             bnd (if i = 0 then LatestAnswer feed
                  else bnd (GetRoundData feed (round - i)) (\<lambda>(_, p, _, _, _). Inr p)) (\<lambda>pp.
             bnd (deref pp) (\<lambda>p.
             if p \<le> 0 then Inl (Err ''ErrVaultPriceFeedInvalidPrice'')
             else sample_loop feed roundID space maximise (i + 1)
                    (if price = 0 then p
                     else if maximise \<and> p > price then p
                     else if \<not> maximise \<and> p < price then p
                     else price))))
      else Inr price)"
  by auto
termination
  by (relation "measure (\<lambda>(feed, roundID, space, maximise, i, price). nat (space - i))") auto

declare sample_loop.simps [simp del]

definition getPrimaryPrice :: "env \<Rightarrow> VaultPriceFeed \<Rightarrow> string \<Rightarrow> bool \<Rightarrow> bigint go" where
  "getPrimaryPrice e pf token maximise =
     (case PriceFeeds pf token of
        None \<Rightarrow> Inl (Err ''ErrVaultPriceFeedInvalidPriceFeed'')
      | Some priceFeed \<Rightarrow>
          if (case ChainlinkFlags_f pf of None \<Rightarrow> False
              | Some f \<Rightarrow> GetFlag f FlagArbitrumSeqOffline)
          then Inl (Err ''ErrVaultPriceFeedChainlinkFeedsNotUpdated'')
          else if PriceFeedType_f pf = PriceFeedTypeDirect
          then bnd (deref priceFeed) (\<lambda>f.
               Inr (lo_CoalesceOrEmpty e
                      [Answers f (if maximise then ''true'' else ''false''), Some 0]))
          else (case PriceSampleSpace pf of
                  None \<Rightarrow> LatestAnswer priceFeed
                | Some space \<Rightarrow>
                    bnd (LatestRound priceFeed) (\<lambda>roundID.
                    bnd (sample_loop priceFeed roundID space maximise 0 0) (\<lambda>price.
                    if price \<le> 0 then Inl (Err ''ErrVaultPriceFeedCouldNotFetchPrice'')
                    else
                      bnd (deref (PriceDecimals pf token)) (\<lambda>priceDecimal.
                      bnd (TenPowInt (int64 priceDecimal)) (\<lambda>ten.
                      bnd (big_div (price * PricePrecision) ten) (\<lambda>p. Inr (Some p))))))))"

text \<open>The common tail of \<open>getPriceV1\<close> and \<open>getPriceV2\<close>: strict stable tokens are pinned to one dollar
  unless they left the allowed band on the side that favours the pool, the others get a spread.\<close>

definition spread_price :: "VaultPriceFeed \<Rightarrow> string \<Rightarrow> bool \<Rightarrow> bigint \<Rightarrow> int go" where
  "spread_price pf token maximise pricep =
     bnd (deref pricep) (\<lambda>price.
     if StrictStableTokens pf token
     then bnd (deref (MaxStrictPriceDeviation pf)) (\<lambda>dev.
          if \<bar>price - OneUSD\<bar> \<le> dev then Inr OneUSD
          else if maximise \<and> price > OneUSD then Inr price
          else if \<not> maximise \<and> price < OneUSD then Inr price
          else Inr OneUSD)
     else bnd (deref (SpreadBasisPoints pf token)) (\<lambda>spread.
          Inr (price * (if maximise then BasisPointsDivisor + spread else BasisPointsDivisor - spread)
               div BasisPointsDivisor)))"

definition getPriceV1 :: "env \<Rightarrow> VaultPriceFeed \<Rightarrow> string \<Rightarrow> bool \<Rightarrow> bool \<Rightarrow> int go" where
  "getPriceV1 e pf token maximise includeAmmPrice =
     bnd (getPrimaryPrice e pf token maximise) (\<lambda>price.
     bnd (if includeAmmPrice \<and> IsAmmEnabled pf
          then bnd (getAmmPrice pf token) (\<lambda>ammPrice.
               if ammPrice > 0
               then bnd (deref price) (\<lambda>p0.
                    let p1 = (if maximise = (ammPrice > p0) then ammPrice else p0);
                        p2 = (if \<not> maximise \<and> ammPrice < p1 then ammPrice else p1)
                    in Inr (Some p2))
               else Inr price)
          else Inr price) (\<lambda>price.
     bnd (if IsSecondaryPriceEnabled pf then getSecondaryPrice e pf token price maximise
          else Inr price) (\<lambda>price.
     spread_price pf token maximise price)))"

definition getPriceV2 :: "env \<Rightarrow> VaultPriceFeed \<Rightarrow> string \<Rightarrow> bool \<Rightarrow> bool \<Rightarrow> int go" where
  "getPriceV2 e pf token maximise includeAmmPrice =
     bnd (getPrimaryPrice e pf token maximise) (\<lambda>price.
     bnd (if includeAmmPrice \<and> IsAmmEnabled pf then getAmmPriceV2 pf token maximise price
          else Inr price) (\<lambda>price.
     bnd (if IsSecondaryPriceEnabled pf then getSecondaryPrice e pf token price maximise
          else Inr price) (\<lambda>price.
     spread_price pf token maximise price)))"

definition GetPrice ::
    "env \<Rightarrow> VaultPriceFeed option \<Rightarrow> string \<Rightarrow> bool \<Rightarrow> bool \<Rightarrow> bool \<Rightarrow> int go" where
  "GetPrice e pfp token maximise includeAmmPrice useSwapPricing =
     bnd (deref pfp) (\<lambda>pf.
     bnd (if UseV2Pricing pf then getPriceV2 e pf token maximise includeAmmPrice
          else getPriceV1 e pf token maximise includeAmmPrice) (\<lambda>price.
     bnd (deref (AdjustmentBasisPoints pf token)) (\<lambda>adjustmentBps.
     if adjustmentBps > 0
     then Inr (price * (if IsAdjustmentAdditive pf token then BasisPointsDivisor + adjustmentBps
                        else BasisPointsDivisor - adjustmentBps) div BasisPointsDivisor)
     else Inr price)))"

subsection \<open>Ordered prices\<close>

text \<open>What the contracts guarantee of the numbers a feed holds: prices and reserves are not negative,
  basis points lie between 0 and 10000, and a direct feed answers a minimum below its maximum.\<close>

definition nn :: "bigint \<Rightarrow> bool" where
  "nn x = (case x of None \<Rightarrow> True | Some v \<Rightarrow> 0 \<le> v)"

definition bps_ok :: "bigint \<Rightarrow> bool" where
  "bps_ok x = (case x of None \<Rightarrow> True | Some v \<Rightarrow> 0 \<le> v \<and> v \<le> BasisPointsDivisor)"

definition pair_ok :: "PancakePair option \<Rightarrow> bool" where
  "pair_ok p = (case p of None \<Rightarrow> True | Some q \<Rightarrow> list_all nn (PairReserves q))"

definition fast_ok :: "IFastPriceFeed \<Rightarrow> string \<Rightarrow> bool" where
  "fast_ok feed token = (case feed of
     V1 (Some pf) \<Rightarrow> nn (Prices_1 pf token) \<and> nn (MaxDeviationBasisPoints_1 pf) \<and> nn (VolBasisPoints_1 pf)
   | V2 (Some pf) \<Rightarrow> nn (Prices_2 pf token) \<and> bps_ok (SpreadBasisPointsIfChainError_2 pf)
                     \<and> bps_ok (SpreadBasisPointsIfInactive_2 pf)
   | _ \<Rightarrow> True)"

definition answer_or_zero :: "PriceFeed \<Rightarrow> string \<Rightarrow> int" where
  "answer_or_zero f s = (case Answers f s of None \<Rightarrow> 0 | Some v \<Rightarrow> v)"

definition feed_ok :: "VaultPriceFeed \<Rightarrow> string \<Rightarrow> bool" where
  "feed_ok pf token =
     ((case PriceFeeds pf token of
         Some (Some f) \<Rightarrow> nn (Answer f) \<and>
           (PriceFeedType_f pf = PriceFeedTypeDirect \<longrightarrow>
              0 \<le> answer_or_zero f ''false'' \<and> answer_or_zero f ''false'' \<le> answer_or_zero f ''true'')
       | _ \<Rightarrow> True) \<and>
      pair_ok (BNBBUSD pf) \<and> pair_ok (BTCBNB pf) \<and> pair_ok (ETHBNB pf) \<and>
      (case SecondaryPriceFeed pf of None \<Rightarrow> True | Some feed \<Rightarrow> fast_ok feed token) \<and>
      bps_ok (SpreadBasisPoints pf token) \<and> bps_ok (AdjustmentBasisPoints pf token))"

text \<open>\<open>lo.CoalesceOrEmpty\<close> returns its first non-nil argument.\<close>

definition coalesces :: "env \<Rightarrow> bool" where
  "coalesces e = (\<forall>x y. lo_CoalesceOrEmpty e [x, Some y] = (case x of None \<Rightarrow> Some y | Some v \<Rightarrow> Some v))"

definition ordered :: "bigint \<Rightarrow> bigint \<Rightarrow> bool" where
  "ordered x y = (case (x, y) of (Some a, Some b) \<Rightarrow> 0 \<le> a \<and> a \<le> b | _ \<Rightarrow> True)"

lemma ordered_simps [simp]:
  "ordered (Some a) (Some b) = (0 \<le> a \<and> a \<le> b)" "ordered None y" "ordered x None"
  by (simp_all add: ordered_def split: option.splits)

lemma nn_simps [simp]: "nn (Some v) = (0 \<le> v)" "nn None"
  by (simp_all add: nn_def)

lemma bps_ok_simps [simp]:
  "bps_ok (Some v) = (0 \<le> v \<and> v \<le> BasisPointsDivisor)" "bps_ok None"
  by (simp_all add: bps_ok_def)

lemma BasisPointsDivisor_pos [simp]: "0 < BasisPointsDivisor" "0 \<le> BasisPointsDivisor" "BasisPointsDivisor \<noteq> 0"
  by (simp_all add: BasisPointsDivisor_def BasisPoint_def)

lemma PricePrecision_pos [simp]: "0 < PricePrecision" "0 \<le> PricePrecision" "PricePrecision \<noteq> 0"
  by (simp_all add: PricePrecision_def)

text \<open>Scaling by basis points.\<close>

definition scale :: "int \<Rightarrow> int \<Rightarrow> int" where
  "scale p b = p * b div BasisPointsDivisor"

lemma scale_mono: "0 \<le> b \<Longrightarrow> p \<le> q \<Longrightarrow> scale p b \<le> scale q b"
  by (simp add: scale_def zdiv_mono1 mult_right_mono)

lemma scale_mono2: "0 \<le> p \<Longrightarrow> b \<le> c \<Longrightarrow> scale p b \<le> scale p c"
  by (simp add: scale_def zdiv_mono1 mult_left_mono)

lemma scale_one: "scale p BasisPointsDivisor = p"
  by (simp add: scale_def)

lemma scale_up: "0 \<le> p \<Longrightarrow> 0 \<le> s \<Longrightarrow> p \<le> scale p (BasisPointsDivisor + s)"
  using scale_mono2 [of p BasisPointsDivisor "BasisPointsDivisor + s"] by (simp add: scale_one)

lemma scale_down: "0 \<le> p \<Longrightarrow> 0 \<le> s \<Longrightarrow> scale p (BasisPointsDivisor - s) \<le> p"
  using scale_mono2 [of p "BasisPointsDivisor - s" BasisPointsDivisor] by (simp add: scale_one)

lemma scale_nonneg: "0 \<le> p \<Longrightarrow> 0 \<le> b \<Longrightarrow> 0 \<le> scale p b"
  by (simp add: scale_def)

lemma scale_spread:
  assumes "0 \<le> a" and "a \<le> b" and "0 \<le> s" and "s \<le> BasisPointsDivisor"
  shows "0 \<le> scale a (BasisPointsDivisor - s)"
    and "scale a (BasisPointsDivisor - s) \<le> scale b (BasisPointsDivisor + s)"
  using scale_down [of a s] scale_up [of b s] assms by (auto intro: scale_nonneg)

lemma scale_band_neg: "0 \<le> p \<Longrightarrow> b < 0 \<Longrightarrow> scale p b \<le> 0"
  using scale_mono2 [of p b 0] by (simp add: scale_def)

subsubsection \<open>Each stage keeps the order\<close>

lemma V1_nil: "V1_GetPrice e pf token None mx = Inr x \<Longrightarrow> x = None"
  by (auto simp: V1_GetPrice_def go_simps split: if_splits)

lemma V2_nil: "V2_GetPrice e pf token None mx = Inr x \<Longrightarrow> x = None"
  by (auto simp: V2_GetPrice_def go_simps split: if_splits)

text \<open>What the first version answers to the lower (upper) reference price when its price is fresh:
  \<open>w\<close> (\<open>u\<close>) is the fast price moved by the volatility margin.\<close>

definition fast_low :: "bool \<Rightarrow> int \<Rightarrow> int \<Rightarrow> int \<Rightarrow> int \<Rightarrow> int" where
  "fast_low favor dev F w a =
     (if favor \<and> scale a (BasisPointsDivisor - dev) \<le> F \<and> F \<le> scale a (BasisPointsDivisor + dev)
      then if a < F then max a w else F
      else if a < F then a else max F (scale a (BasisPointsDivisor - dev)))"

definition fast_high :: "bool \<Rightarrow> int \<Rightarrow> int \<Rightarrow> int \<Rightarrow> int \<Rightarrow> int" where
  "fast_high favor dev F u b =
     (if favor \<and> scale b (BasisPointsDivisor - dev) \<le> F \<and> F \<le> scale b (BasisPointsDivisor + dev)
      then if F < b then min b u else F
      else if F < b then b else min F (scale b (BasisPointsDivisor + dev)))"

lemma fast_low_high:
  assumes "0 \<le> a" and "a \<le> b" and "0 \<le> F" and "0 \<le> dev" and w: "w \<le> F" and u: "F \<le> u"
  shows "0 \<le> fast_low favor dev F w a" and "fast_low favor dev F w a \<le> fast_high favor dev F u b"
proof -
  define B where "B = BasisPointsDivisor"
  have up: "scale a (B + dev) \<le> scale b (B + dev)" "b \<le> scale b (B + dev)" "a \<le> scale a (B + dev)"
    using assms by (auto simp: B_def intro: scale_mono scale_up)
  have down: "scale a (B - dev) \<le> a"
    using assms by (auto simp: B_def intro: scale_down)
  have down2: "scale a (B - dev) \<le> scale b (B - dev) \<or> scale a (B - dev) \<le> 0"
    using scale_mono [of "B - dev" a b] scale_band_neg [of a "B - dev"] assms by linarith
  show "0 \<le> fast_low favor dev F w a"
    using assms by (simp add: fast_low_def le_max_iff_disj)
  show "fast_low favor dev F w a \<le> fast_high favor dev F u b"
    using w u up down down2 assms unfolding fast_low_def fast_high_def B_def [symmetric]
    by (simp split: if_split; linarith)
qed

lemma V1_fresh:
  assumes "V1_GetPrice e (Some pf) token (Some a) mx = Inr (Some x)" and "x \<noteq> a"
    and "fast_ok (V1 (Some pf)) token"
  obtains F dev favor where "Prices_1 pf token = Some F" "0 < F" "MaxDeviationBasisPoints_1 pf = Some dev"
    "0 \<le> dev" "V1_favorFastPrice pf = Inr favor"
    "\<not> Now e > int64 (int64 (the (LastUpdatedAt_1 pf)) + int64 (the (PriceDuration_1 pf)))"
proof -
  obtain F dev favor where f: "Prices_1 pf token = Some F" "F \<noteq> 0" "MaxDeviationBasisPoints_1 pf = Some dev"
    "V1_favorFastPrice pf = Inr favor"
    "\<not> Now e > int64 (int64 (the (LastUpdatedAt_1 pf)) + int64 (the (PriceDuration_1 pf)))"
    using assms(1,2) by (auto simp: V1_GetPrice_def go_simps Let_def split: if_splits)
  moreover have "0 < F" and "0 \<le> dev"
    using assms(3) f by (auto simp: fast_ok_def)
  ultimately show thesis
    using that by blast
qed

lemma V1_low:
  assumes "V1_GetPrice e (Some pf) token (Some a) False = Inr (Some x)"
    and "Prices_1 pf token = Some F" "0 < F" "MaxDeviationBasisPoints_1 pf = Some dev"
    "V1_favorFastPrice pf = Inr favor" "nn (VolBasisPoints_1 pf)"
    and fresh: "\<not> Now e > int64 (int64 (the (LastUpdatedAt_1 pf)) + int64 (the (PriceDuration_1 pf)))"
  shows "\<exists>w \<le> F. x = fast_low favor dev F w a"
proof (cases "favor \<and> scale a (BasisPointsDivisor - dev) \<le> F \<and> F \<le> scale a (BasisPointsDivisor + dev) \<and> a < F")
  case True
  with assms obtain v where v: "VolBasisPoints_1 pf = Some v" and x: "x = max a (scale F (BasisPointsDivisor - v))"
    by (auto simp: V1_GetPrice_def go_simps Let_def scale_def split: if_splits)
  have "scale F (BasisPointsDivisor - v) \<le> F"
    using assms v by (simp add: scale_down)
  with True x show ?thesis
    unfolding fast_low_def by auto
next
  case False
  with assms have "x = fast_low favor dev F F a"
    by (auto simp: V1_GetPrice_def go_simps Let_def scale_def fast_low_def split: if_splits)
  then show ?thesis by blast
qed

lemma V1_high:
  assumes "V1_GetPrice e (Some pf) token (Some b) True = Inr (Some y)"
    and "Prices_1 pf token = Some F" "0 < F" "MaxDeviationBasisPoints_1 pf = Some dev"
    "V1_favorFastPrice pf = Inr favor" "nn (VolBasisPoints_1 pf)"
    and fresh: "\<not> Now e > int64 (int64 (the (LastUpdatedAt_1 pf)) + int64 (the (PriceDuration_1 pf)))"
  shows "\<exists>u \<ge> F. y = fast_high favor dev F u b"
proof (cases "favor \<and> scale b (BasisPointsDivisor - dev) \<le> F \<and> F \<le> scale b (BasisPointsDivisor + dev) \<and> F < b")
  case True
  with assms obtain v where v: "VolBasisPoints_1 pf = Some v" and y: "y = min b (scale F (BasisPointsDivisor + v))"
    by (auto simp: V1_GetPrice_def go_simps Let_def scale_def split: if_splits)
  have "F \<le> scale F (BasisPointsDivisor + v)"
    using assms v by (simp add: scale_up)
  with True y show ?thesis
    unfolding fast_high_def by auto
next
  case False
  with assms have "y = fast_high favor dev F F b"
    by (auto simp: V1_GetPrice_def go_simps Let_def scale_def fast_high_def split: if_splits)
  then show ?thesis by blast
qed

lemma V1_ordered:
  assumes "V1_GetPrice e (Some pf) token (Some a) False = Inr (Some x)"
    and "V1_GetPrice e (Some pf) token (Some b) True = Inr (Some y)"
    and "0 \<le> a" and "a \<le> b" and ok: "fast_ok (V1 (Some pf)) token"
  shows "0 \<le> x \<and> x \<le> y"
proof (cases "x = a \<and> y = b")
  case True
  with assms show ?thesis by simp
next
  case False
  then obtain F dev favor where fd: "Prices_1 pf token = Some F" "0 < F" "MaxDeviationBasisPoints_1 pf = Some dev"
    "V1_favorFastPrice pf = Inr favor" and dev: "0 \<le> dev"
    and fresh: "\<not> Now e > int64 (int64 (the (LastUpdatedAt_1 pf)) + int64 (the (PriceDuration_1 pf)))"
    using V1_fresh [OF assms(1) _ ok] V1_fresh [OF assms(2) _ ok] by metis
  have vol: "nn (VolBasisPoints_1 pf)"
    using ok by (simp add: fast_ok_def)
  obtain w u where "w \<le> F" "x = fast_low favor dev F w a" "F \<le> u" "y = fast_high favor dev F u b"
    using V1_low [OF assms(1) fd vol fresh] V1_high [OF assms(2) fd vol fresh] by blast
  then show ?thesis
    using fast_low_high [of a b F dev w u favor] assms(3,4) fd(2) dev by simp
qed

lemma V2_ordered:
  assumes "V2_GetPrice e (Some pf) token (Some a) False = Inr (Some x)"
    and "V2_GetPrice e (Some pf) token (Some b) True = Inr (Some y)"
    and "0 \<le> a" and "a \<le> b" and "fast_ok (V2 (Some pf)) token"
  shows "0 \<le> x \<and> x \<le> y"
  using assms
  by (auto simp: V2_GetPrice_def go_simps fast_ok_def scale_def [symmetric] intro: scale_spread split: if_splits)

lemma fast_ordered:
  assumes "Fast_GetPrice e feed token pa False = Inr x" and "Fast_GetPrice e feed token pb True = Inr y"
    and "ordered pa pb" and "fast_ok feed token"
  shows "ordered x y"
proof (cases "x = None \<or> y = None")
  case True
  then show ?thesis by auto
next
  case False
  then obtain x' y' where xy: "x = Some x'" "y = Some y'" by auto
  show ?thesis
  proof (cases feed)
    case (V1 p)
    then obtain pf where pf: "p = Some pf"
      using assms(1) by (cases p) (auto simp: Fast_GetPrice_def V1_GetPrice_def)
    have "pa \<noteq> None" and "pb \<noteq> None"
      using assms(1,2) V1 xy by (cases pa; cases pb; auto simp: Fast_GetPrice_def dest: V1_nil)+
    with assms V1 pf xy show ?thesis
      by (auto simp: Fast_GetPrice_def dest: V1_ordered)
  next
    case (V2 p)
    then obtain pf where pf: "p = Some pf"
      using assms(1) by (cases p) (auto simp: Fast_GetPrice_def V2_GetPrice_def)
    have "pa \<noteq> None" and "pb \<noteq> None"
      using assms(1,2) V2 xy by (cases pa; cases pb; auto simp: Fast_GetPrice_def dest: V2_nil)+
    with assms V2 pf xy show ?thesis
      by (auto simp: Fast_GetPrice_def dest: V2_ordered)
  qed
qed

lemma secondary_ordered:
  assumes "getSecondaryPrice e pf token pa False = Inr x" and "getSecondaryPrice e pf token pb True = Inr y"
    and "ordered pa pb" and "feed_ok pf token"
  shows "ordered x y"
  using assms by (auto simp: getSecondaryPrice_def feed_ok_def split: option.splits intro: fast_ordered)

lemma getPairPrice_nonneg:
  assumes "getPairPrice p d = Inr x" and "pair_ok p"
  shows "0 \<le> x"
proof -
  obtain r0 r1 t where r: "GetReserves p = Inr (r0, r1, t)"
    using assms(1) by (auto simp: getPairPrice_def go_simps)
  then have "nn r0" and "nn r1"
    using assms(2) by (auto simp: GetReserves_def pair_ok_def go_simps list_all_length split: option.splits)
  with r assms(1) show ?thesis
    by (auto simp: getPairPrice_def go_simps split: if_splits)
qed

lemma getAmmPrice_nonneg: "getAmmPrice pf token = Inr x \<Longrightarrow> feed_ok pf token \<Longrightarrow> 0 \<le> x"
  by (auto simp: getAmmPrice_def feed_ok_def go_simps split: if_splits
      dest!: getPairPrice_nonneg)

lemma amm2_ordered:
  assumes "getAmmPriceV2 pf token False pa = Inr x" and "getAmmPriceV2 pf token True pb = Inr y"
    and "ordered pa pb" and "feed_ok pf token"
  shows "ordered x y"
  using assms getAmmPrice_nonneg [of pf token]
  by (cases pa; cases pb) (auto simp: getAmmPriceV2_def go_simps split: if_splits)


lemma sample_loop_ordered:
  assumes "sample_loop feed rid space False i lo = Inr x" and "sample_loop feed rid space True i hi = Inr y"
    and "0 \<le> lo" and "lo \<le> hi" and "lo = 0 \<longleftrightarrow> hi = 0"
  shows "0 \<le> x \<and> x \<le> y"
  using assms
proof (induction feed rid space False i lo arbitrary: hi rule: sample_loop.induct)
  case (1 feed rid space i lo)
  show ?case
  proof (cases "i < space \<and> (\<forall>r. rid = Some r \<longrightarrow> i < r)")
    case False
    with "1.prems" show ?thesis
      by (auto simp: sample_loop.simps [of _ _ _ _ i] go_simps split: if_splits)
  next
    case True
    then obtain r pp p where r: "rid = Some r" "i < r" and
      pp: "(if i = 0 then LatestAnswer feed
           else bnd (GetRoundData feed (r - i)) (\<lambda>(_, p, _, _, _). Inr p)) = Inr pp" and
      p: "pp = Some p" "0 < p" and
      lo: "sample_loop feed rid space False (i + 1) (if lo = 0 then p else if p < lo then p else lo) = Inr x"
      using "1.prems"(1) by (subst (asm) sample_loop.simps) (auto simp: go_simps split: if_splits)
    have hi: "sample_loop feed rid space True (i + 1) (if hi = 0 then p else if p > hi then p else hi) = Inr y"
      using "1.prems"(2) True r pp p by (subst (asm) sample_loop.simps) (simp split: if_splits)
    show ?thesis
    proof (rule "1.hyps" [of r pp p "if hi = 0 then p else if p > hi then p else hi"])
      show "sample_loop feed rid space False (i + 1)
          (if lo = 0 then p else if False \<and> lo < p then p else if \<not> False \<and> p < lo then p else lo) = Inr x"
        using lo by (auto split: if_splits)
    qed (use pp p r True hi "1.prems"(3-5) in auto)
  qed
qed


lemma primary_ordered:
  assumes "getPrimaryPrice e pf token False = Inr x" and "getPrimaryPrice e pf token True = Inr y"
    and "feed_ok pf token" and "coalesces e"
  shows "ordered x y"
proof -
  obtain feed where feed: "PriceFeeds pf token = Some feed"
    using assms(1) by (auto simp: getPrimaryPrice_def split: option.splits)
  show ?thesis
  proof (cases "PriceFeedType_f pf = PriceFeedTypeDirect \<or> PriceSampleSpace pf = None")
    case True
    then obtain f where f: "feed = Some f"
      using assms(1) feed by (cases feed) (auto simp: getPrimaryPrice_def LatestAnswer_def split: if_splits)
    show ?thesis
      using True assms feed f
      by (auto simp: getPrimaryPrice_def LatestAnswer_def feed_ok_def coalesces_def answer_or_zero_def
          ordered_def split: if_splits option.splits)
  next
    case False
    then obtain space where space: "PriceSampleSpace pf = Some space" by auto
    obtain rid a b d ten where rid: "LatestRound feed = Inr rid"
      and a: "sample_loop feed rid space False 0 0 = Inr a" and b: "sample_loop feed rid space True 0 0 = Inr b"
      and d: "PriceDecimals pf token = Some d" "TenPowInt (int64 d) = Inr ten"
      and x: "big_div (a * PricePrecision) ten = Inr (the x)" and y: "big_div (b * PricePrecision) ten = Inr (the y)"
      and some: "x = Some (the x)" "y = Some (the y)"
      using False assms(1,2) feed space by (auto simp: getPrimaryPrice_def go_simps split: if_splits)
    have ab: "0 \<le> a \<and> a \<le> b"
      using sample_loop_ordered [OF a b] by simp
    have ten: "0 < ten"
      using d(2) by (rule TenPowInt_pos)
    have "the x = a * PricePrecision div ten" "the y = b * PricePrecision div ten"
      using x y ten by simp_all
    then have "0 \<le> the x \<and> the x \<le> the y"
      using ten ab by (simp add: zdiv_mono1 mult_right_mono)
    with some show ?thesis
      by (metis ordered_simps(1))
  qed
qed

lemma spread_ordered:
  assumes "spread_price pf token False pa = Inr x" and "spread_price pf token True pb = Inr y"
    and "ordered pa pb" and "feed_ok pf token"
  shows "0 \<le> x \<and> x \<le> y"
proof -
  obtain a b where ab: "pa = Some a" "pb = Some b" "0 \<le> a" "a \<le> b"
    using assms(1-3) by (auto simp: spread_price_def go_simps ordered_def)
  show ?thesis
  proof (cases "StrictStableTokens pf token")
    case True
    with assms(1,2) ab show ?thesis
      by (auto simp: spread_price_def go_simps OneUSD_def split: if_splits)
  next
    case False
    with assms(1,2) ab obtain s where s: "SpreadBasisPoints pf token = Some s"
      "x = scale a (BasisPointsDivisor - s)" "y = scale b (BasisPointsDivisor + s)"
      by (auto simp: spread_price_def go_simps scale_def)
    with assms(4) ab show ?thesis
      by (auto simp: feed_ok_def intro: scale_spread)
  qed
qed

lemma price_tail_ordered:
  assumes "bnd (if IsSecondaryPriceEnabled pf then getSecondaryPrice e pf token pa False else Inr pa)
      (\<lambda>price. spread_price pf token False price) = Inr x"
    and "bnd (if IsSecondaryPriceEnabled pf then getSecondaryPrice e pf token pb True else Inr pb)
      (\<lambda>price. spread_price pf token True price) = Inr y"
    and "ordered pa pb" and ok: "feed_ok pf token"
  shows "0 \<le> x \<and> x \<le> y"
proof -
  obtain a b where a: "(if IsSecondaryPriceEnabled pf then getSecondaryPrice e pf token pa False else Inr pa) = Inr a"
    "spread_price pf token False a = Inr x"
    and b: "(if IsSecondaryPriceEnabled pf then getSecondaryPrice e pf token pb True else Inr pb) = Inr b"
    "spread_price pf token True b = Inr y"
    using assms(1,2) by (auto simp: go_simps)
  have "ordered a b"
    using a(1) b(1) assms(3) ok by (auto split: if_splits intro: secondary_ordered)
  with a(2) b(2) show ?thesis
    using ok by (rule spread_ordered)
qed

lemma getPriceV1_ordered:
  assumes "getPriceV1 e pf token False amm = Inr x" and "getPriceV1 e pf token True amm = Inr y"
    and ok: "feed_ok pf token" and "coalesces e"
  shows "0 \<le> x \<and> x \<le> y"
proof -
  define step :: "bool \<Rightarrow> bigint \<Rightarrow> bigint go" where
    "step mx price = (if amm \<and> IsAmmEnabled pf
          then bnd (getAmmPrice pf token) (\<lambda>ammPrice.
               if ammPrice > 0
               then bnd (deref price) (\<lambda>p0.
                    let p1 = (if mx = (ammPrice > p0) then ammPrice else p0);
                        p2 = (if \<not> mx \<and> ammPrice < p1 then ammPrice else p1)
                    in Inr (Some p2))
               else Inr price)
          else Inr price)" for mx price
  obtain a a1 where a: "getPrimaryPrice e pf token False = Inr a" "step False a = Inr a1"
    "bnd (if IsSecondaryPriceEnabled pf then getSecondaryPrice e pf token a1 False else Inr a1)
      (\<lambda>price. spread_price pf token False price) = Inr x"
    using assms(1) unfolding getPriceV1_def bnd_eq_Inr [of "getPrimaryPrice _ _ _ _"] step_def [symmetric]
    by (elim exE conjE) (subst (asm) bnd_eq_Inr, elim exE conjE, rule that)
  obtain b b1 where b: "getPrimaryPrice e pf token True = Inr b" "step True b = Inr b1"
    "bnd (if IsSecondaryPriceEnabled pf then getSecondaryPrice e pf token b1 True else Inr b1)
      (\<lambda>price. spread_price pf token True price) = Inr y"
    using assms(2) unfolding getPriceV1_def bnd_eq_Inr [of "getPrimaryPrice _ _ _ _"] step_def [symmetric]
    by (elim exE conjE) (subst (asm) bnd_eq_Inr, elim exE conjE, rule that)
  have "ordered a b"
    using a(1) b(1) ok assms(4) by (rule primary_ordered)
  then have "ordered a1 b1"
    using a(2) b(2) by (cases a; cases b) (auto simp: step_def go_simps Let_def split: if_splits)
  with a(3) b(3) show ?thesis
    using ok by (rule price_tail_ordered)
qed

lemma getPriceV2_ordered:
  assumes "getPriceV2 e pf token False amm = Inr x" and "getPriceV2 e pf token True amm = Inr y"
    and ok: "feed_ok pf token" and "coalesces e"
  shows "0 \<le> x \<and> x \<le> y"
proof -
  define step where "step mx price = (if amm \<and> IsAmmEnabled pf then getAmmPriceV2 pf token mx price
      else Inr price)" for mx price
  obtain a a1 where a: "getPrimaryPrice e pf token False = Inr a" "step False a = Inr a1"
    "bnd (if IsSecondaryPriceEnabled pf then getSecondaryPrice e pf token a1 False else Inr a1)
      (\<lambda>price. spread_price pf token False price) = Inr x"
    using assms(1) unfolding getPriceV2_def bnd_eq_Inr [of "getPrimaryPrice _ _ _ _"] step_def [symmetric]
    by (elim exE conjE) (subst (asm) bnd_eq_Inr, elim exE conjE, rule that)
  obtain b b1 where b: "getPrimaryPrice e pf token True = Inr b" "step True b = Inr b1"
    "bnd (if IsSecondaryPriceEnabled pf then getSecondaryPrice e pf token b1 True else Inr b1)
      (\<lambda>price. spread_price pf token True price) = Inr y"
    using assms(2) unfolding getPriceV2_def bnd_eq_Inr [of "getPrimaryPrice _ _ _ _"] step_def [symmetric]
    by (elim exE conjE) (subst (asm) bnd_eq_Inr, elim exE conjE, rule that)
  have "ordered a b"
    using a(1) b(1) ok assms(4) by (rule primary_ordered)
  then have "ordered a1 b1"
    using a(2) b(2) ok by (auto simp: step_def split: if_splits intro: amm2_ordered)
  with a(3) b(3) show ?thesis
    using ok by (rule price_tail_ordered)
qed

lemma GetPrice_ordered:
  assumes "GetPrice e (Some pf) token False amm sp = Inr x" and "GetPrice e (Some pf) token True amm sp = Inr y"
    and ok: "feed_ok pf token" and co: "coalesces e"
  shows "0 \<le> x \<and> x \<le> y"
proof -
  obtain a b adj where a: "(if UseV2Pricing pf then getPriceV2 e pf token False amm else getPriceV1 e pf token False amm) = Inr a"
    and b: "(if UseV2Pricing pf then getPriceV2 e pf token True amm else getPriceV1 e pf token True amm) = Inr b"
    and adj: "AdjustmentBasisPoints pf token = Some adj"
    and x: "x = (if adj > 0 then scale a (if IsAdjustmentAdditive pf token then BasisPointsDivisor + adj
                        else BasisPointsDivisor - adj) else a)"
    and y: "y = (if adj > 0 then scale b (if IsAdjustmentAdditive pf token then BasisPointsDivisor + adj
                        else BasisPointsDivisor - adj) else b)"
    using assms(1,2) by (auto simp: GetPrice_def go_simps scale_def split: if_splits)
  have ab: "0 \<le> a \<and> a \<le> b"
    using a b ok co getPriceV1_ordered [of e pf token amm a b] getPriceV2_ordered [of e pf token amm a b]
    by (auto split: if_splits)
  moreover have "adj \<le> BasisPointsDivisor"
    using ok adj by (simp add: feed_ok_def)
  ultimately show ?thesis
    unfolding x y by (auto intro: scale_nonneg scale_mono)
qed

end
