(* ===== verification/Gmx.thy ===== *)
theory Gmx
  imports Gmx_Price_Feed
begin

text \<open>
  The package \<open>pkg/source/gmx\<close>: the vault (\<open>vault.go\<close>), its dynamic fees (\<open>vault_utils.go\<close>) and the
  simulator (\<open>pool_simulator.go\<close>).

  The simulator and its \<open>VaultUtils\<close> hold pointers to the same \<open>Vault\<close>, and \<open>CloneState\<close> copies
  the simulator without them, so vaults and their utilities live in an explicit heap: an address is
  an index into \<open>vaults\<close> or \<open>utils\<close>, \<open>None\<close> is nil.  The price feed and USDG objects of a vault are
  never written and are values.
\<close>

record USDG =
  USDG_Address :: string
  TotalSupply :: bigint

record Vault =
  HasDynamicFees :: bool
  IncludeAmmPrice :: bool
  IsSwapEnabled :: bool
  StableSwapFeeBasisPoints :: bigint
  StableTaxBasisPoints :: bigint
  SwapFeeBasisPoints :: bigint
  TaxBasisPoints :: bigint
  TotalTokenWeights :: bigint
  WhitelistedTokens :: "string list"
  PoolAmounts :: "string \<rightharpoonup> int"
  BufferAmounts :: "string \<rightharpoonup> int"
  ReservedAmounts :: "string \<rightharpoonup> int"
  TokenDecimals :: "string \<rightharpoonup> int"
  StableTokens :: "string \<Rightarrow> bool"
  USDGAmounts :: "string \<rightharpoonup> int"
  MaxUSDGAmounts :: "string \<rightharpoonup> int"
  TokenWeights :: "string \<rightharpoonup> int"
  Vault_PriceFeed :: "VaultPriceFeed option"
  Vault_USDG :: "USDG option"
  UseSwapPricing :: bool

record VaultUtils =
  utils_vault :: "nat option"

record heap =
  vaults :: "Vault list"
  utils :: "VaultUtils list"

record PoolSimulator = Pool +
  vault :: "nat option"
  vaultUtils :: "nat option"

definition defaultGas :: int where
  "defaultGas = 286524"

definition USDGDecimals :: int where
  "USDGDecimals = 18"

definition load_vault :: "heap \<Rightarrow> nat option \<Rightarrow> Vault go" where
  "load_vault h a = bnd (deref a) (\<lambda>i. idx (vaults h) (int i))"

definition store_vault :: "heap \<Rightarrow> nat option \<Rightarrow> Vault \<Rightarrow> heap go" where
  "store_vault h a v =
     bnd (deref a) (\<lambda>i. bnd (upd (vaults h) (int i) v) (\<lambda>vs. Inr (h\<lparr>vaults := vs\<rparr>)))"

definition load_utils :: "heap \<Rightarrow> nat option \<Rightarrow> VaultUtils go" where
  "load_utils h a = bnd (deref a) (\<lambda>i. idx (utils h) (int i))"

subsection \<open>The vault\<close>

definition GetMinPrice :: "env \<Rightarrow> Vault \<Rightarrow> string \<Rightarrow> int go" where
  "GetMinPrice e v token = GetPrice e (Vault_PriceFeed v) token False (IncludeAmmPrice v) (UseSwapPricing v)"

definition GetMaxPrice :: "env \<Rightarrow> Vault \<Rightarrow> string \<Rightarrow> int go" where
  "GetMaxPrice e v token = GetPrice e (Vault_PriceFeed v) token True (IncludeAmmPrice v) (UseSwapPricing v)"

definition GetTargetUSDGAmount :: "Vault \<Rightarrow> string \<Rightarrow> int go" where
  "GetTargetUSDGAmount v token =
     bnd (deref (Vault_USDG v)) (\<lambda>usdg.
     bnd (deref (TotalSupply usdg)) (\<lambda>supply.
     if supply = 0 then Inr 0
     else
       bnd (deref (TokenWeights v token)) (\<lambda>weight.
       bnd (deref (TotalTokenWeights v)) (\<lambda>total.
       big_div (weight * supply) total))))"

definition decimals_of :: "Vault \<Rightarrow> USDG \<Rightarrow> string \<Rightarrow> bigint" where
  "decimals_of v usdg token = (if token = USDG_Address usdg then Some USDGDecimals else TokenDecimals v token)"

definition AdjustForDecimals :: "Vault \<Rightarrow> int \<Rightarrow> string \<Rightarrow> string \<Rightarrow> int go" where
  "AdjustForDecimals v amount tokenDiv tokenMul =
     bnd (deref (Vault_USDG v)) (\<lambda>usdg.
     bnd (deref (decimals_of v usdg tokenMul)) (\<lambda>decimalsMul.
     bnd (deref (decimals_of v usdg tokenDiv)) (\<lambda>decimalsDiv.
     big_div (amount * big_exp 10 decimalsMul) (big_exp 10 decimalsDiv))))"

definition IncreaseUSDGAmount :: "Vault \<Rightarrow> string \<Rightarrow> int \<Rightarrow> Vault go" where
  "IncreaseUSDGAmount v token amount =
     bnd (deref (USDGAmounts v token)) (\<lambda>u.
     Inr (v\<lparr>USDGAmounts := (USDGAmounts v)(token \<mapsto> u + amount)\<rparr>))"

definition DecreaseUSDGAmount :: "Vault \<Rightarrow> string \<Rightarrow> int \<Rightarrow> Vault go" where
  "DecreaseUSDGAmount v token amount =
     bnd (deref (USDGAmounts v token)) (\<lambda>u.
     if u < amount then Inr (v\<lparr>USDGAmounts := (USDGAmounts v)(token \<mapsto> 0)\<rparr>)
     else Inr (v\<lparr>USDGAmounts := (USDGAmounts v)(token \<mapsto> u - amount)\<rparr>))"

definition IncreasePoolAmount :: "Vault \<Rightarrow> string \<Rightarrow> int \<Rightarrow> Vault go" where
  "IncreasePoolAmount v token amount =
     bnd (deref (PoolAmounts v token)) (\<lambda>a.
     Inr (v\<lparr>PoolAmounts := (PoolAmounts v)(token \<mapsto> a + amount)\<rparr>))"

definition DecreasePoolAmount :: "Vault \<Rightarrow> string \<Rightarrow> int \<Rightarrow> Vault go" where
  "DecreasePoolAmount v token amount =
     bnd (deref (PoolAmounts v token)) (\<lambda>a.
     Inr (v\<lparr>PoolAmounts := (PoolAmounts v)(token \<mapsto> a - amount)\<rparr>))"

subsection \<open>Dynamic fees\<close>

definition NewVaultUtils :: "heap \<Rightarrow> nat option \<Rightarrow> heap \<times> nat option" where
  "NewVaultUtils h v =
     (h\<lparr>utils := utils h @ [\<lparr>utils_vault = v\<rparr>]\<rparr>, Some (length (utils h)))"

definition GetFeeBasisPoints :: "Vault \<Rightarrow> string \<Rightarrow> int \<Rightarrow> bigint \<Rightarrow> bigint \<Rightarrow> bool \<Rightarrow> bigint go" where
  "GetFeeBasisPoints v token usdgDelta feeBasisPoints taxBasisPoints increment =
     (if \<not> HasDynamicFees v then Inr feeBasisPoints
      else
        bnd (deref (USDGAmounts v token)) (\<lambda>initialAmount.
        let nextAmount = (if \<not> increment
                          then (if usdgDelta > initialAmount then 0 else initialAmount - usdgDelta)
                          else initialAmount + usdgDelta) in
        bnd (GetTargetUSDGAmount v token) (\<lambda>targetAmount.
        if targetAmount = 0 then Inr feeBasisPoints
        else
          let initialDiff = (if initialAmount > targetAmount then initialAmount - targetAmount
                             else targetAmount - initialAmount);
              nextDiff = (if nextAmount > targetAmount then nextAmount - targetAmount
                          else targetAmount - nextAmount) in
          bnd (deref taxBasisPoints) (\<lambda>tax.
          bnd (deref feeBasisPoints) (\<lambda>fee.
          if nextDiff < initialDiff
          then bnd (big_div (tax * initialDiff) targetAmount) (\<lambda>rebateBps.
               Inr (Some (if rebateBps > fee then 0 else fee - rebateBps)))
          else
            let averageDiff = (initialDiff + nextDiff) div 2;
                averageDiff = (if averageDiff > targetAmount then targetAmount else averageDiff) in
            bnd (big_div (tax * averageDiff) targetAmount) (\<lambda>taxBps.
            Inr (Some (fee + taxBps))))))))"

definition GetSwapFeeBasisPoints :: "heap \<Rightarrow> nat option \<Rightarrow> string \<Rightarrow> string \<Rightarrow> int \<Rightarrow> int go" where
  "GetSwapFeeBasisPoints h u tokenIn tokenOut usdgAmount =
     bnd (load_utils h u) (\<lambda>ut.
     bnd (load_vault h (utils_vault ut)) (\<lambda>v.
     let isStableSwap = StableTokens v tokenIn \<and> StableTokens v tokenOut;
         baseBps = (if isStableSwap then StableSwapFeeBasisPoints v else SwapFeeBasisPoints v);
         taxBps = (if isStableSwap then StableTaxBasisPoints v else TaxBasisPoints v) in
     bnd (GetFeeBasisPoints v tokenIn usdgAmount baseBps taxBps True) (\<lambda>f0.
     bnd (GetFeeBasisPoints v tokenOut usdgAmount baseBps taxBps False) (\<lambda>f1.
     bnd (deref f0) (\<lambda>feeBasisPoints0.
     bnd (deref f1) (\<lambda>feeBasisPoints1.
     Inr (if feeBasisPoints0 > feeBasisPoints1 then feeBasisPoints0 else feeBasisPoints1)))))))"

subsection \<open>The simulator\<close>

definition reserve_or_zero :: "string \<Rightarrow> bigint" where
  "reserve_or_zero s = (case set_string10 s of None \<Rightarrow> Some 0 | Some r \<Rightarrow> Some r)"

definition NewPoolSimulator ::
    "(string \<Rightarrow> Vault option go) \<Rightarrow> heap \<Rightarrow> EntityPool \<Rightarrow> (heap \<times> PoolSimulator) go" where
  "NewPoolSimulator json_Unmarshal h entityPool =
     bnd (json_Unmarshal (Extra_e entityPool)) (\<lambda>extra_Vault.
     let tokens = map TokenAddress (Tokens_e entityPool);
         reserves = map reserve_or_zero (Reserves_e entityPool);
         info = \<lparr>Address = Address_e entityPool, Exchange = Exchange_e entityPool,
                 Type = Type_e entityPool, Tokens = tokens, Reserves = reserves, SwapFee = None,
                 BlockNumber = BlockNumber_e entityPool\<rparr>;
         (h1, vp) = (case extra_Vault of
                       None \<Rightarrow> (h, None)
                     | Some v \<Rightarrow> (h\<lparr>vaults := vaults h @ [v]\<rparr>, Some (length (vaults h))));
         (h2, up) = NewVaultUtils h1 vp
     in Inr (h2, \<lparr>Info = info, vault = vp, vaultUtils = up\<rparr>))"

definition validateMaxUsdgExceed :: "Vault \<Rightarrow> string \<Rightarrow> int \<Rightarrow> unit go" where
  "validateMaxUsdgExceed v token amount =
     bnd (deref (USDGAmounts v token)) (\<lambda>currentUsdgAmount.
     bnd (deref (MaxUSDGAmounts v token)) (\<lambda>maxUsdgAmount.
     if maxUsdgAmount = 0 then Inr ()
     else if currentUsdgAmount + amount < maxUsdgAmount then Inr ()
     else Inl (Err ''ErrVaultMaxUsdgExceeded'')))"

definition validateMinPoolAmount :: "Vault \<Rightarrow> string \<Rightarrow> int \<Rightarrow> unit go" where
  "validateMinPoolAmount v token amount =
     bnd (deref (PoolAmounts v token)) (\<lambda>currentPoolAmount.
     if currentPoolAmount < amount then Inl (Err ''ErrVaultPoolAmountExceeded'')
     else
       bnd (deref (ReservedAmounts v token)) (\<lambda>reservedAmount.
       if reservedAmount > currentPoolAmount - amount then Inl (Err ''ErrVaultReserveExceedsPool'')
       else Inr ()))"

definition validateBufferAmount :: "Vault \<Rightarrow> string \<Rightarrow> int \<Rightarrow> unit go" where
  "validateBufferAmount v token amount =
     bnd (deref (PoolAmounts v token)) (\<lambda>currentPoolAmount.
     bnd (deref (BufferAmounts v token)) (\<lambda>bufferAmount.
     if currentPoolAmount - amount < bufferAmount
     then Inl (Err ''ErrVaultPoolAmountLessThanBufferAmount'') else Inr ()))"

definition getAmountOut ::
    "env \<Rightarrow> heap \<Rightarrow> PoolSimulator \<Rightarrow> string \<Rightarrow> string \<Rightarrow> bigint \<Rightarrow> (int \<times> int) go" where
  "getAmountOut e h p tokenIn tokenOut amountInp =
     bnd (load_vault h (vault p)) (\<lambda>v.
     if \<not> IsSwapEnabled v then Inl (Err ''ErrVaultSwapsNotEnabled'')
     else
       bnd (GetMinPrice e v tokenIn) (\<lambda>priceIn.
       bnd (GetMaxPrice e v tokenOut) (\<lambda>priceOut.
       bnd (deref amountInp) (\<lambda>amountIn.
       bnd (deref (Vault_USDG v)) (\<lambda>usdg.
       bnd (AdjustForDecimals v (amountIn * priceIn div PricePrecision) tokenIn (USDG_Address usdg)) (\<lambda>usdgAmount.
       bnd (big_div (amountIn * priceIn) priceOut) (\<lambda>gross.
       bnd (AdjustForDecimals v gross tokenIn tokenOut) (\<lambda>amountOut.
       bnd (validateMaxUsdgExceed v tokenIn usdgAmount) (\<lambda>_.
       bnd (validateMinPoolAmount v tokenOut amountOut) (\<lambda>_.
       bnd (validateBufferAmount v tokenOut amountOut) (\<lambda>_.
       bnd (GetSwapFeeBasisPoints h (vaultUtils p) tokenIn tokenOut usdgAmount) (\<lambda>feeBasisPoints.
       let amountOutAfterFees = amountOut * (BasisPointsDivisor - feeBasisPoints) div BasisPointsDivisor;
           feeAmount = amountOut - amountOutAfterFees
       in Inr (amountOutAfterFees, feeAmount)))))))))))))"

definition CalcAmountOut ::
    "env \<Rightarrow> heap \<Rightarrow> PoolSimulator \<Rightarrow> 'l CalcAmountOutParams \<Rightarrow> unit CalcAmountOutResult go" where
  "CalcAmountOut e h p param =
     bnd (getAmountOut e h p (Token (TokenAmountIn param)) (TokenOut param) (Amount (TokenAmountIn param)))
       (\<lambda>(amountOutAfterFees, feeAmount).
     Inr \<lparr>TokenAmountOut = Some (token_amount (TokenOut param) (Some amountOutAfterFees)),
          Fee = Some (token_amount (TokenOut param) (Some feeAmount)),
          RemainingTokenAmountIn = None, Gas = defaultGas, SwapInfo = None\<rparr>)"

definition CloneState :: "heap \<Rightarrow> PoolSimulator \<Rightarrow> (heap \<times> PoolSimulator) go" where
  "CloneState h p =
     bnd (load_vault h (vault p)) (\<lambda>v.
     Inr (h\<lparr>vaults := vaults h @ [v]\<rparr>, p\<lparr>vault := Some (length (vaults h))\<rparr>))"

definition UpdateBalance ::
    "env \<Rightarrow> heap \<Rightarrow> PoolSimulator \<Rightarrow> (unit, 'l) UpdateBalanceParams \<Rightarrow> heap go" where
  "UpdateBalance e h p params =
     (let input = TokenAmountIn_u params; output = TokenAmountOut_u params; fee = Fee_u params in
      bnd (load_vault h (vault p)) (\<lambda>v.
      case GetMinPrice e v (Token input) of
        Inl (Err _) \<Rightarrow> Inr h
      | Inl (Panic x) \<Rightarrow> Inl (Panic x)
      | Inr priceIn \<Rightarrow>
          bnd (deref (Amount input)) (\<lambda>amountIn.
          bnd (deref (Vault_USDG v)) (\<lambda>usdg.
          bnd (AdjustForDecimals v (amountIn * priceIn div PricePrecision) (Token input) (USDG_Address usdg))
            (\<lambda>usdgAmount.
          bnd (IncreaseUSDGAmount v (Token input) usdgAmount) (\<lambda>v1.
          bnd (DecreaseUSDGAmount v1 (Token output) usdgAmount) (\<lambda>v2.
          bnd (IncreasePoolAmount v2 (Token input) amountIn) (\<lambda>v3.
          bnd (deref (Amount output)) (\<lambda>out.
          bnd (deref (Amount fee)) (\<lambda>f.
          bnd (DecreasePoolAmount v3 (Token output) (out + f)) (\<lambda>v4.
          store_vault h (vault p) v4)))))))))))"

definition CanSwapTo :: "heap \<Rightarrow> PoolSimulator \<Rightarrow> string \<Rightarrow> string list go" where
  "CanSwapTo h p address =
     bnd (load_vault h (vault p)) (\<lambda>v.
     if \<not> list_ex (\<lambda>token. equal_fold token address) (WhitelistedTokens v) then Inr []
     else Inr (filter (\<lambda>token. address \<noteq> token) (WhitelistedTokens v)))"

definition CanSwapFrom :: "heap \<Rightarrow> PoolSimulator \<Rightarrow> string \<Rightarrow> string list go" where
  "CanSwapFrom h p address = CanSwapTo h p address"

definition AfterMsgpackUnmarshal :: "heap \<Rightarrow> PoolSimulator \<Rightarrow> heap go" where
  "AfterMsgpackUnmarshal h p =
     (case vaultUtils p of
        None \<Rightarrow> Inr h
      | Some u \<Rightarrow> bnd (upd (utils h) (int u) \<lparr>utils_vault = vault p\<rparr>) (\<lambda>us. Inr (h\<lparr>utils := us\<rparr>)))"

subsection \<open>Prices\<close>

text \<open>C12: a vault never sells below the price it buys at: whenever both prices of a token can be read at
  the same time, the minimum price is not negative and at most the maximum price, whichever feeds
  (Chainlink rounds, AMM pairs, either fast price feed) and adjustments are in use.\<close>

theorem gmx_min_le_max:
  assumes "GetMinPrice e v token = Inr lo" and "GetMaxPrice e v token = Inr hi"
    and "Vault_PriceFeed v = Some pf" and "feed_ok pf token" and "coalesces e"
  shows "0 \<le> lo \<and> lo \<le> hi"
  using assms by (auto simp: GetMinPrice_def GetMaxPrice_def dest: GetPrice_ordered)

subsection \<open>Fees\<close>

definition given :: "bigint \<Rightarrow> bool" where
  "given x = (case x of None \<Rightarrow> False | Some v \<Rightarrow> 0 \<le> v)"

lemma given_simps [simp]: "given (Some v) = (0 \<le> v)" "\<not> given None"
  by (simp_all add: given_def)

lemma givenE:
  assumes "given x"
  obtains v where "x = Some v" "0 \<le> v"
  using assms by (cases x) auto

definition fees_ok :: "Vault \<Rightarrow> bool" where
  "fees_ok v =
     (given (SwapFeeBasisPoints v) \<and> given (StableSwapFeeBasisPoints v) \<and> given (TaxBasisPoints v)
      \<and> given (StableTaxBasisPoints v) \<and> nn (TotalTokenWeights v)
      \<and> (\<forall>t. nn (TokenWeights v t)) \<and> (\<forall>u. Vault_USDG v = Some u \<longrightarrow> nn (TotalSupply u)))"

lemma target_nonneg:
  assumes "GetTargetUSDGAmount v t = Inr x" and "fees_ok v"
  shows "0 \<le> x"
proof (cases "x = 0")
  case False
  then obtain u w s n where "Vault_USDG v = Some u" "TotalSupply u = Some s" "TokenWeights v t = Some w"
    "TotalTokenWeights v = Some n" and x: "x = sgn n * (w * s div \<bar>n\<bar>)"
    using assms(1) by (auto simp: GetTargetUSDGAmount_def go_simps split: if_splits)
  with assms(2) have "0 \<le> s" "0 \<le> n" "0 \<le> w"
    by (auto simp: fees_ok_def dest: spec [of _ t])
  then show ?thesis
    by (simp add: x sgn_if)
qed simp

text \<open>The dynamic fee as a function of the distances of the vault's debt in the token from its target,
  before and after the swap.\<close>

definition dynamic_fee :: "int \<Rightarrow> int \<Rightarrow> int \<Rightarrow> int \<Rightarrow> int \<Rightarrow> int" where
  "dynamic_fee base tax target initial next =
     (let D = \<bar>initial - target\<bar>; N = \<bar>next - target\<bar> in
      if N < D then max 0 (base - tax * D div target)
      else base + tax * min target ((D + N) div 2) div target)"

definition next_amount :: "bool \<Rightarrow> int \<Rightarrow> int \<Rightarrow> int" where
  "next_amount increment initial d = (if increment then initial + d else max 0 (initial - d))"

lemma fee_eq:
  assumes "USDGAmounts v t = Some initial" and "GetTargetUSDGAmount v t = Inr target" and "0 < target"
    and "HasDynamicFees v"
  shows "GetFeeBasisPoints v t d (Some base) (Some tax) inc =
    Inr (Some (dynamic_fee base tax target initial (next_amount inc initial d)))"
proof -
  have abs_diff: "(if a > b then a - b else b - a) = \<bar>a - b\<bar>" for a b :: int
    by simp
  have clip: "(if x > b then 0 else b - x) = max 0 (b - x)" for x b :: int
    by simp
  have cap: "(if x > b then b else x) = min b x" for x b :: int
    by simp
  have nxt: "(if \<not> inc then max 0 (initial - d) else initial + d) = next_amount inc initial d"
    by (simp add: next_amount_def)
  have nz: "(target = 0) = False"
    using assms(3) by simp
  show ?thesis
    unfolding GetFeeBasisPoints_def dynamic_fee_def Let_def
    by (simp only: assms bnd_Inr deref_Some abs_diff clip cap nxt nz if_False if_True not_True_eq_False
        big_div_pos [OF assms(3)] if_distrib [of Inr] if_distrib [of Some])
qed

lemma dynamic_fee_bounds:
  assumes "0 < target" and "0 \<le> base" and "0 \<le> tax"
  shows "0 \<le> dynamic_fee base tax target i n" and "dynamic_fee base tax target i n \<le> base + tax"
proof -
  have part: "0 \<le> tax * a div target" "a \<le> target \<Longrightarrow> tax * a div target \<le> tax" if "0 \<le> a" for a
  proof -
    show "0 \<le> tax * a div target"
      using that assms by simp
    assume "a \<le> target"
    then have "tax * a div target \<le> tax * target div target"
      using assms by (intro zdiv_mono1 mult_left_mono) auto
    with assms show "tax * a div target \<le> tax" by simp
  qed
  have avg: "0 \<le> min target ((\<bar>i - target\<bar> + \<bar>n - target\<bar>) div 2)"
    using assms by simp
  show "0 \<le> dynamic_fee base tax target i n"
    using part(1) [OF avg] assms by (simp add: dynamic_fee_def Let_def)
  show "dynamic_fee base tax target i n \<le> base + tax"
    using part(1) [of "\<bar>i - target\<bar>"] part(2) [OF avg] assms
    by (auto simp: dynamic_fee_def Let_def simp del: floor_nonneg)
qed

text \<open>A fee lies between zero and the base fee plus the tax.\<close>

lemma fee_bounds:
  assumes "GetFeeBasisPoints v t d (Some base) (Some tax) inc = Inr (Some f)"
    and ok: "fees_ok v" and "0 \<le> base" and "0 \<le> tax"
  shows "0 \<le> f \<and> f \<le> base + tax"
proof (cases "HasDynamicFees v \<and> (\<exists>x. GetTargetUSDGAmount v t = Inr x \<and> x \<noteq> 0)")
  case False
  then have "f = base"
  proof (cases "HasDynamicFees v")
    case True
    obtain i where i: "USDGAmounts v t = Some i"
      using assms(1) True by (cases "USDGAmounts v t") (simp_all add: GetFeeBasisPoints_def)
    obtain x where x: "GetTargetUSDGAmount v t = Inr x"
      using assms(1) True i by (cases "GetTargetUSDGAmount v t") (simp_all add: GetFeeBasisPoints_def)
    with False True have "x = 0" by blast
    with assms(1) i x True show ?thesis by (simp add: GetFeeBasisPoints_def)
  qed (use assms(1) in \<open>simp add: GetFeeBasisPoints_def\<close>)
  with assms show ?thesis by simp
next
  case True
  then obtain target where target: "GetTargetUSDGAmount v t = Inr target" "target \<noteq> 0" by blast
  with ok have pos: "0 < target"
    using target_nonneg [of v t target] by linarith
  obtain i where "USDGAmounts v t = Some i"
    using assms(1) True by (cases "USDGAmounts v t") (auto simp: GetFeeBasisPoints_def)
  with fee_eq [OF this target(1) pos] assms True dynamic_fee_bounds [OF pos assms(3,4)] show ?thesis
    by auto
qed


text \<open>The base fee and the tax of a pair of tokens.\<close>

definition base_of :: "Vault \<Rightarrow> string \<Rightarrow> string \<Rightarrow> bigint" where
  "base_of v tin tout = (if StableTokens v tin \<and> StableTokens v tout then StableSwapFeeBasisPoints v
                         else SwapFeeBasisPoints v)"

definition tax_of :: "Vault \<Rightarrow> string \<Rightarrow> string \<Rightarrow> bigint" where
  "tax_of v tin tout = (if StableTokens v tin \<and> StableTokens v tout then StableTaxBasisPoints v
                        else TaxBasisPoints v)"

lemma fees_given:
  assumes "fees_ok v"
  obtains b x where "base_of v tin tout = Some b" "tax_of v tin tout = Some x" "0 \<le> b" "0 \<le> x"
proof -
  have "given (base_of v tin tout)" "given (tax_of v tin tout)"
    using assms by (auto simp: fees_ok_def base_of_def tax_of_def)
  then show thesis
    by (elim givenE) (rule that)
qed

definition fee_vault :: "heap \<Rightarrow> PoolSimulator \<Rightarrow> Vault go" where
  "fee_vault h p = bnd (load_utils h (vaultUtils p)) (\<lambda>u. load_vault h (utils_vault u))"

lemma swap_fee_unfold:
  assumes "fee_vault h p = Inr v"
  shows "GetSwapFeeBasisPoints h (vaultUtils p) tin tout d =
    bnd (GetFeeBasisPoints v tin d (base_of v tin tout) (tax_of v tin tout) True) (\<lambda>f0.
    bnd (GetFeeBasisPoints v tout d (base_of v tin tout) (tax_of v tin tout) False) (\<lambda>f1.
    bnd (deref f0) (\<lambda>x. bnd (deref f1) (\<lambda>y. Inr (if x > y then x else y)))))"
proof -
  obtain u where "load_utils h (vaultUtils p) = Inr u" "load_vault h (utils_vault u) = Inr v"
    using assms by (auto simp: fee_vault_def bnd_eq_Inr)
  then show ?thesis
    by (simp add: GetSwapFeeBasisPoints_def Let_def base_of_def tax_of_def)
qed

lemma swap_fee_bounds:
  assumes "GetSwapFeeBasisPoints h (vaultUtils p) tin tout d = Inr f" and "fee_vault h p = Inr v"
    and ok: "fees_ok v" and "base_of v tin tout = Some b" and "tax_of v tin tout = Some x"
  shows "0 \<le> f \<and> f \<le> b + x"
proof -
  obtain f0 f1 where f: "GetFeeBasisPoints v tin d (Some b) (Some x) True = Inr (Some f0)"
    "GetFeeBasisPoints v tout d (Some b) (Some x) False = Inr (Some f1)" "f = max f0 f1"
    using assms(1,4,5) by (auto simp: swap_fee_unfold [OF assms(2)] go_simps max_def)
  have "0 \<le> b" "0 \<le> x"
    using ok assms(4,5) by (auto simp: fees_ok_def base_of_def tax_of_def split: if_splits)
  then show ?thesis
    using fee_bounds [OF f(1) ok] fee_bounds [OF f(2) ok] f(3) by auto
qed

subsection \<open>Quotes\<close>

text \<open>What a successful quote has read and checked.\<close>

lemma quoteE:
  assumes "CalcAmountOut e h p q = Inr r" and "Amount (TokenAmountIn q) = Some a"
  obtains v usdg pin pout usdgAmount gross amountOut f where
    "load_vault h (vault p) = Inr v" "Vault_USDG v = Some usdg"
    "GetMinPrice e v (Token (TokenAmountIn q)) = Inr pin" "GetMaxPrice e v (TokenOut q) = Inr pout"
    "AdjustForDecimals v (a * pin div PricePrecision) (Token (TokenAmountIn q)) (USDG_Address usdg) = Inr usdgAmount"
    "big_div (a * pin) pout = Inr gross"
    "AdjustForDecimals v gross (Token (TokenAmountIn q)) (TokenOut q) = Inr amountOut"
    "validateMaxUsdgExceed v (Token (TokenAmountIn q)) usdgAmount = Inr ()"
    "validateMinPoolAmount v (TokenOut q) amountOut = Inr ()"
    "validateBufferAmount v (TokenOut q) amountOut = Inr ()"
    "GetSwapFeeBasisPoints h (vaultUtils p) (Token (TokenAmountIn q)) (TokenOut q) usdgAmount = Inr f"
    "TokenAmountOut r = Some (token_amount (TokenOut q) (Some (scale amountOut (BasisPointsDivisor - f))))"
    "Fee r = Some (token_amount (TokenOut q) (Some (amountOut - scale amountOut (BasisPointsDivisor - f))))"
proof -
  from assms obtain out fee where out: "getAmountOut e h p (Token (TokenAmountIn q)) (TokenOut q) (Some a) = Inr (out, fee)"
    and r: "TokenAmountOut r = Some (token_amount (TokenOut q) (Some out))"
      "Fee r = Some (token_amount (TokenOut q) (Some fee))"
    by (auto simp: CalcAmountOut_def go_simps)
  from out show thesis
    unfolding getAmountOut_def Let_def scale_def [symmetric]
    by (auto simp: go_simps r split: if_splits intro!: that)
qed

subsection \<open>Balance updates\<close>

lemma load_vault_eq: "(load_vault h a = Inr v) = (\<exists>i. a = Some i \<and> i < length (vaults h) \<and> v = vaults h ! i)"
  by (auto simp: load_vault_def go_simps)

lemma USDG_only:
  "IncreaseUSDGAmount v t a = Inr v' \<Longrightarrow> \<exists>m. v' = v\<lparr>USDGAmounts := m\<rparr>"
  "DecreaseUSDGAmount v t a = Inr v' \<Longrightarrow> \<exists>m. v' = v\<lparr>USDGAmounts := m\<rparr>"
  by (simp_all add: IncreaseUSDGAmount_def DecreaseUSDGAmount_def go_simps split: if_splits) blast+

lemma updateE:
  assumes "UpdateBalance e h p (update_params q r) = Inr h'" and "vault p = Some i"
    and "TokenAmountOut r = Some (token_amount tout (Some out))" and "Fee r = Some (token_amount t (Some fee))"
    and "Amount (TokenAmountIn q) = Some a"
  obtains "h' = h"
  | us x y where "i < length (vaults h)" "PoolAmounts (vaults h ! i) (Token (TokenAmountIn q)) = Some x"
      "((PoolAmounts (vaults h ! i))(Token (TokenAmountIn q) \<mapsto> x + a)) tout = Some y"
      "h' = h\<lparr>vaults := (vaults h)[i := (vaults h ! i)\<lparr>USDGAmounts := us,
         PoolAmounts := (PoolAmounts (vaults h ! i))(Token (TokenAmountIn q) \<mapsto> x + a, tout \<mapsto> y - (out + fee))\<rparr>]\<rparr>"
proof -
  define v where "v = vaults h ! i"
  from assms have i: "i < length (vaults h)" and lv: "load_vault h (vault p) = Inr v"
    by (auto simp: UpdateBalance_def Let_def go_simps load_vault_eq v_def)
  show thesis
  proof (cases "GetMinPrice e v (Token (TokenAmountIn q))")
    case (Inl err)
    with assms lv have "h' = h"
      by (auto simp: UpdateBalance_def Let_def split: go_error.splits)
    then show thesis by (rule that(1))
  next
    case (Inr pin)
    from assms(1) obtain usdg u v1 v2 v3 v4 where
      us: "IncreaseUSDGAmount v (Token (TokenAmountIn q)) u = Inr v1" "DecreaseUSDGAmount v1 tout u = Inr v2"
      and pa: "IncreasePoolAmount v2 (Token (TokenAmountIn q)) a = Inr v3"
      "DecreasePoolAmount v3 tout (out + fee) = Inr v4" and st: "store_vault h (vault p) v4 = Inr h'"
      unfolding UpdateBalance_def Let_def using lv Inr assms(2-5)
      by (auto simp: go_simps)
    obtain m where m: "v2 = v\<lparr>USDGAmounts := m\<rparr>"
      using USDG_only(1) [OF us(1)] USDG_only(2) [OF us(2)] by auto
    from pa obtain x y where "PoolAmounts v (Token (TokenAmountIn q)) = Some x"
      "((PoolAmounts v)(Token (TokenAmountIn q) \<mapsto> x + a)) tout = Some y"
      "v4 = v\<lparr>USDGAmounts := m, PoolAmounts := (PoolAmounts v)(Token (TokenAmountIn q) \<mapsto> x + a, tout \<mapsto> y - (out + fee))\<rparr>"
      by (auto simp: IncreasePoolAmount_def DecreasePoolAmount_def go_simps m)
    with st i assms(2) show thesis
      by (intro that(2) [of x y m]) (auto simp: store_vault_def go_simps v_def)
  qed
qed

text \<open>The tokens a vault owes to positions (reserved) and keeps as a buffer stay covered by the pool.\<close>

definition covered :: "Vault \<Rightarrow> string \<Rightarrow> bool" where
  "covered v t = (case (PoolAmounts v t, ReservedAmounts v t, BufferAmounts v t) of
     (Some a, Some r, Some b) \<Rightarrow> r \<le> a \<and> b \<le> a
   | _ \<Rightarrow> True)"

text \<open>One swap: the clock may move between the quote and the update.\<close>

inductive gmx_step :: "PoolSimulator \<Rightarrow> heap \<Rightarrow> heap \<Rightarrow> bool" for p where
  swap: "valid_request q \<Longrightarrow> CalcAmountOut e h p (q :: unit CalcAmountOutParams) = Inr r \<Longrightarrow>
         UpdateBalance e' h p (update_params q r) = Inr h' \<Longrightarrow> gmx_step p h h'"

inductive_cases gmx_stepE: "gmx_step p h h'"

lemma step_quoteE:
  assumes "gmx_step p h h'" and vp: "vault p = Some i"
  obtains tin tout a amountOut out where "0 < a" "i < length (vaults h)"
    "validateMinPoolAmount (vaults h ! i) tout amountOut = Inr ()"
    "validateBufferAmount (vaults h ! i) tout amountOut = Inr ()"
    "h' = h \<or> (\<exists>us x y. PoolAmounts (vaults h ! i) tin = Some x
        \<and> ((PoolAmounts (vaults h ! i))(tin \<mapsto> x + a)) tout = Some y
        \<and> h' = h\<lparr>vaults := (vaults h)[i := (vaults h ! i)\<lparr>USDGAmounts := us,
             PoolAmounts := (PoolAmounts (vaults h ! i))(tin \<mapsto> x + a, tout \<mapsto> y - amountOut)\<rparr>]\<rparr>)"
proof -
  obtain e q r e' where q: "valid_request q" and calc: "CalcAmountOut e h p (q :: unit CalcAmountOutParams) = Inr r"
    and upd: "UpdateBalance e' h p (update_params q r) = Inr h'"
    using assms(1) by (elim gmx_stepE) (rule that)
  obtain a where a: "Amount (TokenAmountIn q) = Some a" "0 < a"
    using q by (rule valid_requestE)
  obtain v amountOut f where v: "load_vault h (vault p) = Inr v"
    and checks: "validateMinPoolAmount v (TokenOut q) amountOut = Inr ()"
      "validateBufferAmount v (TokenOut q) amountOut = Inr ()"
    and r: "TokenAmountOut r = Some (token_amount (TokenOut q) (Some (scale amountOut (BasisPointsDivisor - f))))"
      "Fee r = Some (token_amount (TokenOut q) (Some (amountOut - scale amountOut (BasisPointsDivisor - f))))"
    using calc a(1) by (rule quoteE)
  have vi: "v = vaults h ! i" and i: "i < length (vaults h)"
    using v vp by (auto simp: load_vault_eq)
  show thesis
    using upd vp r a(1)
  proof (cases rule: updateE)
    case 1
    then show thesis using that [OF a(2) i checks [unfolded vi]] by blast
  next
    case (2 us x y)
    then show thesis
      by (intro that [OF a(2) i checks [unfolded vi], of "Token (TokenAmountIn q)"]) auto
  qed
qed

lemma step_frame:
  assumes "gmx_step p h h'" and vp: "vault p = Some i"
  shows "length (vaults h') = length (vaults h) \<and> utils h' = utils h \<and>
    (\<forall>j. j \<noteq> i \<longrightarrow> vaults h' ! j = vaults h ! j)"
  using assms by (rule step_quoteE) auto

lemma step_covered:
  assumes "gmx_step p h h'" and vp: "vault p = Some i" and cov: "covered (vaults h ! i) t"
  shows "covered (vaults h' ! i) t"
  using assms(1) vp
proof (rule step_quoteE)
  fix tin tout a amountOut
  assume a: "0 < a" and i: "i < length (vaults h)"
    and checks: "validateMinPoolAmount (vaults h ! i) tout amountOut = Inr ()"
      "validateBufferAmount (vaults h ! i) tout amountOut = Inr ()"
    and h': "h' = h \<or> (\<exists>us x y. PoolAmounts (vaults h ! i) tin = Some x
        \<and> ((PoolAmounts (vaults h ! i))(tin \<mapsto> x + a)) tout = Some y
        \<and> h' = h\<lparr>vaults := (vaults h)[i := (vaults h ! i)\<lparr>USDGAmounts := us,
             PoolAmounts := (PoolAmounts (vaults h ! i))(tin \<mapsto> x + a, tout \<mapsto> y - amountOut)\<rparr>]\<rparr>)"
  from h' show ?thesis
  proof (elim disjE exE conjE)
    assume "h' = h"
    with cov show ?thesis by simp
  next
    fix us x y
    assume "PoolAmounts (vaults h ! i) tin = Some x"
      and "((PoolAmounts (vaults h ! i))(tin \<mapsto> x + a)) tout = Some y"
      and "h' = h\<lparr>vaults := (vaults h)[i := (vaults h ! i)\<lparr>USDGAmounts := us,
             PoolAmounts := (PoolAmounts (vaults h ! i))(tin \<mapsto> x + a, tout \<mapsto> y - amountOut)\<rparr>]\<rparr>"
    with cov checks a i show ?thesis
      by (auto simp: covered_def validateMinPoolAmount_def validateBufferAmount_def go_simps
          split: if_splits option.splits)
  qed
qed

text \<open>C14: no sequence of swaps, whatever the clock shows at each quote and each update, takes the pool
  amount of a token below the amount reserved for positions or below its buffer, and swaps touch no
  other vault.\<close>

theorem gmx_pool_covered:
  assumes "(gmx_step p)\<^sup>*\<^sup>* h h'" and "vault p = Some i" and "\<forall>t. covered (vaults h ! i) t"
  shows "(\<forall>t. covered (vaults h' ! i) t) \<and> length (vaults h') = length (vaults h)
      \<and> (\<forall>j. j \<noteq> i \<longrightarrow> vaults h' ! j = vaults h ! j)"
  using assms
proof (induction rule: rtranclp_induct)
  case base
  then show ?case by simp
next
  case (step h1 h2)
  then show ?case
    using step_covered [OF step.hyps(2)] step_frame [OF step.hyps(2)] by auto
qed

subsection \<open>Round trips\<close>

lemma big_exp_ten_pos [simp]: "0 < big_exp 10 d"
  by (simp add: big_exp_def)

lemma AdjustForDecimals_le:
  assumes "AdjustForDecimals v x t1 t2 = Inr y" and "Vault_USDG v = Some usdg"
  shows "\<exists>d1 d2. decimals_of v usdg t1 = Some d1 \<and> decimals_of v usdg t2 = Some d2 \<and>
    y * big_exp 10 d1 \<le> x * big_exp 10 d2"
  using assms by (auto simp: AdjustForDecimals_def go_simps floor_le)

lemma fee_vault_exists:
  fixes p :: PoolSimulator
  assumes "GetSwapFeeBasisPoints h (vaultUtils p) tin tout d = Inr f"
  obtains fv where "fee_vault h p = Inr fv" "fv \<in> set (vaults h)"
  using assms
  by (auto simp: GetSwapFeeBasisPoints_def fee_vault_def bnd_eq_Inr load_vault_eq)

lemma swap_fee_nonneg:
  fixes p :: PoolSimulator
  assumes "GetSwapFeeBasisPoints h (vaultUtils p) tin tout d = Inr f" and "\<forall>v \<in> set (vaults h). fees_ok v"
  shows "0 \<le> f"
proof -
  obtain fv where fv: "fee_vault h p = Inr fv" "fees_ok fv"
    using assms(2) by (auto intro: fee_vault_exists [OF assms(1)])
  show ?thesis
    using fees_given [OF fv(2)] swap_fee_bounds [OF assms(1) fv] by metis
qed

text \<open>A quote never pays more value than it takes, at the prices of the vault.\<close>

lemma quote_value:
  assumes "CalcAmountOut e h p q = Inr r" and "Amount (TokenAmountIn q) = Some a" and "0 < a"
    and "TokenAmountOut r = Some (token_amount (TokenOut q) (Some out))"
    and v: "load_vault h (vault p) = Inr v" and usdg: "Vault_USDG v = Some usdg"
    and pin: "GetMinPrice e v (Token (TokenAmountIn q)) = Inr pin" "0 \<le> pin"
    and pout: "GetMaxPrice e v (TokenOut q) = Inr pout" "0 \<le> pout"
    and fee: "\<forall>v \<in> set (vaults h). fees_ok v"
  shows "0 < pout \<and> (\<exists>d1 d2. decimals_of v usdg (Token (TokenAmountIn q)) = Some d1
    \<and> decimals_of v usdg (TokenOut q) = Some d2
    \<and> out * pout * big_exp 10 d1 \<le> a * pin * big_exp 10 d2)"
proof -
  obtain v1 pin1 pout1 u gross amountOut f where same: "load_vault h (vault p) = Inr v1"
      "GetMinPrice e v1 (Token (TokenAmountIn q)) = Inr pin1" "GetMaxPrice e v1 (TokenOut q) = Inr pout1"
    and gross1: "big_div (a * pin1) pout1 = Inr gross"
    and adj1: "AdjustForDecimals v1 gross (Token (TokenAmountIn q)) (TokenOut q) = Inr amountOut"
    and f: "GetSwapFeeBasisPoints h (vaultUtils p) (Token (TokenAmountIn q)) (TokenOut q) u = Inr f"
    and out1: "TokenAmountOut r = Some (token_amount (TokenOut q) (Some (scale amountOut (BasisPointsDivisor - f))))"
    using assms(1,2) by (rule quoteE)
  have "v1 = v" "pin1 = pin" "pout1 = pout"
    using same v pin(1) pout(1) by auto
  then have gross: "big_div (a * pin) pout = Inr gross"
    and adj: "AdjustForDecimals v gross (Token (TokenAmountIn q)) (TokenOut q) = Inr amountOut"
    and out: "out = scale amountOut (BasisPointsDivisor - f)"
    using gross1 adj1 out1 assms(4) by (auto simp: token_amount_eq)
  have pos: "0 < pout" and g: "gross = a * pin div pout"
    using gross pout(2) by (auto simp: go_simps sgn_if)
  obtain d1 d2 where d: "decimals_of v usdg (Token (TokenAmountIn q)) = Some d1"
    "decimals_of v usdg (TokenOut q) = Some d2" and le: "amountOut * big_exp 10 d1 \<le> gross * big_exp 10 d2"
    using AdjustForDecimals_le [OF adj usdg] by blast
  have "0 \<le> gross"
    using assms(3) pin(2) pos by (simp add: g)
  then have "0 \<le> amountOut"
    using adj usdg d by (auto simp: AdjustForDecimals_def go_simps less_imp_le [OF big_exp_ten_pos])
  moreover have "0 \<le> f"
    using f fee by (rule swap_fee_nonneg)
  ultimately have "out \<le> amountOut"
    unfolding out by (rule scale_down)
  then have "out * pout * big_exp 10 d1 \<le> amountOut * pout * big_exp 10 d1"
    using pos by (intro mult_right_mono) (auto simp: less_imp_le)
  also have "\<dots> = (amountOut * big_exp 10 d1) * pout" by (simp add: ac_simps)
  also have "\<dots> \<le> (gross * big_exp 10 d2) * pout"
    using le pos by (intro mult_right_mono) auto
  also have "\<dots> = (gross * pout) * big_exp 10 d2" by (simp add: ac_simps)
  also have "\<dots> \<le> a * pin * big_exp 10 d2"
    using floor_le [OF pos, of "a * pin"] by (intro mult_right_mono) (auto simp: g less_imp_le)
  finally show ?thesis
    using pos d by blast
qed


lemma update_frame:
  assumes "UpdateBalance e h p (update_params q r) = Inr h'" and "vault p = Some i"
    and "TokenAmountOut r = Some (token_amount tout (Some out))" and "Fee r = Some (token_amount t (Some fee))"
    and "Amount (TokenAmountIn q) = Some a" and "i < length (vaults h)"
  obtains us pa where
    "h' = h\<lparr>vaults := (vaults h)[i := (vaults h ! i)\<lparr>USDGAmounts := us, PoolAmounts := pa\<rparr>]\<rparr>"
  using assms(1-5)
proof (cases rule: updateE)
  case 1
  then show thesis
    using that [where us = "USDGAmounts (vaults h ! i)" and pa = "PoolAmounts (vaults h ! i)"] by simp
next
  case (2 us x y)
  then show thesis using that by blast
qed

text \<open>Prices, decimals and fee parameters do not depend on the amounts a swap changes.\<close>

lemma frame_simps [simp]:
  "GetMinPrice e (v\<lparr>USDGAmounts := us, PoolAmounts := pa\<rparr>) t = GetMinPrice e v t"
  "GetMaxPrice e (v\<lparr>USDGAmounts := us, PoolAmounts := pa\<rparr>) t = GetMaxPrice e v t"
  "decimals_of (v\<lparr>USDGAmounts := us, PoolAmounts := pa\<rparr>) usdg t = decimals_of v usdg t"
  "fees_ok (v\<lparr>USDGAmounts := us, PoolAmounts := pa\<rparr>) = fees_ok v"
  by (simp_all add: GetMinPrice_def GetMaxPrice_def decimals_of_def fees_ok_def)

lemma trip_bound:
  assumes "out * maxB * X \<le> a * minA * Y" and "ret * maxA * Y \<le> out * minB * (X :: int)"
    and "minB \<le> maxB" and "minA \<le> maxA" and "0 < maxA" and "0 < X" and "0 < Y" and "0 \<le> out" and "0 \<le> a"
  shows "ret \<le> a"
proof -
  have "ret * maxA * Y \<le> out * maxB * X"
    using assms(2,3,6,8) by (meson mult_left_mono mult_right_mono order_trans less_imp_le)
  also have "\<dots> \<le> a * maxA * Y"
    using assms(1,4,7,9) by (meson mult_left_mono mult_right_mono order_trans less_imp_le)
  finally show ?thesis
    using assms(5,7) by (simp add: mult.assoc)
qed

text \<open>C10: a round trip through the vault never gains: swapping a token for another and, after the update,
  the whole output back at the same moment returns at most the amount put in.\<close>

theorem gmx_round_trip:
  assumes "valid_request q" and calc: "CalcAmountOut e h p (q :: unit CalcAmountOutParams) = Inr r"
    and upd: "UpdateBalance e h p (update_params q r) = Inr h'"
    and b: "TokenAmountOut r = Some b" and "valid_request q'"
    and q': "q' = \<lparr>TokenAmountIn = b, TokenOut = Token (TokenAmountIn q), Limit = None\<rparr>"
    and calc': "CalcAmountOut e h' p q' = Inr r'"
    and vp: "vault p = Some i" and feed: "Vault_PriceFeed (vaults h ! i) = Some pf"
    and ok: "feed_ok pf (Token (TokenAmountIn q))" "feed_ok pf (TokenOut q)" and e: "coalesces e"
    and fees: "\<forall>v \<in> set (vaults h). fees_ok v"
  shows "\<exists>ret a. TokenAmountOut r' = Some (token_amount (Token (TokenAmountIn q)) (Some ret))
    \<and> Amount (TokenAmountIn q) = Some a \<and> ret \<le> a"
proof -
  let ?A = "Token (TokenAmountIn q)" and ?B = "TokenOut q"
  obtain a where a: "Amount (TokenAmountIn q) = Some a" "0 < a"
    using assms(1) by (rule valid_requestE)
  obtain v usdg minA maxB amountOut f where v: "load_vault h (vault p) = Inr v" and usdg: "Vault_USDG v = Some usdg"
    and p1: "GetMinPrice e v ?A = Inr minA" "GetMaxPrice e v ?B = Inr maxB"
    and out0: "TokenAmountOut r = Some (token_amount ?B (Some (scale amountOut (BasisPointsDivisor - f))))"
    and fee: "Fee r = Some (token_amount ?B (Some (amountOut - scale amountOut (BasisPointsDivisor - f))))"
    using calc a(1) by (rule quoteE)
  define out where "out = scale amountOut (BasisPointsDivisor - f)"
  note out = out0 [folded out_def]
  have i: "i < length (vaults h)" and vi: "v = vaults h ! i"
    using v vp by (auto simp: load_vault_eq)
  obtain us pa where h': "h' = h\<lparr>vaults := (vaults h)[i := v\<lparr>USDGAmounts := us, PoolAmounts := pa\<rparr>]\<rparr>"
    using update_frame [OF upd vp out fee [folded out_def] a(1) i] unfolding vi by blast
  define v' where "v' = v\<lparr>USDGAmounts := us, PoolAmounts := pa\<rparr>"
  have lv': "load_vault h' (vault p) = Inr v'"
    using vp i by (simp add: load_vault_eq h' v'_def)
  have fees': "\<forall>v \<in> set (vaults h'). fees_ok v"
    using fees i set_update_subset_insert [of "vaults h" i v'] by (auto simp: h' v'_def vi)
  have q'B: "TokenAmountIn q' = token_amount ?B (Some out)" "TokenOut q' = ?A"
    using b out q' by simp_all
  have outpos: "0 < out"
    using assms(5) q'B by (auto elim: valid_requestE)
  obtain minB maxA ret where p2: "GetMinPrice e v ?B = Inr minB" "GetMaxPrice e v ?A = Inr maxA"
    and r': "TokenAmountOut r' = Some (token_amount ?A (Some ret))"
    using calc' q'B lv' by (elim quoteE [where a = out]) (auto simp: v'_def)
  have order: "0 \<le> minA \<and> minA \<le> maxA" "0 \<le> minB \<and> minB \<le> maxB"
    using p1 p2 feed ok e vi by (auto simp: GetMinPrice_def GetMaxPrice_def dest: GetPrice_ordered)
  from quote_value [OF calc a out v usdg p1(1) _ p1(2) _ fees] order obtain d1 d2 where
    d: "decimals_of v usdg ?A = Some d1" "decimals_of v usdg ?B = Some d2"
    and le1: "out * maxB * big_exp 10 d1 \<le> a * minA * big_exp 10 d2"
    by auto
  have "0 < maxA \<and> ret * maxA * big_exp 10 d2 \<le> out * minB * big_exp 10 d1"
    using quote_value [OF calc' _ outpos _ lv' _ _ _ _ _ fees', of ret usdg minB maxA] q'B r' usdg p2 order d
    by (auto simp: v'_def)
  then have "ret \<le> a"
    using le1 order outpos a(2) by (intro trip_bound [of out maxB "big_exp 10 d1" a minA "big_exp 10 d2" ret maxA minB]) auto
  with r' a(1) show ?thesis by blast
qed

subsection \<open>The fee of a swap\<close>

text \<open>C36: with dynamic fees the fee of a swap is the larger of the two sides' fees, each the base fee lowered
  by a rebate when the swap brings the vault's debt in the token nearer to its target and raised by a
  tax otherwise; it is never negative and never above the base fee plus the tax.\<close>

theorem gmx_swap_fee:
  assumes "fee_vault h p = Inr v" and "fees_ok v" and "HasDynamicFees v"
    and "USDGAmounts v tin = Some i0" and "GetTargetUSDGAmount v tin = Inr t0" and "0 < t0"
    and "USDGAmounts v tout = Some i1" and "GetTargetUSDGAmount v tout = Inr t1" and "0 < t1"
    and "base_of v tin tout = Some b" and "tax_of v tin tout = Some x"
  shows "\<exists>f. GetSwapFeeBasisPoints h (vaultUtils p) tin tout d = Inr f
    \<and> f = max (dynamic_fee b x t0 i0 (i0 + d)) (dynamic_fee b x t1 i1 (max 0 (i1 - d)))
    \<and> 0 \<le> f \<and> f \<le> b + x"
proof -
  define f where "f = max (dynamic_fee b x t0 i0 (i0 + d)) (dynamic_fee b x t1 i1 (max 0 (i1 - d)))"
  have "GetSwapFeeBasisPoints h (vaultUtils p) tin tout d = Inr f"
    using fee_eq [OF assms(4,5,6,3), of d b x True] fee_eq [OF assms(7,8,9,3), of d b x False]
    by (simp add: swap_fee_unfold [OF assms(1)] assms(10,11) next_amount_def f_def max_def)
  then show ?thesis
    using swap_fee_bounds [OF _ assms(1,2,10,11), of d f] by (simp add: f_def)
qed

subsection \<open>Clones\<close>

lemma steps_frame:
  assumes "(gmx_step p)\<^sup>*\<^sup>* h h'" and "vault p = Some i"
  shows "length (vaults h') = length (vaults h) \<and> utils h' = utils h \<and>
    (\<forall>j. j \<noteq> i \<longrightarrow> vaults h' ! j = vaults h ! j)"
  using assms
proof (induction rule: rtranclp_induct)
  case base
  then show ?case by simp
next
  case (step h1 h2)
  then show ?case
    using step_frame [OF step.hyps(2) step.prems] by simp
qed

text \<open>A clone has a vault of its own, so swapping on it leaves the original vault as it was, but it
  still charges the fees of the original vault: however many swaps the clone has made, its fee for a
  swap is the one the original simulator had when it was cloned.\<close>

theorem gmx_clone_fees:
  assumes "CloneState h p = Inr (h1, c)" and "(gmx_step c)\<^sup>*\<^sup>* h1 h2"
    and "vault p = Some i" and "fee_vault h p = Inr (vaults h ! i)"
  shows "vaults h2 ! i = vaults h ! i \<and>
    GetSwapFeeBasisPoints h2 (vaultUtils c) tin tout d = GetSwapFeeBasisPoints h (vaultUtils p) tin tout d"
proof -
  define n where "n = length (vaults h)"
  have i: "i < n" and h1: "h1 = h\<lparr>vaults := vaults h @ [vaults h ! i]\<rparr>" and c: "c = p\<lparr>vault := Some n\<rparr>"
    using assms(1,3) by (auto simp: CloneState_def load_vault_eq go_simps n_def)
  have h2: "length (vaults h2) = Suc n" "utils h2 = utils h" "\<And>j. j < n \<Longrightarrow> vaults h2 ! j = vaults h ! j"
    using steps_frame [OF assms(2), of n] by (auto simp: c h1 n_def nth_append)
  then have same: "vaults h2 ! i = vaults h ! i"
    using i by simp
  obtain u j where u: "load_utils h (vaultUtils p) = Inr u" "utils_vault u = Some j" "j < n"
    using assms(4) by (auto simp: fee_vault_def go_simps load_vault_eq n_def)
  have "load_utils h2 (vaultUtils c) = Inr u"
    using u(1) h2(2) by (simp add: load_utils_def c)
  with u h2 have "GetSwapFeeBasisPoints h2 (vaultUtils c) tin tout d = GetSwapFeeBasisPoints h (vaultUtils p) tin tout d"
    unfolding GetSwapFeeBasisPoints_def by (simp add: load_vault_def n_def)
  with same show ?thesis ..
qed

subsection \<open>An example vault\<close>

text \<open>Two tokens at one dollar, each with a target of 1000000 units of debt and half of it issued.\<close>

definition ex_env :: env where
  "ex_env = \<lparr>Now = 100, lo_CoalesceOrEmpty = (\<lambda>xs. case xs of Some v # _ \<Rightarrow> Some v | _ # y # _ \<Rightarrow> y | _ \<Rightarrow> None)\<rparr>"

definition ex_feed :: VaultPriceFeed where
  "ex_feed = \<lparr>BNB = ''bnb'', BTC = ''btc'', ETH = ''eth'', FavorPrimaryPrice = False, IsAmmEnabled = False,
     IsSecondaryPriceEnabled = True, MaxStrictPriceDeviation = Some 0, PriceSampleSpace = Some 1,
     SpreadThresholdBasisPoints = Some 0, UseV2Pricing = False, PriceFeedType_f = PriceFeedTypeDirect,
     PriceDecimals = (\<lambda>_. Some 8), SpreadBasisPoints = (\<lambda>_. Some 0), AdjustmentBasisPoints = (\<lambda>_. Some 0),
     StrictStableTokens = (\<lambda>_. False), IsAdjustmentAdditive = (\<lambda>_. False), BNBBUSD = None, BTCBNB = None,
     ETHBNB = None, ChainlinkFlags_f = None,
     SecondaryPriceFeed = Some (V1 (Some \<lparr>DisableFastPriceVoteCount_1 = Some 0, IsSpreadEnabled_1 = False,
        LastUpdatedAt_1 = Some 50, MaxDeviationBasisPoints_1 = Some 100, MinAuthorizations_1 = Some 1,
        PriceDuration_1 = Some 300, VolBasisPoints_1 = Some 10, Prices_1 = (\<lambda>_. Some (10 ^ 30))\<rparr>)),
     SecondaryPriceFeedVersion = 1,
     PriceFeeds = (\<lambda>_. Some (Some \<lparr>RoundID = Some 1, Answer = Some (10 ^ 30),
        Answers = [''true'' \<mapsto> 10 ^ 30, ''false'' \<mapsto> 10 ^ 30]\<rparr>))\<rparr>"

definition ex_vault :: Vault where
  "ex_vault = \<lparr>HasDynamicFees = True, IncludeAmmPrice = True, IsSwapEnabled = True,
     StableSwapFeeBasisPoints = Some 4, StableTaxBasisPoints = Some 20, SwapFeeBasisPoints = Some 30,
     TaxBasisPoints = Some 50, TotalTokenWeights = Some 2, WhitelistedTokens = [''a'', ''b''],
     PoolAmounts = (\<lambda>_. Some 1000000), BufferAmounts = (\<lambda>_. Some 100), ReservedAmounts = (\<lambda>_. Some 10),
     TokenDecimals = (\<lambda>_. Some 18), StableTokens = (\<lambda>_. False), USDGAmounts = (\<lambda>_. Some 500000),
     MaxUSDGAmounts = (\<lambda>_. Some 0), TokenWeights = (\<lambda>_. Some 1), Vault_PriceFeed = Some ex_feed,
     Vault_USDG = Some \<lparr>USDG_Address = ''usdg'', TotalSupply = Some 2000000\<rparr>, UseSwapPricing = False\<rparr>"

definition ex_heap :: heap where
  "ex_heap = \<lparr>vaults = [ex_vault], utils = [\<lparr>utils_vault = Some 0\<rparr>]\<rparr>"

definition ex_sim :: PoolSimulator where
  "ex_sim = \<lparr>Info = \<lparr>Address = ''vault'', Exchange = ''gmx'', Type = ''gmx'', Tokens = [''a'', ''b''],
       Reserves = [], SwapFee = None, BlockNumber = 0\<rparr>, vault = Some 0, vaultUtils = Some 0\<rparr>"

definition ex_request :: "string \<Rightarrow> int \<Rightarrow> string \<Rightarrow> unit CalcAmountOutParams" where
  "ex_request tin a tout = \<lparr>TokenAmountIn = token_amount tin (Some a), TokenOut = tout, Limit = None\<rparr>"

definition quoted :: "'i CalcAmountOutResult go \<Rightarrow> int" where
  "quoted m = (case m of Inr r \<Rightarrow> (case TokenAmountOut r of Some t \<Rightarrow> the (Amount t) | None \<Rightarrow> -1) | Inl _ \<Rightarrow> -2)"

definition swap_once :: "env \<Rightarrow> heap \<Rightarrow> PoolSimulator \<Rightarrow> unit CalcAmountOutParams \<Rightarrow> heap go" where
  "swap_once e h p q = bnd (CalcAmountOut e h p q) (\<lambda>r. UpdateBalance e h p (update_params q r))"

lemma swap_once_step:
  assumes "swap_once e h p q = Inr h'" and "valid_request q"
  shows "gmx_step p h h'"
  using assms by (auto simp: swap_once_def go_simps intro: gmx_step.swap)

lemma ex_valid: "0 < a \<Longrightarrow> tin \<noteq> tout \<Longrightarrow> valid_request (ex_request tin a tout)"
  by (simp add: valid_request_def ex_request_def)

lemma ex_coalesces: "coalesces ex_env"
  by (simp add: coalesces_def ex_env_def split: option.splits)

lemma ex_feed_ok: "feed_ok ex_feed t"
  by (simp add: feed_ok_def ex_feed_def answer_or_zero_def pair_ok_def fast_ok_def BasisPointsDivisor_def
      BasisPoint_def)

lemma ex_fees_ok: "fees_ok ex_vault"
  by (simp add: fees_ok_def ex_vault_def)

lemma ex_parts [simp]:
  "vault ex_sim = Some 0" "vaults ex_heap = [ex_vault]" "Vault_PriceFeed ex_vault = Some ex_feed"
  by (simp_all add: ex_sim_def ex_heap_def ex_vault_def)

lemma ex_covered: "covered ex_vault t"
  by (simp add: covered_def ex_vault_def)

lemma ex_fee_vault: "fee_vault ex_heap ex_sim = Inr ex_vault"
  by (simp add: fee_vault_def load_utils_def load_vault_def ex_heap_def ex_sim_def)

lemma ex_swap: "\<exists>h'. swap_once ex_env ex_heap ex_sim (ex_request ''a'' 400000 ''b'') = Inr h'"
proof -
  have "\<not> isl (swap_once ex_env ex_heap ex_sim (ex_request ''a'' 400000 ''b''))"
    by code_simp
  then show ?thesis
    by (cases "swap_once ex_env ex_heap ex_sim (ex_request ''a'' 400000 ''b'')") auto
qed

theorem gmx_min_le_max_witness:
  "GetMinPrice ex_env ex_vault ''a'' = Inr (10 ^ 30) \<and> GetMaxPrice ex_env ex_vault ''a'' = Inr (10 ^ 30) \<and>
   (0::int) \<le> 10 ^ 30 \<and> (10 ^ 30 :: int) \<le> 10 ^ 30"
proof -
  have lo: "GetMinPrice ex_env ex_vault ''a'' = Inr (10 ^ 30)"
    by code_simp
  have hi: "GetMaxPrice ex_env ex_vault ''a'' = Inr (10 ^ 30)"
    by code_simp
  from gmx_min_le_max [OF lo hi _ ex_feed_ok ex_coalesces] lo hi show ?thesis
    by simp
qed

theorem gmx_pool_covered_witness:
  "\<exists>h'. gmx_step ex_sim ex_heap h' \<and> (\<forall>t. covered (vaults h' ! 0) t)"
proof -
  obtain h' where "swap_once ex_env ex_heap ex_sim (ex_request ''a'' 400000 ''b'') = Inr h'"
    using ex_swap by blast
  then have "gmx_step ex_sim ex_heap h'"
    by (rule swap_once_step) (simp add: ex_valid)
  with gmx_pool_covered [OF r_into_rtranclp [of "gmx_step ex_sim", OF this], of 0] show ?thesis
    by (auto simp: ex_covered)
qed

theorem gmx_swap_fee_witness:
  "\<exists>f. GetSwapFeeBasisPoints ex_heap (vaultUtils ex_sim) ''a'' ''b'' 400000 = Inr f
     \<and> f = max (dynamic_fee 30 50 1000000 500000 900000) (dynamic_fee 30 50 1000000 500000 100000)
     \<and> 0 \<le> f \<and> f \<le> 80"
  using gmx_swap_fee [OF ex_fee_vault ex_fees_ok, of "''a''" 500000 1000000 "''b''" 500000 1000000 30 50 400000]
  by (simp add: ex_vault_def GetTargetUSDGAmount_def base_of_def tax_of_def)

theorem gmx_clone_fees_witness:
  "\<exists>h1 c h2 h3. CloneState ex_heap ex_sim = Inr (h1, c) \<and> gmx_step c h1 h2 \<and> vaults h2 ! 0 = ex_vault
     \<and> GetSwapFeeBasisPoints h2 (vaultUtils c) ''a'' ''b'' 100000
         = GetSwapFeeBasisPoints ex_heap (vaultUtils ex_sim) ''a'' ''b'' 100000
     \<and> gmx_step ex_sim ex_heap h3
     \<and> quoted (CalcAmountOut ex_env h2 c (ex_request ''a'' 100000 ''b'')) = 99430
     \<and> quoted (CalcAmountOut ex_env h3 ex_sim (ex_request ''a'' 100000 ''b'')) = 99230"
proof -
  let ?q = "ex_request ''a'' 400000 ''b''" and ?q2 = "ex_request ''a'' 100000 ''b''"
  define m where "m = bnd (CloneState ex_heap ex_sim) (\<lambda>(h1, c). bnd (swap_once ex_env h1 c ?q)
    (\<lambda>h2. Inr (quoted (CalcAmountOut ex_env h2 c ?q2))))"
  have "m = Inr 99430"
    unfolding m_def by code_simp
  then obtain h1 c h2 where c: "CloneState ex_heap ex_sim = Inr (h1, c)" and s: "swap_once ex_env h1 c ?q = Inr h2"
    and q: "quoted (CalcAmountOut ex_env h2 c ?q2) = 99430"
    by (auto simp: m_def go_simps)
  have step: "gmx_step c h1 h2"
    using s by (rule swap_once_step) (simp add: ex_valid)
  have "bnd (swap_once ex_env ex_heap ex_sim ?q) (\<lambda>h3. Inr (quoted (CalcAmountOut ex_env h3 ex_sim ?q2))) = Inr 99230"
    by code_simp
  then obtain h3 where "swap_once ex_env ex_heap ex_sim ?q = Inr h3"
    and q3: "quoted (CalcAmountOut ex_env h3 ex_sim ?q2) = 99230"
    by (auto simp: go_simps)
  then have "gmx_step ex_sim ex_heap h3"
    by (intro swap_once_step [of ex_env ex_heap ex_sim ?q]) (simp_all add: ex_valid)
  with c step q q3 gmx_clone_fees [OF c r_into_rtranclp [of "gmx_step c", OF step], of 0] show ?thesis
    by (intro exI [of _ h1] exI [of _ c] exI [of _ h2] exI [of _ h3]) (simp add: ex_fee_vault)
qed

theorem gmx_round_trip_witness:
  "\<exists>r h' r' ret. CalcAmountOut ex_env ex_heap ex_sim (ex_request ''a'' 400000 ''b'') = Inr r
     \<and> UpdateBalance ex_env ex_heap ex_sim (update_params (ex_request ''a'' 400000 ''b'') r) = Inr h'
     \<and> CalcAmountOut ex_env h' ex_sim (ex_request ''b'' 397400 ''a'') = Inr r'
     \<and> TokenAmountOut r' = Some (token_amount ''a'' (Some ret)) \<and> ret \<le> 400000"
proof -
  let ?q = "ex_request ''a'' 400000 ''b''" and ?q2 = "ex_request ''b'' 397400 ''a''"
  have "bnd (CalcAmountOut ex_env ex_heap ex_sim ?q) (\<lambda>r.
      bnd (UpdateBalance ex_env ex_heap ex_sim (update_params ?q r)) (\<lambda>h'.
      bnd (CalcAmountOut ex_env h' ex_sim ?q2) (\<lambda>r'. Inr (TokenAmountOut r))))
    = Inr (Some (token_amount ''b'' (Some 397400)))"
    by code_simp
  then obtain r h' r' where r: "CalcAmountOut ex_env ex_heap ex_sim ?q = Inr r"
    and h': "UpdateBalance ex_env ex_heap ex_sim (update_params ?q r) = Inr h'"
    and r': "CalcAmountOut ex_env h' ex_sim ?q2 = Inr r'" and out: "TokenAmountOut r = Some (token_amount ''b'' (Some 397400))"
    by (auto simp: go_simps)
  have "\<exists>ret a. TokenAmountOut r' = Some (token_amount ''a'' (Some ret)) \<and> Amount (TokenAmountIn ?q) = Some a \<and> ret \<le> a"
    using gmx_round_trip [OF _ r h' out _ _ r', of 0 ex_feed] ex_feed_ok ex_coalesces ex_fees_ok
    by (simp add: ex_request_def valid_request_def)
  with r h' r' show ?thesis
    by (auto simp: ex_request_def)
qed

end
