(* ===== verification/Liquidity_Book_Math.thy ===== *)
theory Liquidity_Book_Math
  imports Pool_Interface
begin

unbundle bit_operations_syntax

text \<open>
  The arithmetic of \<open>pkg/source/liquiditybookv20\<close>: prices from bin identifiers, 128-bit fixed-point
  powers and the shift helpers of \<open>math.go\<close>, and the fee parameters of \<open>fee_parameters.go\<close>.

  The Solidity original works modulo \<open>2 ^ 256\<close>; the Go code works on unbounded integers, so the helpers
  agree with their meaning only while no intermediate product leaves 256 bits (lemmas
  \<open>mulShiftRoundDown_eq\<close>, \<open>shiftDivRoundDown_eq\<close>).  \<open>big.Int\<close> shifts are multiplication and floor
  division by a power of two, its bitwise operations those of the unbounded two's complement.
  \<open>math.Abs(float64(a) - float64(b))\<close> on 32-bit values is exact and modelled on integers.
\<close>

definition basisPointMax :: int where
  "basisPointMax = 10000"

definition scaleOffset :: nat where
  "scaleOffset = 128"

definition realIDShift :: int where
  "realIDShift = 2 ^ 23"

definition scale :: int where
  "scale = 2 ^ 128"

definition precison :: int where
  "precison = 10 ^ 18"

definition pow_bound :: int where
  "pow_bound = 0x100000"

definition MaxUint128 :: int where
  "MaxUint128 = 2 ^ 128 - 1"

definition MaxUint256 :: int where
  "MaxUint256 = 2 ^ 256 - 1"

subsection \<open>Prices\<close>

text \<open>The loop \<open>for i := 0x1; i <= 0x80000; i <<= 1\<close> over the values of \<open>i\<close>.\<close>

definition pow_bits :: "int list" where
  "pow_bits = map (\<lambda>k. 2 ^ k) [0..<20]"

fun pow_loop :: "int list \<Rightarrow> int \<Rightarrow> int \<Rightarrow> int \<Rightarrow> int" where
  "pow_loop [] absY result squared = result"
| "pow_loop (i # is) absY result squared =
     pow_loop is absY
       (if (absY AND i) \<noteq> 0 then result * squared div 2 ^ 128 else result)
       (if i < 0x80000 then squared * squared div 2 ^ 128 else squared)"

definition pow :: "int \<Rightarrow> int \<Rightarrow> int go" where
  "pow x y =
     (if y = 0 then Inr scale
      else
        let absY = \<bar>y\<bar>; invert = (y < 0);
            (result, invert) =
              (if absY < pow_bound
               then (if x > MaxUint128 then (pow_loop pow_bits absY scale (MaxUint256 div x), \<not> invert)
                     else (pow_loop pow_bits absY scale x, invert))
               else (0, invert))
        in if result = 0 then Inl (Err ''ErrPowUnderflow'')
           else if invert then big_div MaxUint256 result else Inr result)"

definition getBase :: "16 word \<Rightarrow> int" where
  "getBase binStep = scale + uint binStep * 2 ^ 128 div basisPointMax"

definition getExponent :: "32 word \<Rightarrow> int" where
  "getExponent binID = uint binID - realIDShift"

definition getPriceFromID :: "32 word \<Rightarrow> 16 word \<Rightarrow> int go" where
  "getPriceFromID binID binStep = pow (getBase binStep) (getExponent binID)"

subsection \<open>Shifts\<close>

definition gt :: "int \<Rightarrow> int \<Rightarrow> int" where
  "gt x y = (if x > y then 1 else 0)"

definition lt :: "int \<Rightarrow> int \<Rightarrow> int" where
  "lt x y = (if x < y then 1 else 0)"

definition bitwiseNotUint256 :: "int \<Rightarrow> int" where
  "bitwiseNotUint256 x = x XOR MaxUint256"

text \<open>The six Newton steps of the modular inverse.\<close>

definition inverse_step :: "int \<Rightarrow> int \<Rightarrow> int" where
  "inverse_step denominator x = x * (2 - denominator * x)"

definition getEndOfDivRoundDown :: "int \<Rightarrow> int \<Rightarrow> int \<Rightarrow> int \<Rightarrow> int \<Rightarrow> int go" where
  "getEndOfDivRoundDown x y denominator prod0 prod1 =
     (if prod1 = 0 then big_div prod0 denominator
      else if prod1 \<ge> denominator then Inl (Err ''ErrMulDivOverflow'')
      else
        bnd (if denominator \<noteq> 0 then Inr 0 else big_mod (x * y) denominator) (\<lambda>remainder.
        let prod1 = prod1 - gt remainder prod0;
            prod0 = prod0 - remainder;
            lpotdod = denominator AND (bitwiseNotUint256 denominator + 1) in
        bnd (big_div denominator lpotdod) (\<lambda>denominator.
        bnd (big_div prod0 lpotdod) (\<lambda>prod0.
        bnd (big_div (0 - lpotdod) lpotdod) (\<lambda>d.
        let prod0 = prod0 OR (prod1 * (d + 1));
            r = (inverse_step denominator ^^ 6) (denominator * denominator * 9)
        in Inr (prod0 * r))))))"

definition shiftDivRoundDown :: "int \<Rightarrow> nat \<Rightarrow> int \<Rightarrow> int go" where
  "shiftDivRoundDown x offset denominator =
     (let prod0 = x * 2 ^ offset; prod1 = x div 2 ^ (256 - offset); y = 2 ^ offset
      in getEndOfDivRoundDown x y denominator prod0 prod1)"

definition shiftDivRoundUp :: "int \<Rightarrow> nat \<Rightarrow> int \<Rightarrow> int go" where
  "shiftDivRoundUp x offset denominator =
     bnd (shiftDivRoundDown x offset denominator) (\<lambda>result.
     if denominator = 0 then Inr 0
     else bnd (big_mod (x * 2 ^ offset) denominator) (\<lambda>v.
          Inr (if v \<noteq> 0 then result + 1 else result)))"

definition getMulProds :: "int \<Rightarrow> int \<Rightarrow> int \<times> int" where
  "getMulProds x y =
     (let mm = x * y mod MaxUint256; prod0 = x * y; prod1 = mm - prod0 - lt mm prod0
      in (prod0, prod1))"

definition mulShiftRoundDown :: "int \<Rightarrow> int \<Rightarrow> nat \<Rightarrow> int go" where
  "mulShiftRoundDown x y offset =
     (case getMulProds x y of (prod0, prod1) \<Rightarrow>
      let result = (if prod0 \<noteq> 0 then prod0 div 2 ^ offset else 0) in
      if prod1 \<noteq> 0
      then if prod1 \<ge> 2 ^ offset then Inl (Err ''ErrMulShiftOverflow'')
           else Inr (result + prod1 * 2 ^ (256 - offset))
      else Inr result)"

definition mulShiftRoundUp :: "int \<Rightarrow> int \<Rightarrow> nat \<Rightarrow> int go" where
  "mulShiftRoundUp x y offset =
     bnd (mulShiftRoundDown x y offset) (\<lambda>result.
     let v = x * y mod 2 ^ offset in Inr (if v \<noteq> 0 then result + 1 else result))"

subsection \<open>Fee parameters\<close>

record feeParameters =
  BinStep :: "16 word"
  BaseFactor :: "16 word"
  FilterPeriod :: "16 word"
  DecayPeriod :: "16 word"
  ReductionFactor :: "16 word"
  VariableFeeControl :: "32 word"
  ProtocolShare :: "16 word"
  MaxVolatilityAccumulated :: "32 word"
  VolatilityAccumulated :: "32 word"
  VolatilityReference :: "32 word"
  IndexRef :: "32 word"
  Time :: "64 word"

definition updateVolatilityAccumulated :: "feeParameters \<Rightarrow> 32 word \<Rightarrow> feeParameters" where
  "updateVolatilityAccumulated fp activeID =
     (let absSub = \<bar>uint activeID - uint (IndexRef fp)\<bar>;
          volatilityAccumulated = min (absSub * basisPointMax + uint (VolatilityReference fp))
                                      (uint (MaxVolatilityAccumulated fp))
      in fp\<lparr>VolatilityAccumulated := word_of_int volatilityAccumulated\<rparr>)"

definition updateVariableFeeParameters :: "feeParameters \<Rightarrow> 64 word \<Rightarrow> 32 word \<Rightarrow> feeParameters" where
  "updateVariableFeeParameters fp blockTimestamp activeID =
     (let delta = blockTimestamp - Time fp;
          fp1 = (if delta \<ge> ucast (FilterPeriod fp) \<or> Time fp = 0
                 then fp\<lparr>IndexRef := activeID,
                         VolatilityReference :=
                           (if delta < ucast (DecayPeriod fp)
                            then word_of_int (uint (ReductionFactor fp) * uint (VolatilityAccumulated fp)
                                              div basisPointMax)
                            else 0)\<rparr>
                 else fp)
      in updateVolatilityAccumulated (fp1\<lparr>Time := blockTimestamp\<rparr>) activeID)"

definition getBaseFee :: "feeParameters \<Rightarrow> int" where
  "getBaseFee fp = uint (BaseFactor fp) * uint (BinStep fp) * 10 ^ 10"

definition getVariableFee :: "feeParameters \<Rightarrow> int" where
  "getVariableFee fp =
     (if VariableFeeControl fp = 0 then 0
      else let prod = uint (VolatilityAccumulated fp) * uint (BinStep fp)
           in (prod * prod * uint (VariableFeeControl fp) + 99) div 100)"

definition getTotalFee :: "feeParameters \<Rightarrow> int" where
  "getTotalFee fp = getBaseFee fp + getVariableFee fp"

definition getFeeAmount :: "feeParameters \<Rightarrow> int \<Rightarrow> int go" where
  "getFeeAmount fp amount =
     (let fee = getTotalFee fp; denominator = precison - fee
      in big_div (amount * fee + denominator - 1) denominator)"

definition getFeeAmountDistribution :: "feeParameters \<Rightarrow> int \<Rightarrow> int \<times> int" where
  "getFeeAmountDistribution fp fees =
     (fees, fees * uint (ProtocolShare fp) div basisPointMax)"

subsection \<open>Shifts in range\<close>

lemma scaleOffset_simps [simp]: "256 - scaleOffset = 128" "(2::int) ^ scaleOffset = 2 ^ 128"
  by (simp_all add: scaleOffset_def)

lemma mulShiftRoundDown_eq:
  assumes "0 \<le> x * y" and "x * y < MaxUint256"
  shows "mulShiftRoundDown x y scaleOffset = Inr (x * y div 2 ^ 128)"
  using assms by (simp add: mulShiftRoundDown_def getMulProds_def Let_def lt_def)

lemma shiftDivRoundDown_eq:
  assumes "0 \<le> x" and "x < 2 ^ 128" and "0 < d"
  shows "shiftDivRoundDown x scaleOffset d = Inr (x * 2 ^ 128 div d)"
  using assms by (simp add: shiftDivRoundDown_def getEndOfDivRoundDown_def Let_def)


text \<open>The multiply-shift helper floors the product shifted down while the product fits 256 bits, and
  returns a negative number for every larger product, because its operands are never reduced modulo
  \<open>2 ^ 256\<close> as the original's are.\<close>

theorem lb_mul_shift:
  assumes "0 \<le> x * y"
  shows "\<exists>r. mulShiftRoundDown x y scaleOffset = Inr r \<and>
    (x * y < MaxUint256 \<longrightarrow> r = x * y div 2 ^ 128) \<and> (MaxUint256 \<le> x * y \<longrightarrow> r < 0)"
proof (cases "x * y < MaxUint256")
  case True
  with mulShiftRoundDown_eq [OF assms this] show ?thesis by simp
next
  case False
  define M p k where "M = MaxUint256" and "p = x * y" and "k = p div M"
  have M: "M = 2 ^ 256 - 1" "0 < M" by (simp_all add: M_def MaxUint256_def)
  have k: "1 \<le> k"
    using False M(2) floor_geI [of M 1 p] by (simp add: k_def p_def M_def)
  have split: "p mod M = p - k * M"
    by (simp add: k_def minus_div_mult_eq_mod [symmetric])
  have "M \<le> k * M" using k M(2) by simp
  then have less: "p mod M < p" using M(2) split by linarith
  have p0: "p \<noteq> 0" using False M(2) by (auto simp: p_def M_def)
  have "p < (k + 1) * M"
    unfolding k_def using M(2) by (rule floor_gt)
  then have "p div 2 ^ 128 \<le> (k + 1) * M div 2 ^ 128"
    by (intro zdiv_mono1) auto
  also have "\<dots> \<le> (k + 1) * 2 ^ 128"
  proof -
    have "(k + 1) * M \<le> (k + 1) * (2 ^ 128 * 2 ^ 128)"
      using k M(1) by (intro mult_left_mono) auto
    then have "(k + 1) * M div 2 ^ 128 \<le> (k + 1) * 2 ^ 128 * 2 ^ 128 div 2 ^ 128"
      by (intro zdiv_mono1) (auto simp: mult.assoc)
    then show ?thesis by simp
  qed
  also have "\<dots> < (k * M + 1) * 2 ^ 128"
  proof -
    have "k + 1 < k * M + 1" using k M(1) by simp
    then show ?thesis by (intro mult_strict_right_mono) auto
  qed
  finally have "p div 2 ^ 128 + (p mod M - p - 1) * 2 ^ 128 < 0"
    by (simp add: split algebra_simps)
  moreover have "mulShiftRoundDown x y scaleOffset = Inr (p div 2 ^ 128 + (p mod M - p - 1) * 2 ^ 128)"
    using less p0
    by (simp add: mulShiftRoundDown_def getMulProds_def Let_def lt_def p_def M_def)
  ultimately show ?thesis
    using False by (simp add: p_def M_def)
qed

theorem lb_mul_shift_witness:
  "\<exists>r. mulShiftRoundDown (10 ^ 40) (2 ^ 168) scaleOffset = Inr r \<and> r < 0"
  using lb_mul_shift [of "10 ^ 40" "2 ^ 168"] by (auto simp: MaxUint256_def)

lemma ceil_div:
  assumes "0 < (d :: int)" and "r = (if n mod d \<noteq> 0 then n div d + 1 else n div d)"
  shows "n \<le> r * d" and "(r - 1) * d < n"
  using assms floor_le [OF assms(1), of n] floor_gt [OF assms(1), of n]
  by (auto simp: minus_div_mult_eq_mod [symmetric] distrib_right left_diff_distrib split: if_splits)

lemma mulShiftRoundUp_ceil:
  assumes "0 \<le> x * y" and "x * y < MaxUint256"
  shows "\<exists>r. mulShiftRoundUp x y scaleOffset = Inr r \<and> x * y \<le> r * 2 ^ 128 \<and> (r - 1) * 2 ^ 128 < x * y"
  using ceil_div [of "2 ^ 128" _ "x * y"] by (auto simp: mulShiftRoundUp_def mulShiftRoundDown_eq [OF assms] Let_def)

lemma shiftDivRoundUp_ceil:
  assumes "0 \<le> x" and "x < 2 ^ 128" and "0 < d"
  shows "\<exists>r. shiftDivRoundUp x scaleOffset d = Inr r \<and> x * 2 ^ 128 \<le> r * d \<and> (r - 1) * d < x * 2 ^ 128"
  using ceil_div [OF assms(3), of _ "x * 2 ^ 128"] assms(3)
  by (auto simp: shiftDivRoundUp_def shiftDivRoundDown_eq [OF assms] big_mod_def)


subsection \<open>Fees\<close>

text \<open>The largest fee rate the parameters allow: the volatility accumulator is capped.\<close>

definition fee_cap :: "feeParameters \<Rightarrow> int" where
  "fee_cap fp = getBaseFee fp +
     (if VariableFeeControl fp = 0 then 0
      else let prod = uint (MaxVolatilityAccumulated fp) * uint (BinStep fp)
           in (prod * prod * uint (VariableFeeControl fp) + 99) div 100)"

definition volatile_ok :: "feeParameters \<Rightarrow> bool" where
  "volatile_ok fp = (VolatilityAccumulated fp \<le> MaxVolatilityAccumulated fp)"

lemma updateVolatility_capped: "volatile_ok (updateVolatilityAccumulated fp a)"
proof -
  define n where "n = min (\<bar>uint a - uint (IndexRef fp)\<bar> * basisPointMax + uint (VolatilityReference fp))
    (uint (MaxVolatilityAccumulated fp))"
  have "0 \<le> n" and le: "n \<le> uint (MaxVolatilityAccumulated fp)"
    by (auto simp: n_def basisPointMax_def)
  moreover have "uint (MaxVolatilityAccumulated fp) < 2 ^ 32"
    using uint_lt2p [of "MaxVolatilityAccumulated fp"] by simp
  ultimately have "uint (word_of_int n :: 32 word) = n"
    by (simp add: uint_word_of_int take_bit_eq_mod)
  with le show ?thesis
    by (simp add: volatile_ok_def updateVolatilityAccumulated_def Let_def n_def word_le_def)
qed

lemma updateVolatility_fields [simp]:
  "BinStep (updateVolatilityAccumulated fp a) = BinStep fp"
  "BaseFactor (updateVolatilityAccumulated fp a) = BaseFactor fp"
  "VariableFeeControl (updateVolatilityAccumulated fp a) = VariableFeeControl fp"
  "MaxVolatilityAccumulated (updateVolatilityAccumulated fp a) = MaxVolatilityAccumulated fp"
  "fee_cap (updateVolatilityAccumulated fp a) = fee_cap fp"
  by (simp_all add: updateVolatilityAccumulated_def Let_def fee_cap_def getBaseFee_def)

lemma updateVariable_fields [simp]:
  "BinStep (updateVariableFeeParameters fp t a) = BinStep fp"
  "fee_cap (updateVariableFeeParameters fp t a) = fee_cap fp"
  by (simp_all add: updateVariableFeeParameters_def Let_def fee_cap_def getBaseFee_def)

lemma total_fee_bounds: "volatile_ok fp \<Longrightarrow> 0 \<le> getTotalFee fp \<and> getTotalFee fp \<le> fee_cap fp"
proof -
  assume "volatile_ok fp"
  define a b v where "a = uint (VolatilityAccumulated fp) * uint (BinStep fp)"
    and "b = uint (MaxVolatilityAccumulated fp) * uint (BinStep fp)" and "v = uint (VariableFeeControl fp)"
  have "0 \<le> a" "a \<le> b" "0 \<le> v"
    using \<open>volatile_ok fp\<close> by (auto simp: a_def b_def v_def volatile_ok_def word_le_def intro: mult_right_mono)
  then have "0 \<le> a * a * v" "a * a * v \<le> b * b * v"
    by (auto intro!: mult_right_mono mult_mono)
  then have "0 \<le> (a * a * v + 99) div 100" "(a * a * v + 99) div 100 \<le> (b * b * v + 99) div 100"
    by (auto intro: zdiv_mono1)
  then show ?thesis
    by (simp add: getTotalFee_def fee_cap_def getVariableFee_def getBaseFee_def Let_def a_def b_def v_def)
qed

text \<open>With a fee rate of at most one half the fee of an amount lies between zero and the amount.\<close>

lemma fee_amount_bounds:
  assumes "volatile_ok fp" and "2 * fee_cap fp \<le> precison" and "0 \<le> a"
  shows "\<exists>f. getFeeAmount fp a = Inr f \<and> 0 \<le> f \<and> f \<le> a"
proof -
  define t D where "t = getTotalFee fp" and "D = precison - t"
  have t: "0 \<le> t" "t \<le> D" and D: "0 < D"
    using total_fee_bounds [OF assms(1)] assms(2) by (auto simp: t_def D_def precison_def)
  have "a * t \<le> a * D"
    using t assms(3) by (intro mult_left_mono) auto
  then have "a * t + D - 1 < (a + 1) * D"
    by (simp add: algebra_simps)
  then have "((a * t + D - 1) div D) * D < (a + 1) * D"
    using floor_le [OF D, of "a * t + D - 1"] by linarith
  then have "(a * t + D - 1) div D < a + 1"
    using D by (simp only: mult_less_cancel_right_pos)
  moreover have "0 \<le> (a * t + D - 1) div D"
    using D mult_nonneg_nonneg [OF assms(3) t(1)] by simp
  ultimately show ?thesis
    using D by (simp add: getFeeAmount_def Let_def t_def D_def)
qed

end
