(* ===== verification/Liquidity_Book.thy ===== *)
theory Liquidity_Book
  imports Liquidity_Book_Math
begin

text \<open>
  The simulator of \<open>pkg/source/liquiditybookv20\<close>: a pair whose liquidity sits in bins, each with its
  own price.  A swap walks from the active bin through its neighbours, found by binary search in the
  list of bins, until the input is spent.

  The search for the next bin trusts that the bins are sorted, so the walk of \<open>getSwapOut\<close> is a
  \<open>partial_function (option)\<close>: \<open>None\<close> is a call that never returns.  \<open>sort.Slice\<close> by bin identifier is
  \<open>sort_key\<close>; for equal identifiers, which well-formed pools do not have, Go leaves the order open.
  JSON decoding is a parameter.
\<close>

record Bin =
  ID :: "32 word"
  ReserveX :: bigint
  ReserveY :: bigint

record binReserveChanges =
  BinID :: "32 word"
  AmountXIn :: int
  AmountXOut :: int
  AmountYIn :: int
  AmountYOut :: int

record SwapInfo =
  BinsReserveChanges :: "binReserveChanges list"
  NewFeeParameters :: feeParameters
  NewActiveID :: "32 word"

record getSwapOutResult =
  AmountOut :: int
  SwapFee_o :: int
  BinsReserveChanges_o :: "binReserveChanges list"
  FeeParameters_o :: feeParameters
  NewActiveID_o :: "32 word"

record Extra =
  RpcBlockTimestamp :: "64 word"
  FeeParameters :: feeParameters
  ActiveBinID :: "32 word"
  Bins :: "Bin list"

record PoolSimulator = Pool +
  blockTimestamp :: "64 word"
  feeParams :: feeParameters
  activeBinID :: "32 word"
  bins :: "Bin list"

definition baseGas :: int where
  "baseGas = 71109"

definition perBinGas :: int where
  "perBinGas = 14992"

subsection \<open>Bins\<close>

definition getReserveOut :: "Bin \<Rightarrow> bool \<Rightarrow> bigint" where
  "getReserveOut b swapForX = (if swapForX then ReserveX b else ReserveY b)"

definition isEmptyForSwap :: "Bin \<Rightarrow> bool \<Rightarrow> bool go" where
  "isEmptyForSwap b swapForX =
     (if swapForX then bnd (deref (ReserveX b)) (\<lambda>x. Inr (x = 0))
      else bnd (deref (ReserveY b)) (\<lambda>y. Inr (y = 0)))"

definition isEmpty :: "Bin \<Rightarrow> bool go" where
  "isEmpty b =
     bnd (deref (ReserveX b)) (\<lambda>x.
     if x = 0 then bnd (deref (ReserveY b)) (\<lambda>y. Inr (y = 0)) else Inr False)"

definition getAmounts ::
    "Bin \<Rightarrow> feeParameters \<Rightarrow> 32 word \<Rightarrow> bool \<Rightarrow> int \<Rightarrow> (int \<times> int \<times> int \<times> int \<times> feeParameters) go" where
  "getAmounts b fp activeID swapForY amountIn =
     bnd (getPriceFromID activeID (BinStep fp)) (\<lambda>price.
     bnd (deref (getReserveOut b (\<not> swapForY))) (\<lambda>binReserveOut.
     bnd (if swapForY then shiftDivRoundUp binReserveOut scaleOffset price
          else mulShiftRoundUp binReserveOut price scaleOffset) (\<lambda>maxAmountInToBin.
     let fp = updateVolatilityAccumulated fp activeID in
     bnd (getFeeAmount fp maxAmountInToBin) (\<lambda>maxFee.
     let (totalFee, protocolFee) = getFeeAmountDistribution fp maxFee in
     if maxAmountInToBin + totalFee \<le> amountIn
     then Inr (maxAmountInToBin, binReserveOut, totalFee, protocolFee, fp)
     else
       bnd (getFeeAmount fp amountIn) (\<lambda>fee.
       let (totalFee, protocolFee) = getFeeAmountDistribution fp fee;
           amountInToBin = amountIn - totalFee in
       bnd (if swapForY then mulShiftRoundDown amountInToBin price scaleOffset
            else shiftDivRoundDown amountInToBin scaleOffset price) (\<lambda>amountOutOfBin.
       Inr (amountInToBin,
            if amountOutOfBin > binReserveOut then binReserveOut else amountOutOfBin,
            totalFee, protocolFee, fp)))))))"

definition newBinReserveChanges :: "32 word \<Rightarrow> bool \<Rightarrow> int \<Rightarrow> int \<Rightarrow> binReserveChanges" where
  "newBinReserveChanges binID swapForX amountIn amountOut =
     (if swapForX
      then \<lparr>BinID = binID, AmountXIn = 0, AmountXOut = amountOut, AmountYIn = amountIn, AmountYOut = 0\<rparr>
      else \<lparr>BinID = binID, AmountXIn = amountIn, AmountXOut = 0, AmountYIn = 0, AmountYOut = amountOut\<rparr>)"

subsection \<open>Finding bins\<close>

text \<open>The loop \<open>for r-l > 1\<close>.\<close>

function search_loop :: "Bin list \<Rightarrow> 32 word \<Rightarrow> int \<Rightarrow> int \<Rightarrow> int go" where
  "search_loop bs binID l r =
     (if r - l > 1
      then let m = (r + l) div 2 in
           bnd (idx bs m) (\<lambda>b.
           if ID b \<le> binID then search_loop bs binID m r else search_loop bs binID l m)
      else Inr l)"
  by auto
termination
  by (relation "measure (\<lambda>(bs, binID, l, r). nat (r - l))") auto

declare search_loop.simps [simp del]

definition findBinArrIndex :: "PoolSimulator \<Rightarrow> 32 word \<Rightarrow> int go" where
  "findBinArrIndex p binID =
     (if length (bins p) = 0 then Inl (Err ''ErrNotFoundBinID'')
      else
        bnd (search_loop (bins p) binID 0 (int (length (bins p)))) (\<lambda>l.
        bnd (idx (bins p) l) (\<lambda>b.
        if ID b \<noteq> binID then Inl (Err ''ErrNotFoundBinID'')
        else Inr (uint (word_of_int l :: 32 word)))))"

definition findFirstRight :: "PoolSimulator \<Rightarrow> 32 word \<Rightarrow> (32 word) go" where
  "findFirstRight p binID =
     bnd (findBinArrIndex p binID) (\<lambda>i.
     if i = 0 then Inl (Err ''ErrNotFoundBinID'')
     else bnd (idx (bins p) (i - 1)) (\<lambda>b. Inr (ID b)))"

definition findFirstLeft :: "PoolSimulator \<Rightarrow> 32 word \<Rightarrow> (32 word) go" where
  "findFirstLeft p binID =
     bnd (findBinArrIndex p binID) (\<lambda>i.
     if i = uint (word_of_int (int (length (bins p)) - 1) :: 32 word) then Inl (Err ''ErrNotFoundBinID'')
     else bnd (idx (bins p) (i + 1)) (\<lambda>b. Inr (ID b)))"

definition getNextNonEmptyBin :: "PoolSimulator \<Rightarrow> bool \<Rightarrow> 32 word \<Rightarrow> (32 word) go" where
  "getNextNonEmptyBin p swapForY binID = (if swapForY then findFirstRight p binID else findFirstLeft p binID)"

subsection \<open>The walk through the bins\<close>

text \<open>The local variables of \<open>getSwapOut\<close>.\<close>

record walk =
  w_id :: "32 word"
  amountInLeft :: int
  amountOut :: int
  swapFee :: int
  changes :: "binReserveChanges list"
  w_fp :: feeParameters

definition walk_result :: "walk \<Rightarrow> getSwapOutResult" where
  "walk_result w =
     \<lparr>AmountOut = amountOut w, SwapFee_o = swapFee w, BinsReserveChanges_o = changes w,
      FeeParameters_o = w_fp w, NewActiveID_o = w_id w\<rparr>"

text \<open>The swap in the bin at hand.\<close>

definition bin_swap :: "PoolSimulator \<Rightarrow> bool \<Rightarrow> walk \<Rightarrow> walk go" where
  "bin_swap p swapForY w =
     bnd (findBinArrIndex p (w_id w)) (\<lambda>binArrIdx.
     bnd (idx (bins p) binArrIdx) (\<lambda>bin.
     bnd (isEmptyForSwap bin (\<not> swapForY)) (\<lambda>emptyBin.
     if emptyBin then Inr w
     else
       bnd (getAmounts bin (w_fp w) (w_id w) swapForY (amountInLeft w))
         (\<lambda>(amountInToBin, amountOutOfBin, totalFee, _, fp).
       Inr (w\<lparr>w_fp := fp,
              swapFee := swapFee w + totalFee,
              amountInLeft := amountInLeft w - (amountInToBin + totalFee),
              amountOut := amountOut w + amountOutOfBin,
              changes := changes w @
                [newBinReserveChanges (w_id w) (\<not> swapForY) amountInToBin amountOutOfBin]\<rparr>)))))"

text \<open>One iteration of the loop: the result (\<open>Inl\<close>) or the next state (\<open>Inr\<close>).\<close>

definition walk_step :: "PoolSimulator \<Rightarrow> bool \<Rightarrow> walk \<Rightarrow> (getSwapOutResult + walk) go" where
  "walk_step p swapForY w =
     bnd (bin_swap p swapForY w) (\<lambda>w1.
     if amountInLeft w1 = 0 then Inr (Inl (walk_result w1))
     else
       bnd (getNextNonEmptyBin p swapForY (w_id w1)) (\<lambda>nextID.
       Inr (Inr (w1\<lparr>w_id := nextID\<rparr>))))"

partial_function (option) walk_loop :: "PoolSimulator \<Rightarrow> bool \<Rightarrow> walk \<Rightarrow> getSwapOutResult go option" where
  "walk_loop p swapForY w =
     (case walk_step p swapForY w of
        Inl e \<Rightarrow> Some (Inl e)
      | Inr (Inl result) \<Rightarrow> Some (Inr result)
      | Inr (Inr next) \<Rightarrow> walk_loop p swapForY next)"

declare walk_loop.simps [code]

definition walk_start :: "PoolSimulator \<Rightarrow> int \<Rightarrow> walk" where
  "walk_start p amountIn =
     \<lparr>w_id = activeBinID p, amountInLeft = amountIn, amountOut = 0, swapFee = 0, changes = [],
      w_fp = updateVariableFeeParameters (feeParams p) (blockTimestamp p) (activeBinID p)\<rparr>"

definition getSwapOut :: "PoolSimulator \<Rightarrow> bigint \<Rightarrow> bool \<Rightarrow> getSwapOutResult go option" where
  "getSwapOut p amountIn swapForY =
     (case amountIn of
        None \<Rightarrow> Some (Inl (Panic NilDereference))
      | Some a \<Rightarrow> walk_loop p swapForY (walk_start p a))"

subsection \<open>The simulator\<close>

definition NewPoolSimulator :: "(string \<Rightarrow> Extra go) \<Rightarrow> EntityPool \<Rightarrow> PoolSimulator go" where
  "NewPoolSimulator json_Unmarshal entityPool =
     (let two = (length (Reserves_e entityPool) = 2 \<and> length (Tokens_e entityPool) = 2);
          tokens = (if two then map TokenAddress (Tokens_e entityPool) else ['''', '''']);
          reserves = (if two then map NewBig10 (Reserves_e entityPool) else [None, None]) in
      bnd (json_Unmarshal (Extra_e entityPool)) (\<lambda>extra.
      Inr \<lparr>Info = \<lparr>Address = to_lower (Address_e entityPool), Exchange = Exchange_e entityPool,
                   Type = Type_e entityPool, Tokens = tokens, Reserves = reserves, SwapFee = None,
                   BlockNumber = BlockNumber_e entityPool\<rparr>,
           blockTimestamp = RpcBlockTimestamp extra, feeParams = FeeParameters extra,
           activeBinID = ActiveBinID extra, bins = Bins extra\<rparr>))"

definition validateTokens :: "PoolSimulator \<Rightarrow> string list \<Rightarrow> unit go" where
  "validateTokens p tokens =
     (if list_ex (\<lambda>t. GetTokenIndex p t < 0) tokens then Inl (Err ''ErrInvalidToken'') else Inr ())"

definition CalcAmountOut ::
    "PoolSimulator \<Rightarrow> 'l CalcAmountOutParams \<Rightarrow> SwapInfo CalcAmountOutResult go option" where
  "CalcAmountOut p param =
     (let tokenAmountIn = TokenAmountIn param; tokenOut = TokenOut param in
      case validateTokens p [Token tokenAmountIn, tokenOut] of
        Inl e \<Rightarrow> Some (Inl e)
      | Inr _ \<Rightarrow>
          (case idx (Tokens (Info p)) 0 of
             Inl e \<Rightarrow> Some (Inl e)
           | Inr t0 \<Rightarrow>
               map_option (\<lambda>m. bnd m (\<lambda>o'.
                 Inr \<lparr>TokenAmountOut = Some (token_amount tokenOut (Some (AmountOut o'))),
                      Fee = Some (token_amount (Token tokenAmountIn) (Some (SwapFee_o o'))),
                      RemainingTokenAmountIn = None,
                      Gas = baseGas + perBinGas * int (length (BinsReserveChanges_o o')),
                      SwapInfo = Some \<lparr>BinsReserveChanges = BinsReserveChanges_o o',
                                       NewFeeParameters = FeeParameters_o o',
                                       NewActiveID = NewActiveID_o o'\<rparr>\<rparr>))
                 (getSwapOut p (Amount tokenAmountIn) (Token tokenAmountIn = t0))))"

subsection \<open>Balance updates\<close>

text \<open>The loop over the total reserves.  \<open>reserve\<close> is the pointer \<open>Reserves[idx]\<close> itself, so the
  subtraction sees the addition.\<close>

fun reserve_loop ::
    "string list \<Rightarrow> int \<Rightarrow> string \<Rightarrow> bigint \<Rightarrow> string \<Rightarrow> bigint \<Rightarrow> bigint list \<Rightarrow> bigint list go" where
  "reserve_loop tokens i tokIn amtIn tokOut amtOut [] = Inr []"
| "reserve_loop tokens i tokIn amtIn tokOut amtOut (r # rs) =
     bnd (idx tokens i) (\<lambda>t.
     bnd (if equal_fold t tokIn
          then bnd (deref r) (\<lambda>x. bnd (deref amtIn) (\<lambda>a. Inr (Some (x + a)))) else Inr r) (\<lambda>r1.
     bnd (if equal_fold t tokOut
          then bnd (deref r1) (\<lambda>x. bnd (deref amtOut) (\<lambda>a. Inr (Some (x - a)))) else Inr r1) (\<lambda>r2.
     bnd (reserve_loop tokens (i + 1) tokIn amtIn tokOut amtOut rs) (\<lambda>rs'. Inr (r2 # rs')))))"

definition add_changes ::
    "(32 word \<rightharpoonup> binReserveChanges) \<Rightarrow> binReserveChanges \<Rightarrow> (32 word \<rightharpoonup> binReserveChanges)" where
  "add_changes tot b =
     (let c = (case tot (BinID b) of
                 None \<Rightarrow> \<lparr>BinID = BinID b, AmountXIn = 0, AmountXOut = 0, AmountYIn = 0, AmountYOut = 0\<rparr>
               | Some c \<Rightarrow> c)
      in tot(BinID b \<mapsto> c\<lparr>AmountXIn := AmountXIn c + AmountXIn b, AmountXOut := AmountXOut c + AmountXOut b,
                            AmountYIn := AmountYIn c + AmountYIn b, AmountYOut := AmountYOut c + AmountYOut b\<rparr>))"

definition total_changes :: "binReserveChanges list \<Rightarrow> (32 word \<rightharpoonup> binReserveChanges)" where
  "total_changes bs = foldl add_changes Map.empty bs"

definition new_bin :: "(32 word \<rightharpoonup> binReserveChanges) \<Rightarrow> Bin \<Rightarrow> Bin go" where
  "new_bin tot b =
     bnd (deref (ReserveX b)) (\<lambda>x.
     bnd (deref (ReserveY b)) (\<lambda>y.
     case tot (ID b) of
       None \<Rightarrow> Inr \<lparr>ID = ID b, ReserveX = Some x, ReserveY = Some y\<rparr>
     | Some c \<Rightarrow> Inr \<lparr>ID = ID b, ReserveX = Some (x - AmountXOut c + AmountXIn c),
                      ReserveY = Some (y - AmountYOut c + AmountYIn c)\<rparr>))"

fun new_bins :: "(32 word \<rightharpoonup> binReserveChanges) \<Rightarrow> Bin list \<Rightarrow> Bin list go" where
  "new_bins tot [] = Inr []"
| "new_bins tot (b # bs) =
     bnd (new_bin tot b) (\<lambda>nb.
     bnd (isEmpty nb) (\<lambda>e.
     bnd (new_bins tot bs) (\<lambda>nbs. Inr (if \<not> e then nb # nbs else nbs))))"

definition zero_SwapInfo :: SwapInfo where
  "zero_SwapInfo =
     \<lparr>BinsReserveChanges = [],
      NewFeeParameters = \<lparr>BinStep = 0, BaseFactor = 0, FilterPeriod = 0, DecayPeriod = 0, ReductionFactor = 0,
        VariableFeeControl = 0, ProtocolShare = 0, MaxVolatilityAccumulated = 0, VolatilityAccumulated = 0,
        VolatilityReference = 0, IndexRef = 0, Time = 0\<rparr>,
      NewActiveID = 0\<rparr>"

text \<open>A swap info of another type is logged and the zero value used.\<close>

definition UpdateBalance ::
    "PoolSimulator \<Rightarrow> (SwapInfo, 'l) UpdateBalanceParams \<Rightarrow> PoolSimulator go" where
  "UpdateBalance p params =
     (let swapInfo = (case SwapInfo_u params of Some s \<Rightarrow> s | None \<Rightarrow> zero_SwapInfo);
          input = TokenAmountIn_u params; output = TokenAmountOut_u params in
      bnd (reserve_loop (Tokens (Info p)) 0 (Token input) (Amount input) (Token output) (Amount output)
             (Reserves (Info p))) (\<lambda>rs.
      bnd (new_bins (total_changes (BinsReserveChanges swapInfo)) (bins p)) (\<lambda>newBins.
      Inr (p\<lparr>Info := (Info p)\<lparr>Reserves := rs\<rparr>, activeBinID := NewActiveID swapInfo,
             feeParams := NewFeeParameters swapInfo, bins := sort_key ID newBins\<rparr>))))"

subsection \<open>A swap in one bin\<close>

text \<open>Prices and reserves for which no intermediate product of the shift helpers leaves 256 bits; the
  contract keeps reserves in 112 bits.\<close>

definition in_range :: "int \<Rightarrow> int \<Rightarrow> bool" where
  "in_range price R = (0 < price \<and> price < 2 ^ 254 \<and> 0 \<le> R \<and> R < 2 ^ 112 \<and> R * price < 2 ^ 254)"

text \<open>What the bin pays never exceeds what it takes in at its price.\<close>

definition at_price :: "bool \<Rightarrow> int \<Rightarrow> int \<Rightarrow> int \<Rightarrow> bool" where
  "at_price swapForY price ain aout =
     (if swapForY then aout * 2 ^ 128 \<le> ain * price else aout * price \<le> ain * 2 ^ 128)"

definition max_in :: "bool \<Rightarrow> int \<Rightarrow> int \<Rightarrow> int go" where
  "max_in swapForY R price =
     (if swapForY then shiftDivRoundUp R scaleOffset price else mulShiftRoundUp R price scaleOffset)"

lemma max_in_ok:
  assumes "in_range price R"
  shows "\<exists>mx. max_in y R price = Inr mx \<and> at_price y price mx R \<and> 0 \<le> mx \<and>
    2 * mx * price < MaxUint256 + (if y then 0 else 2 * mx * price) \<and> (\<not> y \<longrightarrow> 2 * mx < 2 ^ 128)"
proof (cases y)
  case True
  obtain mx where mx: "shiftDivRoundUp R scaleOffset price = Inr mx" "R * 2 ^ 128 \<le> mx * price"
    "(mx - 1) * price < R * 2 ^ 128"
    using shiftDivRoundUp_ceil [of R price] assms by (auto simp: in_range_def)
  have "0 \<le> mx * price"
    using mx(2) assms by (simp add: in_range_def)
  then have "0 \<le> mx"
    using assms by (simp add: in_range_def zero_le_mult_iff)
  moreover have "2 * mx * price < MaxUint256"
    using mx(3) assms by (simp add: in_range_def left_diff_distrib MaxUint256_def)
  ultimately show ?thesis
    using True mx by (simp add: max_in_def at_price_def)
next
  case False
  have "R * price < MaxUint256" "0 \<le> R * price"
    using assms by (auto simp: in_range_def MaxUint256_def)
  then obtain mx where mx: "mulShiftRoundUp R price scaleOffset = Inr mx" "R * price \<le> mx * 2 ^ 128"
    "(mx - 1) * 2 ^ 128 < R * price"
    using mulShiftRoundUp_ceil [of R price] by auto
  have "0 \<le> mx * 2 ^ 128"
    using mx(2) \<open>0 \<le> R * price\<close> by linarith
  then have "0 \<le> mx" by simp
  moreover have "2 * mx < 2 ^ 128"
    using mx(3) assms by (simp add: in_range_def)
  ultimately show ?thesis
    using False mx by (simp add: max_in_def at_price_def MaxUint256_def)
qed

lemma partial_out_ok:
  assumes "0 < price" and "0 \<le> ain" and "y \<Longrightarrow> ain * price < MaxUint256" and "\<not> y \<Longrightarrow> ain < 2 ^ 128"
  shows "\<exists>o'. (if y then mulShiftRoundDown ain price scaleOffset else shiftDivRoundDown ain scaleOffset price) = Inr o'
    \<and> 0 \<le> o' \<and> at_price y price ain o'"
proof (cases y)
  case True
  then show ?thesis
    using mulShiftRoundDown_eq [of ain price] assms floor_le [of "2 ^ 128" "ain * price"]
    by (simp add: at_price_def)
next
  case False
  then show ?thesis
    using shiftDivRoundDown_eq [of ain price] assms floor_le [of price "ain * 2 ^ 128"]
    by (simp add: at_price_def)
qed

lemma at_price_less: "at_price y price ain o' \<Longrightarrow> R \<le> o' \<Longrightarrow> 0 < price \<Longrightarrow> at_price y price ain R"
  by (auto simp: at_price_def intro: order_trans [OF mult_right_mono])

lemma getAmounts_ok:
  assumes price: "getPriceFromID i (BinStep fp) = Inr price" and R: "getReserveOut b (\<not> y) = Some R"
    and range: "in_range price R" and cap: "2 * fee_cap fp \<le> precison" and a: "0 \<le> a"
  shows "\<exists>ain aout fee pf. getAmounts b fp i y a = Inr (ain, aout, fee, pf, updateVolatilityAccumulated fp i)
    \<and> 0 \<le> ain \<and> 0 \<le> fee \<and> ain + fee \<le> a \<and> 0 \<le> aout \<and> aout \<le> R \<and> at_price y price ain aout
    \<and> (ain + fee = a \<or> aout = R)"
proof -
  define fp1 where "fp1 = updateVolatilityAccumulated fp i"
  have fp1: "volatile_ok fp1" "2 * fee_cap fp1 \<le> precison"
    using cap by (simp_all add: fp1_def updateVolatility_capped)
  have pos: "0 < price" and R0: "0 \<le> R"
    using range by (auto simp: in_range_def)
  obtain mx where mx: "max_in y R price = Inr mx" "at_price y price mx R" "0 \<le> mx"
    "2 * mx * price < MaxUint256 + (if y then 0 else 2 * mx * price)" "\<not> y \<longrightarrow> 2 * mx < 2 ^ 128"
    using max_in_ok [OF range] by blast
  obtain f where f: "getFeeAmount fp1 mx = Inr f" "0 \<le> f" "f \<le> mx"
    using fee_amount_bounds [OF fp1 mx(3)] by blast
  have unfold: "getAmounts b fp i y a =
     (if mx + f \<le> a then Inr (mx, R, f, snd (getFeeAmountDistribution fp1 f), fp1)
      else
       bnd (getFeeAmount fp1 a) (\<lambda>fee.
       bnd (if y then mulShiftRoundDown (a - fee) price scaleOffset
            else shiftDivRoundDown (a - fee) scaleOffset price) (\<lambda>amountOutOfBin.
       Inr (a - fee, if amountOutOfBin > R then R else amountOutOfBin,
            fee, snd (getFeeAmountDistribution fp1 fee), fp1))))"
    using mx(1) f(1)
    by (simp add: getAmounts_def price R max_in_def fp1_def [symmetric] Let_def getFeeAmountDistribution_def)
  show ?thesis
  proof (cases "mx + f \<le> a")
    case True
    then show ?thesis
      using unfold mx f R0 by (auto simp: fp1_def)
  next
    case False
    obtain g where g: "getFeeAmount fp1 a = Inr g" "0 \<le> g" "g \<le> a"
      using fee_amount_bounds [OF fp1 a] by blast
    have lt: "a - g < 2 * mx"
      using False f g by linarith
    have "(a - g) * price \<le> 2 * mx * price"
      using lt pos by (intro mult_right_mono) auto
    then obtain o' where o': "(if y then mulShiftRoundDown (a - g) price scaleOffset
        else shiftDivRoundDown (a - g) scaleOffset price) = Inr o'" "0 \<le> o'" "at_price y price (a - g) o'"
      using partial_out_ok [OF pos, of "a - g" y] g lt mx(4,5) by force
    have "at_price y price (a - g) (if o' > R then R else o')"
      using o'(3) pos by (auto intro: at_price_less)
    then show ?thesis
      using unfold False g o'(1,2) R0 by (auto simp: fp1_def)
  qed
qed

end
