(* ===== verification/Liquidity_Book_Walk.thy ===== *)
theory Liquidity_Book_Walk
  imports Liquidity_Book
begin

text \<open>
  The walk of a swap through the bins: the binary search finds every bin, the walk visits each bin
  at most once and always ends, and what it collects accounts for the whole input.
\<close>

subsection \<open>Binary search\<close>

definition sorted_bins :: "Bin list \<Rightarrow> bool" where
  "sorted_bins bs = (sorted_wrt (<) (map ID bs) \<and> length bs < 2 ^ 32)"

lemma sorted_bins_less: "sorted_bins bs \<Longrightarrow> i < j \<Longrightarrow> j < length bs \<Longrightarrow> ID (bs ! i) < ID (bs ! j)"
  by (auto simp: sorted_bins_def sorted_wrt_iff_nth_less)

lemma sorted_bins_inj:
  "sorted_bins bs \<Longrightarrow> i < length bs \<Longrightarrow> j < length bs \<Longrightarrow> ID (bs ! i) = ID (bs ! j) \<Longrightarrow> i = j"
  by (metis less_irrefl linorder_neqE_nat sorted_bins_less)

text \<open>The search ends between two neighbours that enclose the identifier.\<close>

lemma search_loop_ok:
  assumes "0 \<le> l" and "l < r" and "r \<le> int (length bs)"
    and "l = 0 \<or> ID (bs ! nat l) \<le> i" and "r = int (length bs) \<or> i < ID (bs ! nat r)"
  shows "\<exists>k < length bs. search_loop bs i l r = Inr (int k) \<and> (k = 0 \<or> ID (bs ! k) \<le> i) \<and>
    (Suc k = length bs \<or> i < ID (bs ! Suc k))"
  using assms
proof (induction bs i l r rule: search_loop.induct)
  case (1 bs i l r)
  show ?case
  proof (cases "r - l > 1")
    case False
    then have r: "r = l + 1" using "1.prems" by linarith
    then have "nat r = Suc (nat l)" using "1.prems" by (simp add: nat_add_distrib)
    moreover have "search_loop bs i l r = Inr l"
      using False by (subst search_loop.simps) simp
    ultimately show ?thesis
      using "1.prems" r by (intro exI [of _ "nat l"]) auto
  next
    case True
    define m where "m = (r + l) div 2"
    have m: "l < m" "m < r" using True by (auto simp: m_def)
    then have ix: "idx bs m = Inr (bs ! nat m)"
      using "1.prems" by simp
    have step: "search_loop bs i l r = (if ID (bs ! nat m) \<le> i then search_loop bs i m r else search_loop bs i l m)"
      using True ix by (subst search_loop.simps) (simp add: m_def)
    show ?thesis
    proof (cases "ID (bs ! nat m) \<le> i")
      case le: True
      show ?thesis
        unfolding step using "1.IH"(1) [OF True m_def ix le] "1.prems" m le by simp
    next
      case gt: False
      show ?thesis
        unfolding step using "1.IH"(2) [OF True m_def ix gt] "1.prems" m gt by simp
    qed
  qed
qed

lemma uint_index: "k < 2 ^ 32 \<Longrightarrow> uint (word_of_int (int k) :: 32 word) = int k"
  by (simp add: unsigned_of_nat take_bit_nat_eq_self_iff)

text \<open>The position the search stops at is the only candidate.\<close>

lemma find_candidate:
  assumes "sorted_bins (bins p)" and "bins p \<noteq> []"
  obtains k where "k < length (bins p)"
    "findBinArrIndex p i = (if ID (bins p ! k) \<noteq> i then Inl (Err ''ErrNotFoundBinID'') else Inr (int k))"
    "\<forall>j < length (bins p). ID (bins p ! j) = i \<longrightarrow> j = k"
proof -
  obtain k where k: "k < length (bins p)" "search_loop (bins p) i 0 (int (length (bins p))) = Inr (int k)"
    "k = 0 \<or> ID (bins p ! k) \<le> i" "Suc k = length (bins p) \<or> i < ID (bins p ! Suc k)"
    using search_loop_ok [of 0 "int (length (bins p))" "bins p" i] assms(2) by auto
  have eq: "findBinArrIndex p i = (if ID (bins p ! k) \<noteq> i then Inl (Err ''ErrNotFoundBinID'') else Inr (int k))"
    using assms k(1,2) uint_index [of k] by (simp add: findBinArrIndex_def sorted_bins_def)
  have "j = k" if "j < length (bins p)" "ID (bins p ! j) = i" for j
  proof (rule ccontr)
    assume "j \<noteq> k"
    then consider "j < k" | "k < j" by linarith
    then show False
    proof cases
      case 1
      then show ?thesis using sorted_bins_less [OF assms(1) 1 k(1)] k(3) that by auto
    next
      case 2
      then have "ID (bins p ! Suc k) \<le> i"
        using sorted_bins_less [OF assms(1), of "Suc k" j] that by (cases "Suc k = j") auto
      with 2 that k(4) show ?thesis by auto
    qed
  qed
  with k(1) eq show thesis by (intro that) auto
qed

lemma find_at:
  assumes "sorted_bins (bins p)" and "k < length (bins p)"
  shows "findBinArrIndex p (ID (bins p ! k)) = Inr (int k)"
proof -
  have "bins p \<noteq> []" using assms(2) by auto
  then obtain j where j: "j < length (bins p)" "findBinArrIndex p (ID (bins p ! k)) =
      (if ID (bins p ! j) \<noteq> ID (bins p ! k) then Inl (Err ''ErrNotFoundBinID'') else Inr (int j))"
    "\<forall>i < length (bins p). ID (bins p ! i) = ID (bins p ! k) \<longrightarrow> i = j"
    by (rule find_candidate [OF assms(1), of "ID (bins p ! k)"])
  show ?thesis
    using j(2,3) assms(2) by auto
qed

lemma find_none:
  assumes "sorted_bins (bins p)" and "i \<notin> ID ` set (bins p)"
  shows "findBinArrIndex p i = Inl (Err ''ErrNotFoundBinID'')"
proof (cases "bins p = []")
  case True
  then show ?thesis by (simp add: findBinArrIndex_def)
next
  case False
  then obtain j where "j < length (bins p)"
    "findBinArrIndex p i = (if ID (bins p ! j) \<noteq> i then Inl (Err ''ErrNotFoundBinID'') else Inr (int j))"
    "\<forall>k < length (bins p). ID (bins p ! k) = i \<longrightarrow> k = j"
    by (rule find_candidate [OF assms(1), of i])
  moreover from this assms(2) have "ID (bins p ! j) \<noteq> i"
    by (metis image_eqI nth_mem)
  ultimately show ?thesis by simp
qed

text \<open>In a pool with sorted bins the binary search finds exactly the bins that exist: it returns the
  position of every bin by its identifier, and the error for every other identifier.\<close>

theorem lb_find_bin:
  assumes "sorted_bins (bins p)"
  shows "(\<forall>k < length (bins p). findBinArrIndex p (ID (bins p ! k)) = Inr (int k)) \<and>
    (\<forall>i. i \<notin> ID ` set (bins p) \<longrightarrow> findBinArrIndex p i = Inl (Err ''ErrNotFoundBinID''))"
  using assms by (simp add: find_at find_none)

text \<open>The neighbours of a bin.\<close>

lemma right_bin:
  assumes "sorted_bins (bins p)" and "k < length (bins p)"
  shows "getNextNonEmptyBin p True (ID (bins p ! k)) =
      (if k = 0 then Inl (Err ''ErrNotFoundBinID'') else Inr (ID (bins p ! (k - 1))))"
proof (cases k)
  case 0
  then show ?thesis
    using find_at [OF assms] by (simp add: getNextNonEmptyBin_def findFirstRight_def)
next
  case (Suc j)
  then have "idx (bins p) (int k - 1) = Inr (bins p ! j)"
    using assms(2) by (simp add: idx_def)
  then show ?thesis
    using find_at [OF assms] Suc by (simp add: getNextNonEmptyBin_def findFirstRight_def)
qed

lemma left_bin:
  assumes "sorted_bins (bins p)" and "k < length (bins p)"
  shows "getNextNonEmptyBin p False (ID (bins p ! k)) =
      (if Suc k = length (bins p) then Inl (Err ''ErrNotFoundBinID'') else Inr (ID (bins p ! Suc k)))"
proof -
  define n where "n = uint (word_of_int (int (length (bins p)) - 1) :: 32 word)"
  have len: "int (length (bins p)) - 1 = int (length (bins p) - 1)" and l: "length (bins p) - 1 < 2 ^ 32"
    using assms by (auto simp: sorted_bins_def)
  have n: "n = int (length (bins p) - 1)"
    unfolding n_def len by (rule uint_index [OF l])
  have eq: "getNextNonEmptyBin p False (ID (bins p ! k)) =
      (if int k = n then Inl (Err ''ErrNotFoundBinID'')
       else bnd (idx (bins p) (int k + 1)) (\<lambda>b. Inr (ID b)))"
    by (simp only: getNextNonEmptyBin_def findFirstLeft_def find_at [OF assms] bnd_Inr n_def if_False)
  show ?thesis
  proof (cases "Suc k = length (bins p)")
    case True
    then have "int k = n" using n by linarith
    with eq True show ?thesis by simp
  next
    case False
    then have "int k \<noteq> n" using assms(2) n by linarith
    moreover have "idx (bins p) (int k + 1) = Inr (bins p ! Suc k)"
      using False assms(2) by (simp add: idx_def nat_add_distrib)
    ultimately show ?thesis using eq False by simp
  qed
qed

subsection \<open>Pools in range\<close>

text \<open>Sorted bins whose reserves and prices keep the shift helpers within 256 bits, and parameters that
  cap the fee at one half.\<close>

definition bin_ok :: "16 word \<Rightarrow> Bin \<Rightarrow> bool" where
  "bin_ok step b = (case (ReserveX b, ReserveY b, getPriceFromID (ID b) step) of
     (Some x, Some y, Inr price) \<Rightarrow> in_range price x \<and> in_range price y
   | _ \<Rightarrow> False)"

definition lb_ok :: "PoolSimulator \<Rightarrow> bool" where
  "lb_ok p = (sorted_bins (bins p) \<and> list_all (bin_ok (BinStep (feeParams p))) (bins p) \<and>
     2 * fee_cap (feeParams p) \<le> precison)"

definition price_of :: "PoolSimulator \<Rightarrow> Bin \<Rightarrow> int" where
  "price_of p b = (case getPriceFromID (ID b) (BinStep (feeParams p)) of Inr price \<Rightarrow> price | Inl _ \<Rightarrow> 0)"

definition reserve_out :: "bool \<Rightarrow> Bin \<Rightarrow> int" where
  "reserve_out swapForY b = the (if swapForY then ReserveY b else ReserveX b)"

definition in_of :: "bool \<Rightarrow> binReserveChanges \<Rightarrow> int" where
  "in_of swapForY c = (if swapForY then AmountXIn c else AmountYIn c)"

definition out_of :: "bool \<Rightarrow> binReserveChanges \<Rightarrow> int" where
  "out_of swapForY c = (if swapForY then AmountYOut c else AmountXOut c)"

text \<open>A recorded change belongs to its bin: it pays at most the bin's reserve and at most its price.\<close>

definition change_ok :: "PoolSimulator \<Rightarrow> bool \<Rightarrow> Bin \<Rightarrow> binReserveChanges \<Rightarrow> bool" where
  "change_ok p y b c =
     (c = newBinReserveChanges (ID b) (\<not> y) (in_of y c) (out_of y c) \<and> 0 \<le> in_of y c \<and> 0 \<le> out_of y c \<and>
      out_of y c \<le> reserve_out y b \<and> at_price y (price_of p b) (in_of y c) (out_of y c) \<and>
      0 < price_of p b \<and> 0 < reserve_out y b)"

lemma new_change_simps [simp]:
  "BinID (newBinReserveChanges i (\<not> y) a o') = i"
  "in_of y (newBinReserveChanges i (\<not> y) a o') = a"
  "out_of y (newBinReserveChanges i (\<not> y) a o') = o'"
  by (simp_all add: newBinReserveChanges_def in_of_def out_of_def)

lemma change_ok_ID: "change_ok p y b c \<Longrightarrow> BinID c = ID b"
  unfolding change_ok_def by (metis new_change_simps(1))

lemma lb_okE:
  assumes "lb_ok p" and "k < length (bins p)"
  obtains x r price where "getReserveOut (bins p ! k) (\<not> y) = Some r" "r = reserve_out y (bins p ! k)"
    "getPriceFromID (ID (bins p ! k)) (BinStep (feeParams p)) = Inr price" "price = price_of p (bins p ! k)"
    "in_range price r" "isEmptyForSwap (bins p ! k) (\<not> y) = Inr (r = 0)"
proof -
  have "bin_ok (BinStep (feeParams p)) (bins p ! k)"
    using assms by (simp add: lb_ok_def list_all_length)
  then show thesis
    by (intro that)
       (auto simp: bin_ok_def getReserveOut_def reserve_out_def price_of_def isEmptyForSwap_def
         split: option.splits sum.splits)
qed

subsection \<open>The invariant of the walk\<close>

text \<open>At position \<open>k\<close>: what is left of the input, the fees and what the bins took in add up to the
  input; the output is what the bins paid; the bins used so far lie behind.\<close>

definition walk_inv :: "PoolSimulator \<Rightarrow> bool \<Rightarrow> int \<Rightarrow> (nat \<Rightarrow> nat \<Rightarrow> bool) \<Rightarrow> nat \<Rightarrow> walk \<Rightarrow> bool" where
  "walk_inv p y A behind k w =
     (w_id w = ID (bins p ! k) \<and> k < length (bins p) \<and>
      BinStep (w_fp w) = BinStep (feeParams p) \<and> fee_cap (w_fp w) = fee_cap (feeParams p) \<and>
      0 \<le> amountInLeft w \<and> 0 \<le> swapFee w \<and>
      amountInLeft w + swapFee w + sum_list (map (in_of y) (changes w)) = A \<and>
      amountOut w = sum_list (map (out_of y) (changes w)) \<and>
      distinct (map BinID (changes w)) \<and>
      (\<forall>c \<in> set (changes w). \<exists>j < length (bins p). change_ok p y (bins p ! j) c \<and> behind k j))"

definition before :: "bool \<Rightarrow> nat \<Rightarrow> nat \<Rightarrow> bool" where
  "before y k j = (if y then k < j else j < k)"

definition before_eq :: "bool \<Rightarrow> nat \<Rightarrow> nat \<Rightarrow> bool" where
  "before_eq y k j = (if y then k \<le> j else j \<le> k)"

lemma walk_inv_behind:
  assumes "walk_inv p y A (before y) k w"
  shows "walk_inv p y A (before_eq y) k w"
proof -
  have "\<And>j. before y k j \<Longrightarrow> before_eq y k j"
    by (auto simp: before_def before_eq_def)
  with assms show ?thesis
    unfolding walk_inv_def by blast
qed

lemma walk_inv_next:
  assumes "walk_inv p y A (before_eq y) k w" and "k' < length (bins p)"
    and "if y then Suc k' = k else k' = Suc k"
  shows "walk_inv p y A (before y) k' (w\<lparr>w_id := ID (bins p ! k')\<rparr>)"
proof -
  have "\<And>j. before_eq y k j \<Longrightarrow> before y k' j"
    using assms(3) by (auto simp: before_def before_eq_def split: if_splits)
  with assms(1,2) show ?thesis
    unfolding walk_inv_def by (simp; blast)
qed

lemma bin_swap_inv:
  assumes ok: "lb_ok p" and inv: "walk_inv p y A (before y) k w"
  shows "\<exists>w1. bin_swap p y w = Inr w1 \<and> walk_inv p y A (before_eq y) k w1 \<and>
    (amountInLeft w1 = amountInLeft w \<and> changes w1 = changes w \<or>
     (\<exists>c. changes w1 = changes w @ [c] \<and> BinID c = w_id w))"
proof -
  define b where "b = bins p ! k"
  from inv have k: "k < length (bins p)" and wid: "w_id w = ID b"
    by (auto simp: walk_inv_def b_def)
  have sorted: "sorted_bins (bins p)" and cap: "2 * fee_cap (w_fp w) \<le> precison"
    using ok inv by (auto simp: lb_ok_def walk_inv_def)
  obtain r price where r: "getReserveOut b (\<not> y) = Some r" "r = reserve_out y b"
    and price: "getPriceFromID (ID b) (BinStep (w_fp w)) = Inr price" "price = price_of p b"
    and range: "in_range price r" and empty: "isEmptyForSwap b (\<not> y) = Inr (r = 0)"
    using lb_okE [OF ok k, of y] inv unfolding b_def walk_inv_def by metis
  have unfold: "bin_swap p y w = (if r = 0 then Inr w else
       bnd (getAmounts b (w_fp w) (ID b) y (amountInLeft w)) (\<lambda>(amountInToBin, amountOutOfBin, totalFee, _, fp).
       Inr (w\<lparr>w_fp := fp, swapFee := swapFee w + totalFee,
              amountInLeft := amountInLeft w - (amountInToBin + totalFee),
              amountOut := amountOut w + amountOutOfBin,
              changes := changes w @ [newBinReserveChanges (ID b) (\<not> y) amountInToBin amountOutOfBin]\<rparr>)))"
    using k find_at [OF sorted k] empty by (simp add: bin_swap_def wid b_def)
  show ?thesis
  proof (cases "r = 0")
    case True
    then show ?thesis
      using unfold True walk_inv_behind [OF inv] by simp
  next
    case False
    then have pos: "0 < r" "0 < price" using range by (auto simp: in_range_def)
    obtain ain aout fee pf where get: "getAmounts b (w_fp w) (ID b) y (amountInLeft w) =
        Inr (ain, aout, fee, pf, updateVolatilityAccumulated (w_fp w) (ID b))"
      "0 \<le> ain" "0 \<le> fee" "ain + fee \<le> amountInLeft w" "0 \<le> aout" "aout \<le> r" "at_price y price ain aout"
      using getAmounts_ok [OF price(1) r(1) range cap, of "amountInLeft w"] inv by (auto simp: walk_inv_def)
    define c where "c = newBinReserveChanges (ID b) (\<not> y) ain aout"
    have c: "change_ok p y b c"
      using get r(2) price(2) pos by (simp add: change_ok_def c_def)
    have fresh: "ID b \<notin> BinID ` set (changes w)"
    proof
      assume "ID b \<in> BinID ` set (changes w)"
      then obtain c' j where "c' \<in> set (changes w)" "BinID c' = ID b" "j < length (bins p)"
        "change_ok p y (bins p ! j) c'" "before y k j"
        using inv by (auto simp: walk_inv_def)
      then show False
        using sorted_bins_inj [OF sorted _ k, of j] change_ok_ID by (auto simp: b_def before_def split: if_splits)
    qed
    have vals: "BinID c = ID b" "in_of y c = ain" "out_of y c = aout"
      by (simp_all add: c_def)
    have here: "\<exists>j < length (bins p). change_ok p y (bins p ! j) c \<and> before_eq y k j"
      using k c by (intro exI [of _ k]) (simp add: b_def before_eq_def)
    have inv': "walk_inv p y A (before_eq y) k w"
      using inv by (rule walk_inv_behind)
    define w1 where "w1 = w\<lparr>w_fp := updateVolatilityAccumulated (w_fp w) (ID b), swapFee := swapFee w + fee,
      amountInLeft := amountInLeft w - (ain + fee), amountOut := amountOut w + aout, changes := changes w @ [c]\<rparr>"
    have "bin_swap p y w = Inr w1"
      using unfold False get(1) by (simp add: w1_def c_def)
    moreover have "walk_inv p y A (before_eq y) k w1"
      using inv' here fresh vals get(3,4) by (simp add: walk_inv_def w1_def)
    moreover have "changes w1 = changes w @ [c] \<and> BinID c = w_id w"
      by (simp add: w1_def vals wid)
    ultimately show ?thesis by blast
  qed
qed


subsection \<open>The walk ends\<close>

text \<open>What a finished walk returns.\<close>

definition result_ok :: "PoolSimulator \<Rightarrow> bool \<Rightarrow> int \<Rightarrow> getSwapOutResult \<Rightarrow> bool" where
  "result_ok p y A r =
     (0 \<le> SwapFee_o r \<and> SwapFee_o r + sum_list (map (in_of y) (BinsReserveChanges_o r)) = A \<and>
      AmountOut r = sum_list (map (out_of y) (BinsReserveChanges_o r)) \<and>
      distinct (map BinID (BinsReserveChanges_o r)) \<and>
      (\<forall>c \<in> set (BinsReserveChanges_o r). \<exists>b \<in> set (bins p). change_ok p y b c) \<and>
      BinStep (FeeParameters_o r) = BinStep (feeParams p) \<and>
      fee_cap (FeeParameters_o r) = fee_cap (feeParams p) \<and>
      NewActiveID_o r \<in> ID ` set (bins p) \<and>
      (0 < A \<longrightarrow> NewActiveID_o r \<in> BinID ` set (BinsReserveChanges_o r)))"

lemma walk_result_ok:
  assumes "walk_inv p y A (before_eq y) k w" and "amountInLeft w = 0"
    and "0 < A \<longrightarrow> w_id w \<in> BinID ` set (changes w)"
  shows "result_ok p y A (walk_result w)"
  using assms unfolding walk_inv_def result_ok_def walk_result_def by (auto; metis nth_mem)

lemma walk_loop_ok:
  assumes "lb_ok p" and "walk_inv p y A (before y) k w" and "0 < A \<longrightarrow> amountInLeft w \<noteq> 0"
  shows "\<exists>m. walk_loop p y w = Some m \<and>
    ((\<exists>r. m = Inr r \<and> result_ok p y A r) \<or> m = Inl (Err ''ErrNotFoundBinID''))"
  using assms(2,3)
proof (induction "if y then k else length (bins p) - k" arbitrary: k w rule: less_induct)
  case less
  have sorted: "sorted_bins (bins p)" using assms(1) by (simp add: lb_ok_def)
  have k: "k < length (bins p)" using less.prems(1) by (simp add: walk_inv_def)
  obtain w1 where w1: "bin_swap p y w = Inr w1" and inv1: "walk_inv p y A (before_eq y) k w1"
    and chg: "amountInLeft w1 = amountInLeft w \<and> changes w1 = changes w \<or>
     (\<exists>c. changes w1 = changes w @ [c] \<and> BinID c = w_id w)"
    using bin_swap_inv [OF assms(1) less.prems(1)] by blast
  have id1: "w_id w1 = ID (bins p ! k)" "w_id w = ID (bins p ! k)"
    using inv1 less.prems(1) by (auto simp: walk_inv_def)
  show ?case
  proof (cases "amountInLeft w1 = 0")
    case True
    then have "0 < A \<longrightarrow> w_id w1 \<in> BinID ` set (changes w1)"
      using chg less.prems(2) id1 by auto
    then have "result_ok p y A (walk_result w1)"
      using walk_result_ok [OF inv1 True] by simp
    with True w1 show ?thesis
      by (subst walk_loop.simps) (simp add: walk_step_def)
  next
    case False
    define next' where "next' = getNextNonEmptyBin p y (ID (bins p ! k))"
    have "next' = Inl (Err ''ErrNotFoundBinID'') \<or> (\<exists>k' < length (bins p). next' = Inr (ID (bins p ! k'))
        \<and> (if y then Suc k' = k else k' = Suc k))"
      using right_bin [OF sorted k] left_bin [OF sorted k] k
      by (cases y) (auto simp: next'_def split: if_splits intro: exI [of _ "k - 1"])
    then show ?thesis
    proof (elim disjE exE conjE)
      assume "next' = Inl (Err ''ErrNotFoundBinID'')"
      with False w1 id1 show ?thesis
        by (subst walk_loop.simps) (simp add: walk_step_def next'_def)
    next
      fix k'
      assume k': "k' < length (bins p)" and nx: "next' = Inr (ID (bins p ! k'))"
        and adj: "if y then Suc k' = k else k' = Suc k"
      have step: "walk_loop p y w = walk_loop p y (w1\<lparr>w_id := ID (bins p ! k')\<rparr>)"
        using False w1 id1 nx by (subst walk_loop.simps) (simp add: walk_step_def next'_def)
      have "walk_inv p y A (before y) k' (w1\<lparr>w_id := ID (bins p ! k')\<rparr>)"
        using inv1 k' adj by (rule walk_inv_next)
      then show ?thesis
        unfolding step using adj k k' False by (intro less.hyps) (auto split: if_splits)
    qed
  qed
qed


subsection \<open>Quotes\<close>

lemma walk_start_inv:
  assumes "0 \<le> A" and "k < length (bins p)" and "activeBinID p = ID (bins p ! k)"
  shows "walk_inv p y A (before y) k (walk_start p A)"
  using assms by (simp add: walk_inv_def walk_start_def)

lemma getSwapOut_ok:
  assumes "lb_ok p" and "0 \<le> A"
  shows "\<exists>m. getSwapOut p (Some A) y = Some m \<and>
    ((\<exists>r. m = Inr r \<and> result_ok p y A r) \<or> m = Inl (Err ''ErrNotFoundBinID''))"
proof (cases "activeBinID p \<in> ID ` set (bins p)")
  case True
  then obtain k where k: "k < length (bins p)" "activeBinID p = ID (bins p ! k)"
    by (auto simp: in_set_conv_nth)
  show ?thesis
    using walk_loop_ok [OF assms(1) walk_start_inv [OF assms(2) k], of y]
    by (simp add: getSwapOut_def walk_start_def)
next
  case False
  then have "findBinArrIndex p (activeBinID p) = Inl (Err ''ErrNotFoundBinID'')"
    using assms(1) by (intro find_none) (auto simp: lb_ok_def)
  then have "walk_step p y (walk_start p A) = Inl (Err ''ErrNotFoundBinID'')"
    by (simp add: walk_step_def bin_swap_def walk_start_def)
  then have "walk_loop p y (walk_start p A) = Some (Inl (Err ''ErrNotFoundBinID''))"
    by (subst walk_loop.simps) simp
  then show ?thesis
    by (simp add: getSwapOut_def)
qed

text \<open>C4: a quote on a pool in range always returns: the walk through the bins ends, nothing panics, and
  the only errors are a token the pool does not hold and a lack of liquidity.\<close>

theorem lb_quote_returns:
  assumes "lb_ok p" and "Amount (TokenAmountIn q) = Some a" and "0 \<le> a" and "Tokens (Info p) \<noteq> []"
  shows "\<exists>m. CalcAmountOut p q = Some m \<and>
    ((\<exists>r. m = Inr r) \<or> m \<in> {Inl (Err ''ErrInvalidToken''), Inl (Err ''ErrNotFoundBinID'')})"
proof -
  obtain t0 ts where t: "Tokens (Info p) = t0 # ts" using assms(4) by (cases "Tokens (Info p)") auto
  obtain m where "getSwapOut p (Some a) (Token (TokenAmountIn q) = t0) = Some m"
    "(\<exists>r. m = Inr r) \<or> m = Inl (Err ''ErrNotFoundBinID'')"
    using getSwapOut_ok [OF assms(1,3)] by blast
  then show ?thesis
    using assms(2) t by (auto simp: CalcAmountOut_def Let_def validateTokens_def idx_def)
qed

text \<open>The direction of a request.\<close>

definition for_y :: "PoolSimulator \<Rightarrow> 'l CalcAmountOutParams \<Rightarrow> bool" where
  "for_y p q = (Token (TokenAmountIn q) = hd (Tokens (Info p)))"

lemma quote_result:
  assumes "lb_ok p" and "Amount (TokenAmountIn q) = Some a" and "0 \<le> a" and "CalcAmountOut p q = Some (Inr r)"
  shows "\<exists>o' info. result_ok p (for_y p q) a o' \<and> SwapInfo r = Some info \<and>
    BinsReserveChanges info = BinsReserveChanges_o o' \<and> NewFeeParameters info = FeeParameters_o o' \<and>
    NewActiveID info = NewActiveID_o o' \<and>
    TokenAmountOut r = Some (token_amount (TokenOut q) (Some (AmountOut o'))) \<and>
    Fee r = Some (token_amount (Token (TokenAmountIn q)) (Some (SwapFee_o o'))) \<and>
    GetTokenIndex p (Token (TokenAmountIn q)) \<ge> 0 \<and> GetTokenIndex p (TokenOut q) \<ge> 0"
proof -
  obtain t0 ts where t: "Tokens (Info p) = t0 # ts"
    using assms(4) by (cases "Tokens (Info p)") (auto simp: CalcAmountOut_def Let_def idx_def split: sum.splits)
  obtain m where m: "getSwapOut p (Some a) (for_y p q) = Some m"
    "(\<exists>o'. m = Inr o' \<and> result_ok p (for_y p q) a o') \<or> m = Inl (Err ''ErrNotFoundBinID'')"
    using getSwapOut_ok [OF assms(1,3)] by blast
  then show ?thesis
    using assms(2,4) t
    by (auto simp: CalcAmountOut_def Let_def validateTokens_def idx_def for_y_def bnd_eq_Inr split: sum.splits if_splits)
qed

text \<open>C5: a quote accounts for the whole input and pays no bin below its price: what the bins take in and
  the fee add up to the input, the output is what the bins pay, every bin is used at most once, pays
  at most its reserve and at most what its price gives for what it takes in.\<close>

theorem lb_quote_accounts:
  assumes "lb_ok p" and "Amount (TokenAmountIn q) = Some a" and "0 \<le> a" and "CalcAmountOut p q = Some (Inr r)"
  shows "\<exists>info out fee. SwapInfo r = Some info \<and> TokenAmountOut r = Some (token_amount (TokenOut q) (Some out)) \<and>
    Fee r = Some (token_amount (Token (TokenAmountIn q)) (Some fee)) \<and> 0 \<le> fee \<and>
    fee + sum_list (map (in_of (for_y p q)) (BinsReserveChanges info)) = a \<and>
    out = sum_list (map (out_of (for_y p q)) (BinsReserveChanges info)) \<and>
    distinct (map BinID (BinsReserveChanges info)) \<and>
    (\<forall>c \<in> set (BinsReserveChanges info). \<exists>b \<in> set (bins p). change_ok p (for_y p q) b c)"
  using quote_result [OF assms] unfolding result_ok_def by auto

end
