(* ===== verification/Liquidity_Book_Swaps.thy ===== *)
theory Liquidity_Book_Swaps
  imports Liquidity_Book_Walk
begin

text \<open>
  Applying the swaps of a liquidity book: what \<open>UpdateBalance\<close> does to the bins, and the invariant no
  sequence of swaps breaks.
\<close>

subsection \<open>The changes of a swap\<close>

abbreviation changes_map :: "binReserveChanges list \<Rightarrow> (32 word \<rightharpoonup> binReserveChanges)" where
  "changes_map cs \<equiv> map_of (map (\<lambda>c. (BinID c, c)) cs)"

lemma total_changes_eq:
  assumes "distinct (map BinID cs)"
  shows "total_changes cs = changes_map cs"
  using assms
proof (induction cs rule: rev_induct)
  case Nil
  then show ?case by (simp add: total_changes_def)
next
  case (snoc c cs)
  then have new: "changes_map cs (BinID c) = None"
    by (simp add: map_of_eq_None_iff image_image)
  have "total_changes (cs @ [c]) = add_changes (changes_map cs) c"
    using snoc by (simp add: total_changes_def)
  also have "\<dots> = (changes_map cs)(BinID c \<mapsto> c)"
    unfolding add_changes_def new by (cases c) (simp add: Let_def)
  also have "\<dots> = changes_map (cs @ [c])"
    using new by (auto simp: fun_eq_iff map_add_def split: option.splits)
  finally show ?case .
qed

definition x_of :: "Bin \<Rightarrow> int" where
  "x_of b = the (ReserveX b)"

definition y_of :: "Bin \<Rightarrow> int" where
  "y_of b = the (ReserveY b)"

definition dx :: "binReserveChanges \<Rightarrow> int" where
  "dx c = AmountXIn c - AmountXOut c"

definition dy :: "binReserveChanges \<Rightarrow> int" where
  "dy c = AmountYIn c - AmountYOut c"

definition change_at :: "(32 word \<rightharpoonup> binReserveChanges) \<Rightarrow> (binReserveChanges \<Rightarrow> int) \<Rightarrow> 32 word \<Rightarrow> int" where
  "change_at m g i = (case m i of None \<Rightarrow> 0 | Some c \<Rightarrow> g c)"

definition upd_bin :: "(32 word \<rightharpoonup> binReserveChanges) \<Rightarrow> Bin \<Rightarrow> Bin" where
  "upd_bin m b = \<lparr>ID = ID b, ReserveX = Some (x_of b + change_at m dx (ID b)),
                  ReserveY = Some (y_of b + change_at m dy (ID b))\<rparr>"

definition present :: "Bin \<Rightarrow> bool" where
  "present b = (ReserveX b \<noteq> None \<and> ReserveY b \<noteq> None)"

lemma upd_bin_simps [simp]:
  "ID (upd_bin m b) = ID b" "x_of (upd_bin m b) = x_of b + change_at m dx (ID b)"
  "y_of (upd_bin m b) = y_of b + change_at m dy (ID b)" "present (upd_bin m b)"
  by (simp_all add: upd_bin_def x_of_def y_of_def present_def)

lemma new_bins_eq:
  assumes "\<forall>b \<in> set bs. present b"
  shows "new_bins m bs = Inr (filter (\<lambda>b. x_of b \<noteq> 0 \<or> y_of b \<noteq> 0) (map (upd_bin m) bs))"
  using assms
proof (induction bs)
  case Nil
  then show ?case by simp
next
  case (Cons b bs)
  then obtain x y where xy: "ReserveX b = Some x" "ReserveY b = Some y"
    by (auto simp: present_def)
  have nb: "new_bin m b = Inr (upd_bin m b)"
    by (simp add: new_bin_def xy upd_bin_def change_at_def x_of_def y_of_def dx_def dy_def split: option.splits)
  have "isEmpty (upd_bin m b) = Inr (x_of (upd_bin m b) = 0 \<and> y_of (upd_bin m b) = 0)"
    by (simp add: isEmpty_def upd_bin_def x_of_def y_of_def)
  with Cons nb show ?case by simp
qed

lemma sum_nonzero: "sum_list (map x_of (filter (\<lambda>b. x_of b \<noteq> 0 \<or> y_of b \<noteq> 0) bs)) = sum_list (map x_of bs)"
  "sum_list (map y_of (filter (\<lambda>b. x_of b \<noteq> 0 \<or> y_of b \<noteq> 0) bs)) = sum_list (map y_of bs)"
  by (induction bs) auto

text \<open>Every change falls on exactly one bin.\<close>

lemma sum_changes:
  assumes "distinct (map ID bs)" and "distinct (map BinID cs)" and "BinID ` set cs \<subseteq> ID ` set bs"
  shows "sum_list (map (\<lambda>b. change_at (changes_map cs) g (ID b)) bs) = sum_list (map g cs)"
proof -
  define h where "h = change_at (changes_map cs) g"
  have cs: "h (BinID c) = g c" if "c \<in> set cs" for c
    using assms(2) that by (simp add: h_def change_at_def map_of_eq_Some_iff o_def image_iff)
  have out: "h i = 0" if "i \<notin> BinID ` set cs" for i
  proof -
    have "changes_map cs i = None"
      using that by (simp add: map_of_eq_None_iff image_image)
    then show ?thesis by (simp add: h_def change_at_def)
  qed
  have "sum_list (map (\<lambda>b. h (ID b)) bs) = sum_list (map h (map ID bs))"
    by (simp add: o_def)
  also have "\<dots> = sum h (ID ` set bs)"
    using assms(1) by (simp only: sum_list_distinct_conv_sum_set set_map)
  also have "\<dots> = sum h (BinID ` set cs)"
    using assms(3) out by (intro sum.mono_neutral_right) auto
  also have "\<dots> = sum_list (map h (map BinID cs))"
    using assms(2) by (simp only: sum_list_distinct_conv_sum_set set_map)
  also have "\<dots> = sum_list (map g cs)"
    using cs by (simp add: o_def cong: map_cong)
  finally show ?thesis by (simp add: h_def)
qed

lemma sorted_upd:
  assumes "sorted_bins bs"
  shows "sorted_bins (filter P (map (upd_bin m) bs))" and "sort_key ID (filter P (map (upd_bin m) bs)) = filter P (map (upd_bin m) bs)"
proof -
  have "sorted_wrt (\<lambda>a b. ID a < ID b) bs"
    using assms by (simp add: sorted_bins_def sorted_wrt_map)
  then have "sorted_wrt (\<lambda>a b. ID a < ID b) (map (upd_bin m) bs)"
    by (simp add: sorted_wrt_map)
  then have s: "sorted_wrt (\<lambda>a b. ID a < ID b) (filter P (map (upd_bin m) bs))"
    by (rule sorted_wrt_filter)
  moreover have "length (filter P (map (upd_bin m) bs)) < 2 ^ 32"
    using assms by (auto simp: sorted_bins_def intro: le_less_trans [OF length_filter_le])
  ultimately show "sorted_bins (filter P (map (upd_bin m) bs))"
    by (simp add: sorted_bins_def sorted_wrt_map)
  have "sorted_wrt (\<lambda>a b. ID a \<le> ID b) (filter P (map (upd_bin m) bs))"
    using s by (rule sorted_wrt_mono_rel [rotated]) auto
  then show "sort_key ID (filter P (map (upd_bin m) bs)) = filter P (map (upd_bin m) bs)"
    by (intro sort_key_id_if_sorted) (simp add: sorted_map)
qed

subsection \<open>The pool invariant\<close>

text \<open>A pair of two tokens with sorted, present, non-negative bins that the total reserves cover, and
  whose active bin exists.\<close>

definition lb_wf :: "PoolSimulator \<Rightarrow> bool" where
  "lb_wf p = (case Tokens (Info p) of [tx, ty] \<Rightarrow> (case Reserves (Info p) of [rx, ry] \<Rightarrow>
       rx \<noteq> None \<and> ry \<noteq> None \<and> \<not> equal_fold tx ty \<and> sorted_bins (bins p) \<and>
       list_all (\<lambda>b. present b \<and> 0 \<le> x_of b \<and> 0 \<le> y_of b) (bins p) \<and>
       sum_list (map x_of (bins p)) \<le> the rx \<and> sum_list (map y_of (bins p)) \<le> the ry \<and>
       activeBinID p \<in> ID ` set (bins p)
     | _ \<Rightarrow> False) | _ \<Rightarrow> False)"

inductive lb_step :: "PoolSimulator \<Rightarrow> PoolSimulator \<Rightarrow> bool" where
  swap: "valid_request q \<Longrightarrow> lb_ok p \<Longrightarrow> CalcAmountOut p (q :: unit CalcAmountOutParams) = Some (Inr r) \<Longrightarrow>
         UpdateBalance p (update_params q r) = Inr p' \<Longrightarrow> lb_step p p'"

inductive_cases lb_stepE: "lb_step p p'"

lemma lb_wfE:
  assumes "lb_wf p"
  obtains tx ty rx ry where "Tokens (Info p) = [tx, ty]" "Reserves (Info p) = [Some rx, Some ry]"
    "\<not> equal_fold tx ty" "sorted_bins (bins p)" "\<forall>b \<in> set (bins p). present b \<and> 0 \<le> x_of b \<and> 0 \<le> y_of b"
    "sum_list (map x_of (bins p)) \<le> rx" "sum_list (map y_of (bins p)) \<le> ry" "activeBinID p \<in> ID ` set (bins p)"
  using assms unfolding lb_wf_def list_all_iff
  by (auto split: list.split_asm)

text \<open>What a change does to its own bin: no side goes negative, and the bin does not empty.\<close>

lemma new_change_delta:
  "dx (newBinReserveChanges i (\<not> y) a o') = (if y then a else - o')"
  "dy (newBinReserveChanges i (\<not> y) a o') = (if y then - o' else a)"
  by (simp_all add: newBinReserveChanges_def dx_def dy_def)

lemma change_delta:
  assumes "change_ok p y b c"
  shows "dx c = (if y then in_of y c else - out_of y c)" and "dy c = (if y then - out_of y c else in_of y c)"
proof -
  have "c = newBinReserveChanges (ID b) (\<not> y) (in_of y c) (out_of y c)"
    using assms by (simp only: change_ok_def)
  from arg_cong [OF this, of dx] arg_cong [OF this, of dy]
  show "dx c = (if y then in_of y c else - out_of y c)" "dy c = (if y then - out_of y c else in_of y c)"
    by (simp_all only: new_change_delta)
qed

lemma change_keeps_bin:
  assumes c: "change_ok p y b c" and "0 \<le> x_of b" and "0 \<le> y_of b"
  shows "0 \<le> x_of b + dx c" and "0 \<le> y_of b + dy c" and "x_of b + dx c \<noteq> 0 \<or> y_of b + dy c \<noteq> 0"
proof -
  define i o' where "i = in_of y c" and "o' = out_of y c"
  have io: "0 \<le> i" "0 \<le> o'" "o' \<le> (if y then y_of b else x_of b)" "0 < (if y then y_of b else x_of b)"
    "at_price y (price_of p b) i o'" "0 < price_of p b"
    using c by (auto simp: change_ok_def i_def o'_def reserve_out_def x_of_def y_of_def)
  have "0 < o' \<Longrightarrow> 0 < i"
  proof (rule ccontr)
    assume "0 < o'" and "\<not> 0 < i"
    then have "i = 0" using io by simp
    then have "o' * price_of p b \<le> 0 \<or> o' * 2 ^ 128 \<le> 0"
      using io(5) by (auto simp: at_price_def split: if_splits)
    then show False
      using io(6) \<open>0 < o'\<close> by (auto simp: mult_le_0_iff)
  qed
  then show "0 \<le> x_of b + dx c" "0 \<le> y_of b + dy c" "x_of b + dx c \<noteq> 0 \<or> y_of b + dy c \<noteq> 0"
    using io assms(2,3) unfolding change_delta [OF c] i_def [symmetric] o'_def [symmetric]
    by (auto split: if_splits)
qed

lemma own_change:
  assumes "sorted_bins bs" and "distinct (map BinID cs)" and "\<forall>c \<in> set cs. \<exists>b \<in> set bs. change_ok p y b c"
    and b: "b \<in> set bs"
  shows "(\<exists>c \<in> set cs. change_ok p y b c \<and> changes_map cs (ID b) = Some c) \<or>
    changes_map cs (ID b) = None \<and> ID b \<notin> BinID ` set cs"
proof (cases "changes_map cs (ID b)")
  case None
  then show ?thesis by (simp add: map_of_eq_None_iff image_image)
next
  case (Some c)
  then have c: "c \<in> set cs" "BinID c = ID b"
    using map_of_SomeD by fastforce+
  then obtain b' where b': "b' \<in> set bs" "change_ok p y b' c" using assms(3) by blast
  then have "ID b' = ID b" using change_ok_ID c(2) by metis
  then have "b' = b"
    using assms(1) b b'(1) by (metis in_set_conv_nth sorted_bins_inj)
  with b' c Some show ?thesis by blast
qed

lemma upd_bin_ok:
  assumes "sorted_bins bs" and "distinct (map BinID cs)" and "\<forall>c \<in> set cs. \<exists>b \<in> set bs. change_ok p y b c"
    and "b \<in> set bs" and "0 \<le> x_of b" and "0 \<le> y_of b"
  shows "0 \<le> x_of (upd_bin (changes_map cs) b)" and "0 \<le> y_of (upd_bin (changes_map cs) b)"
    and "ID b \<in> BinID ` set cs \<Longrightarrow>
      x_of (upd_bin (changes_map cs) b) \<noteq> 0 \<or> y_of (upd_bin (changes_map cs) b) \<noteq> 0"
  using own_change [OF assms(1-4)] change_keeps_bin [OF _ assms(5,6)] assms(5,6)
  by (auto simp: change_at_def)

text \<open>The bins after a swap.\<close>

lemma swap_bins:
  assumes wf: "lb_wf p" and res: "result_ok p y A r" and A: "0 < A"
    and p': "p' = p\<lparr>Info := (Info p)\<lparr>Reserves := rs\<rparr>, activeBinID := NewActiveID_o r,
      feeParams := FeeParameters_o r, bins := bs'\<rparr>"
    and bs': "new_bins (total_changes (BinsReserveChanges_o r)) (bins p) = Inr bs"
      "bs' = sort_key ID bs"
  shows "sorted_bins bs'" and "\<forall>b \<in> set bs'. present b \<and> 0 \<le> x_of b \<and> 0 \<le> y_of b"
    and "NewActiveID_o r \<in> ID ` set bs'"
    and "sum_list (map x_of bs') = sum_list (map x_of (bins p)) + sum_list (map dx (BinsReserveChanges_o r))"
    and "sum_list (map y_of bs') = sum_list (map y_of (bins p)) + sum_list (map dy (BinsReserveChanges_o r))"
proof -
  define cs m where "cs = BinsReserveChanges_o r" and "m = changes_map cs"
  define P where "P = (\<lambda>b. x_of b \<noteq> 0 \<or> y_of b \<noteq> 0)"
  have sorted: "sorted_bins (bins p)" and nn: "\<forall>b \<in> set (bins p). present b \<and> 0 \<le> x_of b \<and> 0 \<le> y_of b"
    using wf by (auto elim: lb_wfE)
  have dist: "distinct (map BinID cs)" and each: "\<forall>c \<in> set cs. \<exists>b \<in> set (bins p). change_ok p y b c"
    and act: "NewActiveID_o r \<in> BinID ` set cs"
    using res A by (simp_all add: result_ok_def cs_def)
  have sub: "BinID ` set cs \<subseteq> ID ` set (bins p)"
    using each change_ok_ID by fastforce
  have bs: "bs = filter P (map (upd_bin m) (bins p))"
    using bs'(1) nn new_bins_eq [of "bins p" m] total_changes_eq [OF dist] by (simp add: cs_def m_def P_def)
  have bs_eq: "bs' = filter P (map (upd_bin m) (bins p))"
    unfolding bs'(2) bs by (rule sorted_upd [OF sorted])
  show "sorted_bins bs'"
    unfolding bs_eq by (rule sorted_upd [OF sorted])
  show "\<forall>b \<in> set bs'. present b \<and> 0 \<le> x_of b \<and> 0 \<le> y_of b"
    using upd_bin_ok(1,2) [OF sorted dist each] nn by (auto simp: bs_eq m_def)
  obtain b where b: "b \<in> set (bins p)" "ID b = NewActiveID_o r"
    using act sub by auto
  then have "P (upd_bin m b)"
    using upd_bin_ok(3) [OF sorted dist each b(1)] nn act by (simp add: P_def m_def)
  with b show "NewActiveID_o r \<in> ID ` set bs'"
    by (auto simp: bs_eq image_iff intro!: bexI [of _ b])
  have did: "distinct (map ID (bins p))"
    using sorted by (simp add: sorted_bins_def strict_sorted_iff)
  show "sum_list (map x_of bs') = sum_list (map x_of (bins p)) + sum_list (map dx (BinsReserveChanges_o r))"
    using sum_changes [OF did dist sub, of dx] sum_nonzero(1) [of "map (upd_bin m) (bins p)"]
    by (simp add: bs_eq P_def m_def cs_def o_def sum_list_addf del: filter_map)
  show "sum_list (map y_of bs') = sum_list (map y_of (bins p)) + sum_list (map dy (BinsReserveChanges_o r))"
    using sum_changes [OF did dist sub, of dy] sum_nonzero(2) [of "map (upd_bin m) (bins p)"]
    by (simp add: bs_eq P_def m_def cs_def o_def sum_list_addf del: filter_map)
qed

lemma sum_deltas:
  assumes "\<forall>c \<in> set cs. \<exists>b \<in> set bs. change_ok p y b c"
  shows "sum_list (map dx cs) = (if y then sum_list (map (in_of y) cs) else - sum_list (map (out_of y) cs))"
    and "sum_list (map dy cs) = (if y then - sum_list (map (out_of y) cs) else sum_list (map (in_of y) cs))"
  using assms by (induction cs) (auto simp: change_delta)

text \<open>The total reserves after a swap.\<close>

lemma reserve_loop_pair:
  assumes "\<not> equal_fold tx ty" and "(tin, tout) = (if y then (tx, ty) else (ty, tx))"
  shows "reserve_loop [tx, ty] 0 tin (Some a) tout (Some o') [Some rx, Some ry] =
    Inr (if y then [Some (rx + a), Some (ry - o')] else [Some (rx - o'), Some (ry + a)])"
  using assms by (auto simp: idx_def equal_fold_sym split: if_splits)

lemma lb_step_wf:
  assumes "lb_step p p'" and "lb_wf p"
  shows "lb_wf p'"
  using assms(1)
proof (rule lb_stepE)
  fix q :: "unit CalcAmountOutParams" and r
  assume req: "valid_request q" and ok: "lb_ok p" and calc: "CalcAmountOut p q = Some (Inr r)"
    and upd: "UpdateBalance p (update_params q r) = Inr p'"
  obtain a where a: "Amount (TokenAmountIn q) = Some a" "0 < a" and diff: "Token (TokenAmountIn q) \<noteq> TokenOut q"
    using req by (rule valid_requestE)
  obtain tx ty rx ry where t: "Tokens (Info p) = [tx, ty]" "\<not> equal_fold tx ty"
    and res: "Reserves (Info p) = [Some rx, Some ry]"
    and sums: "sum_list (map x_of (bins p)) \<le> rx" "sum_list (map y_of (bins p)) \<le> ry"
    using assms(2) by (rule lb_wfE)
  define y where "y = for_y p q"
  obtain o' info where o': "result_ok p y a o'" "SwapInfo r = Some info"
    "BinsReserveChanges info = BinsReserveChanges_o o'" "NewFeeParameters info = FeeParameters_o o'"
    "NewActiveID info = NewActiveID_o o'"
    "TokenAmountOut r = Some (token_amount (TokenOut q) (Some (AmountOut o')))"
    "Fee r = Some (token_amount (Token (TokenAmountIn q)) (Some (SwapFee_o o')))"
    "GetTokenIndex p (Token (TokenAmountIn q)) \<ge> 0" "GetTokenIndex p (TokenOut q) \<ge> 0"
    using quote_result [OF ok a(1) _ calc] a(2) by (auto simp: y_def)
  have pair: "(Token (TokenAmountIn q), TokenOut q) = (if y then (tx, ty) else (ty, tx))"
    using o'(8,9) diff t by (auto simp: GetTokenIndex_neg not_less [symmetric] y_def for_y_def)
  define rs' where "rs' = (if y then [Some (rx + a), Some (ry - AmountOut o')] else [Some (rx - AmountOut o'), Some (ry + a)])"
  have rl: "reserve_loop [tx, ty] 0 (Token (TokenAmountIn q)) (Some a) (TokenOut q) (Some (AmountOut o'))
      [Some rx, Some ry] = Inr rs'"
    unfolding rs'_def using t(2) pair by (rule reserve_loop_pair)
  obtain bs where bs: "new_bins (total_changes (BinsReserveChanges_o o')) (bins p) = Inr bs"
    and p': "p' = p\<lparr>Info := (Info p)\<lparr>Reserves := rs'\<rparr>, activeBinID := NewActiveID_o o',
      feeParams := FeeParameters_o o', bins := sort_key ID bs\<rparr>"
    using upd o'(2-7) a(1) t(1) res
    by (auto simp: UpdateBalance_def bnd_eq_Inr rl simp del: reserve_loop.simps)
  note new = swap_bins [OF assms(2) o'(1) a(2) p' bs refl]
  note deltas = sum_deltas [of "BinsReserveChanges_o o'" "bins p" p y]
  have tot: "0 \<le> SwapFee_o o'" "SwapFee_o o' + sum_list (map (in_of y) (BinsReserveChanges_o o')) = a"
    "AmountOut o' = sum_list (map (out_of y) (BinsReserveChanges_o o'))"
    "\<forall>c \<in> set (BinsReserveChanges_o o'). \<exists>b \<in> set (bins p). change_ok p y b c"
    using o'(1) by (simp_all add: result_ok_def)
  have "sum_list (map x_of (sort_key ID bs)) \<le> (if y then rx + a else rx - AmountOut o')"
    "sum_list (map y_of (sort_key ID bs)) \<le> (if y then ry - AmountOut o' else ry + a)"
    unfolding new(4,5) deltas [OF tot(4)] using sums tot(1-3) by auto
  with new(1-3) t show ?thesis
    by (cases y) (simp_all add: p' lb_wf_def list_all_iff rs'_def)
qed

text \<open>C6: no sequence of swaps breaks a liquidity book: the bins stay sorted, no bin's reserve goes
  negative, the total reserves keep covering what the bins hold, and the active bin always exists.\<close>

theorem lb_bins_invariant:
  assumes "lb_step\<^sup>*\<^sup>* p p'" and "lb_wf p"
  shows "lb_wf p'"
  using assms by (induction rule: rtranclp_induct) (auto intro: lb_step_wf)

subsection \<open>An example\<close>

text \<open>Three bins around the price one, steps of 25 basis points; a swap of X that empties the active bin
  and goes on in the one below.\<close>

definition ex_fee_params :: feeParameters where
  "ex_fee_params = \<lparr>BinStep = 25, BaseFactor = 8000, FilterPeriod = 30, DecayPeriod = 600, ReductionFactor = 5000,
     VariableFeeControl = 40000, ProtocolShare = 1000, MaxVolatilityAccumulated = 350000,
     VolatilityAccumulated = 0, VolatilityReference = 0, IndexRef = 8388608, Time = 1000\<rparr>"

definition ex_lb :: PoolSimulator where
  "ex_lb = \<lparr>Info = \<lparr>Address = ''p'', Exchange = ''lb'', Type = ''lb'', Tokens = [''x'', ''y''],
              Reserves = [Some 2000, Some 2000], SwapFee = None, BlockNumber = 0\<rparr>,
            blockTimestamp = 2000, feeParams = ex_fee_params, activeBinID = 8388608,
            bins = [\<lparr>ID = 8388607, ReserveX = Some 0, ReserveY = Some 1000\<rparr>,
                    \<lparr>ID = 8388608, ReserveX = Some 500, ReserveY = Some 500\<rparr>,
                    \<lparr>ID = 8388609, ReserveX = Some 1000, ReserveY = Some 0\<rparr>]\<rparr>"

definition ex_lb_request :: "unit CalcAmountOutParams" where
  "ex_lb_request = \<lparr>TokenAmountIn = token_amount ''x'' (Some 700), TokenOut = ''y'', Limit = None\<rparr>"

lemma ex_lb_sorted: "sorted_bins (bins ex_lb)"
proof -
  have "sorted_wrt (<) (map ID (bins ex_lb))" by code_simp
  then show ?thesis by (simp add: sorted_bins_def) (simp add: ex_lb_def)
qed

lemma ex_lb_ok: "lb_ok ex_lb"
proof -
  have "list_all (bin_ok (BinStep (feeParams ex_lb))) (bins ex_lb)" by code_simp
  moreover have "2 * fee_cap (feeParams ex_lb) \<le> precison" by code_simp
  ultimately show ?thesis using ex_lb_sorted by (simp add: lb_ok_def)
qed

lemma ex_lb_wf: "lb_wf ex_lb"
proof -
  have "\<not> equal_fold ''x'' ''y''" by code_simp
  with ex_lb_sorted show ?thesis
    by (simp add: lb_wf_def) (simp add: ex_lb_def present_def x_of_def y_of_def)
qed

text \<open>The quote and the pool after it.\<close>

definition ex_lb_quote :: "SwapInfo CalcAmountOutResult" where
  "ex_lb_quote = (case CalcAmountOut ex_lb ex_lb_request of Some (Inr r) \<Rightarrow> r | _ \<Rightarrow>
     \<lparr>TokenAmountOut = None, Fee = None, RemainingTokenAmountIn = None, Gas = 0, SwapInfo = None\<rparr>)"

definition ex_lb_after :: PoolSimulator where
  "ex_lb_after = (case UpdateBalance ex_lb (update_params ex_lb_request ex_lb_quote) of Inr p \<Rightarrow> p | _ \<Rightarrow> ex_lb)"

lemma ex_lb_calc: "CalcAmountOut ex_lb ex_lb_request = Some (Inr ex_lb_quote)"
proof -
  have "(case CalcAmountOut ex_lb ex_lb_request of Some (Inr r) \<Rightarrow> True | _ \<Rightarrow> False)" by code_simp
  then show ?thesis by (auto simp: ex_lb_quote_def split: option.splits sum.splits)
qed

lemma ex_lb_update: "UpdateBalance ex_lb (update_params ex_lb_request ex_lb_quote) = Inr ex_lb_after"
proof -
  have "(case UpdateBalance ex_lb (update_params ex_lb_request ex_lb_quote) of Inr p \<Rightarrow> True | _ \<Rightarrow> False)" by code_simp
  then show ?thesis by (auto simp: ex_lb_after_def split: sum.splits)
qed

lemma ex_lb_amounts: "TokenAmountOut ex_lb_quote = Some (token_amount ''y'' (Some 696))"
  "map ReserveX (bins ex_lb_after) = [Some 197, Some 1000, Some 1000]"
  "map ReserveY (bins ex_lb_after) = [Some 804, Some 0, Some 0]" "activeBinID ex_lb_after = 8388607"
  by code_simp+

lemma ex_lb_request_amount: "Amount (TokenAmountIn ex_lb_request) = Some 700" "valid_request ex_lb_request"
  by code_simp+

theorem lb_find_bin_witness: "findBinArrIndex ex_lb 8388608 = Inr 1 \<and>
    findBinArrIndex ex_lb 7 = Inl (Err ''ErrNotFoundBinID'')"
proof -
  have "1 < length (bins ex_lb)" "ID (bins ex_lb ! 1) = 8388608" "7 \<notin> ID ` set (bins ex_lb)"
    by (simp_all add: ex_lb_def)
  with lb_find_bin [OF ex_lb_sorted] show ?thesis
    by (metis of_nat_1)
qed

theorem lb_quote_returns_witness: "\<exists>m. CalcAmountOut ex_lb ex_lb_request = Some m"
  using lb_quote_returns [OF ex_lb_ok ex_lb_request_amount(1)] by (auto simp: ex_lb_def)

theorem lb_quote_accounts_witness:
  "\<exists>info fee. SwapInfo ex_lb_quote = Some info \<and> 0 \<le> fee \<and>
    fee + sum_list (map AmountXIn (BinsReserveChanges info)) = 700 \<and>
    sum_list (map AmountYOut (BinsReserveChanges info)) = 696"
proof -
  have y: "for_y ex_lb ex_lb_request" by code_simp
  have "in_of True = AmountXIn" "out_of True = AmountYOut" by (simp_all add: fun_eq_iff in_of_def out_of_def)
  with lb_quote_accounts [OF ex_lb_ok ex_lb_request_amount(1) _ ex_lb_calc] show ?thesis
    by (auto simp: y ex_lb_amounts token_amount_eq)
qed

theorem lb_bins_invariant_witness: "lb_wf ex_lb_after \<and> activeBinID ex_lb_after = 8388607"
proof -
  have "lb_step ex_lb ex_lb_after"
    using ex_lb_request_amount(2) ex_lb_ok ex_lb_calc ex_lb_update by (rule lb_step.swap)
  then have "lb_step\<^sup>*\<^sup>* ex_lb ex_lb_after" by simp
  from lb_bins_invariant [OF this ex_lb_wf] ex_lb_amounts(4) show ?thesis by simp
qed

end
