(* ===== verification/Platypus.thy ===== *)
theory Platypus
  imports Pool_Interface Valueobject Bignumber
begin

text \<open>
  The simulator of \<open>pkg/source/platypus\<close>: single-sided assets with cash and liability.  A swap is priced
  one to one (or by the staking rate), corrected by the slippage of the two coverage ratios and cut by
  a fee (the haircut).

  The loop of \<open>rpow\<close> halves its exponent with a floor division, so it does not end for a negative one:
  it is a \<open>partial_function (option)\<close>, and \<open>None\<close> is a call that never returns.  JSON decoding is a
  parameter.
\<close>

definition WAD :: int where
  "WAD = 10 ^ 18"

definition RAY :: int where
  "RAY = 10 ^ 27"

definition PoolTypePlatypusAvax :: string where
  "PoolTypePlatypusAvax = ''platypus-avax''"

record Gas =
  Swap :: int

definition DefaultGas :: Gas where
  "DefaultGas = \<lparr>Swap = 88000\<rparr>"

record Asset =
  Address_a :: string
  Decimals :: "8 word"
  Cash :: bigint
  Liability :: bigint
  UnderlyingToken :: string
  AggregateAccount :: string

record Extra =
  PriceOracle :: string
  OracleType :: string
  C1_x :: bigint
  HaircutRate_x :: bigint
  RetentionRatio_x :: bigint
  SlippageParamK_x :: bigint
  SlippageParamN_x :: bigint
  XThreshold_x :: bigint
  Paused :: bool
  SAvaxRate_x :: bigint
  AssetByToken_x :: "string \<rightharpoonup> Asset"

record PoolSimulator = Pool +
  C1 :: bigint
  RetentionRatio :: bigint
  SlippageParamK :: bigint
  SlippageParamN :: bigint
  XThreshold :: bigint
  HaircutRate :: bigint
  SAvaxRate :: bigint
  AssetByToken :: "string \<rightharpoonup> Asset"
  chain :: ChainID
  gas :: Gas

subsection \<open>Fixed-point arithmetic\<close>

definition wmul :: "int \<Rightarrow> int \<Rightarrow> int" where
  "wmul x y = (x * y + WAD div 2) div WAD"

text \<open>The divisor is checked before the dividend is read.\<close>

definition wdiv :: "bigint \<Rightarrow> bigint \<Rightarrow> int go" where
  "wdiv x y =
     (case y of
        None \<Rightarrow> Inl (Err ''ErrDivisionByZero'')
      | Some d \<Rightarrow>
          if d = 0 then Inl (Err ''ErrDivisionByZero'')
          else bnd (deref x) (\<lambda>n. big_div (n * WAD + d div 2) d))"

definition rmul :: "int \<Rightarrow> int \<Rightarrow> int" where
  "rmul x y = (x * y + RAY div 2) div RAY"

partial_function (option) rpow_loop :: "int \<Rightarrow> int \<Rightarrow> int \<Rightarrow> int option" where
  "rpow_loop x z n =
     (if n \<noteq> 0
      then let x = rmul x x; z = (if n mod 2 \<noteq> 0 then rmul z x else z) in rpow_loop x z (n div 2)
      else Some z)"

declare rpow_loop.simps [code]

definition rpow :: "int \<Rightarrow> int \<Rightarrow> int option" where
  "rpow x n = rpow_loop x (if n mod 2 \<noteq> 0 then x else RAY) (n div 2)"

subsection \<open>Slippage\<close>

definition slippageFunc :: "bigint \<Rightarrow> bigint \<Rightarrow> bigint \<Rightarrow> bigint \<Rightarrow> int \<Rightarrow> int go option" where
  "slippageFunc k n c1 xThreshold x =
     call (Some (deref xThreshold)) (\<lambda>thr.
     if x < thr then Some (bnd (deref c1) (\<lambda>c. Inr (c - x)))
     else
       call (Some (deref n)) (\<lambda>n.
       map_option (\<lambda>r. wdiv k (Some (r * WAD div RAY))) (rpow (x * RAY div WAD) n)))"

definition slippage ::
    "bigint \<Rightarrow> bigint \<Rightarrow> bigint \<Rightarrow> bigint \<Rightarrow> bigint \<Rightarrow> bigint \<Rightarrow> int \<Rightarrow> bool \<Rightarrow> int go option" where
  "slippage k n c1 xThreshold cash liability cashChange addCash =
     call (Some (wdiv cash liability)) (\<lambda>covBefore.
     call (Some (bnd (deref cash) (\<lambda>c.
             wdiv (Some (if addCash then c + cashChange else c - cashChange)) liability))) (\<lambda>covAfter.
     if covBefore = covAfter then Some (Inr 0)
     else
       call (slippageFunc k n c1 xThreshold covBefore) (\<lambda>slippageBefore.
       call (slippageFunc k n c1 xThreshold covAfter) (\<lambda>slippageAfter.
       if covBefore > covAfter
       then Some (wdiv (Some (slippageAfter - slippageBefore)) (Some (covBefore - covAfter)))
       else Some (wdiv (Some (slippageBefore - slippageAfter)) (Some (covAfter - covBefore)))))))"

definition swappingSlippage :: "int \<Rightarrow> int \<Rightarrow> int" where
  "swappingSlippage si sj = WAD + si - sj"

definition haircut :: "int \<Rightarrow> int \<Rightarrow> int" where
  "haircut amount rate = wmul amount rate"

definition dividend :: "int \<Rightarrow> int \<Rightarrow> int" where
  "dividend amount ratio = wmul amount (WAD - ratio)"

subsection \<open>Assets\<close>

definition addCash :: "Asset \<Rightarrow> int \<Rightarrow> Asset go" where
  "addCash a amount = bnd (deref (Cash a)) (\<lambda>c. Inr (a\<lparr>Cash := Some (c + amount)\<rparr>))"

definition removeCash :: "Asset \<Rightarrow> int \<Rightarrow> Asset go" where
  "removeCash a amount = bnd (deref (Cash a)) (\<lambda>c. Inr (a\<lparr>Cash := Some (c - amount)\<rparr>))"

definition addLiability :: "Asset \<Rightarrow> int \<Rightarrow> Asset go" where
  "addLiability a amount = bnd (deref (Liability a)) (\<lambda>l. Inr (a\<lparr>Liability := Some (l + amount)\<rparr>))"

definition assetOf :: "PoolSimulator \<Rightarrow> string \<Rightarrow> Asset go" where
  "assetOf p token = (case AssetByToken p token of None \<Rightarrow> Inl (Err ''ErrAssetNotExist'') | Some a \<Rightarrow> Inr a)"

subsection \<open>Quotes\<close>

definition NewPoolSimulator :: "(string \<Rightarrow> Extra go) \<Rightarrow> EntityPool \<Rightarrow> ChainID \<Rightarrow> PoolSimulator go" where
  "NewPoolSimulator json_Unmarshal entityPool chainID =
     bnd (json_Unmarshal (Extra_e entityPool)) (\<lambda>extra.
     if Paused extra then Inl (Err ''ErrPoolPaused'')
     else Inr \<lparr>Info = \<lparr>Address = Address_e entityPool, Exchange = Exchange_e entityPool,
                      Type = Type_e entityPool, Tokens = map TokenAddress (Tokens_e entityPool),
                      Reserves = [], SwapFee = None, BlockNumber = BlockNumber_e entityPool\<rparr>,
               C1 = C1_x extra, RetentionRatio = RetentionRatio_x extra,
               SlippageParamK = SlippageParamK_x extra, SlippageParamN = SlippageParamN_x extra,
               XThreshold = XThreshold_x extra, HaircutRate = HaircutRate_x extra,
               SAvaxRate = SAvaxRate_x extra, AssetByToken = AssetByToken_x extra,
               chain = chainID, gas = DefaultGas\<rparr>)"

definition quoteIdealToAmountSAvax :: "PoolSimulator \<Rightarrow> Asset \<Rightarrow> Asset \<Rightarrow> int \<Rightarrow> int go" where
  "quoteIdealToAmountSAvax p fromAsset toAsset fromAmount =
     (case map_of WrappedNativeMap (chain p) of
        None \<Rightarrow> Inl (Err ''ErrWrappedNativeNotFound'')
      | Some native \<Rightarrow>
          if equal_fold (UnderlyingToken toAsset) native
          then bnd (deref (SAvaxRate p)) (\<lambda>r. Inr (wmul fromAmount r))
          else if equal_fold (UnderlyingToken fromAsset) native
          then wdiv (Some fromAmount) (SAvaxRate p)
          else Inl (Err ''ErrUnsupportedSwap''))"

definition quoteIdealToAmount :: "PoolSimulator \<Rightarrow> Asset \<Rightarrow> Asset \<Rightarrow> int \<Rightarrow> int go" where
  "quoteIdealToAmount p fromAsset toAsset fromAmount =
     (if Type (Info p) = PoolTypePlatypusAvax
      then quoteIdealToAmountSAvax p fromAsset toAsset fromAmount
      else
        bnd (TenPowInt (uint (Decimals toAsset))) (\<lambda>t.
        bnd (TenPowInt (uint (Decimals fromAsset))) (\<lambda>f.
        big_div (fromAmount * t) f)))"

definition quoteFrom :: "PoolSimulator \<Rightarrow> Asset \<Rightarrow> Asset \<Rightarrow> int \<Rightarrow> (int \<times> int) go option" where
  "quoteFrom p fromAsset toAsset fromAmount =
     call (Some (quoteIdealToAmount p fromAsset toAsset fromAmount)) (\<lambda>idealToAmount.
     call (Some (deref (Cash toAsset))) (\<lambda>toCash.
     if toCash < idealToAmount then Some (Inl (Err ''ErrInsufficientCash''))
     else
       call (slippage (SlippageParamK p) (SlippageParamN p) (C1 p) (XThreshold p)
               (Cash fromAsset) (Liability fromAsset) fromAmount True) (\<lambda>slippageFrom.
       call (slippage (SlippageParamK p) (SlippageParamN p) (C1 p) (XThreshold p)
               (Cash toAsset) (Liability toAsset) idealToAmount False) (\<lambda>slippageTo.
       let toAmount = wmul idealToAmount (swappingSlippage slippageFrom slippageTo) in
       call (Some (deref (HaircutRate p))) (\<lambda>rate.
       let hair = haircut toAmount rate in
       Some (Inr (toAmount - hair, hair)))))))"

definition CalcAmountOut ::
    "PoolSimulator \<Rightarrow> 'l CalcAmountOutParams \<Rightarrow> unit CalcAmountOutResult go option" where
  "CalcAmountOut p param =
     (let tokenAmountIn = TokenAmountIn param; tokenOut = TokenOut param in
      if Token tokenAmountIn = tokenOut then Some (Inl (Err ''ErrSameAddress''))
      else
        call (Some (deref (Amount tokenAmountIn))) (\<lambda>amount.
        if amount \<le> 0 then Some (Inl (Err ''ErrZeroFromAmount''))
        else
          call (Some (assetOf p (Token tokenAmountIn))) (\<lambda>fromAsset.
          call (Some (assetOf p tokenOut)) (\<lambda>toAsset.
          if AggregateAccount fromAsset \<noteq> AggregateAccount toAsset then Some (Inl (Err ''ErrDiffAggAcc''))
          else
            call (quoteFrom p fromAsset toAsset amount) (\<lambda>(actualToAmount, hairCut).
            Some (Inr \<lparr>TokenAmountOut = Some (token_amount tokenOut (Some actualToAmount)),
                       Fee = Some (token_amount tokenOut (Some hairCut)),
                       RemainingTokenAmountIn = None, Gas = Swap (gas p), SwapInfo = None\<rparr>))))))"

text \<open>Unknown tokens leave the pool as it is.\<close>

definition UpdateBalance ::
    "PoolSimulator \<Rightarrow> (unit, 'l) UpdateBalanceParams \<Rightarrow> PoolSimulator go" where
  "UpdateBalance p params =
     (let tin = Token (TokenAmountIn_u params); tout = Token (TokenAmountOut_u params) in
      case (AssetByToken p tin, AssetByToken p tout) of
        (Some fromAsset, Some toAsset) \<Rightarrow>
          bnd (deref (Amount (TokenAmountIn_u params))) (\<lambda>a.
          bnd (addCash fromAsset a) (\<lambda>fromAsset.
          bnd (deref (Amount (TokenAmountOut_u params))) (\<lambda>o'.
          bnd (removeCash toAsset o') (\<lambda>toAsset.
          bnd (deref (Amount (Fee_u params))) (\<lambda>fee.
          bnd (deref (RetentionRatio p)) (\<lambda>ratio.
          bnd (addLiability toAsset (dividend fee ratio)) (\<lambda>toAsset.
          Inr (p\<lparr>AssetByToken := (AssetByToken p)(tin \<mapsto> fromAsset, tout \<mapsto> toAsset)\<rparr>))))))))
      | _ \<Rightarrow> Inr p)"

text \<open>\<open>GetMidPrice\<close> and \<open>CalcExactQuote\<close> have the same body: errors become zero.\<close>

definition GetMidPrice :: "PoolSimulator \<Rightarrow> string \<Rightarrow> string \<Rightarrow> int \<Rightarrow> int go option" where
  "GetMidPrice p tokenIn tokenOut base =
     (case (assetOf p tokenIn, assetOf p tokenOut) of
        (Inr fromAsset, Inr toAsset) \<Rightarrow>
          map_option (\<lambda>m. case m of
              Inl (Panic e) \<Rightarrow> Inl (Panic e)
            | Inl (Err e) \<Rightarrow> Inr 0
            | Inr (actualToAmount, _) \<Rightarrow> Inr actualToAmount)
            (quoteFrom p fromAsset toAsset base)
      | _ \<Rightarrow> Some (Inr 0))"

definition CalcExactQuote :: "PoolSimulator \<Rightarrow> string \<Rightarrow> string \<Rightarrow> int \<Rightarrow> int go option" where
  "CalcExactQuote p tokenIn tokenOut base = GetMidPrice p tokenIn tokenOut base"

subsection \<open>The power loop\<close>

lemma rpow_loop_zero [simp]: "rpow_loop x z 0 = Some z"
  by (subst rpow_loop.simps) simp

lemma rpow_loop_step: "n \<noteq> 0 \<Longrightarrow> rpow_loop x z n =
    rpow_loop (rmul x x) (if n mod 2 \<noteq> 0 then rmul z (rmul x x) else z) (n div 2)"
  by (subst rpow_loop.simps) (simp add: Let_def)

lemma rpow_loop_only: "rpow_loop x z n = Some r \<Longrightarrow> 0 \<le> n"
proof -
  assume "rpow_loop x z n = Some r"
  then have "(case ((x, z), n) of (xz, n) \<Rightarrow> (case xz of (x, z) \<Rightarrow> rpow_loop x z) n) = Some r" by simp
  then have "(case ((x, z), n) of (xz, n) \<Rightarrow> (case xz of (x, z) \<Rightarrow> (\<lambda>n r. 0 \<le> n)) n) r"
  proof (rule rpow_loop.raw_induct [rotated])
    fix loop x z and n r :: int
    assume IH: "\<And>x z n r. loop x z n = Some r \<Longrightarrow> 0 \<le> n"
      and run: "(if n \<noteq> 0 then let x = rmul x x; z = if n mod 2 \<noteq> 0 then rmul z x else z in loop x z (n div 2)
        else Some z) = Some r"
    show "0 \<le> n"
    proof (cases "n = 0")
      case False
      then have "0 \<le> n div 2"
        using run by (auto simp: Let_def split: if_splits dest!: IH)
      then show ?thesis by simp
    qed simp
  qed
  then show "0 \<le> n" by simp
qed

lemma rmul_nonneg: "0 \<le> x \<Longrightarrow> 0 \<le> y \<Longrightarrow> 0 \<le> rmul x y"
  by (simp add: rmul_def RAY_def pos_imp_zdiv_nonneg_iff)

lemma rmul_mono: "0 \<le> x \<Longrightarrow> x \<le> x' \<Longrightarrow> 0 \<le> y \<Longrightarrow> y \<le> y' \<Longrightarrow> rmul x y \<le> rmul x' y'"
  unfolding rmul_def RAY_def by (intro zdiv_mono1 add_right_mono mult_mono) auto

text \<open>The loop is monotone in the base and the accumulator.\<close>

lemma rpow_loop_mono:
  assumes "0 \<le> n" and "0 \<le> x" and "x \<le> x'" and "0 \<le> z" and "z \<le> z'"
  shows "\<exists>r r'. rpow_loop x z n = Some r \<and> rpow_loop x' z' n = Some r' \<and> 0 \<le> r \<and> r \<le> r'"
  using assms
proof (induction "nat n" arbitrary: n x x' z z' rule: less_induct)
  case less
  show ?case
  proof (cases "n = 0")
    case False
    then have "nat (n div 2) < nat n" "0 \<le> n div 2" using less.prems(1) by auto
    moreover have "0 \<le> rmul x x" "rmul x x \<le> rmul x' x'"
      using less.prems by (auto intro: rmul_nonneg rmul_mono)
    moreover have "0 \<le> rmul z (rmul x x)" "rmul z (rmul x x) \<le> rmul z' (rmul x' x')"
      using less.prems by (auto intro!: rmul_nonneg rmul_mono)
    ultimately show ?thesis
      unfolding rpow_loop_step [OF False] using less.prems by (intro less.hyps) auto
  qed (use less.prems in simp)
qed

lemma rpow_mono:
  assumes "0 \<le> n" and "0 \<le> x" and "x \<le> x'"
  shows "\<exists>r r'. rpow x n = Some r \<and> rpow x' n = Some r' \<and> 0 \<le> r \<and> r \<le> r'"
  unfolding rpow_def using assms by (intro rpow_loop_mono) (auto simp: RAY_def)

lemma rpow_total:
  assumes "0 \<le> n"
  shows "\<exists>r. rpow x n = Some r"
proof -
  have "\<exists>r. rpow_loop x z m = Some r" if "0 \<le> m" for x z m
    using that
  proof (induction "nat m" arbitrary: m x z rule: less_induct)
    case less
    show ?case
    proof (cases "m = 0")
      case False
      then have "nat (m div 2) < nat m" "0 \<le> m div 2" using less.prems by auto
      then show ?thesis unfolding rpow_loop_step [OF False] by (rule less.hyps)
    qed simp
  qed
  then show ?thesis
    using assms by (simp add: rpow_def)
qed

text \<open>C34: the power function of the slippage curve returns exactly for the exponents that are not
  negative; for every negative exponent the loop runs forever, because halving rounds down and never
  reaches zero.\<close>

theorem platypus_rpow_returns: "(\<exists>r. rpow x n = Some r) = (0 \<le> n)"
proof
  assume "\<exists>r. rpow x n = Some r"
  then have "0 \<le> n div 2"
    unfolding rpow_def by (auto dest: rpow_loop_only)
  then show "0 \<le> n" by simp
qed (rule rpow_total)

subsection \<open>Pools that never panic\<close>

text \<open>All numbers are present and the exponent of the curve is not negative.  The staking rate is only there,
  and only needed, for a pool of the sAvax type: \<open>newExtra\<close> leaves it out for the others.\<close>

definition asset_ok :: "Asset \<Rightarrow> bool" where
  "asset_ok a = (Cash a \<noteq> None \<and> Liability a \<noteq> None)"

definition plat_ok :: "PoolSimulator \<Rightarrow> bool" where
  "plat_ok p = (C1 p \<noteq> None \<and> RetentionRatio p \<noteq> None \<and> SlippageParamK p \<noteq> None \<and> XThreshold p \<noteq> None \<and>
     HaircutRate p \<noteq> None \<and> (Type (Info p) = PoolTypePlatypusAvax \<longrightarrow> SAvaxRate p \<noteq> None) \<and>
     (case SlippageParamN p of None \<Rightarrow> False | Some n \<Rightarrow> 0 \<le> n) \<and>
     (\<forall>t a. AssetByToken p t = Some a \<longrightarrow> asset_ok a))"

definition safe :: "'a go option \<Rightarrow> bool" where
  "safe m = (case m of None \<Rightarrow> False | Some m \<Rightarrow> \<not> is_panic m)"

lemma safe_simps [simp]: "\<not> safe None" "safe (Some m) = (\<not> is_panic m)"
  by (simp_all add: safe_def)

lemma is_panic_Inl: "is_panic (Inl e :: 'a go) = is_panic (Inl e :: 'b go)"
  by (simp add: is_panic_def)

lemma safe_call: "safe m \<Longrightarrow> (\<And>x. m = Some (Inr x) \<Longrightarrow> safe (f x)) \<Longrightarrow> safe (call m f)"
  by (auto simp: safe_def call_def is_panic_def split: option.splits sum.splits go_error.splits)

lemma safe_if: "(b \<Longrightarrow> safe m) \<Longrightarrow> (\<not> b \<Longrightarrow> safe m') \<Longrightarrow> safe (if b then m else m')"
  by simp

lemma no_panic_bnd: "\<not> is_panic m \<Longrightarrow> (\<And>x. m = Inr x \<Longrightarrow> \<not> is_panic (f x)) \<Longrightarrow> \<not> is_panic (bnd m f)"
  by (auto simp: bnd_def is_panic_def split: sum.splits go_error.splits)

lemma wdiv_safe: "x \<noteq> None \<Longrightarrow> \<not> is_panic (wdiv x y)"
  by (auto simp: wdiv_def big_div_def split: option.splits)

lemma slippageFunc_safe:
  assumes "k \<noteq> None" and "n = Some n'" and "0 \<le> n'" and "c1 \<noteq> None" and "thr \<noteq> None"
  shows "safe (slippageFunc k n c1 thr x)"
proof -
  obtain r where "rpow (x * RAY div WAD) n' = Some r"
    using rpow_total [OF assms(3)] by blast
  with assms show ?thesis
    by (auto simp: slippageFunc_def wdiv_safe)
qed

lemma slippage_safe:
  assumes "k \<noteq> None" and "n = Some n'" and "0 \<le> n'" and "c1 \<noteq> None" and "thr \<noteq> None" and "cash \<noteq> None"
  shows "safe (slippage k n c1 thr cash liability d add)"
  unfolding slippage_def using assms
  by (intro safe_call safe_if) (auto simp: wdiv_safe intro!: slippageFunc_safe)

lemma quoteFrom_safe:
  assumes "plat_ok p" and "asset_ok a" and "asset_ok b"
  shows "safe (quoteFrom p a b x)"
proof -
  obtain n where n: "SlippageParamN p = Some n" "0 \<le> n"
    using assms(1) by (auto simp: plat_ok_def split: option.splits)
  have "\<not> is_panic (quoteIdealToAmount p a b x)"
    using assms(1)
    by (auto simp: quoteIdealToAmount_def quoteIdealToAmountSAvax_def TenPowInt_eq plat_ok_def wdiv_safe split: option.splits)
  moreover note slippage_safe = slippage_safe [OF _ n]
  ultimately show ?thesis
    unfolding quoteFrom_def Let_def using assms
    by (intro safe_call safe_if)
      (auto simp: asset_ok_def plat_ok_def Let_def intro!: slippage_safe safe_call)
qed

lemma quote_safe:
  assumes "plat_ok p" and "Amount (TokenAmountIn q) \<noteq> None"
  shows "safe (CalcAmountOut p q)"
  unfolding CalcAmountOut_def Let_def using assms
  by (intro safe_call safe_if)
    (auto simp: assetOf_def plat_ok_def split: option.splits intro!: safe_call quoteFrom_safe)

inductive plat_step :: "PoolSimulator \<Rightarrow> PoolSimulator \<Rightarrow> bool" where
  swap: "CalcAmountOut p (q :: unit CalcAmountOutParams) = Some (Inr r) \<Longrightarrow>
         UpdateBalance p (update_params q r) = Inr p' \<Longrightarrow> plat_step p p'"

inductive_cases plat_stepE: "plat_step p p'"

lemma quote_amounts:
  assumes "CalcAmountOut p q = Some (Inr r)"
  obtains a fromAsset toAsset out hair where "Amount (TokenAmountIn q) = Some a" "0 < a"
    "AssetByToken p (Token (TokenAmountIn q)) = Some fromAsset" "AssetByToken p (TokenOut q) = Some toAsset"
    "quoteFrom p fromAsset toAsset a = Some (Inr (out, hair))" "Token (TokenAmountIn q) \<noteq> TokenOut q"
    "TokenAmountOut r = Some (token_amount (TokenOut q) (Some out))"
    "Fee r = Some (token_amount (TokenOut q) (Some hair))"
  using assms
  by (auto simp: CalcAmountOut_def Let_def assetOf_def go_simps split: if_splits option.splits)

lemma update_ok:
  assumes "plat_ok p" and "CalcAmountOut p q = Some (Inr r)"
  obtains p' where "UpdateBalance p (update_params q r) = Inr p'" "plat_ok p'"
proof -
  obtain a fromAsset toAsset out hair where q: "Amount (TokenAmountIn q) = Some a"
    "AssetByToken p (Token (TokenAmountIn q)) = Some fromAsset" "AssetByToken p (TokenOut q) = Some toAsset"
    "TokenAmountOut r = Some (token_amount (TokenOut q) (Some out))"
    "Fee r = Some (token_amount (TokenOut q) (Some hair))"
    using assms(2) by (rule quote_amounts)
  obtain ratio where ratio: "RetentionRatio p = Some ratio"
    using assms(1) by (auto simp: plat_ok_def)
  obtain c c' l' where "Cash fromAsset = Some c" "Cash toAsset = Some c'" "Liability toAsset = Some l'"
    using assms(1) q(2,3) by (fastforce simp: plat_ok_def asset_ok_def)
  then show thesis
    using that q ratio assms(1)
    by (auto simp: UpdateBalance_def Let_def addCash_def removeCash_def addLiability_def plat_ok_def asset_ok_def)
qed

lemma step_ok: "plat_step p p' \<Longrightarrow> plat_ok p \<Longrightarrow> plat_ok p'"
  by (erule plat_stepE, rule update_ok) auto

text \<open>C32: a Platypus pool of any type whose numbers are all present (the staking rate only for the sAvax
  type) and whose slippage exponent is not negative never goes wrong: after any sequence of swaps a quote
  returns, without a panic, and the update that applies it does not panic either.\<close>

theorem platypus_never_panics:
  assumes "plat_step\<^sup>*\<^sup>* p p'" and "plat_ok p" and "Amount (TokenAmountIn q) \<noteq> None"
  shows "\<exists>m. CalcAmountOut p' (q :: unit CalcAmountOutParams) = Some m \<and> \<not> is_panic m \<and>
    (\<forall>r. m = Inr r \<longrightarrow> (\<exists>p''. UpdateBalance p' (update_params q r) = Inr p''))"
proof -
  have ok: "plat_ok p'"
    using assms(1,2)
    by (induction rule: rtranclp_induct) (auto intro: step_ok)
  have "safe (CalcAmountOut p' q)"
    using ok assms(3) by (rule quote_safe)
  then show ?thesis
    using update_ok [OF ok, of q] by (auto simp: safe_def split: option.splits)
qed

subsection \<open>The slippage curve\<close>

text \<open>The curve falls on either side of its threshold.  At the threshold it may jump up: with the
  deployed parameters it does, by 26 parts in \<open>10 ^ 18\<close> (lemma \<open>default_curve_jumps\<close>).\<close>

definition curve_ok :: "int \<Rightarrow> int \<Rightarrow> int \<Rightarrow> bool" where
  "curve_ok k n thr = (0 \<le> k \<and> 0 \<le> n \<and> 0 \<le> thr)"

lemma wdiv_Some [simp]: "0 < d \<Longrightarrow> wdiv (Some x) (Some d) = Inr ((x * WAD + d div 2) div d)"
  by (simp add: wdiv_def)

lemma wdiv_antitone:
  fixes K y y' :: int
  assumes "0 \<le> K" and "0 < y" and "y \<le> y'"
  shows "(K + y' div 2) div y' \<le> (K + y div 2) div y"
proof -
  define q where "q = (K + y' div 2) div y'"
  have q: "q * y' \<le> K + y' div 2" "0 \<le> q"
    using assms floor_le [of y' "K + y' div 2"] by (auto simp: q_def pos_imp_zdiv_nonneg_iff)
  have "q * y \<le> K + y div 2"
  proof (cases "q = 0 \<or> y = y'")
    case False
    have "1 * (y' - y) \<le> q * (y' - y)"
      using q(2) assms(3) False by (intro mult_right_mono) auto
    moreover have "y' div 2 - y div 2 \<le> y' - y"
      using assms(3) False by linarith
    ultimately have "y' div 2 - y div 2 \<le> q * y' - q * y"
      unfolding right_diff_distrib by simp
    then show ?thesis
      using q(1) by linarith
  qed (use q assms in auto)
  then show ?thesis
    using assms(2) floor_geI [of y q "K + y div 2"] by (simp add: q_def)
qed

lemma slippageFunc_tail:
  assumes "thr \<le> x" and "0 \<le> thr" and "0 \<le> n"
    and "slippageFunc (Some k) (Some n) (Some c1) (Some thr) x = Some (Inr g)"
  obtains r where "rpow (x * RAY div WAD) n = Some r" "0 < r * WAD div RAY"
    "g = (k * WAD + r * WAD div RAY div 2) div (r * WAD div RAY)"
proof -
  have "0 \<le> x * RAY div WAD"
    using assms(1,2) by (simp add: RAY_def WAD_def pos_imp_zdiv_nonneg_iff)
  then obtain r where r: "rpow (x * RAY div WAD) n = Some r" "0 \<le> r"
    using rpow_mono [OF assms(3), of _ "x * RAY div WAD"] by blast
  then have "0 \<le> r * WAD div RAY"
    by (simp add: RAY_def WAD_def pos_imp_zdiv_nonneg_iff)
  moreover have "r * WAD div RAY \<noteq> 0"
    using assms r by (auto simp: slippageFunc_def wdiv_def split: if_splits)
  ultimately have pos: "0 < r * WAD div RAY" by simp
  moreover from this have "g = (k * WAD + r * WAD div RAY div 2) div (r * WAD div RAY)"
    using assms r by (auto simp: slippageFunc_def split: if_splits)
  ultimately show thesis
    using r(1) that by blast
qed

lemma slippageFunc_antitone:
  assumes c: "curve_ok k n thr" and x: "x \<le> x'" "(x < thr) = (x' < thr)"
    and g: "slippageFunc (Some k) (Some n) (Some c1) (Some thr) x = Some (Inr g)"
    and g': "slippageFunc (Some k) (Some n) (Some c1) (Some thr) x' = Some (Inr g')"
  shows "g' \<le> g"
proof (cases "x < thr")
  case True
  then show ?thesis
    using x g g' by (auto simp: slippageFunc_def)
next
  case False
  have k: "0 \<le> k" and n: "0 \<le> n" and thr: "0 \<le> thr"
    using c by (auto simp: curve_ok_def)
  have u: "thr \<le> x" "thr \<le> x'" using False x by auto
  obtain r where r: "rpow (x * RAY div WAD) n = Some r" "0 < r * WAD div RAY"
    "g = (k * WAD + r * WAD div RAY div 2) div (r * WAD div RAY)"
    using u(1) thr n g by (rule slippageFunc_tail)
  obtain r' where r': "rpow (x' * RAY div WAD) n = Some r'"
    "g' = (k * WAD + r' * WAD div RAY div 2) div (r' * WAD div RAY)"
    using u(2) thr n g' by (rule slippageFunc_tail)
  have "0 \<le> x * RAY div WAD" "x * RAY div WAD \<le> x' * RAY div WAD"
    using u x(1) thr by (auto simp: RAY_def WAD_def pos_imp_zdiv_nonneg_iff intro: zdiv_mono1)
  then have "r \<le> r'"
    using rpow_mono [OF n] r(1) r'(1) by fastforce
  then have "r * WAD div RAY \<le> r' * WAD div RAY"
    by (intro zdiv_mono1 mult_right_mono) (auto simp: WAD_def RAY_def)
  then show ?thesis
    unfolding r(3) r'(2) using r(2) k by (intro wdiv_antitone) (auto simp: WAD_def)
qed

lemma default_curve_jumps:
  "slippageFunc (Some 20000000000000) (Some 7) (Some 376927610599998308) (Some 329811659274998519)
     329811659274998519 = Some (Inr (376927610599998308 - 329811659274998519 + 26))"
  by code_simp

lemma wdiv_mono: "0 < d \<Longrightarrow> x \<le> y \<Longrightarrow> (x * WAD + d div 2) div d \<le> (y * WAD + d div 2) div d"
  by (intro zdiv_mono1) (auto simp: WAD_def)

text \<open>The coverage ratio crosses the threshold.\<close>

definition coverage :: "int \<Rightarrow> int \<Rightarrow> int" where
  "coverage cash l = (cash * WAD + l div 2) div l"

definition crosses :: "int \<Rightarrow> int \<Rightarrow> int \<Rightarrow> int \<Rightarrow> bool" where
  "crosses thr l before after = ((coverage before l < thr) \<noteq> (coverage after l < thr))"

text \<open>A slippage is the fall of the curve over the change of the coverage ratio.\<close>

lemma slippage_Inr:
  assumes l: "0 < l"
    and s: "slippage (Some k) (Some n) (Some c1) (Some thr) (Some cash) (Some l) d add = Some (Inr s)"
    and ne: "coverage cash l \<noteq> coverage (if add then cash + d else cash - d) l"
  obtains b a where "slippageFunc (Some k) (Some n) (Some c1) (Some thr) (coverage cash l) = Some (Inr b)"
    "slippageFunc (Some k) (Some n) (Some c1) (Some thr) (coverage (if add then cash + d else cash - d) l) = Some (Inr a)"
    "(if coverage cash l > coverage (if add then cash + d else cash - d) l
      then wdiv (Some (a - b)) (Some (coverage cash l - coverage (if add then cash + d else cash - d) l))
      else wdiv (Some (b - a)) (Some (coverage (if add then cash + d else cash - d) l - coverage cash l))) = Inr s"
proof -
  define w where "w = coverage cash l"
  define after where "after = coverage (if add then cash + d else cash - d) l"
  have "wdiv (Some cash) (Some l) = Inr w"
    and "bnd (deref (Some cash)) (\<lambda>c. wdiv (Some (if add then c + d else c - d)) (Some l)) = Inr after"
    using l by (simp_all add: w_def after_def coverage_def)
  with s ne have "call (slippageFunc (Some k) (Some n) (Some c1) (Some thr) w) (\<lambda>b.
       call (slippageFunc (Some k) (Some n) (Some c1) (Some thr) after) (\<lambda>a.
       if w > after then Some (wdiv (Some (a - b)) (Some (w - after)))
       else Some (wdiv (Some (b - a)) (Some (after - w))))) = Some (Inr s)"
    unfolding slippage_def w_def [symmetric] after_def [symmetric] by (simp only: call_simps if_False)
  then show thesis
    using that unfolding w_def [symmetric] after_def [symmetric]
    by (auto simp: call_eq_Inr split: if_splits)
qed

lemma slippage_flat:
  assumes "0 < l" and "coverage cash l = coverage (if add then cash + d else cash - d) l"
    and "slippage (Some k) (Some n) (Some c1) (Some thr) (Some cash) (Some l) d add = Some (Inr s)"
  shows "s = 0"
  using assms by (simp add: slippage_def coverage_def)

text \<open>Below the threshold the curve falls with slope one.\<close>

lemma slippage_below:
  assumes l: "0 < l"
    and s: "slippage (Some k) (Some n) (Some c1) (Some thr) (Some cash) (Some l) d add = Some (Inr s)"
    and ne: "coverage cash l \<noteq> coverage (if add then cash + d else cash - d) l"
    and thr: "coverage cash l < thr" "coverage (if add then cash + d else cash - d) l < thr"
  shows "s = WAD"
proof -
  have one: "(x * WAD + x div 2) div x = WAD" if "0 < x" for x :: int
  proof (rule int_div_pos_eq [where r = "x div 2"])
    show "x * WAD + x div 2 = x * WAD + x div 2" "0 \<le> x div 2" "x div 2 < x"
      using that by auto
  qed
  obtain b a where "slippageFunc (Some k) (Some n) (Some c1) (Some thr) (coverage cash l) = Some (Inr b)"
    "slippageFunc (Some k) (Some n) (Some c1) (Some thr) (coverage (if add then cash + d else cash - d) l) = Some (Inr a)"
    and s': "(if coverage cash l > coverage (if add then cash + d else cash - d) l
      then wdiv (Some (a - b)) (Some (coverage cash l - coverage (if add then cash + d else cash - d) l))
      else wdiv (Some (b - a)) (Some (coverage (if add then cash + d else cash - d) l - coverage cash l))) = Inr s"
    using l s ne by (rule slippage_Inr)
  then have "b = c1 - coverage cash l" "a = c1 - coverage (if add then cash + d else cash - d) l"
    using thr by (simp_all add: slippageFunc_def)
  with s' ne show ?thesis
    by (simp add: one split: if_split_asm)
qed

lemma slippage_nonneg:
  assumes c: "curve_ok k n thr" and l: "0 < l" and d: "0 \<le> d"
    and side: "\<not> crosses thr l cash (if add then cash + d else cash - d)"
    and s: "slippage (Some k) (Some n) (Some c1) (Some thr) (Some cash) (Some l) d add = Some (Inr s)"
  shows "0 \<le> s"
proof (cases "coverage cash l = coverage (if add then cash + d else cash - d) l")
  case True
  with slippage_flat [OF l True s] show ?thesis by simp
next
  case False
  define w after where "w = coverage cash l" and "after = coverage (if add then cash + d else cash - d) l"
  have same: "(w < thr) = (after < thr)"
    using side by (simp add: crosses_def w_def after_def)
  obtain b a where b: "slippageFunc (Some k) (Some n) (Some c1) (Some thr) w = Some (Inr b)"
    and a: "slippageFunc (Some k) (Some n) (Some c1) (Some thr) after = Some (Inr a)"
    and s': "(if w > after then wdiv (Some (a - b)) (Some (w - after))
      else wdiv (Some (b - a)) (Some (after - w))) = Inr s"
    using l s False unfolding w_def after_def by (rule slippage_Inr)
  show ?thesis
  proof (cases "w > after")
    case True
    then have "b \<le> a"
      using slippageFunc_antitone [OF c _ _ a b] same by simp
    then show ?thesis
      using s' True by (auto simp: WAD_def pos_imp_zdiv_nonneg_iff)
  next
    case less: False
    then have "a \<le> b"
      using slippageFunc_antitone [OF c _ _ b a] same by simp
    then show ?thesis
      using s' less False by (auto simp: w_def after_def WAD_def pos_imp_zdiv_nonneg_iff)
  qed
qed

subsection \<open>What a quote pays\<close>

definition plat_wf :: "PoolSimulator \<Rightarrow> bool" where
  "plat_wf p = ((case (SlippageParamK p, SlippageParamN p, C1 p, XThreshold p, HaircutRate p) of
      (Some k, Some n, Some c1, Some thr, Some rate) \<Rightarrow> curve_ok k n thr \<and> 0 \<le> rate \<and> rate \<le> WAD
    | _ \<Rightarrow> False) \<and>
    (Type (Info p) = PoolTypePlatypusAvax \<longrightarrow> (case SAvaxRate p of None \<Rightarrow> False | Some savax \<Rightarrow> 0 < savax)))"

definition solvent :: "Asset \<Rightarrow> bool" where
  "solvent a = (case (Cash a, Liability a) of (Some c, Some l) \<Rightarrow> 0 \<le> c \<and> 0 < l | _ \<Rightarrow> False)"

lemma plat_wfE:
  assumes "plat_wf p"
  obtains k n c1 thr rate where "SlippageParamK p = Some k" "SlippageParamN p = Some n" "C1 p = Some c1"
    "XThreshold p = Some thr" "HaircutRate p = Some rate"
    "curve_ok k n thr" "0 \<le> rate" "rate \<le> WAD"
  using assms by (auto simp: plat_wf_def split: option.splits)

lemma wmul_nonneg: "0 \<le> x \<Longrightarrow> 0 \<le> y \<Longrightarrow> 0 \<le> wmul x y"
  by (simp add: wmul_def WAD_def pos_imp_zdiv_nonneg_iff)

lemma wmul_le: "0 \<le> x \<Longrightarrow> y \<le> WAD \<Longrightarrow> wmul x y \<le> x"
proof -
  assume "0 \<le> x" "y \<le> WAD"
  then have "x * y + WAD div 2 \<le> x * WAD + WAD div 2" by (simp add: mult_left_mono)
  then have "wmul x y \<le> (x * WAD + WAD div 2) div WAD"
    unfolding wmul_def by (intro zdiv_mono1) (auto simp: WAD_def)
  then show ?thesis by (simp add: WAD_def)
qed

lemma ideal_nonneg:
  assumes "plat_wf p" and "quoteIdealToAmount p a b x = Inr i" and "0 \<le> x"
  shows "0 \<le> i"
  using assms
  by (auto simp: plat_wf_def quoteIdealToAmount_def quoteIdealToAmountSAvax_def TenPowInt_eq wmul_nonneg WAD_def
      pos_imp_zdiv_nonneg_iff split: option.splits if_splits)

text \<open>What one side of a swap is charged: no slippage when the coverage ratio does not move, the whole
  move below the threshold of the curve, and never a negative one unless the ratio crosses the
  threshold.\<close>

definition fair :: "int \<Rightarrow> int \<Rightarrow> int \<Rightarrow> int \<Rightarrow> int \<Rightarrow> bool" where
  "fair thr l before after s =
     ((coverage before l = coverage after l \<longrightarrow> s = 0) \<and>
      (coverage before l \<noteq> coverage after l \<and> coverage before l < thr \<and> coverage after l < thr \<longrightarrow> s = WAD) \<and>
      (\<not> crosses thr l before after \<longrightarrow> 0 \<le> s))"

lemma slippage_fair:
  assumes "curve_ok k n thr" and "0 < l" and "0 \<le> d"
    and "slippage (Some k) (Some n) (Some c1) (Some thr) (Some cash) (Some l) d add = Some (Inr s)"
  shows "fair thr l cash (if add then cash + d else cash - d) s"
  using slippage_flat [OF assms(2) _ assms(4)] slippage_below [OF assms(2,4)] slippage_nonneg [OF assms(1-3) _ assms(4)]
  unfolding fair_def by blast

text \<open>C33: a Platypus quote pays, before the fee, the ideal amount times one plus the slippage of the
  source asset minus that of the target asset, where the slippages are those of the curve for the cash
  that comes in and the ideal amount that goes out; the fee is the haircut of that.  A slippage is zero
  when the coverage ratio does not move, one below the threshold of the curve, and not negative unless the
  ratio crosses the threshold.  The ideal amount is covered by the target's cash, so the payment is covered
  whenever the target's slippage is at least the source's.\<close>

theorem platypus_quote:
  assumes wf: "plat_wf p" and calc: "CalcAmountOut p q = Some (Inr r)"
    and from': "AssetByToken p (Token (TokenAmountIn q)) = Some fromAsset" "solvent fromAsset"
    and to': "AssetByToken p (TokenOut q) = Some toAsset" "solvent toAsset"
  shows "\<exists>a ideal si sj out fee cf ct lf lt thr rate. Amount (TokenAmountIn q) = Some a \<and>
    Cash fromAsset = Some cf \<and> Liability fromAsset = Some lf \<and> Cash toAsset = Some ct \<and>
    Liability toAsset = Some lt \<and> XThreshold p = Some thr \<and> HaircutRate p = Some rate \<and>
    quoteIdealToAmount p fromAsset toAsset a = Inr ideal \<and> ideal \<le> ct \<and>
    slippage (SlippageParamK p) (SlippageParamN p) (C1 p) (XThreshold p) (Some cf) (Some lf) a True = Some (Inr si) \<and>
    slippage (SlippageParamK p) (SlippageParamN p) (C1 p) (XThreshold p) (Some ct) (Some lt) ideal False = Some (Inr sj) \<and>
    fair thr lf cf (cf + a) si \<and> fair thr lt ct (ct - ideal) sj \<and>
    TokenAmountOut r = Some (token_amount (TokenOut q) (Some out)) \<and>
    Fee r = Some (token_amount (TokenOut q) (Some fee)) \<and>
    out + fee = wmul ideal (WAD + si - sj) \<and> fee = wmul (out + fee) rate \<and>
    (si \<le> sj \<and> sj \<le> WAD + si \<longrightarrow> 0 \<le> fee \<and> 0 \<le> out \<and> out \<le> ct)"
proof -
  obtain k n c1 thr rate where p: "SlippageParamK p = Some k" "SlippageParamN p = Some n" "C1 p = Some c1"
    "XThreshold p = Some thr" "HaircutRate p = Some rate" and c: "curve_ok k n thr" and rate: "0 \<le> rate" "rate \<le> WAD"
    using wf by (rule plat_wfE)
  obtain cf lf where f: "Cash fromAsset = Some cf" "Liability fromAsset = Some lf" "0 \<le> cf" "0 < lf"
    using from'(2) by (auto simp: solvent_def split: option.splits)
  obtain ct lt where t: "Cash toAsset = Some ct" "Liability toAsset = Some lt" "0 \<le> ct" "0 < lt"
    using to'(2) by (auto simp: solvent_def split: option.splits)
  obtain a out fee where a: "Amount (TokenAmountIn q) = Some a" "0 < a"
    and quote: "quoteFrom p fromAsset toAsset a = Some (Inr (out, fee))"
    and r: "TokenAmountOut r = Some (token_amount (TokenOut q) (Some out))"
      "Fee r = Some (token_amount (TokenOut q) (Some fee))"
    using calc from'(1) to'(1) by (auto elim!: quote_amounts)
  obtain ideal si sj where i: "quoteIdealToAmount p fromAsset toAsset a = Inr ideal" "ideal \<le> ct"
    and si: "slippage (Some k) (Some n) (Some c1) (Some thr) (Some cf) (Some lf) a True = Some (Inr si)"
    and sj: "slippage (Some k) (Some n) (Some c1) (Some thr) (Some ct) (Some lt) ideal False = Some (Inr sj)"
    and out: "fee = wmul (wmul ideal (WAD + si - sj)) rate" "out = wmul ideal (WAD + si - sj) - fee"
    using quote p f t
    by (auto simp: quoteFrom_def call_eq_Inr Let_def swappingSlippage_def haircut_def split: if_splits)
  have i0: "0 \<le> ideal"
    using ideal_nonneg [OF wf i(1)] a(2) by simp
  have s: "fair thr lf cf (cf + a) si" "fair thr lt ct (ct - ideal) sj"
    using slippage_fair [OF c f(4) _ si] slippage_fair [OF c t(4) i0 sj] a(2) by simp_all
  have pay: "si \<le> sj \<and> sj \<le> WAD + si \<longrightarrow> 0 \<le> fee \<and> 0 \<le> out \<and> out \<le> ct"
  proof
    assume le: "si \<le> sj \<and> sj \<le> WAD + si"
    define w where "w = wmul ideal (WAD + si - sj)"
    have w: "0 \<le> w" "w \<le> ideal"
      using i0 le by (auto simp: w_def intro: wmul_nonneg wmul_le)
    then have "0 \<le> wmul w rate" "wmul w rate \<le> w"
      using rate by (auto intro: wmul_nonneg wmul_le)
    with out w i(2) show "0 \<le> fee \<and> 0 \<le> out \<and> out \<le> ct" by (simp add: w_def [symmetric])
  qed
  have sum: "out + fee = wmul ideal (WAD + si - sj)" "fee = wmul (out + fee) rate"
    using out by simp_all
  show ?thesis
    by (intro exI conjI) (fact a(1) f(1,2) t(1,2) p(4,5) i r sum s pay si [folded p] sj [folded p])+
qed

text \<open>The other case is not covered: an asset short of cash is refilled at a premium, and the premium is
  paid from the target's cash without a check.\<close>

definition ex_asset :: "string \<Rightarrow> int \<Rightarrow> int \<Rightarrow> Asset" where
  "ex_asset t c l = \<lparr>Address_a = t, Decimals = 18, Cash = Some c, Liability = Some l, UnderlyingToken = t,
     AggregateAccount = ''usd''\<rparr>"

definition ex_plat :: PoolSimulator where
  "ex_plat = \<lparr>Info = \<lparr>Address = ''p'', Exchange = ''platypus'', Type = ''platypus-base'', Tokens = [''a'', ''b''],
       Reserves = [], SwapFee = None, BlockNumber = 0\<rparr>,
     C1 = Some 376927610599998308, RetentionRatio = Some 0, SlippageParamK = Some 20000000000000,
     SlippageParamN = Some 7, XThreshold = Some 329811659274998519, HaircutRate = Some 300000000000000,
     SAvaxRate = None,
     AssetByToken = map_of [(''a'', ex_asset ''a'' 1000 100000), (''b'', ex_asset ''b'' 1000 1000),
                            (''c'', ex_asset ''c'' 1100 1000)],
     chain = 43114, gas = DefaultGas\<rparr>"

definition ex_plat_request :: "string \<Rightarrow> int \<Rightarrow> string \<Rightarrow> unit CalcAmountOutParams" where
  "ex_plat_request tin a tout = \<lparr>TokenAmountIn = token_amount tin (Some a), TokenOut = tout, Limit = None\<rparr>"

definition ex_plat_paid :: "string \<Rightarrow> int \<Rightarrow> string \<Rightarrow> (int \<times> int) option" where
  "ex_plat_paid tin a tout = (case CalcAmountOut ex_plat (ex_plat_request tin a tout) of
     Some (Inr r) \<Rightarrow> (case UpdateBalance ex_plat (update_params (ex_plat_request tin a tout) r) of
        Inr p \<Rightarrow> (case (TokenAmountOut r, AssetByToken p tout) of
          (Some t, Some asset) \<Rightarrow> Some (the (Amount t), the (Cash asset)) | _ \<Rightarrow> None)
      | _ \<Rightarrow> None) | _ \<Rightarrow> None)"

lemma ex_plat_wf: "plat_wf ex_plat"
  by code_simp

lemma ex_plat_ok: "plat_ok ex_plat"
  by (auto simp: plat_ok_def ex_plat_def ex_asset_def asset_ok_def PoolTypePlatypusAvax_def split: if_splits)

lemma ex_plat_solvent: "solvent (ex_asset t 1000 1000)" "solvent (ex_asset t 1100 1000)"
  by (simp_all add: solvent_def ex_asset_def)

lemma ex_plat_quote: "\<exists>r. CalcAmountOut ex_plat (ex_plat_request ''c'' 100 ''b'') = Some (Inr r)"
proof -
  have "(case CalcAmountOut ex_plat (ex_plat_request ''c'' 100 ''b'') of Some (Inr r) \<Rightarrow> True | _ \<Rightarrow> False)"
    by code_simp
  then show ?thesis by (auto split: option.splits sum.splits)
qed

text \<open>A Platypus quote can exceed the target's cash, which the contract refuses: swapping 1000 into an
  asset at one percent coverage is quoted 1623 of an asset that holds 1000, and applying the quote
  leaves the asset with negative cash.\<close>

theorem platypus_overpays: "ex_plat_paid ''a'' 1000 ''b'' = Some (1623, -623)"
  by code_simp

text \<open>A hundred units into an asset at 110 percent coverage, out of one at 100 percent.\<close>

theorem platypus_quote_witness:
  "\<exists>r si sj out fee. CalcAmountOut ex_plat (ex_plat_request ''c'' 100 ''b'') = Some (Inr r) \<and>
    slippage (SlippageParamK ex_plat) (SlippageParamN ex_plat) (C1 ex_plat) (XThreshold ex_plat)
      (Some 1100) (Some 1000) 100 True = Some (Inr si) \<and>
    slippage (SlippageParamK ex_plat) (SlippageParamN ex_plat) (C1 ex_plat) (XThreshold ex_plat)
      (Some 1000) (Some 1000) 100 False = Some (Inr sj) \<and> 0 \<le> si \<and> 0 \<le> sj \<and>
    TokenAmountOut r = Some (token_amount ''b'' (Some out)) \<and> out + fee = wmul 100 (WAD + si - sj)"
proof -
  obtain r where r: "CalcAmountOut ex_plat (ex_plat_request ''c'' 100 ''b'') = Some (Inr r)"
    using ex_plat_quote by blast
  have assets: "AssetByToken ex_plat (Token (TokenAmountIn (ex_plat_request ''c'' 100 ''b''))) = Some (ex_asset ''c'' 1100 1000)"
    "AssetByToken ex_plat (TokenOut (ex_plat_request ''c'' 100 ''b'')) = Some (ex_asset ''b'' 1000 1000)"
    by (simp_all add: ex_plat_def ex_plat_request_def)
  have numbers: "Cash (ex_asset t c l) = Some c" "Liability (ex_asset t c l) = Some l"
    "Amount (TokenAmountIn (ex_plat_request ''c'' 100 ''b'')) = Some 100" "TokenOut (ex_plat_request ''c'' 100 ''b'') = ''b''" for t c l
    by (simp_all add: ex_asset_def ex_plat_request_def)
  have ideal: "quoteIdealToAmount ex_plat (ex_asset ''c'' 1100 1000) (ex_asset ''b'' 1000 1000) 100 = Inr 100"
    by code_simp
  have stays: "fair (the (XThreshold ex_plat)) 1000 1100 1200 s \<Longrightarrow> 0 \<le> s"
    "fair (the (XThreshold ex_plat)) 1000 1000 900 s \<Longrightarrow> 0 \<le> s" for s
    by (simp_all add: fair_def crosses_def coverage_def ex_plat_def WAD_def)
  from platypus_quote [OF ex_plat_wf r assets(1) ex_plat_solvent(2) assets(2) ex_plat_solvent(1)]
  show ?thesis
  proof (elim exE conjE)
    fix a ideal' si sj out fee cf ct lf lt thr
    assume *: "Amount (TokenAmountIn (ex_plat_request ''c'' 100 ''b'')) = Some a" "Cash (ex_asset ''c'' 1100 1000) = Some cf"
      "Liability (ex_asset ''c'' 1100 1000) = Some lf" "Cash (ex_asset ''b'' 1000 1000) = Some ct"
      "Liability (ex_asset ''b'' 1000 1000) = Some lt" "XThreshold ex_plat = Some thr"
      "quoteIdealToAmount ex_plat (ex_asset ''c'' 1100 1000) (ex_asset ''b'' 1000 1000) a = Inr ideal'"
      and "slippage (SlippageParamK ex_plat) (SlippageParamN ex_plat) (C1 ex_plat) (XThreshold ex_plat)
        (Some cf) (Some lf) a True = Some (Inr si)"
      "slippage (SlippageParamK ex_plat) (SlippageParamN ex_plat) (C1 ex_plat) (XThreshold ex_plat)
        (Some ct) (Some lt) ideal' False = Some (Inr sj)"
      "fair thr lf cf (cf + a) si" "fair thr lt ct (ct - ideal') sj"
      "TokenAmountOut r = Some (token_amount (TokenOut (ex_plat_request ''c'' 100 ''b'')) (Some out))"
      "out + fee = wmul ideal' (WAD + si - sj)"
    moreover have "a = 100" "cf = 1100" "lf = 1000" "ct = 1000" "lt = 1000" "ideal' = 100"
      using * ideal by (simp_all add: numbers)
    ultimately show ?thesis
      using r stays by (auto simp: numbers)
  qed
qed

theorem platypus_never_panics_witness:
  "\<exists>p' m. plat_step ex_plat p' \<and> CalcAmountOut p' (ex_plat_request ''b'' 100 ''c'') = Some m \<and> \<not> is_panic m"
proof -
  obtain r where r: "CalcAmountOut ex_plat (ex_plat_request ''c'' 100 ''b'') = Some (Inr r)"
    using ex_plat_quote by blast
  then obtain p' where "UpdateBalance ex_plat (update_params (ex_plat_request ''c'' 100 ''b'') r) = Inr p'"
    using update_ok [OF ex_plat_ok r] by blast
  with r have step: "plat_step ex_plat p'"
    by (rule plat_step.swap)
  moreover have "plat_step\<^sup>*\<^sup>* ex_plat p'"
    using step by simp
  ultimately show ?thesis
    using platypus_never_panics [OF _ ex_plat_ok, of p' "ex_plat_request ''b'' 100 ''c''"]
    by (auto simp: ex_plat_request_def)
qed

end
