(* ===== verification/Fluid_Dex.thy ===== *)
theory Fluid_Dex
  imports Pool_Interface Valueobject Bignumber
begin

text \<open>
  The simulator of \<open>pkg/liquidity-source/fluid/dex-t1\<close>: a pair whose liquidity is a collateral pool and a
  debt pool, each with real reserves and the larger imaginary reserves that price it.  A swap is routed
  to one of them or split over both, within borrow and withdrawal limits that grow with time.

  The structs of reserves and limits hold \<open>*big.Int\<close>: a pool stores them with nil possible
  (\<open>bigint CollateralReserves\<close>), and \<open>Clone\<close>, which every quote starts with, dereferences them.  The swap
  functions update the clones in place; here they return them.  JSON decoding, \<open>lo.Map\<close> and
  \<open>lo.Ternary\<close> are third-party code and parameters (\<open>deps\<close>); the two readings of the clock in a swap are
  parameters too.  \<open>int64(float64)\<close> is the truncation, for values in range.
\<close>

definition DexAmountsDecimals :: int where
  "DexAmountsDecimals = 12"

definition FeePercentPrecision :: float64 where
  "FeePercentPrecision = (10 ^ 4, 0)"

definition defaultGas :: int where
  "defaultGas = 155433"

definition MaxPriceDiff :: int where
  "MaxPriceDiff = 5"

definition MinSwapLiquidity :: int where
  "MinSwapLiquidity = 8500"

definition SixDecimals :: int where
  "SixDecimals = 10 ^ 6"

definition TwoDecimals :: int where
  "TwoDecimals = 10 ^ 2"

definition bI1e18 :: int where
  "bI1e18 = 10 ^ 18"

definition bI1e27 :: int where
  "bI1e27 = 10 ^ 27"

subsection \<open>Reserves and limits\<close>

record 'n CollateralReserves =
  Token0RealReserves :: 'n
  Token1RealReserves :: 'n
  Token0ImaginaryReserves :: 'n
  Token1ImaginaryReserves :: 'n

record 'n DebtReserves =
  Token0Debt :: 'n
  Token1Debt :: 'n
  Token0RealReserves_d :: 'n
  Token1RealReserves_d :: 'n
  Token0ImaginaryReserves_d :: 'n
  Token1ImaginaryReserves_d :: 'n

record 'n TokenLimit =
  Available :: 'n
  ExpandsTo :: 'n
  ExpandDuration :: 'n

record 'n DexLimits =
  WithdrawableToken0 :: "'n TokenLimit"
  WithdrawableToken1 :: "'n TokenLimit"
  BorrowableToken0 :: "'n TokenLimit"
  BorrowableToken1 :: "'n TokenLimit"

definition CollateralReserves_Clone :: "bigint CollateralReserves \<Rightarrow> int CollateralReserves go" where
  "CollateralReserves_Clone r =
     bnd (deref (Token0RealReserves r)) (\<lambda>a. bnd (deref (Token1RealReserves r)) (\<lambda>b.
     bnd (deref (Token0ImaginaryReserves r)) (\<lambda>c. bnd (deref (Token1ImaginaryReserves r)) (\<lambda>d.
     Inr \<lparr>Token0RealReserves = a, Token1RealReserves = b, Token0ImaginaryReserves = c,
          Token1ImaginaryReserves = d\<rparr>))))"

definition DebtReserves_Clone :: "bigint DebtReserves \<Rightarrow> int DebtReserves go" where
  "DebtReserves_Clone r =
     bnd (deref (Token0Debt r)) (\<lambda>x. bnd (deref (Token1Debt r)) (\<lambda>y.
     bnd (deref (Token0RealReserves_d r)) (\<lambda>a. bnd (deref (Token1RealReserves_d r)) (\<lambda>b.
     bnd (deref (Token0ImaginaryReserves_d r)) (\<lambda>c. bnd (deref (Token1ImaginaryReserves_d r)) (\<lambda>d.
     Inr \<lparr>Token0Debt = x, Token1Debt = y, Token0RealReserves_d = a, Token1RealReserves_d = b,
          Token0ImaginaryReserves_d = c, Token1ImaginaryReserves_d = d\<rparr>))))))"

definition TokenLimit_Clone :: "bigint TokenLimit \<Rightarrow> int TokenLimit go" where
  "TokenLimit_Clone t =
     bnd (deref (Available t)) (\<lambda>a. bnd (deref (ExpandsTo t)) (\<lambda>e. bnd (deref (ExpandDuration t)) (\<lambda>d.
     Inr \<lparr>Available = a, ExpandsTo = e, ExpandDuration = d\<rparr>)))"

definition DexLimits_Clone :: "bigint DexLimits \<Rightarrow> int DexLimits go" where
  "DexLimits_Clone d =
     bnd (TokenLimit_Clone (WithdrawableToken0 d)) (\<lambda>w0. bnd (TokenLimit_Clone (WithdrawableToken1 d)) (\<lambda>w1.
     bnd (TokenLimit_Clone (BorrowableToken0 d)) (\<lambda>b0. bnd (TokenLimit_Clone (BorrowableToken1 d)) (\<lambda>b1.
     Inr \<lparr>WithdrawableToken0 = w0, WithdrawableToken1 = w1, BorrowableToken0 = b0, BorrowableToken1 = b1\<rparr>))))"

text \<open>Pointers to the numbers of a clone.\<close>

definition col_ptr :: "int CollateralReserves \<Rightarrow> bigint CollateralReserves" where
  "col_ptr r = \<lparr>Token0RealReserves = Some (Token0RealReserves r), Token1RealReserves = Some (Token1RealReserves r),
     Token0ImaginaryReserves = Some (Token0ImaginaryReserves r),
     Token1ImaginaryReserves = Some (Token1ImaginaryReserves r)\<rparr>"

definition debt_ptr :: "int DebtReserves \<Rightarrow> bigint DebtReserves" where
  "debt_ptr r = \<lparr>Token0Debt = Some (Token0Debt r), Token1Debt = Some (Token1Debt r),
     Token0RealReserves_d = Some (Token0RealReserves_d r), Token1RealReserves_d = Some (Token1RealReserves_d r),
     Token0ImaginaryReserves_d = Some (Token0ImaginaryReserves_d r),
     Token1ImaginaryReserves_d = Some (Token1ImaginaryReserves_d r)\<rparr>"

definition limit_ptr :: "int TokenLimit \<Rightarrow> bigint TokenLimit" where
  "limit_ptr t = \<lparr>Available = Some (Available t), ExpandsTo = Some (ExpandsTo t),
     ExpandDuration = Some (ExpandDuration t)\<rparr>"

definition limits_ptr :: "int DexLimits \<Rightarrow> bigint DexLimits" where
  "limits_ptr d = \<lparr>WithdrawableToken0 = limit_ptr (WithdrawableToken0 d),
     WithdrawableToken1 = limit_ptr (WithdrawableToken1 d), BorrowableToken0 = limit_ptr (BorrowableToken0 d),
     BorrowableToken1 = limit_ptr (BorrowableToken1 d)\<rparr>"

subsection \<open>Amounts in twelve decimals\<close>

definition toAdjustedAmount :: "int \<Rightarrow> int \<Rightarrow> int go" where
  "toAdjustedAmount amount decimals =
     (let diff = decimals - DexAmountsDecimals in
      if diff = 0 then Inr amount
      else if diff > 0 then bnd (TenPowInt diff) (big_div amount)
      else bnd (TenPowInt (- diff)) (\<lambda>t. Inr (amount * t)))"

definition fromAdjustedAmount :: "int \<Rightarrow> int \<Rightarrow> int go" where
  "fromAdjustedAmount adjustedAmount decimals =
     (let diff = decimals - DexAmountsDecimals in
      if diff = 0 then Inr adjustedAmount
      else if diff < 0 then bnd (TenPowInt (- diff)) (big_div adjustedAmount)
      else bnd (TenPowInt diff) (\<lambda>t. Inr (adjustedAmount * t)))"

definition getExpandedLimit :: "int \<Rightarrow> int \<Rightarrow> int TokenLimit \<Rightarrow> int go" where
  "getExpandedLimit currentTime syncTime limit =
     (let elapsedTime = int64 (currentTime - syncTime) in
      if elapsedTime < 10 then Inr (Available limit)
      else if elapsedTime \<ge> int64 (ExpandDuration limit) then Inr (ExpandsTo limit)
      else bnd (big_div ((ExpandsTo limit - Available limit) * elapsedTime) (ExpandDuration limit))
             (\<lambda>q. Inr (q + Available limit)))"

subsection \<open>Formulas\<close>

definition getAmountOut :: "int \<Rightarrow> int \<Rightarrow> int \<Rightarrow> int go" where
  "getAmountOut amountIn iReserveIn iReserveOut = big_div (amountIn * iReserveOut) (iReserveIn + amountIn)"

definition getAmountIn :: "int \<Rightarrow> int \<Rightarrow> int \<Rightarrow> int go" where
  "getAmountIn amountOut iReserveIn iReserveOut = big_div (amountOut * iReserveIn) (iReserveOut - amountOut)"

text \<open>\<open>big.Int.Sqrt\<close>: the floor of the square root, a panic for negative numbers.\<close>

function isqrt :: "int \<Rightarrow> int" where
  "isqrt n = (if n < 1 then 0
     else let r = 2 * isqrt (n div 4) in if (r + 1) * (r + 1) \<le> n then r + 1 else r)"
  by auto
termination by (relation "measure nat") auto

declare isqrt.simps [simp del]

definition big_sqrt :: "int \<Rightarrow> int go" where
  "big_sqrt n = (if n < 0 then Inl (Panic (PanicMessage ''square root of negative number'')) else Inr (isqrt n))"

definition swapRoutingIn :: "int \<Rightarrow> int \<Rightarrow> int \<Rightarrow> int \<Rightarrow> int \<Rightarrow> int go" where
  "swapRoutingIn t x y x2 y2 =
     bnd (big_sqrt (x * y * bI1e18)) (\<lambda>xyRoot.
     bnd (big_sqrt (x2 * y2 * bI1e18)) (\<lambda>x2y2Root.
     big_div (y2 * xyRoot + t * xyRoot - y * x2y2Root) (xyRoot + x2y2Root)))"

definition swapRoutingOut :: "int \<Rightarrow> int \<Rightarrow> int \<Rightarrow> int \<Rightarrow> int \<Rightarrow> int go" where
  "swapRoutingOut t x y x2 y2 =
     bnd (big_sqrt (x * y * bI1e18)) (\<lambda>xyRoot.
     bnd (big_sqrt (x2 * y2 * bI1e18)) (\<lambda>x2y2Root.
     big_div (t * xyRoot + y * x2y2Root - y2 * xyRoot) (xyRoot + x2y2Root)))"

definition verifyToken0Reserves :: "int \<Rightarrow> int \<Rightarrow> int \<Rightarrow> bool go" where
  "verifyToken0Reserves token0Reserves token1Reserves price =
     bnd (big_div (token1Reserves * bI1e27) (price * MinSwapLiquidity)) (\<lambda>q. Inr (token0Reserves \<ge> q))"

definition verifyToken1Reserves :: "int \<Rightarrow> int \<Rightarrow> int \<Rightarrow> bool go" where
  "verifyToken1Reserves token0Reserves token1Reserves price =
     bnd (big_div (token0Reserves * price) (bI1e27 * MinSwapLiquidity)) (\<lambda>q. Inr (token1Reserves \<ge> q))"

subsection \<open>The two pools of a swap\<close>

text \<open>The reserves of one of the two pools, seen in the direction of the swap.\<close>

record side =
  enabled :: bool
  ReserveIn :: int
  ReserveOut :: int
  IReserveIn :: int
  IReserveOut :: int

definition col_side :: "bool \<Rightarrow> int CollateralReserves \<Rightarrow> side" where
  "col_side swap0To1 r =
     \<lparr>enabled = (Token0RealReserves r > 0 \<and> Token1RealReserves r > 0 \<and>
                 Token0ImaginaryReserves r > 0 \<and> Token1ImaginaryReserves r > 0),
      ReserveIn = (if swap0To1 then Token0RealReserves r else Token1RealReserves r),
      ReserveOut = (if swap0To1 then Token1RealReserves r else Token0RealReserves r),
      IReserveIn = (if swap0To1 then Token0ImaginaryReserves r else Token1ImaginaryReserves r),
      IReserveOut = (if swap0To1 then Token1ImaginaryReserves r else Token0ImaginaryReserves r)\<rparr>"

definition debt_side :: "bool \<Rightarrow> int DebtReserves \<Rightarrow> side" where
  "debt_side swap0To1 r =
     \<lparr>enabled = (Token0RealReserves_d r > 0 \<and> Token1RealReserves_d r > 0 \<and>
                 Token0ImaginaryReserves_d r > 0 \<and> Token1ImaginaryReserves_d r > 0),
      ReserveIn = (if swap0To1 then Token0RealReserves_d r else Token1RealReserves_d r),
      ReserveOut = (if swap0To1 then Token1RealReserves_d r else Token0RealReserves_d r),
      IReserveIn = (if swap0To1 then Token0ImaginaryReserves_d r else Token1ImaginaryReserves_d r),
      IReserveOut = (if swap0To1 then Token1ImaginaryReserves_d r else Token0ImaginaryReserves_d r)\<rparr>"

text \<open>The borrowable and the withdrawable amount of the token paid out, in twelve decimals.\<close>

definition swap_limits :: "int \<times> int \<Rightarrow> bool \<Rightarrow> int DexLimits \<Rightarrow> int \<Rightarrow> int \<Rightarrow> (int \<times> int) go" where
  "swap_limits now swap0To1 currentLimits syncTime outDecimals =
     bnd (getExpandedLimit (fst now) syncTime
            (if swap0To1 then BorrowableToken1 currentLimits else BorrowableToken0 currentLimits)) (\<lambda>borrowable.
     bnd (getExpandedLimit (snd now) syncTime
            (if swap0To1 then WithdrawableToken1 currentLimits else WithdrawableToken0 currentLimits)) (\<lambda>withdrawable.
     bnd (toAdjustedAmount borrowable outDecimals) (\<lambda>borrowable.
     bnd (toAdjustedAmount withdrawable outDecimals) (\<lambda>withdrawable.
     Inr (borrowable, withdrawable)))))"

text \<open>How an amount is spread over the two pools, and which of them is touched.\<close>

record split =
  InCollateral :: int
  OutCollateral :: int
  InDebt :: int
  OutDebt :: int
  UpdateCol :: bool
  UpdateDebt :: bool

definition route_in :: "side \<Rightarrow> side \<Rightarrow> int \<Rightarrow> int go" where
  "route_in col debt t =
     (if enabled col \<and> enabled debt
      then swapRoutingIn t (IReserveOut col) (IReserveIn col) (IReserveOut debt) (IReserveIn debt)
      else if enabled debt then Inr (-1)
      else if enabled col then Inr (t + 1)
      else Inl (Err ''no pools are enabled''))"

definition split_in :: "side \<Rightarrow> side \<Rightarrow> int \<Rightarrow> int \<Rightarrow> split go" where
  "split_in col debt t a =
     (if a \<le> 0
      then bnd (getAmountOut t (IReserveIn debt) (IReserveOut debt)) (\<lambda>o'.
           Inr \<lparr>InCollateral = 0, OutCollateral = 0, InDebt = t, OutDebt = o', UpdateCol = False, UpdateDebt = True\<rparr>)
      else if a \<ge> t
      then bnd (getAmountOut t (IReserveIn col) (IReserveOut col)) (\<lambda>o'.
           Inr \<lparr>InCollateral = t, OutCollateral = o', InDebt = 0, OutDebt = 0, UpdateCol = True, UpdateDebt = False\<rparr>)
      else bnd (getAmountOut a (IReserveIn col) (IReserveOut col)) (\<lambda>oc.
           bnd (getAmountOut (t - a) (IReserveIn debt) (IReserveOut debt)) (\<lambda>od.
           Inr \<lparr>InCollateral = a, OutCollateral = oc, InDebt = t - a, OutDebt = od,
                UpdateCol = True, UpdateDebt = True\<rparr>)))"

definition route_out :: "side \<Rightarrow> side \<Rightarrow> int \<Rightarrow> int go" where
  "route_out col debt t =
     (if enabled col \<and> enabled debt
      then swapRoutingOut t (IReserveIn col) (IReserveOut col) (IReserveIn debt) (IReserveOut debt)
      else if enabled debt then Inr (-1)
      else if enabled col then Inr (t + 1)
      else Inl (Err ''no pools are enabled''))"

definition split_out :: "side \<Rightarrow> side \<Rightarrow> int \<Rightarrow> int \<Rightarrow> split go" where
  "split_out col debt t a =
     (if a \<le> 0
      then bnd (getAmountIn t (IReserveIn debt) (IReserveOut debt)) (\<lambda>i.
           if t > ReserveOut debt then Inl (Err ''ErrInsufficientReserve'')
           else Inr \<lparr>InCollateral = 0, OutCollateral = 0, InDebt = i, OutDebt = t,
                     UpdateCol = False, UpdateDebt = True\<rparr>)
      else if a \<ge> t
      then bnd (getAmountIn t (IReserveIn col) (IReserveOut col)) (\<lambda>i.
           if t > ReserveOut col then Inl (Err ''ErrInsufficientReserve'')
           else Inr \<lparr>InCollateral = i, OutCollateral = t, InDebt = 0, OutDebt = 0,
                     UpdateCol = True, UpdateDebt = False\<rparr>)
      else bnd (getAmountIn a (IReserveIn col) (IReserveOut col)) (\<lambda>ic.
           bnd (getAmountIn (t - a) (IReserveIn debt) (IReserveOut debt)) (\<lambda>id.
           if t - a > ReserveOut debt \<or> a > ReserveOut col then Inl (Err ''ErrInsufficientReserve'')
           else Inr \<lparr>InCollateral = ic, OutCollateral = a, InDebt = id, OutDebt = t - a,
                     UpdateCol = True, UpdateDebt = True\<rparr>)))"

subsection \<open>Checks on a split\<close>

definition check_limits :: "split \<Rightarrow> int \<Rightarrow> int \<Rightarrow> unit go" where
  "check_limits s borrowable withdrawable =
     (if OutDebt s > borrowable then Inl (Err ''ErrInsufficientBorrowable'')
      else if OutCollateral s > withdrawable then Inl (Err ''ErrInsufficientWithdrawable'')
      else Inr ())"

definition check_ratio :: "bool \<Rightarrow> side \<Rightarrow> int \<Rightarrow> int \<Rightarrow> bigint \<Rightarrow> unit go" where
  "check_ratio swap0To1 s amountIn amountOut centerPrice =
     (if amountIn > 0
      then bnd (deref centerPrice) (\<lambda>price.
           bnd (if swap0To1 then verifyToken1Reserves (ReserveIn s + amountIn) (ReserveOut s - amountOut) price
                else verifyToken0Reserves (ReserveOut s - amountOut) (ReserveIn s + amountIn) price) (\<lambda>valid.
           if \<not> valid then Inl (Err ''ErrVerifyReservesRatiosInvalid'') else Inr ()))
      else Inr ())"

definition pool_prices :: "bool \<Rightarrow> side \<Rightarrow> int \<Rightarrow> int \<Rightarrow> (int \<times> int) go" where
  "pool_prices swap0To1 s amountIn amountOut =
     (if swap0To1
      then bnd (big_div (IReserveOut s * bI1e27) (IReserveIn s)) (\<lambda>oldPrice.
           bnd (big_div ((IReserveOut s - amountOut) * bI1e27) (IReserveIn s + amountIn)) (\<lambda>newPrice.
           Inr (oldPrice, newPrice)))
      else bnd (big_div (IReserveIn s * bI1e27) (IReserveOut s)) (\<lambda>oldPrice.
           bnd (big_div ((IReserveIn s + amountIn) * bI1e27) (IReserveOut s - amountOut)) (\<lambda>newPrice.
           Inr (oldPrice, newPrice))))"

definition check_price :: "bool \<Rightarrow> side \<Rightarrow> int \<Rightarrow> int \<Rightarrow> unit go" where
  "check_price swap0To1 s amountIn amountOut =
     bnd (pool_prices swap0To1 s amountIn amountOut) (\<lambda>(oldPrice, newPrice).
     if \<bar>oldPrice - newPrice\<bar> > oldPrice * MaxPriceDiff div TwoDecimals
     then Inl (Err ''ErrInsufficientMaxPrice'') else Inr ())"

subsection \<open>Updates of the reserves and limits\<close>

definition shrink :: "int TokenLimit \<Rightarrow> int \<Rightarrow> int TokenLimit" where
  "shrink t amount = t\<lparr>Available := Available t - amount, ExpandsTo := ExpandsTo t - amount\<rparr>"

definition updateCollateralReservesAndLimits ::
    "bool \<Rightarrow> int \<Rightarrow> int \<Rightarrow> int CollateralReserves \<Rightarrow> int DexLimits \<Rightarrow> int \<Rightarrow>
     (int CollateralReserves \<times> int DexLimits) go" where
  "updateCollateralReservesAndLimits swap0To1 amountIn amountOut r limits outDecimals =
     bnd (fromAdjustedAmount amountOut outDecimals) (\<lambda>unadjustedAmountOut.
     Inr (if swap0To1
       then (r\<lparr>Token0RealReserves := Token0RealReserves r + amountIn,
               Token0ImaginaryReserves := Token0ImaginaryReserves r + amountIn,
               Token1RealReserves := Token1RealReserves r - amountOut,
               Token1ImaginaryReserves := Token1ImaginaryReserves r - amountOut\<rparr>,
             limits\<lparr>WithdrawableToken1 := shrink (WithdrawableToken1 limits) unadjustedAmountOut\<rparr>)
       else (r\<lparr>Token0RealReserves := Token0RealReserves r - amountOut,
               Token0ImaginaryReserves := Token0ImaginaryReserves r - amountOut,
               Token1RealReserves := Token1RealReserves r + amountIn,
               Token1ImaginaryReserves := Token1ImaginaryReserves r + amountIn\<rparr>,
             limits\<lparr>WithdrawableToken0 := shrink (WithdrawableToken0 limits) unadjustedAmountOut\<rparr>)))"

definition updateDebtReservesAndLimits ::
    "bool \<Rightarrow> int \<Rightarrow> int \<Rightarrow> int DebtReserves \<Rightarrow> int DexLimits \<Rightarrow> int \<Rightarrow>
     (int DebtReserves \<times> int DexLimits) go" where
  "updateDebtReservesAndLimits swap0To1 amountIn amountOut r limits outDecimals =
     bnd (fromAdjustedAmount amountOut outDecimals) (\<lambda>unadjustedAmountOut.
     Inr (if swap0To1
       then (r\<lparr>Token0RealReserves_d := Token0RealReserves_d r + amountIn,
               Token0ImaginaryReserves_d := Token0ImaginaryReserves_d r + amountIn,
               Token1RealReserves_d := Token1RealReserves_d r - amountOut,
               Token1ImaginaryReserves_d := Token1ImaginaryReserves_d r - amountOut\<rparr>,
             limits\<lparr>BorrowableToken1 := shrink (BorrowableToken1 limits) unadjustedAmountOut\<rparr>)
       else (r\<lparr>Token0RealReserves_d := Token0RealReserves_d r - amountOut,
               Token0ImaginaryReserves_d := Token0ImaginaryReserves_d r - amountOut,
               Token1RealReserves_d := Token1RealReserves_d r + amountIn,
               Token1ImaginaryReserves_d := Token1ImaginaryReserves_d r + amountIn\<rparr>,
             limits\<lparr>BorrowableToken0 := shrink (BorrowableToken0 limits) unadjustedAmountOut\<rparr>)))"

type_synonym swap_state = "int CollateralReserves \<times> int DebtReserves \<times> int DexLimits"

text \<open>The two conditional updates, with the amounts the caller books in the two pools.\<close>

definition book :: "bool \<Rightarrow> split \<Rightarrow> int \<Rightarrow> int \<Rightarrow> swap_state \<Rightarrow> int \<Rightarrow> swap_state go" where
  "book swap0To1 s inCol inDebt st outDecimals =
     (case st of (col, debt, limits) \<Rightarrow>
      bnd (if UpdateCol s
           then updateCollateralReservesAndLimits swap0To1 inCol (OutCollateral s) col limits outDecimals
           else Inr (col, limits)) (\<lambda>(col, limits).
      bnd (if UpdateDebt s
           then updateDebtReservesAndLimits swap0To1 inDebt (OutDebt s) debt limits outDecimals
           else Inr (debt, limits)) (\<lambda>(debt, limits).
      Inr (col, debt, limits))))"

subsection \<open>Swaps\<close>

text \<open>Both pools are booked with the whole amount to swap.\<close>

definition swapInAdjusted ::
    "int \<times> int \<Rightarrow> bool \<Rightarrow> int \<Rightarrow> swap_state \<Rightarrow> int \<Rightarrow> bigint \<Rightarrow> int \<Rightarrow> (int \<times> swap_state) go" where
  "swapInAdjusted now swap0To1 amountToSwap st outDecimals centerPrice syncTime =
     (case st of (colReserves, debtReserves, currentLimits) \<Rightarrow>
      let col = col_side swap0To1 colReserves; debt = debt_side swap0To1 debtReserves in
      bnd (swap_limits now swap0To1 currentLimits syncTime outDecimals) (\<lambda>(borrowable, withdrawable).
      bnd (route_in col debt amountToSwap) (\<lambda>a.
      bnd (split_in col debt amountToSwap a) (\<lambda>s.
      if OutDebt s > ReserveOut debt then Inl (Err ''ErrInsufficientReserve'')
      else if OutCollateral s > ReserveOut col then Inl (Err ''ErrInsufficientReserve'')
      else
        bnd (check_limits s borrowable withdrawable) (\<lambda>_.
        bnd (check_ratio swap0To1 col (InCollateral s) (OutCollateral s) centerPrice) (\<lambda>_.
        bnd (check_ratio swap0To1 debt (InDebt s) (OutDebt s) centerPrice) (\<lambda>_.
        bnd (if InCollateral s > InDebt s
             then check_price swap0To1 col (InCollateral s) (OutCollateral s)
             else check_price swap0To1 debt (InDebt s) (OutDebt s)) (\<lambda>_.
        bnd (book swap0To1 s amountToSwap amountToSwap st outDecimals) (\<lambda>st'.
        bnd (fromAdjustedAmount (OutCollateral s + OutDebt s) outDecimals) (\<lambda>amountOut.
        Inr (amountOut, st')))))))))))"

definition swapIn ::
    "int \<times> int \<Rightarrow> bool \<Rightarrow> int \<Rightarrow> swap_state \<Rightarrow> int \<Rightarrow> int \<Rightarrow> bigint \<Rightarrow> int \<Rightarrow> (int \<times> swap_state) go" where
  "swapIn now swap0To1 amountIn st inDecimals outDecimals centerPrice syncTime =
     bnd (toAdjustedAmount amountIn inDecimals) (\<lambda>amountInAdjusted.
     if amountInAdjusted < SixDecimals \<or> amountIn < TwoDecimals then Inl (Err ''ErrInvalidAmountIn'')
     else swapInAdjusted now swap0To1 amountInAdjusted st outDecimals centerPrice syncTime)"

text \<open>Each pool is booked with the amount it takes in.\<close>

definition swapOutAdjusted ::
    "int \<times> int \<Rightarrow> bool \<Rightarrow> int \<Rightarrow> swap_state \<Rightarrow> int \<Rightarrow> int \<Rightarrow> bigint \<Rightarrow> int \<Rightarrow> (int \<times> swap_state) go" where
  "swapOutAdjusted now swap0To1 amountOut st inDecimals outDecimals centerPrice syncTime =
     (case st of (colReserves, debtReserves, currentLimits) \<Rightarrow>
      let col = col_side swap0To1 colReserves; debt = debt_side swap0To1 debtReserves in
      bnd (swap_limits now swap0To1 currentLimits syncTime outDecimals) (\<lambda>(borrowable, withdrawable).
      bnd (route_out col debt amountOut) (\<lambda>a.
      bnd (split_out col debt amountOut a) (\<lambda>s.
      bnd (check_limits s borrowable withdrawable) (\<lambda>_.
      bnd (check_ratio swap0To1 col (InCollateral s) (OutCollateral s) centerPrice) (\<lambda>_.
      bnd (check_ratio swap0To1 debt (InDebt s) (OutDebt s) centerPrice) (\<lambda>_.
      bnd (if OutCollateral s > OutDebt s
           then check_price swap0To1 col (InCollateral s) (OutCollateral s)
           else check_price swap0To1 debt (InDebt s) (OutDebt s)) (\<lambda>_.
      bnd (book swap0To1 s (InCollateral s) (InDebt s) st outDecimals) (\<lambda>st'.
      bnd (fromAdjustedAmount (InCollateral s + InDebt s) inDecimals) (\<lambda>amountIn.
      Inr (amountIn, st')))))))))))"

definition swapOut ::
    "int \<times> int \<Rightarrow> bool \<Rightarrow> int \<Rightarrow> swap_state \<Rightarrow> int \<Rightarrow> int \<Rightarrow> bigint \<Rightarrow> int \<Rightarrow> (int \<times> swap_state) go" where
  "swapOut now swap0To1 amountOut st inDecimals outDecimals centerPrice syncTime =
     bnd (toAdjustedAmount amountOut outDecimals) (\<lambda>amount.
     swapOutAdjusted now swap0To1 amount st inDecimals outDecimals centerPrice syncTime)"

subsection \<open>The simulator\<close>

record PoolExtra =
  CollateralReserves_x :: "bigint CollateralReserves"
  DebtReserves_x :: "bigint DebtReserves"
  IsSwapAndArbitragePaused_x :: bool
  DexLimits_x :: "bigint DexLimits"
  CenterPrice_x :: bigint

record StaticExtra =
  DexReservesResolver :: string
  HasNative :: bool

record SwapInfo =
  HasNative_i :: bool
  NewCollateralReserves :: "bigint CollateralReserves"
  NewDebtReserves :: "bigint DebtReserves"
  NewDexLimits :: "bigint DexLimits"

record PoolSimulator = Pool +
  StaticExtra_p :: StaticExtra
  Collateral :: "bigint CollateralReserves"
  Debt :: "bigint DebtReserves"
  Limits :: "bigint DexLimits"
  CenterPrice :: bigint
  Token0Decimals :: int \<comment> \<open>\<open>uint8\<close>\<close>
  Token1Decimals :: int
  SyncTimestamp :: int
  IsSwapAndArbitragePaused :: bool

text \<open>Third-party code.\<close>

record deps =
  json_Extra :: "string \<Rightarrow> PoolExtra go"
  json_StaticExtra :: "string \<Rightarrow> StaticExtra go"
  lo_Map_tokens :: "PoolToken list \<Rightarrow> (PoolToken \<Rightarrow> int \<Rightarrow> string) \<Rightarrow> string list"
  lo_Map_reserves :: "string list \<Rightarrow> (string \<Rightarrow> int \<Rightarrow> bigint) \<Rightarrow> bigint list"
  lo_Ternary_int :: "bool \<Rightarrow> int \<Rightarrow> int \<Rightarrow> int"
  lo_Ternary_string :: "bool \<Rightarrow> string \<Rightarrow> string \<Rightarrow> string"

definition NewPoolSimulator :: "deps \<Rightarrow> EntityPool \<Rightarrow> PoolSimulator go" where
  "NewPoolSimulator d entityPool =
     bnd (json_Extra d (Extra_e entityPool)) (\<lambda>extra.
     bnd (json_StaticExtra d (StaticExtra_e entityPool)) (\<lambda>staticExtra.
     let fee = int64 (big_float_int (big_float_mul 53 (SwapFee_e entityPool) FeePercentPrecision)) in
     bnd (idx (Tokens_e entityPool) 0) (\<lambda>t0.
     bnd (idx (Tokens_e entityPool) 1) (\<lambda>t1.
     Inr \<lparr>Info = \<lparr>Address = Address_e entityPool, Exchange = Exchange_e entityPool,
                  Type = Type_e entityPool,
                  Tokens = lo_Map_tokens d (Tokens_e entityPool) (\<lambda>item _. TokenAddress item),
                  Reserves = lo_Map_reserves d (Reserves_e entityPool) (\<lambda>item _. NewBig item),
                  SwapFee = Some fee, BlockNumber = BlockNumber_e entityPool\<rparr>,
          StaticExtra_p = staticExtra, Collateral = CollateralReserves_x extra, Debt = DebtReserves_x extra,
          Limits = DexLimits_x extra, CenterPrice = CenterPrice_x extra, Token0Decimals = Decimals t0,
          Token1Decimals = Decimals t1, SyncTimestamp = Timestamp entityPool,
          IsSwapAndArbitragePaused = IsSwapAndArbitragePaused_x extra\<rparr>))))"

definition validateAmountOut :: "deps \<Rightarrow> PoolSimulator \<Rightarrow> bool \<Rightarrow> int \<Rightarrow> unit go" where
  "validateAmountOut d s swap0To1 tokenAmountOut =
     bnd (big_at (Reserves (Info s)) (lo_Ternary_int d swap0To1 1 0)) (\<lambda>r.
     if tokenAmountOut > r then Inl (Err ''ErrInsufficientReserve'') else Inr ())"

text \<open>The clones every quote works on.\<close>

definition clone_state :: "PoolSimulator \<Rightarrow> swap_state go" where
  "clone_state s =
     bnd (CollateralReserves_Clone (Collateral s)) (\<lambda>c.
     bnd (DebtReserves_Clone (Debt s)) (\<lambda>d.
     bnd (DexLimits_Clone (Limits s)) (\<lambda>l. Inr (c, d, l))))"

definition swap_info :: "PoolSimulator \<Rightarrow> swap_state \<Rightarrow> SwapInfo" where
  "swap_info s st =
     (case st of (c, d, l) \<Rightarrow>
      \<lparr>HasNative_i = HasNative (StaticExtra_p s), NewCollateralReserves = col_ptr c,
       NewDebtReserves = debt_ptr d, NewDexLimits = limits_ptr l\<rparr>)"

definition CalcAmountOut ::
    "deps \<Rightarrow> int \<times> int \<Rightarrow> PoolSimulator \<Rightarrow> 'l CalcAmountOutParams \<Rightarrow> SwapInfo CalcAmountOutResult go" where
  "CalcAmountOut d now s param =
     (if IsSwapAndArbitragePaused s then Inl (Err ''ErrSwapAndArbitragePaused'')
      else
        bnd (deref (Amount (TokenAmountIn param))) (\<lambda>amount.
        if amount \<le> 0 then Inl (Err ''ErrInvalidAmountIn'')
        else
          bnd (idx (Tokens (Info s)) 0) (\<lambda>t0.
          let swap0To1 = (Token (TokenAmountIn param) = t0);
              tokenInDecimals = (if swap0To1 then Token0Decimals s else Token1Decimals s);
              tokenOutDecimals = (if swap0To1 then Token1Decimals s else Token0Decimals s) in
          bnd (deref (SwapFee (Info s))) (\<lambda>swapFee.
          let fee = amount * swapFee div SixDecimals in
          bnd (clone_state s) (\<lambda>st.
          bnd (swapIn now swap0To1 (amount - fee) st tokenInDecimals tokenOutDecimals (CenterPrice s)
                 (SyncTimestamp s)) (\<lambda>(tokenAmountOut, st').
          bnd (validateAmountOut d s swap0To1 tokenAmountOut) (\<lambda>_.
          Inr \<lparr>TokenAmountOut = Some (token_amount (TokenOut param) (Some tokenAmountOut)),
               Fee = Some (token_amount (Token (TokenAmountIn param)) (Some fee)),
               RemainingTokenAmountIn = None, Gas = defaultGas, SwapInfo = Some (swap_info s st')\<rparr>)))))))"

definition CalcAmountIn ::
    "deps \<Rightarrow> int \<times> int \<Rightarrow> PoolSimulator \<Rightarrow> 'l CalcAmountInParams \<Rightarrow> SwapInfo CalcAmountInResult go" where
  "CalcAmountIn d now s param =
     (if IsSwapAndArbitragePaused s then Inl (Err ''ErrSwapAndArbitragePaused'')
      else
        bnd (deref (Amount (TokenAmountOut_i param))) (\<lambda>amount.
        if amount \<le> 0 then Inl (Err ''ErrInvalidAmountOut'')
        else
          bnd (idx (Tokens (Info s)) 1) (\<lambda>t1.
          let swap0To1 = (Token (TokenAmountOut_i param) = t1) in
          bnd (validateAmountOut d s swap0To1 amount) (\<lambda>_.
          let tokenInDecimals = (if swap0To1 then Token0Decimals s else Token1Decimals s);
              tokenOutDecimals = (if swap0To1 then Token1Decimals s else Token0Decimals s) in
          bnd (clone_state s) (\<lambda>st.
          bnd (swapOut now swap0To1 amount st tokenInDecimals tokenOutDecimals (CenterPrice s)
                 (SyncTimestamp s)) (\<lambda>(tokenAmountIn, st').
          bnd (deref (SwapFee (Info s))) (\<lambda>swapFee.
          let fee = tokenAmountIn * swapFee div SixDecimals in
          Inr \<lparr>TokenAmountIn_r = Some (token_amount (TokenIn param) (Some (tokenAmountIn + fee))),
               RemainingTokenAmountOut_r = None,
               Fee_r = Some (token_amount (TokenIn param) (Some fee)), Gas_r = defaultGas,
               SwapInfo_r = Some (swap_info s st')\<rparr>)))))))"

text \<open>A swap info of another type leaves reserves and limits as they are.\<close>

definition UpdateBalance ::
    "PoolSimulator \<Rightarrow> (SwapInfo, 'l) UpdateBalanceParams \<Rightarrow> PoolSimulator go" where
  "UpdateBalance s params =
     (let input = TokenAmountIn_u params; output = TokenAmountOut_u params in
      bnd (if Token input \<in> set (Tokens (Info s)) then deref (Amount input) else Inr 0) (\<lambda>inputAmount.
      bnd (swap_reserves (Tokens (Info s)) 0 (Token input) inputAmount (Token output) (Amount output)
             (Reserves (Info s))) (\<lambda>rs.
      let s = s\<lparr>Info := (Info s)\<lparr>Reserves := rs\<rparr>\<rparr> in
      Inr (case SwapInfo_u params of
             Some i \<Rightarrow> s\<lparr>Collateral := NewCollateralReserves i, Debt := NewDebtReserves i,
                         Limits := NewDexLimits i\<rparr>
           | None \<Rightarrow> s))))"

definition GetApprovalAddress :: "deps \<Rightarrow> PoolSimulator \<Rightarrow> string \<Rightarrow> string \<Rightarrow> string" where
  "GetApprovalAddress d s tokenIn _ = lo_Ternary_string d (IsNative tokenIn) '''' (GetAddress s)"

definition SwapReceiveNativeIn :: "PoolSimulator \<Rightarrow> string \<Rightarrow> string \<Rightarrow> ChainID \<Rightarrow> bool" where
  "SwapReceiveNativeIn s tokenIn _ chainId = (HasNative (StaticExtra_p s) \<and> IsWrappedNative tokenIn chainId)"

definition SwapReturnNativeOut :: "PoolSimulator \<Rightarrow> string \<Rightarrow> string \<Rightarrow> ChainID \<Rightarrow> bool" where
  "SwapReturnNativeOut s _ tokenOut chainId = (HasNative (StaticExtra_p s) \<and> IsWrappedNative tokenOut chainId)"

end
