(* ===== verification/Fluid_Dex_Swaps.thy ===== *)
theory Fluid_Dex_Swaps
  imports Fluid_Dex
begin

text \<open>
  What swaps do to a Fluid DEX: the share routing gives each pool, an exact-in swap keeps every reserve
  and never lowers the product of a pool, but books the whole input in both pools when it is split.
\<close>

subsection \<open>Square roots and routing\<close>

lemma isqrt_bounds:
  assumes "0 \<le> n"
  shows "0 \<le> isqrt n \<and> isqrt n * isqrt n \<le> n \<and> n < (isqrt n + 1) * (isqrt n + 1)"
  using assms
proof (induction n rule: isqrt.induct)
  case (1 n)
  show ?case
  proof (cases "n < 1")
    case True
    then show ?thesis using 1 by (simp add: isqrt.simps)
  next
    case False
    define q where "q = isqrt (n div 4)"
    have q: "0 \<le> q" "q * q \<le> n div 4" "n div 4 < (q + 1) * (q + 1)"
      using "1.IH" False by (auto simp: q_def)
    have "4 * (q * q) \<le> n" using q(2) by linarith
    moreover have "n < 4 * ((q + 1) * (q + 1))" using q(3) by linarith
    ultimately show ?thesis
      using q(1) False by (subst (1 2 3 4 5) isqrt.simps) (auto simp: Let_def q_def [symmetric] algebra_simps)
  qed
qed

lemma isqrt_pos: "0 < n \<Longrightarrow> 0 < isqrt n"
  using isqrt_bounds [of n] by (cases "isqrt n = 0") auto

text \<open>The routed amount for two enabled pools is the largest whole number whose share leaves the collateral
  pool's weighted reserve at most at the debt pool's, where the weights are the geometric means \<open>r1\<close>, \<open>r2\<close>
  of the reserves.\<close>

lemma fluid_routing_share:
  assumes "0 < x" and "0 < y" and "0 < x2" and "0 < y2"
  shows "\<exists>a r1 r2. swapRoutingIn t x y x2 y2 = Inr a \<and> big_sqrt (x * y * bI1e18) = Inr r1 \<and>
    big_sqrt (x2 * y2 * bI1e18) = Inr r2 \<and> 0 < r1 \<and> 0 < r2 \<and>
    (y + a) * r2 \<le> (y2 + (t - a)) * r1 \<and> (y2 + (t - (a + 1))) * r1 < (y + (a + 1)) * r2"
proof -
  define r1 r2 where "r1 = isqrt (x * y * bI1e18)" and "r2 = isqrt (x2 * y2 * bI1e18)"
  have pos: "0 < x * y * bI1e18" "0 < x2 * y2 * bI1e18"
    using assms by (auto simp: bI1e18_def)
  then have r: "0 < r1" "0 < r2"
    unfolding r1_def r2_def by (auto intro: isqrt_pos)
  define n a where "n = y2 * r1 + t * r1 - y * r2" and "a = n div (r1 + r2)"
  have "a * (r1 + r2) \<le> n" "n < (a + 1) * (r1 + r2)"
    using r floor_le [of "r1 + r2" n] floor_gt [of "r1 + r2" n] by (auto simp: a_def)
  moreover have sqrt: "big_sqrt (x * y * bI1e18) = Inr r1" "big_sqrt (x2 * y2 * bI1e18) = Inr r2"
    using pos by (simp_all add: big_sqrt_def r1_def r2_def)
  moreover have "swapRoutingIn t x y x2 y2 = Inr a"
    using r by (simp add: swapRoutingIn_def sqrt a_def n_def)
  ultimately have "swapRoutingIn t x y x2 y2 = Inr a \<and> big_sqrt (x * y * bI1e18) = Inr r1 \<and>
    big_sqrt (x2 * y2 * bI1e18) = Inr r2 \<and> 0 < r1 \<and> 0 < r2 \<and>
    (y + a) * r2 \<le> (y2 + (t - a)) * r1 \<and> (y2 + (t - (a + 1))) * r1 < (y + (a + 1)) * r2"
    using r by (simp add: n_def algebra_simps)
  then show ?thesis by blast
qed

subsection \<open>One pool\<close>

lemma amount_out:
  assumes "getAmountOut i rin rout = Inr out" and "0 \<le> i" and "0 < rin" and "0 \<le> rout"
  shows "0 \<le> out" and "out \<le> rout" and "out * (rin + i) \<le> i * rout" and "rin * rout \<le> (rin + i) * (rout - out)"
proof -
  have out: "out = i * rout div (rin + i)"
    using assms by (simp add: getAmountOut_def)
  show "0 \<le> out"
    using assms by (simp add: out pos_imp_zdiv_nonneg_iff)
  show le: "out * (rin + i) \<le> i * rout"
    unfolding out using assms by (intro floor_le) simp
  then show "rin * rout \<le> (rin + i) * (rout - out)"
    by (simp add: algebra_simps)
  have "out * (rin + i) \<le> rout * (rin + i)"
  proof -
    have "i * rout \<le> rout * (rin + i)" using assms by (simp add: algebra_simps)
    with le show ?thesis by linarith
  qed
  then show "out \<le> rout"
    using assms by (simp only: mult_le_cancel_right_pos)
qed

lemma amount_out_eq: "getAmountOut i rin rout = Inr out \<Longrightarrow> 0 \<le> i \<Longrightarrow> 0 < rin \<Longrightarrow> out = i * rout div (rin + i)"
  by (simp add: getAmountOut_def)

text \<open>The input of an exact-out swap is rounded down: paid back in through the same pool it buys at
  most the amount asked for.\<close>

theorem fluid_exact_out_rounds_down:
  assumes "0 < out" and "out < rout" and "0 < rin"
  shows "\<exists>i out'. getAmountIn out rin rout = Inr i \<and> getAmountOut i rin rout = Inr out' \<and> out' \<le> out \<and>
    (out' = out \<longleftrightarrow> i * (rout - out) = out * rin)"
proof -
  define i where "i = out * rin div (rout - out)"
  have i: "i * (rout - out) \<le> out * rin" "0 \<le> i"
    using assms floor_le [of "rout - out" "out * rin"] by (auto simp: i_def pos_imp_zdiv_nonneg_iff)
  define out' where "out' = i * rout div (rin + i)"
  have o': "out' * (rin + i) \<le> i * rout" "i * rout < (out' + 1) * (rin + i)"
    using assms i(2) floor_le [of "rin + i" "i * rout"] floor_gt [of "rin + i" "i * rout"] by (auto simp: out'_def)
  have le: "i * rout \<le> out * (rin + i)"
    using i(1) by (simp add: algebra_simps)
  have "out' * (rin + i) \<le> out * (rin + i)"
    using o'(1) le by linarith
  then have "out' \<le> out"
    using assms(3) i(2) by (simp only: mult_le_cancel_right_pos)
  moreover have "out' = out \<longleftrightarrow> i * (rout - out) = out * rin"
  proof
    assume "out' = out"
    then have "i * rout = out * (rin + i)"
      using o'(1) le by simp
    then show "i * (rout - out) = out * rin"
      by (simp add: algebra_simps)
  next
    assume "i * (rout - out) = out * rin"
    then have "i * rout = out * (rin + i)"
      by (simp add: algebra_simps)
    then show "out' = out"
      using assms(3) i(2) by (simp add: out'_def)
  qed
  moreover have "getAmountIn out rin rout = Inr i" "getAmountOut i rin rout = Inr out'"
    using assms i(2) by (simp_all add: getAmountIn_def getAmountOut_def i_def [symmetric] out'_def)
  ultimately show ?thesis by blast
qed

subsection \<open>Splitting an input\<close>

text \<open>Real reserves are covered by the imaginary ones; an enabled pool has none at zero.\<close>

definition side_ok :: "side \<Rightarrow> bool" where
  "side_ok s = (0 \<le> ReserveIn s \<and> 0 \<le> ReserveOut s \<and> ReserveIn s \<le> IReserveIn s \<and> ReserveOut s \<le> IReserveOut s \<and>
     (enabled s \<longrightarrow> 0 < IReserveIn s \<and> 0 < IReserveOut s))"

definition split_ok :: "side \<Rightarrow> side \<Rightarrow> int \<Rightarrow> split \<Rightarrow> bool" where
  "split_ok col debt t s =
     (InCollateral s + InDebt s = t \<and> 0 \<le> InCollateral s \<and> 0 \<le> InDebt s \<and>
      (if UpdateCol s then enabled col \<and> 0 < InCollateral s \<and>
         getAmountOut (InCollateral s) (IReserveIn col) (IReserveOut col) = Inr (OutCollateral s)
       else InCollateral s = 0 \<and> OutCollateral s = 0) \<and>
      (if UpdateDebt s then enabled debt \<and> 0 < InDebt s \<and>
         getAmountOut (InDebt s) (IReserveIn debt) (IReserveOut debt) = Inr (OutDebt s)
       else InDebt s = 0 \<and> OutDebt s = 0))"

lemma split_in_ok:
  assumes "route_in col debt t = Inr a" and "split_in col debt t a = Inr s" and "0 < t"
  shows "split_ok col debt t s"
  using assms
  by (auto simp: route_in_def split_in_def split_ok_def bnd_eq_Inr split: if_splits)

lemma split_ok_out:
  assumes "split_ok col debt t s" and "side_ok col" and "side_ok debt"
  shows "0 \<le> OutCollateral s" and "0 \<le> OutDebt s"
    and "IReserveIn col * IReserveOut col \<le> (IReserveIn col + InCollateral s) * (IReserveOut col - OutCollateral s)"
    and "IReserveIn debt * IReserveOut debt \<le> (IReserveIn debt + InDebt s) * (IReserveOut debt - OutDebt s)"
  using assms amount_out [of "InCollateral s" "IReserveIn col" "IReserveOut col" "OutCollateral s"]
    amount_out [of "InDebt s" "IReserveIn debt" "IReserveOut debt" "OutDebt s"]
  by (auto simp: split_ok_def side_ok_def split: if_splits)

subsection \<open>Booking a split\<close>

definition col_booked :: "bool \<Rightarrow> int \<Rightarrow> int \<Rightarrow> int CollateralReserves \<Rightarrow> int CollateralReserves" where
  "col_booked swap0To1 i out r =
     (if swap0To1
      then r\<lparr>Token0RealReserves := Token0RealReserves r + i, Token0ImaginaryReserves := Token0ImaginaryReserves r + i,
             Token1RealReserves := Token1RealReserves r - out, Token1ImaginaryReserves := Token1ImaginaryReserves r - out\<rparr>
      else r\<lparr>Token0RealReserves := Token0RealReserves r - out, Token0ImaginaryReserves := Token0ImaginaryReserves r - out,
             Token1RealReserves := Token1RealReserves r + i, Token1ImaginaryReserves := Token1ImaginaryReserves r + i\<rparr>)"

definition debt_booked :: "bool \<Rightarrow> int \<Rightarrow> int \<Rightarrow> int DebtReserves \<Rightarrow> int DebtReserves" where
  "debt_booked swap0To1 i out r =
     (if swap0To1
      then r\<lparr>Token0RealReserves_d := Token0RealReserves_d r + i,
             Token0ImaginaryReserves_d := Token0ImaginaryReserves_d r + i,
             Token1RealReserves_d := Token1RealReserves_d r - out,
             Token1ImaginaryReserves_d := Token1ImaginaryReserves_d r - out\<rparr>
      else r\<lparr>Token0RealReserves_d := Token0RealReserves_d r - out,
             Token0ImaginaryReserves_d := Token0ImaginaryReserves_d r - out,
             Token1RealReserves_d := Token1RealReserves_d r + i,
             Token1ImaginaryReserves_d := Token1ImaginaryReserves_d r + i\<rparr>)"

lemma booked_Inr:
  "updateCollateralReservesAndLimits b i out r limits od = Inr (r', limits') \<Longrightarrow> r' = col_booked b i out r"
  "updateDebtReservesAndLimits b i out d limits od = Inr (d', limits') \<Longrightarrow> d' = debt_booked b i out d"
  by (cases b; simp add: updateCollateralReservesAndLimits_def col_booked_def bnd_eq_Inr; metis)
    (cases b; simp add: updateDebtReservesAndLimits_def debt_booked_def bnd_eq_Inr; metis)

lemma book_Inr:
  assumes "book b s ic idt (col, debt, limits) od = Inr (col', debt', limits')"
  shows "col' = (if UpdateCol s then col_booked b ic (OutCollateral s) col else col)"
    and "debt' = (if UpdateDebt s then debt_booked b idt (OutDebt s) debt else debt)"
  using assms by (auto simp: book_def bnd_eq_Inr dest: booked_Inr split: if_splits)

lemma booked_sides [simp]:
  "ReserveIn (col_side b (col_booked b i out r)) = ReserveIn (col_side b r) + i"
  "ReserveOut (col_side b (col_booked b i out r)) = ReserveOut (col_side b r) - out"
  "IReserveIn (col_side b (col_booked b i out r)) = IReserveIn (col_side b r) + i"
  "IReserveOut (col_side b (col_booked b i out r)) = IReserveOut (col_side b r) - out"
  "ReserveIn (debt_side b (debt_booked b i out d)) = ReserveIn (debt_side b d) + i"
  "ReserveOut (debt_side b (debt_booked b i out d)) = ReserveOut (debt_side b d) - out"
  "IReserveIn (debt_side b (debt_booked b i out d)) = IReserveIn (debt_side b d) + i"
  "IReserveOut (debt_side b (debt_booked b i out d)) = IReserveOut (debt_side b d) - out"
  by (simp_all add: col_side_def col_booked_def debt_side_def debt_booked_def)

lemma booked_changes: "0 < i \<Longrightarrow> col_booked b i out r \<noteq> r" "0 < i \<Longrightarrow> debt_booked b i out d \<noteq> d"
proof -
  assume i: "0 < i"
  then have "ReserveIn (col_side b (col_booked b i out r)) \<noteq> ReserveIn (col_side b r)"
    "ReserveIn (debt_side b (debt_booked b i out d)) \<noteq> ReserveIn (debt_side b d)"
    by simp_all
  then show "col_booked b i out r \<noteq> r" "debt_booked b i out d \<noteq> d"
    by metis+
qed

subsection \<open>An exact-in swap\<close>

text \<open>What an accepted exact-in swap has established.\<close>

lemma swapInAdjustedE:
  assumes "swapInAdjusted now b t (col, debt, limits) od cp sync = Inr (out, col', debt', limits')" and "0 < t"
  obtains s borrowable withdrawable where "split_ok (col_side b col) (debt_side b debt) t s"
    "OutCollateral s \<le> ReserveOut (col_side b col)" "OutDebt s \<le> ReserveOut (debt_side b debt)"
    "swap_limits now b limits sync od = Inr (borrowable, withdrawable)"
    "OutDebt s \<le> borrowable" "OutCollateral s \<le> withdrawable"
    "col' = (if UpdateCol s then col_booked b t (OutCollateral s) col else col)"
    "debt' = (if UpdateDebt s then debt_booked b t (OutDebt s) debt else debt)"
    "fromAdjustedAmount (OutCollateral s + OutDebt s) od = Inr out"
proof -
  from assms(1) obtain borrowable withdrawable a s where
    lim: "swap_limits now b limits sync od = Inr (borrowable, withdrawable)" and
    a: "route_in (col_side b col) (debt_side b debt) t = Inr a" and
    s: "split_in (col_side b col) (debt_side b debt) t a = Inr s" and
    res: "OutCollateral s \<le> ReserveOut (col_side b col)" "OutDebt s \<le> ReserveOut (debt_side b debt)" and
    chk: "check_limits s borrowable withdrawable = Inr ()" and
    bk: "book b s t t (col, debt, limits) od = Inr (col', debt', limits')" and
    out: "fromAdjustedAmount (OutCollateral s + OutDebt s) od = Inr out"
    unfolding swapInAdjusted_def by (auto simp: bnd_eq_Inr Let_def not_less split: if_splits)
  have "OutDebt s \<le> borrowable" "OutCollateral s \<le> withdrawable"
    using chk by (auto simp: check_limits_def split: if_splits)
  with split_in_ok [OF a s assms(2)] res lim show thesis
    using book_Inr [OF bk] out by (rule that)
qed

subsection \<open>The pool invariant\<close>

definition col_ok :: "int CollateralReserves \<Rightarrow> bool" where
  "col_ok r = (0 \<le> Token0RealReserves r \<and> Token0RealReserves r \<le> Token0ImaginaryReserves r \<and>
     0 \<le> Token1RealReserves r \<and> Token1RealReserves r \<le> Token1ImaginaryReserves r)"

definition debt_ok :: "int DebtReserves \<Rightarrow> bool" where
  "debt_ok r = (0 \<le> Token0RealReserves_d r \<and> Token0RealReserves_d r \<le> Token0ImaginaryReserves_d r \<and>
     0 \<le> Token1RealReserves_d r \<and> Token1RealReserves_d r \<le> Token1ImaginaryReserves_d r)"

lemma sides_ok: "col_ok r \<Longrightarrow> side_ok (col_side b r)" "debt_ok d \<Longrightarrow> side_ok (debt_side b d)"
  by (auto simp: col_ok_def debt_ok_def side_ok_def col_side_def debt_side_def)

text \<open>The product and the gaps between imaginary and real reserves, which fix the price range.\<close>

definition col_k :: "int CollateralReserves \<Rightarrow> int" where
  "col_k r = Token0ImaginaryReserves r * Token1ImaginaryReserves r"

definition debt_k :: "int DebtReserves \<Rightarrow> int" where
  "debt_k r = Token0ImaginaryReserves_d r * Token1ImaginaryReserves_d r"

definition col_gaps :: "int CollateralReserves \<Rightarrow> int \<times> int" where
  "col_gaps r = (Token0ImaginaryReserves r - Token0RealReserves r, Token1ImaginaryReserves r - Token1RealReserves r)"

definition debt_gaps :: "int DebtReserves \<Rightarrow> int \<times> int" where
  "debt_gaps r = (Token0ImaginaryReserves_d r - Token0RealReserves_d r,
     Token1ImaginaryReserves_d r - Token1RealReserves_d r)"

lemma k_sides: "col_k r = IReserveIn (col_side b r) * IReserveOut (col_side b r)"
  "debt_k d = IReserveIn (debt_side b d) * IReserveOut (debt_side b d)"
  by (simp_all add: col_k_def col_side_def debt_k_def debt_side_def)

lemma booked_gaps [simp]: "col_gaps (col_booked b i out r) = col_gaps r" "debt_gaps (debt_booked b i out d) = debt_gaps d"
  by (simp_all add: col_gaps_def col_booked_def debt_gaps_def debt_booked_def)

lemma col_booked_ok: "col_ok r \<Longrightarrow> 0 \<le> i \<Longrightarrow> out \<le> ReserveOut (col_side b r) \<Longrightarrow> 0 \<le> out \<Longrightarrow> col_ok (col_booked b i out r)"
  by (auto simp: col_ok_def col_booked_def col_side_def split: if_splits)

lemma debt_booked_ok: "debt_ok r \<Longrightarrow> 0 \<le> i \<Longrightarrow> out \<le> ReserveOut (debt_side b r) \<Longrightarrow> 0 \<le> out \<Longrightarrow> debt_ok (debt_booked b i out r)"
  by (auto simp: debt_ok_def debt_booked_def debt_side_def split: if_splits)

text \<open>An exact-in swap keeps the reserves in order and the gaps as they are, and lowers no product.\<close>

definition improved :: "swap_state \<Rightarrow> swap_state \<Rightarrow> bool" where
  "improved st st' = (case (st, st') of ((c, d, _), (c', d', _)) \<Rightarrow>
     col_ok c' \<and> debt_ok d' \<and> col_gaps c' = col_gaps c \<and> debt_gaps d' = debt_gaps d \<and>
     col_k c \<le> col_k c' \<and> debt_k d \<le> debt_k d')"

lemma improved_trans: "improved a b \<Longrightarrow> improved b c \<Longrightarrow> improved a c"
  by (auto simp: improved_def split: prod.splits)

lemma swapInAdjusted_improved:
  assumes run: "swapInAdjusted now b t (col, debt, limits) od cp sync = Inr (out, col', debt', limits')" and t: "0 < t"
    and ok: "col_ok col" "debt_ok debt"
  shows "improved (col, debt, limits) (col', debt', limits')"
proof -
  obtain s where s: "split_ok (col_side b col) (debt_side b debt) t s"
    and out: "OutCollateral s \<le> ReserveOut (col_side b col)" "OutDebt s \<le> ReserveOut (debt_side b debt)"
    and col': "col' = (if UpdateCol s then col_booked b t (OutCollateral s) col else col)"
    and debt': "debt' = (if UpdateDebt s then debt_booked b t (OutDebt s) debt else debt)"
    using run t by (rule swapInAdjustedE)
  have sc: "side_ok (col_side b col)" and sd: "side_ok (debt_side b debt)"
    using ok by (auto intro: sides_ok)
  have le: "InCollateral s \<le> t" "InDebt s \<le> t"
    using s by (auto simp: split_ok_def)
  note o' = split_ok_out [OF s sc sd]
  have "col_k col \<le> (IReserveIn (col_side b col) + t) * (IReserveOut (col_side b col) - OutCollateral s)"
    unfolding k_sides [of _ b] using out(1) le sc by (intro order_trans [OF o'(3)] mult_right_mono) (auto simp: side_ok_def)
  moreover have "debt_k debt \<le> (IReserveIn (debt_side b debt) + t) * (IReserveOut (debt_side b debt) - OutDebt s)"
    unfolding k_sides [of _ b] using out(2) le sd by (intro order_trans [OF o'(4)] mult_right_mono) (auto simp: side_ok_def)
  ultimately show ?thesis
    using ok t out o'(1,2) unfolding improved_def col' debt'
    by (auto simp: k_sides [of _ b] intro: col_booked_ok debt_booked_ok)
qed

definition fluid_wf :: "PoolSimulator \<Rightarrow> bool" where
  "fluid_wf s =
     ((case Tokens (Info s) of [t0, t1] \<Rightarrow> t0 \<noteq> t1 | _ \<Rightarrow> False) \<and>
      (case Reserves (Info s) of [r0, r1] \<Rightarrow> r0 \<noteq> None \<and> r1 \<noteq> None \<and> 0 \<le> the r0 \<and> 0 \<le> the r1 | _ \<Rightarrow> False) \<and>
      (case clone_state s of Inr (c, d, l) \<Rightarrow> col_ok c \<and> debt_ok d | _ \<Rightarrow> False))"

lemma fluid_wfE:
  assumes "fluid_wf s"
  obtains t0 t1 r0 r1 c d l where "Tokens (Info s) = [t0, t1]" "t0 \<noteq> t1" "Reserves (Info s) = [Some r0, Some r1]"
    "0 \<le> r0" "0 \<le> r1" "clone_state s = Inr (c, d, l)" "col_ok c" "debt_ok d"
  using assms by (auto simp: fluid_wf_def split: list.split_asm sum.split_asm)

text \<open>\<open>lo.Ternary\<close> returns its second argument when its first is true, its third otherwise.\<close>

definition ternary_ok :: "deps \<Rightarrow> bool" where
  "ternary_ok d = (\<forall>b x y. lo_Ternary_int d b x y = (if b then x else y))"

text \<open>The direction of a request and the decimals of its input and its output.\<close>

definition zero_to_one :: "PoolSimulator \<Rightarrow> 'l CalcAmountOutParams \<Rightarrow> bool" where
  "zero_to_one s q = (Token (TokenAmountIn q) = hd (Tokens (Info s)))"

definition in_decimals :: "PoolSimulator \<Rightarrow> bool \<Rightarrow> int" where
  "in_decimals s b = (if b then Token0Decimals s else Token1Decimals s)"

definition out_decimals :: "PoolSimulator \<Rightarrow> bool \<Rightarrow> int" where
  "out_decimals s b = (if b then Token1Decimals s else Token0Decimals s)"

lemma fluid_quoteE:
  assumes calc: "CalcAmountOut d now s q = Inr r" and wf: "fluid_wf s" and st: "clone_state s = Inr st" and tern: "ternary_ok d"
  obtains a fee out t st' where "Amount (TokenAmountIn q) = Some a" "0 < a" "0 < t"
    "Fee r = Some (token_amount (Token (TokenAmountIn q)) (Some fee))"
    "toAdjustedAmount (a - fee) (in_decimals s (zero_to_one s q)) = Inr t"
    "swapInAdjusted now (zero_to_one s q) t st (out_decimals s (zero_to_one s q)) (CenterPrice s) (SyncTimestamp s)
       = Inr (out, st')"
    "TokenAmountOut r = Some (token_amount (TokenOut q) (Some out))" "SwapInfo r = Some (swap_info s st')"
    "out \<le> the (Reserves (Info s) ! (if zero_to_one s q then 1 else 0))"
proof -
  obtain t0 t1 r0 r1 where t: "Tokens (Info s) = [t0, t1]" and rs: "Reserves (Info s) = [Some r0, Some r1]"
    using wf by (rule fluid_wfE)
  define b where "b = zero_to_one s q"
  obtain a fee out st' where a: "Amount (TokenAmountIn q) = Some a" "0 < a"
    and swap: "swapIn now b (a - fee) st (in_decimals s b) (out_decimals s b)
      (CenterPrice s) (SyncTimestamp s) = Inr (out, st')"
    and fee: "Fee r = Some (token_amount (Token (TokenAmountIn q)) (Some fee))"
    and val: "validateAmountOut d s b out = Inr ()"
    and r: "TokenAmountOut r = Some (token_amount (TokenOut q) (Some out))" "SwapInfo r = Some (swap_info s st')"
    using calc t st
    by (auto simp: CalcAmountOut_def bnd_eq_Inr Let_def deref_eq_Inr zero_to_one_def b_def in_decimals_def
        out_decimals_def split: if_splits)
  obtain t where "SixDecimals \<le> t" "toAdjustedAmount (a - fee) (in_decimals s b) = Inr t"
    "swapInAdjusted now b t st (out_decimals s b) (CenterPrice s) (SyncTimestamp s) = Inr (out, st')"
    using swap unfolding swapIn_def by (auto simp: bnd_eq_Inr not_less split: if_split_asm)
  then have "0 < t" "toAdjustedAmount (a - fee) (in_decimals s b) = Inr t"
    "swapInAdjusted now b t st (out_decimals s b) (CenterPrice s) (SyncTimestamp s) = Inr (out, st')"
    by (auto simp: SixDecimals_def)
  moreover have "out \<le> the (Reserves (Info s) ! (if b then 1 else 0))"
    using val rs tern
    by (auto simp: validateAmountOut_def ternary_ok_def bnd_eq_Inr big_at_eq_Inr split: if_splits)
  ultimately show thesis
    using a fee r unfolding b_def by (intro that)
qed

inductive fluid_step :: "deps \<Rightarrow> PoolSimulator \<Rightarrow> PoolSimulator \<Rightarrow> bool" for d where
  swap: "valid_request q \<Longrightarrow> Token (TokenAmountIn q) \<in> set (Tokens (Info s)) \<Longrightarrow> TokenOut q \<in> set (Tokens (Info s)) \<Longrightarrow>
         CalcAmountOut d now s (q :: unit CalcAmountOutParams) = Inr r \<Longrightarrow>
         UpdateBalance s (update_params q r) = Inr s' \<Longrightarrow> fluid_step d s s'"

inductive_cases fluid_stepE: "fluid_step d s s'"

lemma clone_ptr:
  "clone_state (s\<lparr>Info := i, Collateral := col_ptr c, Debt := debt_ptr d, Limits := limits_ptr l\<rparr>) = Inr (c, d, l)"
  by (simp add: clone_state_def CollateralReserves_Clone_def DebtReserves_Clone_def DexLimits_Clone_def
      TokenLimit_Clone_def col_ptr_def debt_ptr_def limits_ptr_def limit_ptr_def)

lemma fluid_step_ok:
  assumes "fluid_step d s s'" and wf: "fluid_wf s" and tern: "ternary_ok d"
  shows "fluid_wf s' \<and> (\<exists>st st'. clone_state s = Inr st \<and> clone_state s' = Inr st' \<and> improved st st')"
  using assms(1)
proof (rule fluid_stepE)
  fix q :: "unit CalcAmountOutParams" and now r
  assume req: "valid_request q" and mem: "Token (TokenAmountIn q) \<in> set (Tokens (Info s))" "TokenOut q \<in> set (Tokens (Info s))"
    and calc: "CalcAmountOut d now s q = Inr r" and upd: "UpdateBalance s (update_params q r) = Inr s'"
  obtain t0 t1 r0 r1 col debt l where t: "Tokens (Info s) = [t0, t1]" "t0 \<noteq> t1"
    and rs: "Reserves (Info s) = [Some r0, Some r1]" "0 \<le> r0" "0 \<le> r1"
    and st: "clone_state s = Inr (col, debt, l)" and ok: "col_ok col" "debt_ok debt"
    using wf by (rule fluid_wfE)
  define b where "b = zero_to_one s q"
  obtain a out n st' where a: "Amount (TokenAmountIn q) = Some a" "0 < a" and n: "0 < n"
    and run: "swapInAdjusted now b n (col, debt, l) (out_decimals s b) (CenterPrice s) (SyncTimestamp s) = Inr (out, st')"
    and r: "TokenAmountOut r = Some (token_amount (TokenOut q) (Some out))" "SwapInfo r = Some (swap_info s st')"
    and le: "out \<le> the (Reserves (Info s) ! (if b then 1 else 0))"
    using calc wf st tern unfolding b_def by (rule fluid_quoteE)
  obtain c' d' l' where st': "st' = (c', d', l')" by (cases st')
  have imp: "improved (col, debt, l) (c', d', l')"
    using run n ok unfolding st' by (rule swapInAdjusted_improved)
  have pair: "(Token (TokenAmountIn q), TokenOut q) = (if b then (t0, t1) else (t1, t0))"
    using mem req t by (auto simp: b_def zero_to_one_def elim: valid_requestE)
  define rs' where "rs' = (if b then [Some (r0 + a), Some (r1 - out)] else [Some (r0 - out), Some (r1 + a)])"
  have "swap_reserves (Tokens (Info s)) 0 (Token (TokenAmountIn q)) a (TokenOut q) (Some out) (Reserves (Info s)) = Inr rs'"
    using pair t by (auto simp: rs swap_reserves_eq rs'_def split: if_splits)
  then have s': "s' = s\<lparr>Info := (Info s)\<lparr>Reserves := rs'\<rparr>, Collateral := col_ptr c', Debt := debt_ptr d', Limits := limits_ptr l'\<rparr>"
    using upd r a(1) mem by (simp add: UpdateBalance_def swap_info_def st')
  have clone: "clone_state s' = Inr (c', d', l')"
    unfolding s' by (rule clone_ptr)
  have "fluid_wf s'"
    using imp t rs le a(2) unfolding fluid_wf_def clone
    by (auto simp: s' rs'_def improved_def split: if_splits)
  with clone st imp show ?thesis by blast
qed

text \<open>C7: over any sequence of exact-in swaps a Fluid DEX stays well formed: no reserve goes negative,
  real reserves stay covered by the imaginary ones and their gap, which fixes the price range, never
  changes, and the product of the imaginary reserves of either pool never falls.\<close>

theorem fluid_invariant:
  assumes "(fluid_step d)\<^sup>*\<^sup>* s s'" and "fluid_wf s" and "ternary_ok d" and "clone_state s = Inr st"
  shows "fluid_wf s' \<and> (\<exists>st'. clone_state s' = Inr st' \<and> improved st st')"
  using assms
proof (induction rule: rtranclp_induct)
  case base
  then show ?case by (auto simp: fluid_wf_def improved_def split: prod.splits)
next
  case (step s1 s2)
  then obtain st1 where "fluid_wf s1" "clone_state s1 = Inr st1" "improved st st1" by blast
  with fluid_step_ok [OF step.hyps(2) _ step.prems(2)] show ?case
    by (auto intro: improved_trans)
qed

subsection \<open>Quotes and limits\<close>

text \<open>A pool with sides \<open>old\<close> takes \<open>i\<close> in, pays \<open>out\<close> at the constant product of its imaginary reserves
  and is booked as \<open>new\<close>.\<close>

definition pays :: "side \<Rightarrow> side \<Rightarrow> int \<Rightarrow> int \<Rightarrow> bool" where
  "pays old new i out =
     (0 \<le> i \<and> 0 \<le> out \<and> out = i * IReserveOut old div (IReserveIn old + i) \<and>
      ReserveOut new = ReserveOut old - out \<and> IReserveOut new = IReserveOut old - out \<and> 0 \<le> ReserveOut new)"

lemma split_pays:
  assumes sp: "split_ok (col_side b col) (debt_side b debt) t s" and ok: "col_ok col" "debt_ok debt"
    and res: "OutCollateral s \<le> ReserveOut (col_side b col)" "OutDebt s \<le> ReserveOut (debt_side b debt)"
    and col': "col' = (if UpdateCol s then col_booked b t (OutCollateral s) col else col)"
    and debt': "debt' = (if UpdateDebt s then debt_booked b t (OutDebt s) debt else debt)"
  shows "pays (col_side b col) (col_side b col') (InCollateral s) (OutCollateral s)"
    and "pays (debt_side b debt) (debt_side b debt') (InDebt s) (OutDebt s)"
proof -
  have sc: "side_ok (col_side b col)" and sd: "side_ok (debt_side b debt)"
    using ok by (auto intro: sides_ok)
  show "pays (col_side b col) (col_side b col') (InCollateral s) (OutCollateral s)"
    "pays (debt_side b debt) (debt_side b debt') (InDebt s) (OutDebt s)"
    using sp split_ok_out(1,2) [OF sp sc sd] res sc sd
    by (auto simp: pays_def split_ok_def side_ok_def col' debt' amount_out_eq split: if_splits)
qed

text \<open>C8: an accepted quote of a Fluid DEX is covered by what it books: the input after the fee is
  shared between the collateral and the debt pool, each pays for its share at the constant product of its
  imaginary reserves, the state to be applied takes exactly that payment out of the pool's real and
  imaginary reserve and leaves no real reserve below zero, the payments stay within the withdrawable and
  the borrowable amount at the time of the quote, and together they are the quoted amount, which is at most
  the pool's reserve.\<close>

theorem fluid_quote_covered:
  assumes "CalcAmountOut d now s q = Inr r" and "fluid_wf s" and "ternary_ok d"
  shows "\<exists>a fee c dt l c' dt' l' ic idt oc od borrowable withdrawable out.
    Amount (TokenAmountIn q) = Some a \<and> Fee r = Some (token_amount (Token (TokenAmountIn q)) (Some fee)) \<and>
    toAdjustedAmount (a - fee) (in_decimals s (zero_to_one s q)) = Inr (ic + idt) \<and>
    clone_state s = Inr (c, dt, l) \<and> SwapInfo r = Some (swap_info s (c', dt', l')) \<and>
    pays (col_side (zero_to_one s q) c) (col_side (zero_to_one s q) c') ic oc \<and>
    pays (debt_side (zero_to_one s q) dt) (debt_side (zero_to_one s q) dt') idt od \<and>
    swap_limits now (zero_to_one s q) l (SyncTimestamp s) (out_decimals s (zero_to_one s q)) = Inr (borrowable, withdrawable) \<and>
    od \<le> borrowable \<and> oc \<le> withdrawable \<and>
    fromAdjustedAmount (oc + od) (out_decimals s (zero_to_one s q)) = Inr out \<and>
    TokenAmountOut r = Some (token_amount (TokenOut q) (Some out)) \<and>
    out \<le> the (Reserves (Info s) ! (if zero_to_one s q then 1 else 0))"
proof -
  define b where "b = zero_to_one s q"
  obtain c dt l where st: "clone_state s = Inr (c, dt, l)" and ok: "col_ok c" "debt_ok dt"
    using assms(2) by (rule fluid_wfE)
  obtain a fee out n st' where a: "Amount (TokenAmountIn q) = Some a"
      "Fee r = Some (token_amount (Token (TokenAmountIn q)) (Some fee))"
      "toAdjustedAmount (a - fee) (in_decimals s b) = Inr n" and n: "0 < n"
    and run: "swapInAdjusted now b n (c, dt, l) (out_decimals s b) (CenterPrice s) (SyncTimestamp s) = Inr (out, st')"
    and r: "TokenAmountOut r = Some (token_amount (TokenOut q) (Some out))" "SwapInfo r = Some (swap_info s st')"
    and le: "out \<le> the (Reserves (Info s) ! (if b then 1 else 0))"
    using assms(1,2) st assms(3) unfolding b_def by (rule fluid_quoteE)
  obtain c' d' l' where st': "st' = (c', d', l')" by (cases st')
  obtain sp borrowable withdrawable where sp: "split_ok (col_side b c) (debt_side b dt) n sp"
    and res: "OutCollateral sp \<le> ReserveOut (col_side b c)" "OutDebt sp \<le> ReserveOut (debt_side b dt)"
    and lim: "swap_limits now b l (SyncTimestamp s) (out_decimals s b) = Inr (borrowable, withdrawable)"
      "OutDebt sp \<le> borrowable" "OutCollateral sp \<le> withdrawable"
    and bk: "c' = (if UpdateCol sp then col_booked b n (OutCollateral sp) c else c)"
      "d' = (if UpdateDebt sp then debt_booked b n (OutDebt sp) dt else dt)"
    and out: "fromAdjustedAmount (OutCollateral sp + OutDebt sp) (out_decimals s b) = Inr out"
    using run n unfolding st' by (rule swapInAdjustedE)
  have "n = InCollateral sp + InDebt sp"
    using sp by (simp add: split_ok_def)
  with st st' a lim out r le split_pays [OF sp ok res bk] show ?thesis
    unfolding b_def by blast
qed

subsection \<open>A split input is booked twice\<close>

text \<open>An exact-in swap that goes through one pool adds its input to that pool's reserve, but one that
  is split over both adds the whole input to each, so the reserves grow by twice what was paid in.\<close>

theorem fluid_split_booked_twice:
  assumes "swapInAdjusted now b t (c, d, l) od cp sync = Inr (out, c', d', l')" and "0 < t"
  shows "ReserveIn (col_side b c') - ReserveIn (col_side b c) + (ReserveIn (debt_side b d') - ReserveIn (debt_side b d))
    = (if c' \<noteq> c \<and> d' \<noteq> d then 2 * t else t)"
proof -
  obtain s where s: "split_ok (col_side b c) (debt_side b d) t s"
    and c': "c' = (if UpdateCol s then col_booked b t (OutCollateral s) c else c)"
    and d': "d' = (if UpdateDebt s then debt_booked b t (OutDebt s) d else d)"
    using assms by (rule swapInAdjustedE)
  have "ReserveIn (col_side b c') = ReserveIn (col_side b c) + (if UpdateCol s then t else 0)"
    "ReserveIn (debt_side b d') = ReserveIn (debt_side b d) + (if UpdateDebt s then t else 0)"
    by (simp_all add: c' d')
  moreover have "UpdateCol s \<or> UpdateDebt s"
    using s assms(2) by (auto simp: split_ok_def split: if_split_asm)
  moreover have "(c' \<noteq> c) = UpdateCol s" "(d' \<noteq> d) = UpdateDebt s"
    using assms(2) by (simp_all add: c' d' booked_changes)
  ultimately show ?thesis by auto
qed

subsection \<open>An example\<close>

definition ex_deps :: deps where
  "ex_deps = \<lparr>json_Extra = (\<lambda>_. Inl (Err ''json'')), json_StaticExtra = (\<lambda>_. Inl (Err ''json'')),
     lo_Map_tokens = (\<lambda>xs f. map (\<lambda>x. f x 0) xs), lo_Map_reserves = (\<lambda>xs f. map (\<lambda>x. f x 0) xs),
     lo_Ternary_int = (\<lambda>b x y. if b then x else y), lo_Ternary_string = (\<lambda>b x y. if b then x else y)\<rparr>"

definition ex_limit :: "bigint TokenLimit" where
  "ex_limit = \<lparr>Available = Some (10 ^ 12), ExpandsTo = Some (2 * 10 ^ 12), ExpandDuration = Some 1000\<rparr>"

definition ex_fluid :: PoolSimulator where
  "ex_fluid = \<lparr>Info = \<lparr>Address = ''p'', Exchange = ''fluid'', Type = ''fluid-dex-t1'', Tokens = [''a'', ''b''],
       Reserves = [Some (2 * 10 ^ 12), Some (2 * 10 ^ 12)], SwapFee = Some 100, BlockNumber = 0\<rparr>,
     StaticExtra_p = \<lparr>DexReservesResolver = ''r'', HasNative = False\<rparr>,
     Collateral = \<lparr>Token0RealReserves = Some (10 ^ 12), Token1RealReserves = Some (10 ^ 12),
       Token0ImaginaryReserves = Some (5 * 10 ^ 12), Token1ImaginaryReserves = Some (5 * 10 ^ 12)\<rparr>,
     Debt = \<lparr>Token0Debt = Some 0, Token1Debt = Some 0, Token0RealReserves_d = Some (10 ^ 12),
       Token1RealReserves_d = Some (10 ^ 12), Token0ImaginaryReserves_d = Some (5 * 10 ^ 12),
       Token1ImaginaryReserves_d = Some (5 * 10 ^ 12)\<rparr>,
     Limits = \<lparr>WithdrawableToken0 = ex_limit, WithdrawableToken1 = ex_limit, BorrowableToken0 = ex_limit,
       BorrowableToken1 = ex_limit\<rparr>,
     CenterPrice = Some (10 ^ 27), Token0Decimals = 12, Token1Decimals = 12, SyncTimestamp = 1000,
     IsSwapAndArbitragePaused = False\<rparr>"

definition ex_fluid_request :: "unit CalcAmountOutParams" where
  "ex_fluid_request = \<lparr>TokenAmountIn = token_amount ''a'' (Some (10 ^ 10)), TokenOut = ''b'', Limit = None\<rparr>"

lemma ex_fluid_wf: "fluid_wf ex_fluid"
  by code_simp

lemma ex_deps_ternary: "ternary_ok ex_deps"
  by (simp add: ternary_ok_def ex_deps_def)

definition ex_fluid_state :: swap_state where
  "ex_fluid_state = (case clone_state ex_fluid of Inr st \<Rightarrow> st | _ \<Rightarrow> undefined)"

lemma ex_fluid_clone: "clone_state ex_fluid = Inr ex_fluid_state"
proof -
  have "(case clone_state ex_fluid of Inr st \<Rightarrow> True | _ \<Rightarrow> False)" by code_simp
  then show ?thesis by (auto simp: ex_fluid_state_def split: sum.splits)
qed

text \<open>One swap of the example and what it pays.\<close>

definition ex_fluid_swap :: "(SwapInfo CalcAmountOutResult \<times> PoolSimulator) go" where
  "ex_fluid_swap = bnd (CalcAmountOut ex_deps (1500, 1500) ex_fluid ex_fluid_request) (\<lambda>r.
     bnd (UpdateBalance ex_fluid (update_params ex_fluid_request r)) (\<lambda>s. Inr (r, s)))"

lemma ex_fluid_swap_pays:
  "(case ex_fluid_swap of Inr (r, s) \<Rightarrow> TokenAmountOut r = Some (token_amount ''b'' (Some 9989011986)) | _ \<Rightarrow> False)"
  by code_simp

lemma ex_fluid_swap_fee:
  "(case CalcAmountOut ex_deps (1500, 1500) ex_fluid ex_fluid_request of
      Inr r \<Rightarrow> Fee r = Some (token_amount ''a'' (Some 1000000)) | _ \<Rightarrow> False)"
  by code_simp

lemma ex_fluid_swapE:
  obtains r s where "CalcAmountOut ex_deps (1500, 1500) ex_fluid ex_fluid_request = Inr r"
    "UpdateBalance ex_fluid (update_params ex_fluid_request r) = Inr s"
    "TokenAmountOut r = Some (token_amount ''b'' (Some 9989011986))"
  using ex_fluid_swap_pays by (auto simp: ex_fluid_swap_def bnd_def split: sum.splits)

theorem fluid_invariant_witness:
  "\<exists>s st. fluid_step ex_deps ex_fluid s \<and> clone_state s = Inr st \<and> improved ex_fluid_state st"
proof -
  obtain r s where r: "CalcAmountOut ex_deps (1500, 1500) ex_fluid ex_fluid_request = Inr r"
    "UpdateBalance ex_fluid (update_params ex_fluid_request r) = Inr s"
    by (rule ex_fluid_swapE)
  have "valid_request ex_fluid_request" "Token (TokenAmountIn ex_fluid_request) \<in> set (Tokens (Info ex_fluid))"
    "TokenOut ex_fluid_request \<in> set (Tokens (Info ex_fluid))"
    by (simp_all add: valid_request_def ex_fluid_request_def ex_fluid_def)
  from fluid_step.swap [OF this r] have step: "fluid_step ex_deps ex_fluid s" .
  then have "(fluid_step ex_deps)\<^sup>*\<^sup>* ex_fluid s" by simp
  from fluid_invariant [OF this ex_fluid_wf ex_deps_ternary ex_fluid_clone] step show ?thesis by blast
qed

text \<open>Ten thousand million units less a fee of a million are swapped: the two payments that the new state
  books add up to the quoted amount.\<close>

theorem fluid_quote_covered_witness:
  "\<exists>r c dt l c' dt' l' ic idt oc od. CalcAmountOut ex_deps (1500, 1500) ex_fluid ex_fluid_request = Inr r \<and>
     clone_state ex_fluid = Inr (c, dt, l) \<and> SwapInfo r = Some (swap_info ex_fluid (c', dt', l')) \<and>
     pays (col_side True c) (col_side True c') ic oc \<and> pays (debt_side True dt) (debt_side True dt') idt od \<and>
     ic + idt = 9999000000 \<and> oc + od = 9989011986"
proof -
  obtain r s where r: "CalcAmountOut ex_deps (1500, 1500) ex_fluid ex_fluid_request = Inr r"
    "TokenAmountOut r = Some (token_amount ''b'' (Some 9989011986))"
    by (rule ex_fluid_swapE)
  have fee: "Fee r = Some (token_amount ''a'' (Some 1000000))"
    using ex_fluid_swap_fee r(1) by simp
  have dir: "zero_to_one ex_fluid ex_fluid_request = True" "in_decimals ex_fluid True = 12" "out_decimals ex_fluid True = 12"
    "Amount (TokenAmountIn ex_fluid_request) = Some (10 ^ 10)" "Token (TokenAmountIn ex_fluid_request) = ''a''"
    by (simp_all add: in_decimals_def out_decimals_def zero_to_one_def ex_fluid_def ex_fluid_request_def)
  from fluid_quote_covered [OF r(1) ex_fluid_wf ex_deps_ternary] r fee show ?thesis
    unfolding dir
    by (auto simp: token_amount_eq fromAdjustedAmount_def toAdjustedAmount_def DexAmountsDecimals_def) blast
qed

text \<open>Ten units split in two halves: twenty are booked.\<close>

theorem fluid_split_booked_twice_witness:
  "\<exists>c d l out c' d' l'. ex_fluid_state = (c, d, l) \<and>
    swapInAdjusted (1500, 1500) True (10 ^ 10) (c, d, l) 12 (Some (10 ^ 27)) 1000 = Inr (out, c', d', l') \<and>
    Token0RealReserves c' - Token0RealReserves c + (Token0RealReserves_d d' - Token0RealReserves_d d) = 2 * 10 ^ 10"
proof -
  obtain c d l where st: "ex_fluid_state = (c, d, l)" by (cases ex_fluid_state)
  have "(case swapInAdjusted (1500, 1500) True (10 ^ 10) ex_fluid_state 12 (Some (10 ^ 27)) 1000 of
      Inr (out, c', d', l') \<Rightarrow> Token0RealReserves c' \<noteq> Token0RealReserves (fst ex_fluid_state) \<and>
        Token0RealReserves_d d' \<noteq> Token0RealReserves_d (fst (snd ex_fluid_state)) | _ \<Rightarrow> False)"
    by code_simp
  then obtain out c' d' l' where run: "swapInAdjusted (1500, 1500) True (10 ^ 10) (c, d, l) 12 (Some (10 ^ 27)) 1000 =
      Inr (out, c', d', l')" and ne: "c' \<noteq> c" "d' \<noteq> d"
    by (auto simp: st split: sum.splits)
  have "Token0RealReserves c' - Token0RealReserves c + (Token0RealReserves_d d' - Token0RealReserves_d d) = 2 * 10 ^ 10"
    using fluid_split_booked_twice [OF run] ne by (simp add: col_side_def debt_side_def)
  with st run show ?thesis by blast
qed

theorem fluid_exact_out_rounds_down_witness: "\<exists>i out'. getAmountIn 10 100 1000 = Inr i \<and> getAmountOut i 100 1000 = Inr out' \<and> out' \<le> 10"
  using fluid_exact_out_rounds_down [of 10 1000 100] by auto

end
