(* ===== verification/Bancor_V21.thy ===== *)
theory Bancor_V21
  imports Pool_Interface Valueobject
begin

text \<open>
  The simulator of \<open>pkg/liquidity-source/bancor-v21\<close>: one simulator for the whole network.  Every
  anchor (a liquidity token) has an inner pool; a swap follows a conversion path
  \<open>token, anchor, token, ..., anchor, token\<close> through them, found as in the contract
  \<open>ConversionPathFinder\<close>: both tokens are linked to BNT and the common ends of the two links are cut.

  \<^item> \<open>getPath\<close> recurses without a bound, so its search is a \<open>partial_function (option)\<close>: \<open>None\<close> is a
    recursion that does not end, which exhausts the stack of the Go process.  The two nested loops of
    the source run over the pairs \<open>visits\<close> lists.
  \<^item> An inner pool is a pointer (\<open>Some None\<close> is a nil entry of the map); its reserves are strings.
  \<^item> JSON decoding (\<open>goccy/go-json\<close>) is a parameter, for the stored extra and for the conversion path
    \<open>UpdateBalance\<close> reads.
\<close>

definition PPM_RESOLUTION :: int where
  "PPM_RESOLUTION = 1000000"

record Gas =
  Swap :: int

definition defaultGas :: Gas where
  "defaultGas = \<lparr>Swap = 60000\<rparr>"

definition BancorTokenAddress :: string where
  "BancorTokenAddress = to_lower ''0x1F573D6Fb3F13d689FF844B4cE37794d79a7FF1C''"

record Extra =
  InnerPoolByAnchor_x :: "string \<rightharpoonup> EntityPool option"
  AnchorsByConvertibleToken_x :: "string \<rightharpoonup> string list"
  InnerPools_x :: "EntityPool list"
  TokensByLpAddress_x :: "string \<rightharpoonup> string list"

record PoolMetaInner =
  Fee_m :: nat
  BlockNumber_m :: nat

record SwapInfo =
  ConversionPath :: "string list"

text \<open>The dynamic types a caller may put in \<open>UpdateBalanceParams.SwapInfo\<close>.\<close>

datatype swap_info = Conversion SwapInfo | Text string

record PoolSimulator = Pool +
  gas :: Gas
  innerPoolByAnchor :: "string \<rightharpoonup> EntityPool option"
  anchorsByConvertibleToken :: "string \<rightharpoonup> string list"
  tokensByLpAddress :: "string \<rightharpoonup> string list"
  anchorTokenPathFinder :: string

text \<open>\<open>lo.Map\<close> is third-party code: a parameter at each of its two types.\<close>

definition NewPoolSimulator ::
    "(string \<Rightarrow> Extra go) \<Rightarrow> (PoolToken list \<Rightarrow> (PoolToken \<Rightarrow> int \<Rightarrow> string) \<Rightarrow> string list) \<Rightarrow>
     (string list \<Rightarrow> (string \<Rightarrow> int \<Rightarrow> bigint) \<Rightarrow> bigint list) \<Rightarrow> EntityPool \<Rightarrow> PoolSimulator go" where
  "NewPoolSimulator json_Unmarshal lo_Map_tokens lo_Map_reserves entityPool =
     bnd (json_Unmarshal (Extra_e entityPool)) (\<lambda>extra.
     Inr \<lparr>Info = \<lparr>Address = Address_e entityPool, Exchange = Exchange_e entityPool,
                   Type = Type_e entityPool, Tokens = lo_Map_tokens (Tokens_e entityPool) (\<lambda>item _. TokenAddress item),
                   Reserves = lo_Map_reserves (Reserves_e entityPool) (\<lambda>item _. NewBig item), SwapFee = None,
                   BlockNumber = BlockNumber_e entityPool\<rparr>,
          gas = defaultGas,
          innerPoolByAnchor = InnerPoolByAnchor_x extra,
          anchorsByConvertibleToken = AnchorsByConvertibleToken_x extra,
          tokensByLpAddress = TokensByLpAddress_x extra,
          anchorTokenPathFinder = BancorTokenAddress\<rparr>)"

subsection \<open>One conversion\<close>

definition crossReserveTargetAmount :: "int \<Rightarrow> int \<Rightarrow> int \<Rightarrow> int go" where
  "crossReserveTargetAmount sourceReserveBalance targetReserveBalance sourceAmount =
     (if sourceReserveBalance \<le> 0 \<or> targetReserveBalance \<le> 0 then Inl (Err ''ErrInvalidReserve'')
      else big_div (targetReserveBalance * sourceAmount) (sourceReserveBalance + sourceAmount))"

definition calculateFee :: "int \<Rightarrow> int \<Rightarrow> int" where
  "calculateFee targetAmount conversionFee = targetAmount * conversionFee div PPM_RESOLUTION"

definition targetAmountAndFee :: "int \<Rightarrow> int \<Rightarrow> int \<Rightarrow> int \<Rightarrow> (int \<times> int) go" where
  "targetAmountAndFee sourceBalance targetBalance sourceAmount conversionFee =
     bnd (crossReserveTargetAmount sourceBalance targetBalance sourceAmount) (\<lambda>targetAmount.
     let fee = calculateFee targetAmount conversionFee in Inr (targetAmount - fee, fee))"

text \<open>\<open>int64(p.SwapFee)\<close> truncates; out of range it is the smallest \<open>int64\<close> on the amd64 targets.\<close>

definition float_to_int64 :: "float64 \<Rightarrow> int" where
  "float_to_int64 f =
     (let n = big_float_int f in if - (2 ^ 63) \<le> n \<and> n < 2 ^ 63 then n else - (2 ^ 63))"

definition parse_reserve :: "EntityPool \<Rightarrow> int \<Rightarrow> int go" where
  "parse_reserve p i =
     bnd (idx (Reserves_e p) i) (\<lambda>r.
     case set_string10 r of None \<Rightarrow> Inl (Err ''ErrInvalidReserve'') | Some v \<Rightarrow> Inr v)"

fun find_reserve :: "EntityPool \<Rightarrow> string \<Rightarrow> PoolToken list \<Rightarrow> int \<Rightarrow> int go" where
  "find_reserve p address [] i = Inl (Err ''ErrInvalidToken'')"
| "find_reserve p address (token # ts) i =
     (if TokenAddress token = address then parse_reserve p i else find_reserve p address ts (i + 1))"

definition getReturn :: "PoolSimulator \<Rightarrow> string \<Rightarrow> string \<Rightarrow> string \<Rightarrow> int \<Rightarrow> (int \<times> int) go" where
  "getReturn s anchor sourceToken targetToken sourceAmount =
     (case innerPoolByAnchor s anchor of
        None \<Rightarrow> Inl (Err ''ErrInvalidAnchor'')
      | Some ptr \<Rightarrow>
          bnd (deref ptr) (\<lambda>p.
          bnd (find_reserve p sourceToken (Tokens_e p) 0) (\<lambda>sourceReserve.
          bnd (find_reserve p targetToken (Tokens_e p) 0) (\<lambda>targetReserve.
          targetAmountAndFee sourceReserve targetReserve sourceAmount
            (float_to_int64 (SwapFee_e p))))))"

fun rate_hops :: "PoolSimulator \<Rightarrow> string list \<Rightarrow> int \<Rightarrow> int go" where
  "rate_hops s (sourceToken # anchor # targetToken # path) amount =
     bnd (getReturn s anchor sourceToken targetToken amount) (\<lambda>(amount, _).
     rate_hops s (targetToken # path) amount)"
| "rate_hops s path amount = Inr amount"

definition rateByPath :: "PoolSimulator \<Rightarrow> string list \<Rightarrow> bigint \<Rightarrow> int go" where
  "rateByPath s path sourceAmount =
     (if length path \<le> 2 \<or> length path mod 2 \<noteq> 1 then Inl (Err ''ERR_INVALID_PATH'')
      else bnd (deref sourceAmount) (\<lambda>amount. rate_hops s path amount))"

subsection \<open>The conversion path\<close>

definition getExtendedArray :: "string \<Rightarrow> string \<Rightarrow> string list \<Rightarrow> string list" where
  "getExtendedArray item0 item1 array = item0 # item1 # array"

definition getInitialArray :: "string \<Rightarrow> string list" where
  "getInitialArray item = [item]"

definition getPartialArray :: "string list \<Rightarrow> nat \<Rightarrow> string list" where
  "getPartialArray array n = take (min n (length array)) array"

definition lookup :: "(string \<rightharpoonup> string list) \<Rightarrow> string \<Rightarrow> string list" where
  "lookup m k = (case m k of None \<Rightarrow> [] | Some xs \<Rightarrow> xs)"

text \<open>The pairs of an anchor and a token of it, in the order the nested loops visit them.\<close>

definition visits :: "PoolSimulator \<Rightarrow> string \<Rightarrow> (string \<times> string) list" where
  "visits s reserveToken =
     concat (map (\<lambda>anchor. map (Pair anchor) (lookup (tokensByLpAddress s) anchor))
                 (lookup (anchorsByConvertibleToken s) reserveToken))"

partial_function (option) search_path ::
    "PoolSimulator \<Rightarrow> string \<Rightarrow> (string \<times> string) list \<Rightarrow> string list option" where
  "search_path s reserveToken pairs =
     (case pairs of
        [] \<Rightarrow> Some []
      | pair # rest \<Rightarrow>
          if snd pair \<noteq> reserveToken
          then Option.bind
                 (if snd pair = anchorTokenPathFinder s then Some (getInitialArray (snd pair))
                  else search_path s (snd pair) (visits s (snd pair)))
                 (\<lambda>path. if path \<noteq> [] then Some (getExtendedArray reserveToken (fst pair) path)
                         else search_path s reserveToken rest)
          else search_path s reserveToken rest)"

declare search_path.simps [code]

definition getPath :: "PoolSimulator \<Rightarrow> string \<Rightarrow> string list option" where
  "getPath s reserveToken =
     (if reserveToken = anchorTokenPathFinder s then Some (getInitialArray reserveToken)
      else search_path s reserveToken (visits s reserveToken))"

fun common_suffix :: "string list \<Rightarrow> string list \<Rightarrow> nat \<Rightarrow> nat \<Rightarrow> nat \<times> nat" where
  "common_suffix sourcePath targetPath i j =
     (if 0 < i \<and> 0 < j \<and> sourcePath ! (i - 1) = targetPath ! (j - 1)
      then common_suffix sourcePath targetPath (i - 1) (j - 1) else (i, j))"

declare common_suffix.simps [simp del]

function skip_repeats :: "string list \<Rightarrow> nat \<Rightarrow> nat \<Rightarrow> nat" where
  "skip_repeats path p q =
     (if q < length path - p mod 2
      then skip_repeats path (if path ! p = path ! q then q else p) (q + 2) else p)"
  by pat_completeness auto
termination by (relation "measure (\<lambda>(path, p, q). length path - q)") auto

declare skip_repeats.simps [simp del]

lemma skip_repeats_ge: "p \<le> q \<Longrightarrow> p \<le> skip_repeats path p q"
  by (induction path p q rule: skip_repeats.induct) (subst skip_repeats.simps, force)

function remove_repeats :: "string list \<Rightarrow> nat \<Rightarrow> nat \<Rightarrow> string list \<times> nat" where
  "remove_repeats path p n =
     (if p < length path
      then let p = skip_repeats path p (p + 2) in remove_repeats (path[n := path ! p]) (p + 1) (n + 1)
      else (path, n))"
  by pat_completeness auto
termination
  by (relation "measure (\<lambda>(path, p, n). length path - p)")
    (auto intro!: diff_less_mono2 le_imp_less_Suc skip_repeats_ge)

declare remove_repeats.simps [simp del]

definition getShortestPath :: "string list \<Rightarrow> string list \<Rightarrow> string list go" where
  "getShortestPath sourcePath targetPath =
     (if 0 < length sourcePath \<and> 0 < length targetPath
      then let (i, j) = common_suffix sourcePath targetPath (length sourcePath) (length targetPath) in
        bnd (go_map (\<lambda>m. idx sourcePath (int m)) [0..<i + 1]) (\<lambda>front.
        bnd (go_map (\<lambda>n. idx targetPath (int n - 1)) (rev [1..<j + 1])) (\<lambda>back.
        let (path, n) = remove_repeats (front @ back) 0 0 in Inr (getPartialArray path n)))
      else Inr [])"

definition findPath :: "PoolSimulator \<Rightarrow> string \<Rightarrow> string \<Rightarrow> string list go option" where
  "findPath s sourceToken targetToken =
     Option.bind (getPath s sourceToken) (\<lambda>sourcePath.
     Option.bind (getPath s targetToken) (\<lambda>targetPath.
     Some (getShortestPath sourcePath targetPath)))"

subsection \<open>Quotes and updates\<close>

definition CalcAmountOut ::
    "PoolSimulator \<Rightarrow> 'l CalcAmountOutParams \<Rightarrow> swap_info CalcAmountOutResult go option" where
  "CalcAmountOut s param =
     (let tokenAmountIn = TokenAmountIn param; tokenOut = TokenOut param in
      call (findPath s (Token tokenAmountIn) tokenOut) (\<lambda>path.
      if length path = 0 then Some (Inl (Err ''ErrInvalidPath''))
      else
        Some (bnd (rateByPath s path (Amount tokenAmountIn)) (\<lambda>amountOut.
        Inr \<lparr>TokenAmountOut = Some (token_amount tokenOut (Some amountOut)),
             Fee = Some (token_amount (Token tokenAmountIn) (Some 0)),
             RemainingTokenAmountIn = None, Gas = Swap (gas s),
             SwapInfo = Some (Conversion \<lparr>ConversionPath = path\<rparr>)\<rparr>))))"

text \<open>The last token of the inner pool with the given address, or \<open>-1\<close>.\<close>

fun last_index :: "string \<Rightarrow> PoolToken list \<Rightarrow> int \<Rightarrow> int \<Rightarrow> int" where
  "last_index address [] j found = found"
| "last_index address (token # ts) j found =
     last_index address ts (j + 1) (if TokenAddress token = address then j else found)"

text \<open>One iteration of the loop of \<open>UpdateBalance\<close>: \<open>Inr None\<close> is the early return that leaves the
  pools as they are, \<open>Inr (Some p)\<close> the inner pool after the hop.\<close>

definition update_hop ::
    "PoolSimulator \<Rightarrow> bigint \<Rightarrow> bigint \<Rightarrow> string \<Rightarrow> string \<Rightarrow> string \<Rightarrow> EntityPool option go" where
  "update_hop s amountIn amountOut sourceToken anchor targetToken =
     (case innerPoolByAnchor s anchor of
        None \<Rightarrow> Inr None
      | Some ptr \<Rightarrow>
          bnd (deref ptr) (\<lambda>p.
          let indexIn = last_index sourceToken (Tokens_e p) 0 (-1);
              indexOut = last_index targetToken (Tokens_e p) 0 (-1)
          in if indexIn < 0 \<or> indexOut < 0 then Inr None
             else
               bnd (idx (Reserves_e p) indexIn) (\<lambda>rIn.
               case set_string10 rIn of None \<Rightarrow> Inr None | Some oldReserveIn \<Rightarrow>
               bnd (idx (Reserves_e p) indexOut) (\<lambda>rOut.
               case set_string10 rOut of None \<Rightarrow> Inr None | Some oldReserveOut \<Rightarrow>
               bnd (deref amountIn) (\<lambda>a.
               bnd (upd (Reserves_e p) indexIn (big_string (oldReserveIn + a))) (\<lambda>reserves.
               bnd (deref amountOut) (\<lambda>b.
               bnd (upd reserves indexOut (big_string (oldReserveOut - b))) (\<lambda>reserves.
               Inr (Some (p\<lparr>Reserves_e := reserves\<rparr>))))))))))"

fun update_hops :: "PoolSimulator \<Rightarrow> bigint \<Rightarrow> bigint \<Rightarrow> string list \<Rightarrow> PoolSimulator go" where
  "update_hops s amountIn amountOut (sourceToken # anchor # targetToken # path) =
     bnd (update_hop s amountIn amountOut sourceToken anchor targetToken) (\<lambda>r.
     case r of
       None \<Rightarrow> Inr s
     | Some p \<Rightarrow> update_hops (s\<lparr>innerPoolByAnchor := (innerPoolByAnchor s)(anchor \<mapsto> Some p)\<rparr>)
                   amountIn amountOut (targetToken # path))"
| "update_hops s amountIn amountOut path = Inr s"

text \<open>\<open>params.SwapInfo.(string)\<close> asserts the dynamic type and panics on any other.\<close>

definition UpdateBalance ::
    "(string \<Rightarrow> string list option) \<Rightarrow> PoolSimulator \<Rightarrow> (swap_info, 'l) UpdateBalanceParams \<Rightarrow>
     PoolSimulator go" where
  "UpdateBalance json_path s params =
     (case SwapInfo_u params of
        Some (Text text) \<Rightarrow>
          (case json_path text of
             None \<Rightarrow> Inr s
           | Some path \<Rightarrow> update_hops s (Amount (TokenAmountIn_u params))
                            (Amount (TokenAmountOut_u params)) path)
      | _ \<Rightarrow> Inl (Panic (PanicMessage ''interface conversion'')))"

definition GetMetaInfo :: "PoolSimulator \<Rightarrow> string \<Rightarrow> string \<Rightarrow> PoolMetaInner" where
  "GetMetaInfo s tokenIn tokenOut = \<lparr>Fee_m = 0, BlockNumber_m = BlockNumber (Info s)\<rparr>"

definition SwapReceiveNativeIn :: "PoolSimulator \<Rightarrow> string \<Rightarrow> string \<Rightarrow> ChainID \<Rightarrow> bool go option" where
  "SwapReceiveNativeIn s tokenIn tokenOut chain =
     call (findPath s tokenIn tokenOut) (\<lambda>path.
     Some (Inr (0 < length path \<and> equal_fold (path ! 0) NativeAddress)))"

definition SwapReturnNativeOut :: "PoolSimulator \<Rightarrow> string \<Rightarrow> string \<Rightarrow> ChainID \<Rightarrow> bool go option" where
  "SwapReturnNativeOut s tokenIn tokenOut chain =
     call (findPath s tokenIn tokenOut) (\<lambda>path.
     Some (Inr (0 < length path \<and> equal_fold (path ! (length path - 1)) NativeAddress)))"

subsection \<open>Removing repeated tokens and anchors\<close>

text \<open>What the in-place loop of \<open>getShortestPath\<close> computes, as a list.\<close>

function compressed :: "string list \<Rightarrow> nat \<Rightarrow> string list" where
  "compressed path p =
     (if p < length path
      then let p = skip_repeats path p (p + 2) in path ! p # compressed path (p + 1) else [])"
  by pat_completeness auto
termination
  by (relation "measure (\<lambda>(path, p). length path - p)")
    (auto intro!: diff_less_mono2 le_imp_less_Suc skip_repeats_ge)

declare compressed.simps [simp del]

lemma skip_repeats_update:
  "n < p \<Longrightarrow> p < q \<Longrightarrow> skip_repeats (path[n := v]) p q = skip_repeats path p q"
proof (induction path p q rule: skip_repeats.induct)
  case (1 path p q)
  have nth: "path[n := v] ! p = path ! p" "path[n := v] ! q = path ! q"
    using "1.prems" by simp_all
  have IH: "q < length path - p mod 2 \<Longrightarrow>
      skip_repeats (path[n := v]) (if path ! p = path ! q then q else p) (q + 2)
      = skip_repeats path (if path ! p = path ! q then q else p) (q + 2)"
    by (rule "1.IH") (use "1.prems" in auto)
  show ?case
    by (subst (1 2) skip_repeats.simps, use nth IH in simp)
qed

lemma compressed_update: "n < p \<Longrightarrow> compressed (path[n := v]) p = compressed path p"
proof (induction path p rule: compressed.induct)
  case (1 path p)
  show ?case
  proof (cases "p < length path")
    case True
    define p' where "p' = skip_repeats path p (p + 2)"
    have ge: "p \<le> p'"
      unfolding p'_def by (rule skip_repeats_ge) simp
    have IH: "compressed (path[n := v]) (p' + 1) = compressed path (p' + 1)"
      using "1.IH" [OF True p'_def] "1.prems" ge by simp
    have sk: "skip_repeats path p (Suc (Suc p)) = p'"
      by (simp add: p'_def)
    show ?thesis
      unfolding compressed.simps [of _ p]
      using True ge IH "1.prems" by (simp add: skip_repeats_update sk Let_def)
  qed (simp add: compressed.simps)
qed

lemma skip_repeats_less: "p < length path \<Longrightarrow> skip_repeats path p q < length path"
proof (induction path p q rule: skip_repeats.induct)
  case (1 path p q)
  then show ?case
    by (subst skip_repeats.simps) auto
qed

lemma remove_repeats_eq:
  "n \<le> p \<Longrightarrow> n \<le> length path \<Longrightarrow>
   getPartialArray (fst (remove_repeats path p n)) (snd (remove_repeats path p n))
     = take n path @ compressed path p"
proof (induction path p n rule: remove_repeats.induct)
  case (1 path p n)
  show ?case
  proof (cases "p < length path")
    case True
    define p' where "p' = skip_repeats path p (p + 2)"
    have ge: "p \<le> p'"
      unfolding p'_def by (rule skip_repeats_ge) simp
    have n: "n < length path"
      using True "1.prems" by simp
    have "compressed (path[n := path ! p']) (p' + 1) = compressed path (p' + 1)"
      using ge "1.prems" by (intro compressed_update) simp
    moreover have "take (n + 1) (path[n := path ! p']) = take n path @ [path ! p']"
      using n by (simp add: take_Suc_conv_app_nth)
    moreover have "skip_repeats path p (Suc (Suc p)) = p'"
      by (simp add: p'_def)
    ultimately show ?thesis
      unfolding remove_repeats.simps [of _ p] compressed.simps [of _ p]
      using True ge n "1.prems" "1.IH" [OF True p'_def]
      by (simp add: Let_def)
  qed (use "1.prems" in \<open>simp add: remove_repeats.simps compressed.simps getPartialArray_def\<close>)
qed

text \<open>The inner loop moves to the last repetition of an entry.\<close>

lemma skip_repeats_last:
  assumes "p < length path" and "p < q" and "even p = even q"
    and "\<And>r. p < r \<Longrightarrow> r < q \<Longrightarrow> even r = even p \<Longrightarrow> path ! r \<noteq> path ! p"
  shows "even (skip_repeats path p q) = even p \<and> path ! skip_repeats path p q = path ! p \<and>
    (\<forall>r. skip_repeats path p q < r \<and> r < length path - p mod 2 \<and> even r = even p \<longrightarrow>
       path ! r \<noteq> path ! p)"
  using assms
proof (induction path p q rule: skip_repeats.induct)
  case (1 path p q)
  define p1 where "p1 = (if path ! p = path ! q then q else p)"
  show ?case
  proof (cases "q < length path - p mod 2")
    case True
    have p1: "p1 < length path" "p1 < q + 2" "even p1 = even (q + 2)" "even p1 = even p"
      "path ! p1 = path ! p"
      using True "1.prems" by (auto simp: p1_def)
    then have mod2: "p1 mod 2 = p mod 2"
      by (simp add: mod2_eq_if)
    have between: "path ! r \<noteq> path ! p1" if "p1 < r" "r < q + 2" "even r = even p1" for r
    proof (cases "r < q")
      case True
      with that p1 "1.prems" show ?thesis by (auto simp: p1_def split: if_splits)
    next
      case False
      with that p1 "1.prems" have "r = q"
        by (cases "r = q + 1") auto
      with that p1 show ?thesis by (auto simp: p1_def split: if_splits)
    qed
    have "skip_repeats path p q = skip_repeats path p1 (q + 2)"
      by (subst skip_repeats.simps) (use True in \<open>simp add: p1_def\<close>)
    moreover have "even (skip_repeats path p1 (q + 2)) = even p1 \<and>
        path ! skip_repeats path p1 (q + 2) = path ! p1 \<and>
        (\<forall>r. skip_repeats path p1 (q + 2) < r \<and> r < length path - p1 mod 2 \<and> even r = even p1 \<longrightarrow>
           path ! r \<noteq> path ! p1)"
      by (rule "1.IH" [OF True, folded p1_def, OF p1(1-3)]) (rule between)
    ultimately show ?thesis
      by (auto simp only: p1(4,5) mod2)
  next
    case False
    then have eq: "skip_repeats path p q = p"
      by (subst skip_repeats.simps) simp
    have "path ! r \<noteq> path ! p" if "p < r" "r < length path - p mod 2" "even r = even p" for r
      using "1.prems"(4) [of r] that False by simp
    with eq show ?thesis by auto
  qed
qed

lemma skip_repeats_from:
  assumes "p < length path" and "odd (length path)"
  obtains p' where "skip_repeats path p (p + 2) = p'" "p \<le> p'" "p' < length path"
    "even p' = even p" "path ! p' = path ! p"
    "\<And>r. p' < r \<Longrightarrow> r < length path \<Longrightarrow> even r = even p \<Longrightarrow> path ! r \<noteq> path ! p"
proof (rule that [OF refl skip_repeats_ge skip_repeats_less])
  let ?p' = "skip_repeats path p (p + 2)"
  have "path ! r \<noteq> path ! p" if "p < r" "r < p + 2" "even r = even p" for r
    using that by (cases "r = p + 1") auto
  then have last: "even ?p' = even p \<and> path ! ?p' = path ! p \<and>
    (\<forall>r. ?p' < r \<and> r < length path - p mod 2 \<and> even r = even p \<longrightarrow> path ! r \<noteq> path ! p)"
    by (intro skip_repeats_last assms) simp_all
  then show "even ?p' = even p" "path ! ?p' = path ! p"
    by simp_all
  fix r assume r: "?p' < r" "r < length path" "even r = even p"
  have "r < length path - p mod 2"
  proof (cases "even p")
    case True with r show ?thesis by (simp add: even_iff_mod_2_eq_zero)
  next
    case False
    with r assms(2) have "Suc r \<noteq> length path" by (metis even_Suc)
    with r have "r < length path - 1" by simp
    with False show ?thesis by (simp add: odd_iff_mod_2_eq_one)
  qed
  with last r show "path ! r \<noteq> path ! p" by blast
qed (use assms in auto)
text \<open>\<open>R b\<close> relates neighbouring entries of an alternating list; \<open>b\<close> says whether the left one is at an
  even position.\<close>

definition chained :: "(bool \<Rightarrow> string \<Rightarrow> string \<Rightarrow> bool) \<Rightarrow> bool \<Rightarrow> string list \<Rightarrow> bool" where
  "chained R b xs = (\<forall>k. Suc k < length xs \<longrightarrow> R (even k = b) (xs ! k) (xs ! Suc k))"

lemma chained_Cons:
  "chained R b (x # xs) = ((xs \<noteq> [] \<longrightarrow> R b x (hd xs)) \<and> chained R (\<not> b) xs)"
proof -
  have "(\<forall>k. P k) = (P 0 \<and> (\<forall>k. P (Suc k)))" for P :: "nat \<Rightarrow> bool"
    by (metis not0_implies_Suc)
  note split = this [of "\<lambda>k. Suc k < length (x # xs) \<longrightarrow> R (even k = b) ((x # xs) ! k) ((x # xs) ! Suc k)"]
  have swap: "(even k = (\<not> b)) = (odd k = b)" for k :: nat
    by auto
  show ?thesis
    unfolding chained_def split by (cases xs) (auto simp: hd_conv_nth swap)
qed

lemma compressed_step:
  assumes "p < length path" and "odd (length path)"
  obtains p' where "p \<le> p'" "p' < length path" "even p' = even p" "path ! p' = path ! p"
    "\<And>r. p' < r \<Longrightarrow> r < length path \<Longrightarrow> even r = even p \<Longrightarrow> path ! r \<noteq> path ! p"
    "compressed path p = path ! p # compressed path (Suc p')"
  by (rule skip_repeats_from [OF assms])
    (metis that compressed.simps assms(1) Suc_eq_plus1)

lemma compressed_path:
  "p < length path \<Longrightarrow> odd (length path) \<Longrightarrow> chained R True path \<Longrightarrow>
   compressed path p \<noteq> [] \<and> hd (compressed path p) = path ! p \<and>
   last (compressed path p) = last path \<and> even (length (compressed path p)) = odd p \<and>
   chained R (even p) (compressed path p)"
proof (induction "length path - p" arbitrary: p rule: less_induct)
  case less
  obtain p' where p': "p \<le> p'" "p' < length path" "even p' = even p" "path ! p' = path ! p"
    "compressed path p = path ! p # compressed path (Suc p')"
    using less.prems by (metis compressed_step)
  show ?case
  proof (cases "Suc p' < length path")
    case True
    have IH: "compressed path (Suc p') \<noteq> [] \<and> hd (compressed path (Suc p')) = path ! Suc p' \<and>
        last (compressed path (Suc p')) = last path \<and>
        even (length (compressed path (Suc p'))) = odd (Suc p') \<and>
        chained R (even (Suc p')) (compressed path (Suc p'))"
      using p'(1) less.prems True by (intro less.hyps) simp_all
    have "R (even p') (path ! p') (path ! Suc p')"
      using less.prems(3) True by (auto simp: chained_def)
    with IH p' show ?thesis
      by (simp add: chained_Cons)
  next
    case False
    with p' have "compressed path (Suc p') = []"
      by (simp add: compressed.simps)
    moreover have "Suc p' = length path"
      using False p'(2) by simp
    moreover have "path \<noteq> []"
      using p'(2) by auto
    ultimately have "even p \<and> last path = path ! p"
      using p'(3,4) less.prems(2) by (metis even_Suc diff_Suc_1 last_conv_nth)
    moreover note \<open>compressed path (Suc p') = []\<close>
    ultimately show ?thesis
      by (simp add: p'(5) chained_def)
  qed
qed

lemma compressed_nth:
  "odd (length path) \<Longrightarrow> k < length (compressed path p) \<Longrightarrow>
   \<exists>r \<ge> p. r < length path \<and> even r = even (p + k) \<and> compressed path p ! k = path ! r"
proof (induction k arbitrary: p)
  case 0
  then have "p < length path"
    by (metis compressed.simps less_nat_zero_code list.size(3))
  with 0 show ?case
    by (metis compressed_step nth_Cons_0 add_0_right order_refl)
next
  case (Suc k)
  then have "p < length path"
    by (metis compressed.simps less_nat_zero_code list.size(3))
  then obtain p' where p': "p \<le> p'" "even p' = even p"
    "compressed path p = path ! p # compressed path (Suc p')"
    using Suc.prems by (metis compressed_step)
  from Suc.IH [of "Suc p'"] Suc.prems p' obtain r where "r \<ge> Suc p'" "r < length path"
    "even r = even (Suc p' + k)" "compressed path (Suc p') ! k = path ! r"
    by auto
  with p' show ?case
    by (intro exI [of _ r]) auto
qed

lemma compressed_distinct:
  "odd (length path) \<Longrightarrow> j < k \<Longrightarrow> k < length (compressed path p) \<Longrightarrow> even j = even k \<Longrightarrow>
   compressed path p ! j \<noteq> compressed path p ! k"
proof (induction j arbitrary: k p)
  case 0
  then have "p < length path"
    by (metis compressed.simps less_nat_zero_code list.size(3))
  then obtain p' where p': "p \<le> p'" "even p' = even p"
    "\<And>r. p' < r \<Longrightarrow> r < length path \<Longrightarrow> even r = even p \<Longrightarrow> path ! r \<noteq> path ! p"
    "compressed path p = path ! p # compressed path (Suc p')"
    using 0 by (metis compressed_step)
  obtain l where l: "k = Suc l"
    using 0 by (cases k) auto
  from compressed_nth [of path l "Suc p'"] 0 p' l obtain r where "r \<ge> Suc p'" "r < length path"
    "even r = even (Suc p' + l)" "compressed path (Suc p') ! l = path ! r"
    by auto
  moreover from this have "path ! r \<noteq> path ! p"
    using p'(2) l 0 by (intro p'(3)) auto
  ultimately show ?case
    using p'(4) l by simp
next
  case (Suc j)
  then have "p < length path"
    by (metis compressed.simps less_nat_zero_code list.size(3))
  then obtain p' where "compressed path p = path ! p # compressed path (Suc p')"
    using Suc.prems by (metis compressed_step)
  moreover obtain l where "k = Suc l"
    using Suc.prems by (cases k) auto
  ultimately show ?case
    using Suc.IH [of l "Suc p'"] Suc.prems by simp
qed
subsection \<open>The path between two tokens\<close>

lemma common_suffix_result:
  "i \<le> length xs \<Longrightarrow> j \<le> length ys \<Longrightarrow> drop i xs = drop j ys \<Longrightarrow> common_suffix xs ys i j = (i', j') \<Longrightarrow>
   i' \<le> i \<and> j' \<le> j \<and> drop i' xs = drop j' ys \<and>
   (0 < i \<and> 0 < j \<and> xs ! (i - 1) = ys ! (j - 1) \<longrightarrow> i' < i \<and> j' < j)"
proof (induction xs ys i j rule: common_suffix.induct)
  case (1 xs ys i j)
  show ?case
  proof (cases "0 < i \<and> 0 < j \<and> xs ! (i - 1) = ys ! (j - 1)")
    case True
    have "i - 1 < length xs" and "j - 1 < length ys"
      using True "1.prems" by linarith+
    then have "drop (i - 1) xs = drop (j - 1) ys"
      using True "1.prems" Cons_nth_drop_Suc [of "i - 1" xs] Cons_nth_drop_Suc [of "j - 1" ys] by simp
    moreover have "common_suffix xs ys (i - 1) (j - 1) = (i', j')"
      using "1.prems"(4) True by (subst (asm) common_suffix.simps) simp
    ultimately have "i' \<le> i - 1 \<and> j' \<le> j - 1 \<and> drop i' xs = drop j' ys"
      using "1.IH" [OF True] "1.prems" by auto
    moreover have "i - 1 < i" and "j - 1 < j"
      using True by auto
    ultimately show ?thesis
      by (meson le_less_trans less_imp_le)
  next
    case False
    with "1.prems" show ?thesis
      by (subst (asm) common_suffix.simps) auto
  qed
qed

text \<open>Two paths with the same end meet at the first entry of their common end; the second is walked
  backwards from there.\<close>

lemma shortest_path_eq:
  assumes "xs \<noteq> []" and "ys \<noteq> []" and "last xs = last ys"
  obtains i j where "i < length xs" "j < length ys" "drop i xs = drop j ys"
    "getShortestPath xs ys = Inr (compressed (take (Suc i) xs @ rev (take j ys)) 0)"
proof -
  obtain i j where ij: "common_suffix xs ys (length xs) (length ys) = (i, j)"
    by fastforce
  have *: "i < length xs" "j < length ys" "drop i xs = drop j ys"
    using common_suffix_result [OF order_refl order_refl _ ij] assms by (auto simp: last_conv_nth)
  have "go_map (\<lambda>m. idx xs (int m)) [0..<i + 1] = Inr (map (nth xs) [0..<i + 1])"
    using * by (intro go_map_Inr) (auto simp: idx_def)
  also have "map (nth xs) [0..<i + 1] = take (Suc i) xs"
    using * by (intro nth_equalityI) (auto simp del: upt_Suc)
  finally have front: "go_map (\<lambda>m. idx xs (int m)) [0..<i + 1] = Inr (take (Suc i) xs)" .
  have "go_map (\<lambda>n. idx ys (int n - 1)) (rev [1..<j + 1]) = Inr (map (\<lambda>n. ys ! (n - 1)) (rev [1..<j + 1]))"
    using * by (intro go_map_Inr) (auto simp: idx_def nat_diff_distrib)
  also have "map (\<lambda>n. ys ! (n - 1)) (rev [1..<j + 1]) = rev (map (nth ys) [0..<j])"
    by (simp add: rev_map [symmetric] map_Suc_upt [symmetric] o_def del: upt_Suc)
  also have "map (nth ys) [0..<j] = take j ys"
    using * by (intro nth_equalityI) auto
  finally have backward: "go_map (\<lambda>n. idx ys (int n - 1)) (rev [1..<j + 1]) = Inr (rev (take j ys))" .
  have "getShortestPath xs ys = Inr (compressed (take (Suc i) xs @ rev (take j ys)) 0)"
    unfolding getShortestPath_def Let_def ij prod.case front backward
    using assms remove_repeats_eq [of 0 0 "take (Suc i) xs @ rev (take j ys)"]
    by (simp add: split_beta)
  with * that show thesis by blast
qed

text \<open>Joining two chained paths at their common end gives a chained path.\<close>

lemma chained_join:
  assumes "chained R True xs" and "chained R True ys" and "odd (length xs)" and "odd (length ys)"
    and "i < length xs" and "j < length ys" and "drop i xs = drop j ys"
    and sym: "\<And>b x y. R (\<not> b) x y = R b y x"
  shows "odd (length (take (Suc i) xs @ rev (take j ys)))"
    and "chained R True (take (Suc i) xs @ rev (take j ys))"
proof -
  let ?p = "take (Suc i) xs @ rev (take j ys)"
  have len: "length xs - i = length ys - j"
    using arg_cong [OF assms(7), of length] by simp
  then have par: "even (i + j)"
    using assms(3-6) by presburger
  with assms(5,6) show "odd (length ?p)"
    by simp
  have meet: "xs ! i = ys ! j"
    using assms(5-7) by (metis hd_drop_conv_nth)
  have right: "?p ! (i + m) = ys ! (j - m)" if "m \<le> j" for m
    using that assms(5,6) meet by (cases m) (auto simp: nth_append rev_nth)
  have left: "?p ! k = xs ! k" if "k \<le> i" for k
    using that assms(5) by (simp add: nth_append)
  show "chained R True ?p"
    unfolding chained_def
  proof (intro allI impI)
    fix k assume k: "Suc k < length ?p"
    show "R (even k = True) (?p ! k) (?p ! Suc k)"
    proof (cases "k < i")
      case True
      with assms(1,5) left show ?thesis by (simp add: chained_def)
    next
      case False
      then obtain m where m: "k = i + m" by (metis le_Suc_ex not_less)
      with k assms(5,6) have "Suc m \<le> j" by simp
      then obtain n where n: "j = Suc (m + n)" by (metis add_Suc le_Suc_ex)
      have "R (even n = True) (ys ! n) (ys ! Suc n)"
        using assms(2,6) n by (auto simp: chained_def)
      moreover have "even k = odd n"
        using par m n by presburger
      ultimately show ?thesis
        using right [of m] right [of "Suc m"] m n sym [of "even n"] by simp
    qed
  qed
qed
text \<open>The registry of anchors: which anchors a token is convertible at, and which tokens an anchor
  holds.  \<open>registered\<close> says that the two maps agree.\<close>

abbreviation anchors_of :: "PoolSimulator \<Rightarrow> string \<Rightarrow> string list" where
  "anchors_of s t \<equiv> lookup (anchorsByConvertibleToken s) t"

abbreviation tokens_of :: "PoolSimulator \<Rightarrow> string \<Rightarrow> string list" where
  "tokens_of s a \<equiv> lookup (tokensByLpAddress s) a"

definition registered :: "PoolSimulator \<Rightarrow> bool" where
  "registered s = (\<forall>t a. a \<in> set (anchors_of s t) \<longleftrightarrow> t \<in> set (tokens_of s a))"

text \<open>A neighbour relation for conversion paths: a token at an even position, an anchor that holds it
  at an odd one.\<close>

definition joined :: "PoolSimulator \<Rightarrow> bool \<Rightarrow> string \<Rightarrow> string \<Rightarrow> bool" where
  "joined s b x y = (if b then x \<in> set (tokens_of s y) else y \<in> set (tokens_of s x))"

definition is_path :: "PoolSimulator \<Rightarrow> string list \<Rightarrow> bool" where
  "is_path s path = (odd (length path) \<and> chained (joined s) True path)"

lemma joined_sym: "joined s (\<not> b) x y = joined s b y x"
  by (simp add: joined_def)

lemma in_visits:
  "(a, c) \<in> set (visits s t) \<longleftrightarrow> a \<in> set (anchors_of s t) \<and> c \<in> set (tokens_of s a)"
  by (auto simp: visits_def)

lemma search_path_induct [consumes 1, case_names nil same hub hit dead]:
  assumes search: "search_path s t pairs = Some path"
    and nil: "\<And>t. P t [] []"
    and same: "\<And>t a rest path. P t rest path \<Longrightarrow> P t ((a, t) # rest) path"
    and hub: "\<And>t a rest. t \<noteq> anchorTokenPathFinder s \<Longrightarrow>
      P t ((a, anchorTokenPathFinder s) # rest) [t, a, anchorTokenPathFinder s]"
    and hit: "\<And>t a c rest path. c \<noteq> t \<Longrightarrow> c \<noteq> anchorTokenPathFinder s \<Longrightarrow> P c (visits s c) path \<Longrightarrow>
      path \<noteq> [] \<Longrightarrow> P t ((a, c) # rest) (t # a # path)"
    and dead: "\<And>t a c rest path. c \<noteq> t \<Longrightarrow> c \<noteq> anchorTokenPathFinder s \<Longrightarrow> P c (visits s c) [] \<Longrightarrow>
      P t rest path \<Longrightarrow> P t ((a, c) # rest) path"
  shows "P t pairs path"
proof -
  from search have "s = s \<longrightarrow> P t pairs path"
  proof (rule search_path.raw_induct [of "\<lambda>s' t pairs path. s' = s \<longrightarrow> P t pairs path", rotated])
    fix search s' t and pairs :: "(string \<times> string) list" and path
    assume IH: "\<And>s' t pairs path. search s' t pairs = Some path \<Longrightarrow> s' = s \<longrightarrow> P t pairs path"
      and run: "(case pairs of [] \<Rightarrow> Some []
        | pair # rest \<Rightarrow>
          if snd pair \<noteq> t
          then Option.bind
                 (if snd pair = anchorTokenPathFinder s' then Some (getInitialArray (snd pair))
                  else search s' (snd pair) (visits s' (snd pair)))
                 (\<lambda>path. if path \<noteq> [] then Some (getExtendedArray t (fst pair) path)
                         else search s' t rest)
          else search s' t rest) = Some path"
    show "s' = s \<longrightarrow> P t pairs path"
    proof
      assume [simp]: "s' = s"
      show "P t pairs path"
      proof (cases pairs)
        case (Cons pair rest)
        obtain a c where [simp]: "pair = (a, c)" by fastforce
        consider "c = t" "search s t rest = Some path"
          | "c \<noteq> t" "c = anchorTokenPathFinder s" "path = [t, a, c]"
          | p where "c \<noteq> t" "c \<noteq> anchorTokenPathFinder s" "search s c (visits s c) = Some p" "p \<noteq> []"
              "path = t # a # p"
          | "c \<noteq> t" "c \<noteq> anchorTokenPathFinder s" "search s c (visits s c) = Some []"
              "search s t rest = Some path"
          using run Cons
          by (auto simp: getInitialArray_def getExtendedArray_def bind_eq_Some_conv split: if_splits)
        then show ?thesis
          using IH same hub hit dead Cons by cases auto
      qed (use run nil in simp)
    qed
  qed
  then show ?thesis by simp
qed

lemma search_path_is_path:
  "search_path s t pairs = Some path \<Longrightarrow>
   (\<forall>(a, c) \<in> set pairs. t \<in> set (tokens_of s a) \<and> c \<in> set (tokens_of s a)) \<Longrightarrow>
   registered s \<Longrightarrow> path \<noteq> [] \<Longrightarrow>
   hd path = t \<and> last path = anchorTokenPathFinder s \<and> is_path s path"
proof (induction rule: search_path_induct)
  case (hub t a rest)
  then show ?case
    by (simp add: is_path_def chained_Cons joined_def chained_def [of _ _ "[]"])
next
  case (hit t a c rest path)
  have "\<forall>(a, d) \<in> set (visits s c). c \<in> set (tokens_of s a) \<and> d \<in> set (tokens_of s a)"
    using hit.prems(2) by (auto simp: in_visits registered_def)
  with hit show ?case
    by (simp add: is_path_def chained_Cons joined_def)
qed auto

lemma getPath_is_path:
  assumes "getPath s t = Some path" and "registered s" and "path \<noteq> []"
  shows "hd path = t \<and> last path = anchorTokenPathFinder s \<and> is_path s path"
proof (cases "t = anchorTokenPathFinder s")
  case True
  with assms show ?thesis
    by (auto simp: getPath_def getInitialArray_def is_path_def chained_def)
next
  case False
  then have "search_path s t (visits s t) = Some path"
    using assms by (simp add: getPath_def)
  then show ?thesis
    by (rule search_path_is_path) (use assms in \<open>auto simp: in_visits registered_def\<close>)
qed

lemma findPath_path:
  assumes "registered s" and "findPath s src tgt = Some (Inr path)" and "path \<noteq> []"
  shows "hd path = src \<and> last path = tgt \<and> is_path s path \<and>
    (\<forall>j k. j < k \<and> k < length path \<and> even j = even k \<longrightarrow> path ! j \<noteq> path ! k)"
proof -
  obtain xs ys where xs: "getPath s src = Some xs" and ys: "getPath s tgt = Some ys"
    and sp: "getShortestPath xs ys = Inr path"
    using assms(2) by (auto simp: findPath_def bind_eq_Some_conv)
  then have ne: "xs \<noteq> []" "ys \<noteq> []"
    using assms(3) by (auto simp: getShortestPath_def)
  note X = getPath_is_path [OF xs assms(1) ne(1)] and Y = getPath_is_path [OF ys assms(1) ne(2)]
  obtain i j where ij: "i < length xs" "j < length ys" "drop i xs = drop j ys"
    "getShortestPath xs ys = Inr (compressed (take (Suc i) xs @ rev (take j ys)) 0)"
    using shortest_path_eq [OF ne] X Y by metis
  let ?p = "take (Suc i) xs @ rev (take j ys)"
  have path: "path = compressed ?p 0"
    using ij(4) sp by simp
  have "chained (joined s) True xs" "chained (joined s) True ys" "odd (length xs)" "odd (length ys)"
    using X Y by (simp_all add: is_path_def)
  note p = chained_join [where R = "joined s", OF this ij(1-3) joined_sym]
  have "?p \<noteq> []"
    using ne by simp
  have "hd ?p = src"
    using ne X by (simp add: hd_take)
  moreover have "last ?p = tgt"
  proof (cases j)
    case 0
    then have "xs ! i = hd ys"
      using ij ne by (metis drop_0 hd_drop_conv_nth)
    with 0 ij(1) Y show ?thesis
      by (simp add: take_Suc_conv_app_nth)
  next
    case (Suc n)
    with ne Y show ?thesis
      by (simp add: last_rev hd_take)
  qed
  ultimately have C: "hd path = src" "last path = tgt" "odd (length path)" "chained (joined s) True path"
    using compressed_path [of 0 ?p "joined s"] p \<open>?p \<noteq> []\<close> unfolding path
    by (simp_all add: hd_conv_nth del: last_append hd_append2 length_append)
  moreover have "path ! j \<noteq> path ! k" if "j < k" "k < length path" "even j = even k" for j k
    using compressed_distinct [OF p(1)] that unfolding path by blast
  ultimately show ?thesis
    by (auto simp: is_path_def)
qed

lemma is_path_joins:
  assumes "is_path s path" and "odd k" and "k < length path"
  shows "path ! (k - 1) \<in> set (tokens_of s (path ! k)) \<and> path ! (k + 1) \<in> set (tokens_of s (path ! k))"
proof -
  obtain n where n: "k = Suc n"
    using assms(2) by (cases k) auto
  have "Suc k < length path"
    using assms by (metis is_path_def Suc_lessI even_Suc)
  with assms n show ?thesis
    unfolding is_path_def chained_def joined_def by (auto dest: spec [of _ n] spec [of _ k])
qed

text \<open>C16: the conversion path of a quote starts at the token paid and ends at the token bought; every
  anchor on it holds the two tokens beside it, and it visits no token and no anchor twice.\<close>

theorem bancor_find_path:
  assumes "registered s" and "findPath s src tgt = Some (Inr path)" and "path \<noteq> []"
  shows "hd path = src \<and> last path = tgt \<and> odd (length path) \<and>
    (\<forall>k. odd k \<and> k < length path \<longrightarrow>
       path ! (k - 1) \<in> set (tokens_of s (path ! k)) \<and> path ! (k + 1) \<in> set (tokens_of s (path ! k))) \<and>
    (\<forall>j k. j < k \<and> k < length path \<and> even j = even k \<longrightarrow> path ! j \<noteq> path ! k)"
  using findPath_path [OF assms] is_path_joins [of s path] by (simp add: is_path_def)

lemma findPath_no_panic:
  assumes "registered s" and "findPath s src tgt = Some r"
  shows "\<exists>path. r = Inr path"
proof -
  obtain xs ys where xs: "getPath s src = Some xs" and ys: "getPath s tgt = Some ys"
    and sp: "getShortestPath xs ys = r"
    using assms(2) by (auto simp: findPath_def bind_eq_Some_conv)
  show ?thesis
  proof (cases "xs = [] \<or> ys = []")
    case True
    with sp show ?thesis by (auto simp: getShortestPath_def)
  next
    case False
    with shortest_path_eq [of xs ys] getPath_is_path [OF xs assms(1)] getPath_is_path [OF ys assms(1)] sp
    show ?thesis by metis
  qed
qed

subsection \<open>When the search ends\<close>

text \<open>The connection the search tries first.\<close>

definition next_hop :: "PoolSimulator \<Rightarrow> string \<Rightarrow> (string \<times> string) option" where
  "next_hop s t = find (\<lambda>pair. snd pair \<noteq> t) (visits s t)"

fun follow :: "PoolSimulator \<Rightarrow> nat \<Rightarrow> string \<Rightarrow> string" where
  "follow s 0 t = t"
| "follow s (Suc n) t = (case next_hop s t of None \<Rightarrow> t | Some pair \<Rightarrow> follow s n (snd pair))"

lemma next_hop_Some:
  assumes "next_hop s t = Some (a, c)"
  shows "c \<noteq> t" and "a \<in> set (anchors_of s t)" and "c \<in> set (tokens_of s a)"
proof -
  obtain i where "i < length (visits s t)" "snd (visits s t ! i) \<noteq> t" "visits s t ! i = (a, c)"
    using assms unfolding next_hop_def find_Some_iff by metis
  then have "c \<noteq> t \<and> (a, c) \<in> set (visits s t)"
    by (metis nth_mem snd_conv)
  then show "c \<noteq> t" "a \<in> set (anchors_of s t)" "c \<in> set (tokens_of s a)"
    by (simp_all add: in_visits)
qed

text \<open>In an agreeing registry a token reached through an anchor has a connection of its own (back
  through the same anchor), so a search that starts with one never meets a dead end.\<close>

lemma next_hop_back:
  assumes "registered s" and "next_hop s t = Some (a, c)"
  shows "next_hop s c \<noteq> None"
proof -
  have "(a, t) \<in> set (visits s c)" and "t \<noteq> c"
    using assms(1) next_hop_Some [OF assms(2)] by (auto simp: in_visits registered_def)
  then show ?thesis
    by (auto simp: next_hop_def find_None_iff)
qed

lemma search_path_found:
  "search_path s t pairs = Some path \<Longrightarrow> registered s \<Longrightarrow> set pairs \<subseteq> set (visits s t) \<Longrightarrow>
   find (\<lambda>pair. snd pair \<noteq> t) pairs \<noteq> None \<Longrightarrow> path \<noteq> []"
proof (induction rule: search_path_induct)
  case (dead t a c rest path)
  have "(a, t) \<in> set (visits s c)"
    using dead.prems by (auto simp: in_visits registered_def)
  then have "find (\<lambda>pair. snd pair \<noteq> c) (visits s c) \<noteq> None"
    using dead.hyps(1) by (auto simp: find_None_iff)
  with dead.IH(1) dead.prems(1) show ?case by simp
qed auto

lemma search_path_first:
  "registered s \<Longrightarrow> set pairs \<subseteq> set (visits s t) \<Longrightarrow>
   search_path s t pairs =
     (case find (\<lambda>pair. snd pair \<noteq> t) pairs of
        None \<Rightarrow> Some []
      | Some pair \<Rightarrow> map_option (\<lambda>path. t # fst pair # path) (getPath s (snd pair)))"
proof (induction pairs)
  case Nil
  show ?case by (subst search_path.simps) simp
next
  case (Cons pair rest)
  obtain a c where pair: "pair = (a, c)" by fastforce
  show ?case
  proof (cases "c = t")
    case True
    with Cons pair show ?thesis by (subst search_path.simps) simp
  next
    case False
    have "(a, t) \<in> set (visits s c)"
      using Cons.prems pair by (auto simp: in_visits registered_def)
    then have "find (\<lambda>pair. snd pair \<noteq> c) (visits s c) \<noteq> None"
      using False by (auto simp: find_None_iff)
    then have ne: "search_path s c (visits s c) \<noteq> Some []"
      using search_path_found [OF _ Cons.prems(1) subset_refl] by blast
    show ?thesis
      using False ne pair
      by (subst search_path.simps, cases "search_path s c (visits s c)")
        (auto simp: getPath_def getInitialArray_def getExtendedArray_def)
  qed
qed

lemma getPath_eq:
  assumes "registered s"
  shows "getPath s t =
    (if t = anchorTokenPathFinder s then Some [t]
     else case next_hop s t of
            None \<Rightarrow> Some []
          | Some pair \<Rightarrow> map_option (\<lambda>path. t # fst pair # path) (getPath s (snd pair)))"
  using search_path_first [OF assms subset_refl]
  by (simp add: getPath_def [of s t] getInitialArray_def next_hop_def)

lemma getPath_Nil: "registered s \<Longrightarrow> getPath s t = Some [] \<Longrightarrow> next_hop s t = None"
  by (subst (asm) getPath_eq) (auto split: if_splits option.splits)

lemma getPath_follow:
  assumes "registered s"
  shows "follow s n t = anchorTokenPathFinder s \<Longrightarrow> getPath s t \<noteq> None"
proof (induction n arbitrary: t)
  case 0
  then show ?case by (simp add: getPath_def)
next
  case (Suc n)
  then show ?case
    by (subst getPath_eq [OF assms]) (auto split: option.splits)
qed

lemma follow_getPath:
  assumes "registered s"
  shows "getPath s t = Some path \<Longrightarrow> path \<noteq> [] \<Longrightarrow>
    \<exists>n. length path = 2 * n + 1 \<and> follow s n t = anchorTokenPathFinder s"
proof (induction path arbitrary: t rule: length_induct)
  case (1 path)
  show ?case
  proof (cases "t = anchorTokenPathFinder s")
    case True
    with 1 show ?thesis
      by (intro exI [of _ 0]) (auto simp: getPath_def getInitialArray_def)
  next
    case False
    with "1.prems" obtain a c p where p: "next_hop s t = Some (a, c)" "getPath s c = Some p"
      "path = t # a # p"
      by (subst (asm) getPath_eq [OF assms]) (auto split: option.splits)
    have "p \<noteq> []"
      using p(2) next_hop_back [OF assms p(1)] getPath_Nil [OF assms, of c] by auto
    with "1.IH" p obtain n where "length p = 2 * n + 1" "follow s n c = anchorTokenPathFinder s"
      by (metis length_Cons lessI less_SucI)
    with p show ?thesis
      by (intro exI [of _ "Suc n"]) simp
  qed
qed

text \<open>C17: the search for the link of a token to BNT ends exactly when the token has no connection at
  all or when following the first connection of each token leads to BNT; otherwise it recurses for
  ever, whatever the other connections are.\<close>

theorem bancor_path_returns:
  assumes "registered s"
  shows "getPath s t \<noteq> None \<longleftrightarrow>
    next_hop s t = None \<or> (\<exists>n. follow s n t = anchorTokenPathFinder s)"
proof
  assume "getPath s t \<noteq> None"
  then obtain path where path: "getPath s t = Some path" by auto
  show "next_hop s t = None \<or> (\<exists>n. follow s n t = anchorTokenPathFinder s)"
  proof (cases "path = []")
    case True
    with path show ?thesis by (simp add: getPath_Nil [OF assms])
  next
    case False
    with follow_getPath [OF assms path] show ?thesis by blast
  qed
next
  assume "next_hop s t = None \<or> (\<exists>n. follow s n t = anchorTokenPathFinder s)"
  then show "getPath s t \<noteq> None"
  proof
    assume "next_hop s t = None"
    then show ?thesis by (subst getPath_eq [OF assms]) simp
  next
    assume "\<exists>n. follow s n t = anchorTokenPathFinder s"
    then show ?thesis using getPath_follow [OF assms] by blast
  qed
qed

text \<open>Two tokens whose first connections lead to each other: the search never ends.\<close>

lemma follow_pair:
  assumes "next_hop s t = Some (a, c)" and "next_hop s c = Some (b, t)"
  shows "follow s n t \<in> {t, c} \<and> follow s n c \<in> {t, c}"
  by (induction n) (use assms in auto)

lemma getPath_pair:
  assumes "registered s" and "next_hop s t = Some (a, c)" and "next_hop s c = Some (b, t)"
    and "anchorTokenPathFinder s \<notin> {t, c}"
  shows "getPath s t = None"
proof -
  have "follow s n t \<noteq> anchorTokenPathFinder s" for n
    using follow_pair [OF assms(2,3), of n] assms(4) by auto
  moreover have "getPath s t \<noteq> Some []"
    using getPath_Nil [OF assms(1)] assms(2) by fastforce
  ultimately show ?thesis
    using follow_getPath [OF assms(1), of t] by (cases "getPath s t") auto
qed
subsection \<open>Amounts\<close>

text \<open>Conversion fees are given in parts per million.\<close>

definition fees_ok :: "PoolSimulator \<Rightarrow> bool" where
  "fees_ok s = (\<forall>a p. innerPoolByAnchor s a = Some (Some p) \<longrightarrow>
     0 \<le> float_to_int64 (SwapFee_e p) \<and> float_to_int64 (SwapFee_e p) \<le> PPM_RESOLUTION)"

lemma targetAmountAndFee_bounds:
  assumes "targetAmountAndFee x y a f = Inr (out, fee)" and "0 \<le> a" and "0 \<le> f" and "f \<le> PPM_RESOLUTION"
  shows "0 \<le> out" and "0 \<le> fee" and "out + fee < y" and "x * y \<le> (x + a) * (y - out)"
proof -
  define t where "t = y * a div (x + a)"
  have pos: "0 < x" "0 < y" and out: "fee = t * f div PPM_RESOLUTION" "out = t - fee"
    using assms(1,2) by (auto simp: targetAmountAndFee_def crossReserveTargetAmount_def calculateFee_def
        t_def Let_def go_simps split: if_splits)
  have t: "0 \<le> t" "t * (x + a) \<le> y * a"
    using pos assms(2) by (simp_all add: t_def pos_imp_zdiv_nonneg_iff floor_le)
  have "y * a < y * (x + a)"
    using pos by (intro mult_strict_left_mono) simp_all
  with t(2) have "t * (x + a) < y * (x + a)"
    by linarith
  then have "t < y"
    using pos assms(2) by (simp add: mult_less_cancel_right)
  have "t * f \<le> t * PPM_RESOLUTION"
    using t assms(4) by (intro mult_left_mono)
  then have "t * f div PPM_RESOLUTION \<le> t"
    by (simp add: PPM_RESOLUTION_def)
  then show "0 \<le> out" and fee: "0 \<le> fee" and "out + fee < y"
    using t assms(3) \<open>t < y\<close> by (simp_all add: out PPM_RESOLUTION_def pos_imp_zdiv_nonneg_iff)
  have "(x + a) * out \<le> (x + a) * t"
    using pos assms(2) fee by (intro mult_left_mono) (simp_all add: out)
  with t(2) show "x * y \<le> (x + a) * (y - out)"
    by (simp add: algebra_simps)
qed

lemma getReturn_bounds:
  assumes "getReturn s anchor src tgt a = Inr (out, fee)" and "fees_ok s" and "0 \<le> a"
  shows "0 \<le> out \<and> (\<exists>p x y. innerPoolByAnchor s anchor = Some (Some p) \<and>
    find_reserve p src (Tokens_e p) 0 = Inr x \<and> find_reserve p tgt (Tokens_e p) 0 = Inr y \<and>
    out + fee < y \<and> 0 \<le> fee \<and> x * y \<le> (x + a) * (y - out))"
proof -
  obtain p x y where p: "innerPoolByAnchor s anchor = Some (Some p)"
    "find_reserve p src (Tokens_e p) 0 = Inr x" "find_reserve p tgt (Tokens_e p) 0 = Inr y"
    and t: "targetAmountAndFee x y a (float_to_int64 (SwapFee_e p)) = Inr (out, fee)"
    using assms(1) by (auto simp: getReturn_def go_simps split: option.splits)
  have "0 \<le> float_to_int64 (SwapFee_e p)" "float_to_int64 (SwapFee_e p) \<le> PPM_RESOLUTION"
    using assms(2) p(1) by (auto simp: fees_ok_def)
  from targetAmountAndFee_bounds [OF t assms(3) this] p show ?thesis
    by blast
qed

lemma rate_hops_bounds:
  "rate_hops s path a = Inr out \<Longrightarrow> fees_ok s \<Longrightarrow> 0 \<le> a \<Longrightarrow>
   0 \<le> out \<and> (3 \<le> length path \<and> odd (length path) \<longrightarrow>
     (\<exists>p y. innerPoolByAnchor s (path ! (length path - 2)) = Some (Some p) \<and>
        find_reserve p (last path) (Tokens_e p) 0 = Inr y \<and> out < y))"
proof (induction s path a rule: rate_hops.induct)
  case (1 s x anchor y path a)
  then obtain b fee where b: "getReturn s anchor x y a = Inr (b, fee)"
    and rest: "rate_hops s (y # path) b = Inr out"
    by (auto simp: go_simps)
  note hop = getReturn_bounds [OF b "1.prems"(2,3)]
  have IH: "0 \<le> out \<and> (3 \<le> length (y # path) \<and> odd (length (y # path)) \<longrightarrow>
     (\<exists>p z. innerPoolByAnchor s ((y # path) ! (length (y # path) - 2)) = Some (Some p) \<and>
        find_reserve p (last (y # path)) (Tokens_e p) 0 = Inr z \<and> out < z))"
    using "1.IH" [OF b refl rest "1.prems"(2)] hop by blast
  show ?case
  proof (cases path)
    case Nil
    with rest hop show ?thesis by auto
  next
    case (Cons u us)
    show ?thesis
    proof (cases us)
      case Nil
      with Cons IH show ?thesis by simp
    next
      case (Cons v vs)
      with \<open>path = u # us\<close> IH show ?thesis by auto
    qed
  qed
qed auto

lemma CalcAmountOutE:
  assumes "CalcAmountOut s p = Some (Inr r)"
  obtains path out where "findPath s (Token (TokenAmountIn p)) (TokenOut p) = Some (Inr path)" "path \<noteq> []"
    "rateByPath s path (Amount (TokenAmountIn p)) = Inr out"
    "TokenAmountOut r = Some (token_amount (TokenOut p) (Some out))"
    "SwapInfo r = Some (Conversion \<lparr>ConversionPath = path\<rparr>)"
  using assms by (auto simp: CalcAmountOut_def Let_def go_simps split: if_splits)

text \<open>C18: a quote pays at least nothing and less than the reserve of the bought token in the inner pool
  of the last anchor on its path.\<close>

theorem bancor_quote_covered:
  assumes "registered s" and "fees_ok s" and "Amount (TokenAmountIn p) = Some a" and "0 \<le> a"
    and "CalcAmountOut s p = Some (Inr r)"
  shows "\<exists>path pool y out. SwapInfo r = Some (Conversion \<lparr>ConversionPath = path\<rparr>) \<and>
    TokenAmountOut r = Some (token_amount (TokenOut p) (Some out)) \<and>
    innerPoolByAnchor s (path ! (length path - 2)) = Some (Some pool) \<and>
    find_reserve pool (TokenOut p) (Tokens_e pool) 0 = Inr y \<and> 0 \<le> out \<and> out < y"
proof -
  obtain path out where path: "findPath s (Token (TokenAmountIn p)) (TokenOut p) = Some (Inr path)" "path \<noteq> []"
    and out: "rateByPath s path (Amount (TokenAmountIn p)) = Inr out"
    and r: "TokenAmountOut r = Some (token_amount (TokenOut p) (Some out))"
      "SwapInfo r = Some (Conversion \<lparr>ConversionPath = path\<rparr>)"
    using assms(5) by (rule CalcAmountOutE)
  have last: "last path = TokenOut p"
    using findPath_path [OF assms(1) path] by simp
  have "rate_hops s path a = Inr out" "3 \<le> length path" "odd (length path)"
    using out assms(3) by (auto simp: rateByPath_def odd_iff_mod_2_eq_one split: if_splits)
  with rate_hops_bounds [of s path a out] assms(2,4) last
  obtain pool y where "innerPoolByAnchor s (path ! (length path - 2)) = Some (Some pool)"
    "find_reserve pool (TokenOut p) (Tokens_e pool) 0 = Inr y" "0 \<le> out" "out < y"
    by auto
  with r show ?thesis
    by (metis (no_types))
qed

text \<open>C19: no quote can be applied.  \<open>CalcAmountOut\<close> returns its path as a \<open>SwapInfo\<close> struct, and
  \<open>UpdateBalance\<close> asserts that it is given a string, so applying a quote panics on every state.\<close>

theorem bancor_update_panics:
  assumes "CalcAmountOut s p = Some (Inr r)"
  shows "UpdateBalance json_path s' (update_params p r)
    = Inl (Panic (PanicMessage ''interface conversion''))"
  using assms by (rule CalcAmountOutE) (simp add: UpdateBalance_def)

text \<open>Given the path as JSON text the update runs, but charges the amounts of the whole swap to every
  pool on the path: the middle token of two conversions is credited and debited the outer amounts.\<close>

lemma update_hop_pair:
  assumes "innerPoolByAnchor s anchor = Some (Some p)" and "map TokenAddress (Tokens_e p) = [x, y]"
    and "x \<noteq> y" and "Reserves_e p = [big_string rx, big_string ry]"
  shows "update_hop s (Some i) (Some out) x anchor y
    = Inr (Some (p\<lparr>Reserves_e := [big_string (rx + i), big_string (ry - out)]\<rparr>))"
proof -
  obtain t u where "Tokens_e p = [t, u]" "TokenAddress t = x" "TokenAddress u = y"
    using assms(2) by (cases "Tokens_e p"; cases "tl (Tokens_e p)") auto
  with assms show ?thesis
    by (simp add: update_hop_def set_string10_big_string Let_def)
qed

lemma bancor_outer_amounts:
  assumes "SwapInfo_u params = Some (Text text)" and "json_path text = Some [x, a, y, b, z]"
    and "Amount (TokenAmountIn_u params) = Some i" and "Amount (TokenAmountOut_u params) = Some out"
    and "innerPoolByAnchor s a = Some (Some p)" and "innerPoolByAnchor s b = Some (Some q)" and "a \<noteq> b"
    and "map TokenAddress (Tokens_e p) = [x, y]" and "map TokenAddress (Tokens_e q) = [y, z]"
    and "x \<noteq> y" and "y \<noteq> z"
    and "Reserves_e p = [big_string rx, big_string ry]" and "Reserves_e q = [big_string sy, big_string sz]"
  shows "\<exists>s' p' q'. UpdateBalance json_path s params = Inr s' \<and>
    innerPoolByAnchor s' a = Some (Some p') \<and> Reserves_e p' = [big_string (rx + i), big_string (ry - out)] \<and>
    innerPoolByAnchor s' b = Some (Some q') \<and> Reserves_e q' = [big_string (sy + i), big_string (sz - out)]"
proof -
  define s1 where "s1 = s\<lparr>innerPoolByAnchor := (innerPoolByAnchor s)
    (a \<mapsto> Some (p\<lparr>Reserves_e := [big_string (rx + i), big_string (ry - out)]\<rparr>))\<rparr>"
  have "innerPoolByAnchor s1 b = Some (Some q)"
    using assms(6,7) by (simp add: s1_def)
  from update_hop_pair [OF this assms(9,11,13)] update_hop_pair [OF assms(5,8,10,12)] assms
  show ?thesis
    by (simp add: UpdateBalance_def s1_def)
qed
subsection \<open>A concrete network\<close>

abbreviation bnt :: string where
  "bnt \<equiv> BancorTokenAddress"

lemma bnt_neq [simp]:
  "bnt \<noteq> ''A''" "bnt \<noteq> ''B''" "bnt \<noteq> ''x''" "bnt \<noteq> ''y''" "bnt \<noteq> ''z''"
  "''A'' \<noteq> bnt" "''B'' \<noteq> bnt" "''x'' \<noteq> bnt" "''y'' \<noteq> bnt"
proof -
  have "length bnt = 42"
    by (simp add: BancorTokenAddress_def to_lower_def)
  then have neq: "bnt \<noteq> t" "t \<noteq> bnt" if "length t = 1" for t
    using that by auto
  show "bnt \<noteq> ''A''" "bnt \<noteq> ''B''" "bnt \<noteq> ''x''" "bnt \<noteq> ''y''" "bnt \<noteq> ''z''"
    "''A'' \<noteq> bnt" "''B'' \<noteq> bnt" "''x'' \<noteq> bnt" "''y'' \<noteq> bnt"
    by (rule neq; simp)+
qed

definition pool_token :: "string \<Rightarrow> PoolToken" where
  "pool_token a = \<lparr>TokenAddress = a, Symbol = a, Decimals = 18, Swappable = True\<rparr>"

definition inner_pool :: "string \<Rightarrow> int \<Rightarrow> string \<Rightarrow> int \<Rightarrow> EntityPool" where
  "inner_pool x rx y ry =
     \<lparr>Address_e = [], ReserveUsd = (0, 0), AmplifiedTvl = (0, 0), SwapFee_e = (2000, 0),
      Exchange_e = [], Type_e = [], Timestamp = 0, Reserves_e = [big_string rx, big_string ry],
      Tokens_e = [pool_token x, pool_token y], Extra_e = [], StaticExtra_e = [], TotalSupply = [],
      BlockNumber_e = 0\<rparr>"

text \<open>Tokens \<open>A\<close> and \<open>B\<close>, each in a pool with BNT.\<close>

definition network :: PoolSimulator where
  "network =
     \<lparr>Info = \<lparr>Address = [], Exchange = [], Type = [], Tokens = [], Reserves = [], SwapFee = None,
              BlockNumber = 0\<rparr>,
      gas = defaultGas,
      innerPoolByAnchor = [''x'' \<mapsto> Some (inner_pool bnt 1000000 ''A'' 2000000),
                           ''y'' \<mapsto> Some (inner_pool bnt 3000000 ''B'' 500000)],
      anchorsByConvertibleToken = [''A'' \<mapsto> [''x''], ''B'' \<mapsto> [''y''], bnt \<mapsto> [''x'', ''y'']],
      tokensByLpAddress = [''x'' \<mapsto> [bnt, ''A''], ''y'' \<mapsto> [bnt, ''B'']],
      anchorTokenPathFinder = bnt\<rparr>"

text \<open>The same tokens with a direct pool of \<open>A\<close> and \<open>B\<close> that is listed first.\<close>

definition looping_network :: PoolSimulator where
  "looping_network = network\<lparr>
     anchorsByConvertibleToken := [''A'' \<mapsto> [''z'', ''x''], ''B'' \<mapsto> [''z'', ''y''], bnt \<mapsto> [''x'', ''y'']],
     tokensByLpAddress := [''x'' \<mapsto> [bnt, ''A''], ''y'' \<mapsto> [bnt, ''B''], ''z'' \<mapsto> [''A'', ''B'']]\<rparr>"

definition request :: "unit CalcAmountOutParams" where
  "request = \<lparr>TokenAmountIn = token_amount ''A'' (Some 10000), TokenOut = ''B'', Limit = None\<rparr>"

lemma network_finder [simp]:
  "anchorTokenPathFinder network = bnt" "anchorTokenPathFinder looping_network = bnt"
  by (simp_all add: network_def looping_network_def)

lemma network_registered: "registered network" "registered looping_network"
  by (auto simp: registered_def network_def looping_network_def lookup_def)

lemma network_fees: "fees_ok network"
proof -
  have "float_to_int64 (2000, 0) = 2000"
    by (simp add: float_to_int64_def big_float_int_def)
  then show ?thesis
    by (auto simp: fees_ok_def network_def inner_pool_def PPM_RESOLUTION_def split: if_splits)
qed

lemma network_hops [simp]:
  "next_hop network ''A'' = Some (''x'', bnt)" "next_hop network ''B'' = Some (''y'', bnt)"
  "next_hop looping_network ''A'' = Some (''z'', ''B'')"
  "next_hop looping_network ''B'' = Some (''z'', ''A'')"
  by (simp_all add: next_hop_def visits_def network_def looping_network_def lookup_def)

lemma network_links:
  "getPath network ''A'' = Some [''A'', ''x'', bnt]" "getPath network ''B'' = Some [''B'', ''y'', bnt]"
proof -
  have "getPath network bnt = Some [bnt]"
    by (simp add: getPath_def getInitialArray_def)
  then show "getPath network ''A'' = Some [''A'', ''x'', bnt]" "getPath network ''B'' = Some [''B'', ''y'', bnt]"
    by (subst getPath_eq [OF network_registered(1)], simp)+
qed

lemma network_path: "findPath network ''A'' ''B'' = Some (Inr [''A'', ''x'', bnt, ''y'', ''B''])"
proof -
  have "getShortestPath [''A'', ''x'', bnt] [''B'', ''y'', bnt] = Inr [''A'', ''x'', bnt, ''y'', ''B'']"
    by (simp add: getShortestPath_def common_suffix.simps remove_repeats.simps skip_repeats.simps
        getPartialArray_def upt_rec idx_def)
  then show ?thesis
    by (simp add: findPath_def network_links)
qed

lemma network_rates:
  "find_reserve (inner_pool bnt 1000000 ''A'' 2000000) ''A'' [pool_token bnt, pool_token ''A''] 0 = Inr 2000000"
  "find_reserve (inner_pool bnt 1000000 ''A'' 2000000) bnt [pool_token bnt, pool_token ''A''] 0 = Inr 1000000"
  "find_reserve (inner_pool bnt 3000000 ''B'' 500000) bnt [pool_token bnt, pool_token ''B''] 0 = Inr 3000000"
  "find_reserve (inner_pool bnt 3000000 ''B'' 500000) ''B'' [pool_token bnt, pool_token ''B''] 0 = Inr 500000"
  by (simp_all add: pool_token_def inner_pool_def parse_reserve_def set_string10_big_string)

lemma network_quote: "\<exists>r. CalcAmountOut network request = Some (Inr r)"
proof -
  have "\<exists>out. rateByPath network [''A'', ''x'', bnt, ''y'', ''B''] (Some 10000) = Inr out"
    using network_rates
    by (simp add: rateByPath_def getReturn_def network_def inner_pool_def targetAmountAndFee_def
        crossReserveTargetAmount_def calculateFee_def Let_def float_to_int64_def big_float_int_def
        PPM_RESOLUTION_def)
  then show ?thesis
    using network_path by (auto simp: CalcAmountOut_def request_def Let_def)
qed

text \<open>With the direct pool listed first the same request never returns, although the links through
  BNT are still registered.\<close>

lemma looping_quote: "CalcAmountOut looping_network request = None"
proof -
  have "getPath looping_network ''A'' = None"
    by (rule getPath_pair [OF network_registered(2) network_hops(3,4)]) simp
  then show ?thesis
    by (simp add: CalcAmountOut_def request_def Let_def findPath_def)
qed

text \<open>The witnesses.\<close>

theorem bancor_find_path_witness:
  "hd [''A'', ''x'', bnt, ''y'', ''B''] = ''A'' \<and> ''A'' \<in> set (tokens_of network ''x'') \<and>
   bnt \<in> set (tokens_of network ''x'') \<and> bnt \<in> set (tokens_of network ''y'') \<and>
   ''B'' \<in> set (tokens_of network ''y'')"
proof -
  let ?path = "[''A'', ''x'', bnt, ''y'', ''B'']"
  have ne: "?path \<noteq> []"
    by simp
  note path = bancor_find_path [OF network_registered(1) network_path ne]
  then have joins: "odd k \<Longrightarrow> k < length ?path \<Longrightarrow> ?path ! (k - 1) \<in> set (tokens_of network (?path ! k)) \<and>
      ?path ! (k + 1) \<in> set (tokens_of network (?path ! k))" for k
    by blast
  from path joins [of 1] joins [of 3] show ?thesis
    by simp
qed

theorem bancor_quote_covered_witness:
  "\<exists>r out. CalcAmountOut network request = Some (Inr r) \<and>
    TokenAmountOut r = Some (token_amount ''B'' (Some out)) \<and> 0 \<le> out"
proof -
  obtain r where r: "CalcAmountOut network request = Some (Inr r)"
    using network_quote by blast
  have "Amount (TokenAmountIn request) = Some 10000" "TokenOut request = ''B''"
    by (simp_all add: request_def)
  with bancor_quote_covered [OF network_registered(1) network_fees this(1) _ r] r show ?thesis
    by auto
qed

theorem bancor_update_panics_witness:
  "\<exists>r. CalcAmountOut network request = Some (Inr r) \<and>
     is_panic (UpdateBalance (\<lambda>_. None) network (update_params request r))"
proof -
  obtain r where r: "CalcAmountOut network request = Some (Inr r)"
    using network_quote by blast
  with bancor_update_panics [OF r, of "\<lambda>_. None" network] show ?thesis
    by auto
qed

theorem bancor_path_returns_witness:
  "getPath network ''A'' \<noteq> None \<and> getPath looping_network ''A'' = None"
proof -
  have "follow network 1 ''A'' = bnt"
    by simp
  then have "getPath network ''A'' \<noteq> None"
    using bancor_path_returns [OF network_registered(1), of "''A''"] network_finder(1) by metis
  moreover have "follow looping_network n ''A'' \<noteq> bnt" for n
    using follow_pair [of looping_network "''A''" "''z''" "''B''" "''z''" n] by auto
  then have "getPath looping_network ''A'' = None"
    using bancor_path_returns [OF network_registered(2), of "''A''"] by auto
  ultimately show ?thesis ..
qed

end
