(* ===== verification/Wombat.thy ===== *)
theory Wombat
  imports Pool_Interface
begin

text \<open>
  The single-sided pools of \<open>pkg/source/wombat\<close>: assets with cash and liability, priced by the
  coverage ratios of the two assets of a swap.  The packages \<open>wombatmain\<close> and \<open>wombatlsd\<close> hold the same
  code but for the scale factor of a quote and the default gas; the definitions here are \<open>wombatmain\<close> with
  the two as arguments (the last section fixes them for both packages).

  \<^item> The fixed-point arithmetic is the third-party package \<open>dsmath\<close>: a record of functions, a parameter
    of the definitions.  What a theorem relies on is a hypothesis (\<open>rounds_division\<close>).
  \<^item> The square root iterates until two iterates are equal, which need not happen: \<open>sqrt_loop\<close> is a
    \<open>partial_function (option)\<close> and \<open>None\<close> is a call that never returns.
  \<^item> The quote of a negative amount and the search for its bound call each other; they are one partial
    function \<open>evaluate\<close> over the call that is made (\<open>quote_call\<close>).  The result of a bound or of the
    loop inside it is the first component, the second is 0.
  \<^item> Numbers from JSON may be nil (\<open>bigint\<close>), an absent \<open>assetMap\<close> is the empty map.
\<close>

definition WAD :: int where
  "WAD = 10 ^ 18"

definition WADI :: int where
  "WADI = 10 ^ 18"

record dsmath =
  WMul :: "int \<Rightarrow> int \<Rightarrow> int"
  WDiv :: "int \<Rightarrow> int \<Rightarrow> int go"
  ToWAD :: "int \<Rightarrow> 8 word \<Rightarrow> int"
  FromWAD :: "int \<Rightarrow> 8 word \<Rightarrow> int"

record Gas =
  Swap_g :: int

record Asset =
  IsPause :: bool
  Address_a :: string
  Cash :: bigint
  Liability :: bigint
  UnderlyingTokenDecimals :: "8 word"
  RelativePrice :: bigint

record Extra =
  Paused_x :: bool
  HaircutRate_x :: bigint
  AmpFactor_x :: bigint
  StartCovRatio_x :: bigint
  EndCovRatio_x :: bigint
  AssetMap_x :: "string \<rightharpoonup> Asset"
  DependenciesStored_x :: bool

type_synonym quote_factor = "Asset \<Rightarrow> Asset \<Rightarrow> int go"

subsection \<open>Square root and quadratic equation\<close>

partial_function (option) sqrt_loop :: "int \<Rightarrow> int \<Rightarrow> int \<Rightarrow> int option" where
  "sqrt_loop y z x =
     (if x \<noteq> z then let z = x; x = (y div x + x) div 2 in sqrt_loop y z x else Some z)"

text \<open>The result of \<open>signedSafeMathSqrt 0\<close> is a nil pointer.\<close>

definition signedSafeMathSqrt :: "int \<Rightarrow> int \<Rightarrow> bigint option" where
  "signedSafeMathSqrt y guess =
     (if 3 < y
      then let z = (if 0 < guess \<and> guess \<le> y then guess
                    else if guess < 0 \<and> - guess \<le> y then - guess else y);
               x = (y div z + z) div 2
           in map_option Some (sqrt_loop y z x)
      else if y \<noteq> 0 then Some (Some 1) else Some None)"

definition solveQuad :: "int \<Rightarrow> int \<Rightarrow> int go option" where
  "solveQuad b c =
     map_option (\<lambda>r. bnd (deref r) (\<lambda>s. Inr ((s - b) div 2)))
       (signedSafeMathSqrt (b * b + c * 4 * WADI) b)"

subsection \<open>Quotes\<close>

definition swapQuoteFunc :: "dsmath \<Rightarrow> int \<Rightarrow> int \<Rightarrow> int \<Rightarrow> int \<Rightarrow> int \<Rightarrow> int \<Rightarrow> int go option" where
  "swapQuoteFunc m ax ay lx ly dx a =
     (if lx = 0 \<or> ly = 0 then Some (Inl (Err ''ErrCoreUnderflow''))
      else
        call (Some (big_div (lx * lx) ax)) (\<lambda>qx.
        call (Some (big_div (ly * ly) ay)) (\<lambda>qy.
        let d = ax + ay - WMul m a (qx + qy) in
        call (Some (WDiv m (ax + dx) lx)) (\<lambda>rx.
        call (Some (WDiv m a rx)) (\<lambda>a_rx.
        call (Some (big_div (lx * (rx - a_rx)) ly)) (\<lambda>u.
        call (Some (WDiv m d ly)) (\<lambda>d_ly.
        let b = u - d_ly in
        call (solveQuad b a) (\<lambda>ry.
        let dy = WMul m ly ry - ay in
        Some (Inr (if dy < 0 then - dy else dy))))))))))"

definition poolV2QuoteFrom ::
    "dsmath \<Rightarrow> quote_factor \<Rightarrow> bigint \<Rightarrow> bigint \<Rightarrow> Asset \<Rightarrow> Asset \<Rightarrow> int \<Rightarrow> (int \<times> int) go option" where
  "poolV2QuoteFrom m factor haircutRate ampFactor fromAsset toAsset fromAmount =
     call (Some (if fromAmount < 0
                 then bnd (deref haircutRate) (\<lambda>rate. WDiv m fromAmount (WADI - rate))
                 else Inr fromAmount)) (\<lambda>newFromAmount.
     call (Some (deref (Cash fromAsset))) (\<lambda>fromCash.
     call (Some (deref (Liability fromAsset))) (\<lambda>fromLiability.
     call (Some (deref (Cash toAsset))) (\<lambda>toCash.
     call (Some (factor fromAsset toAsset)) (\<lambda>scaleFactor.
     let scale = (\<lambda>v. if scaleFactor \<noteq> WAD then v * scaleFactor div 10 ^ 18 else v);
         newFromAmount = scale newFromAmount in
     call (Some (deref (Liability toAsset))) (\<lambda>toLiability.
     call (Some (deref ampFactor)) (\<lambda>amp.
     call (swapQuoteFunc m (scale fromCash) toCash (scale fromLiability) toLiability newFromAmount amp)
       (\<lambda>idealToAmount.
     if (0 < newFromAmount \<and> toCash < idealToAmount) \<or> (newFromAmount < 0 \<and> fromCash < - newFromAmount)
     then Some (Inl (Err ''ErrCashNotEnough''))
     else
       call (Some (deref haircutRate)) (\<lambda>rate.
       if 0 < newFromAmount
       then let haircut = WMul m idealToAmount rate in Some (Inr (idealToAmount - haircut, haircut))
       else Some (Inr (idealToAmount, WMul m (- newFromAmount) rate)))))))))))"

definition getHighCovRatioFee :: "dsmath \<Rightarrow> int \<Rightarrow> int \<Rightarrow> int \<Rightarrow> bigint \<Rightarrow> int go" where
  "getHighCovRatioFee m initCovRatio finalCovRatio startCovRatio endCovRatio =
     bnd (deref endCovRatio) (\<lambda>end'.
     if end' < finalCovRatio then Inl (Err ''ErrCovRatioLimitExceeded'')
     else if finalCovRatio \<le> startCovRatio \<or> finalCovRatio \<le> initCovRatio then Inr 0
     else
       let a = (if startCovRatio < initCovRatio
                then (initCovRatio - startCovRatio) * (initCovRatio - startCovRatio) else 0);
           b = (finalCovRatio - startCovRatio) * (finalCovRatio - startCovRatio) in
       bnd (big_div (b - a) (finalCovRatio - initCovRatio)) (\<lambda>q.
       WDiv m (q div 2) (end' - startCovRatio)))"

text \<open>The fee a non-negative amount pays when it drives the source asset over the start ratio.\<close>

definition high_cov_fee ::
    "dsmath \<Rightarrow> bigint \<Rightarrow> bigint \<Rightarrow> Asset \<Rightarrow> int \<Rightarrow> int \<times> int \<Rightarrow> (int \<times> int) go" where
  "high_cov_fee m startCovRatio endCovRatio fromAsset fromAmount quote =
     (case quote of (actualToAmount, haircut) \<Rightarrow>
     bnd (deref (Cash fromAsset)) (\<lambda>fromAssetCash.
     bnd (deref (Liability fromAsset)) (\<lambda>fromAssetLiability.
     bnd (WDiv m (fromAssetCash + fromAmount) fromAssetLiability) (\<lambda>finalFromAssetCovRatio.
     bnd (deref startCovRatio) (\<lambda>start.
     if start < finalFromAssetCovRatio
     then
       bnd (WDiv m fromAssetCash fromAssetLiability) (\<lambda>initCovRatio.
       bnd (getHighCovRatioFee m initCovRatio finalFromAssetCovRatio start endCovRatio) (\<lambda>fee.
       let highCovRatioFee = WMul m fee actualToAmount in
       Inr (actualToAmount - highCovRatioFee, haircut + highCovRatioFee)))
     else Inr (actualToAmount, haircut))))))"

text \<open>Whether a negative amount drives the target asset over the start ratio, so that its bound has to
  be searched.\<close>

definition exceeds_start :: "dsmath \<Rightarrow> bigint \<Rightarrow> bigint \<Rightarrow> Asset \<Rightarrow> int \<Rightarrow> bool go" where
  "exceeds_start m startCovRatio endCovRatio toAsset actualToAmount =
     bnd (deref (Cash toAsset)) (\<lambda>toAssetCash.
     bnd (deref (Liability toAsset)) (\<lambda>toAssetLiability.
     bnd (WDiv m actualToAmount toAssetLiability) (\<lambda>q.
     bnd (deref startCovRatio) (\<lambda>start.
     if toAssetCash + q \<le> start then Inr False
     else
       bnd (WDiv m toAssetCash toAssetLiability) (\<lambda>ratio.
       bnd (deref endCovRatio) (\<lambda>end'.
       if end' \<le> ratio then Inl (Err ''ErrCovRatioLimitExceeded'') else Inr True))))))"

definition search_high :: "dsmath \<Rightarrow> bigint \<Rightarrow> Asset \<Rightarrow> int go" where
  "search_high m endCovRatio fromAsset =
     bnd (deref (Liability fromAsset)) (\<lambda>liability.
     bnd (deref endCovRatio) (\<lambda>end'.
     bnd (deref (Cash fromAsset)) (\<lambda>cash.
     Inr (FromWAD m (WMul m liability end' - cash) (UnderlyingTokenDecimals fromAsset)))))"

definition toWadFactor :: "dsmath \<Rightarrow> Asset \<Rightarrow> int" where
  "toWadFactor m fromAsset = ToWAD m 1 (UnderlyingTokenDecimals fromAsset)"

datatype quote_call =
    QuoteFrom Asset Asset int \<comment> \<open>\<open>highCovRatioFeePoolV2QuoteFrom\<close>\<close>
  | UpperBound Asset Asset int \<comment> \<open>\<open>findUpperBound\<close>\<close>
  | Bisect Asset Asset int int int \<comment> \<open>its loop, with \<open>low\<close> and \<open>high\<close>\<close>

text \<open>What stays the same in all these calls.\<close>

record quote_env =
  math :: dsmath
  factor :: quote_factor
  haircutRate_e :: bigint
  ampFactor_e :: bigint
  startCovRatio_e :: bigint
  endCovRatio_e :: bigint

partial_function (option) evaluate ::
    "quote_env \<Rightarrow> quote_call \<Rightarrow> (int \<times> int) go option" where
  "evaluate env c =
     (case c of
        QuoteFrom fromAsset toAsset fromAmount \<Rightarrow>
          call (poolV2QuoteFrom (math env) (factor env) (haircutRate_e env) (ampFactor_e env) fromAsset toAsset fromAmount) (\<lambda>quote.
          if 0 \<le> fromAmount then Some (high_cov_fee (math env) (startCovRatio_e env) (endCovRatio_e env) fromAsset fromAmount quote)
          else
            call (Some (exceeds_start (math env) (startCovRatio_e env) (endCovRatio_e env) toAsset (fst quote))) (\<lambda>exceeds.
            if exceeds
            then
              call (evaluate env
                     (UpperBound toAsset fromAsset (- fromAmount))) (\<lambda>bound.
              call (evaluate env
                     (QuoteFrom toAsset fromAsset (fst bound))) (\<lambda>back.
              Some (Inr (fst bound, snd back))))
            else Some (Inr quote)))
      | UpperBound fromAsset toAsset toAmount \<Rightarrow>
          call (Some (search_high (math env) (endCovRatio_e env) fromAsset)) (\<lambda>high.
          call (evaluate env
                 (QuoteFrom fromAsset toAsset (high * toWadFactor (math env) fromAsset))) (\<lambda>quote.
          if fst quote < toAmount then Some (Inl (Err ''ErrCovRatioLimitExceeded''))
          else evaluate env
                 (Bisect fromAsset toAsset toAmount 1 high)))
      | Bisect fromAsset toAsset toAmount low high \<Rightarrow>
          if low < high
          then
            let mid = (low + high) div 2 in
            call (evaluate env
                   (QuoteFrom fromAsset toAsset (mid * toWadFactor (math env) fromAsset))) (\<lambda>quote.
            if toAmount \<le> fst quote
            then evaluate env
                   (Bisect fromAsset toAsset toAmount low mid)
            else evaluate env
                   (Bisect fromAsset toAsset toAmount (mid + 1) high))
          else Some (Inr (high * toWadFactor (math env) fromAsset, 0)))"

subsection \<open>Swaps\<close>

definition assetOf :: "string \<Rightarrow> (string \<rightharpoonup> Asset) \<Rightarrow> Asset go" where
  "assetOf token assetMap =
     (case assetMap token of None \<Rightarrow> Inl (Err ''ErrAssetIsNotExist'') | Some a \<Rightarrow> Inr a)"

definition checkSameAddress :: "string \<Rightarrow> string \<Rightarrow> unit go" where
  "checkSameAddress from to = guard (\<not> equal_fold from to) (Err ''ErrTheSameAddress'')"

text \<open>The result is \<open>(actualToAmount, haircut, newFromAssetCash, newToAssetCash)\<close>.\<close>

definition Swap ::
    "quote_env \<Rightarrow> string \<Rightarrow> string \<Rightarrow> bigint \<Rightarrow> bool \<Rightarrow> (string \<rightharpoonup> Asset) \<Rightarrow> (int \<times> int \<times> int \<times> int) go option" where
  "Swap env fromToken toToken fromAmount paused assetMap =
     (if paused then Some (Inl (Err ''ErrWombatPoolAlreadyPaused''))
      else
        call (Some (checkSameAddress fromToken toToken)) (\<lambda>_.
        call (Some (deref fromAmount)) (\<lambda>amount.
        if amount = 0 then Some (Inl (Err ''ErrFromAmountIsZero''))
        else
          call (Some (assetOf fromToken assetMap)) (\<lambda>fromAsset.
          call (Some (assetOf toToken assetMap)) (\<lambda>toAsset.
          if IsPause fromAsset then Some (Inl (Err ''ErrWombatAssetAlreadyPaused''))
          else
            let fromAmount = ToWAD (math env) amount (UnderlyingTokenDecimals fromAsset) in
            call (evaluate env (QuoteFrom fromAsset toAsset fromAmount)) (\<lambda>(actualToAmount, haircut).
            call (Some (deref (Cash fromAsset))) (\<lambda>fromCash.
            call (Some (deref (Cash toAsset))) (\<lambda>toCash.
            let newFromAssetCash = fromCash + fromAmount;
                newToAssetCash = toCash - (actualToAmount + haircut) in
            call (Some (deref (Liability toAsset))) (\<lambda>toLiability.
            call (Some (WDiv (math env) newToAssetCash toLiability)) (\<lambda>ratio.
            if ratio < WAD div 100 then Some (Inl (Err ''ErrWombatForbidden''))
            else
              Some (Inr (FromWAD (math env) actualToAmount (UnderlyingTokenDecimals toAsset),
                         FromWAD (math env) haircut
                           (UnderlyingTokenDecimals (if 0 < fromAmount then toAsset else fromAsset)),
                         newFromAssetCash, newToAssetCash))))))))))))"

record PoolSimulator = Pool +
  paused :: bool
  haircutRate :: bigint
  ampFactor :: bigint
  startCovRatio :: bigint
  endCovRatio :: bigint
  assets :: "string \<rightharpoonup> Asset"
  gas :: Gas

record wombatSwapInfo =
  newFromAssetCash :: bigint
  newToAssetCash :: bigint

definition DefaultGas :: Gas where
  "DefaultGas = \<lparr>Swap_g = 125000\<rparr>"

definition lsd_DefaultGas :: Gas where
  "lsd_DefaultGas = \<lparr>Swap_g = 88000\<rparr>"

text \<open>The constructor of either package, with the default gas of the package.\<close>

definition new_pool_simulator :: "Gas \<Rightarrow> (string \<Rightarrow> Extra go) \<Rightarrow> EntityPool \<Rightarrow> PoolSimulator go" where
  "new_pool_simulator defaultGas json_Unmarshal entityPool =
     bnd (json_Unmarshal (Extra_e entityPool)) (\<lambda>extra.
     Inr \<lparr>Info = \<lparr>Address = Address_e entityPool, Exchange = Exchange_e entityPool,
                   Type = Type_e entityPool, Tokens = map TokenAddress (Tokens_e entityPool),
                   Reserves = [], SwapFee = None, BlockNumber = BlockNumber_e entityPool\<rparr>,
          paused = Paused_x extra, haircutRate = HaircutRate_x extra, ampFactor = AmpFactor_x extra,
          startCovRatio = StartCovRatio_x extra, endCovRatio = EndCovRatio_x extra,
          assets = AssetMap_x extra, gas = defaultGas\<rparr>)"

definition env_of :: "dsmath \<Rightarrow> quote_factor \<Rightarrow> PoolSimulator \<Rightarrow> quote_env" where
  "env_of m f p =
     \<lparr>math = m, factor = f, haircutRate_e = haircutRate p, ampFactor_e = ampFactor p,
      startCovRatio_e = startCovRatio p, endCovRatio_e = endCovRatio p\<rparr>"

definition CalcAmountOut ::
    "dsmath \<Rightarrow> quote_factor \<Rightarrow> PoolSimulator \<Rightarrow> 'l CalcAmountOutParams \<Rightarrow>
     wombatSwapInfo CalcAmountOutResult go option" where
  "CalcAmountOut m f p param =
     (let tokenAmountIn = TokenAmountIn param; tokenOut = TokenOut param;
          tokenInIndex = GetTokenIndex p (Token tokenAmountIn);
          tokenOutIndex = GetTokenIndex p tokenOut in
      if tokenInIndex < 0 \<or> tokenOutIndex < 0
      then Some (Inl (Err ''tokenInIndex %v or tokenOutIndex %v is not correct''))
      else
        call (Swap (env_of m f p) (Token tokenAmountIn) tokenOut (Amount tokenAmountIn) (paused p) (assets p))
          (\<lambda>(amountOut, haircut, newFrom, newTo).
        Some (Inr \<lparr>TokenAmountOut = Some (token_amount tokenOut (Some amountOut)),
                   Fee = Some (token_amount tokenOut (Some haircut)),
                   RemainingTokenAmountIn = None, Gas = Swap_g (gas p),
                   SwapInfo = Some \<lparr>newFromAssetCash = Some newFrom, newToAssetCash = Some newTo\<rparr>\<rparr>)))"

text \<open>Indexing the map with an absent token gives the zero \<open>Asset\<close>.\<close>

definition zero_asset :: Asset where
  "zero_asset = \<lparr>IsPause = False, Address_a = '''', Cash = None, Liability = None,
     UnderlyingTokenDecimals = 0, RelativePrice = None\<rparr>"

definition UpdateBalance ::
    "PoolSimulator \<Rightarrow> (wombatSwapInfo, 'l) UpdateBalanceParams \<Rightarrow> PoolSimulator go" where
  "UpdateBalance p params =
     (case SwapInfo_u params of
        None \<Rightarrow> Inr p
      | Some swapInfo \<Rightarrow>
          let asset = (\<lambda>t. case assets p t of None \<Rightarrow> zero_asset | Some a \<Rightarrow> a);
              tokenIn = Token (TokenAmountIn_u params); tokenOut = Token (TokenAmountOut_u params) in
          bnd (deref (newFromAssetCash swapInfo)) (\<lambda>fromCash.
          bnd (deref (newToAssetCash swapInfo)) (\<lambda>toCash.
          Inr (p\<lparr>assets := (assets p)(tokenIn \<mapsto> (asset tokenIn)\<lparr>Cash := Some fromCash\<rparr>,
                                        tokenOut \<mapsto> (asset tokenOut)\<lparr>Cash := Some toCash\<rparr>)\<rparr>))))"

subsection \<open>The two packages\<close>

definition poolV2QuoteFactor :: quote_factor where
  "poolV2QuoteFactor fromAsset toAsset = Inr (10 ^ 18)"

definition dynamicPoolV2QuoteFactor :: quote_factor where
  "dynamicPoolV2QuoteFactor fromAsset toAsset =
     bnd (deref (RelativePrice fromAsset)) (\<lambda>fromAssetRelativePrice.
     bnd (deref (RelativePrice toAsset)) (\<lambda>toAssetRelativePrice.
     big_div (BONE * fromAssetRelativePrice) toAssetRelativePrice))"

definition main_NewPoolSimulator :: "(string \<Rightarrow> Extra go) \<Rightarrow> EntityPool \<Rightarrow> PoolSimulator go" where
  "main_NewPoolSimulator = new_pool_simulator DefaultGas"

definition lsd_NewPoolSimulator :: "(string \<Rightarrow> Extra go) \<Rightarrow> EntityPool \<Rightarrow> PoolSimulator go" where
  "lsd_NewPoolSimulator = new_pool_simulator lsd_DefaultGas"

definition main_CalcAmountOut ::
    "dsmath \<Rightarrow> PoolSimulator \<Rightarrow> 'l CalcAmountOutParams \<Rightarrow> wombatSwapInfo CalcAmountOutResult go option" where
  "main_CalcAmountOut m = CalcAmountOut m poolV2QuoteFactor"

definition lsd_CalcAmountOut ::
    "dsmath \<Rightarrow> PoolSimulator \<Rightarrow> 'l CalcAmountOutParams \<Rightarrow> wombatSwapInfo CalcAmountOutResult go option" where
  "lsd_CalcAmountOut m = CalcAmountOut m dynamicPoolV2QuoteFactor"

end
