(* ===== verification/Wombat_Swaps.thy ===== *)
theory Wombat_Swaps
  imports Wombat Newton
begin

text \<open>
  Lemmas on \<open>Wombat\<close>: when the square root and the quadratic solver of a quote return and what they
  return, what a swap does to the assets, and the agreement of the two packages at equal prices.
\<close>

subsection \<open>The square root\<close>

definition sqrt_step :: "int \<Rightarrow> int \<Rightarrow> int" where
  "sqrt_step y z = (y div z + z) div 2"

lemma sqrt_loop_step:
  "sqrt_loop y z (sqrt_step y z) =
     (if sqrt_step y z \<noteq> z then sqrt_loop y (sqrt_step y z) (sqrt_step y (sqrt_step y z)) else Some z)"
  by (subst sqrt_loop.simps) (simp add: sqrt_step_def Let_def)

lemma sqrt_step_ge:
  assumes "0 < z" and "s * s \<le> y"
  shows "s \<le> sqrt_step y z"
proof -
  have "0 \<le> (s - z) * (s - z)"
    by simp
  with assms(2) have "(2 * s - z) * z \<le> y"
    by (simp add: algebra_simps)
  then have "2 * s - z \<le> y div z"
    using assms(1) by (intro floor_geI)
  then show ?thesis
    by (simp add: sqrt_step_def)
qed

lemma sqrt_step_less:
  assumes "0 < z" and "y < z * z"
  shows "sqrt_step y z < z"
proof -
  have "y div z * z < z * z"
    using floor_le [OF assms(1), of y] assms(2) by linarith
  then have "y div z < z"
    using assms(1) by (simp add: mult_less_cancel_right)
  then show ?thesis
    by (simp add: sqrt_step_def)
qed

text \<open>At the floor root the iteration stands still, unless \<open>y + 1\<close> is a square: then it leaves it
  again.\<close>

lemma sqrt_step_root:
  assumes "0 < s" and "s * s \<le> y" and "y < (s + 1) * (s + 1)"
  shows "sqrt_step y s = (if y + 1 = (s + 1) * (s + 1) then s + 1 else s)"
proof -
  have ge: "s \<le> y div s"
    using assms by (intro floor_geI)
  show ?thesis
  proof (cases "y + 1 = (s + 1) * (s + 1)")
    case True
    then have "y = (s + 2) * s"
      by (simp add: algebra_simps)
    with assms(1) True show ?thesis
      by (simp add: sqrt_step_def)
  next
    case False
    have "y div s * s < (s + 2) * s"
      using floor_le [OF assms(1), of y] assms(3) False by (simp add: algebra_simps)
    then have "y div s < s + 2"
      using assms(1) by (simp add: mult_less_cancel_right)
    with ge False show ?thesis
      by (auto simp: sqrt_step_def)
  qed
qed

lemma sqrt_loop_from_above:
  assumes "0 < s" and "s * s \<le> y" and "y + 1 < (s + 1) * (s + 1)"
  shows "s \<le> z \<Longrightarrow> sqrt_loop y z (sqrt_step y z) = Some s"
proof (induction "nat (z - s)" arbitrary: z rule: less_induct)
  case less
  show ?case
  proof (cases "z = s")
    case True
    with sqrt_step_root [of s y] assms show ?thesis
      by (subst sqrt_loop_step) simp
  next
    case False
    then have "s + 1 \<le> z"
      using less.prems by simp
    then have "(s + 1) * (s + 1) \<le> z * z"
      using assms(1) by (intro mult_mono) simp_all
    then have lt: "sqrt_step y z < z"
      using assms less.prems by (intro sqrt_step_less) simp_all
    moreover have "s \<le> sqrt_step y z"
      using assms less.prems by (intro sqrt_step_ge) simp_all
    ultimately show ?thesis
      using less.hyps [of "sqrt_step y z"] by (subst sqrt_loop_step) simp
  qed
qed

lemma sqrt_loop_total:
  assumes "0 < s" and "s * s \<le> y" and "y + 1 < (s + 1) * (s + 1)" and "0 < z"
  shows "sqrt_loop y z (sqrt_step y z) = Some s"
proof (cases "s \<le> z")
  case True
  with assms show ?thesis by (intro sqrt_loop_from_above)
next
  case False
  have "s \<le> sqrt_step y z"
    using assms by (intro sqrt_step_ge)
  with False sqrt_loop_from_above [OF assms(1-3) this] show ?thesis
    by (subst sqrt_loop_step) simp
qed

lemma sqrt_loop_fixpoint:
  assumes "sqrt_loop y z x = Some r"
  shows "x = sqrt_step y z \<longrightarrow> 0 < z \<longrightarrow> 3 < y \<longrightarrow> sqrt_step y r = r \<and> 0 < r"
proof -
  let ?P = "\<lambda>y z x r. x = sqrt_step y z \<longrightarrow> 0 < z \<longrightarrow> 3 < y \<longrightarrow> sqrt_step y r = r \<and> 0 < r"
  from assms have "(case ((y, z), x) of (yz, x) \<Rightarrow> (case yz of (y, z) \<Rightarrow> sqrt_loop y z) x) = Some r"
    by simp
  then have "(case ((y, z), x) of (yz, x) \<Rightarrow> (case yz of (y, z) \<Rightarrow> ?P y z) x) r"
  proof (rule sqrt_loop.raw_induct [rotated])
    fix loop y z x and r :: int
    assume IH: "\<And>y z x r. loop y z x = Some r \<Longrightarrow> ?P y z x r"
      and run: "(if x \<noteq> z then let z = x; x = (y div x + x) div 2 in loop y z x else Some z) = Some r"
    show "?P y z x r"
    proof (intro impI)
      assume x: "x = sqrt_step y z" and z: "0 < z" and y: "3 < y"
      have "1 \<le> x"
        unfolding x using z y by (intro sqrt_step_ge) simp_all
      then show "sqrt_step y r = r \<and> 0 < r"
        using run x z y IH [of y x "sqrt_step y x" r] by (auto simp: Let_def sqrt_step_def split: if_splits)
    qed
  qed
  then show ?thesis by simp
qed

lemma sqrt_loop_diverges:
  assumes "y + 1 = (s + 1) * (s + 1)" and "0 < s" and "3 < y" and "0 < z"
  shows "sqrt_loop y z (sqrt_step y z) = None"
proof (rule ccontr)
  assume "sqrt_loop y z (sqrt_step y z) \<noteq> None"
  then obtain r where r: "sqrt_step y r = r" "0 < r"
    using sqrt_loop_fixpoint [of y z "sqrt_step y z"] assms(3,4) by auto
  have bounds: "s * s \<le> y" "y < (s + 1) * (s + 1)"
    using assms(1,2) by (simp_all add: algebra_simps)
  then have "s \<le> r"
    using sqrt_step_ge [of r s y] r by simp
  have "\<not> y < r * r"
    using sqrt_step_less [of r y] r by auto
  then have "\<not> s + 1 \<le> r"
    using mult_mono [of "s + 1" r "s + 1" r] bounds(2) r(2) assms(2) by auto
  with \<open>s \<le> r\<close> have "r = s"
    by simp
  with sqrt_step_root [OF assms(2) bounds] assms(1) r show False
    by simp
qed

lemma positive_root:
  fixes y :: int
  assumes "3 < y"
  obtains s where "0 < s" "s * s \<le> y" "y < (s + 1) * (s + 1)"
proof -
  obtain s where s: "floor_root y 0 s"
    using floor_root_exists [of y 0] assms by auto
  have "s \<noteq> 0"
    using s assms by (auto simp: floor_root_def)
  with s that [of s] show thesis
    by (simp add: floor_root_def)
qed

lemma root_unique:
  assumes "floor_root c B r" and "floor_root c B r'" and "0 \<le> c"
  shows "r = r'"
proof (rule ccontr)
  assume "r \<noteq> r'"
  then have "r + 1 \<le> r' \<or> r' + 1 \<le> r"
    by linarith
  then show False
    using below_root [OF assms(1,3), of "r' + 1"] below_root [OF assms(2,3), of "r + 1"] assms(1,2)
    by (auto simp: floor_root_def)
qed

text \<open>The start of the iteration is a positive number in every case.\<close>

lemma signedSafeMathSqrt_eq:
  assumes "3 < y"
  obtains z where "0 < z" "signedSafeMathSqrt y guess = map_option Some (sqrt_loop y z (sqrt_step y z))"
proof
  let ?z = "if 0 < guess \<and> guess \<le> y then guess else if guess < 0 \<and> - guess \<le> y then - guess else y"
  show "0 < ?z"
    using assms by simp
  show "signedSafeMathSqrt y guess = map_option Some (sqrt_loop y ?z (sqrt_step y ?z))"
    using assms by (simp only: signedSafeMathSqrt_def Let_def sqrt_step_def if_True)
qed

lemma signedSafeMathSqrt_root:
  assumes "3 < y" and "0 < s" and "s * s \<le> y" and "y < (s + 1) * (s + 1)"
  shows "signedSafeMathSqrt y guess = (if y + 1 = (s + 1) * (s + 1) then None else Some (Some s))"
proof -
  obtain z where z: "0 < z" "signedSafeMathSqrt y guess = map_option Some (sqrt_loop y z (sqrt_step y z))"
    using assms(1) by (rule signedSafeMathSqrt_eq)
  show ?thesis
  proof (cases "y + 1 = (s + 1) * (s + 1)")
    case True
    with sqrt_loop_diverges [OF True assms(2,1) z(1)] z(2) show ?thesis by simp
  next
    case False
    with assms have "y + 1 < (s + 1) * (s + 1)" by simp
    with sqrt_loop_total [OF assms(2,3) this z(1)] z(2) False show ?thesis by simp
  qed
qed

text \<open>C20: the square root of a number above 3 returns exactly when the number is not one less than a
  square, whatever the guess, and then it is the largest integer whose square does not exceed the
  number; otherwise the iteration alternates between two values for ever.\<close>

theorem wombat_sqrt:
  assumes "3 < y"
  shows "signedSafeMathSqrt y guess = Some (Some r) \<longleftrightarrow> 0 \<le> r \<and> r * r \<le> y \<and> y + 1 < (r + 1) * (r + 1)"
proof -
  obtain s where s: "0 < s" "s * s \<le> y" "y < (s + 1) * (s + 1)"
    using assms by (rule positive_root)
  have unique: "r = s" if "0 \<le> r" "r * r \<le> y" "y + 1 < (r + 1) * (r + 1)"
    using root_unique [of y 0 r s] that s assms by (simp add: floor_root_def)
  show ?thesis
  proof (cases "y + 1 = (s + 1) * (s + 1)")
    case True
    then have "signedSafeMathSqrt y guess = None"
      using signedSafeMathSqrt_root [OF assms s] by simp
    moreover have "\<not> (0 \<le> r \<and> r * r \<le> y \<and> y + 1 < (r + 1) * (r + 1))"
      using unique True by auto
    ultimately show ?thesis by simp
  next
    case False
    then have "signedSafeMathSqrt y guess = Some (Some s)" and "y + 1 < (s + 1) * (s + 1)"
      using signedSafeMathSqrt_root [OF assms s] s(3) by simp_all
    with s unique show ?thesis by auto
  qed
qed

theorem wombat_sqrt_witness:
  "signedSafeMathSqrt 15 2 \<noteq> Some (Some 3) \<and> signedSafeMathSqrt 17 (- 5) = Some (Some 4)"
  using wombat_sqrt [of 15 2 3] wombat_sqrt [of 17 "- 5" 4] by simp

lemma solveQuad_root:
  assumes "0 \<le> c" and "3 < b * b + c * 4 * WADI"
  shows "solveQuad b c = Some (Inr r) \<longleftrightarrow>
    floor_root (c * WADI) b r \<and> \<not> (\<exists>k. b * b + c * 4 * WADI + 1 = k * k)"
proof -
  let ?y = "b * b + c * 4 * WADI"
  obtain s where s: "0 < s" "s * s \<le> ?y" "?y < (s + 1) * (s + 1)"
    using assms(2) by (rule positive_root)
  have c: "0 \<le> c * WADI"
    using assms(1) by (simp add: WADI_def)
  have "\<bar>b\<bar> < s + 1"
  proof (rule ccontr)
    assume "\<not> \<bar>b\<bar> < s + 1"
    then have "(s + 1) * (s + 1) \<le> \<bar>b\<bar> * \<bar>b\<bar>"
      using s(1) by (intro mult_mono) simp_all
    with s(3) c show False by (simp add: abs_mult [symmetric])
  qed
  define q where "q = (s - b) div 2"
  have q: "2 * q + b \<le> s" "s \<le> 2 * q + b + 1" "0 \<le> q"
    using \<open>\<bar>b\<bar> < s + 1\<close> by (simp_all add: q_def)
  have "\<bar>2 * q + b\<bar> * \<bar>2 * q + b\<bar> \<le> s * s"
    using q s(1) by (intro mult_mono) simp_all
  with s(2) have "(2 * q + b) * (2 * q + b) \<le> ?y"
    by (simp add: abs_mult [symmetric])
  then have low: "q * q + b * q \<le> c * WADI"
    by (simp add: algebra_simps)
  have "(s + 1) * (s + 1) \<le> (2 * q + b + 2) * (2 * q + b + 2)"
    using q s(1) by (intro mult_mono) simp_all
  with s(3) have "?y < (2 * q + b + 2) * (2 * q + b + 2)"
    by linarith
  then have "c * WADI < (q + 1) * (q + 1) + b * (q + 1)"
    by (simp add: algebra_simps)
  with low q(3) have root: "floor_root (c * WADI) b q"
    by (simp add: floor_root_def)
  have square: "(\<exists>k. ?y + 1 = k * k) \<longleftrightarrow> ?y + 1 = (s + 1) * (s + 1)"
  proof
    assume "\<exists>k. ?y + 1 = k * k"
    then obtain k where k: "?y + 1 = \<bar>k\<bar> * \<bar>k\<bar>"
      by (auto simp: abs_mult [symmetric])
    have "\<not> \<bar>k\<bar> \<le> s"
      using mult_mono [of "\<bar>k\<bar>" s "\<bar>k\<bar>" s] s(1,2) k by auto
    moreover have "\<not> s + 2 \<le> \<bar>k\<bar>"
      using mult_mono [of "s + 2" "\<bar>k\<bar>" "s + 2" "\<bar>k\<bar>"] s(1,3) k by (auto simp: algebra_simps)
    ultimately have "\<bar>k\<bar> = s + 1"
      by linarith
    with k show "?y + 1 = (s + 1) * (s + 1)" by simp
  qed blast
  show ?thesis
    unfolding solveQuad_def signedSafeMathSqrt_root [OF assms(2) s] square
    using root root_unique [OF root _ c, of r] by (auto simp: q_def)
qed

text \<open>The quadratic solver behind every quote returns exactly when its discriminant is not one less
  than a square, and then it returns the largest integer that satisfies the equation from below.\<close>

theorem wombat_solveQuad:
  assumes "0 \<le> c" and "3 < b * b + c * 4 * WADI"
  shows "solveQuad b c = Some (Inr r) \<longleftrightarrow>
    0 \<le> r \<and> r * r + b * r \<le> c * WADI \<and> c * WADI < (r + 1) * (r + 1) + b * (r + 1) \<and>
    \<not> (\<exists>k. b * b + c * 4 * WADI + 1 = k * k)"
  using solveQuad_root [OF assms] by (simp add: floor_root_def)

lemma not_square:
  fixes n :: int
  assumes "0 \<le> s" and "s * s < n" and "n < (s + 1) * (s + 1)"
  shows "n \<noteq> k * k"
proof
  assume k: "n = k * k"
  have "\<not> \<bar>k\<bar> \<le> s"
    using mult_mono [of "\<bar>k\<bar>" s "\<bar>k\<bar>" s] assms k by (auto simp: abs_mult [symmetric])
  moreover have "\<not> s + 1 \<le> \<bar>k\<bar>"
    using mult_mono [of "s + 1" "\<bar>k\<bar>" "s + 1" "\<bar>k\<bar>"] assms k by (auto simp: abs_mult [symmetric])
  ultimately show False by linarith
qed

theorem wombat_solveQuad_witness: "solveQuad 0 1 = Some (Inr 1000000000)"
proof -
  have "4000000000000000001 \<noteq> k * k" for k :: int
    by (rule not_square [of 2000000000]) simp_all
  then show ?thesis
    using wombat_solveQuad [of 1 0 1000000000] by (simp add: WADI_def)
qed

lemma solveQuad_diverges:
  assumes "0 \<le> c" and "3 < b * b + c * 4 * WADI" and "b * b + c * 4 * WADI + 1 = k * k"
  shows "solveQuad b c = None"
proof -
  let ?y = "b * b + c * 4 * WADI"
  obtain s where s: "0 < s" "s * s \<le> ?y" "?y < (s + 1) * (s + 1)"
    using assms(2) by (rule positive_root)
  from signedSafeMathSqrt_root [OF assms(2) s, of b] show ?thesis
    using solveQuad_root [OF assms(1,2), of "(s - b) div 2"] assms(3)
    by (auto simp: solveQuad_def split: if_splits)
qed

subsection \<open>Accounts of a swap\<close>

text \<open>What the theorems ask of the fixed-point package: division rounds to within one unit and
  conversion to 18 decimals keeps the sign.\<close>

definition rounds_division :: "dsmath \<Rightarrow> bool" where
  "rounds_division m = (\<forall>x y q. 0 < y \<longrightarrow> WDiv m x y = Inr q \<longrightarrow> q * y \<le> x * WAD + y)"

definition keeps_sign :: "dsmath \<Rightarrow> bool" where
  "keeps_sign m = (\<forall>a d. 0 \<le> a \<longrightarrow> 0 \<le> ToWAD m a d)"

lemma swapQuoteFunc_nonneg: "swapQuoteFunc m ax ay lx ly dx a = Some (Inr r) \<Longrightarrow> 0 \<le> r"
  by (auto simp: swapQuoteFunc_def Let_def go_simps split: if_splits)

lemma high_cov_fee_sum:
  "high_cov_fee m start end' a x quote = Inr (out, fee) \<Longrightarrow> out + fee = fst quote + snd quote"
  by (cases quote) (auto simp: high_cov_fee_def Let_def go_simps split: if_splits)

text \<open>The amount a quote takes out of the target asset, before the haircut is split off.\<close>

lemma poolV2QuoteFrom_ideal:
  assumes "poolV2QuoteFrom m f rate amp a b x = Some (Inr (out, fee))" and "0 \<le> x"
    and "f a b = Inr WAD"
  shows "\<exists>ideal c. Cash b = Some c \<and> 0 \<le> ideal \<and> (0 < x \<longrightarrow> out + fee = ideal \<and> ideal \<le> c)"
  using assms swapQuoteFunc_nonneg
  by (fastforce simp: poolV2QuoteFrom_def Let_def go_simps split: if_splits)

lemma quote_main_sum:
  assumes "evaluate env (QuoteFrom a b x) = Some (Inr (out, fee))" and "factor env = poolV2QuoteFactor"
    and "0 < x" and "Cash b = Some c"
  shows "0 \<le> out + fee \<and> out + fee \<le> c"
proof -
  obtain q where q: "poolV2QuoteFrom (math env) (factor env) (haircutRate_e env) (ampFactor_e env) a b x = Some (Inr q)"
    and h: "high_cov_fee (math env) (startCovRatio_e env) (endCovRatio_e env) a x q = Inr (out, fee)"
    using assms(1,3) by (subst (asm) evaluate.simps) (auto simp: go_simps)
  have "factor env a b = Inr WAD"
    by (simp add: assms(2) poolV2QuoteFactor_def WAD_def)
  with poolV2QuoteFrom_ideal [of _ _ _ _ a b x "fst q" "snd q"] q high_cov_fee_sum [OF h] assms(3,4)
  show ?thesis by fastforce
qed

lemma SwapE:
  assumes "Swap env from to amount isPaused assetMap = Some (Inr (out, fee, newFrom, newTo))"
  obtains x a b x' actual haircut ca cb lb ratio where "\<not> isPaused" "\<not> equal_fold from to" "amount = Some x" "x \<noteq> 0"
    "assetMap from = Some a" "assetMap to = Some b"
    "x' = ToWAD (math env) x (UnderlyingTokenDecimals a)"
    "evaluate env (QuoteFrom a b x') = Some (Inr (actual, haircut))"
    "Cash a = Some ca" "Cash b = Some cb" "Liability b = Some lb"
    "newFrom = ca + x'" "newTo = cb - (actual + haircut)"
    "WDiv (math env) newTo lb = Inr ratio" "\<not> ratio < WAD div 100"
    "out = FromWAD (math env) actual (UnderlyingTokenDecimals b)"
  using assms
  by (auto simp: Swap_def Let_def go_simps checkSameAddress_def assetOf_def split: if_splits option.splits)

lemma wombat_CalcAmountOutE:
  assumes "CalcAmountOut m f p param = Some (Inr r)"
  obtains out haircut newFrom newTo where
    "Swap (env_of m f p) (Token (TokenAmountIn param)) (TokenOut param) (Amount (TokenAmountIn param))
       (paused p) (assets p) = Some (Inr (out, haircut, newFrom, newTo))"
    "TokenAmountOut r = Some (token_amount (TokenOut param) (Some out))"
    "SwapInfo r = Some \<lparr>newFromAssetCash = Some newFrom, newToAssetCash = Some newTo\<rparr>"
  using assms by (auto simp: CalcAmountOut_def Let_def go_simps split: if_splits)

text \<open>One swap: a quote that is taken.\<close>

inductive wombat_swap :: "dsmath \<Rightarrow> quote_factor \<Rightarrow> PoolSimulator \<Rightarrow> PoolSimulator \<Rightarrow> bool" for m f where
  swap: "Amount (TokenAmountIn (param :: unit CalcAmountOutParams)) = Some x \<Longrightarrow> 0 < x \<Longrightarrow> CalcAmountOut m f p param = Some (Inr r) \<Longrightarrow>
    UpdateBalance p (update_params param r) = Inr p' \<Longrightarrow> wombat_swap m f p p'"

inductive_cases wombat_swapE: "wombat_swap m f p p'"

text \<open>The effect of a swap on the assets.\<close>

lemma applied_swap:
  assumes "Amount (TokenAmountIn param) = Some x" and "CalcAmountOut m f p param = Some (Inr r)"
  obtains p' a b x' actual haircut ca cb lb ratio where
    "UpdateBalance p (update_params param r) = Inr p'"
    "Token (TokenAmountIn param) \<noteq> TokenOut param"
    "assets p (Token (TokenAmountIn param)) = Some a" "assets p (TokenOut param) = Some b"
    "x' = ToWAD m x (UnderlyingTokenDecimals a)"
    "evaluate (env_of m f p) (QuoteFrom a b x') = Some (Inr (actual, haircut))"
    "Cash a = Some ca" "Cash b = Some cb" "Liability b = Some lb"
    "p' = p\<lparr>assets := (assets p)(Token (TokenAmountIn param) \<mapsto> a\<lparr>Cash := Some (ca + x')\<rparr>,
                               TokenOut param \<mapsto> b\<lparr>Cash := Some (cb - (actual + haircut))\<rparr>)\<rparr>"
    "WDiv m (cb - (actual + haircut)) lb = Inr ratio" "WAD div 100 \<le> ratio"
    "TokenAmountOut r = Some (token_amount (TokenOut param)
       (Some (FromWAD m actual (UnderlyingTokenDecimals b))))"
proof -
  obtain out hc newFrom newTo where s: "Swap (env_of m f p) (Token (TokenAmountIn param)) (TokenOut param)
      (Amount (TokenAmountIn param)) (paused p) (assets p) = Some (Inr (out, hc, newFrom, newTo))"
    and r: "TokenAmountOut r = Some (token_amount (TokenOut param) (Some out))"
    "SwapInfo r = Some \<lparr>newFromAssetCash = Some newFrom, newToAssetCash = Some newTo\<rparr>"
    using assms(2) by (rule wombat_CalcAmountOutE)
  from s show thesis
  proof (rule SwapE)
    fix x1 a b x' actual haircut ca cb lb ratio
    assume facts: "\<not> equal_fold (Token (TokenAmountIn param)) (TokenOut param)" "Amount (TokenAmountIn param) = Some x1"
      "assets p (Token (TokenAmountIn param)) = Some a" "assets p (TokenOut param) = Some b"
      "x' = ToWAD (math (env_of m f p)) x1 (UnderlyingTokenDecimals a)"
      "evaluate (env_of m f p) (QuoteFrom a b x') = Some (Inr (actual, haircut))"
      "Cash a = Some ca" "Cash b = Some cb" "Liability b = Some lb"
      "newFrom = ca + x'" "newTo = cb - (actual + haircut)"
      "WDiv (math (env_of m f p)) newTo lb = Inr ratio" "\<not> ratio < WAD div 100"
      "out = FromWAD (math (env_of m f p)) actual (UnderlyingTokenDecimals b)"
    let ?p' = "p\<lparr>assets := (assets p)(Token (TokenAmountIn param) \<mapsto> a\<lparr>Cash := Some (ca + x')\<rparr>,
                               TokenOut param \<mapsto> b\<lparr>Cash := Some (cb - (actual + haircut))\<rparr>)\<rparr>"
    have ne: "Token (TokenAmountIn param) \<noteq> TokenOut param"
      using facts(1) by auto
    have "UpdateBalance p (update_params param r) = Inr ?p'"
      using facts r by (simp add: UpdateBalance_def Let_def)
    with facts r assms(1) ne show thesis
      by (intro that [of ?p' a b x' actual haircut ca cb lb ratio]) (simp_all add: env_of_def)
  qed
qed

text \<open>C21: a quote of a positive amount that is taken pays from the cash of the bought asset.  The asset paid
  gains the amount in 18 decimals, the asset bought loses an amount its cash covers, of which the
  payment is what is left after the haircut, and no other asset changes.\<close>

theorem wombat_swap_accounts:
  assumes "Amount (TokenAmountIn param) = Some x" and "main_CalcAmountOut m p param = Some (Inr r)"
    and "assets p (Token (TokenAmountIn param)) = Some a" and "0 < ToWAD m x (UnderlyingTokenDecimals a)"
  shows "\<exists>p' b ca cb actual haircut. UpdateBalance p (update_params param r) = Inr p' \<and>
    assets p (TokenOut param) = Some b \<and> Cash a = Some ca \<and> Cash b = Some cb \<and>
    0 \<le> actual + haircut \<and> actual + haircut \<le> cb \<and>
    assets p' = (assets p)(Token (TokenAmountIn param) \<mapsto> a\<lparr>Cash := Some (ca + ToWAD m x (UnderlyingTokenDecimals a))\<rparr>,
                           TokenOut param \<mapsto> b\<lparr>Cash := Some (cb - (actual + haircut))\<rparr>) \<and>
    TokenAmountOut r = Some (token_amount (TokenOut param) (Some (FromWAD m actual (UnderlyingTokenDecimals b))))"
proof -
  have calc: "CalcAmountOut m poolV2QuoteFactor p param = Some (Inr r)"
    using assms(2) by (simp add: main_CalcAmountOut_def)
  obtain p' a' b x' actual haircut ca cb where *:
    "UpdateBalance p (update_params param r) = Inr p'"
    "assets p (Token (TokenAmountIn param)) = Some a'" "assets p (TokenOut param) = Some b"
    "x' = ToWAD m x (UnderlyingTokenDecimals a')"
    "evaluate (env_of m poolV2QuoteFactor p) (QuoteFrom a' b x') = Some (Inr (actual, haircut))"
    "Cash a' = Some ca" "Cash b = Some cb"
    "p' = p\<lparr>assets := (assets p)(Token (TokenAmountIn param) \<mapsto> a'\<lparr>Cash := Some (ca + x')\<rparr>,
                               TokenOut param \<mapsto> b\<lparr>Cash := Some (cb - (actual + haircut))\<rparr>)\<rparr>"
    "TokenAmountOut r = Some (token_amount (TokenOut param) (Some (FromWAD m actual (UnderlyingTokenDecimals b))))"
    using applied_swap [OF assms(1) calc] by metis
  have "0 \<le> actual + haircut \<and> actual + haircut \<le> cb"
    using quote_main_sum [OF *(5) _ _ *(7)] *(2,4) assms(3,4) by (simp add: env_of_def)
  with * assms(3) show ?thesis
    by (intro exI [of _ p'] exI [of _ b] exI conjI) auto
qed

definition covered :: "PoolSimulator \<Rightarrow> bool" where
  "covered p = (\<forall>t a. assets p t = Some a \<longrightarrow>
     (\<exists>c l. Cash a = Some c \<and> Liability a = Some l \<and> 0 \<le> c \<and> 0 < l))"

definition liabilities :: "PoolSimulator \<Rightarrow> string \<Rightarrow> bigint option" where
  "liabilities p t = map_option Liability (assets p t)"

lemma rounds_divisionD:
  assumes "rounds_division m" and "WDiv m x y = Inr q" and "0 < y" and "WAD div 100 \<le> q"
  shows "0 < x"
proof -
  have "q * y \<le> x * WAD + y"
    using assms(1-3) by (simp add: rounds_division_def)
  moreover have "WAD div 100 * y \<le> q * y"
    using assms(3,4) by (intro mult_right_mono) simp_all
  ultimately have "(WAD div 100 - 1) * y \<le> x * WAD"
    by (simp add: left_diff_distrib)
  moreover have "0 < (WAD div 100 - 1) * y"
    using assms(3) by (intro mult_pos_pos) (simp_all add: WAD_def)
  ultimately have "0 < x * WAD"
    by linarith
  then show ?thesis
    by (simp add: WAD_def)
qed

lemma wombat_step:
  assumes "rounds_division m" and "keeps_sign m" and "covered p" and "wombat_swap m f p p'"
  shows "covered p' \<and> liabilities p' = liabilities p"
proof -
  obtain param :: "unit CalcAmountOutParams" and x r where
    param: "Amount (TokenAmountIn param) = Some x" "0 < x" "CalcAmountOut m f p param = Some (Inr r)"
    "UpdateBalance p (update_params param r) = Inr p'"
    using assms(4) by (rule wombat_swapE)
  obtain a b x' actual haircut ca cb lb ratio where *:
    "Token (TokenAmountIn param) \<noteq> TokenOut param"
    "assets p (Token (TokenAmountIn param)) = Some a" "assets p (TokenOut param) = Some b"
    "x' = ToWAD m x (UnderlyingTokenDecimals a)"
    "Cash a = Some ca" "Cash b = Some cb" "Liability b = Some lb"
    "p' = p\<lparr>assets := (assets p)(Token (TokenAmountIn param) \<mapsto> a\<lparr>Cash := Some (ca + x')\<rparr>,
                               TokenOut param \<mapsto> b\<lparr>Cash := Some (cb - (actual + haircut))\<rparr>)\<rparr>"
    "WDiv m (cb - (actual + haircut)) lb = Inr ratio" "WAD div 100 \<le> ratio"
  proof (rule applied_swap [OF param(1,3)])
    fix p2 a b x' actual haircut ca cb lb ratio
    assume "UpdateBalance p (update_params param r) = Inr p2"
      and facts: "Token (TokenAmountIn param) \<noteq> TokenOut param"
      "assets p (Token (TokenAmountIn param)) = Some a" "assets p (TokenOut param) = Some b"
      "x' = ToWAD m x (UnderlyingTokenDecimals a)"
      "Cash a = Some ca" "Cash b = Some cb" "Liability b = Some lb"
      "p2 = p\<lparr>assets := (assets p)(Token (TokenAmountIn param) \<mapsto> a\<lparr>Cash := Some (ca + x')\<rparr>,
                                 TokenOut param \<mapsto> b\<lparr>Cash := Some (cb - (actual + haircut))\<rparr>)\<rparr>"
      "WDiv m (cb - (actual + haircut)) lb = Inr ratio" "WAD div 100 \<le> ratio"
    moreover from this(1) param(4) have "p2 = p'" by simp
    ultimately show thesis
      by (intro that) simp_all
  qed
  have "0 < lb" and "0 \<le> ca"
    using assms(3) *(2,3,5,6,7) unfolding covered_def by fastforce+
  then have "0 \<le> ca + x'" and "0 < cb - (actual + haircut)"
    using assms(2) param(2) * rounds_divisionD [OF assms(1) *(9)] by (simp_all add: keeps_sign_def)
  moreover obtain la where "Liability a = Some la" "0 < la"
    using assms(3) *(2) unfolding covered_def by fastforce
  ultimately have "covered p'"
    using assms(3) *(7) \<open>0 < lb\<close> unfolding covered_def *(8) by simp
  moreover have "liabilities p' = liabilities p"
    using *(2,3) unfolding liabilities_def *(8) by (simp add: fun_eq_iff)
  ultimately show ?thesis ..
qed

text \<open>C22: over any sequence of swaps, of either package, every asset keeps a non-negative cash and its
  liability, and no asset appears or disappears.\<close>

theorem wombat_cash_covered:
  assumes "rounds_division m" and "keeps_sign m" and "covered p" and "(wombat_swap m f)\<^sup>*\<^sup>* p p'"
  shows "covered p' \<and> liabilities p' = liabilities p"
  using assms(4)
proof (induction rule: rtranclp_induct)
  case (step y z)
  with wombat_step [OF assms(1,2), of y f z] show ?case by simp
qed (use assms(3) in simp)

subsection \<open>The check of a negative amount\<close>

text \<open>The coverage ratio after a swap of a negative amount adds the whole cash, an amount, to a ratio, so a
  cash above the start ratio (1.5 units of 18 decimals) exceeds it whatever the liability is.\<close>

lemma exceeds_start_any_liability:
  assumes "exceeds_start m (Some s) e b actual = Inr r" and "Cash b = Some c" and "Liability b = Some l"
    and "WDiv m actual l = Inr q" and "0 \<le> q" and "s < c"
  shows "r"
  using assms by (auto simp: exceeds_start_def go_simps split: if_splits)

subsection \<open>A concrete pool\<close>

text \<open>The fixed-point package with rounding to nearest, as its documentation has it.\<close>

definition nearest_dsmath :: dsmath where
  "nearest_dsmath =
     \<lparr>WMul = (\<lambda>x y. (x * y + WAD div 2) div WAD),
      WDiv = (\<lambda>x y. big_div (x * WAD + y div 2) y),
      ToWAD = (\<lambda>a d. if unat d \<le> 18 then a * 10 ^ (18 - unat d) else a div 10 ^ (unat d - 18)),
      FromWAD = (\<lambda>a d. if unat d \<le> 18 then a div 10 ^ (18 - unat d) else a * 10 ^ (unat d - 18))\<rparr>"

lemma nearest_dsmath_ok: "rounds_division nearest_dsmath" "keeps_sign nearest_dsmath"
proof -
  have "q * y \<le> x * WAD + y" if "0 < y" "q = (x * WAD + y div 2) div y" for x y q
    using floor_le [OF that(1), of "x * WAD + y div 2"] floor_le_self [of y 2] that(1)
    unfolding that(2) by simp
  then show "rounds_division nearest_dsmath"
    by (simp add: rounds_division_def nearest_dsmath_def)
  show "keeps_sign nearest_dsmath"
    by (simp add: keeps_sign_def nearest_dsmath_def pos_imp_zdiv_nonneg_iff)
qed

definition one_token :: Asset where
  "one_token = \<lparr>IsPause = False, Address_a = '''', Cash = Some (10 ^ 18), Liability = Some (10 ^ 18),
     UnderlyingTokenDecimals = 18, RelativePrice = Some (10 ^ 18)\<rparr>"

definition two_tokens :: "int \<Rightarrow> PoolSimulator" where
  "two_tokens amp =
     \<lparr>Info = \<lparr>Address = '''', Exchange = '''', Type = '''', Tokens = [''A'', ''B''], Reserves = [],
              SwapFee = None, BlockNumber = 0\<rparr>,
      paused = False, haircutRate = Some (10 ^ 14), ampFactor = Some amp,
      startCovRatio = Some (15 * 10 ^ 17), endCovRatio = Some (18 * 10 ^ 17),
      assets = [''A'' \<mapsto> one_token, ''B'' \<mapsto> one_token], gas = DefaultGas\<rparr>"

definition sell :: "int \<Rightarrow> unit CalcAmountOutParams" where
  "sell x = \<lparr>TokenAmountIn = token_amount ''A'' (Some x), TokenOut = ''B'', Limit = None\<rparr>"

lemma two_tokens_indices:
  "GetTokenIndex (two_tokens amp) ''A'' = 0" "GetTokenIndex (two_tokens amp) ''B'' = 1"
  by (simp_all add: GetTokenIndex_def PoolInfo_GetTokenIndex_def two_tokens_def)

lemma ToWAD_one_token: "ToWAD nearest_dsmath x (UnderlyingTokenDecimals one_token) = x"
  by (simp add: nearest_dsmath_def one_token_def)

text \<open>Balanced assets: the equation a quote solves.\<close>

lemma balanced_quote:
  "swapQuoteFunc nearest_dsmath (10 ^ 18) (10 ^ 18) (10 ^ 18) (10 ^ 18) 100000000000000000 2000000000000000
    = Some (Inr 99959695472491367)"
proof -
  have "solveQuad (- 897818181818181818) 2000000000000000 = Some (Inr 900040304527508633)"
    using signedSafeMathSqrt_root [of 814077487603305784797487603305785124 902262427236835449 "- 897818181818181818"]
    by (simp add: solveQuad_def WADI_def)
  then show ?thesis
    by (simp add: swapQuoteFunc_def nearest_dsmath_def WAD_def Let_def)
qed

lemma balanced_sale:
  "\<exists>r. main_CalcAmountOut nearest_dsmath (two_tokens 2000000000000000) (sell 100000000000000000) = Some (Inr r)"
proof -
  let ?env = "env_of nearest_dsmath poolV2QuoteFactor (two_tokens 2000000000000000)"
  have "poolV2QuoteFrom nearest_dsmath poolV2QuoteFactor (Some (10 ^ 14)) (Some 2000000000000000) one_token one_token
      100000000000000000 = Some (Inr (99949699502944118, 9995969547249))"
    using balanced_quote
    by (simp add: poolV2QuoteFrom_def poolV2QuoteFactor_def WAD_def one_token_def nearest_dsmath_def Let_def)
  then have "evaluate ?env (QuoteFrom one_token one_token 100000000000000000)
      = Some (Inr (99949699502944118, 9995969547249))"
    by (subst evaluate.simps)
      (simp add: env_of_def two_tokens_def high_cov_fee_def one_token_def nearest_dsmath_def WAD_def)
  then have "\<exists>q. Swap ?env ''A'' ''B'' (Some 100000000000000000) False [''A'' \<mapsto> one_token, ''B'' \<mapsto> one_token]
      = Some (Inr q)"
    by (simp add: Swap_def checkSameAddress_def equal_fold_def to_lower_def to_lower_char_def assetOf_def
        one_token_def Let_def env_of_def nearest_dsmath_def WAD_def)
  then show ?thesis
    by (auto simp: main_CalcAmountOut_def CalcAmountOut_def Let_def two_tokens_indices sell_def)
      (simp add: two_tokens_def)
qed

text \<open>A quote can run for ever.  In a pool of two balanced assets of one token each and an
  amplification of about 0.002, the quote for some 0.0744 tokens has a discriminant one less than a
  square: the square root alternates between two values and \<open>CalcAmountOut\<close> does not return.  The
  third-party \<open>dsmath\<close> is taken here to be \<open>nearest_dsmath\<close>, which rounds to the nearest unit.\<close>

theorem wombat_quote_hangs:
  "main_CalcAmountOut nearest_dsmath (two_tokens 2004769286771483) (sell 74407776901138159) = None"
proof -
  let ?env = "env_of nearest_dsmath poolV2QuoteFactor (two_tokens 2004769286771483)"
  have "solveQuad (- 923448614137773600) 2004769286771483 = None"
    by (rule solveQuad_diverges [where k = 927780372771519999]) (simp_all add: WADI_def)
  then have "swapQuoteFunc nearest_dsmath (10 ^ 18) (10 ^ 18) (10 ^ 18) (10 ^ 18) 74407776901138159 2004769286771483 = None"
    by (simp add: swapQuoteFunc_def nearest_dsmath_def WAD_def Let_def)
  then have "poolV2QuoteFrom nearest_dsmath poolV2QuoteFactor (Some (10 ^ 14)) (Some 2004769286771483) one_token one_token
      74407776901138159 = None"
    by (simp add: poolV2QuoteFrom_def poolV2QuoteFactor_def WAD_def one_token_def Let_def)
  then have "evaluate ?env (QuoteFrom one_token one_token 74407776901138159) = None"
    by (subst evaluate.simps) (simp add: env_of_def two_tokens_def)
  then have "Swap ?env ''A'' ''B'' (Some 74407776901138159) False [''A'' \<mapsto> one_token, ''B'' \<mapsto> one_token] = None"
    by (simp add: Swap_def checkSameAddress_def equal_fold_def to_lower_def to_lower_char_def assetOf_def
        ToWAD_one_token Let_def env_of_def) (simp add: one_token_def)
  then show ?thesis
    by (simp add: main_CalcAmountOut_def CalcAmountOut_def Let_def two_tokens_indices sell_def)
      (simp add: two_tokens_def)
qed

theorem wombat_swap_accounts_witness:
  "\<exists>p' r actual haircut. UpdateBalance (two_tokens 2000000000000000)
      (update_params (sell 100000000000000000) r) = Inr p' \<and> 0 \<le> actual + haircut \<and>
    assets p' = [''A'' \<mapsto> one_token\<lparr>Cash := Some (11 * 10 ^ 17)\<rparr>,
                 ''B'' \<mapsto> one_token\<lparr>Cash := Some (10 ^ 18 - (actual + haircut))\<rparr>]"
proof -
  obtain r where r: "main_CalcAmountOut nearest_dsmath (two_tokens 2000000000000000) (sell 100000000000000000) = Some (Inr r)"
    using balanced_sale by blast
  have "Amount (TokenAmountIn (sell 100000000000000000)) = Some 100000000000000000"
    and "assets (two_tokens 2000000000000000) (Token (TokenAmountIn (sell 100000000000000000))) = Some one_token"
    by (simp_all add: sell_def two_tokens_def)
  from wombat_swap_accounts [OF this(1) r this(2), unfolded ToWAD_one_token] show ?thesis
    by (auto simp: sell_def two_tokens_def one_token_def fun_upd_twist)
qed

lemma two_tokens_covered: "covered (two_tokens amp)"
  by (auto simp: covered_def two_tokens_def one_token_def split: if_splits)

theorem wombat_cash_covered_witness:
  "\<exists>p'. wombat_swap nearest_dsmath poolV2QuoteFactor (two_tokens 2000000000000000) p' \<and> covered p'"
proof -
  obtain r where r: "CalcAmountOut nearest_dsmath poolV2QuoteFactor (two_tokens 2000000000000000)
      (sell 100000000000000000) = Some (Inr r)"
    using balanced_sale by (auto simp: main_CalcAmountOut_def)
  have a: "Amount (TokenAmountIn (sell 100000000000000000)) = Some 100000000000000000"
    by (simp add: sell_def)
  obtain p' where "UpdateBalance (two_tokens 2000000000000000) (update_params (sell 100000000000000000) r) = Inr p'"
    using applied_swap [OF a r] by metis
  then have "wombat_swap nearest_dsmath poolV2QuoteFactor (two_tokens 2000000000000000) p'"
    using wombat_swap.swap [OF a _ r] by simp
  moreover from this wombat_cash_covered [OF nearest_dsmath_ok two_tokens_covered r_into_rtranclp, OF this]
  have "covered p'" by simp
  ultimately show ?thesis by blast
qed

subsection \<open>The LSD pools\<close>

lemma dynamic_factor_equal_price:
  assumes "RelativePrice a = Some q" and "RelativePrice b = Some q" and "0 < q"
  shows "dynamicPoolV2QuoteFactor a b = poolV2QuoteFactor a b"
  using assms by (simp add: dynamicPoolV2QuoteFactor_def poolV2QuoteFactor_def BONE_def)

lemma evaluate_forward:
  assumes "0 \<le> x"
  shows "evaluate env (QuoteFrom a b x) =
    call (poolV2QuoteFrom (math env) (factor env) (haircutRate_e env) (ampFactor_e env) a b x)
      (\<lambda>quote. Some (high_cov_fee (math env) (startCovRatio_e env) (endCovRatio_e env) a x quote))"
  using assms by (subst evaluate.simps) simp

lemma quote_factor_only:
  assumes "f a b = g a b"
  shows "poolV2QuoteFrom m f rate amp a b x = poolV2QuoteFrom m g rate amp a b x"
  by (simp only: poolV2QuoteFrom_def assms)

text \<open>An LSD pool whose assets all have the same positive relative price quotes exactly what a main
  pool with the same assets quotes, errors and calls that do not return included.\<close>

theorem wombat_lsd_equals_main:
  assumes "keeps_sign m" and "0 < q" and "\<forall>t a. assets p t = Some a \<longrightarrow> RelativePrice a = Some q"
    and "Amount (TokenAmountIn param) = Some x" and "0 < x"
  shows "lsd_CalcAmountOut m p param = main_CalcAmountOut m p param"
proof -
  have "Swap (env_of m dynamicPoolV2QuoteFactor p) s t (Some x) (paused p) (assets p)
      = Swap (env_of m poolV2QuoteFactor p) s t (Some x) (paused p) (assets p)" for s t
  proof (cases "assets p s"; cases "assets p t")
    fix a b assume ab: "assets p s = Some a" "assets p t = Some b"
    then have "dynamicPoolV2QuoteFactor a b = poolV2QuoteFactor a b"
      using assms(2,3) by (intro dynamic_factor_equal_price) auto
    moreover have "0 \<le> ToWAD m x (UnderlyingTokenDecimals a)"
      using assms(1,5) by (simp add: keeps_sign_def)
    ultimately have "evaluate (env_of m dynamicPoolV2QuoteFactor p) (QuoteFrom a b (ToWAD m x (UnderlyingTokenDecimals a)))
        = evaluate (env_of m poolV2QuoteFactor p) (QuoteFrom a b (ToWAD m x (UnderlyingTokenDecimals a)))"
      by (simp add: evaluate_forward env_of_def quote_factor_only [of dynamicPoolV2QuoteFactor a b poolV2QuoteFactor])
    moreover have "math (env_of m f p) = m" for f
      by (simp add: env_of_def)
    ultimately show ?thesis
      by (simp add: Swap_def assetOf_def ab Let_def cong: if_cong)
  qed (simp_all add: Swap_def assetOf_def call_def guard_def checkSameAddress_def)
  then show ?thesis
    using assms(4)
    by (simp add: lsd_CalcAmountOut_def main_CalcAmountOut_def CalcAmountOut_def Let_def cong: if_cong)
qed

theorem wombat_lsd_equals_main_witness:
  "lsd_CalcAmountOut nearest_dsmath (two_tokens 2000000000000000) (sell 100000000000000000)
    = main_CalcAmountOut nearest_dsmath (two_tokens 2000000000000000) (sell 100000000000000000)"
proof (rule wombat_lsd_equals_main [OF nearest_dsmath_ok(2)])
  show "(0::int) < 10 ^ 18" and "Amount (TokenAmountIn (sell 100000000000000000)) = Some 100000000000000000"
    and "(0::int) < 100000000000000000"
    by (simp_all add: sell_def)
  show "\<forall>t a. assets (two_tokens 2000000000000000) t = Some a \<longrightarrow> RelativePrice a = Some (10 ^ 18)"
    by (auto simp: two_tokens_def one_token_def split: if_splits)
qed

text \<open>A missing relative price stops an LSD quote with a panic, and a zero one with a division by zero.\<close>

lemma lsd_bad_price:
  assumes "RelativePrice a = Some q"
  shows "RelativePrice b = None \<Longrightarrow> dynamicPoolV2QuoteFactor a b = Inl (Panic NilDereference)"
    and "RelativePrice b = Some 0 \<Longrightarrow> dynamicPoolV2QuoteFactor a b = Inl (Panic DivisionByZero)"
  using assms by (simp_all add: dynamicPoolV2QuoteFactor_def)

end
