(* ===== verification/Saddle.thy ===== *)
theory Saddle
  imports Pool_Interface Newton
begin

text \<open>
  The stable-swap pools of \<open>pkg/source/saddle\<close>: swaps between the pooled tokens, and deposits and
  withdrawals in one token against the LP token.  The arithmetic of \<open>math.go\<close> comes first, in pool
  precision (\<open>_xp\<close>), then the simulator.  The clock (\<open>now\<close>) and JSON decoding are parameters; a leading
  underscore of a name is left out, and \<open>_xp\<close> is \<open>xp_of\<close>.
\<close>

definition MaxLoopLimit :: nat where
  "MaxLoopLimit = 256"

definition FeeDenominator :: int where
  "FeeDenominator = 10000000000"

definition APrecision :: int where
  "APrecision = 100"

record Gas =
  Swap_g :: int
  AddLiquidity :: int
  RemoveLiquidity :: int

definition DefaultGas :: Gas where
  "DefaultGas = \<lparr>Swap_g = 130000, AddLiquidity = 280000, RemoveLiquidity = 150000\<rparr>"

subsection \<open>Balances, amplification and the invariant\<close>

definition xp_of :: "bigint list \<Rightarrow> bigint list \<Rightarrow> int list go" where
  "xp_of balances precisionMultipliers =
     (if length balances \<noteq> length precisionMultipliers then Inl (Err ''balances must match multipliers'')
      else go_map (\<lambda>i. bnd (big_at balances i) (\<lambda>b. bnd (big_at precisionMultipliers i) (\<lambda>m. Inr (b * m))))
             (range_n (length balances)))"

definition getAPrecise :: "int \<Rightarrow> int \<Rightarrow> bigint \<Rightarrow> int \<Rightarrow> bigint \<Rightarrow> bigint go" where
  "getAPrecise now futureATime futureA initialATime initialA =
     (if now < futureATime then
        bnd (deref futureA) (\<lambda>a1. bnd (deref initialA) (\<lambda>a0.
        if a0 < a1
        then bnd (big_div ((a1 - a0) * int64 (now - initialATime)) (int64 (futureATime - initialATime)))
               (\<lambda>q. Inr (Some (a0 + q)))
        else bnd (big_div ((a0 - a1) * int64 (now - initialATime)) (int64 (futureATime - initialATime)))
               (\<lambda>q. Inr (Some (a0 - q)))))
      else Inr futureA)"

fun d_p_loop :: "int \<Rightarrow> int \<Rightarrow> int \<Rightarrow> int list \<Rightarrow> int go" where
  "d_p_loop n d dP [] = Inr dP"
| "d_p_loop n d dP (x # xs) = bnd (big_div (dP * d) (x * n)) (\<lambda>dP'. d_p_loop n d dP' xs)"

fun d_loop :: "nat \<Rightarrow> int list \<Rightarrow> int \<Rightarrow> int \<Rightarrow> int \<Rightarrow> int go" where
  "d_loop 0 xp nA s d = Inl (Err ''d does not converge'')"
| "d_loop (Suc m) xp nA s d =
     (let n = int (length xp) in
      bnd (d_p_loop n d d xp) (\<lambda>dP.
      bnd (big_div ((nA * s div APrecision + dP * n) * d) ((nA - APrecision) * d div APrecision + dP * (n + 1)))
        (\<lambda>d'. if \<bar>d' - d\<bar> \<le> 1 then Inr d' else d_loop m xp nA s d')))"

definition getD :: "int list \<Rightarrow> bigint \<Rightarrow> int go" where
  "getD xp a =
     (let s = sum_list xp in
      if s = 0 then Inr s
      else bnd (deref a) (\<lambda>a. d_loop MaxLoopLimit xp (a * int (length xp)) s s))"

subsection \<open>Solving for a balance\<close>

fun y_loop :: "nat \<Rightarrow> int \<Rightarrow> int \<Rightarrow> int \<Rightarrow> int \<Rightarrow> int go" where
  "y_loop 0 c b d y = Inl (Err ''approximation did not converge'')"
| "y_loop (Suc m) c b d y =
     bnd (big_div (y * y + c) (y * 2 + b - d)) (\<lambda>y'.
     if \<bar>y' - y\<bar> \<le> 1 then Inr y' else y_loop m c b d y')"

fun s_c_loop :: "int \<Rightarrow> int \<Rightarrow> int \<Rightarrow> int \<Rightarrow> int \<Rightarrow> int \<Rightarrow> int list \<Rightarrow> int \<Rightarrow> int \<Rightarrow> (int \<times> int) go" where
  "s_c_loop i from to x n d [] s c = Inr (s, c)"
| "s_c_loop i from to x n d (xpi # xps) s c =
     (if i \<noteq> from \<and> i = to then s_c_loop (i + 1) from to x n d xps s c
      else
        let x' = (if i = from then x else xpi) in
        if x' = 0 then Inl (Err ''zero'')
        else bnd (big_div (c * d) (x' * n)) (\<lambda>c'. s_c_loop (i + 1) from to x n d xps (s + x') c'))"

definition getY ::
    "int \<Rightarrow> int \<Rightarrow> bigint \<Rightarrow> int \<Rightarrow> bigint \<Rightarrow> int \<Rightarrow> int \<Rightarrow> int \<Rightarrow> int list \<Rightarrow> int go" where
  "getY now futureATime futureA initialATime initialA tokenIndexFrom tokenIndexTo x xp =
     (let n = int (length xp) in
      if tokenIndexFrom = tokenIndexTo then Inl (Err ''can not compare token to itself'')
      else if n \<le> tokenIndexFrom \<and> n \<le> tokenIndexTo then Inl (Err ''tokens must be in pool'')
      else
        bnd (getAPrecise now futureATime futureA initialATime initialA) (\<lambda>a.
        bnd (getD xp a) (\<lambda>d.
        bnd (deref a) (\<lambda>a.
        let nA = a * n in
        bnd (s_c_loop 0 tokenIndexFrom tokenIndexTo x n d xp 0 d) (\<lambda>(s, c).
        if nA = 0 then Inl (Err ''zero'')
        else
          bnd (big_div (c * d * APrecision) (nA * n)) (\<lambda>c.
          bnd (big_div (d * APrecision) nA) (\<lambda>q.
          y_loop MaxLoopLimit c (s + q) d d)))))))"

definition calculateSwap ::
    "int \<Rightarrow> bigint list \<Rightarrow> bigint list \<Rightarrow> int \<Rightarrow> bigint \<Rightarrow> int \<Rightarrow> bigint \<Rightarrow> bigint \<Rightarrow> int \<Rightarrow> int \<Rightarrow> bigint \<Rightarrow>
     (int \<times> int) go" where
  "calculateSwap now balances multipliers futureATime futureA initialATime initialA swapFee
     tokenIndexFrom tokenIndexTo dx =
     bnd (xp_of balances multipliers) (\<lambda>xp.
     bnd (deref dx) (\<lambda>dx.
     bnd (big_at multipliers tokenIndexFrom) (\<lambda>mFrom.
     bnd (idx xp tokenIndexFrom) (\<lambda>xpFrom.
     bnd (getY now futureATime futureA initialATime initialA tokenIndexFrom tokenIndexTo
            (dx * mFrom + xpFrom) xp) (\<lambda>y.
     bnd (idx xp tokenIndexTo) (\<lambda>xpTo.
     let dy = xpTo - y - 1 in
     bnd (deref swapFee) (\<lambda>swapFee.
     let dyFee = dy * swapFee div FeeDenominator in
     bnd (big_at multipliers tokenIndexTo) (\<lambda>mTo.
     bnd (big_div (dy - dyFee) mTo) (\<lambda>dy. Inr (dy, dyFee))))))))))"

definition CalculateSwap ::
    "int \<Rightarrow> bigint list \<Rightarrow> bigint list \<Rightarrow> int \<Rightarrow> bigint \<Rightarrow> int \<Rightarrow> bigint \<Rightarrow> bigint \<Rightarrow> int \<Rightarrow> int \<Rightarrow> bigint \<Rightarrow>
     (int \<times> int) go" where
  "CalculateSwap = calculateSwap"

fun s_c_loop_yd :: "int \<Rightarrow> int \<Rightarrow> int \<Rightarrow> int \<Rightarrow> int list \<Rightarrow> int \<Rightarrow> int \<Rightarrow> (int \<times> int) go" where
  "s_c_loop_yd i k n d [] s c = Inr (s, c)"
| "s_c_loop_yd i k n d (x # xs) s c =
     (if i \<noteq> k
      then bnd (big_div (c * d) (x * n)) (\<lambda>c'. s_c_loop_yd (i + 1) k n d xs (s + x) c')
      else s_c_loop_yd (i + 1) k n d xs s c)"

text \<open>\<open>getYD\<close> tests \<open>nA\<close> for zero after it has divided by it.\<close>

definition getYD :: "bigint \<Rightarrow> int \<Rightarrow> int list \<Rightarrow> int \<Rightarrow> int go" where
  "getYD a tokenIndex xp d =
     (let n = int (length xp) in
      if n \<le> tokenIndex then Inl (Err ''token not found'')
      else
        bnd (deref a) (\<lambda>a.
        let nA = a * n in
        bnd (s_c_loop_yd 0 tokenIndex n d xp 0 d) (\<lambda>(s, c).
        bnd (big_div (c * d * APrecision) (nA * n)) (\<lambda>c.
        if nA = 0 then Inl (Err ''zero'')
        else bnd (big_div (d * APrecision) nA) (\<lambda>q. y_loop MaxLoopLimit c (s + q) d d)))))"

subsection \<open>Withdrawals\<close>

definition feePerToken :: "bigint \<Rightarrow> int \<Rightarrow> int go" where
  "feePerToken swapFee numTokens =
     bnd (deref swapFee) (\<lambda>f. big_div (f * numTokens) ((numTokens - 1) * 4))"

definition calculateWithdrawOneTokenDy ::
    "int \<Rightarrow> bigint list \<Rightarrow> bigint list \<Rightarrow> int \<Rightarrow> bigint \<Rightarrow> int \<Rightarrow> bigint \<Rightarrow> bigint \<Rightarrow> bigint \<Rightarrow> int \<Rightarrow> bigint \<Rightarrow>
     (int \<times> int) go" where
  "calculateWithdrawOneTokenDy now balances multipliers futureATime futureA initialATime initialA
     swapFee lpSupply tokenIndex tokenAmount =
     (let numTokens = int (length balances) in
      if numTokens \<le> tokenIndex then Inl (Err ''token index out of range'')
      else
        bnd (xp_of balances multipliers) (\<lambda>xp.
        bnd (getAPrecise now futureATime futureA initialATime initialA) (\<lambda>preciseA.
        bnd (getD xp preciseA) (\<lambda>d0.
        bnd (deref tokenAmount) (\<lambda>amount.
        bnd (deref lpSupply) (\<lambda>supply.
        bnd (big_div (amount * d0) supply) (\<lambda>share.
        let d1 = d0 - share in
        bnd (idx xp tokenIndex) (\<lambda>xpi.
        if xpi < amount then Inl (Err ''withdraw exceeds available'')
        else
          bnd (getYD preciseA tokenIndex xp d1) (\<lambda>newY.
          bnd (feePerToken swapFee numTokens) (\<lambda>feePerToken.
          bnd (go_map (\<lambda>i. bnd (idx xp i) (\<lambda>x. bnd (big_div (x * d1) d0) (\<lambda>part.
                 let norm = (if i = tokenIndex then part - newY else x - part) in
                 Inr (x - norm * feePerToken div FeeDenominator))))
               (range_n (length balances))) (\<lambda>xpReduced.
          bnd (getYD preciseA tokenIndex xpReduced d1) (\<lambda>yd.
          bnd (idx xpReduced tokenIndex) (\<lambda>xpr.
          bnd (big_at multipliers tokenIndex) (\<lambda>m.
          bnd (big_div (xpr - yd - 1) m) (\<lambda>dy. Inr (dy, newY))))))))))))))))"

definition calculateWithdrawOneToken ::
    "int \<Rightarrow> bigint list \<Rightarrow> bigint list \<Rightarrow> int \<Rightarrow> bigint \<Rightarrow> int \<Rightarrow> bigint \<Rightarrow> bigint \<Rightarrow> bigint \<Rightarrow> bigint \<Rightarrow> int \<Rightarrow>
     bigint \<Rightarrow> (int \<times> int) go" where
  "calculateWithdrawOneToken now balances multipliers futureATime futureA initialATime initialA
     swapFee withdrawFee lpSupply tokenIndex tokenAmount =
     bnd (calculateWithdrawOneTokenDy now balances multipliers futureATime futureA initialATime initialA
            swapFee lpSupply tokenIndex tokenAmount) (\<lambda>(dy, newY).
     bnd (xp_of balances multipliers) (\<lambda>xp.
     bnd (idx xp tokenIndex) (\<lambda>xpi.
     bnd (big_at multipliers tokenIndex) (\<lambda>m.
     bnd (big_div (xpi - newY) m) (\<lambda>q.
     bnd (deref withdrawFee) (\<lambda>wf.
     Inr (dy * (FeeDenominator - wf) div FeeDenominator, q - dy)))))))"

definition CalculateRemoveLiquidityOneToken ::
    "int \<Rightarrow> bigint list \<Rightarrow> bigint list \<Rightarrow> int \<Rightarrow> bigint \<Rightarrow> int \<Rightarrow> bigint \<Rightarrow> bigint \<Rightarrow> bigint \<Rightarrow> bigint \<Rightarrow> int \<Rightarrow>
     bigint \<Rightarrow> (int \<times> int) go" where
  "CalculateRemoveLiquidityOneToken = calculateWithdrawOneToken"

subsection \<open>Deposits\<close>

definition calculateTokenAmount ::
    "int \<Rightarrow> bigint list \<Rightarrow> bigint list \<Rightarrow> int \<Rightarrow> bigint \<Rightarrow> int \<Rightarrow> bigint \<Rightarrow> bigint \<Rightarrow> bigint \<Rightarrow> bigint list \<Rightarrow>
     bool \<Rightarrow> int go" where
  "calculateTokenAmount now balances multipliers futureATime futureA initialATime initialA withdrawFee
     lpSupply amounts deposit =
     bnd (getAPrecise now futureATime futureA initialATime initialA) (\<lambda>a.
     bnd (xp_of balances multipliers) (\<lambda>xp.
     bnd (getD xp a) (\<lambda>d0.
     bnd (go_map (\<lambda>i. bnd (big_at balances i) (\<lambda>b. bnd (big_at amounts i) (\<lambda>am.
            if deposit then Inr (Some (b + am))
            else if b < am then Inl (Err ''cannot withdraw more than available'')
            else Inr (Some (b - am))))) (range_n (length balances))) (\<lambda>balances1.
     bnd (xp_of balances1 multipliers) (\<lambda>xp1.
     bnd (getD xp1 a) (\<lambda>d1.
     bnd (deref lpSupply) (\<lambda>totalSupply.
     if deposit then big_div ((d1 - d0) * totalSupply) d0
     else
       bnd (big_div ((d0 - d1) * totalSupply) d0) (\<lambda>q.
       bnd (deref withdrawFee) (\<lambda>wf. big_div (q * FeeDenominator) (FeeDenominator - wf))))))))))"

definition CalculateAddLiquidityOneToken ::
    "int \<Rightarrow> bigint list \<Rightarrow> bigint list \<Rightarrow> int \<Rightarrow> bigint \<Rightarrow> int \<Rightarrow> bigint \<Rightarrow> bigint \<Rightarrow> bigint \<Rightarrow> int \<Rightarrow> bigint \<Rightarrow>
     (int \<times> int) go" where
  "CalculateAddLiquidityOneToken now balances multipliers futureATime futureA initialATime initialA
     withdrawFee lpSupply tokenIndex tokenAmount =
     bnd (deref tokenAmount) (\<lambda>ta.
     bnd (upd (replicate (length balances) (Some 0)) tokenIndex (Some ta)) (\<lambda>amounts.
     bnd (calculateTokenAmount now balances multipliers futureATime futureA initialATime initialA
            withdrawFee lpSupply amounts True) (\<lambda>amount. Inr (amount, 0))))"

subsection \<open>The dynamic fee of the underlying swap\<close>

definition dynamicFee :: "int \<Rightarrow> int \<Rightarrow> int \<Rightarrow> int \<Rightarrow> int go" where
  "dynamicFee xpi xpj fee feemul =
     (if feemul \<le> FeeDenominator then Inr fee
      else
        let xps2 = (xpi + xpj) * (xpi + xpj) in
        bnd (big_div ((feemul - FeeDenominator) * 4 * xpi * xpj) xps2) (\<lambda>q.
        big_div (feemul * fee) (q + FeeDenominator)))"

definition GetDyUnderlying ::
    "int \<Rightarrow> bigint list \<Rightarrow> bigint list \<Rightarrow> int \<Rightarrow> bigint \<Rightarrow> int \<Rightarrow> bigint \<Rightarrow> bigint \<Rightarrow> bigint \<Rightarrow> int \<Rightarrow> int \<Rightarrow>
     bigint \<Rightarrow> (int \<times> int) go" where
  "GetDyUnderlying now balances multipliers futureATime futureA initialATime initialA swapFee
     offPegFeeMultiplier tokenIndexFrom tokenIndexTo dx =
     bnd (xp_of balances multipliers) (\<lambda>xp.
     bnd (idx xp tokenIndexFrom) (\<lambda>xpFrom.
     bnd (deref dx) (\<lambda>dx.
     bnd (big_at multipliers tokenIndexFrom) (\<lambda>mFrom.
     let x = xpFrom + dx * mFrom in
     bnd (getY now futureATime futureA initialATime initialA tokenIndexFrom tokenIndexTo x xp) (\<lambda>y.
     bnd (idx xp tokenIndexTo) (\<lambda>xpTo.
     bnd (big_at multipliers tokenIndexTo) (\<lambda>mTo.
     bnd (big_div (xpTo - y) mTo) (\<lambda>dy.
     bnd (deref offPegFeeMultiplier) (\<lambda>feemul.
     bnd (deref swapFee) (\<lambda>swapFee.
     bnd (dynamicFee ((xpFrom + x) div 2) ((xpTo + y) div 2) swapFee feemul) (\<lambda>dynamicFee.
     let fee = dynamicFee * dy div FeeDenominator in
     Inr (dy - fee, fee))))))))))))"

subsection \<open>The simulator\<close>

record Extra =
  InitialA_x :: string
  FutureA_x :: string
  InitialATime_x :: int
  FutureATime_x :: int
  SwapFee_x :: string
  AdminFee_x :: string
  DefaultWithdrawFee_x :: string
  Paused_x :: bool

record StaticExtra =
  LpToken_s :: string
  PrecisionMultipliers :: "string list"

record Meta =
  TokenInIndex :: int
  TokenOutIndex :: int
  PoolLength :: int
  LpToken_m :: string
  BlockNumber_m :: nat

record PoolSimulator = Pool +
  Multipliers :: "bigint list"
  InitialA :: bigint
  FutureA :: bigint
  InitialATime :: int
  FutureATime :: int
  AdminFee :: bigint
  DefaultWithdrawFee :: bigint
  LpToken :: string
  LpSupply :: bigint
  Paused :: bool
  gas :: Gas

definition NewPoolSimulator ::
    "(string \<Rightarrow> StaticExtra go) \<Rightarrow> (string \<Rightarrow> Extra go) \<Rightarrow> EntityPool \<Rightarrow> PoolSimulator go" where
  "NewPoolSimulator json_static json_extra entityPool =
     bnd (json_static (StaticExtra_e entityPool)) (\<lambda>staticExtra.
     bnd (json_extra (Extra_e entityPool)) (\<lambda>extra.
     let numTokens = length (Tokens_e entityPool) in
     bnd (go_map (\<lambda>i. bnd (idx (Tokens_e entityPool) i) (\<lambda>t. bnd (idx (Reserves_e entityPool) i) (\<lambda>r.
            bnd (idx (PrecisionMultipliers staticExtra) i) (\<lambda>m.
            Inr (TokenAddress t, NewBig10 r, NewBig10 m))))) (range_n numTokens)) (\<lambda>rows.
     bnd (idx (Reserves_e entityPool) (int numTokens)) (\<lambda>supply.
     let defaultWithdrawFee = NewBig10 (DefaultWithdrawFee_x extra) in
     Inr \<lparr>Info = \<lparr>Address = to_lower (Address_e entityPool), Exchange = Exchange_e entityPool,
                   Type = Type_e entityPool, Tokens = map fst rows, Reserves = map (fst \<circ> snd) rows,
                   SwapFee = NewBig10 (SwapFee_x extra), BlockNumber = BlockNumber_e entityPool\<rparr>,
          Multipliers = map (snd \<circ> snd) rows, InitialA = NewBig10 (InitialA_x extra),
          FutureA = NewBig10 (FutureA_x extra), InitialATime = InitialATime_x extra,
          FutureATime = FutureATime_x extra, AdminFee = NewBig10 (AdminFee_x extra),
          DefaultWithdrawFee = (case defaultWithdrawFee of None \<Rightarrow> Some 0 | Some f \<Rightarrow> Some f),
          LpToken = LpToken_s staticExtra, LpSupply = NewBig10 supply, Paused = Paused_x extra,
          gas = DefaultGas\<rparr>))))"

definition result :: "string \<Rightarrow> int \<Rightarrow> int \<Rightarrow> int \<Rightarrow> unit CalcAmountOutResult" where
  "result tokenOut amountOut fee g =
     \<lparr>TokenAmountOut = Some (token_amount tokenOut (Some amountOut)),
      Fee = Some (token_amount tokenOut (Some fee)), RemainingTokenAmountIn = None,
      Gas = g, SwapInfo = None\<rparr>"

definition CalcAmountOut ::
    "int \<Rightarrow> PoolSimulator \<Rightarrow> 'l CalcAmountOutParams \<Rightarrow> unit CalcAmountOutResult go" where
  "CalcAmountOut now t param =
     (let tokenAmountIn = TokenAmountIn param; tokenOut = TokenOut param;
          balances = Reserves (Info t); dead = Inl (Err ''i am dead here'') in
      if Paused t then Inl (Err ''ErrPoolPaused'')
      else if Token tokenAmountIn = LpToken t then
        let tokenIndexTo = PoolInfo_GetTokenIndex (Info t) tokenOut in
        if 0 \<le> tokenIndexTo then
          bnd (CalculateRemoveLiquidityOneToken now balances (Multipliers t) (FutureATime t) (FutureA t)
                 (InitialATime t) (InitialA t) (SwapFee (Info t)) (DefaultWithdrawFee t) (LpSupply t)
                 tokenIndexTo (Amount tokenAmountIn)) (\<lambda>(amountOut, fee).
          if 0 < amountOut then Inr (result tokenOut amountOut fee (RemoveLiquidity (gas t))) else dead)
        else dead
      else if tokenOut = LpToken t then
        let tokenIndexFrom = PoolInfo_GetTokenIndex (Info t) (Token tokenAmountIn) in
        if 0 \<le> tokenIndexFrom then
          bnd (CalculateAddLiquidityOneToken now balances (Multipliers t) (FutureATime t) (FutureA t)
                 (InitialATime t) (InitialA t) (DefaultWithdrawFee t) (LpSupply t)
                 tokenIndexFrom (Amount tokenAmountIn)) (\<lambda>(amountOut, fee).
          if 0 < amountOut then Inr (result tokenOut amountOut fee (AddLiquidity (gas t))) else dead)
        else dead
      else
        let tokenIndexFrom = PoolInfo_GetTokenIndex (Info t) (Token tokenAmountIn);
            tokenIndexTo = PoolInfo_GetTokenIndex (Info t) tokenOut in
        if 0 \<le> tokenIndexFrom \<and> 0 \<le> tokenIndexTo then
          bnd (CalculateSwap now balances (Multipliers t) (FutureATime t) (FutureA t) (InitialATime t)
                 (InitialA t) (SwapFee (Info t)) tokenIndexFrom tokenIndexTo (Amount tokenAmountIn))
            (\<lambda>(amountOut, fee).
          if 0 < amountOut then Inr (result tokenOut amountOut fee (Swap_g (gas t))) else dead)
        else dead)"

text \<open>\<open>lo.Map\<close> is third-party code, a parameter here; its callback panics on a nil reserve.\<close>

definition CloneState ::
    "(bigint list \<Rightarrow> (bigint \<Rightarrow> int \<Rightarrow> bigint go) \<Rightarrow> bigint list go) \<Rightarrow> PoolSimulator \<Rightarrow> PoolSimulator go" where
  "CloneState lo_Map t =
     bnd (deref (LpSupply t)) (\<lambda>supply.
     bnd (lo_Map (Reserves (Info t)) (\<lambda>v i. bnd (deref v) (\<lambda>v. Inr (Some v)))) (\<lambda>reserves.
     Inr (t\<lparr>LpSupply := Some supply, Info := (Info t)\<lparr>Reserves := reserves\<rparr>\<rparr>)))"

text \<open>The amount the reserve of the output loses and the new LP supply.\<close>

definition settle ::
    "PoolSimulator \<Rightarrow> (unit, 'l) UpdateBalanceParams \<Rightarrow> (int \<times> bigint) go" where
  "settle t params =
     (let input = TokenAmountIn_u params; output = TokenAmountOut_u params in
      bnd (deref (Amount output)) (\<lambda>outputAmount.
      if Token input = LpToken t then
        bnd (deref (Amount (Fee_u params))) (\<lambda>fee.
        bnd (deref (AdminFee t)) (\<lambda>adminFee.
        bnd (deref (LpSupply t)) (\<lambda>supply.
        bnd (deref (Amount input)) (\<lambda>inputAmount.
        Inr (outputAmount + fee * adminFee div FeeDenominator, Some (supply - inputAmount))))))
      else if Token output = LpToken t then
        bnd (deref (LpSupply t)) (\<lambda>supply. Inr (outputAmount, Some (supply + outputAmount)))
      else
        bnd (deref (SwapFee (Info t))) (\<lambda>swapFee.
        bnd (deref (AdminFee t)) (\<lambda>adminFee.
        Inr (outputAmount + (outputAmount * swapFee div FeeDenominator) * adminFee div FeeDenominator,
             LpSupply t)))))"

definition UpdateBalance ::
    "PoolSimulator \<Rightarrow> (unit, 'l) UpdateBalanceParams \<Rightarrow> PoolSimulator go" where
  "UpdateBalance t params =
     (let input = TokenAmountIn_u params; output = TokenAmountOut_u params in
      bnd (settle t params) (\<lambda>(outputAmount, supply).
      bnd (if Token input \<in> set (Tokens (Info t)) then deref (Amount input) else Inr 0) (\<lambda>inputAmount.
      bnd (swap_reserves (Tokens (Info t)) 0 (Token input) inputAmount (Token output)
             (Some outputAmount) (Reserves (Info t))) (\<lambda>rs.
      Inr (t\<lparr>LpSupply := supply, Info := (Info t)\<lparr>Reserves := rs\<rparr>\<rparr>)))))"

definition CanSwapTo :: "PoolSimulator \<Rightarrow> string \<Rightarrow> string list" where
  "CanSwapTo t address =
     (let tokenIndex = GetTokenIndex t address in
      if tokenIndex < 0 \<and> address \<noteq> LpToken t then []
      else
        map snd (filter (\<lambda>(i, token). i \<noteq> tokenIndex)
                   (zip (range_n (length (Tokens (Info t)))) (Tokens (Info t)))) @
        (if address \<noteq> LpToken t then [LpToken t] else []))"

definition CanSwapFrom :: "PoolSimulator \<Rightarrow> string \<Rightarrow> string list" where
  "CanSwapFrom t address = CanSwapTo t address"

definition GetMetaInfo :: "PoolSimulator \<Rightarrow> string \<Rightarrow> string \<Rightarrow> Meta" where
  "GetMetaInfo t tokenIn tokenOut =
     \<lparr>TokenInIndex = GetTokenIndex t tokenIn, TokenOutIndex = GetTokenIndex t tokenOut,
      PoolLength = int (length (Tokens (Info t))), LpToken_m = LpToken t,
      BlockNumber_m = BlockNumber (Info t)\<rparr>"

end
