(* ===== verification/Saddle_Swaps.thy ===== *)
theory Saddle_Swaps
  imports Saddle
begin

text \<open>
  Lemmas on \<open>Saddle\<close>: the balance solver returns a non-negative balance next to the root of its
  equation, a swap or a withdrawal takes less than the reserve, admin fee included, and the
  reserves and the LP supply stay non-negative over all operations.
\<close>

subsection \<open>The balance solver\<close>

definition close_to :: "int \<Rightarrow> int \<Rightarrow> bool" where
  "close_to y' y = (\<bar>y' - y\<bar> \<le> 1)"

interpretation saddle_stop: newton_stop close_to
  by unfold_locales (auto simp: close_to_def)

lemma saddle_y_loop_newton:
  "y_loop n c b d y = Inr y' \<longleftrightarrow> newton_loop close_to n c (b - d) y = Inr (True, y')"
proof (induction n arbitrary: y)
  case (Suc n)
  have slope: "y * 2 + b - d = 2 * y + (b - d)" by simp
  show ?case
  proof (cases "big_div (y * y + c) (2 * y + (b - d))")
    case (Inr v)
    then show ?thesis
      by (cases "\<bar>v - y\<bar> \<le> 1") (simp_all add: slope Suc close_to_def [of v y])
  qed (simp add: slope)
qed simp

lemma newton_loop_nonneg:
  assumes "floor_root c B r" and "0 \<le> c"
  shows "0 < 2 * y + B \<Longrightarrow> newton_loop stop n c B y = Inr (True, y') \<Longrightarrow> 0 \<le> y'"
proof (induction n arbitrary: y)
  case (Suc n)
  let ?s = "newton_step c B y"
  have step: "(if stop ?s y then Inr (True, ?s) else newton_loop stop n c B ?s) = Inr (True, y')"
    using Suc.prems by (cases "stop ?s y") (simp_all add: newton_step_def)
  note r = floor_rootD [OF assms]
  have ge: "r \<le> ?s"
    by (rule newton_step_ge [OF assms Suc.prems(1)])
  show ?case
  proof (cases "stop ?s y")
    case True
    with step ge r(1) show ?thesis by simp
  next
    case False
    have "2 * ?s + B \<noteq> 0"
    proof
      assume "2 * ?s + B = 0"
      then have "newton_loop stop n c B ?s = Inr (True, y') \<Longrightarrow> False"
        by (cases n) simp_all
      with step False show False by simp
    qed
    then have "0 < 2 * ?s + B"
      using ge r(1,2) by linarith
    with Suc.IH step False show ?thesis by simp
  qed
qed simp

lemma y_loop_nonneg:
  assumes "y_loop n c b d d = Inr y" and "0 \<le> c" and "0 \<le> b" and "0 \<le> d"
  shows "0 \<le> y"
proof -
  have loop: "newton_loop close_to n c (b - d) d = Inr (True, y)"
    using assms(1) by (simp add: saddle_y_loop_newton)
  then have "2 * d + (b - d) \<noteq> 0"
    by (cases n) auto
  with assms have "0 < 2 * d + (b - d)"
    by linarith
  moreover obtain r where "floor_root c (b - d) r"
    using floor_root_exists [OF assms(2)] by blast
  ultimately show ?thesis
    using newton_loop_nonneg [OF _ assms(2) _ loop] by blast
qed

text \<open>The loop ends within one unit of the root.\<close>

lemma newton_loop_near:
  assumes "floor_root c B r" and "0 \<le> c"
  shows "0 < 2 * y + B \<Longrightarrow> newton_loop close_to n c B y = Inr (True, y') \<Longrightarrow> near_root c B y'"
proof (induction n arbitrary: y)
  case (Suc n)
  let ?s = "newton_step c B y"
  have step: "(if close_to ?s y then Inr (True, ?s) else newton_loop close_to n c B ?s) = Inr (True, y')"
    using Suc.prems by (cases "close_to ?s y") (simp_all add: newton_step_def)
  show ?case
  proof (cases "close_to ?s y")
    case True
    with step saddle_stop.stopped_near [OF assms(2) Suc.prems(1)] show ?thesis by simp
  next
    case False
    with step have "2 * ?s + B \<noteq> 0"
      by (cases n) auto
    then have "0 < 2 * ?s + B"
      using newton_step_ge [OF assms Suc.prems(1)] floor_rootD(1,2) [OF assms] by linarith
    with Suc.IH step False show ?thesis by simp
  qed
qed simp

lemma y_loop_near:
  assumes "y_loop n c b d d = Inr y" and "0 \<le> c" and "0 \<le> b" and "0 \<le> d"
  shows "near_root c (b - d) y"
proof -
  have loop: "newton_loop close_to n c (b - d) d = Inr (True, y)"
    using assms(1) by (simp add: saddle_y_loop_newton)
  then have "2 * d + (b - d) \<noteq> 0"
    by (cases n) auto
  with assms have "0 < 2 * d + (b - d)"
    by linarith
  with newton_loop_near [OF _ assms(2) _ loop] floor_root_exists [OF assms(2)] show ?thesis
    by blast
qed

text \<open>A larger constant and a smaller slope move the root up: by the rounding of the loop, the balance
  found is not more than one below the other.\<close>

lemma near_root_mono:
  assumes y: "near_root c B y" and y': "near_root c' B' y'" and "c \<le> c'" and "B' \<le> B" and "0 \<le> c"
  shows "y \<le> y' + 1"
proof (rule ccontr)
  assume "\<not> y \<le> y' + 1"
  define z where "z = y' + 1"
  have z: "1 \<le> z" "z + 1 \<le> y"
    using y' \<open>\<not> y \<le> y' + 1\<close> by (auto simp: z_def near_root_def)
  have "c < z * z + B' * z"
    using y' assms(3) by (simp add: near_root_def z_def)
  also have "\<dots> \<le> z * z + B * z"
    using assms(4) z(1) by (intro add_left_mono mult_right_mono) simp_all
  finally have above: "c + 1 \<le> z * (z + B)"
    by (simp add: algebra_simps)
  then have "0 < z + B"
    using assms(5) z(1) by (smt (verit) mult_nonneg_nonpos)
  then have "0 < (y - z) * (y + z + B)"
    using z by (intro mult_pos_pos) simp_all
  also have "\<dots> = y * y + B * y - z * (z + B)"
    by (simp add: algebra_simps)
  finally show False
    using above y by (simp add: near_root_def)
qed

subsection \<open>The invariant\<close>

lemma saddle_d_p_loop_nonneg:
  "d_p_loop n d dP xs = Inr r \<Longrightarrow> 0 \<le> dP \<Longrightarrow> 0 \<le> d \<Longrightarrow> 0 \<le> n \<Longrightarrow> \<forall>x \<in> set xs. 0 \<le> x \<Longrightarrow> 0 \<le> r"
proof (induction xs arbitrary: dP)
  case (Cons x xs)
  then have "0 \<le> x * n" and "x * n \<noteq> 0"
    by (auto simp: big_div_def)
  with Cons show ?case by auto
qed simp

lemma saddle_d_loop_nonneg:
  assumes "0 \<le> s" and "APrecision \<le> nA" and "\<forall>x \<in> set xp. 0 \<le> x"
  shows "d_loop m xp nA s d = Inr r \<Longrightarrow> 0 \<le> d \<Longrightarrow> 0 \<le> r"
proof (induction m arbitrary: d)
  case (Suc m)
  let ?n = "int (length xp)"
  from Suc.prems(1) obtain dP where dP: "d_p_loop ?n d d xp = Inr dP"
    by (auto simp: bnd_eq_Inr Let_def)
  have nn: "0 \<le> dP"
    using saddle_d_p_loop_nonneg [OF dP] Suc.prems(2) assms(3) by simp
  define num den where "num = (nA * s div APrecision + dP * ?n) * d"
    and "den = (nA - APrecision) * d div APrecision + dP * (?n + 1)"
  have "0 \<le> num" "0 \<le> den"
    using assms Suc.prems(2) nn by (simp_all add: num_def den_def APrecision_def pos_imp_zdiv_nonneg_iff)
  moreover have "d_loop (Suc m) xp nA s d =
      bnd (big_div num den) (\<lambda>d'. if \<bar>d' - d\<bar> \<le> 1 then Inr d' else d_loop m xp nA s d')"
    using dP by (simp add: num_def den_def Let_def)
  ultimately show ?case
    using Suc.prems(1) Suc.IH [of "num div den"] by (cases "den = 0") (auto simp: floor_nonneg_nonneg split: if_splits)
qed simp

lemma getD_nonneg:
  assumes "getD xp (Some a) = Inr d" and "APrecision \<le> a" and "\<forall>x \<in> set xp. 0 \<le> x" and "xp \<noteq> []"
  shows "0 \<le> d"
proof (cases "sum_list xp = 0")
  case True
  with assms(1) show ?thesis by (simp add: getD_def)
next
  case False
  have "a * 1 \<le> a * int (length xp)"
    using assms(2,4) by (intro mult_left_mono) (auto simp: APrecision_def Suc_le_eq)
  then have "APrecision \<le> a * int (length xp)"
    using assms(2) by simp
  moreover have "0 \<le> sum_list xp"
    using assms(3) by (simp add: sum_list_nonneg)
  moreover have "d_loop MaxLoopLimit xp (a * int (length xp)) (sum_list xp) (sum_list xp) = Inr d"
    using assms(1) False by (simp add: getD_def Let_def)
  ultimately show ?thesis
    using saddle_d_loop_nonneg assms(3) by blast
qed

subsection \<open>Coefficients\<close>

lemma saddle_s_c_loop_nonneg:
  "s_c_loop i from to x n d xp s c = Inr (s', c') \<Longrightarrow> 0 \<le> s \<Longrightarrow> 0 \<le> c \<Longrightarrow> 0 \<le> d \<Longrightarrow> 0 < n \<Longrightarrow> 0 \<le> x \<Longrightarrow>
   \<forall>y \<in> set xp. 0 \<le> y \<Longrightarrow> 0 \<le> s' \<and> 0 \<le> c'"
proof (induction xp arbitrary: i s c)
  case (Cons y ys)
  show ?case
  proof (cases "i \<noteq> from \<and> i = to")
    case True
    with Cons show ?thesis by simp
  next
    case False
    define x' where "x' = (if i = from then x else y)"
    have "0 \<le> x'" and "x' \<noteq> 0"
      using Cons.prems False by (auto simp: x'_def Let_def split: if_splits)
    then have "0 < x' * n"
      using Cons.prems(5) by simp
    then have "s_c_loop i from to x n d (y # ys) s c =
        s_c_loop (i + 1) from to x n d ys (s + x') (c * d div (x' * n))"
      using False \<open>x' \<noteq> 0\<close> by (auto simp: Let_def x'_def)
    with Cons \<open>0 < x' * n\<close> \<open>0 \<le> x'\<close> show ?thesis by simp
  qed
qed simp

lemma s_c_loop_yd_nonneg:
  "s_c_loop_yd i k n d xp s c = Inr (s', c') \<Longrightarrow> 0 \<le> s \<Longrightarrow> 0 \<le> c \<Longrightarrow> 0 \<le> d \<Longrightarrow> 0 < n \<Longrightarrow>
   \<forall>y \<in> set xp. 0 \<le> y \<Longrightarrow> 0 \<le> s' \<and> 0 \<le> c'"
proof (induction xp arbitrary: i s c)
  case (Cons y ys)
  show ?case
  proof (cases "i = k")
    case False
    then have "y * n \<noteq> 0"
      using Cons.prems(1) by (auto simp: big_div_def)
    then have "0 < y * n"
      using Cons.prems by (simp add: less_le)
    with Cons False show ?thesis by simp
  qed (use Cons in simp)
qed simp

lemma big_div_nonneg: "big_div x y = Inr z \<Longrightarrow> 0 \<le> x \<Longrightarrow> 0 < y \<Longrightarrow> 0 \<le> z"
  by (auto simp: floor_nonneg_nonneg)

lemma getY_nonneg:
  assumes "getY now tf fA ti iA i j x xp = Inr y" and "getAPrecise now tf fA ti iA = Inr (Some a)"
    and "APrecision \<le> a" and "\<forall>x \<in> set xp. 0 \<le> x" and "xp \<noteq> []" and "0 \<le> x"
  shows "0 \<le> y"
proof -
  let ?n = "int (length xp)"
  from assms(1,2) obtain d s c0 c q where d: "getD xp (Some a) = Inr d"
    and s: "s_c_loop 0 i j x ?n d xp 0 d = Inr (s, c0)"
    and c: "big_div (c0 * d * APrecision) (a * ?n * ?n) = Inr c"
    and q: "big_div (d * APrecision) (a * ?n) = Inr q" and y: "y_loop MaxLoopLimit c (s + q) d d = Inr y"
    by (auto simp: getY_def Let_def bnd_eq_Inr split: if_splits)
  have d0: "0 \<le> d"
    by (rule getD_nonneg [OF d assms(3-5)])
  have n: "0 < ?n" and a: "0 < a"
    using assms(3,5) by (simp_all add: APrecision_def)
  have "0 \<le> s \<and> 0 \<le> c0"
    using saddle_s_c_loop_nonneg [OF s] d0 n assms(4,6) by simp
  moreover have "0 \<le> APrecision"
    by (simp add: APrecision_def)
  ultimately have nn: "0 \<le> c0" "0 \<le> s" "0 \<le> APrecision"
    by simp_all
  have "0 \<le> c"
    by (rule big_div_nonneg [OF c]) (intro mult_nonneg_nonneg mult_pos_pos nn d0 a n)+
  moreover have "0 \<le> q"
    by (rule big_div_nonneg [OF q]) (intro mult_nonneg_nonneg mult_pos_pos nn d0 a n)+
  ultimately have "0 \<le> c" and "0 \<le> s + q"
    using nn(2) by simp_all
  then show ?thesis
    by (rule y_loop_nonneg [OF y _ _ d0])
qed

lemma getYD_nonneg:
  assumes "getYD (Some a) i xp d = Inr y" and "APrecision \<le> a" and "\<forall>x \<in> set xp. 0 \<le> x"
    and "xp \<noteq> []" and "0 \<le> d"
  shows "0 \<le> y"
proof -
  let ?n = "int (length xp)"
  from assms(1) obtain s c0 c q where s: "s_c_loop_yd 0 i ?n d xp 0 d = Inr (s, c0)"
    and c: "big_div (c0 * d * APrecision) (a * ?n * ?n) = Inr c"
    and q: "big_div (d * APrecision) (a * ?n) = Inr q" and y: "y_loop MaxLoopLimit c (s + q) d d = Inr y"
    by (auto simp: getYD_def Let_def bnd_eq_Inr split: if_splits)
  have n: "0 < ?n" and a: "0 < a"
    using assms(2,4) by (simp_all add: APrecision_def)
  have "0 \<le> s \<and> 0 \<le> c0"
    using s_c_loop_yd_nonneg [OF s] n assms(3,5) by simp
  moreover have "0 \<le> APrecision"
    by (simp add: APrecision_def)
  ultimately have nn: "0 \<le> c0" "0 \<le> s" "0 \<le> APrecision"
    by simp_all
  have "0 \<le> c"
    by (rule big_div_nonneg [OF c]) (intro mult_nonneg_nonneg mult_pos_pos nn assms(5) a n)+
  moreover have "0 \<le> q"
    by (rule big_div_nonneg [OF q]) (intro mult_nonneg_nonneg mult_pos_pos nn assms(5) a n)+
  ultimately have "0 \<le> c" and "0 \<le> s + q"
    using nn(2) by simp_all
  then show ?thesis
    by (rule y_loop_nonneg [OF y _ _ assms(5)])
qed

text \<open>The solver for a withdrawal: smaller balances of the other tokens need a larger balance of this one.\<close>

lemma s_c_loop_yd_mono:
  assumes "s_c_loop_yd i k n d xp s c = Inr (s1, c1)" and "s_c_loop_yd i k n d xp' s' c' = Inr (s1', c1')"
    and "length xp' = length xp"
    and "\<And>j. j < length xp \<Longrightarrow> i + int j \<noteq> k \<Longrightarrow> 0 \<le> xp' ! j \<and> xp' ! j \<le> xp ! j"
    and "s' \<le> s" and "c \<le> c'" and "0 \<le> c" and "0 \<le> d" and "0 < n"
  shows "s1' \<le> s1 \<and> c1 \<le> c1'"
  using assms
proof (induction xp arbitrary: i xp' s s' c c')
  case (Cons x xs)
  obtain x' xs' where xp': "xp' = x' # xs'" "length xs' = length xs"
    using Cons.prems(3) by (cases xp') auto
  have tl: "0 \<le> xs' ! j \<and> xs' ! j \<le> xs ! j" if "j < length xs" "(i + 1) + int j \<noteq> k" for j
    using Cons.prems(4) [of "Suc j"] that by (simp add: xp')
  show ?case
  proof (cases "i = k")
    case True
    then show ?thesis
      using Cons.prems tl by (intro Cons.IH [of "i + 1" s c xs' s' c']) (simp_all add: xp')
  next
    case False
    then have x: "0 \<le> x'" "x' \<le> x"
      using Cons.prems(4) [of 0] by (simp_all add: xp')
    have "x' * n \<noteq> 0"
      using Cons.prems(2) False by (auto simp: xp' big_div_def)
    then have pos: "0 < x' * n" "x' * n \<le> x * n" "0 < x * n"
      using x Cons.prems(9) by (auto simp: less_le)
    have "c * d div (x * n) \<le> c' * d div (x * n)"
      using Cons.prems(6,8) pos by (intro zdiv_mono1 mult_right_mono) simp_all
    also have "\<dots> \<le> c' * d div (x' * n)"
      using Cons.prems(6-8) pos by (intro zdiv_mono2) simp_all
    finally have le: "c * d div (x * n) \<le> c' * d div (x' * n)" .
    have "0 \<le> c * d div (x * n)"
      using Cons.prems(7,8) pos by (simp add: pos_imp_zdiv_nonneg_iff)
    then show ?thesis
      using Cons.prems(1,2,5,8,9) False pos x le tl xp'(2)
      by (intro Cons.IH [of "i + 1" "s + x" "c * d div (x * n)" xs' "s' + x'" "c' * d div (x' * n)"])
        (simp_all add: xp'(1))
  qed
qed simp

lemma getYD_Inr:
  assumes "getYD (Some a) i xp d = Inr y"
  obtains s c0 c q where "s_c_loop_yd 0 i (int (length xp)) d xp 0 d = Inr (s, c0)"
    "big_div (c0 * d * APrecision) (a * int (length xp) * int (length xp)) = Inr c"
    "big_div (d * APrecision) (a * int (length xp)) = Inr q" "y_loop MaxLoopLimit c (s + q) d d = Inr y"
  using assms by (auto simp: getYD_def Let_def bnd_eq_Inr split: if_splits)

lemma getYD_mono:
  assumes y: "getYD (Some a) i xp d = Inr y" and y': "getYD (Some a) i xp' d = Inr y'" and "APrecision \<le> a"
    and "\<forall>x \<in> set xp. 0 \<le> x" and "xp \<noteq> []" and "0 \<le> d" and len: "length xp' = length xp"
    and xp': "\<forall>x \<in> set xp'. 0 \<le> x" and le: "\<And>j. j < length xp \<Longrightarrow> int j \<noteq> i \<Longrightarrow> xp' ! j \<le> xp ! j"
  shows "y \<le> y' + 1"
proof -
  let ?n = "int (length xp)"
  have n: "0 < ?n" and a: "0 < a" and ap: "0 \<le> APrecision"
    using assms(3,5) by (simp_all add: APrecision_def)
  obtain s c0 c q where s: "s_c_loop_yd 0 i ?n d xp 0 d = Inr (s, c0)"
    and c: "big_div (c0 * d * APrecision) (a * ?n * ?n) = Inr c"
    and q: "big_div (d * APrecision) (a * ?n) = Inr q" and l: "y_loop MaxLoopLimit c (s + q) d d = Inr y"
    using y by (rule getYD_Inr)
  obtain s' c0' c' where s': "s_c_loop_yd 0 i ?n d xp' 0 d = Inr (s', c0')"
    and c': "big_div (c0' * d * APrecision) (a * ?n * ?n) = Inr c'"
    and l': "y_loop MaxLoopLimit c' (s' + q) d d = Inr y'"
    using getYD_Inr [OF y'] q unfolding len by (metis sum.inject(2))
  have nn: "0 \<le> s" "0 \<le> c0" "0 \<le> s'"
    using s_c_loop_yd_nonneg [OF s] s_c_loop_yd_nonneg [OF s'] n assms(4,6) xp' by simp_all
  have mono: "s' \<le> s \<and> c0 \<le> c0'"
    by (rule s_c_loop_yd_mono [OF s s' len]) (use le n assms(6) xp' len in auto)
  have pos: "0 < a * ?n * ?n"
    using a n by simp
  have "0 \<le> c"
    by (rule big_div_nonneg [OF c]) (intro mult_nonneg_nonneg nn assms(6) ap pos)+
  moreover have "c \<le> c'"
    using c c' pos mono assms(6) ap by (auto intro!: zdiv_mono1 mult_right_mono)
  moreover have "0 \<le> q"
    by (rule big_div_nonneg [OF q]) (intro mult_nonneg_nonneg mult_pos_pos assms(6) ap a n)+
  ultimately show ?thesis
    using near_root_mono [OF y_loop_near [OF l _ _ assms(6)] y_loop_near [OF l' _ _ assms(6)]] mono nn by simp
qed

subsection \<open>Well-formed pools\<close>

text \<open>One non-negative reserve and one positive multiplier per token, distinct tokens, fees between 0 and 1,
  an amplification of at least one and a non-negative LP supply of a token that is not pooled.\<close>

definition fraction :: "bigint \<Rightarrow> bool" where
  "fraction f = (case f of None \<Rightarrow> False | Some x \<Rightarrow> 0 \<le> x \<and> x \<le> FeeDenominator)"

definition wf :: "int \<Rightarrow> PoolSimulator \<Rightarrow> bool" where
  "wf now t =
     (length (Reserves (Info t)) = length (Tokens (Info t)) \<and>
      distinct (Tokens (Info t)) \<and> LpToken t \<notin> set (Tokens (Info t)) \<and>
      list_all (\<lambda>r. case r of None \<Rightarrow> False | Some x \<Rightarrow> 0 \<le> x) (Reserves (Info t)) \<and>
      list_all (\<lambda>m. case m of None \<Rightarrow> False | Some x \<Rightarrow> 0 < x) (Multipliers t) \<and>
      fraction (SwapFee (Info t)) \<and> fraction (AdminFee t) \<and> fraction (DefaultWithdrawFee t) \<and>
      (case LpSupply t of None \<Rightarrow> False | Some s \<Rightarrow> 0 \<le> s) \<and>
      (case getAPrecise now (FutureATime t) (FutureA t) (InitialATime t) (InitialA t) of
         Inr (Some a) \<Rightarrow> APrecision \<le> a | _ \<Rightarrow> False))"

lemma wf_A:
  assumes "wf now t"
  obtains a where "getAPrecise now (FutureATime t) (FutureA t) (InitialATime t) (InitialA t) = Inr (Some a)"
    "APrecision \<le> a"
  using assms by (auto simp: wf_def split: sum.splits option.splits)

lemma go_map_nth: "go_map f xs = Inr ys \<Longrightarrow> k < length xs \<Longrightarrow> f (xs ! k) = Inr (ys ! k)"
proof (induction xs arbitrary: ys k)
  case (Cons x xs)
  then show ?case by (cases k) (auto simp: bnd_eq_Inr)
qed simp

lemma xp_of_Inr:
  assumes "xp_of balances ms = Inr xp"
  shows "length xp = length balances \<and> length ms = length balances \<and>
    (\<forall>k < length xp. \<exists>b m. balances ! k = Some b \<and> ms ! k = Some m \<and> xp ! k = b * m)"
proof -
  have map: "go_map (\<lambda>i. bnd (big_at balances i) (\<lambda>b. bnd (big_at ms i) (\<lambda>m. Inr (b * m))))
      (range_n (length balances)) = Inr xp" and len: "length ms = length balances"
    using assms by (auto simp: xp_of_def split: if_splits)
  have "length xp = length balances"
    using go_map_length [OF map] by simp
  moreover have "\<exists>b m. balances ! k = Some b \<and> ms ! k = Some m \<and> xp ! k = b * m" if "k < length balances" for k
    using go_map_nth [OF map, of k] that by (auto simp: go_simps)
  ultimately show ?thesis
    using len by simp
qed

lemma wf_xp:
  assumes "wf now t" and "xp_of (Reserves (Info t)) (Multipliers t) = Inr xp"
  shows "length xp = length (Tokens (Info t))" and "\<forall>x \<in> set xp. 0 \<le> x"
    and "\<And>k. k < length xp \<Longrightarrow> \<exists>r m. Reserves (Info t) ! k = Some r \<and> Multipliers t ! k = Some m \<and>
      0 \<le> r \<and> 0 < m \<and> xp ! k = r * m"
proof -
  note xp = xp_of_Inr [OF assms(2)]
  show "length xp = length (Tokens (Info t))"
    using xp assms(1) by (simp add: wf_def)
  have pos: "\<exists>r m. Reserves (Info t) ! k = Some r \<and> Multipliers t ! k = Some m \<and>
      0 \<le> r \<and> 0 < m \<and> xp ! k = r * m" if "k < length xp" for k
  proof -
    obtain r m where "Reserves (Info t) ! k = Some r" "Multipliers t ! k = Some m" "xp ! k = r * m"
      using xp \<open>k < length xp\<close> by blast
    moreover have "case Reserves (Info t) ! k of None \<Rightarrow> False | Some x \<Rightarrow> 0 \<le> x"
      and "case Multipliers t ! k of None \<Rightarrow> False | Some x \<Rightarrow> 0 < x"
      using assms(1) xp \<open>k < length xp\<close> by (auto simp: wf_def list_all_length)
    ultimately show ?thesis by auto
  qed
  then show "\<And>k. k < length xp \<Longrightarrow> \<exists>r m. Reserves (Info t) ! k = Some r \<and> Multipliers t ! k = Some m \<and>
      0 \<le> r \<and> 0 < m \<and> xp ! k = r * m" .
  show "\<forall>x \<in> set xp. 0 \<le> x"
  proof
    fix x assume "x \<in> set xp"
    then obtain k where "k < length xp" "x = xp ! k"
      by (auto simp: in_set_conv_nth)
    with pos [of k] show "0 \<le> x" by auto
  qed
qed

subsection \<open>Swaps\<close>

lemma saddle_FeeDenominator_pos [simp]: "0 < FeeDenominator"
  by (simp add: FeeDenominator_def)

lemma cut_le: "0 \<le> x \<Longrightarrow> f \<le> FeeDenominator \<Longrightarrow> x * f div FeeDenominator \<le> x"
  using zdiv_mono1 [of "x * f" "x * FeeDenominator" FeeDenominator] mult_left_mono [of f FeeDenominator x]
  by (simp add: FeeDenominator_def)

lemma cut_nonneg: "0 \<le> x \<Longrightarrow> 0 \<le> f \<Longrightarrow> 0 \<le> x * f div FeeDenominator"
  by (simp add: FeeDenominator_def)

text \<open>Less the swap fee, plus the admin part of the fee on what is left: no more than before.\<close>

lemma admin_cut:
  assumes "0 \<le> dy" and "0 < m" and "dy * m \<le> d - d * f div FeeDenominator" and "0 \<le> d"
    and "0 \<le> f" and "f \<le> FeeDenominator" and "af \<le> FeeDenominator"
  shows "(dy + (dy * f div FeeDenominator) * af div FeeDenominator) * m \<le> d"
    and "m * (dy * f div FeeDenominator) \<le> d * f div FeeDenominator"
proof -
  let ?cut = "dy * f div FeeDenominator"
  have fee: "0 \<le> d * f div FeeDenominator"
    using assms by (intro cut_nonneg)
  have "?cut * FeeDenominator \<le> dy * f"
    by (rule floor_le) simp
  then have "m * (?cut * FeeDenominator) \<le> m * (dy * f)"
    using assms(2) by (intro mult_left_mono) simp_all
  also have "\<dots> = (dy * m) * f"
    by simp
  also have "\<dots> \<le> d * f"
    using assms(3,5) fee by (intro mult_right_mono) linarith+
  finally have "(m * ?cut) * FeeDenominator \<le> d * f"
    by (simp add: mult.assoc)
  then show cut: "m * ?cut \<le> d * f div FeeDenominator"
    by (intro floor_geI) simp_all
  have "?cut * af div FeeDenominator \<le> ?cut"
    using assms by (intro cut_le cut_nonneg)
  then have "(dy + ?cut * af div FeeDenominator) * m \<le> (dy + ?cut) * m"
    using assms(2) by (intro mult_right_mono) simp_all
  also have "\<dots> = dy * m + m * ?cut"
    by (simp add: algebra_simps)
  also have "\<dots> \<le> d"
    using assms(3) cut by linarith
  finally show "(dy + ?cut * af div FeeDenominator) * m \<le> d" .
qed

lemma positive_before_fee:
  assumes "0 < d - d * f div FeeDenominator" and "0 \<le> f" and "f \<le> FeeDenominator"
  shows "0 \<le> d"
proof (rule ccontr)
  assume "\<not> 0 \<le> d"
  then have "d * FeeDenominator \<le> d * f"
    using assms(3) by (intro mult_left_mono_neg) simp_all
  then have "d \<le> d * f div FeeDenominator"
    by (intro floor_geI) simp_all
  with assms(1) show False by simp
qed

lemma calculateSwap_Inr:
  assumes "calculateSwap now bs ms tf fA ti iA sf i j (Some dx) = Inr (dy, fee)"
  obtains xp y f mi mj d where "xp_of bs ms = Inr xp" "0 \<le> i" "i < int (length xp)" "0 \<le> j" "j < int (length xp)"
    "ms ! nat i = Some mi" "ms ! nat j = Some mj" "sf = Some f"
    "getY now tf fA ti iA i j (dx * mi + xp ! nat i) xp = Inr y"
    "d = xp ! nat j - y - 1" "fee = d * f div FeeDenominator" "big_div (d - fee) mj = Inr dy"
  using assms unfolding calculateSwap_def Let_def by (auto simp: go_simps)

text \<open>What a swap quote says: its fee is counted in pool precision, and the output with the admin fee that
  \<open>UpdateBalance\<close> adds is below the reserve.\<close>

lemma swap_covered:
  assumes "wf now t" and "0 \<le> dx" and "0 < dy"
    and "calculateSwap now (Reserves (Info t)) (Multipliers t) (FutureATime t) (FutureA t) (InitialATime t)
      (InitialA t) (SwapFee (Info t)) i j (Some dx) = Inr (dy, fee)"
  obtains f af r m where "SwapFee (Info t) = Some f" "AdminFee t = Some af" "Reserves (Info t) ! nat j = Some r"
    "Multipliers t ! nat j = Some m" "0 \<le> f" "0 \<le> af" "0 < m"
    "dy + (dy * f div FeeDenominator) * af div FeeDenominator < r"
    "m * (dy * f div FeeDenominator) \<le> fee"
proof -
  obtain xp y f mi mj d where *: "xp_of (Reserves (Info t)) (Multipliers t) = Inr xp" "0 \<le> i"
    "i < int (length xp)" "0 \<le> j" "j < int (length xp)"
    "Multipliers t ! nat i = Some mi" "Multipliers t ! nat j = Some mj" "SwapFee (Info t) = Some f"
    "getY now (FutureATime t) (FutureA t) (InitialATime t) (InitialA t) i j (dx * mi + xp ! nat i) xp = Inr y"
    "d = xp ! nat j - y - 1" "fee = d * f div FeeDenominator" "big_div (d - fee) mj = Inr dy"
    using assms(4) by (rule calculateSwap_Inr)
  note xp = wf_xp [OF assms(1) *(1)]
  have ij: "nat i < length xp" "nat j < length xp"
    using *(2-5) by (simp_all add: nat_less_iff)
  obtain ri where ri: "0 \<le> ri" "xp ! nat i = ri * mi" "0 < mi"
    using xp(3) [OF ij(1)] *(6) by auto
  obtain r where r: "Reserves (Info t) ! nat j = Some r" "xp ! nat j = r * mj" "0 < mj"
    using xp(3) [OF ij(2)] *(7) by auto
  have f: "0 \<le> f" "f \<le> FeeDenominator"
    using assms(1) *(8) by (auto simp: wf_def fraction_def)
  obtain af where af: "AdminFee t = Some af" "0 \<le> af" "af \<le> FeeDenominator"
    using assms(1) by (auto simp: wf_def fraction_def split: option.splits)
  obtain a where a: "getAPrecise now (FutureATime t) (FutureA t) (InitialATime t) (InitialA t) = Inr (Some a)"
    "APrecision \<le> a"
    using assms(1) by (rule wf_A)
  have "xp \<noteq> []"
    using ij by auto
  then have y: "0 \<le> y"
    using getY_nonneg [OF *(9) a xp(2)] assms(2) ri by simp
  have dy: "dy * mj \<le> d - d * f div FeeDenominator"
    using *(11,12) r(3) floor_le [OF r(3), of "d - fee"] by simp
  moreover have "0 < dy * mj"
    using assms(3) r(3) by simp
  ultimately have "0 < d - d * f div FeeDenominator"
    by linarith
  then have "0 \<le> d"
    by (rule positive_before_fee [OF _ f])
  note cut = admin_cut [OF less_imp_le [OF assms(3)] r(3) dy this f af(3)]
  have "d < r * mj"
    using y *(10) r(2) by simp
  with cut(1) have "(dy + (dy * f div FeeDenominator) * af div FeeDenominator) * mj < r * mj"
    by linarith
  then have "dy + (dy * f div FeeDenominator) * af div FeeDenominator < r"
    using r(3) by (simp add: mult_less_cancel_right)
  with that *(7,8,11) af(1,2) f(1) r(1,3) cut(2) show thesis
    by blast
qed

lemma quote_swap:
  assumes "CalcAmountOut now t q = Inr r" and "Token (TokenAmountIn q) \<noteq> LpToken t" and "TokenOut q \<noteq> LpToken t"
  obtains dy fee where "0 \<le> GetTokenIndex t (Token (TokenAmountIn q))" "0 \<le> GetTokenIndex t (TokenOut q)"
    "calculateSwap now (Reserves (Info t)) (Multipliers t) (FutureATime t) (FutureA t) (InitialATime t)
      (InitialA t) (SwapFee (Info t)) (GetTokenIndex t (Token (TokenAmountIn q))) (GetTokenIndex t (TokenOut q))
      (Amount (TokenAmountIn q)) = Inr (dy, fee)" "0 < dy" "r = result (TokenOut q) dy fee (Swap_g (gas t))"
  using assms by (auto simp: CalcAmountOut_def CalculateSwap_def GetTokenIndex_def Let_def go_simps split: if_splits)

lemma settle_swap:
  assumes "Token (TokenAmountIn q) \<noteq> LpToken t" and "TokenOut q \<noteq> LpToken t"
    and "SwapFee (Info t) = Some f" and "AdminFee t = Some af"
  shows "settle t (update_params q (result (TokenOut q) dy fee g))
    = Inr (dy + (dy * f div FeeDenominator) * af div FeeDenominator, LpSupply t)"
  using assms by (simp add: settle_def result_def update_params_def)

lemma reserve_of_nth:
  assumes "Reserves (Info t) ! nat (GetTokenIndex t u) = Some r"
  shows "reserve_of t u = r"
  using assms by (simp add: reserve_of_def)

text \<open>A swap quote of a well-formed pool pays a positive amount, and what \<open>UpdateBalance\<close> takes out of
  the pool for it, the admin part of the fee included, is less than the reserve.\<close>

theorem saddle_swap_covered:
  assumes "wf now t" and "Amount (TokenAmountIn q) = Some a" and "0 < a"
    and "Token (TokenAmountIn q) \<noteq> LpToken t" and "TokenOut q \<noteq> LpToken t" and "CalcAmountOut now t q = Inr r"
  shows "\<exists>dy out. TokenAmountOut r = Some (token_amount (TokenOut q) (Some dy)) \<and> 0 < dy \<and>
    settle t (update_params q r) = Inr (out, LpSupply t) \<and> dy \<le> out \<and> out < reserve_of t (TokenOut q)"
proof -
  obtain dy fee where dy: "calculateSwap now (Reserves (Info t)) (Multipliers t) (FutureATime t) (FutureA t)
      (InitialATime t) (InitialA t) (SwapFee (Info t)) (GetTokenIndex t (Token (TokenAmountIn q)))
      (GetTokenIndex t (TokenOut q)) (Some a) = Inr (dy, fee)" "0 < dy" "r = result (TokenOut q) dy fee (Swap_g (gas t))"
    using quote_swap [OF assms(6,4,5)] assms(2) by metis
  obtain f af rj m where c: "SwapFee (Info t) = Some f" "AdminFee t = Some af"
    "Reserves (Info t) ! nat (GetTokenIndex t (TokenOut q)) = Some rj" "0 \<le> f" "0 \<le> af"
    "dy + (dy * f div FeeDenominator) * af div FeeDenominator < rj"
    using swap_covered [OF assms(1) less_imp_le [OF assms(3)] dy(2,1)] by metis
  let ?out = "dy + (dy * f div FeeDenominator) * af div FeeDenominator"
  have "dy \<le> ?out"
    using dy(2) c(4,5) by (simp add: cut_nonneg)
  moreover have "settle t (update_params q r) = Inr (?out, LpSupply t)"
    using settle_swap [OF assms(4,5) c(1,2)] dy(3) by simp
  moreover have "TokenAmountOut r = Some (token_amount (TokenOut q) (Some dy))"
    by (simp add: dy(3) result_def)
  ultimately show ?thesis
    using dy(2) c(6) reserve_of_nth [OF c(3)] by blast
qed

text \<open>The fee a swap reports is counted in pool precision: it is at least the multiplier of the bought token
  times the fee in the units of that token.\<close>

lemma swap_fee_precision:
  assumes "wf now t" and "Amount (TokenAmountIn q) = Some a" and "0 < a"
    and "Token (TokenAmountIn q) \<noteq> LpToken t" and "TokenOut q \<noteq> LpToken t" and "CalcAmountOut now t q = Inr r"
  shows "\<exists>dy fee f m. TokenAmountOut r = Some (token_amount (TokenOut q) (Some dy)) \<and>
    Fee r = Some (token_amount (TokenOut q) (Some fee)) \<and> SwapFee (Info t) = Some f \<and>
    Multipliers t ! nat (GetTokenIndex t (TokenOut q)) = Some m \<and> m * (dy * f div FeeDenominator) \<le> fee"
proof -
  obtain dy fee where dy: "calculateSwap now (Reserves (Info t)) (Multipliers t) (FutureATime t) (FutureA t)
      (InitialATime t) (InitialA t) (SwapFee (Info t)) (GetTokenIndex t (Token (TokenAmountIn q)))
      (GetTokenIndex t (TokenOut q)) (Some a) = Inr (dy, fee)" "0 < dy" "r = result (TokenOut q) dy fee (Swap_g (gas t))"
    using quote_swap [OF assms(6,4,5)] assms(2) by metis
  obtain f m where c: "SwapFee (Info t) = Some f"
    "Multipliers t ! nat (GetTokenIndex t (TokenOut q)) = Some m" "m * (dy * f div FeeDenominator) \<le> fee"
    using swap_covered [OF assms(1) less_imp_le [OF assms(3)] dy(2,1)] by metis
  have "TokenAmountOut r = Some (token_amount (TokenOut q) (Some dy))"
    and "Fee r = Some (token_amount (TokenOut q) (Some fee))"
    by (simp_all add: dy(3) result_def)
  with c show ?thesis by blast
qed

subsection \<open>Withdrawals\<close>

lemma feePerToken_bounds:
  assumes "feePerToken sf n = Inr p" and "fraction sf" and "1 \<le> n"
  shows "0 \<le> p \<and> p \<le> FeeDenominator"
proof -
  obtain f where f: "sf = Some f" "0 \<le> f" "f \<le> FeeDenominator"
    using assms(2) by (auto simp: fraction_def split: option.splits)
  then have n: "2 \<le> n"
    using assms(1,3) by (cases "n = 1") (auto simp: feePerToken_def big_div_def)
  have p: "p = f * n div ((n - 1) * 4)"
    using assms(1) f(1) n by (simp add: feePerToken_def)
  have "f * n \<le> f * ((n - 1) * 4)"
    using f n by (intro mult_left_mono) simp_all
  then have "p \<le> f * ((n - 1) * 4) div ((n - 1) * 4)"
    unfolding p using n by (intro zdiv_mono1) simp_all
  then show ?thesis
    using f n by (simp add: p pos_imp_zdiv_nonneg_iff)
qed

text \<open>The balances reduced by the fee on their share of a withdrawal.\<close>

definition reduced :: "int list \<Rightarrow> int \<Rightarrow> int \<Rightarrow> int \<Rightarrow> int \<Rightarrow> int \<Rightarrow> int \<Rightarrow> int" where
  "reduced xp d0 d1 newY p i j =
     (let x = xp ! nat j; part = x * d1 div d0; norm = (if j = i then part - newY else x - part)
      in x - norm * p div FeeDenominator)"

lemma calculateWithdrawOneTokenDy_Inr:
  assumes "calculateWithdrawOneTokenDy now bs ms tf fA ti iA sf ls i (Some am) = Inr (dy, newY)"
  obtains xp a d0 lpTotal share p xr yd m where "xp_of bs ms = Inr xp" "getAPrecise now tf fA ti iA = Inr a"
    "getD xp a = Inr d0" "ls = Some lpTotal" "big_div (am * d0) lpTotal = Inr share" "0 \<le> i" "i < int (length xp)"
    "getYD a i xp (d0 - share) = Inr newY" "feePerToken sf (int (length xp)) = Inr p" "d0 \<noteq> 0"
    "0 < d0 \<longrightarrow> xr = map (reduced xp d0 (d0 - share) newY p i) (range_n (length xp))"
    "getYD a i xr (d0 - share) = Inr yd" "ms ! nat i = Some m" "big_div (xr ! nat i - yd - 1) m = Inr dy"
proof -
  obtain xp a d0 lpTotal share p xr yd m where *: "xp_of bs ms = Inr xp" "getAPrecise now tf fA ti iA = Inr a"
    "getD xp a = Inr d0" "ls = Some lpTotal" "big_div (am * d0) lpTotal = Inr share" "0 \<le> i" "i < int (length xp)"
    "getYD a i xp (d0 - share) = Inr newY" "feePerToken sf (int (length bs)) = Inr p"
    and map: "go_map (\<lambda>j. bnd (idx xp j) (\<lambda>x. bnd (big_div (x * (d0 - share)) d0) (\<lambda>part.
                 let norm = (if j = i then part - newY else x - part) in
                 Inr (x - norm * p div FeeDenominator)))) (range_n (length bs)) = Inr xr"
    and yd: "getYD a i xr (d0 - share) = Inr yd" "ms ! nat i = Some m" "big_div (xr ! nat i - yd - 1) m = Inr dy"
    using assms unfolding calculateWithdrawOneTokenDy_def Let_def by (auto simp: go_simps split: if_splits)
  have len: "length bs = length xp"
    using xp_of_Inr [OF *(1)] by simp
  have lr: "length xr = length xp"
    using go_map_length [OF map] len by simp
  have "0 < length xp"
    using *(6,7) by linarith
  then have d0: "d0 \<noteq> 0"
    using go_map_nth [OF map, of 0] len by (auto simp: go_simps Let_def)
  have "xr ! k = reduced xp d0 (d0 - share) newY p i (int k)" if "0 < d0" "k < length xp" for k
    using go_map_nth [OF map, of k] that len by (auto simp: go_simps Let_def reduced_def)
  then have "0 < d0 \<longrightarrow> xr = map (reduced xp d0 (d0 - share) newY p i) (range_n (length xp))"
    using lr by (intro impI nth_equalityI) simp_all
  with that * d0 yd len show thesis by metis
qed

lemma reduced_bounds:
  assumes "0 < d0" and "0 \<le> d1" and "d1 \<le> d0" and "0 \<le> p" and "p \<le> FeeDenominator" and "0 \<le> xp ! nat j" and "0 \<le> newY"
  shows "0 \<le> reduced xp d0 d1 newY p i j" and "j \<noteq> i \<Longrightarrow> reduced xp d0 d1 newY p i j \<le> xp ! nat j"
    and "reduced xp d0 d1 newY p j j \<le> xp ! nat j + newY"
proof -
  define x part where "x = xp ! nat j" and "part = x * d1 div d0"
  have "x * d1 \<le> x * d0"
    using assms by (intro mult_left_mono) (simp_all add: x_def)
  then have part: "0 \<le> part" "part \<le> x"
    using assms zdiv_mono1 [of "x * d1" "x * d0" d0] by (simp_all add: part_def x_def pos_imp_zdiv_nonneg_iff)
  have up: "norm * p div FeeDenominator \<le> x" if "norm \<le> x" for norm
  proof -
    have "norm * p \<le> x * p"
      using that assms(4) by (rule mult_right_mono)
    then have "norm * p div FeeDenominator \<le> x * p div FeeDenominator"
      by (rule zdiv_mono1) simp
    with cut_le [of x p] assms(5,6) show ?thesis by (simp add: x_def)
  qed
  show "0 \<le> reduced xp d0 d1 newY p i j"
    using up [of "part - newY"] up [of "x - part"] part assms(7)
    by (auto simp: reduced_def Let_def x_def [symmetric] part_def [symmetric])
  show "reduced xp d0 d1 newY p i j \<le> xp ! nat j" if "j \<noteq> i"
    using that cut_nonneg [of "x - part" p] part assms(4)
    by (simp add: reduced_def Let_def x_def [symmetric] part_def [symmetric])
  have "- newY * FeeDenominator \<le> - newY * p"
    using assms(5,7) by (intro mult_left_mono_neg) simp_all
  also have "\<dots> \<le> (part - newY) * p"
    using assms(4) part by (intro mult_right_mono) simp_all
  finally have "- newY \<le> (part - newY) * p div FeeDenominator"
    by (intro floor_geI) simp_all
  then show "reduced xp d0 d1 newY p j j \<le> xp ! nat j + newY"
    by (simp add: reduced_def Let_def x_def [symmetric] part_def [symmetric])
qed

text \<open>A withdrawal of no more than the LP supply pays at most the reserve before its own fee.\<close>

lemma withdraw_dy:
  assumes wf: "wf now t" and am: "0 \<le> am" "am \<le> lpTotal" and "LpSupply t = Some lpTotal"
    and dy: "calculateWithdrawOneTokenDy now (Reserves (Info t)) (Multipliers t) (FutureATime t) (FutureA t)
      (InitialATime t) (InitialA t) (SwapFee (Info t)) (LpSupply t) i (Some am) = Inr (dy, newY)"
  obtains r m xp where "xp_of (Reserves (Info t)) (Multipliers t) = Inr xp" "Reserves (Info t) ! nat i = Some r"
    "Multipliers t ! nat i = Some m" "0 < m" "xp ! nat i = r * m" "0 \<le> newY" "dy \<le> r"
proof -
  obtain xp a d0 lp share p xr yd m where *: "xp_of (Reserves (Info t)) (Multipliers t) = Inr xp"
    "getAPrecise now (FutureATime t) (FutureA t) (InitialATime t) (InitialA t) = Inr a"
    "getD xp a = Inr d0" and lp': "LpSupply t = Some lp" and **: "big_div (am * d0) lp = Inr share" "0 \<le> i" "i < int (length xp)"
    "getYD a i xp (d0 - share) = Inr newY" "feePerToken (SwapFee (Info t)) (int (length xp)) = Inr p" "d0 \<noteq> 0"
    and xr': "0 < d0 \<longrightarrow> xr = map (reduced xp d0 (d0 - share) newY p i) (range_n (length xp))"
    and yd: "getYD a i xr (d0 - share) = Inr yd" "Multipliers t ! nat i = Some m" "big_div (xr ! nat i - yd - 1) m = Inr dy"
    using dy by (rule calculateWithdrawOneTokenDy_Inr)
  have "lp = lpTotal"
    using lp' assms(4) by simp
  note * = *(1-3) ** [unfolded this]
  obtain a' where a: "a = Some a'" "APrecision \<le> a'"
    using wf_A [OF wf] *(2) by (metis sum.inject(2))
  note xp = wf_xp [OF wf *(1)]
  have i: "nat i < length xp"
    using *(5,6) by (simp add: nat_less_iff)
  then have ne: "xp \<noteq> []" by auto
  have d0: "0 < d0"
    using getD_nonneg [OF *(3) [unfolded a(1)] a(2) xp(2) ne] *(9) by simp
  have xr: "xr = map (reduced xp d0 (d0 - share) newY p i) (range_n (length xp))"
    using xr' d0 by simp
  have lp: "0 < lpTotal"
    using *(4) am by (cases "lpTotal = 0") (auto simp: big_div_def)
  then have share: "share = am * d0 div lpTotal"
    using *(4) by simp
  have "0 \<le> share" "share \<le> d0"
    unfolding share using zdiv_mono1 [OF mult_right_mono [OF am(2)] lp, of d0] d0 am(1) lp
    by (simp_all add: pos_imp_zdiv_nonneg_iff)
  then have d1: "0 \<le> d0 - share" "d0 - share \<le> d0" by simp_all
  have newY: "0 \<le> newY"
    using getYD_nonneg [OF *(7) [unfolded a(1)] a(2) xp(2) ne d1(1)] .
  have "fraction (SwapFee (Info t))"
    using wf by (simp add: wf_def)
  then have p: "0 \<le> p" "p \<le> FeeDenominator"
    using feePerToken_bounds [OF *(8)] ne by (simp_all add: Suc_le_eq)
  have red: "0 \<le> reduced xp d0 (d0 - share) newY p i (int j)" if "j < length xp" for j
    using reduced_bounds(1) [OF d0 d1 p _ newY] xp(2) that by simp
  have xr_nth: "xr ! j = reduced xp d0 (d0 - share) newY p i (int j)" if "j < length xp" for j
    using that by (simp add: xr)
  have "xr ! j \<le> xp ! j" if "j < length xp" "int j \<noteq> i" for j
    using reduced_bounds(2) [OF d0 d1 p _ newY that(2)] xp(2) that by (simp add: xr_nth)
  moreover have pos: "\<forall>x \<in> set xr. 0 \<le> x" "length xr = length xp"
    using red by (auto simp: xr range_n_def)
  ultimately have near: "newY \<le> yd + 1"
    using getYD_mono [OF *(7) [unfolded a(1)] yd(1) [unfolded a(1)] a(2) xp(2) ne d1(1)] by blast
  obtain r where r: "Reserves (Info t) ! nat i = Some r" "0 < m" "xp ! nat i = r * m"
    using xp(3) [OF i] yd(2) by auto
  have "xr ! nat i \<le> r * m + newY"
    using reduced_bounds(3) [OF d0 d1 p _ newY, of xp i] bspec [OF xp(2) nth_mem [OF i]] i *(5) r(3)
    by (simp add: xr_nth)
  then have "xr ! nat i - yd - 1 \<le> r * m"
    using near by simp
  then have "dy \<le> r"
    using yd(3) r(2) zdiv_mono1 [of "xr ! nat i - yd - 1" "r * m" m] by simp
  with that *(1) r yd(2) newY show thesis by blast
qed

text \<open>A withdrawal of no more than the LP supply takes no more than the reserve, whatever the sign of the
  fee it reports.\<close>

lemma withdraw_covered:
  assumes "wf now t" and "0 \<le> am" and "0 < out" and "LpSupply t = Some lpTotal" and "am \<le> lpTotal"
    and "calculateWithdrawOneToken now (Reserves (Info t)) (Multipliers t) (FutureATime t) (FutureA t)
      (InitialATime t) (InitialA t) (SwapFee (Info t)) (DefaultWithdrawFee t) (LpSupply t) i (Some am) = Inr (out, fee)"
  obtains af r where "AdminFee t = Some af" "Reserves (Info t) ! nat i = Some r"
    "out + fee * af div FeeDenominator \<le> r"
proof -
  obtain dy newY xp m q w where *: "calculateWithdrawOneTokenDy now (Reserves (Info t)) (Multipliers t) (FutureATime t)
      (FutureA t) (InitialATime t) (InitialA t) (SwapFee (Info t)) (LpSupply t) i (Some am) = Inr (dy, newY)"
    "xp_of (Reserves (Info t)) (Multipliers t) = Inr xp" "0 \<le> i" "i < int (length xp)" "Multipliers t ! nat i = Some m"
    "big_div (xp ! nat i - newY) m = Inr q" "DefaultWithdrawFee t = Some w"
    "out = dy * (FeeDenominator - w) div FeeDenominator" "fee = q - dy"
    using assms(6) unfolding calculateWithdrawOneToken_def by (auto simp: go_simps)
  obtain r where r: "Reserves (Info t) ! nat i = Some r" "0 < m" "xp ! nat i = r * m" "0 \<le> newY" "dy \<le> r"
    using withdraw_dy [OF assms(1,2,5,4) *(1)] *(2,5) by (metis option.inject sum.inject(2))
  have "q \<le> r"
    using *(6) r(2,3) \<open>0 \<le> newY\<close> zdiv_mono1 [of "r * m - newY" "r * m" m] by simp
  have w: "0 \<le> w" "w \<le> FeeDenominator"
    using assms(1) *(7) by (auto simp: wf_def fraction_def)
  obtain af where af: "AdminFee t = Some af" "0 \<le> af" "af \<le> FeeDenominator"
    using assms(1) by (auto simp: wf_def fraction_def split: option.splits)
  have "0 \<le> dy"
  proof (rule ccontr)
    assume "\<not> 0 \<le> dy"
    then have "dy * (FeeDenominator - w) \<le> 0"
      using w by (intro mult_nonpos_nonneg) simp_all
    then have "out \<le> 0"
      using *(8) by (simp add: div_nonpos_pos_le0)
    with assms(3) show False by simp
  qed
  then have "out \<le> dy"
    using *(8) w cut_le [of dy "FeeDenominator - w"] by simp
  moreover have "fee * af div FeeDenominator \<le> (if 0 \<le> fee then fee else 0)"
    using cut_le [of fee af] af by (simp add: div_nonpos_pos_le0 mult_nonpos_nonneg)
  ultimately have "out + fee * af div FeeDenominator \<le> r"
    using *(9) \<open>q \<le> r\<close> r(5) by (auto split: if_splits)
  with that af(1) r(1) show thesis by blast
qed

subsection \<open>Applying a quote\<close>

lemma wf_nth:
  assumes "wf now t" and "k < length (Tokens (Info t))"
  obtains r where "Reserves (Info t) ! k = Some r" "0 \<le> r"
  using assms by (auto simp: wf_def list_all_length split: option.splits)

lemma wf_reserves: "wf now t \<Longrightarrow> None \<notin> set (Reserves (Info t))"
  by (auto simp: wf_def list_all_iff)

text \<open>\<open>UpdateBalance\<close> with a payment the reserve covers returns a well-formed pool.\<close>

lemma update_wf:
  assumes "wf now t" and "settle t p = Inr (out, Some s)" and "0 \<le> s"
    and "Amount (TokenAmountIn_u p) = Some a" and "0 \<le> a"
    and covered: "Token (TokenAmountOut_u p) \<in> set (Tokens (Info t)) \<Longrightarrow>
      out \<le> reserve_of t (Token (TokenAmountOut_u p))"
  shows "\<exists>t'. UpdateBalance t p = Inr t' \<and> wf now t'"
proof -
  define b where "b = (if Token (TokenAmountIn_u p) \<in> set (Tokens (Info t)) then a else 0)"
  define after where "after = (\<lambda>t' r. Some (the r + (if t' = Token (TokenAmountIn_u p) then b else 0)
    - (if t' = Token (TokenAmountOut_u p) then out else (0 :: int))))"
  let ?ts = "Tokens (Info t)" and ?rs = "Reserves (Info t)"
  let ?rs' = "map2 after ?ts ?rs"
  have len: "length ?rs = length ?ts"
    using assms(1) by (simp add: wf_def)
  have "swap_reserves ?ts 0 (Token (TokenAmountIn_u p)) b (Token (TokenAmountOut_u p)) (Some out) ?rs = Inr ?rs'"
    using swap_reserves_eq [OF len wf_reserves [OF assms(1)]] by (simp add: after_def)
  then have up: "UpdateBalance t p = Inr (t\<lparr>LpSupply := Some s, Info := (Info t)\<lparr>Reserves := ?rs'\<rparr>\<rparr>)"
    using assms(2,4)
    by (cases "Token (TokenAmountIn_u p) \<in> set (Tokens (Info t))") (simp_all add: UpdateBalance_def Let_def b_def)
  have "case ?rs' ! k of None \<Rightarrow> False | Some x \<Rightarrow> 0 \<le> x" if "k < length ?rs'" for k
  proof -
    have k: "k < length ?ts"
      using that by simp
    then obtain r where r: "?rs ! k = Some r" "0 \<le> r"
      using wf_nth [OF assms(1)] by blast
    have "out \<le> r" if "?ts ! k = Token (TokenAmountOut_u p)"
    proof -
      have mem: "Token (TokenAmountOut_u p) \<in> set ?ts"
        using k that by (metis nth_mem)
      then have pos: "0 \<le> GetTokenIndex t (Token (TokenAmountOut_u p))"
        using GetTokenIndex_neg [of t] by (meson not_le)
      have "nat (GetTokenIndex t (Token (TokenAmountOut_u p))) = k"
        by (rule nth_eq_iff_index_eq [THEN iffD1, of ?ts])
           (use GetTokenIndex_nth [OF pos] pos k that assms(1) in \<open>auto simp: wf_def nat_less_iff\<close>)
      then show ?thesis
        using covered [OF mem] r(1) by (simp add: reserve_of_def)
    qed
    then show ?thesis
      using k len r assms(5) by (auto simp: after_def b_def)
  qed
  then have "list_all (\<lambda>r. case r of None \<Rightarrow> False | Some x \<Rightarrow> 0 \<le> x) ?rs'"
    by (simp add: list_all_length)
  then have "wf now (t\<lparr>LpSupply := Some s, Info := (Info t)\<lparr>Reserves := ?rs'\<rparr>\<rparr>)"
    using assms(1,3) len by (simp add: wf_def)
  with up show ?thesis by blast
qed

lemma quote_withdraw:
  assumes "CalcAmountOut now t q = Inr r" and "Token (TokenAmountIn q) = LpToken t"
  obtains out fee where "0 \<le> GetTokenIndex t (TokenOut q)"
    "calculateWithdrawOneToken now (Reserves (Info t)) (Multipliers t) (FutureATime t) (FutureA t)
      (InitialATime t) (InitialA t) (SwapFee (Info t)) (DefaultWithdrawFee t) (LpSupply t)
      (GetTokenIndex t (TokenOut q)) (Amount (TokenAmountIn q)) = Inr (out, fee)" "0 < out"
    "r = result (TokenOut q) out fee (RemoveLiquidity (gas t))"
  using assms
  by (auto simp: CalcAmountOut_def CalculateRemoveLiquidityOneToken_def GetTokenIndex_def Let_def go_simps
      split: if_splits)

lemma quote_deposit:
  assumes "CalcAmountOut now t q = Inr r" and "Token (TokenAmountIn q) \<noteq> LpToken t" and "TokenOut q = LpToken t"
  obtains out where "0 < out" "r = result (LpToken t) out 0 (AddLiquidity (gas t))"
  using assms
  by (auto simp: CalcAmountOut_def CalculateAddLiquidityOneToken_def Let_def go_simps split: if_splits)

text \<open>A redemption that a holder of LP tokens can make: no more than the supply.\<close>

definition within_supply :: "PoolSimulator \<Rightarrow> 'l CalcAmountOutParams \<Rightarrow> bool" where
  "within_supply t q =
     (Token (TokenAmountIn q) = LpToken t \<longrightarrow>
      (case (Amount (TokenAmountIn q), LpSupply t) of (Some a, Some s) \<Rightarrow> a \<le> s | _ \<Rightarrow> False))"

lemma saddle_quote_applies:
  assumes "wf now t" and "valid_request q" and "CalcAmountOut now t q = Inr r" and "within_supply t q"
  shows "\<exists>t'. UpdateBalance t (update_params q r) = Inr t' \<and> wf now t'"
proof -
  obtain a where a: "Amount (TokenAmountIn q) = Some a" "0 < a" "Token (TokenAmountIn q) \<noteq> TokenOut q"
    using assms(2) by (rule valid_requestE)
  obtain s where s: "LpSupply t = Some s" "0 \<le> s"
    using assms(1) by (auto simp: wf_def split: option.splits)
  consider (withdraw) "Token (TokenAmountIn q) = LpToken t"
    | (deposit) "Token (TokenAmountIn q) \<noteq> LpToken t" "TokenOut q = LpToken t"
    | (swap) "Token (TokenAmountIn q) \<noteq> LpToken t" "TokenOut q \<noteq> LpToken t"
    by blast
  then show ?thesis
  proof cases
    case withdraw
    obtain out fee where w: "calculateWithdrawOneToken now (Reserves (Info t)) (Multipliers t) (FutureATime t)
        (FutureA t) (InitialATime t) (InitialA t) (SwapFee (Info t)) (DefaultWithdrawFee t) (LpSupply t)
        (GetTokenIndex t (TokenOut q)) (Some a) = Inr (out, fee)" "0 < out"
      "r = result (TokenOut q) out fee (RemoveLiquidity (gas t))"
      using quote_withdraw [OF assms(3) withdraw] a(1) by metis
    have g: "a \<le> s"
      using assms(4) withdraw a(1) s(1) by (simp add: within_supply_def)
    obtain af rj where c: "AdminFee t = Some af" "Reserves (Info t) ! nat (GetTokenIndex t (TokenOut q)) = Some rj"
      "out + fee * af div FeeDenominator \<le> rj"
      by (rule withdraw_covered [OF assms(1) less_imp_le [OF a(2)] w(2) s(1) g w(1)])
    have "settle t (update_params q r) = Inr (out + fee * af div FeeDenominator, Some (s - a))"
      using withdraw a(1) s(1) w(3) c(1) by (simp add: settle_def result_def update_params_def)
    then show ?thesis
      by (rule update_wf [OF assms(1), where a = a])
         (use a g c reserve_of_nth [OF c(2)] w(3) in \<open>auto simp: update_params_def result_def\<close>)
  next
    case deposit
    obtain out where d: "0 < out" "r = result (LpToken t) out 0 (AddLiquidity (gas t))"
      using quote_deposit [OF assms(3) deposit] by blast
    have "settle t (update_params q r) = Inr (out, Some (s + out))"
      using deposit s(1) d(2) by (simp add: settle_def result_def update_params_def)
    then show ?thesis
      by (rule update_wf [OF assms(1), where a = a])
         (use a s d assms(1) deposit in \<open>auto simp: update_params_def result_def wf_def\<close>)
  next
    case swap
    obtain dy fee where dy: "calculateSwap now (Reserves (Info t)) (Multipliers t) (FutureATime t) (FutureA t)
        (InitialATime t) (InitialA t) (SwapFee (Info t)) (GetTokenIndex t (Token (TokenAmountIn q)))
        (GetTokenIndex t (TokenOut q)) (Some a) = Inr (dy, fee)" "0 < dy" "r = result (TokenOut q) dy fee (Swap_g (gas t))"
      using quote_swap [OF assms(3) swap] a(1) by metis
    obtain f af rj where c: "SwapFee (Info t) = Some f" "AdminFee t = Some af"
      "Reserves (Info t) ! nat (GetTokenIndex t (TokenOut q)) = Some rj"
      "dy + (dy * f div FeeDenominator) * af div FeeDenominator < rj"
      using swap_covered [OF assms(1) less_imp_le [OF a(2)] dy(2,1)] by metis
    have "settle t (update_params q r) = Inr (dy + (dy * f div FeeDenominator) * af div FeeDenominator, Some s)"
      using settle_swap [OF swap c(1,2)] dy(3) s(1) by simp
    then show ?thesis
      by (rule update_wf [OF assms(1), where a = a])
         (use a s c reserve_of_nth [OF c(3)] dy(3) in \<open>auto simp: update_params_def result_def\<close>)
  qed
qed

inductive saddle_step :: "int \<Rightarrow> PoolSimulator \<Rightarrow> PoolSimulator \<Rightarrow> bool" for now where
  apply_quote: "valid_request (q :: unit CalcAmountOutParams) \<Longrightarrow> CalcAmountOut now t q = Inr r \<Longrightarrow>
    within_supply t q \<Longrightarrow> UpdateBalance t (update_params q r) = Inr t' \<Longrightarrow> saddle_step now t t'"

inductive_cases saddle_stepE: "saddle_step now t t'"

lemma saddle_reachable_wf: "(saddle_step now)\<^sup>*\<^sup>* t t' \<Longrightarrow> wf now t \<Longrightarrow> wf now t'"
  by (induction rule: rtranclp_induct) (metis saddle_quote_applies saddle_stepE sum.inject(2))+

text \<open>C23: after any sequence of swaps, one-token deposits and redemptions, in which nobody redeems more LP
  tokens than the supply, every further such quote can be applied, and the pool it leaves is well formed: no
  reserve and no LP supply is negative.\<close>

theorem saddle_covered:
  assumes "wf now t0" and "(saddle_step now)\<^sup>*\<^sup>* t0 t" and "valid_request q" and "CalcAmountOut now t q = Inr r"
    and "within_supply t q"
  shows "\<exists>t'. UpdateBalance t (update_params q r) = Inr t' \<and> wf now t'"
  by (rule saddle_quote_applies [OF saddle_reachable_wf [OF assms(2,1)] assms(3-5)])

subsection \<open>A concrete pool\<close>

definition pool_ex :: PoolSimulator where
  "pool_ex = \<lparr>Info = \<lparr>Address = ''0x1'', Exchange = ''saddle'', Type = ''saddle'', Tokens = [''a'', ''b''],
       Reserves = [Some 1000000000, Some 1200000000], SwapFee = Some 4000000, BlockNumber = 1\<rparr>,
     Multipliers = [Some 1, Some 1], InitialA = Some 20000, FutureA = Some 20000, InitialATime = 0,
     FutureATime = 0, AdminFee = Some 5000000000, DefaultWithdrawFee = Some 5000000, LpToken = ''lp'',
     LpSupply = Some 2100000000, Paused = False, gas = DefaultGas\<rparr>"

definition request :: "string \<Rightarrow> int \<Rightarrow> string \<Rightarrow> unit CalcAmountOutParams" where
  "request tokenIn amount tokenOut =
     \<lparr>TokenAmountIn = token_amount tokenIn (Some amount), TokenOut = tokenOut, Limit = None\<rparr>"

lemma saddle_pool_ex_wf: "wf 1500 pool_ex"
  by code_simp

lemma swap_ex:
  "CalcAmountOut 1500 pool_ex (request ''a'' 1000000 ''b'') = Inr (result ''b'' 1000514 400 130000)"
  by code_simp

theorem saddle_swap_covered_witness:
  "\<exists>out. settle pool_ex (update_params (request ''a'' 1000000 ''b'') (result ''b'' 1000514 400 130000))
     = Inr (out, LpSupply pool_ex) \<and> 1000514 \<le> out \<and> out < reserve_of pool_ex ''b''"
proof -
  have "\<exists>dy out. TokenAmountOut (result ''b'' 1000514 400 130000) = Some (token_amount ''b'' (Some dy)) \<and> 0 < dy \<and>
    settle pool_ex (update_params (request ''a'' 1000000 ''b'') (result ''b'' 1000514 400 130000))
      = Inr (out, LpSupply pool_ex) \<and> dy \<le> out \<and> out < reserve_of pool_ex ''b''"
    using saddle_swap_covered [OF saddle_pool_ex_wf _ _ _ _ swap_ex, of 1000000]
    by (simp add: request_def pool_ex_def)
  then show ?thesis
    by (auto simp: result_def token_amount_eq)
qed

text \<open>The pool after that swap, whose LP token can then be redeemed.\<close>

definition swapped_ex :: PoolSimulator where
  "swapped_ex = pool_ex\<lparr>Info := (Info pool_ex)\<lparr>Reserves := [Some 1001000000, Some 1198999286]\<rparr>\<rparr>"

lemma swapped_step: "saddle_step 1500 pool_ex swapped_ex"
proof (rule apply_quote [OF _ swap_ex])
  show "valid_request (request ''a'' 1000000 ''b'')"
    by (simp add: valid_request_def request_def)
  show "within_supply pool_ex (request ''a'' 1000000 ''b'')"
    by (simp add: within_supply_def request_def pool_ex_def)
  show "UpdateBalance pool_ex (update_params (request ''a'' 1000000 ''b'') (result ''b'' 1000514 400 130000))
    = Inr swapped_ex"
    by code_simp
qed

lemma redeem_ex:
  "CalcAmountOut 1500 swapped_ex (request ''lp'' 100000000 ''a'') = Inr (result ''a'' 104618210 22808 150000)"
  by code_simp

theorem saddle_covered_witness:
  "\<exists>t. UpdateBalance swapped_ex
      (update_params (request ''lp'' 100000000 ''a'') (result ''a'' 104618210 22808 150000)) = Inr t \<and> wf 1500 t"
proof (rule saddle_covered [OF saddle_pool_ex_wf r_into_rtranclp [of "saddle_step 1500", OF swapped_step] _ redeem_ex])
  show "valid_request (request ''lp'' 100000000 ''a'')"
    by (simp add: valid_request_def request_def)
  show "within_supply swapped_ex (request ''lp'' 100000000 ''a'')"
    by (simp add: within_supply_def request_def swapped_ex_def pool_ex_def)
qed

text \<open>The code compares a redemption with the balance of the bought token in pool precision, not with the LP
  supply: of a pool whose supply is 800 million, 999 million LP tokens are quoted for more than the whole
  reserve, and applying the quote leaves a negative supply and a negative reserve.\<close>

definition over_ex :: PoolSimulator where
  "over_ex = pool_ex\<lparr>LpSupply := Some 800000000, DefaultWithdrawFee := Some 0\<rparr>"

lemma redeem_over_supply:
  "(case CalcAmountOut 1500 over_ex (request ''lp'' 999000000 ''a'') of
      Inr r \<Rightarrow> (case (map_option Amount (TokenAmountOut r), UpdateBalance over_ex (update_params (request ''lp'' 999000000 ''a'') r)) of
         (Some (Some out), Inr t) \<Rightarrow> reserve_of over_ex ''a'' < out \<and> reserve_of t ''a'' < 0 \<and> LpSupply t = Some (- 199000000)
       | _ \<Rightarrow> False)
    | Inl _ \<Rightarrow> False)"
  by code_simp

text \<open>The reported fee of a swap is not in the units of the bought token: with a multiplier of 1000 a swap
  that pays 999 units reports a fee of 399, for a fee of less than one unit.\<close>

lemma fee_in_pool_precision:
  "CalcAmountOut 1500
     (pool_ex\<lparr>Multipliers := [Some 1, Some 1000],
              Info := (Info pool_ex)\<lparr>Reserves := [Some 1000000000, Some 1000000]\<rparr>\<rparr>)
     (request ''a'' 1000000 ''b'') = Inr (result ''b'' 999 399 130000)"
  by code_simp

end
