(* ===== verification/Wcm.thy ===== *)
theory Wcm
  imports Pool_Interface
begin

unbundle bit_operations_syntax

text \<open>
  The order-book pools of \<open>pkg/liquidity-source/wcm\<close>: decoding of the packed words the book is read
  from (\<open>helper.go\<close>, the level decoder and the liquidity of \<open>pool_tracker.go\<close>), then the simulator, which
  walks the asks or bids of the book in both directions and reduces the book by what a swap executed.

  \<^item> Amounts are counted in token decimals outside and in position decimals inside the book.
  \<^item> JSON decoding, \<open>lo.Map\<close> and the hex form of an address (\<open>go-ethereum\<close>) are parameters.  The RPC
    loop that pages through the depth charts is not modelled.
\<close>

definition FeeDivisor :: int where
  "FeeDivisor = 100000"

definition PricePrecisionMultiplier :: int where
  "PricePrecisionMultiplier = 10 ^ 18"

definition Mask8 :: int where "Mask8 = 0xFF"
definition Mask16 :: int where "Mask16 = 0xFFFF"
definition Mask32 :: int where "Mask32 = 0xFFFFFFFF"
definition Mask64 :: int where "Mask64 = 2 ^ 64 - 1"
definition Mask160 :: int where "Mask160 = push_bit 160 1 - 1"

record Gas =
  Base :: int
  Level :: int

definition DefaultGas :: Gas where
  "DefaultGas = \<lparr>Base = 200000, Level = 0\<rparr>"

record OrderBookLevel =
  Price :: bigint
  Quantity :: bigint

record OrderBook =
  Bids :: "OrderBookLevel list"
  Asks :: "OrderBookLevel list"

record StaticExtra =
  Router :: string
  BuyTokenPositionDecimals :: int
  PayTokenPositionDecimals :: int

record Extra =
  OrderBook_x :: OrderBook
  MinOrderQuantity :: bigint
  TakerFeeMultiplier :: bigint
  FromMaxFee :: bigint
  ToMaxFee :: bigint
  IsHalted :: bool

record wcmSwapInfo =
  IsBuy :: bool
  ExecutedLevels :: int
  GrossBase :: bigint
  GrossQuote :: bigint

subsection \<open>Packed words\<close>

text \<open>\<open>(*big.Int).Uint64\<close>: the low 64 bits of the magnitude.\<close>

definition uint64_of :: "int \<Rightarrow> 64 word" where
  "uint64_of x = word_of_int \<bar>x\<bar>"

definition decodePrice :: "bigint \<Rightarrow> int go" where
  "decodePrice packed =
     (case packed of
        None \<Rightarrow> Inr 0
      | Some p \<Rightarrow>
          if p < 0 then Inr 0
          else
            let u = uint64_of p; scale = u AND 31; mantissa = drop_bit 5 u;
                out = uint mantissa; exp = 18 - uint scale in
            if 0 < exp then bnd (TenPowInt exp) (\<lambda>k. Inr (out * k))
            else if exp < 0 then bnd (TenPowInt (- exp)) (\<lambda>k. big_div out k)
            else Inr out)"

definition decodeDepthChartBucket :: "bigint \<Rightarrow> (int \<times> int \<times> int \<times> int) go" where
  "decodeDepthChartBucket packed =
     (case packed of
        None \<Rightarrow> Inr (0, 0, 0, 0)
      | Some p \<Rightarrow>
          let qty1 = drop_bit 192 p AND Mask64 in
          bnd (decodePrice (Some (drop_bit 128 p AND Mask64))) (\<lambda>price1.
          let qty2 = drop_bit 64 p AND Mask64 in
          bnd (decodePrice (Some (p AND Mask64))) (\<lambda>price2.
          Inr (price1, qty1, price2, qty2))))"

definition decodeBestBidOffer :: "bigint \<Rightarrow> (int \<times> int \<times> int \<times> int) go" where
  "decodeBestBidOffer packed =
     (case packed of
        None \<Rightarrow> Inr (0, 0, 0, 0)
      | Some p \<Rightarrow>
          bnd (decodePrice (Some (p AND Mask64))) (\<lambda>sellPrice.
          let sellQty = drop_bit 64 p AND Mask64 in
          bnd (decodePrice (Some (drop_bit 128 p AND Mask64))) (\<lambda>buyPrice.
          let buyQty = drop_bit 192 p AND Mask64 in
          Inr (sellPrice, sellQty, buyPrice, buyQty))))"

definition UnpackVaultTokenConfig :: "(int \<Rightarrow> string) \<Rightarrow> bigint \<Rightarrow> 32 word \<times> int \<times> int \<times> string" where
  "UnpackVaultTokenConfig address_hex packed =
     (case packed of
        None \<Rightarrow> (0, 0, 0, '''')
      | Some p \<Rightarrow>
          if p < 0 then (0, 0, 0, '''')
          else (word_of_int (drop_bit 200 p AND Mask32), drop_bit 168 p AND Mask8, drop_bit 184 p AND Mask8,
                address_hex (p AND Mask160)))"

definition UnpackOrderBookConfig :: "bigint \<Rightarrow> bigint \<times> bigint \<times> bigint" where
  "UnpackOrderBookConfig packed =
     (case packed of
        None \<Rightarrow> (None, None, None)
      | Some p \<Rightarrow>
          if p < 0 then (None, None, None)
          else (Some (drop_bit 64 p AND Mask16), Some (drop_bit 184 p AND Mask64),
                Some (drop_bit 120 p AND Mask64)))"

fun decode_buckets :: "bigint list \<Rightarrow> int \<Rightarrow> int \<Rightarrow> OrderBookLevel list \<Rightarrow> OrderBookLevel list go" where
  "decode_buckets [] decoded count out = Inr out"
| "decode_buckets (raw # raws) decoded count out =
     (if count \<le> decoded then Inr out
      else
        bnd (decodeDepthChartBucket raw) (\<lambda>(p1, q1, p2, q2).
        let out = (if 0 < p1 \<and> 0 < q1 then out @ [\<lparr>Price = Some p1, Quantity = Some q1\<rparr>] else out) in
        if count \<le> decoded + 1 then Inr out
        else
          let out = (if 0 < p2 \<and> 0 < q2 then out @ [\<lparr>Price = Some p2, Quantity = Some q2\<rparr>] else out) in
          decode_buckets raws (decoded + 2) count out))"

definition decodeLevels ::
    "bigint list \<Rightarrow> OrderBookLevel list \<Rightarrow> (64 word \<times> OrderBookLevel list) go" where
  "decodeLevels raw out =
     (case raw of
        [] \<Rightarrow> Inr (0, out)
      | None # _ \<Rightarrow> Inr (0, out)
      | Some header # buckets \<Rightarrow>
          let headerVal = uint64_of header; count = uint (headerVal AND 0xFFFFFFFF);
              nextRestart = drop_bit 32 headerVal;
              count = (if int (length buckets) < count then int (length buckets) else count);
              bucketCount = min ((count + 1) div 2) (int (length buckets)) in
          bnd (decode_buckets (take (nat bucketCount) buckets) 0 count out) (\<lambda>out. Inr (nextRestart, out)))"

text \<open>When a side of the book is empty, the best offer stands in for it.\<close>

definition best_bid_offer :: "bigint \<Rightarrow> OrderBook \<Rightarrow> OrderBook go" where
  "best_bid_offer bestBidOffer orderBook =
     (case bestBidOffer of
        None \<Rightarrow> Inr orderBook
      | Some w \<Rightarrow>
          if (Bids orderBook = [] \<or> Asks orderBook = []) \<and> 0 < w
          then
            bnd (decodeBestBidOffer bestBidOffer) (\<lambda>(sellPrice, sellQty, buyPrice, buyQty).
            let book = (if Bids orderBook = [] \<and> 0 < buyPrice \<and> 0 < buyQty
                        then orderBook\<lparr>Bids := [\<lparr>Price = Some buyPrice, Quantity = Some buyQty\<rparr>]\<rparr> else orderBook) in
            Inr (if Asks orderBook = [] \<and> 0 < sellPrice \<and> 0 < sellQty
                 then book\<lparr>Asks := [\<lparr>Price = Some sellPrice, Quantity = Some sellQty\<rparr>]\<rparr> else book))
          else Inr orderBook)"

subsection \<open>Decimals and fees\<close>

definition scaleAmountDecimalsRounding :: "bigint \<Rightarrow> int \<Rightarrow> int \<Rightarrow> bool \<Rightarrow> int go" where
  "scaleAmountDecimalsRounding amount fromDecimals toDecimals roundUp =
     (case amount of
        None \<Rightarrow> Inr 0
      | Some out \<Rightarrow>
          if toDecimals = fromDecimals then Inr out
          else if fromDecimals < toDecimals
          then bnd (TenPowInt (toDecimals - fromDecimals)) (\<lambda>k. Inr (out * k))
          else
            bnd (TenPowInt (fromDecimals - toDecimals)) (\<lambda>divisor.
            big_div (if roundUp then out + (divisor - 1) else out) divisor))"

definition scaleAmountDecimals :: "bigint \<Rightarrow> int \<Rightarrow> int \<Rightarrow> int go" where
  "scaleAmountDecimals amount fromDecimals toDecimals =
     scaleAmountDecimalsRounding amount fromDecimals toDecimals False"

definition calcSpotFee :: "int \<Rightarrow> bigint \<Rightarrow> bigint \<Rightarrow> int go" where
  "calcSpotFee quantity takerFeeMultiplier maxFee =
     bnd (deref takerFeeMultiplier) (\<lambda>takerFeeMultiplier.
     if takerFeeMultiplier = 0 then Inr 0
     else
       let fee = quantity * takerFeeMultiplier div FeeDivisor in
       Inr (case maxFee of None \<Rightarrow> fee | Some maxFee \<Rightarrow> if maxFee < fee then maxFee else fee))"

definition getGrossAmount :: "int \<Rightarrow> bigint \<Rightarrow> bigint \<Rightarrow> int go" where
  "getGrossAmount net takerFeeMultiplier maxFee =
     bnd (deref takerFeeMultiplier) (\<lambda>takerFeeMultiplier.
     if takerFeeMultiplier = 0 then Inr net
     else
       let denom = FeeDivisor - takerFeeMultiplier;
           gross = big_div (net * FeeDivisor + (denom - 1)) denom in
       case maxFee of
         None \<Rightarrow> gross
       | Some maxFee \<Rightarrow>
           let grossWithMax = net + maxFee in
           if maxFee \<le> grossWithMax * takerFeeMultiplier div FeeDivisor then Inr grossWithMax else gross)"

subsection \<open>Walking the book\<close>

text \<open>The loops carry what is left to fill, the total so far and the levels executed.\<close>

fun ask_loop :: "OrderBookLevel list \<Rightarrow> int \<Rightarrow> int \<Rightarrow> int \<Rightarrow> (int \<times> int \<times> int) go" where
  "ask_loop [] remainingQuote totalBase levels = Inr (remainingQuote, totalBase, levels)"
| "ask_loop (ask # asks) remainingQuote totalBase levels =
     (if remainingQuote \<le> 0 then Inr (remainingQuote, totalBase, levels)
      else
        bnd (deref (Quantity ask)) (\<lambda>quantity. bnd (deref (Price ask)) (\<lambda>price.
        let quoteNeeded = quantity * price div PricePrecisionMultiplier in
        if quoteNeeded \<le> remainingQuote
        then ask_loop asks (remainingQuote - quoteNeeded) (totalBase + quantity) (levels + 1)
        else
          bnd (big_div (remainingQuote * PricePrecisionMultiplier) price) (\<lambda>partialBase.
          ask_loop asks 0 (totalBase + partialBase) (levels + 1)))))"

definition filled :: "int \<times> int \<times> int \<Rightarrow> (int \<times> int) go" where
  "filled r = (case r of (remaining, amount, levels) \<Rightarrow>
     if 0 < remaining then Inl (Err ''ErrInsufficientLiquidity'') else Inr (amount, levels))"

definition executeAskOrders :: "OrderBook \<Rightarrow> int \<Rightarrow> (int \<times> int) go" where
  "executeAskOrders book quoteAmount =
     (if Asks book = [] then Inl (Err ''ErrEmptyOrderBook'')
      else bnd (ask_loop (Asks book) quoteAmount 0 0) filled)"

fun bid_loop :: "OrderBookLevel list \<Rightarrow> int \<Rightarrow> int \<Rightarrow> int \<Rightarrow> (int \<times> int \<times> int) go" where
  "bid_loop [] remainingBase totalQuote levels = Inr (remainingBase, totalQuote, levels)"
| "bid_loop (bid # bids) remainingBase totalQuote levels =
     (if remainingBase \<le> 0 then Inr (remainingBase, totalQuote, levels)
      else
        bnd (deref (Quantity bid)) (\<lambda>quantity. bnd (deref (Price bid)) (\<lambda>price.
        if quantity \<le> remainingBase
        then bid_loop bids (remainingBase - quantity)
               (totalQuote + quantity * price div PricePrecisionMultiplier) (levels + 1)
        else bid_loop bids 0 (totalQuote + remainingBase * price div PricePrecisionMultiplier) (levels + 1))))"

definition executeBidOrders :: "OrderBook \<Rightarrow> int \<Rightarrow> (int \<times> int) go" where
  "executeBidOrders book baseAmount =
     (if Bids book = [] then Inl (Err ''ErrEmptyOrderBook'')
      else bnd (bid_loop (Bids book) baseAmount 0 0) filled)"

fun quote_loop :: "OrderBookLevel list \<Rightarrow> int \<Rightarrow> int \<Rightarrow> int \<Rightarrow> (int \<times> int \<times> int) go" where
  "quote_loop [] remainingBase totalQuote levels = Inr (remainingBase, totalQuote, levels)"
| "quote_loop (ask # asks) remainingBase totalQuote levels =
     (if remainingBase \<le> 0 then Inr (remainingBase, totalQuote, levels)
      else
        bnd (deref (Quantity ask)) (\<lambda>quantity. bnd (deref (Price ask)) (\<lambda>price.
        if quantity \<le> remainingBase
        then quote_loop asks (remainingBase - quantity)
               (totalQuote + quantity * price div PricePrecisionMultiplier) (levels + 1)
        else quote_loop asks 0
               (totalQuote + (remainingBase * price + (PricePrecisionMultiplier - 1)) div PricePrecisionMultiplier)
               (levels + 1))))"

definition calculateQuoteTokenNeeded :: "OrderBook \<Rightarrow> int \<Rightarrow> (int \<times> int) go" where
  "calculateQuoteTokenNeeded book baseAmountWanted =
     (if Asks book = [] then Inl (Err ''ErrEmptyOrderBook'')
      else bnd (quote_loop (Asks book) baseAmountWanted 0 0) filled)"

fun base_loop :: "OrderBookLevel list \<Rightarrow> int \<Rightarrow> int \<Rightarrow> int \<Rightarrow> (int \<times> int \<times> int) go" where
  "base_loop [] remainingQuote totalBase levels = Inr (remainingQuote, totalBase, levels)"
| "base_loop (bid # bids) remainingQuote totalBase levels =
     (if remainingQuote \<le> 0 then Inr (remainingQuote, totalBase, levels)
      else
        bnd (deref (Quantity bid)) (\<lambda>quantity. bnd (deref (Price bid)) (\<lambda>price.
        let maxQuote = quantity * price div PricePrecisionMultiplier in
        if maxQuote \<le> remainingQuote
        then base_loop bids (remainingQuote - maxQuote) (totalBase + quantity) (levels + 1)
        else
          bnd (big_div (remainingQuote * PricePrecisionMultiplier + (price - 1)) price) (\<lambda>partialBase.
          base_loop bids 0 (totalBase + partialBase) (levels + 1)))))"

definition calculateBaseTokenNeeded :: "OrderBook \<Rightarrow> int \<Rightarrow> (int \<times> int) go" where
  "calculateBaseTokenNeeded book quoteAmountWanted =
     (if Bids book = [] then Inl (Err ''ErrEmptyOrderBook'')
      else bnd (base_loop (Bids book) quoteAmountWanted 0 0) filled)"

subsection \<open>The simulator\<close>

record PoolSimulator = Pool +
  static :: StaticExtra
  extra :: Extra
  gas :: Gas
  buyTokenDecs :: int
  payTokenDecs :: int

definition NewPoolSimulator ::
    "(string \<Rightarrow> StaticExtra go) \<Rightarrow> (string \<Rightarrow> Extra go) \<Rightarrow>
     (PoolToken list \<Rightarrow> (PoolToken \<Rightarrow> int \<Rightarrow> string) \<Rightarrow> string list) \<Rightarrow>
     (string list \<Rightarrow> (string \<Rightarrow> int \<Rightarrow> bigint) \<Rightarrow> bigint list) \<Rightarrow> EntityPool \<Rightarrow> PoolSimulator go" where
  "NewPoolSimulator json_static json_extra lo_Map_tokens lo_Map_reserves entityPool =
     bnd (json_static (StaticExtra_e entityPool)) (\<lambda>staticExtra.
     bnd (json_extra (Extra_e entityPool)) (\<lambda>extra.
     bnd (idx (Tokens_e entityPool) 0) (\<lambda>buyToken.
     bnd (idx (Tokens_e entityPool) 1) (\<lambda>payToken.
     Inr \<lparr>Info = \<lparr>Address = Address_e entityPool, Exchange = Exchange_e entityPool, Type = Type_e entityPool,
                   Tokens = lo_Map_tokens (Tokens_e entityPool) (\<lambda>item _. TokenAddress item),
                   Reserves = lo_Map_reserves (Reserves_e entityPool) (\<lambda>item _. NewBig item),
                   SwapFee = None, BlockNumber = BlockNumber_e entityPool\<rparr>,
          static = staticExtra, extra = extra, gas = DefaultGas,
          buyTokenDecs = Decimals buyToken, payTokenDecs = Decimals payToken\<rparr>))))"

definition baseToken :: "PoolSimulator \<Rightarrow> string go" where
  "baseToken s = idx (Tokens (Info s)) 0"

definition quoteToken :: "PoolSimulator \<Rightarrow> string go" where
  "quoteToken s = idx (Tokens (Info s)) 1"

definition isValidTokenPair :: "PoolSimulator \<Rightarrow> string \<Rightarrow> string \<Rightarrow> bool go" where
  "isValidTokenPair s tokenIn tokenOut =
     bnd (baseToken s) (\<lambda>base. bnd (quoteToken s) (\<lambda>quote.
     Inr (if base = '''' \<or> quote = '''' then False
          else (equal_fold tokenIn quote \<and> equal_fold tokenOut base) \<or>
               (equal_fold tokenIn base \<and> equal_fold tokenOut quote))))"

definition isBuyOrder :: "PoolSimulator \<Rightarrow> string \<Rightarrow> string \<Rightarrow> bool go" where
  "isBuyOrder s tokenIn tokenOut =
     bnd (quoteToken s) (\<lambda>quote.
     if equal_fold tokenIn quote then bnd (baseToken s) (\<lambda>base. Inr (equal_fold tokenOut base)) else Inr False)"

definition below_minimum :: "PoolSimulator \<Rightarrow> int \<Rightarrow> bool" where
  "below_minimum s quantity =
     (case MinOrderQuantity (extra s) of None \<Rightarrow> False | Some least \<Rightarrow> quantity < least)"

text \<open>The two branches of \<open>CalcAmountOut\<close>: \<open>(amountOut, grossBase, grossQuote, executedLevels)\<close>.\<close>

definition buy_out :: "PoolSimulator \<Rightarrow> bigint \<Rightarrow> (int \<times> bigint \<times> bigint \<times> int) go" where
  "buy_out s amountIn =
     (let pd = BuyTokenPositionDecimals (static s) in
      bnd (scaleAmountDecimals amountIn (payTokenDecs s) pd) (\<lambda>walkInput.
      bnd (executeAskOrders (OrderBook_x (extra s)) walkInput) (\<lambda>(totalGrossBase, executedLevels).
      if below_minimum s totalGrossBase then Inl (Err ''ErrQuantityTooLow'')
      else
        bnd (calcSpotFee totalGrossBase (TakerFeeMultiplier (extra s)) (FromMaxFee (extra s))) (\<lambda>feeBase.
        bnd (scaleAmountDecimals (Some (totalGrossBase - feeBase)) pd (buyTokenDecs s)) (\<lambda>amountOut.
        bnd (scaleAmountDecimals (Some totalGrossBase) pd (buyTokenDecs s)) (\<lambda>grossBase.
        Inr (amountOut, Some grossBase, amountIn, executedLevels)))))))"

definition sell_out :: "PoolSimulator \<Rightarrow> bigint \<Rightarrow> (int \<times> bigint \<times> bigint \<times> int) go" where
  "sell_out s amountIn =
     (let pd = BuyTokenPositionDecimals (static s) in
      bnd (scaleAmountDecimals amountIn (buyTokenDecs s) pd) (\<lambda>grossBase.
      if below_minimum s grossBase then Inl (Err ''ErrQuantityTooLow'')
      else
        bnd (executeBidOrders (OrderBook_x (extra s)) grossBase) (\<lambda>(totalGrossQuote, executedLevels).
        bnd (scaleAmountDecimals (ToMaxFee (extra s)) (PayTokenPositionDecimals (static s)) pd) (\<lambda>toMaxFee.
        bnd (calcSpotFee totalGrossQuote (TakerFeeMultiplier (extra s)) (Some toMaxFee)) (\<lambda>feeQuote.
        bnd (scaleAmountDecimals (Some (totalGrossQuote - feeQuote)) pd (payTokenDecs s)) (\<lambda>amountOut.
        bnd (scaleAmountDecimals (Some totalGrossQuote) pd (payTokenDecs s)) (\<lambda>grossQuote.
        Inr (amountOut, amountIn, Some grossQuote, executedLevels))))))))"

definition CalcAmountOut ::
    "PoolSimulator \<Rightarrow> 'l CalcAmountOutParams \<Rightarrow> wcmSwapInfo CalcAmountOutResult go" where
  "CalcAmountOut s param =
     (let tokenIn = Token (TokenAmountIn param); tokenOut = TokenOut param; amountIn = Amount (TokenAmountIn param) in
      bnd (isValidTokenPair s tokenIn tokenOut) (\<lambda>valid.
      if \<not> valid then Inl (Err ''ErrInvalidTokenPair'')
      else if IsHalted (extra s) then Inl (Err ''ErrPoolHalted'')
      else
        bnd (isBuyOrder s tokenIn tokenOut) (\<lambda>isBuy.
        bnd (if isBuy then buy_out s amountIn else sell_out s amountIn)
          (\<lambda>(amountOut, grossBase, grossQuote, executedLevels).
        if amountOut \<le> 0 then Inl (Err ''ErrAmountOutTooSmall'')
        else
          Inr \<lparr>TokenAmountOut = Some (token_amount tokenOut (Some amountOut)),
               Fee = Some (token_amount tokenOut (Some 0)), RemainingTokenAmountIn = None,
               Gas = int64 (Base (gas s) + executedLevels * Level (gas s)),
               SwapInfo = Some \<lparr>IsBuy = isBuy, ExecutedLevels = executedLevels,
                                GrossBase = grossBase, GrossQuote = grossQuote\<rparr>\<rparr>))))"

text \<open>The two branches of \<open>CalcAmountIn\<close>, with the amount in first.\<close>

definition buy_in :: "PoolSimulator \<Rightarrow> bigint \<Rightarrow> (int \<times> bigint \<times> bigint \<times> int) go" where
  "buy_in s amountOut =
     (let pd = BuyTokenPositionDecimals (static s) in
      bnd (scaleAmountDecimalsRounding amountOut (buyTokenDecs s) pd True) (\<lambda>netBase.
      bnd (getGrossAmount netBase (TakerFeeMultiplier (extra s)) (FromMaxFee (extra s))) (\<lambda>grossBase.
      bnd (calculateQuoteTokenNeeded (OrderBook_x (extra s)) grossBase) (\<lambda>(amountInVal, executedLevels).
      if below_minimum s grossBase then Inl (Err ''ErrQuantityTooLow'')
      else
        bnd (scaleAmountDecimalsRounding (Some amountInVal) pd (payTokenDecs s) True) (\<lambda>amountIn.
        bnd (scaleAmountDecimals (Some grossBase) pd (buyTokenDecs s)) (\<lambda>grossBaseVal.
        Inr (amountIn, Some grossBaseVal, Some amountIn, executedLevels)))))))"

definition sell_in :: "PoolSimulator \<Rightarrow> bigint \<Rightarrow> (int \<times> bigint \<times> bigint \<times> int) go" where
  "sell_in s amountOut =
     (let pd = BuyTokenPositionDecimals (static s); payPd = PayTokenPositionDecimals (static s) in
      bnd (scaleAmountDecimalsRounding amountOut (payTokenDecs s) payPd True) (\<lambda>netQuote.
      bnd (getGrossAmount netQuote (TakerFeeMultiplier (extra s)) (ToMaxFee (extra s))) (\<lambda>grossQuote.
      bnd (scaleAmountDecimals (Some grossQuote) payPd pd) (\<lambda>grossQuoteBase.
      bnd (calculateBaseTokenNeeded (OrderBook_x (extra s)) grossQuoteBase) (\<lambda>(amountInVal, executedLevels).
      if below_minimum s amountInVal then Inl (Err ''ErrQuantityTooLow'')
      else
        bnd (scaleAmountDecimalsRounding (Some amountInVal) pd (buyTokenDecs s) True) (\<lambda>amountIn.
        bnd (scaleAmountDecimals (Some grossQuote) payPd (payTokenDecs s)) (\<lambda>grossQuoteVal.
        Inr (amountIn, Some amountIn, Some grossQuoteVal, executedLevels))))))))"

definition CalcAmountIn ::
    "PoolSimulator \<Rightarrow> 'l CalcAmountInParams \<Rightarrow> wcmSwapInfo CalcAmountInResult go" where
  "CalcAmountIn s param =
     (let tokenIn = TokenIn param; tokenOut = Token (TokenAmountOut_i param);
          amountOut = Amount (TokenAmountOut_i param) in
      bnd (isValidTokenPair s tokenIn tokenOut) (\<lambda>valid.
      if \<not> valid then Inl (Err ''ErrInvalidTokenPair'')
      else if IsHalted (extra s) then Inl (Err ''ErrPoolHalted'')
      else if (case amountOut of None \<Rightarrow> True | Some a \<Rightarrow> a \<le> 0) then Inl (Err ''ErrInvalidAmountOut'')
      else
        bnd (isBuyOrder s tokenIn tokenOut) (\<lambda>isBuy.
        bnd (if isBuy then buy_in s amountOut else sell_in s amountOut)
          (\<lambda>(amountIn, grossBase, grossQuote, executedLevels).
        Inr \<lparr>TokenAmountIn_r = Some (token_amount tokenIn (Some amountIn)), RemainingTokenAmountOut_r = None,
             Fee_r = Some (token_amount tokenOut (Some 0)),
             Gas_r = int64 (Base (gas s) + executedLevels * Level (gas s)),
             SwapInfo_r = Some \<lparr>IsBuy = isBuy, ExecutedLevels = executedLevels,
                                GrossBase = grossBase, GrossQuote = grossQuote\<rparr>\<rparr>))))"

subsection \<open>Updates\<close>

definition compactLevels :: "OrderBookLevel list \<Rightarrow> OrderBookLevel list" where
  "compactLevels levels = filter (\<lambda>l. case Quantity l of None \<Rightarrow> False | Some q \<Rightarrow> 0 < q) levels"

fun reduce_loop :: "OrderBookLevel list \<Rightarrow> int \<Rightarrow> OrderBookLevel list go" where
  "reduce_loop [] remaining = Inr []"
| "reduce_loop (level # levels) remaining =
     (if remaining \<le> 0 then Inr (level # levels)
      else
        bnd (deref (Quantity level)) (\<lambda>quantity.
        if quantity \<le> remaining
        then bnd (reduce_loop levels (remaining - quantity)) (\<lambda>ls. Inr (level\<lparr>Quantity := Some 0\<rparr> # ls))
        else bnd (reduce_loop levels 0) (\<lambda>ls. Inr (level\<lparr>Quantity := Some (quantity - remaining)\<rparr> # ls))))"

definition reduceOrders :: "OrderBookLevel list \<Rightarrow> int \<Rightarrow> OrderBookLevel list go" where
  "reduceOrders levels baseAmount =
     (if baseAmount \<le> 0 then Inr levels
      else bnd (reduce_loop levels baseAmount) (\<lambda>ls. Inr (compactLevels ls)))"

fun base_sum :: "OrderBookLevel list \<Rightarrow> int \<Rightarrow> int go" where
  "base_sum [] acc = Inr acc"
| "base_sum (ask # asks) acc = bnd (deref (Quantity ask)) (\<lambda>q. base_sum asks (acc + q))"

fun quote_sum :: "OrderBookLevel list \<Rightarrow> int \<Rightarrow> int go" where
  "quote_sum [] acc = Inr acc"
| "quote_sum (bid # bids) acc =
     bnd (deref (Quantity bid)) (\<lambda>q. bnd (deref (Price bid)) (\<lambda>p.
     quote_sum bids (acc + q * p div PricePrecisionMultiplier)))"

definition calculateLiquidity :: "PoolSimulator \<Rightarrow> (int \<times> int) go" where
  "calculateLiquidity s =
     (let book = OrderBook_x (extra s); pd = BuyTokenPositionDecimals (static s) in
      bnd (base_sum (Asks book) 0) (\<lambda>baseReserve.
      bnd (scaleAmountDecimals (Some baseReserve) pd (buyTokenDecs s)) (\<lambda>base.
      bnd (quote_sum (Bids book) 0) (\<lambda>quoteReserve.
      bnd (scaleAmountDecimals (Some quoteReserve) pd (payTokenDecs s)) (\<lambda>quote.
      Inr (base, quote))))))"

definition UpdateBalance ::
    "PoolSimulator \<Rightarrow> (wcmSwapInfo, 'l) UpdateBalanceParams \<Rightarrow> PoolSimulator go" where
  "UpdateBalance s params =
     (case (Amount (TokenAmountIn_u params), SwapInfo_u params) of
        (Some a, Some si) \<Rightarrow>
          if a \<le> 0 then Inr s
          else
            bnd (scaleAmountDecimals (GrossBase si) (buyTokenDecs s) (BuyTokenPositionDecimals (static s)))
              (\<lambda>baseAmount.
            let book = OrderBook_x (extra s) in
            bnd (if IsBuy si
                 then bnd (reduceOrders (Asks book) baseAmount) (\<lambda>asks. Inr (book\<lparr>Asks := asks\<rparr>))
                 else bnd (reduceOrders (Bids book) baseAmount) (\<lambda>bids. Inr (book\<lparr>Bids := bids\<rparr>))) (\<lambda>book.
            let s' = s\<lparr>extra := (extra s)\<lparr>OrderBook_x := book\<rparr>\<rparr> in
            bnd (calculateLiquidity s') (\<lambda>(baseRes, quoteRes).
            Inr (s'\<lparr>Info := (Info s')\<lparr>Reserves := [Some baseRes, Some quoteRes]\<rparr>\<rparr>))))
      | _ \<Rightarrow> Inr s)"

definition CloneState :: "PoolSimulator \<Rightarrow> PoolSimulator go" where
  "CloneState s =
     (let copy = go_map (\<lambda>l. bnd (deref (Quantity l)) (\<lambda>q. Inr (l\<lparr>Quantity := Some q\<rparr>)));
          book = OrderBook_x (extra s) in
      bnd (go_map deref (Reserves (Info s))) (\<lambda>reserves.
      bnd (copy (Bids book)) (\<lambda>bids.
      bnd (copy (Asks book)) (\<lambda>asks.
      Inr (s\<lparr>Info := (Info s)\<lparr>Reserves := map Some reserves\<rparr>,
             extra := (extra s)\<lparr>OrderBook_x := \<lparr>Bids = bids, Asks = asks\<rparr>\<rparr>\<rparr>)))))"

subsection \<open>The tracker's view of the liquidity\<close>

text \<open>The tracker scales every level on its own before it adds them up.\<close>

fun tracker_base :: "int \<Rightarrow> int \<Rightarrow> OrderBookLevel list \<Rightarrow> int \<Rightarrow> int go" where
  "tracker_base pd dec [] acc = Inr acc"
| "tracker_base pd dec (ask # asks) acc =
     bnd (scaleAmountDecimals (Quantity ask) pd dec) (\<lambda>a. tracker_base pd dec asks (acc + a))"

fun tracker_quote :: "int \<Rightarrow> int \<Rightarrow> OrderBookLevel list \<Rightarrow> int \<Rightarrow> int go" where
  "tracker_quote pd dec [] acc = Inr acc"
| "tracker_quote pd dec (bid # bids) acc =
     bnd (deref (Quantity bid)) (\<lambda>q. bnd (deref (Price bid)) (\<lambda>p.
     bnd (scaleAmountDecimals (Some (q * p div PricePrecisionMultiplier)) pd dec) (\<lambda>a.
     tracker_quote pd dec bids (acc + a))))"

definition tracker_calculateLiquidity :: "OrderBook \<Rightarrow> StaticExtra \<Rightarrow> PoolToken list \<Rightarrow> (int \<times> int) go" where
  "tracker_calculateLiquidity orderBook staticExtra tokens =
     (let dec = (\<lambda>i. if 2 \<le> length tokens then Decimals (tokens ! i) else 18);
          pd = BuyTokenPositionDecimals staticExtra in
      bnd (tracker_base pd (dec 0) (Asks orderBook) 0) (\<lambda>baseReserve.
      bnd (tracker_quote pd (dec 1) (Bids orderBook) 0) (\<lambda>quoteReserve.
      Inr (baseReserve, quoteReserve))))"

end
