(* ===== verification/Wcm_Swaps.thy ===== *)
theory Wcm_Swaps
  imports Wcm
begin

text \<open>
  What the order-book simulator guarantees.  The packed words are decoded field by field; the walks
  through the book take no more than it holds; an exact-out quote can be traded exact-in; an update
  takes the executed units off the front of the book; and the simulator keeps the contract of
  \<open>Pool_Interface\<close>.
\<close>

subsection \<open>Packed words\<close>

lemma Mask64_take: "x AND Mask64 = take_bit 64 x" for x :: int
  using take_bit_eq_mask [of 64 x] by (simp add: Mask64_def mask_eq_exp_minus_1)

text \<open>What a packed price stands for: a mantissa and a decimal scale of five bits.\<close>

definition price_value :: "int \<Rightarrow> int" where
  "price_value p =
     (if p mod 32 \<le> 18 then p div 32 * 10 ^ nat (18 - p mod 32) else p div 32 div 10 ^ nat (p mod 32 - 18))"

lemma decodePrice_value:
  assumes "0 \<le> p" and "p < 2 ^ 64"
  shows "decodePrice (Some p) = Inr (price_value p)"
proof -
  have u: "uint (uint64_of p) = p"
    using assms by (simp add: uint64_of_def uint_word_of_int)
  have scale: "uint (uint64_of p AND 31) = p mod 32"
    using u take_bit_eq_mask [of 5 p] by (simp add: unsigned_and_eq take_bit_eq_mod mask_eq_exp_minus_1)
  have mantissa: "uint (drop_bit 5 (uint64_of p)) = p div 32"
    using u by (simp add: drop_bit_eq_div uint_div)
  have "0 < (10 :: int) ^ n" for n
    by simp
  then show ?thesis
    using assms(1) by (simp add: decodePrice_def Let_def scale mantissa price_value_def TenPowInt_eq)
qed

lemma field: "drop_bit n x AND Mask64 = x div 2 ^ n mod 2 ^ 64" for x :: int
  by (simp add: Mask64_take take_bit_eq_mod drop_bit_eq_div)

lemma low_field: "x AND Mask64 = x div 1 mod 2 ^ 64" for x :: int
  by (simp add: Mask64_take take_bit_eq_mod)

lemma field_at:
  fixes h f l w :: int
  assumes "0 \<le> l" and "l < w" and "0 \<le> f" and "f < 2 ^ 64"
  shows "((h * 2 ^ 64 + f) * w + l) div w mod 2 ^ 64 = f"
proof -
  have "((h * 2 ^ 64 + f) * w + l) div w = h * 2 ^ 64 + f"
    using assms(1,2) by (simp add: div_pos_pos_trivial)
  then show ?thesis
    using assms(3,4) by simp
qed

text \<open>A bucket of a depth chart is decoded field by field: two quantities and two packed prices of 64
  bits each, from the most significant end.\<close>

theorem wcm_bucket_fields:
  assumes "0 \<le> q1" and "q1 < 2 ^ 64" and "0 \<le> p1" and "p1 < 2 ^ 64"
    and "0 \<le> q2" and "q2 < 2 ^ 64" and "0 \<le> p2" and "p2 < 2 ^ 64"
  shows "decodeDepthChartBucket (Some (q1 * 2 ^ 192 + p1 * 2 ^ 128 + q2 * 2 ^ 64 + p2))
    = Inr (price_value p1, q1, price_value p2, q2)"
proof -
  let ?w = "q1 * 2 ^ 192 + p1 * 2 ^ 128 + q2 * 2 ^ 64 + p2"
  have "?w AND Mask64 = p2"
    using field_at [of 0 1 p2 "q1 * 2 ^ 128 + p1 * 2 ^ 64 + q2"] assms(7,8) by (simp add: low_field algebra_simps)
  moreover have "drop_bit 64 ?w AND Mask64 = q2"
    using field_at [of p2 "2 ^ 64" q2 "q1 * 2 ^ 64 + p1"] assms(5-8) by (simp add: field algebra_simps)
  moreover have "drop_bit 128 ?w AND Mask64 = p1"
    using field_at [of "q2 * 2 ^ 64 + p2" "2 ^ 128" p1 q1] assms(3-8) by (simp add: field algebra_simps)
  moreover have "drop_bit 192 ?w AND Mask64 = q1"
    using field_at [of "p1 * 2 ^ 128 + (q2 * 2 ^ 64 + p2)" "2 ^ 192" q1 0] assms by (simp add: field algebra_simps)
  ultimately show ?thesis
    using assms(3,4,7,8) by (simp add: decodeDepthChartBucket_def Let_def decodePrice_value)
qed

subsection \<open>Levels\<close>

definition level_ok :: "OrderBookLevel \<Rightarrow> bool" where
  "level_ok l = (case (Price l, Quantity l) of (Some p, Some q) \<Rightarrow> 0 < p \<and> 0 < q | _ \<Rightarrow> False)"

abbreviation "levels_ok \<equiv> list_all level_ok"

definition qty :: "OrderBookLevel \<Rightarrow> int" where
  "qty l = the (Quantity l)"

definition prc :: "OrderBookLevel \<Rightarrow> int" where
  "prc l = the (Price l)"

abbreviation cost :: "OrderBookLevel \<Rightarrow> int" where
  "cost l \<equiv> qty l * prc l div PricePrecisionMultiplier"

abbreviation depth :: "OrderBookLevel list \<Rightarrow> int" where
  "depth ls \<equiv> sum_list (map qty ls)"

abbreviation worth :: "OrderBookLevel list \<Rightarrow> int" where
  "worth ls \<equiv> sum_list (map cost ls)"

lemma PPM_pos [simp]:
  "0 < PricePrecisionMultiplier" "PricePrecisionMultiplier \<noteq> 0" "0 \<le> PricePrecisionMultiplier"
  by (simp_all add: PricePrecisionMultiplier_def)

lemma level_okD:
  assumes "level_ok l"
  shows "Price l = Some (prc l)" and "Quantity l = Some (qty l)" and "0 < prc l" and "0 < qty l"
  using assms by (auto simp: level_ok_def prc_def qty_def split: option.splits)

lemma cost_nonneg: "level_ok l \<Longrightarrow> 0 \<le> cost l"
  using level_okD(3,4) [of l] by simp

lemma depth_nonneg: "levels_ok ls \<Longrightarrow> 0 \<le> depth ls"
  by (induction ls) (auto dest: level_okD(4) simp: add_nonneg_nonneg less_imp_le)

lemma worth_nonneg: "levels_ok ls \<Longrightarrow> 0 \<le> worth ls"
  by (induction ls) (auto dest: cost_nonneg intro: add_nonneg_nonneg)

text \<open>What the level decoder appends: at most \<open>count\<close> levels, each with a positive price and quantity.\<close>

definition kept :: "int \<Rightarrow> int \<Rightarrow> OrderBookLevel list" where
  "kept p q = (if 0 < p \<and> 0 < q then [\<lparr>Price = Some p, Quantity = Some q\<rparr>] else [])"

lemma kept_ok: "levels_ok (kept p q)" "length (kept p q) \<le> 1"
  by (simp_all add: kept_def level_ok_def)

lemma decode_buckets_step:
  "decode_buckets (raw # raws) decoded count out =
     (if count \<le> decoded then Inr out
      else bnd (decodeDepthChartBucket raw) (\<lambda>(p1, q1, p2, q2).
        if count \<le> decoded + 1 then Inr (out @ kept p1 q1)
        else decode_buckets raws (decoded + 2) count (out @ kept p1 q1 @ kept p2 q2)))"
  by (auto simp: kept_def Let_def intro!: arg_cong [where f = "bnd (decodeDepthChartBucket raw)"])

lemma decode_buckets_appends:
  "decode_buckets raws decoded count out = Inr out' \<Longrightarrow>
   \<exists>ls. out' = out @ ls \<and> levels_ok ls \<and> int (length ls) \<le> max 0 (count - decoded)"
proof (induction raws arbitrary: decoded out)
  case (Cons raw raws)
  show ?case
  proof (cases "count \<le> decoded")
    case False
    with Cons.prems obtain p1 q1 p2 q2 where b: "decodeDepthChartBucket raw = Inr (p1, q1, p2, q2)"
      by (auto simp: decode_buckets_step bnd_eq_Inr simp del: decode_buckets.simps)
    show ?thesis
    proof (cases "count \<le> decoded + 1")
      case True
      with Cons.prems False b have "out' = out @ kept p1 q1"
        by (simp add: decode_buckets_step del: decode_buckets.simps)
      with kept_ok [of p1 q1] False show ?thesis
        by (intro exI [of _ "kept p1 q1"]) auto
    next
      case more: False
      with Cons.prems False b
      have "decode_buckets raws (decoded + 2) count (out @ kept p1 q1 @ kept p2 q2) = Inr out'"
        by (simp add: decode_buckets_step del: decode_buckets.simps append_assoc)
      from Cons.IH [OF this] obtain ls where ls: "out' = (out @ kept p1 q1 @ kept p2 q2) @ ls" "levels_ok ls"
        "int (length ls) \<le> max 0 (count - (decoded + 2))"
        by blast
      then show ?thesis
        using kept_ok [of p1 q1] kept_ok [of p2 q2] more
        by (intro exI [of _ "kept p1 q1 @ kept p2 q2 @ ls"]) auto
    qed
  qed (use Cons.prems in simp)
qed simp

lemma decodeLevels_ok:
  assumes "decodeLevels raw out = Inr (next', out')" and "levels_ok out"
  shows "levels_ok out'" and "length out' \<le> length out + (length raw - 1)"
proof -
  have "\<exists>ls. out' = out @ ls \<and> levels_ok ls \<and> length ls \<le> length raw - 1"
  proof (cases "raw = [] \<or> hd raw = None")
    case True
    with assms(1) show ?thesis
      by (cases raw) (auto simp: decodeLevels_def)
  next
    case False
    then obtain header buckets where raw: "raw = Some header # buckets"
      by (cases raw) auto
    obtain count n where *: "decode_buckets (take n buckets) 0 count out = Inr out'"
      and "count \<le> int (length buckets)"
      using assms(1) by (auto simp: raw decodeLevels_def Let_def bnd_eq_Inr split: if_splits)
    with decode_buckets_appends [OF *] show ?thesis
      by (auto simp: raw)
  qed
  then show "levels_ok out'" and "length out' \<le> length out + (length raw - 1)"
    using assms(2) by auto
qed

text \<open>A chart that packs two levels into each bucket is cut to half of them: the decoder reads at most as many
  levels as there are buckets.\<close>

definition full_chart :: "bigint list" where
  "full_chart = [Some 4, Some (7 * 2 ^ 192 + 50 * 2 ^ 128 + 8 * 2 ^ 64 + 82),
                 Some (9 * 2 ^ 192 + 114 * 2 ^ 128 + 6 * 2 ^ 64 + 146)]"

lemma chart_cut_in_half:
  "decodeLevels full_chart [] = Inr (0,
     [\<lparr>Price = Some 1, Quantity = Some 7\<rparr>, \<lparr>Price = Some 2, Quantity = Some 8\<rparr>])"
  by code_simp

subsection \<open>Decimals\<close>

definition scaled :: "bool \<Rightarrow> int \<Rightarrow> int \<Rightarrow> int \<Rightarrow> int" where
  "scaled up a f t =
     (if f \<le> t then a * 10 ^ nat (t - f)
      else ((if up then a + (10 ^ nat (f - t) - 1) else a) div 10 ^ nat (f - t)))"

lemma scaleRounding_eq [simp]: "scaleAmountDecimalsRounding (Some a) f t up = Inr (scaled up a f t)"
  by (auto simp: scaleAmountDecimalsRounding_def scaled_def TenPowInt_eq)

lemma scale_eq [simp]: "scaleAmountDecimals (Some a) f t = Inr (scaled False a f t)"
  by (simp add: scaleAmountDecimals_def)

lemma scale_nil [simp]: "scaleAmountDecimals None f t = Inr 0"
  by (simp add: scaleAmountDecimals_def scaleAmountDecimalsRounding_def)

lemma scaled_mono: "a \<le> b \<Longrightarrow> scaled up a f t \<le> scaled up b f t"
  by (auto simp: scaled_def intro: zdiv_mono1 mult_right_mono)

lemma scaled_nonneg: "0 \<le> a \<Longrightarrow> 0 \<le> scaled up a f t"
  by (simp add: scaled_def)

text \<open>Scaling up-rounded one way and down-rounded back loses nothing.\<close>

lemma scaled_galois:
  assumes "scaled True a f t \<le> n"
  shows "a \<le> scaled False n t f"
proof (cases "f \<le> t")
  case True
  let ?k = "10 ^ nat (t - f) :: int"
  have "a * ?k \<le> n"
    using assms True by (simp add: scaled_def)
  then have "a \<le> n div ?k"
    by (intro floor_geI) simp_all
  with True show ?thesis
    by (cases "f = t") (simp_all add: scaled_def)
next
  case False
  let ?k = "10 ^ nat (f - t) :: int"
  have "(a + (?k - 1)) div ?k \<le> n"
    using assms False by (simp add: scaled_def)
  moreover have "a + (?k - 1) < ((a + (?k - 1)) div ?k + 1) * ?k"
    by (rule floor_gt) simp
  moreover have "((a + (?k - 1)) div ?k + 1) * ?k \<le> (n + 1) * ?k"
    using calculation(1) by (intro mult_right_mono) simp_all
  ultimately have "a + (?k - 1) < (n + 1) * ?k"
    by (simp only: order.strict_trans2)
  then have "a \<le> n * ?k"
    by (simp add: algebra_simps)
  with False show ?thesis
    by (simp add: scaled_def)
qed

text \<open>Rounding down both ways loses less than one unit of the coarser side.\<close>

lemma scaled_back:
  "scaled False (scaled False a f t) t f \<le> a \<and> a < scaled False (scaled False a f t) t f + 10 ^ nat (f - t)"
proof (cases "f \<le> t")
  case True
  then show ?thesis
    by (cases "f = t") (simp_all add: scaled_def)
next
  case False
  let ?k = "10 ^ nat (f - t) :: int"
  have "a div ?k * ?k \<le> a" and "a < (a div ?k + 1) * ?k"
    by (rule floor_le, simp) (rule floor_gt, simp)
  with False show ?thesis
    by (simp add: scaled_def algebra_simps)
qed

subsection \<open>Fees\<close>

definition fraction :: "bigint \<Rightarrow> bool" where
  "fraction m = (case m of None \<Rightarrow> False | Some m \<Rightarrow> 0 \<le> m \<and> m \<le> FeeDivisor)"

definition cap_ok :: "bigint \<Rightarrow> bool" where
  "cap_ok c = (case c of None \<Rightarrow> True | Some c \<Rightarrow> 0 \<le> c)"

definition spot_fee :: "int \<Rightarrow> bigint \<Rightarrow> int \<Rightarrow> int" where
  "spot_fee m maxFee q =
     (let fee = q * m div FeeDivisor in case maxFee of None \<Rightarrow> fee | Some c \<Rightarrow> min c fee)"

lemma FeeDivisor_pos [simp]: "0 < FeeDivisor" "FeeDivisor \<noteq> 0" "0 \<le> FeeDivisor"
  by (simp_all add: FeeDivisor_def)

lemma calcSpotFee_eq:
  assumes "cap_ok maxFee"
  shows "calcSpotFee q (Some m) maxFee = Inr (spot_fee m maxFee q)"
  using assms by (auto simp: calcSpotFee_def spot_fee_def cap_ok_def Let_def min_def split: option.splits)

lemma spot_fee_bounds:
  assumes "cap_ok maxFee" and "0 \<le> m" and "m \<le> FeeDivisor" and "0 \<le> q"
  shows "0 \<le> spot_fee m maxFee q" and "spot_fee m maxFee q \<le> q"
proof -
  have "q * m \<le> q * FeeDivisor"
    by (rule mult_left_mono [OF assms(3,4)])
  then have "q * m div FeeDivisor \<le> q"
    using zdiv_mono1 [of "q * m" "q * FeeDivisor" FeeDivisor] by simp
  moreover have "0 \<le> q * m div FeeDivisor"
    using assms by simp
  ultimately show "0 \<le> spot_fee m maxFee q" and "spot_fee m maxFee q \<le> q"
    using assms(1) by (auto simp: spot_fee_def cap_ok_def Let_def split: option.splits)
qed

text \<open>What is left after the fee grows with the amount.\<close>

lemma net_mono:
  assumes "0 \<le> m" and "m \<le> FeeDivisor" and "q \<le> q'"
  shows "q - spot_fee m maxFee q \<le> q' - spot_fee m maxFee q'"
proof -
  have "(q' - q) * m \<le> (q' - q) * FeeDivisor"
    by (rule mult_left_mono) (use assms in simp_all)
  then have "q' * m \<le> q * m + (q' - q) * FeeDivisor"
    by (simp add: algebra_simps)
  then have "q' * m div FeeDivisor \<le> q * m div FeeDivisor + (q' - q)"
    using zdiv_mono1 [of "q' * m" "q * m + (q' - q) * FeeDivisor" FeeDivisor] by simp
  moreover have "q * m div FeeDivisor \<le> q' * m div FeeDivisor"
    by (intro zdiv_mono1 mult_right_mono assms) simp
  ultimately show ?thesis
    by (auto simp: spot_fee_def Let_def split: option.splits)
qed

text \<open>The gross amount leaves at least the net amount after its fee.\<close>

lemma getGrossAmount_covers:
  assumes "getGrossAmount net (Some m) maxFee = Inr g" and "0 \<le> m" and "m \<le> FeeDivisor"
  shows "net \<le> g - spot_fee m maxFee g"
proof -
  consider (free) "m = 0" "g = net"
    | (capped) c where "maxFee = Some c" "g = net + c" "c \<le> (net + c) * m div FeeDivisor"
    | (gross) "m \<noteq> 0" "big_div (net * FeeDivisor + (FeeDivisor - m - 1)) (FeeDivisor - m) = Inr g"
  proof (cases "m = 0")
    case True
    with assms(1) show thesis
      by (simp add: getGrossAmount_def free)
  next
    case False
    show thesis
    proof (cases maxFee)
      case None
      with False assms(1) show thesis
        by (simp add: getGrossAmount_def Let_def gross)
    next
      case (Some c)
      with False assms(1) show thesis
        by (cases "c \<le> (net + c) * m div FeeDivisor") (simp_all add: getGrossAmount_def Let_def capped gross)
    qed
  qed
  then show ?thesis
  proof cases
    case free
    then show ?thesis
      by (auto simp: spot_fee_def Let_def split: option.splits)
  next
    case (capped c)
    then show ?thesis
      by (simp add: spot_fee_def)
  next
    case gross
    let ?d = "FeeDivisor - m"
    have d: "0 < ?d"
      using gross(2) assms(3) by (auto simp: big_div_def split: if_splits)
    then have g: "g = (net * FeeDivisor + (?d - 1)) div ?d"
      using gross(2) by simp
    have "net * FeeDivisor + (?d - 1) < (g + 1) * ?d"
      unfolding g by (rule floor_gt [OF d])
    then have "net * FeeDivisor \<le> g * ?d"
      by (simp add: algebra_simps)
    moreover have "g * m div FeeDivisor * FeeDivisor \<le> g * m"
      by (rule floor_le) simp
    ultimately have "net * FeeDivisor \<le> (g - g * m div FeeDivisor) * FeeDivisor"
      by (simp add: algebra_simps)
    then have "net \<le> g - g * m div FeeDivisor"
      by simp
    moreover have "spot_fee m maxFee g \<le> g * m div FeeDivisor"
      by (auto simp: spot_fee_def Let_def split: option.splits)
    ultimately show ?thesis
      by linarith
  qed
qed

subsection \<open>Walks\<close>

lemma ask_loop_depth:
  "levels_ok ls \<Longrightarrow> 0 \<le> r \<Longrightarrow> \<exists>r' t' n'. ask_loop ls r t n = Inr (r', t', n') \<and> t \<le> t' \<and> t' \<le> t + depth ls"
proof (induction ls arbitrary: r t n)
  case (Cons l ls)
  note l = level_okD [of l]
  have ok: "level_ok l" "levels_ok ls"
    using Cons.prems by simp_all
  consider "r \<le> 0" | "0 < r" "cost l \<le> r" | "0 < r" "r < cost l"
    by linarith
  then show ?case
  proof cases
    case 1
    then show ?thesis
      using l(4) [OF ok(1)] depth_nonneg [OF ok(2)] by simp
  next
    case 2
    with Cons.IH [OF ok(2), of "r - cost l" "t + qty l" "n + 1"] show ?thesis
      using l ok(1) by auto
  next
    case 3
    let ?p = "r * PricePrecisionMultiplier div prc l"
    have "r * PricePrecisionMultiplier \<le> cost l * PricePrecisionMultiplier"
      using 3(2) by simp
    also have "\<dots> \<le> qty l * prc l"
      by (rule floor_le) simp
    finally have "?p \<le> qty l"
      using zdiv_mono1 [of "r * PricePrecisionMultiplier" "qty l * prc l" "prc l"] l(3) [OF ok(1)] by simp
    moreover have "0 \<le> ?p"
      using 3(1) l(3) [OF ok(1)] by simp
    moreover obtain r' t' n' where *: "ask_loop ls 0 (t + ?p) (n + 1) = Inr (r', t', n')" "t + ?p \<le> t'"
      "t' \<le> t + ?p + depth ls"
      using Cons.IH [OF ok(2), of 0 "t + ?p" "n + 1"] by auto
    moreover have "ask_loop (l # ls) r t n = Inr (r', t', n')"
      using 3 l ok(1) *(1) by simp
    ultimately show ?thesis by auto
  qed
qed simp

lemma bid_loop_worth:
  "levels_ok ls \<Longrightarrow> 0 \<le> r \<Longrightarrow> \<exists>r' t' n'. bid_loop ls r t n = Inr (r', t', n') \<and> t \<le> t' \<and> t' \<le> t + worth ls"
proof (induction ls arbitrary: r t n)
  case (Cons l ls)
  note l = level_okD [of l]
  have ok: "level_ok l" "levels_ok ls"
    using Cons.prems by simp_all
  consider "r \<le> 0" | "0 < r" "qty l \<le> r" | "0 < r" "r < qty l"
    by linarith
  then show ?case
  proof cases
    case 1
    then show ?thesis
      using cost_nonneg [OF ok(1)] worth_nonneg [OF ok(2)] by simp
  next
    case 2
    then obtain r' t' n' where *: "bid_loop ls (r - qty l) (t + cost l) (n + 1) = Inr (r', t', n')"
      "t + cost l \<le> t'" "t' \<le> t + cost l + worth ls"
      using Cons.IH [OF ok(2), of "r - qty l" "t + cost l" "n + 1"] by auto
    moreover have "bid_loop (l # ls) r t n = Inr (r', t', n')"
      using 2 l ok(1) *(1) by simp
    moreover have "t \<le> t'"
      using *(2) cost_nonneg [OF ok(1)] by linarith
    ultimately show ?thesis
      by (auto simp del: bid_loop.simps)
  next
    case 3
    let ?p = "r * prc l div PricePrecisionMultiplier"
    have "?p \<le> cost l"
      using 3(2) l(3) [OF ok(1)] by (intro zdiv_mono1 mult_right_mono) simp_all
    moreover have "0 \<le> ?p"
      using 3(1) l(3) [OF ok(1)] by simp
    moreover obtain r' t' n' where *: "bid_loop ls 0 (t + ?p) (n + 1) = Inr (r', t', n')" "t + ?p \<le> t'"
      "t' \<le> t + ?p + worth ls"
      using Cons.IH [OF ok(2), of 0 "t + ?p" "n + 1"] by auto
    moreover have "bid_loop (l # ls) r t n = Inr (r', t', n')"
      using 3 l ok(1) *(1) by simp
    moreover have "t \<le> t'"
      using *(2) calculation(2) by linarith
    ultimately show ?thesis
      by (auto simp del: bid_loop.simps)
  qed
qed simp

subsection \<open>Exact out against exact in\<close>

text \<open>A level whose whole quantity costs at least one unit.\<close>

abbreviation "tradable ls \<equiv> list_all (\<lambda>l. 0 < cost l) ls"

lemma quote_loop_mono:
  "levels_ok ls \<Longrightarrow> quote_loop ls r t n = Inr (r', t', n') \<Longrightarrow> t \<le> t'"
proof (induction ls arbitrary: r t n)
  case (Cons l ls)
  note l = level_okD [of l]
  have ok: "level_ok l" "levels_ok ls"
    using Cons.prems by simp_all
  consider "r \<le> 0" | "0 < r" "qty l \<le> r" | "0 < r" "r < qty l"
    by linarith
  then show ?case
  proof cases
    case 2
    then have "quote_loop ls (r - qty l) (t + cost l) (n + 1) = Inr (r', t', n')"
      using Cons.prems(2) l ok(1) by simp
    from Cons.IH [OF ok(2) this] cost_nonneg [OF ok(1)] show ?thesis
      by linarith
  next
    case 3
    let ?p = "(r * prc l + (PricePrecisionMultiplier - 1)) div PricePrecisionMultiplier"
    have out: "quote_loop ls 0 (t + ?p) (n + 1) = Inr (r', t', n')"
      using Cons.prems(2) 3 l ok(1) by simp
    have "0 \<le> ?p"
      using 3(1) l(3) [OF ok(1)] by (intro floor_nonneg_nonneg) (simp_all add: PricePrecisionMultiplier_def)
    with Cons.IH [OF ok(2) out] show ?thesis
      by linarith
  qed (use Cons.prems in simp)
qed simp

text \<open>Whoever spends what the exact-out walk asks for receives at least the base it was asked for.\<close>

lemma quote_covers_base:
  "levels_ok ls \<Longrightarrow> tradable ls \<Longrightarrow> quote_loop ls b tq n = Inr (b', tq', n') \<Longrightarrow> b' \<le> 0 \<Longrightarrow>
   ask_loop ls q tb k = Inr (q', tb', k') \<Longrightarrow> tq' - tq \<le> q \<Longrightarrow> 0 \<le> b \<Longrightarrow> tb + b \<le> tb'"
proof (induction ls arbitrary: b tq n q tb k)
  case (Cons l ls)
  note l = level_okD [of l]
  have ok: "level_ok l" "levels_ok ls" "tradable ls" "0 < cost l"
    using Cons.prems by simp_all
  note prems = Cons.prems(3-)
  have mono: "ask_loop ls r t m = Inr (q', tb', k') \<Longrightarrow> 0 \<le> r \<Longrightarrow> t \<le> tb'" for r t m
    using ask_loop_depth [OF ok(2), of r t m] by auto
  have q0: "0 \<le> q"
    using quote_loop_mono [OF Cons.prems(1,3)] prems(4) by linarith
  consider "b = 0" | "0 < b" "qty l \<le> b" | "0 < b" "b < qty l"
    using prems(5) by linarith
  then show ?case
  proof cases
    case 1
    then show ?thesis
      using ask_loop_depth [OF Cons.prems(1) q0, of tb k] prems(3) by (auto simp del: ask_loop.simps)
  next
    case 2
    then have out: "quote_loop ls (b - qty l) (tq + cost l) (n + 1) = Inr (b', tq', n')"
      using prems(1) l ok(1) by simp
    from quote_loop_mono [OF ok(2) this] have "cost l \<le> q"
      using prems(4) by linarith
    then have "ask_loop ls (q - cost l) (tb + qty l) (k + 1) = Inr (q', tb', k')"
      using prems(3) l ok(1,4) by simp
    from Cons.IH [OF ok(2,3) out prems(2) this] 2 prems(4) show ?thesis
      by linarith
  next
    case 3
    let ?p = "(b * prc l + (PricePrecisionMultiplier - 1)) div PricePrecisionMultiplier"
    have out: "quote_loop ls 0 (tq + ?p) (n + 1) = Inr (b', tq', n')"
      using prems(1) 3 l ok(1) by simp
    from quote_loop_mono [OF ok(2) this] have "?p \<le> q"
      using prems(4) by linarith
    moreover have "b * prc l + (PricePrecisionMultiplier - 1) < (?p + 1) * PricePrecisionMultiplier"
      by (rule floor_gt) simp
    moreover have "?p * PricePrecisionMultiplier \<le> q * PricePrecisionMultiplier"
      by (rule mult_right_mono [OF calculation(1)]) simp
    moreover have "(?p + 1) * PricePrecisionMultiplier = ?p * PricePrecisionMultiplier + PricePrecisionMultiplier"
      by (simp add: distrib_right)
    ultimately have bp: "b * prc l \<le> q * PricePrecisionMultiplier"
      by linarith
    moreover have "0 < b * prc l"
      using 3(1) l(3) [OF ok(1)] by simp
    ultimately have q: "0 < q"
      by (metis PPM_pos(1) mult_eq_0_iff not_less order_le_less q0)
    show ?thesis
    proof (cases "cost l \<le> q")
      case True
      then have "ask_loop ls (q - cost l) (tb + qty l) (k + 1) = Inr (q', tb', k')"
        using prems(3) l ok(1) q by simp
      from mono [OF this] True 3 show ?thesis
        by linarith
    next
      case False
      let ?part = "q * PricePrecisionMultiplier div prc l"
      have "ask_loop ls 0 (tb + ?part) (k + 1) = Inr (q', tb', k')"
        using prems(3) l ok(1) q False by simp
      from mono [OF this] have "tb + ?part \<le> tb'"
        by simp
      moreover have "b \<le> ?part"
        using l(3) [OF ok(1)] bp by (intro floor_geI)
      ultimately show ?thesis
        by linarith
    qed
  qed
qed simp

subsection \<open>The book as single units\<close>

text \<open>The abstract side of a book: one entry per unit of base, carrying its price.\<close>

definition units :: "OrderBookLevel list \<Rightarrow> int list" where
  "units ls = concat (map (\<lambda>l. replicate (nat (qty l)) (prc l)) ls)"

lemma units_simps [simp]:
  "units [] = []" "units (l # ls) = replicate (nat (qty l)) (prc l) @ units ls"
  by (simp_all add: units_def)

lemma compactLevels_simps [simp]:
  "compactLevels [] = []" "compactLevels (l\<lparr>Quantity := Some 0\<rparr> # ls) = compactLevels ls"
  "0 < q \<Longrightarrow> compactLevels (l\<lparr>Quantity := Some q\<rparr> # ls) = l\<lparr>Quantity := Some q\<rparr> # compactLevels ls"
  "level_ok l \<Longrightarrow> compactLevels (l # ls) = l # compactLevels ls"
  by (auto simp: compactLevels_def level_ok_def split: option.splits)

lemma compactLevels_ok: "levels_ok ls \<Longrightarrow> compactLevels ls = ls"
  by (induction ls) simp_all

lemma level_set_quantity: "level_ok l \<Longrightarrow> 0 < q \<Longrightarrow> level_ok (l\<lparr>Quantity := Some q\<rparr>)"
  by (auto simp: level_ok_def split: option.splits)

lemma set_quantity_simps [simp]:
  "qty (l\<lparr>Quantity := Some q\<rparr>) = q" "prc (l\<lparr>Quantity := Some q\<rparr>) = prc l"
  by (simp_all add: qty_def prc_def)

lemma reduce_loop_units:
  "levels_ok ls \<Longrightarrow> \<exists>ls'. reduce_loop ls b = Inr ls' \<and> levels_ok (compactLevels ls') \<and>
    units (compactLevels ls') = drop (nat b) (units ls)"
proof (induction ls arbitrary: b)
  case (Cons l ls)
  note l = level_okD [of l]
  have ok: "level_ok l" "levels_ok ls"
    using Cons.prems by simp_all
  consider "b \<le> 0" | "0 < b" "qty l \<le> b" | "0 < b" "b < qty l"
    by linarith
  then show ?case
  proof cases
    case 1
    then show ?thesis
      using ok by (simp add: compactLevels_ok)
  next
    case 2
    obtain ls' where *: "reduce_loop ls (b - qty l) = Inr ls'" "levels_ok (compactLevels ls')"
      "units (compactLevels ls') = drop (nat (b - qty l)) (units ls)"
      using Cons.IH [OF ok(2)] by blast
    moreover have "reduce_loop (l # ls) b = Inr (l\<lparr>Quantity := Some 0\<rparr> # ls')"
      using 2 l ok(1) *(1) by simp
    moreover have "drop (nat (b - qty l)) (units ls) = drop (nat b) (units (l # ls))"
      using 2 l(4) [OF ok(1)] by (simp add: nat_diff_distrib')
    ultimately show ?thesis
      by (auto simp del: reduce_loop.simps)
  next
    case 3
    obtain ls' where *: "reduce_loop ls 0 = Inr ls'" "levels_ok (compactLevels ls')"
      "units (compactLevels ls') = units ls"
      using Cons.IH [OF ok(2), of 0] by auto
    moreover have "reduce_loop (l # ls) b = Inr (l\<lparr>Quantity := Some (qty l - b)\<rparr> # ls')"
      using 3 l ok(1) *(1) by simp
    moreover have "drop (nat b) (units (l # ls)) = replicate (nat (qty l - b)) (prc l) @ units ls"
      using 3 by (simp add: nat_diff_distrib')
    ultimately show ?thesis
      using 3 ok(1) by (auto simp: level_set_quantity simp del: reduce_loop.simps)
  qed
qed simp

lemma reduceOrders_units:
  assumes "levels_ok ls"
  shows "\<exists>ls'. reduceOrders ls b = Inr ls' \<and> levels_ok ls' \<and> units ls' = drop (nat b) (units ls)"
  using reduce_loop_units [OF assms, of b] assms by (cases "b \<le> 0") (auto simp: reduceOrders_def)

lemma length_units: "levels_ok ls \<Longrightarrow> int (length (units ls)) = depth ls"
  by (induction ls) (auto dest: level_okD(4))

subsection \<open>Well-formed pools\<close>

abbreviation asks_of :: "PoolSimulator \<Rightarrow> OrderBookLevel list" where
  "asks_of s \<equiv> Asks (OrderBook_x (extra s))"

abbreviation bids_of :: "PoolSimulator \<Rightarrow> OrderBookLevel list" where
  "bids_of s \<equiv> Bids (OrderBook_x (extra s))"

abbreviation position :: "PoolSimulator \<Rightarrow> int" where
  "position s \<equiv> BuyTokenPositionDecimals (static s)"

text \<open>Two different tokens, levels with positive prices and quantities, a fee between 0 and 1 and fee caps
  that are not negative.\<close>

definition wf :: "PoolSimulator \<Rightarrow> bool" where
  "wf s =
     ((case Tokens (Info s) of
        base # quote # _ \<Rightarrow> base \<noteq> '''' \<and> quote \<noteq> '''' \<and> \<not> equal_fold base quote
      | _ \<Rightarrow> False) \<and>
     (levels_ok (asks_of s) \<and> levels_ok (bids_of s) \<and> fraction (TakerFeeMultiplier (extra s)) \<and>
      cap_ok (FromMaxFee (extra s)) \<and> cap_ok (ToMaxFee (extra s))))"

lemma wfE:
  assumes "wf s"
  obtains base quote rest m where "Tokens (Info s) = base # quote # rest" "base \<noteq> ''''" "quote \<noteq> ''''"
    "\<not> equal_fold base quote" "levels_ok (asks_of s)" "levels_ok (bids_of s)"
    "TakerFeeMultiplier (extra s) = Some m" "0 \<le> m" "m \<le> FeeDivisor" "cap_ok (FromMaxFee (extra s))"
    "cap_ok (ToMaxFee (extra s))"
  using assms by (auto simp: wf_def fraction_def split: list.splits option.splits)

lemma base_sum_depth: "levels_ok ls \<Longrightarrow> base_sum ls acc = Inr (acc + depth ls)"
  by (induction ls arbitrary: acc) (auto simp: level_okD)

lemma quote_sum_worth: "levels_ok ls \<Longrightarrow> quote_sum ls acc = Inr (acc + worth ls)"
  by (induction ls arbitrary: acc) (auto simp: level_okD)

definition base_reserve :: "PoolSimulator \<Rightarrow> int" where
  "base_reserve s = scaled False (depth (asks_of s)) (position s) (buyTokenDecs s)"

definition quote_reserve :: "PoolSimulator \<Rightarrow> int" where
  "quote_reserve s = scaled False (worth (bids_of s)) (position s) (payTokenDecs s)"

lemma liquidity_eq:
  assumes "wf s"
  shows "calculateLiquidity s = Inr (base_reserve s, quote_reserve s)"
  using assms by (auto simp: wf_def calculateLiquidity_def Let_def base_sum_depth quote_sum_worth
      base_reserve_def quote_reserve_def)

text \<open>What the book can pay out of a token.\<close>

definition reserve :: "PoolSimulator \<Rightarrow> string \<Rightarrow> int" where
  "reserve s t =
     (case Tokens (Info s) of
        base # quote # _ \<Rightarrow> if equal_fold t base then base_reserve s
                           else if equal_fold t quote then quote_reserve s else 0
      | _ \<Rightarrow> 0)"

lemma wcm_pair_cases:
  assumes "wf s" and "isValidTokenPair s tin tout = Inr True"
  obtains (buy) "isBuyOrder s tin tout = Inr True" "reserve s tout = base_reserve s"
    | (sell) "isBuyOrder s tin tout = Inr False" "reserve s tout = quote_reserve s"
proof -
  obtain base quote rest where t: "Tokens (Info s) = base # quote # rest" "base \<noteq> ''''" "quote \<noteq> ''''"
    "\<not> equal_fold base quote"
    using assms(1) by (rule wfE)
  consider "equal_fold tin quote" "equal_fold tout base" | "equal_fold tin base" "equal_fold tout quote"
    using assms(2) t by (auto simp: isValidTokenPair_def baseToken_def quoteToken_def idx_def)
  then show thesis
  proof cases
    case 1
    then show thesis
      using t by (intro buy) (simp_all add: isBuyOrder_def baseToken_def quoteToken_def reserve_def)
  next
    case 2
    then have "\<not> equal_fold tin quote" and "\<not> equal_fold tout base"
      using t(4) by (simp_all add: equal_fold_def)
    with 2 show thesis
      using t by (intro sell) (simp_all add: isBuyOrder_def baseToken_def quoteToken_def reserve_def)
  qed
qed

subsection \<open>Quotes\<close>

lemma executeAskOrders_Inr:
  assumes "executeAskOrders book q = Inr (gross, n)" and "levels_ok (Asks book)" and "0 \<le> q"
  shows "0 \<le> gross" and "gross \<le> depth (Asks book)"
  using assms ask_loop_depth [OF assms(2,3), of 0 0]
  by (auto simp: executeAskOrders_def filled_def split: if_splits)

lemma executeBidOrders_Inr:
  assumes "executeBidOrders book q = Inr (gross, n)" and "levels_ok (Bids book)" and "0 \<le> q"
  shows "0 \<le> gross" and "gross \<le> worth (Bids book)"
  using assms bid_loop_worth [OF assms(2,3), of 0 0]
  by (auto simp: executeBidOrders_def filled_def split: if_splits)

lemma buy_out_Inr:
  assumes "wf s" and "0 \<le> a" and "buy_out s (Some a) = Inr (out, gb, gq, n)"
  obtains gross where "executeAskOrders (OrderBook_x (extra s)) (scaled False a (payTokenDecs s) (position s))
      = Inr (gross, n)"
    "0 \<le> gross" "gb = Some (scaled False gross (position s) (buyTokenDecs s))" "out \<le> base_reserve s"
proof -
  obtain m where w: "levels_ok (asks_of s)" "TakerFeeMultiplier (extra s) = Some m" "0 \<le> m" "m \<le> FeeDivisor"
    "cap_ok (FromMaxFee (extra s))"
    using assms(1) by (rule wfE)
  obtain gross where g: "executeAskOrders (OrderBook_x (extra s)) (scaled False a (payTokenDecs s) (position s))
      = Inr (gross, n)"
    "out = scaled False (gross - spot_fee m (FromMaxFee (extra s)) gross) (position s) (buyTokenDecs s)"
    "gb = Some (scaled False gross (position s) (buyTokenDecs s))"
    using assms(3) w(2) by (auto simp: buy_out_def Let_def go_simps calcSpotFee_eq [OF w(5)] split: if_splits)
  note gross = executeAskOrders_Inr [OF g(1) w(1) scaled_nonneg [OF assms(2)]]
  have "gross - spot_fee m (FromMaxFee (extra s)) gross \<le> depth (asks_of s)"
    using spot_fee_bounds(1) [OF w(5,3,4) gross(1)] gross(2) by linarith
  then have "out \<le> base_reserve s"
    unfolding g(2) base_reserve_def by (rule scaled_mono)
  with g(1,3) gross(1) that show thesis by blast
qed

lemma sell_out_Inr:
  assumes "wf s" and "0 \<le> a" and "sell_out s (Some a) = Inr (out, gb, gq, n)"
  obtains gross where "executeBidOrders (OrderBook_x (extra s)) (scaled False a (buyTokenDecs s) (position s))
      = Inr (gross, n)" "gb = Some a" "out \<le> quote_reserve s"
proof -
  obtain m where w: "levels_ok (bids_of s)" "TakerFeeMultiplier (extra s) = Some m" "0 \<le> m" "m \<le> FeeDivisor"
    "cap_ok (ToMaxFee (extra s))"
    using assms(1) by (rule wfE)
  obtain c where c: "scaleAmountDecimals (ToMaxFee (extra s)) (PayTokenPositionDecimals (static s)) (position s) = Inr c"
    "cap_ok (Some c)"
    using w(5) scaled_nonneg by (cases "ToMaxFee (extra s)") (auto simp: cap_ok_def)
  obtain gross where g: "executeBidOrders (OrderBook_x (extra s)) (scaled False a (buyTokenDecs s) (position s))
      = Inr (gross, n)"
    "out = scaled False (gross - spot_fee m (Some c) gross) (position s) (payTokenDecs s)" "gb = Some a"
    using assms(3) w(2) c(1) by (auto simp: sell_out_def Let_def go_simps calcSpotFee_eq [OF c(2)] split: if_splits)
  note gross = executeBidOrders_Inr [OF g(1) w(1) scaled_nonneg [OF assms(2)]]
  have "gross - spot_fee m (Some c) gross \<le> worth (bids_of s)"
    using spot_fee_bounds(1) [OF c(2) w(3,4) gross(1)] gross(2) by linarith
  then have "out \<le> quote_reserve s"
    unfolding g(2) quote_reserve_def by (rule scaled_mono)
  with g(1,3) that show thesis by blast
qed

lemma CalcAmountOut_Inr:
  assumes "CalcAmountOut s q = Inr r"
  obtains isBuy out gb gq n where "isValidTokenPair s (Token (TokenAmountIn q)) (TokenOut q) = Inr True"
    "isBuyOrder s (Token (TokenAmountIn q)) (TokenOut q) = Inr isBuy"
    "(if isBuy then buy_out s (Amount (TokenAmountIn q)) else sell_out s (Amount (TokenAmountIn q)))
      = Inr (out, gb, gq, n)" "0 < out"
    "TokenAmountOut r = Some (token_amount (TokenOut q) (Some out))"
    "SwapInfo r = Some \<lparr>IsBuy = isBuy, ExecutedLevels = n, GrossBase = gb, GrossQuote = gq\<rparr>"
  using assms by (auto simp: CalcAmountOut_def Let_def go_simps split: if_splits)

lemma wcm_covered:
  assumes "wf s" and "valid_request q" and "CalcAmountOut s q = Inr r"
  shows "\<exists>a. TokenAmountOut r = Some (token_amount (TokenOut q) (Some a)) \<and> 0 < a \<and> a \<le> reserve s (TokenOut q)"
proof -
  obtain a where a: "Amount (TokenAmountIn q) = Some a" "0 < a"
    using assms(2) by (rule valid_requestE)
  obtain isBuy out gb gq n where c: "isValidTokenPair s (Token (TokenAmountIn q)) (TokenOut q) = Inr True"
    "isBuyOrder s (Token (TokenAmountIn q)) (TokenOut q) = Inr isBuy"
    "(if isBuy then buy_out s (Some a) else sell_out s (Some a)) = Inr (out, gb, gq, n)" "0 < out"
    "TokenAmountOut r = Some (token_amount (TokenOut q) (Some out))"
    using CalcAmountOut_Inr [OF assms(3)] a(1) by metis
  from assms(1) c(1) have "out \<le> reserve s (TokenOut q)"
  proof (cases rule: wcm_pair_cases)
    case buy
    then have "buy_out s (Some a) = Inr (out, gb, gq, n)"
      using c(2,3) by simp
    with assms(1) less_imp_le [OF a(2)] buy(2) show ?thesis
      by (metis buy_out_Inr)
  next
    case sell
    then have "sell_out s (Some a) = Inr (out, gb, gq, n)"
      using c(2,3) by simp
    with assms(1) less_imp_le [OF a(2)] sell(2) show ?thesis
      by (metis sell_out_Inr)
  qed
  with c(4,5) show ?thesis by blast
qed

subsection \<open>Updates\<close>

text \<open>An update with the swap info of a quote takes units off the front of one side of the book, keeps the
  other side and the rest of the pool, and rewrites both reserves.\<close>

definition reduced :: "PoolSimulator \<Rightarrow> bool \<Rightarrow> int \<Rightarrow> PoolSimulator \<Rightarrow> bool" where
  "reduced s isBuy g s' =
     (units (asks_of s') = (if isBuy then drop (nat g) (units (asks_of s)) else units (asks_of s)) \<and>
      units (bids_of s') = (if isBuy then units (bids_of s) else drop (nat g) (units (bids_of s))) \<and>
      Reserves (Info s') = [Some (base_reserve s'), Some (quote_reserve s')] \<and>
      static s' = static s \<and> Tokens (Info s') = Tokens (Info s))"

lemma update_reduces:
  assumes "wf s" and "Amount (TokenAmountIn_u u) = Some a" and "0 < a" and "SwapInfo_u u = Some si"
    and "GrossBase si = Some g"
  shows "\<exists>s'. UpdateBalance s u = Inr s' \<and> wf s' \<and>
    reduced s (IsBuy si) (scaled False g (buyTokenDecs s) (position s)) s'"
proof -
  let ?g = "scaled False g (buyTokenDecs s) (position s)" and ?b = "OrderBook_x (extra s)"
  obtain asks bids where book: "(if IsBuy si
      then bnd (reduceOrders (Asks ?b) ?g) (\<lambda>asks. Inr (?b\<lparr>Asks := asks\<rparr>))
      else bnd (reduceOrders (Bids ?b) ?g) (\<lambda>bids. Inr (?b\<lparr>Bids := bids\<rparr>))) = Inr (?b\<lparr>Asks := asks, Bids := bids\<rparr>)"
    "levels_ok asks" "levels_ok bids"
    "units asks = (if IsBuy si then drop (nat ?g) (units (asks_of s)) else units (asks_of s))"
    "units bids = (if IsBuy si then units (bids_of s) else drop (nat ?g) (units (bids_of s)))"
  proof (cases "IsBuy si")
    case True
    obtain asks where "reduceOrders (asks_of s) ?g = Inr asks" "levels_ok asks"
      "units asks = drop (nat ?g) (units (asks_of s))"
      using assms(1) reduceOrders_units by (metis wfE)
    with True assms(1) show thesis
      by (intro that [where asks = asks and bids = "bids_of s"]) (auto simp: wf_def)
  next
    case False
    obtain bids where "reduceOrders (bids_of s) ?g = Inr bids" "levels_ok bids"
      "units bids = drop (nat ?g) (units (bids_of s))"
      using assms(1) reduceOrders_units by (metis wfE)
    with False assms(1) show thesis
      by (intro that [where asks = "asks_of s" and bids = bids]) (auto simp: wf_def)
  qed
  define s1 where "s1 = s\<lparr>extra := (extra s)\<lparr>OrderBook_x := ?b\<lparr>Asks := asks, Bids := bids\<rparr>\<rparr>\<rparr>"
  define s' where "s' = s1\<lparr>Info := (Info s1)\<lparr>Reserves := [Some (base_reserve s1), Some (quote_reserve s1)]\<rparr>\<rparr>"
  have wf1: "wf s1"
    using assms(1) book(2,3) by (simp add: wf_def s1_def)
  have "UpdateBalance s u = Inr s'"
    using assms(2-5) book(1) liquidity_eq [OF wf1, unfolded s1_def]
    by (simp add: UpdateBalance_def Let_def s'_def s1_def)
  moreover have "wf s'"
    using wf1 by (simp add: wf_def s'_def)
  moreover have "base_reserve s' = base_reserve s1" "quote_reserve s' = quote_reserve s1"
    by (simp_all add: base_reserve_def quote_reserve_def s'_def)
  then have "reduced s (IsBuy si) ?g s'"
    using book(4,5) by (simp add: reduced_def) (simp add: s'_def s1_def)
  ultimately show ?thesis by blast
qed

lemma quote_applied:
  assumes "wf s" and "Amount (TokenAmountIn q) = Some a" and "0 < a" and "CalcAmountOut s q = Inr r"
  obtains s' si executed g where "UpdateBalance s (update_params q r) = Inr s'" "wf s'" "SwapInfo r = Some si"
    "reduced s (IsBuy si) g s'"
    "if IsBuy si
     then executeAskOrders (OrderBook_x (extra s)) (scaled False a (payTokenDecs s) (position s))
        = Inr (executed, ExecutedLevels si)
     else executed = scaled False a (buyTokenDecs s) (position s) \<and> g = executed"
    "g \<le> executed" "executed < g + 10 ^ nat (position s - buyTokenDecs s)"
proof -
  obtain isBuy out gb gq n where c: "(if isBuy then buy_out s (Some a) else sell_out s (Some a)) = Inr (out, gb, gq, n)"
    "SwapInfo r = Some \<lparr>IsBuy = isBuy, ExecutedLevels = n, GrossBase = gb, GrossQuote = gq\<rparr>"
    using CalcAmountOut_Inr [OF assms(4)] assms(2) by metis
  have u: "Amount (TokenAmountIn_u (update_params q r)) = Some a"
    "SwapInfo_u (update_params q r) = Some \<lparr>IsBuy = isBuy, ExecutedLevels = n, GrossBase = gb, GrossQuote = gq\<rparr>"
    using assms(2) c(2) by simp_all
  show thesis
  proof (cases isBuy)
    case True
    then obtain gross where g: "executeAskOrders (OrderBook_x (extra s)) (scaled False a (payTokenDecs s) (position s))
        = Inr (gross, n)" "gb = Some (scaled False gross (position s) (buyTokenDecs s))"
      using c(1) buy_out_Inr [OF assms(1) less_imp_le [OF assms(3)]] by (metis (full_types))
    obtain s' where "UpdateBalance s (update_params q r) = Inr s'" "wf s'"
      "reduced s isBuy (scaled False (scaled False gross (position s) (buyTokenDecs s)) (buyTokenDecs s) (position s)) s'"
      using update_reduces [OF assms(1) u(1) assms(3) u(2)] g(2) by auto
    with True g(1) c(2) scaled_back [of gross "position s" "buyTokenDecs s"] show thesis
      by (intro that) auto
  next
    case False
    then have gb: "gb = Some a"
      using c(1) sell_out_Inr [OF assms(1) less_imp_le [OF assms(3)]] by (metis (full_types))
    obtain s' where "UpdateBalance s (update_params q r) = Inr s'" "wf s'"
      "reduced s isBuy (scaled False a (buyTokenDecs s) (position s)) s'"
      using update_reduces [OF assms(1) u(1) assms(3) u(2)] gb by auto
    with False c(2) show thesis
      by (intro that) auto
  qed
qed

interpretation wcm: pool_simulator CalcAmountOut UpdateBalance wf reserve
proof
  fix s t
  assume "wf s"
  then have "0 \<le> base_reserve s" and "0 \<le> quote_reserve s"
    by (auto simp: wf_def base_reserve_def quote_reserve_def intro!: scaled_nonneg depth_nonneg worth_nonneg)
  then show "0 \<le> reserve s t"
    by (auto simp: reserve_def split: list.splits)
next
  fix s and q :: "'l CalcAmountOutParams" and r
  assume "wf s" and "valid_request q" and "CalcAmountOut s q = Inr r"
  then show "\<exists>a. TokenAmountOut r = Some (token_amount (TokenOut q) (Some a)) \<and> 0 < a \<and> a \<le> reserve s (TokenOut q)"
    by (rule wcm_covered)
next
  fix s and q :: "'l CalcAmountOutParams" and r
  assume wf: "wf s" and q: "valid_request q" and r: "CalcAmountOut s q = Inr r"
  obtain a where a: "Amount (TokenAmountIn q) = Some a" "0 < a"
    using q by (rule valid_requestE)
  show "\<exists>s'. UpdateBalance s (update_params q r) = Inr s' \<and> wf s'"
    by (rule quote_applied [OF wf a r]) blast
qed

text \<open>C26: after any sequence of swaps on a book with positive levels, a quote pays a positive amount the
  remaining levels of the book are worth, and can be applied.\<close>

theorem wcm_quotes_covered:
  assumes "wf s0" and "(swap_step CalcAmountOut UpdateBalance)\<^sup>*\<^sup>* s0 s" and "valid_request q"
    and "CalcAmountOut s q = Inr r"
  shows "\<exists>a s'. TokenAmountOut r = Some (token_amount (TokenOut q) (Some a)) \<and> 0 < a \<and>
    a \<le> reserve s (TokenOut q) \<and> UpdateBalance s (update_params q r) = Inr s' \<and> wf s'"
  using wcm.reachable_wf [OF assms(2,1)] wcm.quote_covered [OF _ assms(3,4)] wcm.update_ok [OF _ assms(3,4)]
  by blast

text \<open>C25: applying a quote refines taking single units off the front of the book.  A sale takes exactly the units
  it walked; a purchase takes the units it executed, less what the decimals of the bought token cannot
  express.\<close>

theorem wcm_update_refines:
  assumes "wf s" and "Amount (TokenAmountIn q) = Some a" and "0 < a" and "CalcAmountOut s q = Inr r"
  shows "\<exists>s' si executed g. UpdateBalance s (update_params q r) = Inr s' \<and> SwapInfo r = Some si \<and>
    reduced s (IsBuy si) g s' \<and>
    (if IsBuy si
     then executeAskOrders (OrderBook_x (extra s)) (scaled False a (payTokenDecs s) (position s))
        = Inr (executed, ExecutedLevels si)
     else executed = scaled False a (buyTokenDecs s) (position s) \<and> g = executed) \<and>
    g \<le> executed \<and> executed < g + 10 ^ nat (position s - buyTokenDecs s)"
  by (rule quote_applied [OF assms]) blast

subsection \<open>Exact-out quotes traded exact-in\<close>

lemma scaled_up_pos: "0 < a \<Longrightarrow> 0 < scaled True a f t"
  using scaled_galois [of a f t 0] by (force simp: scaled_def)

lemma gross_pos:
  assumes "0 < net" and "net \<le> g - spot_fee m maxFee g" and "0 \<le> m" and "m \<le> FeeDivisor" and "cap_ok maxFee"
  shows "0 \<le> g"
proof (rule ccontr)
  assume "\<not> 0 \<le> g"
  then have "g - spot_fee m maxFee g \<le> 0 - spot_fee m maxFee 0"
    by (intro net_mono assms) simp
  moreover have "0 \<le> spot_fee m maxFee 0"
    by (rule spot_fee_bounds [OF assms(5,3,4)]) simp
  ultimately show False
    using assms(1,2) by linarith
qed

lemma CalcAmountIn_Inr:
  assumes "CalcAmountIn s p = Inr r" and "isBuyOrder s (TokenIn p) (Token (TokenAmountOut_i p)) = Inr True"
  obtains want net g q n amountIn where "Amount (TokenAmountOut_i p) = Some want" "0 < want"
    "isValidTokenPair s (TokenIn p) (Token (TokenAmountOut_i p)) = Inr True" "\<not> IsHalted (extra s)"
    "net = scaled True want (buyTokenDecs s) (position s)"
    "getGrossAmount net (TakerFeeMultiplier (extra s)) (FromMaxFee (extra s)) = Inr g"
    "calculateQuoteTokenNeeded (OrderBook_x (extra s)) g = Inr (q, n)" "\<not> below_minimum s g"
    "amountIn = scaled True q (position s) (payTokenDecs s)"
    "TokenAmountIn_r r = Some (token_amount (TokenIn p) (Some amountIn))"
  using assms by (auto simp: CalcAmountIn_def buy_in_def Let_def go_simps split: if_splits option.splits)

text \<open>C24: a purchase quoted exact-out delivers.  Selling the amount the exact-out quote asks for pays at least the
  amount wanted, through decimals, fees and fee caps; the only other outcome is that the rounding of the
  price leaves more quote than the book can take.  The asks must be tradable: every level is in the range
  where no product of its walk wraps, and costs at least one unit.\<close>

theorem wcm_exact_out_delivers:
  assumes "wf s" and "tradable (asks_of s)" and "CalcAmountIn s p = Inr r"
    and "isBuyOrder s (TokenIn p) (Token (TokenAmountOut_i p)) = Inr True"
    and "TokenAmountIn_r r = Some tin" and "q = \<lparr>TokenAmountIn = tin, TokenOut = Token (TokenAmountOut_i p), Limit = lim\<rparr>"
  shows "CalcAmountOut s q = Inl (Err ''ErrInsufficientLiquidity'') \<or>
    (\<exists>r' want got. CalcAmountOut s q = Inr r' \<and> Amount (TokenAmountOut_i p) = Some want \<and>
       TokenAmountOut r' = Some (token_amount (TokenOut q) (Some got)) \<and> want \<le> got)"
proof -
  obtain m where w: "levels_ok (asks_of s)" "TakerFeeMultiplier (extra s) = Some m" "0 \<le> m" "m \<le> FeeDivisor"
    "cap_ok (FromMaxFee (extra s))"
    using assms(1) by (rule wfE)
  obtain want net g c n amountIn where i: "Amount (TokenAmountOut_i p) = Some want" "0 < want"
    "isValidTokenPair s (TokenIn p) (Token (TokenAmountOut_i p)) = Inr True" "\<not> IsHalted (extra s)"
    "net = scaled True want (buyTokenDecs s) (position s)"
    "getGrossAmount net (TakerFeeMultiplier (extra s)) (FromMaxFee (extra s)) = Inr g"
    "calculateQuoteTokenNeeded (OrderBook_x (extra s)) g = Inr (c, n)" "\<not> below_minimum s g"
    "amountIn = scaled True c (position s) (payTokenDecs s)"
    "TokenAmountIn_r r = Some (token_amount (TokenIn p) (Some amountIn))"
    using assms(3,4) by (rule CalcAmountIn_Inr)
  let ?walk = "scaled False amountIn (payTokenDecs s) (position s)" and ?fee = "spot_fee m (FromMaxFee (extra s))"
  have q: "tin = token_amount (TokenIn p) (Some amountIn)"
    using i(10) assms(5) by simp
  note net = getGrossAmount_covers [OF i(6) [unfolded w(2)] w(3,4)]
  have g: "0 \<le> g"
    by (rule gross_pos [OF _ net w(3-5)]) (simp add: i(2,5) scaled_up_pos)
  obtain b' where walked: "asks_of s \<noteq> []" "quote_loop (asks_of s) g 0 0 = Inr (b', c, n)" "b' \<le> 0"
    using i(7) by (auto simp: calculateQuoteTokenNeeded_def filled_def go_simps split: if_splits prod.splits)
  have "c \<le> ?walk"
    by (rule scaled_galois) (simp add: i(9))
  moreover have "0 \<le> c"
    by (rule quote_loop_mono [OF w(1) walked(2)])
  ultimately have walk: "c - 0 \<le> ?walk" "0 \<le> ?walk"
    by simp_all
  obtain rest got n' where *: "ask_loop (asks_of s) ?walk 0 0 = Inr (rest, got, n')"
    using ask_loop_depth [OF w(1) walk(2)] by blast
  from quote_covers_base [OF w(1) assms(2) walked(2,3) * walk(1) g] have got: "g \<le> got"
    by simp
  have min: "\<not> below_minimum s got"
    using i(8) got by (auto simp: below_minimum_def split: option.splits)
  have "net \<le> got - ?fee got"
    using net net_mono [OF w(3,4) got] by (rule order_trans)
  then have pays: "want \<le> scaled False (got - ?fee got) (position s) (buyTokenDecs s)"
    by (intro scaled_galois) (simp add: i(5))
  show ?thesis
  proof (cases "0 < rest")
    case True
    then have "CalcAmountOut s q = Inl (Err ''ErrInsufficientLiquidity'')"
      using i(3,4) assms(4) walked(1) * by (simp add: assms(6) q CalcAmountOut_def buy_out_def executeAskOrders_def filled_def)
    then show ?thesis by blast
  next
    case False
    moreover have "\<not> scaled False (got - ?fee got) (position s) (buyTokenDecs s) \<le> 0"
      using pays i(2) by linarith
    ultimately show ?thesis
      using i(1-4) assms(4) walked(1) * min pays
      by (simp add: assms(6) q CalcAmountOut_def buy_out_def executeAskOrders_def filled_def w(2) Let_def token_amount_eq
          calcSpotFee_eq [OF w(5)])
  qed
qed

subsection \<open>A concrete book\<close>

definition book_ex :: OrderBook where
  "book_ex = \<lparr>Bids = [\<lparr>Price = Some (1990 * 10 ^ 18), Quantity = Some 2000000000\<rparr>],
     Asks = [\<lparr>Price = Some (2000 * 10 ^ 18), Quantity = Some 1000000000\<rparr>,
             \<lparr>Price = Some (2010 * 10 ^ 18), Quantity = Some 3000000000\<rparr>]\<rparr>"

definition pool_ex :: PoolSimulator where
  "pool_ex = \<lparr>Info = \<lparr>Address = ''0x1'', Exchange = ''wcm'', Type = ''wcm'', Tokens = [''weth'', ''usdc''],
       Reserves = [Some 0, Some 0], SwapFee = None, BlockNumber = 1\<rparr>,
     static = \<lparr>Router = '''', BuyTokenPositionDecimals = 9, PayTokenPositionDecimals = 9\<rparr>,
     extra = \<lparr>OrderBook_x = book_ex, MinOrderQuantity = Some 1000, TakerFeeMultiplier = Some 50,
       FromMaxFee = Some 1000000, ToMaxFee = None, IsHalted = False\<rparr>,
     gas = DefaultGas, buyTokenDecs = 18, payTokenDecs = 6\<rparr>"

definition swap_ex :: "string \<Rightarrow> int \<Rightarrow> string \<Rightarrow> unit CalcAmountOutParams" where
  "swap_ex tin a tout = \<lparr>TokenAmountIn = token_amount tin (Some a), TokenOut = tout, Limit = None\<rparr>"

definition buy_ex :: "unit CalcAmountInParams" where
  "buy_ex = \<lparr>TokenAmountOut_i = token_amount ''weth'' (Some (15 * 10 ^ 17)), TokenIn = ''USDC'', Limit_i = None\<rparr>"

lemma pool_ex_ok: "wf pool_ex" "tradable (asks_of pool_ex)"
  by code_simp+

definition bought_ex :: "wcmSwapInfo CalcAmountInResult" where
  "bought_ex = \<lparr>TokenAmountIn_r = Some (token_amount ''USDC'' (Some 3006508256)), RemainingTokenAmountOut_r = None,
     Fee_r = Some (token_amount ''weth'' (Some 0)), Gas_r = 200000,
     SwapInfo_r = Some \<lparr>IsBuy = True, ExecutedLevels = 2, GrossBase = Some 1500750376000000000,
       GrossQuote = Some 3006508256\<rparr>\<rparr>"

lemma bought_eq: "CalcAmountIn pool_ex buy_ex = Inr bought_ex"
  by code_simp

lemma buy_order_ex: "isBuyOrder pool_ex ''USDC'' ''weth'' = Inr True"
  by code_simp

theorem wcm_exact_out_delivers_witness:
  "\<exists>r got. CalcAmountOut pool_ex (swap_ex ''USDC'' 3006508256 ''weth'') = Inr r \<and>
     TokenAmountOut r = Some (token_amount ''weth'' (Some got)) \<and> 15 * 10 ^ 17 \<le> got"
proof -
  have "CalcAmountOut pool_ex (swap_ex ''USDC'' 3006508256 ''weth'') \<noteq> Inl (Err ''ErrInsufficientLiquidity'')"
    by code_simp
  then show ?thesis
    using wcm_exact_out_delivers [OF pool_ex_ok bought_eq, of "token_amount ''USDC'' (Some 3006508256)"
        "swap_ex ''USDC'' 3006508256 ''weth''" None] buy_order_ex
    by (auto simp: buy_ex_def bought_ex_def swap_ex_def token_amount_eq)
qed

definition sold_ex :: "wcmSwapInfo CalcAmountOutResult" where
  "sold_ex = \<lparr>TokenAmountOut = Some (token_amount ''usdc'' (Some 1990000000)),
     Fee = Some (token_amount ''usdc'' (Some 0)), RemainingTokenAmountIn = None, Gas = 200000,
     SwapInfo = Some \<lparr>IsBuy = False, ExecutedLevels = 1, GrossBase = Some (10 ^ 18), GrossQuote = Some 1990000000\<rparr>\<rparr>"

lemma sold_eq: "CalcAmountOut pool_ex (swap_ex ''weth'' (10 ^ 18) ''usdc'') = Inr sold_ex"
  by code_simp

theorem wcm_quotes_covered_witness:
  "1990000000 \<le> reserve pool_ex ''usdc'' \<and>
   (\<exists>s. UpdateBalance pool_ex (update_params (swap_ex ''weth'' (10 ^ 18) ''usdc'') sold_ex) = Inr s \<and> wf s)"
  using wcm_quotes_covered [OF pool_ex_ok(1) rtranclp.rtrancl_refl _ sold_eq]
  by (auto simp: sold_ex_def swap_ex_def valid_request_def token_amount_eq)

theorem wcm_update_refines_witness:
  "\<exists>s. UpdateBalance pool_ex (update_params (swap_ex ''weth'' (10 ^ 18) ''usdc'') sold_ex) = Inr s \<and>
     units (bids_of s) = drop 1000000000 (units (bids_of pool_ex)) \<and> units (asks_of s) = units (asks_of pool_ex)"
proof -
  have "scaled False (10 ^ 18) (buyTokenDecs pool_ex) (position pool_ex) = 10 ^ 9"
    by code_simp
  then show ?thesis
    using wcm_update_refines [OF pool_ex_ok(1) _ _ sold_eq, of "10 ^ 18"]
    by (auto simp: swap_ex_def sold_ex_def reduced_def)
qed

theorem wcm_bucket_fields_witness:
  "decodeDepthChartBucket (Some (7 * 2 ^ 192 + 50 * 2 ^ 128 + 8 * 2 ^ 64 + 1024)) = Inr (1, 7, 32 * 10 ^ 18, 8)"
  using wcm_bucket_fields [of 7 50 8 1024] by (simp add: price_value_def)

subsection \<open>Where the code departs\<close>

text \<open>Position decimals of the quote token finer than those of the book: an exact-out sale rounds the gross amount
  down to the book, so it asks for nothing at all in exchange for 500 units.\<close>

definition fine_quote_ex :: PoolSimulator where
  "fine_quote_ex = pool_ex\<lparr>static := (static pool_ex)\<lparr>PayTokenPositionDecimals := 12\<rparr>, payTokenDecs := 12,
     extra := (extra pool_ex)\<lparr>MinOrderQuantity := None\<rparr>\<rparr>"

definition sell_ex :: "unit CalcAmountInParams" where
  "sell_ex = \<lparr>TokenAmountOut_i = token_amount ''usdc'' (Some 500), TokenIn = ''weth'', Limit_i = None\<rparr>"

lemma sale_for_nothing:
  "CalcAmountIn fine_quote_ex sell_ex = Inr \<lparr>TokenAmountIn_r = Some (token_amount ''weth'' (Some 0)),
     RemainingTokenAmountOut_r = None, Fee_r = Some (token_amount ''usdc'' (Some 0)), Gas_r = 200000,
     SwapInfo_r = Some \<lparr>IsBuy = False, ExecutedLevels = 0, GrossBase = Some 0, GrossQuote = Some 501\<rparr>\<rparr>"
  by code_simp

text \<open>Without a fee cap a purchase pays the whole fee, but a sale pays none: \<open>scaleAmountDecimals\<close> turns the
  nil cap into 0.\<close>

lemma missing_cap_waives_fee:
  assumes "ToMaxFee (extra s) = None" and "TakerFeeMultiplier (extra s) = Some m" and "0 \<le> m" and "0 \<le> q"
  shows "bnd (scaleAmountDecimals (ToMaxFee (extra s)) (PayTokenPositionDecimals (static s)) (position s))
    (\<lambda>c. calcSpotFee q (TakerFeeMultiplier (extra s)) (Some c)) = Inr 0"
  using assms by (simp add: calcSpotFee_eq cap_ok_def spot_fee_def min_def)

text \<open>The tracker stores at most the liquidity the simulator computes from the same book.\<close>

lemma scaled_add: "scaled False a f t + scaled False b f t \<le> scaled False (a + b) f t"
  by (simp add: scaled_def distrib_right floor_superadd)

lemma tracker_base_le:
  "levels_ok ls \<Longrightarrow> \<exists>v. tracker_base pd dec ls acc = Inr v \<and> v \<le> acc + scaled False (depth ls) pd dec"
proof (induction ls arbitrary: acc)
  case (Cons l ls)
  have ok: "levels_ok ls"
    using Cons.prems by simp
  obtain v where "tracker_base pd dec ls (acc + scaled False (qty l) pd dec) = Inr v"
    "v \<le> acc + scaled False (qty l) pd dec + scaled False (depth ls) pd dec"
    using Cons.IH [OF ok] by blast
  with Cons.prems scaled_add [of "qty l" pd dec "depth ls"] show ?case
    by (auto simp: level_okD)
qed (simp add: scaled_def)

lemma tracker_quote_le:
  "levels_ok ls \<Longrightarrow> \<exists>v. tracker_quote pd dec ls acc = Inr v \<and> v \<le> acc + scaled False (worth ls) pd dec"
proof (induction ls arbitrary: acc)
  case (Cons l ls)
  have ok: "levels_ok ls"
    using Cons.prems by simp
  obtain v where "tracker_quote pd dec ls (acc + scaled False (cost l) pd dec) = Inr v"
    "v \<le> acc + scaled False (cost l) pd dec + scaled False (worth ls) pd dec"
    using Cons.IH [OF ok] by blast
  with Cons.prems scaled_add [of "cost l" pd dec "worth ls"] show ?case
    by (auto simp: level_okD)
qed (simp add: scaled_def)

lemma tracker_liquidity_le:
  assumes "wf s" and "2 \<le> length tokens" and "Decimals (tokens ! 0) = buyTokenDecs s"
    and "Decimals (tokens ! 1) = payTokenDecs s"
  shows "\<exists>b q. tracker_calculateLiquidity (OrderBook_x (extra s)) (static s) tokens = Inr (b, q) \<and>
    b \<le> base_reserve s \<and> q \<le> quote_reserve s"
proof -
  have ok: "levels_ok (asks_of s)" "levels_ok (bids_of s)"
    using assms(1) by (simp_all add: wf_def)
  obtain b q where "tracker_base (position s) (buyTokenDecs s) (asks_of s) 0 = Inr b" "b \<le> base_reserve s"
    "tracker_quote (position s) (payTokenDecs s) (bids_of s) 0 = Inr q" "q \<le> quote_reserve s"
    using tracker_base_le [OF ok(1), of "position s" "buyTokenDecs s" 0]
      tracker_quote_le [OF ok(2), of "position s" "payTokenDecs s" 0]
    by (auto simp: base_reserve_def quote_reserve_def)
  with assms(2-4) show ?thesis
    by (simp add: tracker_calculateLiquidity_def Let_def)
qed

end
