(* ===== verification/Infinifi.thy ===== *)
theory Infinifi
  imports Pool_Interface
begin

text \<open>
  The gateway of \<open>pkg/liquidity-source/infinifi/gateway\<close>: USDC is minted to iUSD and redeemed one to one,
  iUSD is staked into the shares siUSD of a vault or locked into the shares of one of several buckets.
  The switch over the token pair, the same in \<open>CalcAmountOut\<close> and \<open>UpdateBalance\<close>, is \<open>action_of\<close>.
  JSON decoding and \<open>lo.Contains\<close> are parameters; a share token is an address of any type.
\<close>

datatype Action =
    ActionMint | ActionRedeem | ActionStake | ActionUnstake | ActionMintAndStake
  | ActionCreatePosition | ActionMintAndLock | ActionUnstakeAndRedeem

record infinifiSwapInfo =
  Act :: Action
  QuoterControllers :: "string list"
  UnwindingEpochs :: int

record 'addr bucketData =
  ShareToken :: 'addr
  TotalReceiptTokens :: bigint
  Multiplier :: bigint

record 'addr bucket =
  Index :: "32 word"
  TotalSupply_b :: bigint
  BucketData :: "'addr bucketData"

record 'addr Extra =
  IsPaused_x :: bool
  IUSDSupply_x :: bigint
  SIUSDTotalAssets_x :: bigint
  SIUSDSupply_x :: bigint
  LIUSDBuckets_x :: "'addr bucket list"

record 'addr PoolSimulator = Pool +
  IsPaused :: bool
  IUSDSupply :: bigint
  SIUSDTotalAssets :: bigint
  SIUSDSupply :: bigint
  LIUSDBuckets :: "'addr bucket list"
  usdc :: string
  iusd :: string
  siusd :: string
  liusdTokens :: "string list"

definition MintControllerAddress :: string where
  "MintControllerAddress = ''0x49877d937B9a00d50557bdC3D87287b5c3a4C256''"

definition RedeemControllerAddress :: string where
  "RedeemControllerAddress = ''0xCb1747E89a43DEdcF4A2b831a0D94859EFeC7601''"

definition LockControllerAddress :: string where
  "LockControllerAddress = ''0x1d95cC100D6Cd9C7BbDbD7Cb328d99b3D6037fF7''"

definition NewPoolSimulator :: "(string \<Rightarrow> 'addr Extra go) \<Rightarrow> EntityPool \<Rightarrow> 'addr PoolSimulator go" where
  "NewPoolSimulator json_Unmarshal entityPool =
     bnd (json_Unmarshal (Extra_e entityPool)) (\<lambda>extra.
     let tokens = map TokenAddress (Tokens_e entityPool); reserves = map NewBig (Reserves_e entityPool) in
     bnd (idx tokens 0) (\<lambda>usdc. bnd (idx tokens 1) (\<lambda>iusd. bnd (idx tokens 2) (\<lambda>siusd.
     Inr \<lparr>Info = \<lparr>Address = Address_e entityPool, Exchange = Exchange_e entityPool, Type = Type_e entityPool,
                   Tokens = tokens, Reserves = reserves, SwapFee = None, BlockNumber = BlockNumber_e entityPool\<rparr>,
          IsPaused = IsPaused_x extra, IUSDSupply = IUSDSupply_x extra,
          SIUSDTotalAssets = SIUSDTotalAssets_x extra, SIUSDSupply = SIUSDSupply_x extra,
          LIUSDBuckets = LIUSDBuckets_x extra, usdc = usdc, iusd = iusd, siusd = siusd,
          liusdTokens = (if 3 < length tokens then drop 3 tokens else [])\<rparr>))))"

subsection \<open>Conversions\<close>

definition calculateMint :: "bigint \<Rightarrow> int go" where
  "calculateMint usdcAmount = bnd (deref usdcAmount) (\<lambda>a. Inr (a * 10 ^ 12))"

definition calculateRedeem :: "bigint \<Rightarrow> int go" where
  "calculateRedeem iusdAmount = bnd (deref iusdAmount) (\<lambda>a. Inr (a div 10 ^ 12))"

definition calculateStake :: "'addr PoolSimulator \<Rightarrow> bigint \<Rightarrow> int go" where
  "calculateStake s iusdAmount =
     bnd (deref (SIUSDTotalAssets s)) (\<lambda>assets.
     if assets = 0 then deref iusdAmount
     else
       bnd (deref (SIUSDSupply s)) (\<lambda>supply.
       if supply = 0 then deref iusdAmount
       else bnd (deref iusdAmount) (\<lambda>a. big_div (a * supply) assets)))"

definition calculateUnstake :: "'addr PoolSimulator \<Rightarrow> bigint \<Rightarrow> int go" where
  "calculateUnstake s siusdAmount =
     bnd (deref (SIUSDSupply s)) (\<lambda>supply.
     if supply = 0 then Inr 0
     else
       bnd (deref siusdAmount) (\<lambda>a. bnd (deref (SIUSDTotalAssets s)) (\<lambda>assets. big_div (a * assets) supply)))"

definition calculateLock :: "'addr PoolSimulator \<Rightarrow> bigint \<Rightarrow> int \<Rightarrow> int go" where
  "calculateLock s iusdAmount bucketIndex =
     bnd (idx (LIUSDBuckets s) bucketIndex) (\<lambda>b.
     bnd (deref (TotalSupply_b b)) (\<lambda>totalShares.
     if totalShares = 0 then deref iusdAmount
     else
       bnd (deref iusdAmount) (\<lambda>a.
       bnd (deref (TotalReceiptTokens (BucketData b))) (\<lambda>receipts. big_div (a * totalShares) receipts))))"

definition calculateMintAndStake :: "'addr PoolSimulator \<Rightarrow> bigint \<Rightarrow> int go" where
  "calculateMintAndStake s usdcAmount =
     bnd (calculateMint usdcAmount) (\<lambda>iusdAmount. calculateStake s (Some iusdAmount))"

definition calculateMintAndLock :: "'addr PoolSimulator \<Rightarrow> bigint \<Rightarrow> int \<Rightarrow> int go" where
  "calculateMintAndLock s usdcAmount bucketIndex =
     bnd (calculateMint usdcAmount) (\<lambda>iusdAmount. calculateLock s (Some iusdAmount) bucketIndex)"

definition calculateUnstakeAndRedeem :: "'addr PoolSimulator \<Rightarrow> bigint \<Rightarrow> int go" where
  "calculateUnstakeAndRedeem s siusdAmount =
     bnd (calculateUnstake s siusdAmount) (\<lambda>iusdAmount. calculateRedeem (Some iusdAmount))"

definition getLIUSDIndex :: "'addr PoolSimulator \<Rightarrow> string \<Rightarrow> int" where
  "getLIUSDIndex s tokenAddr = token_index_loop (liusdTokens s) tokenAddr 0"

definition isLIUSD :: "(string list \<Rightarrow> string \<Rightarrow> bool) \<Rightarrow> 'addr PoolSimulator \<Rightarrow> string \<Rightarrow> bool" where
  "isLIUSD lo_Contains s tokenAddr = lo_Contains (liusdTokens s) tokenAddr"

definition action_of ::
    "(string list \<Rightarrow> string \<Rightarrow> bool) \<Rightarrow> 'addr PoolSimulator \<Rightarrow> string \<Rightarrow> string \<Rightarrow> Action option" where
  "action_of lo_Contains s tokenIn tokenOut =
     (if tokenIn = usdc s \<and> tokenOut = iusd s then Some ActionMint
      else if tokenIn = iusd s \<and> tokenOut = usdc s then Some ActionRedeem
      else if tokenIn = iusd s \<and> tokenOut = siusd s then Some ActionStake
      else if tokenIn = siusd s \<and> tokenOut = iusd s then Some ActionUnstake
      else if tokenIn = iusd s \<and> isLIUSD lo_Contains s tokenOut then Some ActionCreatePosition
      else if tokenIn = usdc s \<and> tokenOut = siusd s then Some ActionMintAndStake
      else if tokenIn = usdc s \<and> isLIUSD lo_Contains s tokenOut then Some ActionMintAndLock
      else if tokenIn = siusd s \<and> tokenOut = usdc s then Some ActionUnstakeAndRedeem
      else None)"

subsection \<open>Quotes\<close>

text \<open>What each case of the switch sets: amount, gas, controllers and epochs.\<close>

definition epochs :: "'addr PoolSimulator \<Rightarrow> string \<Rightarrow> int go" where
  "epochs s tokenOut = bnd (idx (LIUSDBuckets s) (getLIUSDIndex s tokenOut)) (\<lambda>b. Inr (uint (Index b)))"

definition perform ::
    "'addr PoolSimulator \<Rightarrow> Action \<Rightarrow> string \<Rightarrow> bigint \<Rightarrow> (int \<times> int \<times> string list \<times> int) go" where
  "perform s act tokenOut amountIn =
     (case act of
        ActionMint \<Rightarrow> bnd (calculateMint amountIn) (\<lambda>a. Inr (a, 1002480, [MintControllerAddress], 0))
      | ActionRedeem \<Rightarrow> bnd (calculateRedeem amountIn) (\<lambda>a. Inr (a, 3608595, [RedeemControllerAddress], 0))
      | ActionStake \<Rightarrow> bnd (calculateStake s amountIn) (\<lambda>a. Inr (a, 171489, [], 0))
      | ActionUnstake \<Rightarrow> bnd (calculateUnstake s amountIn) (\<lambda>a. Inr (a, 2443171, [], 0))
      | ActionCreatePosition \<Rightarrow>
          bnd (epochs s tokenOut) (\<lambda>e. bnd (calculateLock s amountIn (getLIUSDIndex s tokenOut)) (\<lambda>a.
          Inr (a, 155769, [LockControllerAddress], e)))
      | ActionMintAndStake \<Rightarrow>
          bnd (calculateMintAndStake s amountIn) (\<lambda>a. Inr (a, 1147226, [MintControllerAddress], 0))
      | ActionMintAndLock \<Rightarrow>
          bnd (epochs s tokenOut) (\<lambda>e. bnd (calculateMintAndLock s amountIn (getLIUSDIndex s tokenOut)) (\<lambda>a.
          Inr (a, 1114675, [MintControllerAddress, LockControllerAddress], e)))
      | ActionUnstakeAndRedeem \<Rightarrow>
          bnd (calculateUnstakeAndRedeem s amountIn) (\<lambda>a. Inr (a, 4431817, [RedeemControllerAddress], 0)))"

definition CalcAmountOut ::
    "(string list \<Rightarrow> string \<Rightarrow> bool) \<Rightarrow> 'addr PoolSimulator \<Rightarrow> 'l CalcAmountOutParams \<Rightarrow>
     infinifiSwapInfo CalcAmountOutResult go" where
  "CalcAmountOut lo_Contains s params =
     (let tokenIn = to_lower (Token (TokenAmountIn params)); tokenOut = to_lower (TokenOut params) in
      if IsPaused s then Inl (Err ''ErrContractPaused'')
      else
        case action_of lo_Contains s tokenIn tokenOut of
          None \<Rightarrow> Inl (Err ''ErrSwapNotSupported'')
        | Some act \<Rightarrow>
            bnd (perform s act tokenOut (Amount (TokenAmountIn params))) (\<lambda>(amountOut, gas, controllers, epochs).
            Inr \<lparr>TokenAmountOut = Some (token_amount tokenOut (Some amountOut)),
                 Fee = Some (token_amount tokenIn (Some 0)), RemainingTokenAmountIn = None, Gas = gas,
                 SwapInfo = Some \<lparr>Act = act, QuoterControllers = controllers, UnwindingEpochs = epochs\<rparr>\<rparr>))"

subsection \<open>Updates\<close>

text \<open>\<open>x = new(big.Int).Add(x, y)\<close> on a field, where \<open>y\<close> may be nil.\<close>

definition plus :: "bigint \<Rightarrow> bigint \<Rightarrow> bigint go" where
  "plus x y = bnd (deref x) (\<lambda>x. bnd (deref y) (\<lambda>y. Inr (Some (x + y))))"

definition minus :: "bigint \<Rightarrow> bigint \<Rightarrow> bigint go" where
  "minus x y = bnd (deref x) (\<lambda>x. bnd (deref y) (\<lambda>y. Inr (Some (x - y))))"

definition lock_bucket ::
    "'addr PoolSimulator \<Rightarrow> string \<Rightarrow> bigint \<Rightarrow> bigint \<Rightarrow> 'addr bucket list go" where
  "lock_bucket s tokenOut shares receipts =
     (let i = getLIUSDIndex s tokenOut in
      if i < 0 then Inr (LIUSDBuckets s)
      else
        bnd (idx (LIUSDBuckets s) i) (\<lambda>b.
        bnd (plus (TotalSupply_b b) shares) (\<lambda>supply.
        bnd (plus (TotalReceiptTokens (BucketData b)) receipts) (\<lambda>total'.
        upd (LIUSDBuckets s) i
          (b\<lparr>TotalSupply_b := supply, BucketData := (BucketData b)\<lparr>TotalReceiptTokens := total'\<rparr>\<rparr>)))))"

definition apply_action ::
    "'addr PoolSimulator \<Rightarrow> Action \<Rightarrow> string \<Rightarrow> bigint \<Rightarrow> bigint \<Rightarrow> 'addr PoolSimulator go" where
  "apply_action s act tokenOut amountIn amountOut =
     (case act of
        ActionMint \<Rightarrow> bnd (plus (IUSDSupply s) amountOut) (\<lambda>i. Inr (s\<lparr>IUSDSupply := i\<rparr>))
      | ActionRedeem \<Rightarrow> bnd (minus (IUSDSupply s) amountIn) (\<lambda>i. Inr (s\<lparr>IUSDSupply := i\<rparr>))
      | ActionStake \<Rightarrow>
          bnd (plus (SIUSDTotalAssets s) amountIn) (\<lambda>ta. bnd (plus (SIUSDSupply s) amountOut) (\<lambda>ss.
          Inr (s\<lparr>SIUSDTotalAssets := ta, SIUSDSupply := ss\<rparr>)))
      | ActionUnstake \<Rightarrow>
          bnd (minus (SIUSDTotalAssets s) amountOut) (\<lambda>ta. bnd (minus (SIUSDSupply s) amountIn) (\<lambda>ss.
          Inr (s\<lparr>SIUSDTotalAssets := ta, SIUSDSupply := ss\<rparr>)))
      | ActionCreatePosition \<Rightarrow>
          bnd (lock_bucket s tokenOut amountOut amountIn) (\<lambda>bs. Inr (s\<lparr>LIUSDBuckets := bs\<rparr>))
      | ActionMintAndStake \<Rightarrow>
          bnd (calculateMint amountIn) (\<lambda>iusdAmount.
          bnd (plus (IUSDSupply s) (Some iusdAmount)) (\<lambda>i.
          bnd (plus (SIUSDTotalAssets s) (Some iusdAmount)) (\<lambda>ta.
          bnd (plus (SIUSDSupply s) amountOut) (\<lambda>ss.
          Inr (s\<lparr>IUSDSupply := i, SIUSDTotalAssets := ta, SIUSDSupply := ss\<rparr>)))))
      | ActionMintAndLock \<Rightarrow>
          bnd (calculateMint amountIn) (\<lambda>iusdAmount.
          bnd (plus (IUSDSupply s) (Some iusdAmount)) (\<lambda>i.
          bnd (lock_bucket s tokenOut amountOut (Some iusdAmount)) (\<lambda>bs.
          Inr (s\<lparr>IUSDSupply := i, LIUSDBuckets := bs\<rparr>))))
      | ActionUnstakeAndRedeem \<Rightarrow>
          bnd (calculateUnstake s amountIn) (\<lambda>iusdAmount.
          bnd (minus (SIUSDTotalAssets s) (Some iusdAmount)) (\<lambda>ta.
          bnd (minus (SIUSDSupply s) amountIn) (\<lambda>ss.
          bnd (minus (IUSDSupply s) (Some iusdAmount)) (\<lambda>i.
          Inr (s\<lparr>IUSDSupply := i, SIUSDTotalAssets := ta, SIUSDSupply := ss\<rparr>))))))"

text \<open>The reserves are rewritten for display, bucket \<open>i\<close> at position \<open>i + 2\<close>.\<close>

fun bucket_reserves :: "'addr bucket list \<Rightarrow> int \<Rightarrow> bigint list \<Rightarrow> bigint list go" where
  "bucket_reserves [] i rs = Inr rs"
| "bucket_reserves (b # bs) i rs =
     bnd (if i + 2 < int (length rs) then bnd (deref (TotalSupply_b b)) (\<lambda>v. upd rs (i + 2) (Some v)) else Inr rs)
       (\<lambda>rs. bucket_reserves bs (i + 1) rs)"

definition display_reserves :: "'addr PoolSimulator \<Rightarrow> bigint list go" where
  "display_reserves s =
     bnd (deref (SIUSDTotalAssets s)) (\<lambda>ta. bnd (upd (Reserves (Info s)) 1 (Some ta)) (\<lambda>rs.
     bnd (deref (SIUSDSupply s)) (\<lambda>ss. bnd (upd rs 2 (Some ss)) (\<lambda>rs.
     bucket_reserves (LIUSDBuckets s) 0 rs))))"

text \<open>What the tracker stores from the same state: the buckets start one position later.\<close>

definition defaultReserves :: string where
  "defaultReserves = ''100000000000000''"

definition tracker_reserves :: "'addr PoolSimulator \<Rightarrow> bigint list" where
  "tracker_reserves s =
     NewBig defaultReserves # SIUSDTotalAssets s # SIUSDSupply s # map TotalSupply_b (LIUSDBuckets s)"

definition UpdateBalance ::
    "(string list \<Rightarrow> string \<Rightarrow> bool) \<Rightarrow> 'addr PoolSimulator \<Rightarrow>
     (infinifiSwapInfo, 'l) UpdateBalanceParams \<Rightarrow> 'addr PoolSimulator go" where
  "UpdateBalance lo_Contains s params =
     (let tokenIn = to_lower (Token (TokenAmountIn_u params));
          tokenOut = to_lower (Token (TokenAmountOut_u params)) in
      bnd (case action_of lo_Contains s tokenIn tokenOut of
             None \<Rightarrow> Inr s
           | Some act \<Rightarrow>
               apply_action s act tokenOut (Amount (TokenAmountIn_u params)) (Amount (TokenAmountOut_u params))) (\<lambda>s.
      bnd (display_reserves s) (\<lambda>rs. Inr (s\<lparr>Info := (Info s)\<lparr>Reserves := rs\<rparr>\<rparr>))))"

record Meta =
  BlockNumber_m :: nat

definition GetMetaInfo :: "'addr PoolSimulator \<Rightarrow> string \<Rightarrow> string \<Rightarrow> Meta" where
  "GetMetaInfo s tokenIn tokenOut = \<lparr>BlockNumber_m = BlockNumber (Info s)\<rparr>"

definition copy :: "bigint \<Rightarrow> bigint go" where
  "copy x = bnd (deref x) (\<lambda>x. Inr (Some x))"

definition CloneState :: "'addr PoolSimulator \<Rightarrow> 'addr PoolSimulator go" where
  "CloneState s =
     bnd (copy (IUSDSupply s)) (\<lambda>i. bnd (copy (SIUSDTotalAssets s)) (\<lambda>ta. bnd (copy (SIUSDSupply s)) (\<lambda>ss.
     bnd (go_map (\<lambda>b. bnd (copy (TotalSupply_b b)) (\<lambda>ts.
            bnd (copy (TotalReceiptTokens (BucketData b))) (\<lambda>tr. bnd (copy (Multiplier (BucketData b))) (\<lambda>mu.
            Inr \<lparr>Index = Index b, TotalSupply_b = ts,
                 BucketData = \<lparr>ShareToken = ShareToken (BucketData b), TotalReceiptTokens = tr, Multiplier = mu\<rparr>\<rparr>))))
          (LIUSDBuckets s)) (\<lambda>bs.
     bnd (go_map copy (Reserves (Info s))) (\<lambda>rs.
     Inr (s\<lparr>IUSDSupply := i, SIUSDTotalAssets := ta, SIUSDSupply := ss, LIUSDBuckets := bs,
            Info := (Info s)\<lparr>Reserves := rs\<rparr>\<rparr>))))))"

end
