(* ===== verification/Infinifi_Swaps.thy ===== *)
theory Infinifi_Swaps
  imports Infinifi
begin

text \<open>
  What the gateway guarantees.  While its callers spend only what they hold, every iUSD in the vault and in
  the buckets stays backed by the iUSD supply, no share loses value, and round trips gain nothing.  The
  reserves shown after an update are shifted by one.
\<close>

subsection \<open>Well-formed gateways\<close>

definition bucket_ok :: "'addr bucket \<Rightarrow> bool" where
  "bucket_ok b =
     (case (TotalSupply_b b, TotalReceiptTokens (BucketData b)) of
        (Some ts, Some tr) \<Rightarrow> 0 \<le> ts \<and> 0 \<le> tr \<and> (ts = 0 \<or> 0 < tr)
      | _ \<Rightarrow> False)"

definition receipts :: "'addr bucket \<Rightarrow> int" where
  "receipts b = the (TotalReceiptTokens (BucketData b))"

definition shares :: "'addr bucket \<Rightarrow> int" where
  "shares b = the (TotalSupply_b b)"

abbreviation locked :: "'addr bucket list \<Rightarrow> int" where
  "locked bs \<equiv> sum_list (map receipts bs)"

text \<open>The iUSD supply covers the vault and the buckets.\<close>

definition backed :: "'addr PoolSimulator \<Rightarrow> bool" where
  "backed s =
     ((case (IUSDSupply s, SIUSDTotalAssets s, SIUSDSupply s) of
        (Some i, Some ta, Some ss) \<Rightarrow> 0 \<le> ta \<and> 0 \<le> ss \<and> ta + locked (LIUSDBuckets s) \<le> i
      | _ \<Rightarrow> False) \<and>
     list_all bucket_ok (LIUSDBuckets s) \<and> 3 \<le> length (Reserves (Info s)))"

lemma backedE:
  assumes "backed s"
  obtains i ta ss where "IUSDSupply s = Some i" "SIUSDTotalAssets s = Some ta" "SIUSDSupply s = Some ss"
    "0 \<le> ta" "0 \<le> ss" "ta + locked (LIUSDBuckets s) \<le> i" "list_all bucket_ok (LIUSDBuckets s)"
  using assms by (auto simp: backed_def split: option.splits)

lemma bucket_okE:
  assumes "bucket_ok b"
  obtains "TotalSupply_b b = Some (shares b)" "TotalReceiptTokens (BucketData b) = Some (receipts b)"
    "0 \<le> shares b" "0 \<le> receipts b" "shares b = 0 \<or> 0 < receipts b"
  using assms by (auto simp: bucket_ok_def shares_def receipts_def split: option.splits)

lemma plus_simps [simp]: "plus (Some x) (Some y) = Inr (Some (x + y))"
  and minus_simps [simp]: "minus (Some x) (Some y) = Inr (Some (x - y))"
  by (simp_all add: plus_def minus_def)

subsection \<open>Single conversions\<close>

lemma share_floor:
  fixes a n d :: int
  assumes "0 \<le> a" and "0 \<le> n" and "0 < d"
  shows "0 \<le> a * n div d" and "(a * n div d) * d \<le> a * n"
  using assms by (simp_all add: floor_le)

text \<open>Staking mints shares at no more than the price of the vault.\<close>

lemma stake_value:
  assumes "backed s" and "0 < a"
  obtains out ta ss where "calculateStake s (Some a) = Inr out" "0 \<le> out"
    "SIUSDTotalAssets s = Some ta" "SIUSDSupply s = Some ss" "ta = 0 \<or> ss = 0 \<or> out * ta \<le> a * ss"
    "(ta = 0 \<or> ss = 0) \<longrightarrow> out = a"
proof -
  obtain ta ss where v: "SIUSDTotalAssets s = Some ta" "SIUSDSupply s = Some ss" "0 \<le> ta" "0 \<le> ss"
    using assms(1) by (rule backedE)
  show thesis
  proof (cases "ta = 0 \<or> ss = 0")
    case True
    with v assms(2) show thesis
      by (intro that [of a]) (auto simp: calculateStake_def)
  next
    case False
    then have "0 < ta" using v(3) by simp
    with False v assms(2) share_floor [of a ss ta] show thesis
      by (intro that [of "a * ss div ta"]) (auto simp: calculateStake_def)
  qed
qed

text \<open>Unstaking pays no more than the value of the shares, and no more than the vault holds.\<close>

lemma unstake_value:
  assumes "backed s" and "0 < a" and "SIUSDSupply s = Some ss" and "a \<le> ss"
  obtains out ta where "calculateUnstake s (Some a) = Inr out" "0 \<le> out" "SIUSDTotalAssets s = Some ta"
    "out * ss \<le> a * ta" "out \<le> ta"
proof -
  obtain ta where v: "SIUSDTotalAssets s = Some ta" "0 \<le> ta"
    using assms(1) by (rule backedE)
  have ss: "0 < ss"
    using assms(2,4) by simp
  have "a * ta \<le> ss * ta"
    using assms(4) v(2) by (rule mult_right_mono)
  then have "a * ta div ss \<le> ta"
    using zdiv_mono1 [of "a * ta" "ss * ta" ss] ss by simp
  with v ss assms(2,3) share_floor [of a ta ss] show thesis
    by (intro that [of "a * ta div ss"]) (auto simp: calculateUnstake_def)
qed

text \<open>Locking mints shares of a bucket at no more than its price and adds the amount to its receipts.\<close>

lemma lock_value:
  assumes "list_all bucket_ok (LIUSDBuckets s)" and "0 < a" and "calculateLock s (Some a) i = Inr out"
  obtains b where "0 \<le> i" "i < int (length (LIUSDBuckets s))" "b = LIUSDBuckets s ! nat i" "bucket_ok b" "0 \<le> out"
    "0 < shares b \<longrightarrow> out * receipts b \<le> a * shares b"
proof -
  define b where "b = LIUSDBuckets s ! nat i"
  have i: "0 \<le> i" "i < int (length (LIUSDBuckets s))"
    using assms(3) by (auto simp: calculateLock_def bnd_eq_Inr idx_eq_Inr)
  then have b: "bucket_ok b"
    using assms(1) by (simp add: b_def list_all_length nat_less_iff)
  then have "0 \<le> out \<and> (0 < shares b \<longrightarrow> out * receipts b \<le> a * shares b)"
  proof (rule bucket_okE)
    assume v: "TotalSupply_b b = Some (shares b)" "TotalReceiptTokens (BucketData b) = Some (receipts b)"
      "0 \<le> shares b" "0 \<le> receipts b" "shares b = 0 \<or> 0 < receipts b"
    have "idx (LIUSDBuckets s) i = Inr b"
      using i by (simp add: b_def)
    with v assms(2,3) share_floor [of a "shares b" "receipts b"] show ?thesis
      by (cases "shares b = 0") (auto simp: calculateLock_def)
  qed
  with i b that [of b] show thesis
    by (simp add: b_def)
qed

lemma locked_update:
  "k < length bs \<Longrightarrow> locked (bs[k := b]) = locked bs - receipts (bs ! k) + receipts b"
proof (induction bs arbitrary: k)
  case (Cons c cs)
  then show ?case
    by (cases k) simp_all
qed simp

lemma lock_bucket_value:
  assumes "list_all bucket_ok (LIUSDBuckets s)" and "0 < a"
    and "calculateLock s (Some a) (getLIUSDIndex s t) = Inr out"
  obtains bs where "lock_bucket s t (Some out) (Some a) = Inr bs" "list_all bucket_ok bs"
    "locked bs = locked (LIUSDBuckets s) + a" "length bs = length (LIUSDBuckets s)"
    "\<forall>k < length bs. shares (LIUSDBuckets s ! k) = 0 \<or>
       receipts (LIUSDBuckets s ! k) * shares (bs ! k) \<le> receipts (bs ! k) * shares (LIUSDBuckets s ! k)"
proof -
  let ?i = "getLIUSDIndex s t" and ?bs = "LIUSDBuckets s"
  obtain b where b: "0 \<le> ?i" "?i < int (length ?bs)" "b = ?bs ! nat ?i" "bucket_ok b" "0 \<le> out"
    "0 < shares b \<longrightarrow> out * receipts b \<le> a * shares b"
    using lock_value [OF assms] by metis
  from b(4) obtain v: "TotalSupply_b b = Some (shares b)" "TotalReceiptTokens (BucketData b) = Some (receipts b)"
    "0 \<le> shares b" "0 \<le> receipts b"
    by (rule bucket_okE)
  define b' where "b' = b\<lparr>TotalSupply_b := Some (shares b + out),
    BucketData := (BucketData b)\<lparr>TotalReceiptTokens := Some (receipts b + a)\<rparr>\<rparr>"
  have k: "nat ?i < length ?bs"
    using b(1,2) by (simp add: nat_less_iff)
  have b': "bucket_ok b'" "receipts b' = receipts b + a" "shares b' = shares b + out"
    using v b(5) assms(2) by (simp_all add: b'_def bucket_ok_def receipts_def shares_def)
  have "lock_bucket s t (Some out) (Some a) = Inr (?bs[nat ?i := b'])"
    using b(1-3) v(1,2) by (simp add: lock_bucket_def Let_def b'_def)
  moreover have "list_all bucket_ok (?bs[nat ?i := b'])"
    using assms(1) b'(1) by (auto simp: list_all_iff dest: set_update_subset_insert [THEN subsetD])
  moreover have "locked (?bs[nat ?i := b']) = locked ?bs + a"
    using k b(3) b'(2) by (simp add: locked_update)
  moreover have "\<forall>n < length ?bs. shares (?bs ! n) = 0 \<or>
       receipts (?bs ! n) * shares (?bs[nat ?i := b'] ! n) \<le> receipts (?bs[nat ?i := b'] ! n) * shares (?bs ! n)"
  proof (intro allI impI)
    fix n assume "n < length ?bs"
    then show "shares (?bs ! n) = 0 \<or>
       receipts (?bs ! n) * shares (?bs[nat ?i := b'] ! n) \<le> receipts (?bs[nat ?i := b'] ! n) * shares (?bs ! n)"
      using b(3,6) b'(2,3) v(3) by (cases "n = nat ?i") (auto simp: algebra_simps)
  qed
  ultimately show thesis
    by (intro that [of "?bs[nat ?i := b']"]) simp_all
qed

subsection \<open>Operations\<close>

text \<open>iUSD neither staked nor locked, and what a caller must hold for an operation.\<close>

definition free :: "'addr PoolSimulator \<Rightarrow> int" where
  "free s = the (IUSDSupply s) - the (SIUSDTotalAssets s) - locked (LIUSDBuckets s)"

definition holds :: "'addr PoolSimulator \<Rightarrow> Action \<Rightarrow> int \<Rightarrow> bool" where
  "holds s act a =
     (case act of
        ActionRedeem \<Rightarrow> a \<le> free s | ActionStake \<Rightarrow> a \<le> free s | ActionCreatePosition \<Rightarrow> a \<le> free s
      | ActionUnstake \<Rightarrow> a \<le> the (SIUSDSupply s) | ActionUnstakeAndRedeem \<Rightarrow> a \<le> the (SIUSDSupply s)
      | _ \<Rightarrow> True)"

text \<open>No share of the vault or of a bucket loses value: assets per share, as cross products.\<close>

definition value_kept :: "'addr PoolSimulator \<Rightarrow> 'addr PoolSimulator \<Rightarrow> bool" where
  "value_kept s s' =
     ((the (SIUSDSupply s) = 0 \<or>
       the (SIUSDTotalAssets s) * the (SIUSDSupply s') \<le> the (SIUSDTotalAssets s') * the (SIUSDSupply s)) \<and>
      length (LIUSDBuckets s') = length (LIUSDBuckets s) \<and>
      list_all (\<lambda>(b, b'). shares b = 0 \<or> receipts b * shares b' \<le> receipts b' * shares b)
        (zip (LIUSDBuckets s) (LIUSDBuckets s')))"

lemma same_buckets_kept:
  "list_all (\<lambda>(b, b'). shares b = 0 \<or> receipts b * shares b' \<le> receipts b' * shares b) (zip bs bs)"
  by (induction bs) simp_all

lemma bucket_reserves_ok:
  "list_all bucket_ok bs \<Longrightarrow> 0 \<le> i \<Longrightarrow> \<exists>rs'. bucket_reserves bs i rs = Inr rs' \<and> length rs' = length rs"
proof (induction bs arbitrary: i rs)
  case (Cons b bs)
  from Cons.prems have b: "TotalSupply_b b = Some (shares b)" "list_all bucket_ok bs" "0 \<le> i + 1"
    by (auto elim: bucket_okE)
  show ?case
    using Cons.IH [OF b(2,3), of rs] Cons.IH [OF b(2,3), of "rs[nat (i + 2) := Some (shares b)]"] Cons.prems(2)
    by (auto simp: b(1))
qed simp

lemma display_reserves_ok:
  assumes "backed s"
  obtains rs where "display_reserves s = Inr rs" "length rs = length (Reserves (Info s))"
proof -
  obtain ta ss where v: "SIUSDTotalAssets s = Some ta" "SIUSDSupply s = Some ss" "list_all bucket_ok (LIUSDBuckets s)"
    using assms by (rule backedE)
  have len: "3 \<le> length (Reserves (Info s))"
    using assms by (simp add: backed_def)
  obtain rs where "bucket_reserves (LIUSDBuckets s) 0 ((Reserves (Info s))[1 := Some ta, 2 := Some ss]) = Inr rs"
    "length rs = length (Reserves (Info s))"
    using bucket_reserves_ok [OF v(3), of 0 "(Reserves (Info s))[1 := Some ta, 2 := Some ss]"] by auto
  with v len that show thesis
    by (simp add: display_reserves_def)
qed

lemma keptI:
  assumes "backed s" and "IUSDSupply s' = Some i'" and "SIUSDTotalAssets s' = Some ta'" and "SIUSDSupply s' = Some ss'"
    and "0 \<le> ta'" and "0 \<le> ss'" and "ta' + locked (LIUSDBuckets s') \<le> i'" and "Info s' = Info s"
    and "the (SIUSDSupply s) = 0 \<or> the (SIUSDTotalAssets s) * ss' \<le> ta' * the (SIUSDSupply s)"
    and "list_all bucket_ok (LIUSDBuckets s')" and "length (LIUSDBuckets s') = length (LIUSDBuckets s)"
    and "list_all (\<lambda>(b, b'). shares b = 0 \<or> receipts b * shares b' \<le> receipts b' * shares b)
      (zip (LIUSDBuckets s) (LIUSDBuckets s'))"
  shows "backed s' \<and> value_kept s s' \<and> Info s' = Info s"
  using assms by (simp add: backed_def value_kept_def)

lemma vault_kept:
  assumes "backed s" and "IUSDSupply s' = Some i'" and "SIUSDTotalAssets s' = Some ta'" and "SIUSDSupply s' = Some ss'"
    and "0 \<le> ta'" and "0 \<le> ss'" and "ta' + locked (LIUSDBuckets s) \<le> i'"
    and "the (SIUSDSupply s) = 0 \<or> the (SIUSDTotalAssets s) * ss' \<le> ta' * the (SIUSDSupply s)"
    and "LIUSDBuckets s' = LIUSDBuckets s" and "Info s' = Info s"
  shows "backed s' \<and> value_kept s s' \<and> Info s' = Info s"
  by (rule keptI) (use assms in \<open>simp_all add: same_buckets_kept backed_def\<close>)

lemma stake_kept:
  assumes "backed s" and "0 < a" and "calculateStake s (Some a) = Inr out" and "d = 0 \<and> a \<le> free s \<or> d = a"
    and "IUSDSupply s = Some i" and "SIUSDTotalAssets s = Some ta" and "SIUSDSupply s = Some ss"
    and "IUSDSupply s' = Some (i + d)" and "SIUSDTotalAssets s' = Some (ta + a)" and "SIUSDSupply s' = Some (ss + out)"
    and "LIUSDBuckets s' = LIUSDBuckets s" and "Info s' = Info s"
  shows "backed s' \<and> value_kept s s' \<and> Info s' = Info s"
proof -
  have v: "0 \<le> ta" "0 \<le> ss" "ta + locked (LIUSDBuckets s) \<le> i"
    using assms(1,5-7) by (auto elim: backedE)
  have out: "0 \<le> out" "ta = 0 \<or> ss = 0 \<or> out * ta \<le> a * ss"
    using stake_value [OF assms(1,2)] assms(3,6,7) by (metis option.inject sum.inject(2))+
  show ?thesis
  proof (rule vault_kept [OF assms(1,8-10) _ _ _ _ assms(11,12)])
    show "the (SIUSDSupply s) = 0 \<or>
        the (SIUSDTotalAssets s) * (ss + out) \<le> (ta + a) * the (SIUSDSupply s)"
      using out v assms(2,6,7) by (auto simp: algebra_simps)
    show "ta + a + locked (LIUSDBuckets s) \<le> i + d"
      using assms(2,4-6) v(3) by (auto simp: free_def)
  qed (use v out assms(2) in simp_all)
qed

lemma unstake_kept:
  assumes "backed s" and "0 < a" and "a \<le> ss" and "calculateUnstake s (Some a) = Inr out" and "d = 0 \<or> d = out"
    and "IUSDSupply s = Some i" and "SIUSDTotalAssets s = Some ta" and "SIUSDSupply s = Some ss"
    and "IUSDSupply s' = Some (i - d)" and "SIUSDTotalAssets s' = Some (ta - out)" and "SIUSDSupply s' = Some (ss - a)"
    and "LIUSDBuckets s' = LIUSDBuckets s" and "Info s' = Info s"
  shows "backed s' \<and> value_kept s s' \<and> Info s' = Info s"
proof -
  have v: "0 \<le> ta" "0 \<le> ss" "ta + locked (LIUSDBuckets s) \<le> i"
    using assms(1,6-8) by (auto elim: backedE)
  have out: "0 \<le> out" "out * ss \<le> a * ta" "out \<le> ta"
    using unstake_value [OF assms(1,2,8,3)] assms(4,7) by (metis option.inject sum.inject(2))+
  show ?thesis
  proof (rule vault_kept [OF assms(1,9-11) _ _ _ _ assms(12,13)])
    show "the (SIUSDSupply s) = 0 \<or>
        the (SIUSDTotalAssets s) * (ss - a) \<le> (ta - out) * the (SIUSDSupply s)"
      using out(2) assms(7,8) by (auto simp: algebra_simps)
    show "ta - out + locked (LIUSDBuckets s) \<le> i - d"
      using assms(5) out v(3) by auto
  qed (use out assms(3) in simp_all)
qed

lemma lock_kept:
  assumes "backed s" and "0 < a" and "calculateLock s (Some a) (getLIUSDIndex s t) = Inr out"
    and "d = 0 \<and> a \<le> free s \<or> d = a" and "IUSDSupply s = Some i"
  obtains bs where "lock_bucket s t (Some out) (Some a) = Inr bs"
    "\<And>s'. IUSDSupply s' = Some (i + d) \<Longrightarrow> SIUSDTotalAssets s' = SIUSDTotalAssets s \<Longrightarrow>
      SIUSDSupply s' = SIUSDSupply s \<Longrightarrow> LIUSDBuckets s' = bs \<Longrightarrow> Info s' = Info s \<Longrightarrow>
      backed s' \<and> value_kept s s' \<and> Info s' = Info s"
proof -
  obtain ta ss where v: "SIUSDTotalAssets s = Some ta" "SIUSDSupply s = Some ss" "0 \<le> ta" "0 \<le> ss"
    "list_all bucket_ok (LIUSDBuckets s)"
    using assms(1) by (rule backedE)
  have sum: "ta + locked (LIUSDBuckets s) \<le> i"
    using assms(1,5) v(1,2) by (auto elim: backedE)
  obtain bs where bs: "lock_bucket s t (Some out) (Some a) = Inr bs" "list_all bucket_ok bs"
    "locked bs = locked (LIUSDBuckets s) + a" "length bs = length (LIUSDBuckets s)"
    "\<forall>k < length bs. shares (LIUSDBuckets s ! k) = 0 \<or>
       receipts (LIUSDBuckets s ! k) * shares (bs ! k) \<le> receipts (bs ! k) * shares (LIUSDBuckets s ! k)"
    using assms(2,3) by (rule lock_bucket_value [OF v(5)])
  have "ta + locked bs \<le> i + d"
    using sum assms(2,4,5) v(1) bs(3) by (auto simp: free_def)
  then have "backed s' \<and> value_kept s s' \<and> Info s' = Info s"
    if "IUSDSupply s' = Some (i + d)" "SIUSDTotalAssets s' = SIUSDTotalAssets s" "SIUSDSupply s' = SIUSDSupply s"
      "LIUSDBuckets s' = bs" "Info s' = Info s" for s'
    using that v bs(2,4,5)
    by (intro keptI [OF assms(1), of s' "i + d" ta ss]) (auto simp: list_all_length)
  with bs(1) show thesis
    by (rule that)
qed

lemma apply_kept:
  assumes "backed s" and "0 < a" and "holds s act a" and "perform s act t (Some a) = Inr (out, rest)"
  shows "\<exists>s'. apply_action s act t (Some a) (Some out) = Inr s' \<and> backed s' \<and> value_kept s s' \<and> Info s' = Info s"
proof -
  obtain i ta ss where v: "IUSDSupply s = Some i" "SIUSDTotalAssets s = Some ta" "SIUSDSupply s = Some ss"
    "0 \<le> ta" "0 \<le> ss" "ta + locked (LIUSDBuckets s) \<le> i" "list_all bucket_ok (LIUSDBuckets s)"
    using assms(1) by (rule backedE)
  note defs = perform_def apply_action_def holds_def calculateMint_def calculateMintAndStake_def
    calculateMintAndLock_def calculateRedeem_def
  show ?thesis
  proof (cases act)
    case ActionMint
    then show ?thesis
      using assms(2,4) v vault_kept [OF assms(1), of "s\<lparr>IUSDSupply := Some (i + out)\<rparr>" "i + out" ta ss]
      by (auto simp: defs)
  next
    case ActionRedeem
    then show ?thesis
      using assms(3) v vault_kept [OF assms(1), of "s\<lparr>IUSDSupply := Some (i - a)\<rparr>" "i - a" ta ss]
      by (auto simp: defs free_def)
  next
    case ActionStake
    then have "calculateStake s (Some a) = Inr out" and "0 = (0 :: int) \<and> a \<le> free s \<or> 0 = a"
      using assms(3,4) by (auto simp: defs bnd_eq_Inr)
    from stake_kept [OF assms(1,2) this v(1-3),
        of "s\<lparr>SIUSDTotalAssets := Some (ta + a), SIUSDSupply := Some (ss + out)\<rparr>"] ActionStake v(1-3)
    show ?thesis
      by (simp add: defs)
  next
    case ActionUnstake
    then have "calculateUnstake s (Some a) = Inr out" and "0 = (0 :: int) \<or> 0 = out" and "a \<le> ss"
      using assms(3,4) v(3) by (auto simp: defs bnd_eq_Inr)
    from unstake_kept [OF assms(1,2) this(3,1,2) v(1-3),
        of "s\<lparr>SIUSDTotalAssets := Some (ta - out), SIUSDSupply := Some (ss - a)\<rparr>"] ActionUnstake v(1-3)
    show ?thesis
      by (simp add: defs)
  next
    case ActionMintAndStake
    then have "calculateStake s (Some (a * 10 ^ 12)) = Inr out"
      and "a * 10 ^ 12 = 0 \<and> a * 10 ^ 12 \<le> free s \<or> a * 10 ^ 12 = a * 10 ^ 12" and "0 < a * 10 ^ 12"
      using assms(2,4) by (auto simp: defs bnd_eq_Inr)
    from stake_kept [OF assms(1) this(3,1,2) v(1-3), of "s\<lparr>IUSDSupply := Some (i + a * 10 ^ 12),
        SIUSDTotalAssets := Some (ta + a * 10 ^ 12), SIUSDSupply := Some (ss + out)\<rparr>"] ActionMintAndStake v(1-3)
    show ?thesis
      by (simp add: defs)
  next
    case ActionCreatePosition
    then have "calculateLock s (Some a) (getLIUSDIndex s t) = Inr out" and "0 = (0 :: int) \<and> a \<le> free s \<or> 0 = a"
      using assms(3,4) by (auto simp: defs bnd_eq_Inr)
    from lock_kept [OF assms(1,2) this v(1)] obtain bs where "lock_bucket s t (Some out) (Some a) = Inr bs"
      and "backed (s\<lparr>LIUSDBuckets := bs\<rparr>) \<and> value_kept s (s\<lparr>LIUSDBuckets := bs\<rparr>) \<and>
        Info (s\<lparr>LIUSDBuckets := bs\<rparr>) = Info s"
      using v(1) by force
    with ActionCreatePosition show ?thesis
      by (simp add: defs)
  next
    case ActionMintAndLock
    then have "calculateLock s (Some (a * 10 ^ 12)) (getLIUSDIndex s t) = Inr out"
      and "a * 10 ^ 12 = 0 \<and> a * 10 ^ 12 \<le> free s \<or> a * 10 ^ 12 = a * 10 ^ 12" and "0 < a * 10 ^ 12"
      using assms(2,4) by (auto simp: defs bnd_eq_Inr)
    from lock_kept [OF assms(1) this(3,1,2) v(1)] obtain bs where
      "lock_bucket s t (Some out) (Some (a * 10 ^ 12)) = Inr bs"
      and "backed (s\<lparr>IUSDSupply := Some (i + a * 10 ^ 12), LIUSDBuckets := bs\<rparr>) \<and>
        value_kept s (s\<lparr>IUSDSupply := Some (i + a * 10 ^ 12), LIUSDBuckets := bs\<rparr>) \<and>
        Info (s\<lparr>IUSDSupply := Some (i + a * 10 ^ 12), LIUSDBuckets := bs\<rparr>) = Info s"
      by force
    with ActionMintAndLock v(1) show ?thesis
      by (simp add: defs)
  next
    case ActionUnstakeAndRedeem
    then have "a \<le> ss"
      using assms(3) v(3) by (auto simp: defs)
    then obtain x where x: "calculateUnstake s (Some a) = Inr x"
      using unstake_value [OF assms(1,2) v(3)] by metis
    from unstake_kept [OF assms(1,2) \<open>a \<le> ss\<close> x _ v(1-3), of x "s\<lparr>IUSDSupply := Some (i - x),
        SIUSDTotalAssets := Some (ta - x), SIUSDSupply := Some (ss - a)\<rparr>"] ActionUnstakeAndRedeem v(1-3) x
    show ?thesis
      by (simp add: defs)
  qed
qed

subsection \<open>Applying quotes\<close>

lemma infinifi_CalcAmountOut_Inr:
  assumes "CalcAmountOut c s q = Inr r"
  obtains act out g k e where
    "action_of c s (to_lower (Token (TokenAmountIn q))) (to_lower (TokenOut q)) = Some act"
    "perform s act (to_lower (TokenOut q)) (Amount (TokenAmountIn q)) = Inr (out, g, k, e)"
    "TokenAmountOut r = Some (token_amount (to_lower (TokenOut q)) (Some out))"
    "SwapInfo r = Some \<lparr>Act = act, QuoterControllers = k, UnwindingEpochs = e\<rparr>"
  using assms by (auto simp: CalcAmountOut_def Let_def go_simps split: if_splits option.splits)

lemma quote_kept:
  assumes "backed s" and "Amount (TokenAmountIn q) = Some a" and "0 < a" and "CalcAmountOut c s q = Inr r"
    and "SwapInfo r = Some si" and "holds s (Act si) a"
  shows "\<exists>s'. UpdateBalance c s (update_params q r) = Inr s' \<and> backed s' \<and> value_kept s s'"
proof -
  obtain act out g k e where q: "action_of c s (to_lower (Token (TokenAmountIn q))) (to_lower (TokenOut q)) = Some act"
    "perform s act (to_lower (TokenOut q)) (Some a) = Inr (out, g, k, e)"
    "TokenAmountOut r = Some (token_amount (to_lower (TokenOut q)) (Some out))"
    "SwapInfo r = Some \<lparr>Act = act, QuoterControllers = k, UnwindingEpochs = e\<rparr>"
    using infinifi_CalcAmountOut_Inr [OF assms(4)] assms(2) by metis
  have "si = \<lparr>Act = act, QuoterControllers = k, UnwindingEpochs = e\<rparr>"
    using assms(5) q(4) by simp
  then have "holds s act a"
    using assms(6) by simp
  from apply_kept [OF assms(1,3) this q(2)] obtain s1 where
    s1: "apply_action s act (to_lower (TokenOut q)) (Some a) (Some out) = Inr s1" "backed s1" "value_kept s s1"
    by blast
  obtain rs where rs: "display_reserves s1 = Inr rs" "length rs = length (Reserves (Info s1))"
    using s1(2) by (rule display_reserves_ok)
  have "UpdateBalance c s (update_params q r) = Inr (s1\<lparr>Info := (Info s1)\<lparr>Reserves := rs\<rparr>\<rparr>)"
    using assms(2) q(1,3) s1(1) rs(1) by (simp add: UpdateBalance_def Let_def)
  moreover have "backed (s1\<lparr>Info := (Info s1)\<lparr>Reserves := rs\<rparr>\<rparr>)"
    using s1(2) rs(2) by (auto simp: backed_def split: option.splits)
  moreover have "value_kept s (s1\<lparr>Info := (Info s1)\<lparr>Reserves := rs\<rparr>\<rparr>)"
    using s1(3) by (simp add: value_kept_def)
  ultimately show ?thesis by blast
qed

inductive infinifi_step ::
    "(string list \<Rightarrow> string \<Rightarrow> bool) \<Rightarrow> 'addr PoolSimulator \<Rightarrow> 'addr PoolSimulator \<Rightarrow> bool" for c where
  operate: "Amount (TokenAmountIn (q :: unit CalcAmountOutParams)) = Some a \<Longrightarrow> 0 < a \<Longrightarrow>
    CalcAmountOut c s q = Inr r \<Longrightarrow> SwapInfo r = Some si \<Longrightarrow> holds s (Act si) a \<Longrightarrow>
    UpdateBalance c s (update_params q r) = Inr s' \<Longrightarrow> infinifi_step c s s'"

inductive_cases infinifi_stepE: "infinifi_step c s s'"

lemma infinifi_step_backed: "infinifi_step c s s' \<Longrightarrow> backed s \<Longrightarrow> backed s'"
  by (erule infinifi_stepE) (metis quote_kept sum.inject(2))

lemma infinifi_reachable_backed: "(infinifi_step c)\<^sup>*\<^sup>* s s' \<Longrightarrow> backed s \<Longrightarrow> backed s'"
  by (induction rule: rtranclp_induct) (auto intro: infinifi_step_backed)

text \<open>C27: while callers spend only what they hold, every quote can be applied after any sequence of operations,
  the iUSD supply keeps covering what is staked and locked, and no share of the vault or of a bucket loses
  value.\<close>

theorem infinifi_backed:
  assumes "backed s0" and "(infinifi_step c)\<^sup>*\<^sup>* s0 s" and "Amount (TokenAmountIn q) = Some a" and "0 < a"
    and "CalcAmountOut c s q = Inr r" and "SwapInfo r = Some si" and "holds s (Act si) a"
  shows "\<exists>s'. UpdateBalance c s (update_params q r) = Inr s' \<and> backed s' \<and> value_kept s s'"
  by (rule quote_kept [OF infinifi_reachable_backed [OF assms(2,1)] assms(3-7)])

text \<open>A gateway with one bucket, and a caller who mints 5 USDC into shares of the vault.\<close>

definition gateway :: "nat PoolSimulator" where
  "gateway = \<lparr>Info = \<lparr>Address = ''g'', Exchange = ''infinifi'', Type = ''infinifi-gateway'',
       Tokens = [''usdc'', ''iusd'', ''siusd'', ''liusd''],
       Reserves = [Some (10 ^ 14), Some (300 * 10 ^ 18), Some (200 * 10 ^ 18), Some (90 * 10 ^ 18)],
       SwapFee = None, BlockNumber = 0\<rparr>,
     IsPaused = False, IUSDSupply = Some (500 * 10 ^ 18), SIUSDTotalAssets = Some (300 * 10 ^ 18),
     SIUSDSupply = Some (200 * 10 ^ 18),
     LIUSDBuckets = [\<lparr>Index = 8, TotalSupply_b = Some (90 * 10 ^ 18),
       BucketData = \<lparr>ShareToken = 1, TotalReceiptTokens = Some (100 * 10 ^ 18), Multiplier = Some 1\<rparr>\<rparr>],
     usdc = ''usdc'', iusd = ''iusd'', siusd = ''siusd'', liusdTokens = [''liusd'']\<rparr>"

definition gateway_quote :: "string \<Rightarrow> string \<Rightarrow> int \<Rightarrow> unit CalcAmountOutParams" where
  "gateway_quote t u a = \<lparr>TokenAmountIn = token_amount t (Some a), TokenOut = u, Limit = None\<rparr>"

abbreviation is_in :: "string list \<Rightarrow> string \<Rightarrow> bool" where
  "is_in xs x \<equiv> list_ex (\<lambda>y. y = x) xs"

lemma gateway_backed: "backed gateway"
  by (simp add: backed_def gateway_def bucket_ok_def receipts_def)

lemma gateway_quotes:
  "CalcAmountOut is_in gateway (gateway_quote ''usdc'' ''siusd'' 5000000) =
     Inr \<lparr>TokenAmountOut = Some (token_amount ''siusd'' (Some 3333333333333333333)),
       Fee = Some (token_amount ''usdc'' (Some 0)), RemainingTokenAmountIn = None, Gas = 1147226,
       SwapInfo = Some \<lparr>Act = ActionMintAndStake, QuoterControllers = [MintControllerAddress], UnwindingEpochs = 0\<rparr>\<rparr>"
  "CalcAmountOut is_in gateway (gateway_quote ''iusd'' ''liusd'' (9 * 10 ^ 18)) =
     Inr \<lparr>TokenAmountOut = Some (token_amount ''liusd'' (Some (81 * 10 ^ 17))),
       Fee = Some (token_amount ''iusd'' (Some 0)), RemainingTokenAmountIn = None, Gas = 155769,
       SwapInfo = Some \<lparr>Act = ActionCreatePosition, QuoterControllers = [LockControllerAddress], UnwindingEpochs = 8\<rparr>\<rparr>"
  by code_simp+

theorem infinifi_backed_witness:
  "\<exists>s'. UpdateBalance is_in gateway (update_params (gateway_quote ''usdc'' ''siusd'' 5000000)
     \<lparr>TokenAmountOut = Some (token_amount ''siusd'' (Some 3333333333333333333)),
       Fee = Some (token_amount ''usdc'' (Some 0)), RemainingTokenAmountIn = None, Gas = 1147226,
       SwapInfo = Some \<lparr>Act = ActionMintAndStake, QuoterControllers = [MintControllerAddress],
         UnwindingEpochs = 0\<rparr>\<rparr>) = Inr s' \<and> backed s' \<and> value_kept gateway s'"
  by (rule infinifi_backed [OF gateway_backed rtranclp.rtrancl_refl _ _ gateway_quotes(1), of 5000000
      "\<lparr>Act = ActionMintAndStake, QuoterControllers = [MintControllerAddress], UnwindingEpochs = 0\<rparr>"])
    (simp_all add: gateway_quote_def holds_def token_amount_def)

subsection \<open>There and back\<close>

lemma div_trans_le:
  "x * t \<le> A * u \<Longrightarrow> 0 < u \<Longrightarrow> A = a * m \<Longrightarrow> 0 < m \<Longrightarrow> x * t div u div m \<le> (a :: int)"
  using zdiv_mono1 [of "x * t" "A * u" u] zdiv_mono1 [of "x * t div u" A m] by simp

text \<open>C28: minting and staking, then unstaking and redeeming the shares received, never pays more than was put in,
  unless the vault holds assets that belong to no share.\<close>

theorem infinifi_round_trip:
  assumes "backed s" and "SIUSDTotalAssets s = Some 0 \<or> SIUSDSupply s \<noteq> Some 0" and "0 < a"
    and "perform s ActionMintAndStake t (Some a) = Inr (out, rest)"
    and "apply_action s ActionMintAndStake t (Some a) (Some out) = Inr s'"
  shows "\<exists>back. perform s' ActionUnstakeAndRedeem t' (Some out) = Inr (back, 4431817, [RedeemControllerAddress], 0) \<and>
    back \<le> a"
proof -
  obtain i ta ss where v: "SIUSDTotalAssets s = Some ta" "SIUSDSupply s = Some ss" "0 \<le> ta" "0 \<le> ss"
    using assms(1) by (rule backedE)
  have empty: "ta = 0 \<or> 0 < ss"
    using assms(2) v by auto
  obtain A where A: "A = a * 10 ^ 12" "0 < A"
    using assms(3) by simp
  have stake: "calculateStake s (Some A) = Inr out"
    using assms(4) by (auto simp: A(1) perform_def calculateMintAndStake_def calculateMint_def bnd_eq_Inr)
  have o': "0 \<le> out" "ta = 0 \<or> ss = 0 \<or> out * ta \<le> A * ss"
    using stake_value [OF assms(1) A(2)] stake v(1,2) by (metis option.inject sum.inject(2))+
  have s': "SIUSDTotalAssets s' = Some (ta + A)" "SIUSDSupply s' = Some (ss + out)"
    using assms(5) v(1,2) by (auto simp: A(1) apply_action_def calculateMint_def bnd_eq_Inr plus_def)
  have le: "out * ta \<le> A * ss"
    using o' empty v(3,4) A(2) by (cases "ta = 0") auto
  show ?thesis
  proof (cases "ss + out = 0")
    case True
    with s' assms(3) show ?thesis
      by (simp add: perform_def calculateUnstakeAndRedeem_def calculateUnstake_def calculateRedeem_def)
  next
    case False
    then have pos: "0 < ss + out"
      using v(4) o'(1) by simp
    have "out * (ta + A) \<le> A * (ss + out)"
      using le by (simp add: algebra_simps)
    from div_trans_le [OF this pos A(1)]
    have "out * (ta + A) div (ss + out) div 10 ^ 12 \<le> a"
      by simp
    with s' pos show ?thesis
      by (simp add: perform_def calculateUnstakeAndRedeem_def calculateUnstake_def calculateRedeem_def big_div_def)
  qed
qed

theorem infinifi_round_trip_witness:
  "\<exists>back s'. apply_action gateway ActionMintAndStake ''siusd'' (Some 5000000) (Some 3333333333333333333) = Inr s' \<and>
    perform s' ActionUnstakeAndRedeem ''usdc'' (Some 3333333333333333333) =
      Inr (back, 4431817, [RedeemControllerAddress], 0) \<and> back \<le> 5000000"
proof -
  have p: "perform gateway ActionMintAndStake ''siusd'' (Some 5000000) =
      Inr (3333333333333333333, 1147226, [MintControllerAddress], 0)"
    by code_simp
  have h: "SIUSDTotalAssets gateway = Some 0 \<or> SIUSDSupply gateway \<noteq> Some 0"
    by (simp add: gateway_def)
  obtain s' where s': "apply_action gateway ActionMintAndStake ''siusd'' (Some 5000000) (Some 3333333333333333333) = Inr s'"
    by (simp add: apply_action_def calculateMint_def gateway_def)
  from infinifi_round_trip [OF gateway_backed h _ p s', of "''usdc''"] s' show ?thesis
    by auto
qed

subsection \<open>The displayed reserves\<close>

lemma bucket_reserves_nth:
  "bucket_reserves bs i rs = Inr rs' \<Longrightarrow> 0 \<le> i \<Longrightarrow> length rs' = length rs \<and>
   (\<forall>k. k < nat i + 2 \<longrightarrow> rs' ! k = rs ! k) \<and>
   (\<forall>k < length bs. nat i + k + 2 < length rs \<longrightarrow> rs' ! (nat i + k + 2) = TotalSupply_b (bs ! k))"
proof (induction bs arbitrary: i rs)
  case (Cons b bs)
  obtain rs1 where rs1: "(if i + 2 < int (length rs)
      then bnd (deref (TotalSupply_b b)) (\<lambda>v. upd rs (i + 2) (Some v)) else Inr rs) = Inr rs1"
    "bucket_reserves bs (i + 1) rs1 = Inr rs'"
    using Cons.prems(1) by (auto simp: bnd_eq_Inr)
  have rs1_eq: "length rs1 = length rs" "k < nat i + 2 \<Longrightarrow> rs1 ! k = rs ! k"
    "nat i + 2 < length rs \<Longrightarrow> rs1 ! (nat i + 2) = TotalSupply_b b" for k
    using rs1(1) Cons.prems(2) by (auto simp: go_simps nat_add_distrib split: if_splits)
  note IH = Cons.IH [OF rs1(2)]
  have ni: "nat (i + 1) = Suc (nat i)"
    using Cons.prems(2) by simp
  show ?case
  proof (intro conjI allI impI)
    show "length rs' = length rs"
      using IH Cons.prems(2) rs1_eq(1) by simp
    show "rs' ! k = rs ! k" if "k < nat i + 2" for k
      using IH Cons.prems(2) rs1_eq(2) that ni by simp
    show "rs' ! (nat i + k + 2) = TotalSupply_b ((b # bs) ! k)"
      if "k < length (b # bs)" and "nat i + k + 2 < length rs" for k
    proof (cases k)
      case 0
      then show ?thesis
        using IH Cons.prems(2) rs1_eq(3) that ni by simp
    next
      case (Suc j)
      then have "rs' ! (nat (i + 1) + j + 2) = TotalSupply_b (bs ! j)"
        using IH Cons.prems(2) rs1_eq(1) that ni by auto
      with Suc ni show ?thesis
        by simp
    qed
  qed
qed simp

text \<open>After an update the displayed reserves are not those the tracker stores for the same state: the supply
  of bucket \<open>k\<close> stands at position \<open>k + 2\<close> instead of \<open>k + 3\<close>, so the siUSD supply is overwritten.\<close>

theorem infinifi_reserves_shifted:
  assumes "UpdateBalance c s p = Inr s'" and "k < length (LIUSDBuckets s')" and "k + 2 < length (Reserves (Info s'))"
  shows "Reserves (Info s') ! (k + 2) = TotalSupply_b (LIUSDBuckets s' ! k) \<and>
    tracker_reserves s' ! (k + 3) = TotalSupply_b (LIUSDBuckets s' ! k) \<and> tracker_reserves s' ! 2 = SIUSDSupply s'"
proof -
  obtain s1 rs where u: "display_reserves s1 = Inr rs" "s' = s1\<lparr>Info := (Info s1)\<lparr>Reserves := rs\<rparr>\<rparr>"
    using assms(1) by (auto simp: UpdateBalance_def Let_def bnd_eq_Inr)
  obtain rs0 where rs0: "bucket_reserves (LIUSDBuckets s1) 0 rs0 = Inr rs"
    using u(1) by (auto simp: display_reserves_def bnd_eq_Inr)
  from bucket_reserves_nth [OF rs0] assms(2,3) u(2) have "rs ! (k + 2) = TotalSupply_b (LIUSDBuckets s1 ! k)"
    by auto
  with u(2) assms(2) show ?thesis
    by (simp add: tracker_reserves_def)
qed

theorem infinifi_reserves_shifted_witness:
  "\<exists>s'. UpdateBalance is_in gateway \<lparr>TokenAmountIn_u = token_amount ''iusd'' (Some (9 * 10 ^ 18)),
      TokenAmountOut_u = token_amount ''liusd'' (Some (81 * 10 ^ 17)), Fee_u = token_amount ''iusd'' (Some 0),
      SwapInfo_u = Some \<lparr>Act = ActionCreatePosition, QuoterControllers = [LockControllerAddress], UnwindingEpochs = 8\<rparr>,
      SwapLimit_u = (None :: unit option)\<rparr> = Inr s' \<and>
    Reserves (Info s') ! (0 + 2) = TotalSupply_b (LIUSDBuckets s' ! 0) \<and>
    tracker_reserves s' ! (0 + 3) = TotalSupply_b (LIUSDBuckets s' ! 0) \<and> tracker_reserves s' ! 2 = SIUSDSupply s'"
proof -
  let ?p = "\<lparr>TokenAmountIn_u = token_amount ''iusd'' (Some (9 * 10 ^ 18)),
      TokenAmountOut_u = token_amount ''liusd'' (Some (81 * 10 ^ 17)), Fee_u = token_amount ''iusd'' (Some 0),
      SwapInfo_u = Some \<lparr>Act = ActionCreatePosition, QuoterControllers = [LockControllerAddress], UnwindingEpochs = 8\<rparr>,
      SwapLimit_u = (None :: unit option)\<rparr>"
  have "case UpdateBalance is_in gateway ?p of
      Inr s' \<Rightarrow> 0 < length (LIUSDBuckets s') \<and> 0 + 2 < length (Reserves (Info s')) | Inl e \<Rightarrow> False"
    by code_simp
  then obtain s' where s': "UpdateBalance is_in gateway ?p = Inr s'" "0 < length (LIUSDBuckets s')"
    "0 + 2 < length (Reserves (Info s'))"
    by (auto split: sum.splits)
  from infinifi_reserves_shifted [OF s'] s'(1) show ?thesis
    by blast
qed

end
