(* ===== verification/Spec2Isabelle.thy ===== *)
theory Spec2Isabelle
  imports Dmm Uniswap Syncswap_Classic Syncswap_Stable Velocimeter Usdfi Camelot Curve_Base Swaplimit_Threads
    Maker_Psm Lido_Steth Lido Limit_Order_Exact_Out Gmx Liquidity_Book_Swaps Platypus Fluid_Dex_Swaps Bancor_V21
    Wombat_Swaps Saddle_Swaps Wcm_Swaps Infinifi_Swaps
begin

text \<open>
  A verification library for the pool simulators of the repository.

  \<^bold>\<open>The program.\<close>  A router keeps a snapshot of every pool (\<open>pkg/entity\<close>: \<open>entity.Pool\<close>, written by
  the list updaters and trackers that read the chain).  A factory registered for the pool's type
  (\<open>pkg/source/pool\<close>) turns the snapshot into a simulator: a value behind the interface
  \<open>IPoolSimulator\<close>, whose \<open>CalcAmountOut\<close> quotes a swap, whose \<open>UpdateBalance\<close> applies a quote the
  router takes, and whose \<open>CloneState\<close> gives the router a copy to explore a route on.  Pools that
  share an inventory take a \<open>SwapLimit\<close> (\<open>pkg/swaplimit\<close>) with the call.  The simulators are the
  program's core: each mirrors the arithmetic of one on-chain contract in Go.

  \<^bold>\<open>Outcomes.\<close>  A Go call is a value of \<open>'a go\<close> (\<open>Go_Prelude\<close>): a result, a returned error or a panic
  (nil dereference, index out of range, division by zero, explicit panic).  A \<open>*big.Int\<close> is a
  \<open>bigint\<close>, \<open>None\<close> being nil; its division is the Euclidean \<open>big_div\<close> or the truncated \<open>big_quo\<close>,
  as the call says.  Fixed-width integers wrap around where the code computes with them.

  \<^bold>\<open>Theories and sources.\<close>
  \<^item> \<open>Go_Prelude\<close>, \<open>Go_Float\<close>: the language and \<open>math/big\<close>; \<open>Bignumber\<close>: \<open>pkg/util/bignumber\<close>;
    \<open>Entity\<close>: \<open>pkg/entity/pool.go\<close>; \<open>Valueobject\<close>: \<open>pkg/valueobject\<close> (chains, wrapped native tokens);
    \<open>Pool\<close>: \<open>pkg/source/pool\<close> (shared data, base methods, panic-catching quote, registry, RFQ batches).
  \<^item> \<open>Pool_Interface\<close>: the contract of \<open>IPoolSimulator\<close> as the locales \<open>pool_simulator\<close> (quotes are
    covered by the reserve, applying one never panics and keeps the simulator well formed) and
    \<open>k_simulator\<close> (a quantity no swap decreases), interpreted by the pair simulators.
  \<^item> Constant-product and stable pairs: \<open>Cpmm_Math\<close>, \<open>Newton\<close> (shared arithmetic), \<open>Dmm\<close>,
    \<open>Bancor_Formula\<close> and \<open>Uniswap\<close>, \<open>Syncswap_Classic\<close>, \<open>Syncswap_Stable\<close>, \<open>Solidly\<close> (the locale the
    Solidly forks interpret), \<open>Velocimeter\<close>, \<open>Usdfi\<close>, \<open>Camelot\<close>, \<open>Curve_Base\<close>: the packages of the same
    names under \<open>pkg/source\<close>.
  \<^item> \<open>Swaplimit\<close>: \<open>pkg/swaplimit\<close>, with an explicit heap that holds the Go maps and the numbers they point
    to, both shared by reference, and the locale \<open>isolated_limit\<close> for the limits whose clones are independent;
    \<open>Swaplimit_Threads\<close>: callers that run \<open>updateLimit\<close> one statement at a time, with and without the lock.
  \<^item> \<open>Limit_Order\<close> (definitions), \<open>Limit_Order_Fills\<close> (exact in), \<open>Limit_Order_Swaps\<close> (balance updates),
    \<open>Limit_Order_Exact_Out\<close> (exact out, and the maker limit for both directions): \<open>pkg/source/limitorder\<close>.  The locale
    \<open>swap_limit\<close> is what the simulator needs of a limit; \<open>Swaplimit.Inventory\<close> interprets it.
  \<^item> \<open>Maker_Psm\<close>: \<open>pkg/source/makerpsm\<close>; \<open>Lido\<close>, \<open>Lido_Steth\<close>: \<open>pkg/source/lido\<close>, \<open>lido-steth\<close>.
  \<^item> \<open>Gmx_Price_Feed\<close>, \<open>Gmx\<close>: \<open>pkg/source/gmx\<close>; vaults live in an explicit heap because a simulator
    and its fee utilities point at the same one.
  \<^item> \<open>Liquidity_Book_Math\<close> (prices, shift helpers, fees), \<open>Liquidity_Book\<close> (bins, search, walk, quotes and
    updates), \<open>Liquidity_Book_Walk\<close> and \<open>Liquidity_Book_Swaps\<close> (lemmas): \<open>pkg/source/liquiditybookv20\<close>.
  \<^item> \<open>Platypus\<close>: \<open>pkg/source/platypus\<close>; \<open>Fluid_Dex\<close> (definitions), \<open>Fluid_Dex_Swaps\<close> (lemmas):
    \<open>pkg/liquidity-source/fluid/dex-t1\<close>; \<open>Bancor_V21\<close>: \<open>pkg/liquidity-source/bancor-v21\<close> (the search for
    a conversion path and the pools it runs through).
  \<^item> \<open>Wombat\<close> (definitions), \<open>Wombat_Swaps\<close> (lemmas): \<open>pkg/source/wombat\<close>, the packages \<open>wombatmain\<close> and
    \<open>wombatlsd\<close> at once; \<open>Saddle\<close> (definitions), \<open>Saddle_Swaps\<close> (lemmas): \<open>pkg/source/saddle\<close>, whose simulator
    the packages \<open>nerve\<close>, \<open>oneswap\<close> and \<open>ironstable\<close> register under their own types.
  \<^item> \<open>Wcm\<close> (definitions), \<open>Wcm_Swaps\<close> (lemmas): \<open>pkg/liquidity-source/wcm\<close>, an on-chain order book;
    \<open>Infinifi\<close> (definitions), \<open>Infinifi_Swaps\<close> (lemmas): \<open>pkg/liquidity-source/infinifi/gateway\<close>.

  In every simulator theory the definitions come first and in the order of the source; the record
  \<open>PoolSimulator\<close> extends \<open>Pool\<close> as the struct embeds it, and each method is one definition (plus one
  per loop) whose branches are the early returns of the code.

  \<^bold>\<open>What the lemmas show.\<close>  For the pairs: a quote equals its reference formula or is the largest one
  the invariant allows, and no sequence of swaps lowers the invariant.  For the iterative solvers:
  the loop stops by its own test within the iterations the source allows, next to the exact root.  For the
  limit orders: a run of fills spends the taker's amount, pays each maker its price, never overfills
  an order, and orders with an available amount never exceed their maker's balance.  For the limits: what an
  update does, that clones are isolated or not, and that updates under the lock, however they interleave, are
  updates one after the other.  For Maker, Lido and GMX: round trips
  never gain, ceilings and reserves hold over all runs.  For the liquidity book: the walk through the
  bins ends, accounts for the whole input and never overdraws a bin.  For Platypus: well-typed pools never
  panic, and what slippage a quote is paid with.  For Fluid: each of the two pools pays for its share at its
  constant product, what it pays is booked and covered, and the price range stays.  For Bancor: a conversion path joins its two tokens and repeats
  nothing, when the search for it ends, and that no quote can be applied.  For Wombat: when the square root
  returns and what it returns, what a swap moves between the two assets, that cash stays non-negative over all
  swaps, and when the two packages agree.  For Saddle: swaps, deposits and redemptions of
  at most the LP supply can always be applied and leave no negative reserve or supply.  For the order book: updates refine taking units off the front of the book,
  exact-out purchases deliver, quotes are covered by the levels left.  For the gateway: what is staked and locked
  stays backed, no share loses value, and minting and staking, then unstaking and redeeming, gains nothing.  Theorems of kind \<open>error\<close> state where the
  code departs from what it means to do.

  \<^bold>\<open>Bounds.\<close>  Loop limits are those of the source (255 or 256 Newton iterations, the sample space of
  a price feed, the orders of a side); no other fuel is used: the walk through a liquidity book is a
  partial function, proved to return, and so are the power loop of Platypus, the path search of Bancor and the square
  root of Wombat, exactly for the inputs they return for; the recursion of a Wombat quote with its bound search is
  partial too, and its theorems speak of calls that return or name one that does not.  The shift helpers of the liquidity book are exact while products
  stay in 256 bits, so its theorems ask for reserves in 112 bits, as the contract keeps them.  Convergence of the Curve solver is shown
  for balances and invariants below \<open>2 ^ 120\<close>, far above any token supply in 18 decimals.

  \<^bold>\<open>Parameters.\<close>  Code outside the repository is an argument: JSON decoding in the constructors,
  \<open>lo\<close> helpers, \<open>errors.WithMessagef\<close>, the fixed-point package \<open>dsmath\<close> of the
  toolkit Wombat uses.  Where a theorem relies on such a function, its documented
  behaviour is a named hypothesis.  The clock is an argument too.

  \<^bold>\<open>Not modelled.\<close>  The trackers, list updaters and readers (RPC, HTTP and subgraph calls), the
  generated ABI bindings and MessagePack code, tests and mocks; the simulators of
  \<open>pkg/liquidity-source\<close> and \<open>pkg/source\<close> that compute with the third-party \<open>uint256\<close>
  package or rest on third-party SDKs; the remaining simulators on \<open>math/big\<close> (further Curve
  variants, Fraxswap, the other GMX forks, Synthetix, liquidity book v2.1, elastic pools), which
  are next in line.
\<close>

end
